(* ===== verification/JS_Prelude.thy ===== *)
theory JS_Prelude
  imports
    Complex_Main
    "HOL-Library.Multiset"
    "HOL-Library.AList"
begin

text \<open>
  The part of the TypeScript language and of its standard library that the modelled code uses:
  comparators and \<open>Array.prototype.sort\<close>, the code-unit order of strings, \<open>Set\<close> and \<open>Map\<close> (both
  keep insertion order), numbers and the values of type \<open>unknown\<close> that the validators inspect.
  The components import this theory; nothing in it models a file of the repository.

  A JavaScript string is a list of UTF-16 code units. It is a \<^typ>\<open>string\<close> here, so each code unit
  is one \<^typ>\<open>char\<close> and the strings that occur are those over the first 256 code units.
\<close>

named_theorems js_simps \<open>rewrite rules for the containers and values of the language\<close>
named_theorems cmp_intros \<open>closure rules for comparators\<close>

section \<open>Comparators\<close>

text \<open>
  A comparison callback returns a number of which only the sign matters. \<open>a || b\<close> on two such
  numbers takes the first unless it is zero.
\<close>

definition cmpOr :: "int \<Rightarrow> int \<Rightarrow> int" where
  "cmpOr a b = (if a \<noteq> 0 then a else b)"

text \<open>
  What ECMAScript calls a consistent comparator: a total preorder in the form of a sign function.
  \<open>Array.prototype.sort\<close> only has a specified result for such a callback.
\<close>

locale comparator =
  fixes cmp :: "'a \<Rightarrow> 'a \<Rightarrow> int"
  assumes cmp_refl: "cmp x x = 0"
    and cmp_anti: "0 < cmp x y \<longleftrightarrow> cmp y x < 0"
    and cmp_trans: "cmp x y \<le> 0 \<Longrightarrow> cmp y z \<le> 0 \<Longrightarrow> cmp x z \<le> 0"
begin

lemma cmp_zero_sym: "cmp x y = 0 \<longleftrightarrow> cmp y x = 0"
  using cmp_anti [of x y] cmp_anti [of y x] by linarith

lemma cmp_neg_iff: "cmp x y < 0 \<longleftrightarrow> 0 < cmp y x"
  by (simp add: cmp_anti)

lemma cmp_le_iff: "cmp x y \<le> 0 \<longleftrightarrow> 0 \<le> cmp y x"
  using cmp_anti [of x y] by linarith

lemma cmp_less_trans: "cmp x y < 0 \<Longrightarrow> cmp y z \<le> 0 \<Longrightarrow> cmp x z < 0"
  using cmp_trans [of y z x] cmp_le_iff [of y x] cmp_le_iff [of z x] by linarith

lemma cmp_le_less_trans: "cmp x y \<le> 0 \<Longrightarrow> cmp y z < 0 \<Longrightarrow> cmp x z < 0"
  using cmp_trans [of z x y] cmp_le_iff [of z y] cmp_le_iff [of z x] by linarith

lemma cmp_zero_trans: "cmp x y = 0 \<Longrightarrow> cmp y z = 0 \<Longrightarrow> cmp x z = 0"
  using cmp_trans [of x y z] cmp_trans [of z y x] cmp_zero_sym [of x y] cmp_zero_sym [of y z]
    cmp_le_iff [of z x] by linarith

lemma cmp_zero_left: "cmp x y = 0 \<Longrightarrow> cmp x z < 0 \<longleftrightarrow> cmp y z < 0"
  using cmp_le_less_trans [of x y z] cmp_le_less_trans [of y x z] cmp_zero_sym [of x y] by linarith

lemma cmp_zero_left_pos: "cmp x y = 0 \<Longrightarrow> 0 < cmp x z \<longleftrightarrow> 0 < cmp y z"
  using cmp_less_trans [of z x y] cmp_less_trans [of z y x] cmp_zero_sym [of x y]
  by (auto simp: cmp_anti)

lemma cmp_total: "cmp x y \<le> 0 \<or> cmp y x \<le> 0"
  using cmp_le_iff [of x y] by linarith

end

text \<open>A comparator that only identifies equal values, such as the order of strings under \<open><\<close>.\<close>

locale strict_comparator = comparator cmp for cmp :: "'a \<Rightarrow> 'a \<Rightarrow> int" +
  assumes cmp_eq: "cmp x y = 0 \<Longrightarrow> x = y"
begin

lemma cmp_eq_iff: "cmp x y = 0 \<longleftrightarrow> x = y"
  using cmp_eq cmp_refl by auto

end

lemma comparator_key:
  "comparator cmp \<Longrightarrow> comparator (\<lambda>x y. cmp (f x) (f y))"
  by (auto simp: comparator_def)

lemma comparator_flip:
  assumes "comparator cmp"
  shows "comparator (\<lambda>x y. cmp y x)"
  using assms unfolding comparator_def by blast

lemma comparator_cmpOr [cmp_intros]:
  assumes "comparator c" and "comparator d"
  shows "comparator (\<lambda>x y. cmpOr (c x y) (d x y))"
proof
  show "cmpOr (c x x) (d x x) = 0" for x
    using assms by (simp add: cmpOr_def comparator.cmp_refl)
  show "0 < cmpOr (c x y) (d x y) \<longleftrightarrow> cmpOr (c y x) (d y x) < 0" for x y
    using comparator.cmp_anti [OF assms(1), of x y] comparator.cmp_anti [OF assms(2), of x y]
      comparator.cmp_zero_sym [OF assms(1), of x y]
    by (simp add: cmpOr_def)
  show "cmpOr (c x z) (d x z) \<le> 0"
    if "cmpOr (c x y) (d x y) \<le> 0" and "cmpOr (c y z) (d y z) \<le> 0" for x y z
  proof -
    have xy: "c x y < 0 \<or> c x y = 0 \<and> d x y \<le> 0"
      using that(1) by (auto simp: cmpOr_def split: if_splits)
    have yz: "c y z < 0 \<or> c y z = 0 \<and> d y z \<le> 0"
      using that(2) by (auto simp: cmpOr_def split: if_splits)
    have "c x z < 0 \<or> c x z = 0 \<and> d x z \<le> 0"
      using xy yz comparator.cmp_less_trans [OF assms(1), of x y z]
        comparator.cmp_le_less_trans [OF assms(1), of x y z]
        comparator.cmp_zero_trans [OF assms(1), of x y z] comparator.cmp_trans [OF assms(2), of x y z]
      by auto
    then show ?thesis by (auto simp: cmpOr_def)
  qed
qed

lemma cmpOr_zero_iff [js_simps]: "cmpOr a b = 0 \<longleftrightarrow> a = 0 \<and> b = 0"
  by (auto simp: cmpOr_def)

text \<open>Subtraction of two integers, as in \<open>left.revision - right.revision\<close>.\<close>

lemma comparator_minus [cmp_intros]: "comparator (\<lambda>x y. f x - (f y :: int))"
  by unfold_locales auto

section \<open>Sorting\<close>

text \<open>
  \<open>Array.prototype.sort\<close> with a consistent comparator is a stable sort, and its result is then
  determined; insertion from the right computes it.
\<close>

fun sortInsert :: "('a \<Rightarrow> 'a \<Rightarrow> int) \<Rightarrow> 'a \<Rightarrow> 'a list \<Rightarrow> 'a list" where
  "sortInsert cmp x [] = [x]"
| "sortInsert cmp x (y # ys) =
     (if cmp x y \<le> 0 then x # y # ys else y # sortInsert cmp x ys)"

fun jsSort :: "('a \<Rightarrow> 'a \<Rightarrow> int) \<Rightarrow> 'a list \<Rightarrow> 'a list" where
  "jsSort cmp [] = []"
| "jsSort cmp (x # xs) = sortInsert cmp x (jsSort cmp xs)"

lemma mset_sortInsert [simp]: "mset (sortInsert cmp x xs) = add_mset x (mset xs)"
  by (induction xs) auto

lemma mset_jsSort [simp]: "mset (jsSort cmp xs) = mset xs"
  by (induction xs) auto

lemma set_jsSort [simp]: "set (jsSort cmp xs) = set xs"
  by (metis mset_jsSort set_mset_mset)

lemma length_jsSort [simp]: "length (jsSort cmp xs) = length xs"
  by (metis mset_jsSort size_mset)

lemma distinct_jsSort [simp]: "distinct (jsSort cmp xs) = distinct xs"
  by (metis mset_eq_imp_distinct_iff mset_jsSort)

lemma mset_map_jsSort [simp]: "mset (map f (jsSort cmp xs)) = mset (map f xs)"
  by (simp only: mset_map mset_jsSort)

lemma distinct_map_jsSort [simp]: "distinct (map f (jsSort cmp xs)) = distinct (map f xs)"
  by (metis mset_eq_imp_distinct_iff mset_map_jsSort)

lemma jsSort_empty_iff [simp]: "jsSort cmp xs = [] \<longleftrightarrow> xs = []"
  by (metis length_0_conv length_jsSort)

context comparator
begin

abbreviation ascending :: "'a list \<Rightarrow> bool" where
  "ascending \<equiv> sorted_wrt (\<lambda>x y. cmp x y \<le> 0)"

lemma ascending_sortInsert: "ascending xs \<Longrightarrow> ascending (sortInsert cmp x xs)"
proof (induction xs)
  case (Cons y ys)
  have set: "set (sortInsert cmp x ys) = insert x (set ys)"
    by (metis mset_sortInsert set_mset_add_mset_insert set_mset_mset)
  show ?case
    using Cons cmp_total [of x y] cmp_trans by (auto simp: set)
qed simp

lemma ascending_jsSort: "ascending (jsSort cmp xs)"
  by (induction xs) (auto intro: ascending_sortInsert)

lemma jsSort_ascending: "ascending xs \<Longrightarrow> jsSort cmp xs = xs"
proof (induction xs)
  case (Cons x xs)
  then show ?case by (cases xs) auto
qed simp

lemma jsSort_idem: "jsSort cmp (jsSort cmp xs) = jsSort cmp xs"
  by (rule jsSort_ascending [OF ascending_jsSort])

lemma ascending_unique:
  assumes "ascending xs" and "ascending ys" and "mset xs = mset ys"
    and "\<And>x y. x \<in> set xs \<Longrightarrow> y \<in> set xs \<Longrightarrow> cmp x y = 0 \<Longrightarrow> x = y"
  shows "xs = ys"
  using assms
proof (induction xs arbitrary: ys)
  case (Cons x xs)
  then obtain y zs where ys: "ys = y # zs"
    by (cases ys) auto
  have "y \<in> set (x # xs)" "x \<in> set ys"
    using Cons.prems(3) ys by (metis list.set_intros(1) set_mset_mset)+
  moreover from this have "cmp x y \<le> 0" "cmp y x \<le> 0"
    using Cons.prems(1,2) ys cmp_refl by auto
  ultimately have "x = y"
    using Cons.prems(4) cmp_le_iff [of x y] by (metis list.set_intros(1) order_antisym)
  then show ?case using Cons ys by simp
qed simp

text \<open>The result of a sort does not depend on the order of its input when ties are impossible.\<close>

lemma jsSort_perm:
  assumes "mset xs = mset ys"
    and "\<And>x y. x \<in> set xs \<Longrightarrow> y \<in> set xs \<Longrightarrow> cmp x y = 0 \<Longrightarrow> x = y"
  shows "jsSort cmp xs = jsSort cmp ys"
  by (rule ascending_unique) (use assms ascending_jsSort in auto)

text \<open>The head of a sorted list is a least element.\<close>

lemma hd_jsSort_least: "xs \<noteq> [] \<Longrightarrow> y \<in> set xs \<Longrightarrow> cmp (hd (jsSort cmp xs)) y \<le> 0"
proof -
  assume "xs \<noteq> []" and y: "y \<in> set xs"
  then obtain z zs where s: "jsSort cmp xs = z # zs"
    by (metis jsSort_empty_iff neq_Nil_conv)
  have "y \<in> set (z # zs)" using y s by (metis set_jsSort)
  then show ?thesis
    using ascending_jsSort [of xs] cmp_refl by (auto simp: s)
qed

end

section \<open>Strings\<close>

text \<open>\<open><\<close> on strings and \<open>sort()\<close> without a callback compare code units.\<close>

fun codeUnitCompare :: "string \<Rightarrow> string \<Rightarrow> int" where
  "codeUnitCompare [] [] = 0"
| "codeUnitCompare [] (_ # _) = -1"
| "codeUnitCompare (_ # _) [] = 1"
| "codeUnitCompare (a # as) (b # bs) =
     (if (of_char a :: int) < of_char b then -1
      else if (of_char b :: int) < of_char a then 1 else codeUnitCompare as bs)"

lemma codeUnitCompare_refl [simp]: "codeUnitCompare s s = 0"
  by (induction s) auto

lemma codeUnitCompare_neg: "codeUnitCompare t s = - codeUnitCompare s t"
  by (induction s t rule: codeUnitCompare.induct) auto

lemma codeUnitCompare_eq: "codeUnitCompare s t = 0 \<Longrightarrow> s = t"
  by (induction s t rule: codeUnitCompare.induct) (auto split: if_splits)

lemma codeUnitCompare_code [code]:
  "codeUnitCompare [] [] = 0"
  "codeUnitCompare [] (b # bs) = -1"
  "codeUnitCompare (a # as) [] = 1"
  "codeUnitCompare (a # as) (b # bs) =
     (if a = b then codeUnitCompare as bs else if (of_char a :: int) < of_char b then -1 else 1)"
  by (auto simp: not_less le_less)

lemma codeUnitCompare_trans:
  "codeUnitCompare s t \<le> 0 \<Longrightarrow> codeUnitCompare t u \<le> 0 \<Longrightarrow> codeUnitCompare s u \<le> 0"
proof (induction s t arbitrary: u rule: codeUnitCompare.induct)
  case (2 b bs)
  then show ?case by (cases u) auto
next
  case (4 a as b bs)
  have ab: "of_char a < (of_char b :: int) \<or> a = b \<and> codeUnitCompare as bs \<le> 0"
    using "4.prems"(1) by (simp split: if_splits)
  show ?case
  proof (cases u)
    case (Cons c cs)
    have bc: "of_char b < (of_char c :: int) \<or> b = c \<and> codeUnitCompare bs cs \<le> 0"
      using "4.prems"(2) unfolding Cons by (simp split: if_splits)
    have "of_char a < (of_char c :: int) \<or> a = c \<and> codeUnitCompare as cs \<le> 0"
      using ab bc "4.IH" by fastforce
    then show ?thesis by (auto simp: Cons)
  qed (use "4.prems" in simp)
qed auto

interpretation codeUnits: strict_comparator codeUnitCompare
proof
  show "0 < codeUnitCompare x y \<longleftrightarrow> codeUnitCompare y x < 0" for x y
    by (simp add: codeUnitCompare_neg [of y x])
qed (auto intro: codeUnitCompare_eq codeUnitCompare_trans)

abbreviation strLess :: "string \<Rightarrow> string \<Rightarrow> bool" where
  "strLess a b \<equiv> codeUnitCompare a b < 0"

abbreviation sortStrings :: "string list \<Rightarrow> string list" where
  "sortStrings \<equiv> jsSort codeUnitCompare"

definition startsWith :: "string \<Rightarrow> string \<Rightarrow> bool" where
  "startsWith s p \<longleftrightarrow> take (length p) s = p"

definition endsWith :: "string \<Rightarrow> string \<Rightarrow> bool" where
  "endsWith s p \<longleftrightarrow> length p \<le> length s \<and> drop (length s - length p) s = p"

text \<open>
  \<open>localeCompare\<close> orders strings by the collation of the host's locale, which is neither fixed by
  the language nor part of the repository. It is a parameter of the definitions that call it. The
  language specification requires it to be a consistent comparator on strings (\<open>collation\<close>). It may
  identify distinct strings; on the identifiers and timestamps of the program, plain ASCII without
  ignorable characters, it does not (\<open>strict_collation\<close>).
\<close>

locale collation = comparator lc for lc :: "string \<Rightarrow> string \<Rightarrow> int"
begin

lemma lc_key [cmp_intros]: "comparator (\<lambda>x y. lc (f x) (f y))"
  by (rule comparator_key) (rule comparator_axioms)

end

locale strict_collation = strict_comparator lc for lc :: "string \<Rightarrow> string \<Rightarrow> int"

sublocale strict_collation \<subseteq> collation
  by unfold_locales

lemma strict_collation_collation: "strict_collation lc \<Longrightarrow> collation lc"
  by (simp add: strict_collation_def collation_def strict_comparator_def)

lemma strict_collation_eq_iff: "strict_collation lc \<Longrightarrow> lc a b = 0 \<longleftrightarrow> a = b"
  by (simp add: strict_collation_def strict_comparator.cmp_eq_iff)

text \<open>The code-unit order is one such collation; witnesses evaluate with it.\<close>

interpretation ascii: strict_collation codeUnitCompare
  by unfold_locales

section \<open>Sets and maps in insertion order\<close>

text \<open>\<open>[...new Set(xs)]\<close> keeps the first occurrence of every element.\<close>

fun jsUnique :: "'a list \<Rightarrow> 'a list" where
  "jsUnique [] = []"
| "jsUnique (x # xs) = x # filter (\<lambda>y. y \<noteq> x) (jsUnique xs)"

lemma set_jsUnique [simp]: "set (jsUnique xs) = set xs"
  by (induction xs) auto

lemma distinct_jsUnique [simp]: "distinct (jsUnique xs)"
  by (induction xs) auto

lemma jsUnique_distinct: "distinct xs \<Longrightarrow> jsUnique xs = xs"
  by (induction xs) (auto simp: filter_id_conv)

lemma length_jsUnique_iff: "length (jsUnique xs) = length xs \<longleftrightarrow> distinct xs"
proof
  assume "length (jsUnique xs) = length xs"
  then have "card (set xs) = length xs"
    using distinct_card [OF distinct_jsUnique [of xs]] by simp
  then show "distinct xs" by (rule card_distinct)
qed (simp add: jsUnique_distinct)

text \<open>
  A \<open>Map\<close> is an association list with distinct keys: \<open>get\<close> is \<^const>\<open>map_of\<close>, \<open>set\<close> is
  \<^const>\<open>AList.update\<close> (in place, or at the end for a new key) and \<open>delete\<close> is \<^const>\<open>AList.delete\<close>.
\<close>

type_synonym ('k, 'v) jsMap = "('k \<times> 'v) list"

abbreviation mapSet :: "'k \<Rightarrow> 'v \<Rightarrow> ('k, 'v) jsMap \<Rightarrow> ('k, 'v) jsMap" where
  "mapSet \<equiv> AList.update"

abbreviation mapDelete :: "'k \<Rightarrow> ('k, 'v) jsMap \<Rightarrow> ('k, 'v) jsMap" where
  "mapDelete \<equiv> AList.delete"

text \<open>\<open>new Map(xs.map((x) => [key(x), x]))\<close>\<close>

definition mapBy :: "('a \<Rightarrow> 'k) \<Rightarrow> 'a list \<Rightarrow> ('k, 'a) jsMap" where
  "mapBy key xs = fold (\<lambda>x. mapSet (key x) x) xs []"

definition mapValues :: "('k, 'v) jsMap \<Rightarrow> 'v list" where
  "mapValues m = map snd m"

abbreviation mapOk :: "('k, 'v) jsMap \<Rightarrow> bool" where
  "mapOk m \<equiv> distinct (map fst m)"

lemma mapOk_mapSet [simp]: "mapOk m \<Longrightarrow> mapOk (mapSet k v m)"
  by (rule distinct_update)

lemma mapOk_mapDelete [simp]: "mapOk m \<Longrightarrow> mapOk (mapDelete k m)"
  by (rule distinct_delete)

lemma mapGet_mapSet [js_simps]: "map_of (mapSet k v m) k' = (if k' = k then Some v else map_of m k')"
  by (simp add: update_conv')

lemma mapGet_mapDelete [js_simps]: "map_of (mapDelete k m) k' = (if k' = k then None else map_of m k')"
  by (simp add: delete_conv')

lemma mapValues_iff: "mapOk m \<Longrightarrow> v \<in> set (mapValues m) \<longleftrightarrow> (\<exists>k. map_of m k = Some v)"
  by (force simp: mapValues_def)

lemma mapSet_fresh: "k \<notin> fst ` set m \<Longrightarrow> mapSet k v m = m @ [(k, v)]"
  by (induction m) auto

lemma fold_mapSet_fresh:
  "distinct (map key xs) \<Longrightarrow> fst ` set m \<inter> key ` set xs = {} \<Longrightarrow>
   fold (\<lambda>x. mapSet (key x) x) xs m = m @ map (\<lambda>x. (key x, x)) xs"
  by (induction xs arbitrary: m) (auto simp: mapSet_fresh)

lemma mapBy_distinct: "distinct (map key xs) \<Longrightarrow> mapBy key xs = map (\<lambda>x. (key x, x)) xs"
  by (simp add: mapBy_def fold_mapSet_fresh)

lemma mapOk_fold_mapSet: "mapOk m \<Longrightarrow> mapOk (fold (\<lambda>x. mapSet (key x) x) xs m)"
  by (induction xs arbitrary: m) auto

lemma mapOk_mapBy [simp]: "mapOk (mapBy key xs)"
  by (simp add: mapBy_def mapOk_fold_mapSet)

lemma fold_mapSet_inv:
  "\<forall>(k, v) \<in> set m. P k v \<Longrightarrow> \<forall>x \<in> set xs. P (key x) x \<Longrightarrow>
   \<forall>(k, v) \<in> set (fold (\<lambda>x. mapSet (key x) x) xs m). P k v"
proof (induction xs arbitrary: m)
  case (Cons x xs)
  have "\<forall>(k, v) \<in> set (mapSet (key x) x m). P k v"
    using Cons.prems by (induction m) auto
  then show ?case using Cons by simp
qed simp

lemma mapBy_keyed: "(k, x) \<in> set (mapBy key xs) \<Longrightarrow> k = key x"
  using fold_mapSet_inv [where m = "[]" and xs = xs and key = key and P = "\<lambda>k x. k = key x"]
  by (auto simp: mapBy_def)

lemma set_mapSet_subset: "set (mapSet k v m) \<subseteq> insert (k, v) (set m)"
  by (induction m) auto

lemma set_mapDelete_subset: "set (mapDelete k m) \<subseteq> set m"
  by (auto simp: AList.delete_eq)

text \<open>A map whose keys are read off the values.\<close>

definition keyed :: "('v \<Rightarrow> 'k) \<Rightarrow> ('k, 'v) jsMap \<Rightarrow> bool" where
  "keyed key m \<longleftrightarrow> mapOk m \<and> (\<forall>(k, v) \<in> set m. k = key v)"

lemma keyed_mapBy [simp]: "keyed key (mapBy key xs)"
  by (auto simp: keyed_def dest: mapBy_keyed)

lemma keyed_mapSet: "keyed key m \<Longrightarrow> key v = k \<Longrightarrow> keyed key (mapSet k v m)"
  using set_mapSet_subset [of k v m] by (auto simp: keyed_def)

lemma keyed_mapDelete: "keyed key m \<Longrightarrow> keyed key (mapDelete k m)"
  using set_mapDelete_subset [of k m] by (auto simp: keyed_def)

lemma keyed_filter: "keyed key m \<Longrightarrow> keyed key (filter p m)"
  by (auto simp: keyed_def distinct_map_filter)

lemma keyed_values: "keyed key m \<Longrightarrow> map key (mapValues m) = map fst m"
  by (auto simp: keyed_def mapValues_def)

lemma keyed_distinct: "keyed key m \<Longrightarrow> distinct (map key (mapValues m))"
  by (simp add: keyed_values) (simp add: keyed_def)

lemma keyed_get: "keyed key m \<Longrightarrow> v \<in> set (mapValues m) \<longleftrightarrow> map_of m (key v) = Some v"
  by (force simp: keyed_def mapValues_def dest: map_of_SomeD)

lemma keys_mapSet: "fst ` set (mapSet k v m) = insert k (fst ` set m)"
  by (induction m) auto

lemma keys_mapDelete: "fst ` set (mapDelete k m) = fst ` set m - {k}"
  by (auto simp: AList.delete_eq)

lemma mapBy_values: "keyed key m \<Longrightarrow> mapBy key (mapValues m) = m"
  using keyed_distinct [of key m]
  by (simp add: mapBy_distinct) (auto simp: keyed_def mapValues_def intro!: map_idI)

lemma mapValues_mapBy: "distinct (map key xs) \<Longrightarrow> mapValues (mapBy key xs) = xs"
  by (simp add: mapBy_distinct mapValues_def comp_def)

lemma values_mapSet: "set (mapValues (mapSet k v m)) \<subseteq> insert v (set (mapValues m))"
  using set_mapSet_subset [of k v m] by (force simp: mapValues_def)

lemma values_mapDelete: "set (mapValues (mapDelete k m)) \<subseteq> set (mapValues m)"
  using set_mapDelete_subset [of k m] by (auto simp: mapValues_def)

text \<open>A loop keeps what each of its steps keeps.\<close>

lemma foldl_inv: "P s \<Longrightarrow> (\<And>s x. x \<in> set xs \<Longrightarrow> P s \<Longrightarrow> P (f s x)) \<Longrightarrow> P (foldl f s xs)"
  by (induction xs arbitrary: s) auto

section \<open>Failing computations\<close>

text \<open>A computation that may throw returns \<^const>\<open>Inl\<close> of the error; what follows it is then skipped.\<close>

fun andThen :: "'e + 'a \<Rightarrow> ('a \<Rightarrow> 'e + 'b) \<Rightarrow> 'e + 'b" where
  "andThen (Inl e) f = Inl e"
| "andThen (Inr x) f = f x"

lemma andThen_Inr_iff: "andThen x f = Inr y \<longleftrightarrow> (\<exists>z. x = Inr z \<and> f z = Inr y)"
  by (cases x) auto

lemma foldl_fix: "(\<And>x. x \<in> set xs \<Longrightarrow> f s x = s) \<Longrightarrow> foldl f s xs = s"
  by (induction xs) auto

end
