(* ===== verification/JS_Values.thy ===== *)
theory JS_Values
  imports JS_Prelude
begin

text \<open>
  Numbers and the values of type \<open>unknown\<close>: property access, the conversions \<open>String(v)\<close> and
  \<open>Number(v)\<close>, \<open>Number.isSafeInteger\<close>, \<open>Math.max\<close> and \<open>JSON.stringify\<close>.

  A finite number stands for the shortest decimal that reads back to it, which is what
  \<open>Number.prototype.toString\<close> prints and a JSON document carries; comparison and equality of doubles
  agree with those of their shortest decimals. Arithmetic on non-integers is exact here and rounded
  in the program; the modelled code only compares such numbers, except for the swipe geometry.
\<close>

section \<open>Numbers\<close>

datatype jsnum = Fin rat | PosInf | NegInf | NaN

definition isFinite :: "jsnum \<Rightarrow> bool" where
  "isFinite x = (case x of Fin _ \<Rightarrow> True | _ \<Rightarrow> False)"

text \<open>\<open><=\<close> on numbers; every comparison with \<open>NaN\<close> is false.\<close>

fun numLe :: "jsnum \<Rightarrow> jsnum \<Rightarrow> bool" where
  "numLe NaN _ = False"
| "numLe _ NaN = False"
| "numLe NegInf _ = True"
| "numLe _ PosInf = True"
| "numLe (Fin a) (Fin b) = (a \<le> b)"
| "numLe _ _ = False"

text \<open>\<open>===\<close> on numbers.\<close>

definition numEq :: "jsnum \<Rightarrow> jsnum \<Rightarrow> bool" where
  "numEq a b = (a = b \<and> a \<noteq> NaN)"

fun mathMax :: "jsnum \<Rightarrow> jsnum \<Rightarrow> jsnum" where
  "mathMax NaN _ = NaN"
| "mathMax _ NaN = NaN"
| "mathMax a b = (if numLe a b then b else a)"

lemma mathMax_Fin [js_simps]: "mathMax (Fin a) (Fin b) = Fin (max a b)"
  by (simp add: max_def)

definition MAX_SAFE_INTEGER :: int where
  "MAX_SAFE_INTEGER = 2 ^ 53 - 1"

definition isIntegral :: "rat \<Rightarrow> bool" where
  "isIntegral q = (of_int \<lfloor>q\<rfloor> = q)"

definition isSafeInteger :: "jsnum \<Rightarrow> bool" where
  "isSafeInteger x = (case x of
     Fin q \<Rightarrow> isIntegral q \<and> \<bar>\<lfloor>q\<rfloor>\<bar> \<le> MAX_SAFE_INTEGER | _ \<Rightarrow> False)"

lemma isIntegral_of_int [simp]: "isIntegral (of_int n)"
  by (simp add: isIntegral_def)

lemma isSafeInteger_Fin_of_int [simp]:
  "isSafeInteger (Fin (of_int n)) \<longleftrightarrow> \<bar>n\<bar> \<le> MAX_SAFE_INTEGER"
  by (simp add: isSafeInteger_def)

section \<open>Decimal notation of numbers\<close>

definition digitChar :: "int \<Rightarrow> char" where
  "digitChar d = char_of (48 + d)"

function showInt :: "int \<Rightarrow> string" where
  "showInt n = (if n < 10 then [digitChar n] else showInt (n div 10) @ [digitChar (n mod 10)])"
  by pat_completeness auto
termination by (relation "measure nat") auto

declare showInt.simps [simp del]

text \<open>
  For a fraction \<open>n / d\<close> with a finite decimal expansion, the integer \<open>n * 10 ^ k / d\<close> for the least
  such \<open>k\<close>, and \<open>k\<close>. Each step removes the common factor of the denominator and 10; no other
  fraction is a number of the language.
\<close>

function decScale :: "int \<Rightarrow> int \<Rightarrow> nat \<Rightarrow> int \<times> nat" where
  "decScale n d k =
     (let g = gcd d 10 in
      if d \<le> 1 \<or> g \<le> 1 then (n, k) else decScale (n * (10 div g)) (d div g) (Suc k))"
  by pat_completeness auto
termination by (relation "measure (\<lambda>(n, d, k). nat d)") (auto simp: Let_def intro: int_div_less_self)

declare decScale.simps [simp del]

text \<open>\<open>Number::toString\<close> for a positive number with digits \<open>s\<close> and decimal point after \<open>n\<close> of them.\<close>

definition showDecimal :: "string \<Rightarrow> int \<Rightarrow> string" where
  "showDecimal s n =
     (let k = int (length s); e = n - 1;
          expo = ''e'' @ (if e < 0 then ''-'' else ''+'') @ showInt \<bar>e\<bar>
      in if k \<le> n \<and> n \<le> 21 then s @ replicate (nat (n - k)) (CHR ''0'')
         else if 0 < n \<and> n \<le> 21 then take (nat n) s @ ''.'' @ drop (nat n) s
         else if -6 < n \<and> n \<le> 0 then ''0.'' @ replicate (nat (- n)) (CHR ''0'') @ s
         else if k = 1 then s @ expo
         else take 1 s @ ''.'' @ drop 1 s @ expo)"

definition showRat :: "rat \<Rightarrow> string" where
  "showRat q =
     (if q = 0 then ''0''
      else let (m, d) = (case quotient_of \<bar>q\<bar> of (a, b) \<Rightarrow> decScale a b 0); ds = showInt m;
               s = rev (dropWhile (\<lambda>c. c = CHR ''0'') (rev ds))
           in (if q < 0 then ''-'' else []) @ showDecimal s (int (length ds) - int d))"

definition numToString :: "jsnum \<Rightarrow> string" where
  "numToString x = (case x of
     Fin q \<Rightarrow> showRat q | PosInf \<Rightarrow> ''Infinity'' | NegInf \<Rightarrow> ''-Infinity'' | NaN \<Rightarrow> ''NaN'')"

section \<open>Values of type \<open>unknown\<close>\<close>

datatype jsval =
    JUndef
  | JNull
  | JBool bool
  | JNum jsnum
  | JStr string
  | JArr "jsval list"
  | JObj "(string \<times> jsval) list"
  | JBytes string
  | JBlob string string

text \<open>\<open>JBytes\<close> is an \<open>ArrayBuffer\<close> (or a view of one) with its bytes, \<open>JBlob\<close> a \<open>Blob\<close> with its media type and bytes;
  neither has own properties.\<close>

abbreviation JInt :: "int \<Rightarrow> jsval" where
  "JInt n \<equiv> JNum (Fin (of_int n))"

text \<open>\<open>value[key]\<close>: a missing property is \<open>undefined\<close>.\<close>

fun getProp :: "jsval \<Rightarrow> string \<Rightarrow> jsval" where
  "getProp (JObj kvs) k = (case map_of kvs k of None \<Rightarrow> JUndef | Some v \<Rightarrow> v)"
| "getProp _ _ = JUndef"

fun objectKeys :: "jsval \<Rightarrow> string list" where
  "objectKeys (JObj kvs) = map fst kvs"
| "objectKeys _ = []"

definition hasOwn :: "jsval \<Rightarrow> string \<Rightarrow> bool" where
  "hasOwn v k = (k \<in> set (objectKeys v))"

text \<open>An object literal with optional entries: the absent ones add no key.\<close>

definition optional :: "string \<Rightarrow> ('a \<Rightarrow> jsval) \<Rightarrow> 'a option \<Rightarrow> (string \<times> jsval) list" where
  "optional k f x = (case x of None \<Rightarrow> [] | Some v \<Rightarrow> [(k, f v)])"

lemma optional_simps [simp]: "optional k f None = []" "optional k f (Some v) = [(k, f v)]"
  by (simp_all add: optional_def)

lemma getProp_Nil [simp]: "getProp (JObj []) k = JUndef"
  by simp

lemma getProp_Cons [simp]:
  "getProp (JObj ((k', v) # kvs)) k = (if k = k' then v else getProp (JObj kvs) k)"
  by simp

definition withDefault :: "jsval \<Rightarrow> ('a \<Rightarrow> jsval) \<Rightarrow> 'a option \<Rightarrow> jsval" where
  "withDefault d f x = (case x of None \<Rightarrow> d | Some y \<Rightarrow> f y)"

lemma withDefault_simps [simp]: "withDefault d f None = d" "withDefault d f (Some y) = f y"
  by (simp_all add: withDefault_def)

lemma getProp_optional_append [simp]:
  "getProp (JObj (optional k' f x @ kvs)) k =
     (if k = k' then withDefault (getProp (JObj kvs) k) f x else getProp (JObj kvs) k)"
  by (cases x) auto

lemma getProp_optional [simp]:
  "getProp (JObj (optional k' f x)) k =
     (if k = k' then withDefault JUndef f x else JUndef)"
  by (cases x) auto

declare getProp.simps(1) [simp del]

section \<open>Conversions\<close>

text \<open>
  \<open>String(v)\<close>. Arrays join their elements with commas, \<open>null\<close> and \<open>undefined\<close> elements being empty;
  plain objects print as \<open>[object Object]\<close>.
\<close>

fun joinWith :: "string \<Rightarrow> string list \<Rightarrow> string" where
  "joinWith sep [] = []"
| "joinWith sep [x] = x"
| "joinWith sep (x # y # ys) = x @ sep @ joinWith sep (y # ys)"

fun toStringJ :: "jsval \<Rightarrow> string" where
  "toStringJ JUndef = ''undefined''"
| "toStringJ JNull = ''null''"
| "toStringJ (JBool b) = (if b then ''true'' else ''false'')"
| "toStringJ (JNum x) = numToString x"
| "toStringJ (JStr s) = s"
| "toStringJ (JArr vs) =
     joinWith '','' (map (\<lambda>v. if v = JUndef \<or> v = JNull then [] else toStringJ v) vs)"
| "toStringJ (JObj _) = ''[object Object]''"
| "toStringJ (JBytes _) = ''[object ArrayBuffer]''"
| "toStringJ (JBlob _ _) = ''[object Blob]''"

definition isWhite :: "char \<Rightarrow> bool" where
  "isWhite c = (let n = (of_char c :: int) in (9 \<le> n \<and> n \<le> 13) \<or> n = 32 \<or> n = 160)"

definition trimString :: "string \<Rightarrow> string" where
  "trimString s = rev (dropWhile isWhite (rev (dropWhile isWhite s)))"

definition isDigit :: "char \<Rightarrow> bool" where
  "isDigit c = (let n = (of_char c :: int) in 48 \<le> n \<and> n \<le> 57)"

definition digitsVal :: "string \<Rightarrow> int" where
  "digitsVal ds = foldl (\<lambda>a c. 10 * a + (of_char c - 48)) 0 ds"

text \<open>The decimal literals \<open>Number(s)\<close> reads, without sign: \<open>12\<close>, \<open>1.5\<close>, \<open>.5\<close>, \<open>2e3\<close>.\<close>

definition readDecimal :: "string \<Rightarrow> rat option" where
  "readDecimal s =
     (let ip = takeWhile isDigit s; r = dropWhile isDigit s;
          dot = (r \<noteq> [] \<and> hd r = CHR ''.'');
          fp = (if dot then takeWhile isDigit (tl r) else []);
          r' = (if dot then dropWhile isDigit (tl r) else r);
          m = Fract (digitsVal (ip @ fp)) (10 ^ length fp)
      in if ip = [] \<and> fp = [] then None
         else if r' = [] then Some m
         else if hd r' = CHR ''e'' \<or> hd r' = CHR ''E'' then
           (let t = tl r'; neg = (t \<noteq> [] \<and> hd t = CHR ''-'');
                ds = (if t \<noteq> [] \<and> (hd t = CHR ''-'' \<or> hd t = CHR ''+'') then tl t else t)
            in if ds \<noteq> [] \<and> (\<forall>c \<in> set ds. isDigit c)
               then Some (if neg then m / 10 ^ nat (digitsVal ds) else m * 10 ^ nat (digitsVal ds))
               else None)
         else None)"

definition radixDigit :: "nat \<Rightarrow> char \<Rightarrow> nat option" where
  "radixDigit b c =
     (let n = (of_char c :: nat);
          d = (if 48 \<le> n \<and> n \<le> 57 then n - 48
               else if 65 \<le> n \<and> n \<le> 70 then n - 55
               else if 97 \<le> n \<and> n \<le> 102 then n - 87 else 99)
      in if d < b then Some d else None)"

definition readRadix :: "nat \<Rightarrow> string \<Rightarrow> rat option" where
  "readRadix b s =
     (if s \<noteq> [] \<and> (\<forall>c \<in> set s. radixDigit b c \<noteq> None)
      then Some (of_nat (foldl (\<lambda>a c. b * a + the (radixDigit b c)) 0 s)) else None)"

text \<open>The least integer that rounds to \<open>Infinity\<close>, \<open>2 ^ 1024 - 2 ^ 970\<close>.\<close>

definition overflowLimit :: rat where
  "overflowLimit = 179769313486231580793728971405303415079934132710037826936173778980444968292764750946649017977587207096330286416692887910946555547851940402630657488671505820681908902000708383676273854845817711531764475730270069855571366959622842914819860834936475292719074168444365510704342711559699508093042880177904174497792"

definition stringToNumber :: "string \<Rightarrow> jsnum" where
  "stringToNumber str =
     (let s = trimString str; p = take 2 s;
          fin = (\<lambda>r. case r of None \<Rightarrow> NaN
                 | Some q \<Rightarrow> if overflowLimit \<le> q then PosInf else Fin q)
      in if s = [] then Fin 0
         else if p = ''0x'' \<or> p = ''0X'' then fin (readRadix 16 (drop 2 s))
         else if p = ''0o'' \<or> p = ''0O'' then fin (readRadix 8 (drop 2 s))
         else if p = ''0b'' \<or> p = ''0B'' then fin (readRadix 2 (drop 2 s))
         else let sgned = (hd s = CHR ''-'' \<or> hd s = CHR ''+'');
                  body = (if sgned then tl s else s);
                  v = (if body = ''Infinity'' then PosInf else fin (readDecimal body))
              in if hd s = CHR ''-''
                 then (case v of Fin q \<Rightarrow> Fin (- q) | PosInf \<Rightarrow> NegInf | _ \<Rightarrow> v) else v)"

definition toNumberJ :: "jsval \<Rightarrow> jsnum" where
  "toNumberJ v = (case v of
     JUndef \<Rightarrow> NaN | JNull \<Rightarrow> Fin 0 | JBool b \<Rightarrow> Fin (if b then 1 else 0) | JNum x \<Rightarrow> x
   | JStr s \<Rightarrow> stringToNumber s | JArr _ \<Rightarrow> stringToNumber (toStringJ v) | _ \<Rightarrow> NaN)"

section \<open>\<open>JSON.stringify\<close>\<close>

definition hexDigit :: "nat \<Rightarrow> char" where
  "hexDigit d = char_of (if d < 10 then 48 + d else 87 + d)"

definition quoteChar :: "char \<Rightarrow> string" where
  "quoteChar c =
     (let n = (of_char c :: nat) in
      if n = 34 then [CHR 0x5C, CHR 0x22]
      else if n = 92 then [CHR 0x5C, CHR 0x5C]
      else if n = 8 then [CHR 0x5C, CHR ''b'']
      else if n = 9 then [CHR 0x5C, CHR ''t'']
      else if n = 10 then [CHR 0x5C, CHR ''n'']
      else if n = 12 then [CHR 0x5C, CHR ''f'']
      else if n = 13 then [CHR 0x5C, CHR ''r'']
      else if n < 32 then [CHR 0x5C, CHR ''u'', CHR ''0'', CHR ''0'', hexDigit (n div 16), hexDigit (n mod 16)]
      else [c])"

definition quoteString :: "string \<Rightarrow> string" where
  "quoteString s = CHR 0x22 # concat (map quoteChar s) @ [CHR 0x22]"

text \<open>
  The compact form. \<open>undefined\<close> disappears from objects and is \<open>null\<close> in arrays; alone it has no
  JSON text, and the empty string stands for that case.
\<close>

fun stringify :: "jsval \<Rightarrow> string" where
  "stringify JUndef = []"
| "stringify JNull = ''null''"
| "stringify (JBool b) = (if b then ''true'' else ''false'')"
| "stringify (JNum x) = (if isFinite x then numToString x else ''null'')"
| "stringify (JStr s) = quoteString s"
| "stringify (JArr vs) =
     ''['' @ joinWith '','' (map (\<lambda>v. if v = JUndef then ''null'' else stringify v) vs) @ '']''"
| "stringify (JObj kvs) =
     ''{'' @ joinWith '',''
       (map (\<lambda>(k, t). quoteString k @ '':'' @ t)
         (filter (\<lambda>(k, t). t \<noteq> []) (map (\<lambda>(k, v). (k, stringify v)) kvs))) @ ''}''"
| "stringify (JBytes _) = ''{}''"
| "stringify (JBlob _ _) = ''{}''"

section \<open>Tests the validators share\<close>

definition isRecord :: "jsval \<Rightarrow> bool" where
  "isRecord v = (case v of JObj _ \<Rightarrow> True | JBytes _ \<Rightarrow> True | JBlob _ _ \<Rightarrow> True | _ \<Rightarrow> False)"

text \<open>\<open>typeof v === 'string'\<close> and \<open>typeof v === 'number'\<close>\<close>

definition isStr :: "jsval \<Rightarrow> bool" where
  "isStr v = (case v of JStr _ \<Rightarrow> True | _ \<Rightarrow> False)"

definition isNum :: "jsval \<Rightarrow> bool" where
  "isNum v = (case v of JNum _ \<Rightarrow> True | _ \<Rightarrow> False)"

definition isBoundedString :: "jsval \<Rightarrow> nat \<Rightarrow> bool" where
  "isBoundedString v maximum = (case v of
     JStr s \<Rightarrow> 0 < length s \<and> length s \<le> maximum | _ \<Rightarrow> False)"

definition isOptionalBoundedString :: "jsval \<Rightarrow> nat \<Rightarrow> bool" where
  "isOptionalBoundedString v maximum = (v = JUndef \<or> isBoundedString v maximum)"

definition isFiniteNumberInRange :: "jsval \<Rightarrow> rat \<Rightarrow> rat \<Rightarrow> bool" where
  "isFiniteNumberInRange v minimum maximum = (case v of
     JNum (Fin q) \<Rightarrow> minimum \<le> q \<and> q \<le> maximum | _ \<Rightarrow> False)"

definition isProgression :: "jsval \<Rightarrow> bool" where
  "isProgression v = isFiniteNumberInRange v 0 1"

text \<open>\<open>Number.isSafeInteger(v) && v >= minimum\<close>\<close>

definition isSafeIntegerFrom :: "int \<Rightarrow> jsval \<Rightarrow> bool" where
  "isSafeIntegerFrom minimum v = (case v of
     JNum (Fin q) \<Rightarrow> isSafeInteger (Fin q) \<and> of_int minimum \<le> q | _ \<Rightarrow> False)"

definition isArrayOf :: "(jsval \<Rightarrow> bool) \<Rightarrow> jsval \<Rightarrow> bool" where
  "isArrayOf test v = (case v of JArr vs \<Rightarrow> (\<forall>x \<in> set vs. test x) | _ \<Rightarrow> False)"

definition arrayLength :: "jsval \<Rightarrow> nat" where
  "arrayLength v = (case v of JArr vs \<Rightarrow> length vs | _ \<Rightarrow> 0)"

lemma isRecord_simps [simp]:
  "isRecord (JObj kvs)" "\<not> isRecord JUndef" "\<not> isRecord JNull" "\<not> isRecord (JBool b)"
  "\<not> isRecord (JNum x)" "\<not> isRecord (JStr s)" "\<not> isRecord (JArr vs)"
  by (simp_all add: isRecord_def)

lemma isStr_iff: "isStr v \<longleftrightarrow> (\<exists>s. v = JStr s)"
  by (cases v) (simp_all add: isStr_def)

lemma isNum_iff: "isNum v \<longleftrightarrow> (\<exists>x. v = JNum x)"
  by (cases v) (simp_all add: isNum_def)

lemma isStr_JStr [simp]: "isStr (JStr s)"
  by (simp add: isStr_def)

lemma isBoundedString_JStr [simp]:
  "isBoundedString (JStr s) n \<longleftrightarrow> s \<noteq> [] \<and> length s \<le> n"
  by (simp add: isBoundedString_def)

lemma isBoundedString_simps [simp]:
  "\<not> isBoundedString JUndef n" "\<not> isBoundedString JNull n" "\<not> isBoundedString (JObj kvs) n"
  "\<not> isBoundedString (JArr vs) n" "\<not> isBoundedString (JNum x) n" "\<not> isBoundedString (JBool b) n"
  "\<not> isBoundedString (JBytes s) n" "\<not> isBoundedString (JBlob t s) n"
  by (simp_all add: isBoundedString_def)

lemma isOptionalBoundedString_simps [simp]:
  "isOptionalBoundedString JUndef n"
  "isOptionalBoundedString (JStr s) n \<longleftrightarrow> s \<noteq> [] \<and> length s \<le> n"
  by (simp_all add: isOptionalBoundedString_def)

lemma isArrayOf_JArr [simp]: "isArrayOf test (JArr vs) \<longleftrightarrow> (\<forall>x \<in> set vs. test x)"
  by (simp add: isArrayOf_def)

lemma arrayLength_JArr [simp]: "arrayLength (JArr vs) = length vs"
  by (simp add: arrayLength_def)

lemma isProgression_Fin [simp]: "isProgression (JNum (Fin q)) \<longleftrightarrow> 0 \<le> q \<and> q \<le> 1"
  by (simp add: isProgression_def isFiniteNumberInRange_def)

lemma isProgression_JNum: "isProgression (JNum x) \<longleftrightarrow> (\<exists>q. x = Fin q \<and> 0 \<le> q \<and> q \<le> 1)"
  by (cases x) (auto simp: isProgression_def isFiniteNumberInRange_def)

section \<open>Regular expressions over identifiers\<close>

definition isHexLower :: "char \<Rightarrow> bool" where
  "isHexLower c = (let n = (of_char c :: int) in (48 \<le> n \<and> n \<le> 57) \<or> (97 \<le> n \<and> n \<le> 102))"

definition isAlnum :: "char \<Rightarrow> bool" where
  "isAlnum c = (let n = (of_char c :: int) in
     (48 \<le> n \<and> n \<le> 57) \<or> (65 \<le> n \<and> n \<le> 90) \<or> (97 \<le> n \<and> n \<le> 122))"

definition isIdChar :: "char \<Rightarrow> bool" where
  "isIdChar c = (isAlnum c \<or> c \<in> set '':._-'')"

text \<open>\<open>/^[a-f0-9]{64}$/\<close> after a fixed prefix.\<close>

definition matchesSha256 :: "string \<Rightarrow> string \<Rightarrow> bool" where
  "matchesSha256 pre s =
     (startsWith s pre \<and> length s = length pre + 64 \<and> (\<forall>c \<in> set (drop (length pre) s). isHexLower c))"

text \<open>\<open>/^[A-Za-z0-9][A-Za-z0-9:._-]{0,max}$/\<close>\<close>

definition matchesOpaque :: "nat \<Rightarrow> string \<Rightarrow> bool" where
  "matchesOpaque maximum s =
     (case s of [] \<Rightarrow> False
      | c # cs \<Rightarrow> isAlnum c \<and> length cs \<le> maximum \<and> (\<forall>d \<in> set cs. isIdChar d))"

lemma matchesSha256E:
  assumes "matchesSha256 pre s"
  obtains d where "s = pre @ d" and "length d = 64" and "\<forall>c \<in> set d. isHexLower c"
  using assms unfolding matchesSha256_def startsWith_def
  by (metis append_take_drop_id add_diff_cancel_left' length_drop)

lemma matchesSha256_append [simp]:
  "matchesSha256 pre (pre @ d) \<longleftrightarrow> length d = 64 \<and> (\<forall>c \<in> set d. isHexLower c)"
  by (auto simp: matchesSha256_def startsWith_def)

end
