(* ===== verification/JS_Date.thy ===== *)
theory JS_Date
  imports JS_Values
begin

text \<open>
  Timestamps. A document carries a time as the text \<open>Date.prototype.toISOString\<close> prints, and a
  validator accepts a string \<open>v\<close> exactly when \<open>Date.parse(v)\<close> is finite and \<open>toISOString\<close> of it is \<open>v\<close>
  again. The strings with that property are the ISO 8601 texts \<open>YYYY-MM-DDTHH:mm:ss.sssZ\<close> of existing
  calendar times, years outside 0 to 9999 being written with a sign and six digits, within the
  range of a time value (100 million days around 1970).
\<close>

section \<open>The text of a time\<close>

definition substr :: "nat \<Rightarrow> nat \<Rightarrow> string \<Rightarrow> string" where
  "substr i n s = take n (drop i s)"

definition numField :: "nat \<Rightarrow> nat \<Rightarrow> string \<Rightarrow> int" where
  "numField i n s = digitsVal (substr i n s)"

text \<open>The last twenty characters: \<open>-MM-DDTHH:mm:ss.sssZ\<close>.\<close>

definition isoTailShape :: "string \<Rightarrow> bool" where
  "isoTailShape s =
     (length s = 20 \<and>
      substr 0 1 s = ''-'' \<and> substr 3 1 s = ''-'' \<and> substr 6 1 s = ''T'' \<and>
      substr 9 1 s = '':'' \<and> substr 12 1 s = '':'' \<and> substr 15 1 s = ''.'' \<and> substr 19 1 s = ''Z'' \<and>
      (\<forall>(i, n) \<in> set [(1, 2), (4, 2), (7, 2), (10, 2), (13, 2), (16, 3 :: nat)].
         \<forall>c \<in> set (substr i n s). isDigit c))"

definition leapYear :: "int \<Rightarrow> bool" where
  "leapYear y = (4 dvd y \<and> (\<not> 100 dvd y \<or> 400 dvd y))"

definition daysInMonth :: "int \<Rightarrow> int \<Rightarrow> int" where
  "daysInMonth y m =
     (if m = 2 then (if leapYear y then 29 else 28)
      else if m = 4 \<or> m = 6 \<or> m = 9 \<or> m = 11 then 30 else 31)"

text \<open>The fields denote a time of the calendar inside the range of time values.\<close>

definition validTime :: "int \<Rightarrow> string \<Rightarrow> bool" where
  "validTime y s =
     (let mo = numField 1 2 s; d = numField 4 2 s; h = numField 7 2 s;
          mi = numField 10 2 s; sec = numField 13 2 s; ms = numField 16 3 s
      in 1 \<le> mo \<and> mo \<le> 12 \<and> 1 \<le> d \<and> d \<le> daysInMonth y mo \<and> h < 24 \<and> mi < 60 \<and> sec < 60 \<and>
         (y > -271821 \<or> y = -271821 \<and> (mo > 4 \<or> mo = 4 \<and> d \<ge> 20)) \<and>
         (y < 275760 \<or> y = 275760 \<and> (mo < 9 \<or> mo = 9 \<and>
            (d < 13 \<or> d = 13 \<and> h = 0 \<and> mi = 0 \<and> sec = 0 \<and> ms = 0))))"

definition isIsoString :: "string \<Rightarrow> bool" where
  "isIsoString s =
     (if length s = 24 then
        (\<forall>c \<in> set (take 4 s). isDigit c) \<and> isoTailShape (drop 4 s) \<and>
        validTime (digitsVal (take 4 s)) (drop 4 s)
      else length s = 27 \<and> (\<forall>c \<in> set (substr 1 6 s). isDigit c) \<and> isoTailShape (drop 7 s) \<and>
        (let y = digitsVal (substr 1 6 s) in
         (hd s = CHR ''+'' \<and> 9999 < y \<and> validTime y (drop 7 s)) \<or>
         (hd s = CHR ''-'' \<and> 0 < y \<and> validTime (- y) (drop 7 s))))"

definition isIsoTimestamp :: "jsval \<Rightarrow> bool" where
  "isIsoTimestamp v = (case v of JStr s \<Rightarrow> isIsoString s | _ \<Rightarrow> False)"

lemma isIsoString_length: "isIsoString s \<Longrightarrow> length s = 24 \<or> length s = 27"
  by (auto simp: isIsoString_def split: if_splits)

lemma isIsoString_nonempty: "isIsoString s \<Longrightarrow> s \<noteq> []"
  using isIsoString_length by fastforce

section \<open>Text order and time order\<close>

text \<open>The number \<open>YYYYMMDDHHmmssSSS\<close> a four-digit-year timestamp spells.\<close>

definition stampNumber :: "string \<Rightarrow> int" where
  "stampNumber s = digitsVal (filter isDigit s)"

lemma digitsVal_append: "digitsVal (ds @ es) = digitsVal ds * 10 ^ length es + digitsVal es"
proof (induction es rule: rev_induct)
  case (snoc c es)
  then show ?case by (simp add: digitsVal_def algebra_simps flip: append_assoc)
qed (simp add: digitsVal_def)

lemma digitsVal_Cons: "digitsVal (c # ds) = (of_char c - 48) * 10 ^ length ds + digitsVal ds"
  using digitsVal_append [of "[c]" ds] by (simp add: digitsVal_def)

lemma of_char_int: "(of_char c :: int) = int (of_char c)"
  by (simp add: of_char_def)

lemma isDigit_bounds: "isDigit c \<Longrightarrow> 48 \<le> (of_char c :: int) \<and> (of_char c :: int) \<le> 57"
  by (simp add: isDigit_def Let_def of_char_int)

lemma digitsVal_bounds:
  "\<forall>c \<in> set ds. isDigit c \<Longrightarrow> 0 \<le> digitsVal ds \<and> digitsVal ds < 10 ^ length ds"
proof (induction ds)
  case (Cons c ds)
  have "0 \<le> (of_char c - 48 :: int)" "(of_char c - 48 :: int) \<le> 9"
    using Cons.prems isDigit_bounds [of c] by auto
  then have "0 \<le> (of_char c - 48) * (10 :: int) ^ length ds"
    "(of_char c - 48) * (10 :: int) ^ length ds \<le> 9 * 10 ^ length ds"
    by simp_all
  moreover have "0 \<le> digitsVal ds" "digitsVal ds < 10 ^ length ds"
    using Cons by auto
  ultimately show ?case
    unfolding digitsVal_Cons length_Cons power_Suc by linarith
qed (simp add: digitsVal_def)

lemma of_char_int_less: "(of_char a :: int) < of_char b \<longleftrightarrow> (of_char a :: nat) < of_char b"
  by (simp add: of_char_int)

text \<open>
  Two texts with digits at the same places and equal elsewhere compare as the numbers they spell.
\<close>

lemma codeUnitCompare_digits:
  assumes "list_all2 (\<lambda>a b. isDigit a \<and> isDigit b \<or> a = b \<and> \<not> isDigit a) s t"
  shows "codeUnitCompare s t < 0 \<longleftrightarrow> stampNumber s < stampNumber t"
  using assms
proof (induction s t rule: list_all2_induct)
  case Nil
  then show ?case by (simp add: stampNumber_def digitsVal_def)
next
  case (Cons a s b t)
  have len: "length (filter isDigit s) = length (filter isDigit t)"
    using Cons.hyps(2) by (induction s t rule: list_all2_induct) auto
  let ?S = "digitsVal (filter isDigit s)" and ?T = "digitsVal (filter isDigit t)"
  let ?p = "10 ^ length (filter isDigit t) :: int"
  have bs: "0 \<le> ?S" "?S < ?p" "0 \<le> ?T" "?T < ?p"
    using digitsVal_bounds [of "filter isDigit s"] digitsVal_bounds [of "filter isDigit t"] len by auto
  show ?case
  proof (cases "isDigit a")
    case True
    then have ab: "isDigit b" using Cons.hyps(1) by auto
    have lt: "(of_char x - 48) * ?p + X < (of_char y - 48) * ?p + Y"
      if "(of_char x :: int) < of_char y" "X < ?p" "0 \<le> Y" for x y X Y
    proof -
      have "(of_char x - 48 + 1) * ?p \<le> (of_char y - 48) * ?p"
        using that(1) by (intro mult_right_mono) auto
      then show ?thesis using that by (simp add: algebra_simps)
    qed
    show ?thesis
      using Cons.IH True ab len bs lt [of a b ?S ?T] lt [of b a ?T ?S]
      by (auto simp: stampNumber_def digitsVal_Cons of_char_int_less)
  next
    case False
    then show ?thesis
      using Cons by (auto simp: stampNumber_def)
  qed
qed

definition isoMask :: "bool list" where
  "isoMask = [True, True, True, True, False, True, True, False, True, True, False, True, True,
              False, True, True, False, True, True, False, True, True, True, False]"

lemma isIsoString_mask:
  assumes "isIsoString s" and "length s = 24"
  shows "\<forall>i < 24. isDigit (s ! i) = isoMask ! i"
    and "\<forall>i < 24. \<not> isoMask ! i \<longrightarrow> s ! i = ''0000-00-00T00:00:00.000Z'' ! i"
proof -
  obtain c0 c1 c2 c3 c4 c5 c6 c7 c8 c9 d0 d1 d2 d3 d4 d5 d6 d7 d8 d9 e0 e1 e2 e3
    where s: "s = [c0, c1, c2, c3, c4, c5, c6, c7, c8, c9, d0, d1, d2, d3, d4, d5, d6, d7, d8, d9,
      e0, e1, e2, e3]"
    using assms(2) by (auto simp: length_Suc_conv eval_nat_numeral)
  have "isDigit c0 \<and> isDigit c1 \<and> isDigit c2 \<and> isDigit c3 \<and> c4 = CHR ''-'' \<and> isDigit c5 \<and> isDigit c6 \<and>
    c7 = CHR ''-'' \<and> isDigit c8 \<and> isDigit c9 \<and> d0 = CHR ''T'' \<and> isDigit d1 \<and> isDigit d2 \<and>
    d3 = CHR '':'' \<and> isDigit d4 \<and> isDigit d5 \<and> d6 = CHR '':'' \<and> isDigit d7 \<and> isDigit d8 \<and>
    d9 = CHR ''.'' \<and> isDigit e0 \<and> isDigit e1 \<and> isDigit e2 \<and> e3 = CHR ''Z''"
    using assms(1) unfolding s by (simp add: isIsoString_def isoTailShape_def substr_def eval_nat_numeral)
  then show "\<forall>i < 24. isDigit (s ! i) = isoMask ! i"
    and "\<forall>i < 24. \<not> isoMask ! i \<longrightarrow> s ! i = ''0000-00-00T00:00:00.000Z'' ! i"
    unfolding s isoMask_def
    by (simp_all add: eval_nat_numeral All_less_Suc2 isDigit_def)
qed

text \<open>
  For timestamps with four-digit years, the order of the texts is the order of the times, so that
  last-writer-wins by comparing the texts is last-writer-wins in time.
\<close>

lemma isIsoString_order:
  assumes "isIsoString s" "isIsoString t" "length s = 24" "length t = 24"
  shows "codeUnitCompare s t < 0 \<longleftrightarrow> stampNumber s < stampNumber t"
proof (rule codeUnitCompare_digits)
  show "list_all2 (\<lambda>a b. isDigit a \<and> isDigit b \<or> a = b \<and> \<not> isDigit a) s t"
    unfolding list_all2_conv_all_nth
    using isIsoString_mask [OF assms(1,3)] isIsoString_mask [OF assms(2,4)] assms(3,4) by metis
qed

end
