(* ===== verification/Lww.thy ===== *)
theory Lww
  imports JS_Prelude
begin

text \<open>
  Last-writer-wins registers. Bookmarks, annotations, preference registers, progress documents and
  manifest entries are all merged by the same rule: an incoming record replaces the local one only
  when a comparator ranks it strictly higher. The laws of that rule, and the convergence of replicas
  that see the same records in any order and any multiplicity, are proved here once.
\<close>

section \<open>The merge rule\<close>

locale lww = comparator cmp for cmp :: "'a \<Rightarrow> 'a \<Rightarrow> int" +
  fixes pick :: "'a \<Rightarrow> 'a \<Rightarrow> 'a"
  assumes pick_eq: "pick local incoming = (if 0 < cmp incoming local then incoming else local)"
begin

lemma pick_idem: "pick x x = x"
  by (simp add: pick_eq)

lemma pick_cases: "pick x y = x \<or> pick x y = y"
  by (simp add: pick_eq)

lemma pick_ge_left: "cmp x (pick x y) \<le> 0"
  by (simp add: pick_eq cmp_refl cmp_le_iff)

lemma pick_ge_right: "cmp y (pick x y) \<le> 0"
  by (simp add: pick_eq cmp_refl)

lemma pick_assoc: "pick (pick x y) z = pick x (pick y z)"
proof (cases "0 < cmp y x")
  case True
  then show ?thesis
    using cmp_less_trans [of x y z] by (auto simp: pick_eq cmp_anti)
next
  case False
  then have yx: "cmp y x \<le> 0" by simp
  show ?thesis
  proof (cases "0 < cmp z y")
    case True
    then show ?thesis using False by (simp add: pick_eq)
  next
    case zy: False
    then have "cmp z x \<le> 0" using cmp_trans [OF _ yx] by simp
    then show ?thesis using False zy by (simp add: pick_eq)
  qed
qed

text \<open>Two replicas that exchange their records agree, unless the comparator ties on distinct ones.\<close>

lemma pick_commute: "(cmp x y = 0 \<Longrightarrow> x = y) \<Longrightarrow> pick x y = pick y x"
  using cmp_anti [of x y] cmp_anti [of y x] by (auto simp: pick_eq)

lemma pick_commute_rank: "cmp (pick x y) (pick y x) = 0"
  using cmp_anti [of x y] cmp_anti [of y x] by (auto simp: pick_eq cmp_refl)

lemma pick_absorb: "pick (pick x y) y = pick x y"
  by (simp add: pick_eq cmp_refl)

section \<open>Replaying a stream of records\<close>

lemma foldl_pick_mem: "foldl pick x xs \<in> insert x (set xs)"
proof (induction xs arbitrary: x)
  case (Cons y ys)
  then show ?case using pick_cases [of x y] by fastforce
qed simp

lemma foldl_pick_ge: "y \<in> insert x (set xs) \<Longrightarrow> cmp y (foldl pick x xs) \<le> 0"
proof (induction xs arbitrary: x y)
  case (Cons z zs)
  have top: "cmp (pick x z) (foldl pick (pick x z) zs) \<le> 0"
    by (rule Cons.IH) simp
  show ?case
    using Cons pick_ge_left [of x z] pick_ge_right [of z x] top
    by (auto intro: cmp_trans)
qed (simp add: cmp_refl)

text \<open>
  Strong eventual consistency: the value a replica ends with depends only on the set of records it
  has seen, not on their order or on repeated deliveries.
\<close>

lemma foldl_pick_rank:
  assumes "insert x (set xs) = insert y (set ys)"
  shows "cmp (foldl pick x xs) (foldl pick y ys) = 0"
proof -
  have m: "foldl pick x xs \<in> insert x (set xs)" "foldl pick y ys \<in> insert x (set xs)"
    using foldl_pick_mem assms by blast+
  have "cmp (foldl pick x xs) (foldl pick y ys) \<le> 0" "cmp (foldl pick y ys) (foldl pick x xs) \<le> 0"
    using foldl_pick_ge m assms by blast+
  then show ?thesis by (metis cmp_le_iff order_antisym)
qed

lemma foldl_pick_converges:
  assumes "insert x (set xs) = insert y (set ys)"
    and "\<And>a b. a \<in> insert x (set xs) \<Longrightarrow> b \<in> insert x (set xs) \<Longrightarrow> cmp a b = 0 \<Longrightarrow> a = b"
  shows "foldl pick x xs = foldl pick y ys"
  using foldl_pick_rank [OF assms(1)] foldl_pick_mem [of x xs] foldl_pick_mem [of y ys] assms by blast

end

end
