(* ===== verification/Publication.thy ===== *)
theory Publication
  imports JS_Date Lww
begin

text \<open>
  The publication records of \<open>libs/reader/domain\<close>: \<open>publication.ts\<close> (their types),
  \<open>publication-format.ts\<close> (format detection), \<open>reader-preferences.ts\<close> and
  \<open>publication-record-validation.ts\<close> (the validators every stored or received record passes).

  A TypeScript interface is a record here, and \<open>...Val\<close> gives the plain object it is at run time, which
  is what a validator inspects. The lemmas \<open>..._iff\<close> say what a validator means on a record, and the
  type lemmas that an accepted value of unknown origin has the shape its type guard claims.
\<close>

section \<open>Types\<close>

datatype PublicationFormat = Epub | Pdf

definition formatString :: "PublicationFormat \<Rightarrow> string" where
  "formatString f = (case f of Epub \<Rightarrow> ''epub'' | Pdf \<Rightarrow> ''pdf'')"

abbreviation formatVal :: "PublicationFormat \<Rightarrow> jsval" where
  "formatVal f \<equiv> JStr (formatString f)"

record LocatorLocations =
  fragments :: "string list option"
  progression :: "jsnum option"
  position :: "jsnum option"
  totalProgression :: "jsnum option"

record LocatorText =
  before :: "string option"
  highlight :: "string option"
  after :: "string option"

record PublicationLocator =
  href :: string
  loc_type :: string
  loc_title :: "string option"
  locations :: "LocatorLocations option"
  loc_text :: "LocatorText option"

datatype CoverState = CoverAvailable | CoverUnavailable

record BookRecord =
  br_id :: string
  br_format :: PublicationFormat
  br_fileName :: string
  br_mediaType :: string
  br_size :: jsnum
  br_title :: string
  br_authors :: "string list"
  br_language :: "string option"
  br_publisher :: "string option"
  br_identifier :: "string option"
  br_importedAt :: string
  br_lastOpenedAt :: "string option"
  br_coverState :: "CoverState option"

record ReadingProgress =
  rp_bookId :: string
  rp_format :: PublicationFormat
  rp_deviceId :: string
  rp_locator :: PublicationLocator
  rp_furthest :: jsnum
  rp_updatedAt :: string
  rp_appVersion :: string

section \<open>The objects behind the records\<close>

definition locationsVal :: "LocatorLocations \<Rightarrow> jsval" where
  "locationsVal l = JObj
     (optional ''fragments'' (\<lambda>fs. JArr (map JStr fs)) (fragments l) @
      optional ''progression'' JNum (progression l) @
      optional ''position'' JNum (position l) @
      optional ''totalProgression'' JNum (totalProgression l))"

definition textVal :: "LocatorText \<Rightarrow> jsval" where
  "textVal t = JObj
     (optional ''before'' JStr (before t) @
      optional ''highlight'' JStr (highlight t) @
      optional ''after'' JStr (after t))"

definition locatorVal :: "PublicationLocator \<Rightarrow> jsval" where
  "locatorVal l = JObj
     ([(''href'', JStr (href l)), (''type'', JStr (loc_type l))] @
      optional ''title'' JStr (loc_title l) @
      optional ''locations'' locationsVal (locations l) @
      optional ''text'' textVal (loc_text l))"

definition coverStateString :: "CoverState \<Rightarrow> string" where
  "coverStateString c = (case c of CoverAvailable \<Rightarrow> ''available'' | CoverUnavailable \<Rightarrow> ''unavailable'')"

definition bookVal :: "BookRecord \<Rightarrow> jsval" where
  "bookVal b = JObj
     ([(''id'', JStr (br_id b)), (''format'', formatVal (br_format b)),
       (''fileName'', JStr (br_fileName b)), (''mediaType'', JStr (br_mediaType b)),
       (''size'', JNum (br_size b)), (''title'', JStr (br_title b)),
       (''authors'', JArr (map JStr (br_authors b)))] @
      optional ''language'' JStr (br_language b) @
      optional ''publisher'' JStr (br_publisher b) @
      optional ''identifier'' JStr (br_identifier b) @
      [(''importedAt'', JStr (br_importedAt b))] @
      optional ''lastOpenedAt'' JStr (br_lastOpenedAt b) @
      optional ''coverState'' (\<lambda>c. JStr (coverStateString c)) (br_coverState b))"

definition progressVal :: "ReadingProgress \<Rightarrow> jsval" where
  "progressVal p = JObj
     [(''schemaVersion'', JInt 1), (''bookId'', JStr (rp_bookId p)),
      (''format'', formatVal (rp_format p)), (''deviceId'', JStr (rp_deviceId p)),
      (''locator'', locatorVal (rp_locator p)),
      (''furthestTotalProgression'', JNum (rp_furthest p)),
      (''updatedAt'', JStr (rp_updatedAt p)), (''appVersion'', JStr (rp_appVersion p))]"

section \<open>Format detection\<close>

definition toLowerChar :: "char \<Rightarrow> char" where
  "toLowerChar c = (let n = (of_char c :: int) in
     if (65 \<le> n \<and> n \<le> 90) \<or> (192 \<le> n \<and> n \<le> 222 \<and> n \<noteq> 215) then char_of (n + 32) else c)"

definition toLowerCase :: "string \<Rightarrow> string" where
  "toLowerCase s = map toLowerChar s"

definition EPUB_MEDIA_TYPES :: "string list" where
  "EPUB_MEDIA_TYPES = [''application/epub+zip'', ''application/x-epub+zip'']"

definition detectPublicationFormat :: "string \<Rightarrow> string \<Rightarrow> PublicationFormat option" where
  "detectPublicationFormat name mediaType =
     (let normalizedName = toLowerCase name;
          normalizedMediaType = toLowerCase mediaType
      in if normalizedMediaType \<in> set EPUB_MEDIA_TYPES \<or> endsWith normalizedName ''.epub''
         then Some Epub
         else if normalizedMediaType = ''application/pdf'' \<or> endsWith normalizedName ''.pdf''
         then Some Pdf
         else None)"

section \<open>Validators\<close>

definition isCanonicalTimestamp :: "jsval \<Rightarrow> bool" where
  "isCanonicalTimestamp v = (case v of
     JStr s \<Rightarrow> \<not> length s > 64 \<and> isIsoString s | _ \<Rightarrow> False)"

definition isBookId :: "jsval \<Rightarrow> bool" where
  "isBookId v = (case v of JStr s \<Rightarrow> matchesSha256 ''sha256:'' s | _ \<Rightarrow> False)"

definition isPublicationFormat :: "jsval \<Rightarrow> bool" where
  "isPublicationFormat v = (v = JStr ''epub'' \<or> v = JStr ''pdf'')"

definition isBookRecord :: "jsval \<Rightarrow> bool" where
  "isBookRecord v =
     (isRecord v \<and>
      isBookId (getProp v ''id'') \<and>
      isPublicationFormat (getProp v ''format'') \<and>
      isBoundedString (getProp v ''fileName'') 512 \<and>
      isBoundedString (getProp v ''mediaType'') 128 \<and>
      isSafeIntegerFrom 1 (getProp v ''size'') \<and>
      isBoundedString (getProp v ''title'') 1024 \<and>
      arrayLength (getProp v ''authors'') \<le> 64 \<and>
      isArrayOf (\<lambda>author. isBoundedString author 512) (getProp v ''authors'') \<and>
      isOptionalBoundedString (getProp v ''language'') 128 \<and>
      isOptionalBoundedString (getProp v ''publisher'') 1024 \<and>
      isOptionalBoundedString (getProp v ''identifier'') 1024 \<and>
      isCanonicalTimestamp (getProp v ''importedAt'') \<and>
      (getProp v ''lastOpenedAt'' = JUndef \<or> isCanonicalTimestamp (getProp v ''lastOpenedAt'')) \<and>
      (getProp v ''coverState'' = JUndef \<or> getProp v ''coverState'' = JStr ''available'' \<or>
       getProp v ''coverState'' = JStr ''unavailable''))"

text \<open>\<open>locations\<close> of a locator, with the bounds that differ between the validators.\<close>

definition isLocations :: "nat \<Rightarrow> nat \<Rightarrow> jsval \<Rightarrow> bool" where
  "isLocations maxFragments maxFragment l =
     (isRecord l \<and>
      (getProp l ''fragments'' = JUndef \<or>
        (arrayLength (getProp l ''fragments'') \<le> maxFragments \<and>
         isArrayOf (\<lambda>f. isBoundedString f maxFragment) (getProp l ''fragments''))) \<and>
      (getProp l ''progression'' = JUndef \<or> isProgression (getProp l ''progression'')) \<and>
      (getProp l ''totalProgression'' = JUndef \<or> isProgression (getProp l ''totalProgression'')) \<and>
      (getProp l ''position'' = JUndef \<or> isSafeIntegerFrom 1 (getProp l ''position'')))"

definition isString :: "jsval \<Rightarrow> nat \<Rightarrow> bool" where
  "isString v maximum = (case v of JStr s \<Rightarrow> length s \<le> maximum | _ \<Rightarrow> False)"

text \<open>\<open>isPublicationLocator\<close> of \<open>publication-record-validation.ts\<close>.\<close>

definition isPublicationLocator :: "jsval \<Rightarrow> jsval \<Rightarrow> bool" where
  "isPublicationLocator v format =
     (isRecord v \<and>
      isString (getProp v ''href'') 8192 \<and>
      (format = JStr ''pdf'' \<or> getProp v ''href'' \<noteq> JStr []) \<and>
      isBoundedString (getProp v ''type'') 256 \<and>
      isOptionalBoundedString (getProp v ''title'') 1024 \<and>
      (getProp v ''locations'' = JUndef \<or> isLocations 32 4096 (getProp v ''locations'')) \<and>
      (let text = getProp v ''text'' in
       text = JUndef \<or>
       (isRecord text \<and>
        isOptionalBoundedString (getProp text ''before'') 16384 \<and>
        isOptionalBoundedString (getProp text ''highlight'') 16384 \<and>
        isOptionalBoundedString (getProp text ''after'') 16384)))"

definition isReadingProgress :: "jsval \<Rightarrow> bool" where
  "isReadingProgress v =
     (isRecord v \<and>
      getProp v ''schemaVersion'' = JInt 1 \<and>
      isBookId (getProp v ''bookId'') \<and>
      isPublicationFormat (getProp v ''format'') \<and>
      isBoundedString (getProp v ''deviceId'') 256 \<and>
      isPublicationLocator (getProp v ''locator'') (getProp v ''format'') \<and>
      isProgression (getProp v ''furthestTotalProgression'') \<and>
      isCanonicalTimestamp (getProp v ''updatedAt'') \<and>
      isBoundedString (getProp v ''appVersion'') 128)"

text \<open>\<open>xs.includes(String(v))\<close> and \<open>ns.includes(Number(v))\<close>\<close>

definition includesString :: "string list \<Rightarrow> jsval \<Rightarrow> bool" where
  "includesString xs v = (toStringJ v \<in> set xs)"

definition includesNumber :: "rat list \<Rightarrow> jsval \<Rightarrow> bool" where
  "includesNumber ns v = (toNumberJ v \<in> Fin ` set ns)"

definition isReaderPreferences :: "jsval \<Rightarrow> bool" where
  "isReaderPreferences v =
     (isRecord v \<and>
      (if getProp v ''format'' = JStr ''pdf'' then
         includesString [''fit-width'', ''fit-page'', ''custom''] (getProp v ''zoomMode'') \<and>
         isFiniteNumberInRange (getProp v ''zoomPercent'') 10 1000 \<and>
         includesNumber [0, 90, 180, 270] (getProp v ''rotation'')
       else
         getProp v ''format'' = JStr ''epub'' \<and>
         includesString [''light'', ''sepia'', ''dark''] (getProp v ''theme'') \<and>
         includesString [''serif'', ''sans-serif''] (getProp v ''fontFamily'') \<and>
         isFiniteNumberInRange (getProp v ''fontSizePercent'') 50 300 \<and>
         isFiniteNumberInRange (getProp v ''lineHeight'') (1 / 2) 4 \<and>
         isFiniteNumberInRange (getProp v ''paragraphSpacingRem'') 0 10 \<and>
         isFiniteNumberInRange (getProp v ''marginPercent'') 0 40 \<and>
         isFiniteNumberInRange (getProp v ''maxLineWidthRem'') 10 200 \<and>
         includesString [''auto'', ''paginated'', ''scrolled''] (getProp v ''flow'') \<and>
         includesString [''none'', ''auto''] (getProp v ''spread'')))"

section \<open>Reader preferences\<close>

datatype ReaderTheme = Light | Sepia | Dark
datatype EpubFontFamily = Serif | SansSerif
datatype EpubFlow = FlowAuto | Paginated | Scrolled
datatype EpubSpread = SpreadNone | SpreadAuto
datatype PdfZoomMode = FitWidth | FitPage | CustomZoom
datatype PdfRotation = R0 | R90 | R180 | R270

record EpubReaderPreferences =
  theme :: ReaderTheme
  fontFamily :: EpubFontFamily
  fontSizePercent :: jsnum
  lineHeight :: jsnum
  paragraphSpacingRem :: jsnum
  marginPercent :: jsnum
  maxLineWidthRem :: jsnum
  flow :: EpubFlow
  spread :: EpubSpread

record PdfReaderPreferences =
  zoomMode :: PdfZoomMode
  zoomPercent :: jsnum
  rotation :: PdfRotation

datatype ReaderPreferences = EpubPrefs EpubReaderPreferences | PdfPrefs PdfReaderPreferences

definition DEFAULT_EPUB_READER_PREFERENCES :: EpubReaderPreferences where
  "DEFAULT_EPUB_READER_PREFERENCES =
     \<lparr>theme = Light, fontFamily = Serif, fontSizePercent = Fin 100, lineHeight = Fin (155 / 100),
      paragraphSpacingRem = Fin (3 / 4), marginPercent = Fin 5, maxLineWidthRem = Fin 44,
      flow = FlowAuto, spread = SpreadAuto\<rparr>"

definition DEFAULT_PDF_READER_PREFERENCES :: PdfReaderPreferences where
  "DEFAULT_PDF_READER_PREFERENCES = \<lparr>zoomMode = FitWidth, zoomPercent = Fin 100, rotation = R0\<rparr>"

definition defaultReaderPreferences :: "PublicationFormat \<Rightarrow> ReaderPreferences" where
  "defaultReaderPreferences f = (case f of
     Epub \<Rightarrow> EpubPrefs DEFAULT_EPUB_READER_PREFERENCES
   | Pdf \<Rightarrow> PdfPrefs DEFAULT_PDF_READER_PREFERENCES)"

definition themeString :: "ReaderTheme \<Rightarrow> string" where
  "themeString x = (case x of Light \<Rightarrow> ''light'' | Sepia \<Rightarrow> ''sepia'' | Dark \<Rightarrow> ''dark'')"

definition fontFamilyString :: "EpubFontFamily \<Rightarrow> string" where
  "fontFamilyString x = (case x of Serif \<Rightarrow> ''serif'' | SansSerif \<Rightarrow> ''sans-serif'')"

definition flowString :: "EpubFlow \<Rightarrow> string" where
  "flowString x = (case x of FlowAuto \<Rightarrow> ''auto'' | Paginated \<Rightarrow> ''paginated'' | Scrolled \<Rightarrow> ''scrolled'')"

definition spreadString :: "EpubSpread \<Rightarrow> string" where
  "spreadString x = (case x of SpreadNone \<Rightarrow> ''none'' | SpreadAuto \<Rightarrow> ''auto'')"

definition zoomModeString :: "PdfZoomMode \<Rightarrow> string" where
  "zoomModeString x = (case x of FitWidth \<Rightarrow> ''fit-width'' | FitPage \<Rightarrow> ''fit-page'' | CustomZoom \<Rightarrow> ''custom'')"

definition rotationNumber :: "PdfRotation \<Rightarrow> rat" where
  "rotationNumber r = (case r of R0 \<Rightarrow> 0 | R90 \<Rightarrow> 90 | R180 \<Rightarrow> 180 | R270 \<Rightarrow> 270)"

definition preferencesVal :: "ReaderPreferences \<Rightarrow> jsval" where
  "preferencesVal p = (case p of
     EpubPrefs e \<Rightarrow> JObj
       [(''format'', JStr ''epub''), (''theme'', JStr (themeString (theme e))),
        (''fontFamily'', JStr (fontFamilyString (fontFamily e))),
        (''fontSizePercent'', JNum (fontSizePercent e)), (''lineHeight'', JNum (lineHeight e)),
        (''paragraphSpacingRem'', JNum (paragraphSpacingRem e)),
        (''marginPercent'', JNum (marginPercent e)), (''maxLineWidthRem'', JNum (maxLineWidthRem e)),
        (''flow'', JStr (flowString (flow e))), (''spread'', JStr (spreadString (spread e)))]
   | PdfPrefs d \<Rightarrow> JObj
       [(''format'', JStr ''pdf''), (''zoomMode'', JStr (zoomModeString (zoomMode d))),
        (''zoomPercent'', JNum (zoomPercent d)), (''rotation'', JNum (Fin (rotationNumber (rotation d))))])"

section \<open>Reading an accepted value at its declared type\<close>

text \<open>
  After a type guard has accepted a value, the code reads it as the record: these are the fields it
  sees. A value the guard rejects has no record; the readers below are then arbitrary.
\<close>

definition strOf :: "jsval \<Rightarrow> string" where
  "strOf v = (case v of JStr s \<Rightarrow> s | _ \<Rightarrow> [])"

definition numOf :: "jsval \<Rightarrow> jsnum" where
  "numOf v = (case v of JNum x \<Rightarrow> x | _ \<Rightarrow> NaN)"

definition arrOf :: "jsval \<Rightarrow> jsval list" where
  "arrOf v = (case v of JArr vs \<Rightarrow> vs | _ \<Rightarrow> [])"

definition optOf :: "(jsval \<Rightarrow> 'a) \<Rightarrow> jsval \<Rightarrow> 'a option" where
  "optOf f v = (if v = JUndef then None else Some (f v))"

definition formatOf :: "jsval \<Rightarrow> PublicationFormat" where
  "formatOf v = (if v = JStr ''pdf'' then Pdf else Epub)"

definition locationsOf :: "jsval \<Rightarrow> LocatorLocations" where
  "locationsOf v =
     \<lparr>fragments = optOf (\<lambda>a. map strOf (arrOf a)) (getProp v ''fragments''),
      progression = optOf numOf (getProp v ''progression''),
      position = optOf numOf (getProp v ''position''),
      totalProgression = optOf numOf (getProp v ''totalProgression'')\<rparr>"

definition textOf :: "jsval \<Rightarrow> LocatorText" where
  "textOf v =
     \<lparr>before = optOf strOf (getProp v ''before''), highlight = optOf strOf (getProp v ''highlight''),
      after = optOf strOf (getProp v ''after'')\<rparr>"

definition locatorOf :: "jsval \<Rightarrow> PublicationLocator" where
  "locatorOf v =
     \<lparr>href = strOf (getProp v ''href''), loc_type = strOf (getProp v ''type''),
      loc_title = optOf strOf (getProp v ''title''),
      locations = optOf locationsOf (getProp v ''locations''),
      loc_text = optOf textOf (getProp v ''text'')\<rparr>"

definition coverStateOf :: "jsval \<Rightarrow> CoverState" where
  "coverStateOf v = (if v = JStr ''available'' then CoverAvailable else CoverUnavailable)"

definition bookOf :: "jsval \<Rightarrow> BookRecord" where
  "bookOf v =
     \<lparr>br_id = strOf (getProp v ''id''), br_format = formatOf (getProp v ''format''),
      br_fileName = strOf (getProp v ''fileName''), br_mediaType = strOf (getProp v ''mediaType''),
      br_size = numOf (getProp v ''size''), br_title = strOf (getProp v ''title''),
      br_authors = map strOf (arrOf (getProp v ''authors'')),
      br_language = optOf strOf (getProp v ''language''),
      br_publisher = optOf strOf (getProp v ''publisher''),
      br_identifier = optOf strOf (getProp v ''identifier''),
      br_importedAt = strOf (getProp v ''importedAt''),
      br_lastOpenedAt = optOf strOf (getProp v ''lastOpenedAt''),
      br_coverState = optOf coverStateOf (getProp v ''coverState'')\<rparr>"

definition progressOf :: "jsval \<Rightarrow> ReadingProgress" where
  "progressOf v =
     \<lparr>rp_bookId = strOf (getProp v ''bookId''), rp_format = formatOf (getProp v ''format''),
      rp_deviceId = strOf (getProp v ''deviceId''), rp_locator = locatorOf (getProp v ''locator''),
      rp_furthest = numOf (getProp v ''furthestTotalProgression''),
      rp_updatedAt = strOf (getProp v ''updatedAt''), rp_appVersion = strOf (getProp v ''appVersion'')\<rparr>"

lemma readers [simp]:
  "strOf (JStr s) = s" "numOf (JNum x) = x" "arrOf (JArr vs) = vs" "optOf f JUndef = None"
  "formatOf (formatVal fmt) = fmt"
  by (simp_all add: strOf_def numOf_def arrOf_def optOf_def formatOf_def formatString_def
      split: PublicationFormat.splits)

lemma optOf_simps [simp]:
  "optOf f (JStr s) = Some (f (JStr s))" "optOf f (JNum x) = Some (f (JNum x))"
  "optOf f (JArr vs) = Some (f (JArr vs))" "optOf f (JObj kvs) = Some (f (JObj kvs))"
  by (simp_all add: optOf_def)

lemma optOf_case [simp]:
  "(\<And>y. g y \<noteq> JUndef) \<Longrightarrow> (\<And>y. f (g y) = y) \<Longrightarrow>
   optOf f (withDefault JUndef g x) = x"
  by (cases x) (auto simp: optOf_def)

lemma map_strOf [simp]: "map (strOf \<circ> JStr) xs = xs"
  by (induction xs) auto

lemma locationsOf_locationsVal [simp]: "locationsOf (locationsVal l) = l"
  by (cases l) (simp add: locationsOf_def locationsVal_def)

lemma textOf_textVal [simp]: "textOf (textVal t) = t"
  by (cases t) (simp add: textOf_def textVal_def)

lemma locationsVal_neq [simp]: "locationsVal l \<noteq> JUndef" and textVal_neq [simp]: "textVal t \<noteq> JUndef"
  by (simp_all add: locationsVal_def textVal_def)

lemma locatorOf_locatorVal [simp]: "locatorOf (locatorVal l) = l"
  by (cases l) (simp add: locatorOf_def locatorVal_def)

lemma progressOf_progressVal [simp]: "progressOf (progressVal p) = p"
  by (cases p) (simp add: progressOf_def progressVal_def)

lemma coverStateOf_string [simp]: "coverStateOf (JStr (coverStateString c)) = c"
  by (cases c) (simp_all add: coverStateOf_def coverStateString_def)

lemma bookOf_bookVal [simp]: "bookOf (bookVal b) = b"
  by (cases b) (simp add: bookOf_def bookVal_def)

section \<open>What the validators mean\<close>

lemma isPublicationFormat_formatVal [simp]: "isPublicationFormat (formatVal f)"
  by (cases f) (simp_all add: isPublicationFormat_def formatString_def)

lemma isCanonicalTimestamp_JStr [simp]: "isCanonicalTimestamp (JStr s) \<longleftrightarrow> isIsoString s"
  using isIsoString_length [of s] by (auto simp: isCanonicalTimestamp_def)

lemma isCanonicalTimestamp_iff: "isCanonicalTimestamp v \<longleftrightarrow> (\<exists>s. v = JStr s \<and> isIsoString s)"
proof (cases v)
  case (JStr s)
  then show ?thesis by simp
qed (simp_all add: isCanonicalTimestamp_def)

lemma isBookId_iff: "isBookId v \<longleftrightarrow> (\<exists>s. v = JStr s \<and> matchesSha256 ''sha256:'' s)"
  by (cases v) (simp_all add: isBookId_def)

lemma isBoundedString_iff: "isBoundedString v n \<longleftrightarrow> (\<exists>s. v = JStr s \<and> s \<noteq> [] \<and> length s \<le> n)"
  by (cases v) simp_all

lemma isOptionalBoundedString_iff:
  "isOptionalBoundedString v n \<longleftrightarrow> v = JUndef \<or> (\<exists>s. v = JStr s \<and> s \<noteq> [] \<and> length s \<le> n)"
  by (simp add: isOptionalBoundedString_def isBoundedString_iff)

lemma isProgression_iff: "isProgression v \<longleftrightarrow> (\<exists>q. v = JNum (Fin q) \<and> 0 \<le> q \<and> q \<le> 1)"
  by (cases v) (auto simp: isProgression_JNum, auto simp: isProgression_def isFiniteNumberInRange_def)

lemma isSafeIntegerFrom_iff:
  "isSafeIntegerFrom m v \<longleftrightarrow> (\<exists>n. v = JInt n \<and> m \<le> n \<and> \<bar>n\<bar> \<le> MAX_SAFE_INTEGER)"
proof
  assume "isSafeIntegerFrom m v"
  then obtain q where v: "v = JNum (Fin q)" and q: "isSafeInteger (Fin q)" "of_int m \<le> q"
    by (auto simp: isSafeIntegerFrom_def split: jsval.splits jsnum.splits)
  have "of_int \<lfloor>q\<rfloor> = q" using q(1) unfolding isSafeInteger_def isIntegral_def by (simp only: jsnum.case)
  moreover have "m \<le> \<lfloor>q\<rfloor>" using q(2) by (simp add: le_floor_iff)
  moreover have "\<bar>\<lfloor>q\<rfloor>\<bar> \<le> MAX_SAFE_INTEGER" using q(1) by (simp add: isSafeInteger_def)
  ultimately show "\<exists>n. v = JInt n \<and> m \<le> n \<and> \<bar>n\<bar> \<le> MAX_SAFE_INTEGER"
    using v by metis
qed (auto simp: isSafeIntegerFrom_def)

lemma isPublicationFormat_iff: "isPublicationFormat v \<longleftrightarrow> (\<exists>f. v = formatVal f)"
proof
  assume "isPublicationFormat v"
  then have "v = formatVal Epub \<or> v = formatVal Pdf"
    by (simp add: isPublicationFormat_def formatString_def)
  then show "\<exists>f. v = formatVal f" by blast
qed auto

lemmas validator_iffs = isCanonicalTimestamp_iff isBookId_iff isBoundedString_iff
  isOptionalBoundedString_iff isProgression_iff isSafeIntegerFrom_iff isPublicationFormat_iff

text \<open>The properties of the objects behind the records, one rewrite rule per key.\<close>

lemma getProp_bookVal [simp]:
  "getProp (bookVal b) ''id'' = JStr (br_id b)"
  "getProp (bookVal b) ''format'' = formatVal (br_format b)"
  "getProp (bookVal b) ''fileName'' = JStr (br_fileName b)"
  "getProp (bookVal b) ''mediaType'' = JStr (br_mediaType b)"
  "getProp (bookVal b) ''size'' = JNum (br_size b)"
  "getProp (bookVal b) ''title'' = JStr (br_title b)"
  "getProp (bookVal b) ''authors'' = JArr (map JStr (br_authors b))"
  "getProp (bookVal b) ''language'' = withDefault JUndef JStr (br_language b)"
  "getProp (bookVal b) ''publisher'' = withDefault JUndef JStr (br_publisher b)"
  "getProp (bookVal b) ''identifier'' = withDefault JUndef JStr (br_identifier b)"
  "getProp (bookVal b) ''importedAt'' = JStr (br_importedAt b)"
  "getProp (bookVal b) ''lastOpenedAt'' = withDefault JUndef JStr (br_lastOpenedAt b)"
  "getProp (bookVal b) ''coverState'' = withDefault JUndef (\<lambda>c. JStr (coverStateString c)) (br_coverState b)"
  by (simp_all add: bookVal_def)

lemma getProp_progressVal [simp]:
  "getProp (progressVal p) ''schemaVersion'' = JInt 1"
  "getProp (progressVal p) ''bookId'' = JStr (rp_bookId p)"
  "getProp (progressVal p) ''format'' = formatVal (rp_format p)"
  "getProp (progressVal p) ''deviceId'' = JStr (rp_deviceId p)"
  "getProp (progressVal p) ''locator'' = locatorVal (rp_locator p)"
  "getProp (progressVal p) ''furthestTotalProgression'' = JNum (rp_furthest p)"
  "getProp (progressVal p) ''updatedAt'' = JStr (rp_updatedAt p)"
  "getProp (progressVal p) ''appVersion'' = JStr (rp_appVersion p)"
  by (simp_all add: progressVal_def)

lemma getProp_locatorVal [simp]:
  "getProp (locatorVal l) ''href'' = JStr (href l)"
  "getProp (locatorVal l) ''type'' = JStr (loc_type l)"
  "getProp (locatorVal l) ''title'' = withDefault JUndef JStr (loc_title l)"
  "getProp (locatorVal l) ''locations'' = withDefault JUndef locationsVal (locations l)"
  "getProp (locatorVal l) ''text'' = withDefault JUndef textVal (loc_text l)"
  by (simp_all add: locatorVal_def)

lemma getProp_locationsVal [simp]:
  "getProp (locationsVal l) ''fragments'' = withDefault JUndef (\<lambda>fs. JArr (map JStr fs)) (fragments l)"
  "getProp (locationsVal l) ''progression'' = withDefault JUndef JNum (progression l)"
  "getProp (locationsVal l) ''position'' = withDefault JUndef JNum (position l)"
  "getProp (locationsVal l) ''totalProgression'' = withDefault JUndef JNum (totalProgression l)"
  by (simp_all add: locationsVal_def)

lemma getProp_textVal [simp]:
  "getProp (textVal t) ''before'' = withDefault JUndef JStr (before t)"
  "getProp (textVal t) ''highlight'' = withDefault JUndef JStr (highlight t)"
  "getProp (textVal t) ''after'' = withDefault JUndef JStr (after t)"
  by (simp_all add: textVal_def)

lemma isRecord_vals [simp]:
  "isRecord (bookVal b)" "isRecord (progressVal p)" "isRecord (locatorVal l)"
  "isRecord (locationsVal ll)" "isRecord (textVal t)"
  by (simp_all add: bookVal_def progressVal_def locatorVal_def locationsVal_def textVal_def)

text \<open>Reading a value of the right kind and writing it back gives the value.\<close>

lemma isStr_kinds:
  "isBoundedString w n \<Longrightarrow> isStr w" "isBookId w \<Longrightarrow> isStr w" "isCanonicalTimestamp w \<Longrightarrow> isStr w"
  "isString w n \<Longrightarrow> isStr w"
  by (auto simp: isStr_iff validator_iffs isString_def split: jsval.splits)

lemma isOptStr_kinds:
  "isOptionalBoundedString w n \<Longrightarrow> w = JUndef \<or> isStr w"
  "w = JUndef \<or> isCanonicalTimestamp w \<Longrightarrow> w = JUndef \<or> isStr w"
  by (auto simp: isStr_iff validator_iffs)

lemma isNum_kinds: "isProgression w \<Longrightarrow> isNum w" "isSafeIntegerFrom m w \<Longrightarrow> isNum w"
  by (auto simp: isNum_iff validator_iffs)

lemma write_read [js_simps]:
  "isStr w \<Longrightarrow> JStr (strOf w) = w"
  "isNum w \<Longrightarrow> JNum (numOf w) = w"
  "isPublicationFormat w \<Longrightarrow> formatVal (formatOf w) = w"
  "w = JUndef \<or> isStr w \<Longrightarrow> withDefault JUndef JStr (optOf strOf w) = w"
  "w = JUndef \<or> isNum w \<Longrightarrow> withDefault JUndef JNum (optOf numOf w) = w"
  by (auto simp: isStr_iff isNum_iff validator_iffs)

lemma write_read_cover [js_simps]:
  "w = JUndef \<or> w = JStr ''available'' \<or> w = JStr ''unavailable'' \<Longrightarrow>
   withDefault JUndef (\<lambda>c. JStr (coverStateString c)) (optOf coverStateOf w) = w"
  by (auto simp: coverStateOf_def coverStateString_def)

lemma write_read_strings [js_simps]:
  assumes "isArrayOf (\<lambda>a. isBoundedString a n) w"
  shows "JArr (map JStr (map strOf (arrOf w))) = w"
proof (cases w)
  case (JArr vs)
  have "map (\<lambda>a. JStr (strOf a)) vs = vs"
    using assms JArr by (intro map_idI) (auto simp: isBoundedString_iff)
  then show ?thesis by (simp add: JArr comp_def)
qed (use assms in \<open>simp_all add: isArrayOf_def\<close>)

text \<open>A validator that accepts a value accepts the record read from it, with the same properties.\<close>

lemma bookVal_bookOf_props:
  assumes "isBookRecord v"
    and "k \<in> {''id'', ''format'', ''fileName'', ''mediaType'', ''size'', ''title'', ''authors'', ''language'',
      ''publisher'', ''identifier'', ''importedAt'', ''lastOpenedAt'', ''coverState''}"
  shows "getProp (bookVal (bookOf v)) k = getProp v k"
proof -
  note a = assms(1) [unfolded isBookRecord_def]
  have str: "isStr (getProp v ''id'')" "isStr (getProp v ''fileName'')" "isStr (getProp v ''mediaType'')"
    "isStr (getProp v ''title'')" "isStr (getProp v ''importedAt'')"
    using a by (blast intro: isStr_kinds)+
  have opt: "getProp v ''language'' = JUndef \<or> isStr (getProp v ''language'')"
    "getProp v ''publisher'' = JUndef \<or> isStr (getProp v ''publisher'')"
    "getProp v ''identifier'' = JUndef \<or> isStr (getProp v ''identifier'')"
    "getProp v ''lastOpenedAt'' = JUndef \<or> isStr (getProp v ''lastOpenedAt'')"
    using a by (blast dest: isOptStr_kinds(1) isStr_kinds(3))+
  have size: "isNum (getProp v ''size'')" using a by (blast intro: isNum_kinds)
  have arr: "JArr (map JStr (map strOf (arrOf (getProp v ''authors'')))) = getProp v ''authors''"
    using a by (blast intro: write_read_strings)
  have fmt: "isPublicationFormat (getProp v ''format'')" using a by blast
  have cov: "withDefault JUndef (\<lambda>c. JStr (coverStateString c)) (optOf coverStateOf (getProp v ''coverState'')) =
      getProp v ''coverState''"
    using a by (blast intro: write_read_cover)
  show ?thesis
    using assms(2)
    by (elim insertE emptyE;
        simp add: bookOf_def write_read str opt size arr [unfolded list.map_comp] fmt cov)
qed

lemma isBookRecord_bookOf: "isBookRecord v \<Longrightarrow> isBookRecord (bookVal (bookOf v))"
  using bookVal_bookOf_props [of v] by (simp add: isBookRecord_def del: getProp_bookVal)

lemma isLocations_locationsOf:
  assumes "isLocations m n w"
  shows "isLocations m n (locationsVal (locationsOf w))"
proof -
  note a = assms [unfolded isLocations_def]
  have num: "getProp w ''progression'' = JUndef \<or> isNum (getProp w ''progression'')"
    "getProp w ''totalProgression'' = JUndef \<or> isNum (getProp w ''totalProgression'')"
    "getProp w ''position'' = JUndef \<or> isNum (getProp w ''position'')"
    using a by (blast dest: isNum_kinds)+
  have frag: "withDefault JUndef (\<lambda>fs. JArr (map JStr fs))
      (optOf (\<lambda>a. map strOf (arrOf a)) (getProp w ''fragments'')) = getProp w ''fragments''"
    using a by (cases "getProp w ''fragments'' = JUndef") (auto simp: optOf_def write_read_strings simp del: map_map)
  show ?thesis
    using a by (simp add: isLocations_def locationsOf_def write_read num frag)
qed

lemma isPublicationLocator_locatorOf:
  assumes "isPublicationLocator w format"
  shows "isPublicationLocator (locatorVal (locatorOf w)) format"
proof -
  note a = assms [unfolded isPublicationLocator_def Let_def]
  have str: "isStr (getProp w ''href'')" "isStr (getProp w ''type'')"
    using a by (blast intro: isStr_kinds)+
  have title: "getProp w ''title'' = JUndef \<or> isStr (getProp w ''title'')"
    using a by (blast dest: isOptStr_kinds(1))
  have loc: "isLocations 32 4096 (locationsVal (locationsOf (getProp w ''locations'')))"
    if "getProp w ''locations'' \<noteq> JUndef"
    using a that by (blast intro: isLocations_locationsOf)
  let ?t = "getProp w ''text''"
  have txts: "isOptionalBoundedString (withDefault JUndef JStr (optOf strOf (getProp ?t ''before''))) 16384"
    "isOptionalBoundedString (withDefault JUndef JStr (optOf strOf (getProp ?t ''highlight''))) 16384"
    "isOptionalBoundedString (withDefault JUndef JStr (optOf strOf (getProp ?t ''after''))) 16384"
    if "?t \<noteq> JUndef"
    using a that isOptStr_kinds(1) by (metis write_read(4))+
  show ?thesis
    using a str title loc txts
    by (simp add: isPublicationLocator_def locatorOf_def write_read)
      (simp add: optOf_def textOf_def)
qed

lemma isReadingProgress_progressOf:
  assumes "isReadingProgress v"
  shows "isReadingProgress (progressVal (progressOf v))"
proof -
  note a = assms [unfolded isReadingProgress_def]
  have str: "isStr (getProp v ''bookId'')" "isStr (getProp v ''deviceId'')" "isStr (getProp v ''updatedAt'')"
    "isStr (getProp v ''appVersion'')"
    using a by (blast intro: isStr_kinds)+
  have num: "isNum (getProp v ''furthestTotalProgression'')" using a by (blast intro: isNum_kinds)
  have fmt: "isPublicationFormat (getProp v ''format'')" using a by blast
  show ?thesis
    using a isPublicationLocator_locatorOf
    by (simp add: isReadingProgress_def progressOf_def write_read str num fmt)
qed

text \<open>The meaning of the validators on records.\<close>

lemma isBookRecord_iff:
  "isBookRecord (bookVal b) \<longleftrightarrow>
     matchesSha256 ''sha256:'' (br_id b) \<and>
     br_fileName b \<noteq> [] \<and> length (br_fileName b) \<le> 512 \<and>
     br_mediaType b \<noteq> [] \<and> length (br_mediaType b) \<le> 128 \<and>
     (\<exists>n. br_size b = Fin (of_int n) \<and> 1 \<le> n \<and> n \<le> MAX_SAFE_INTEGER) \<and>
     br_title b \<noteq> [] \<and> length (br_title b) \<le> 1024 \<and>
     length (br_authors b) \<le> 64 \<and> (\<forall>a \<in> set (br_authors b). a \<noteq> [] \<and> length a \<le> 512) \<and>
     (\<forall>l \<in> set_option (br_language b). l \<noteq> [] \<and> length l \<le> 128) \<and>
     (\<forall>l \<in> set_option (br_publisher b). l \<noteq> [] \<and> length l \<le> 1024) \<and>
     (\<forall>l \<in> set_option (br_identifier b). l \<noteq> [] \<and> length l \<le> 1024) \<and>
     isIsoString (br_importedAt b) \<and> (\<forall>t \<in> set_option (br_lastOpenedAt b). isIsoString t)"
proof -
  have opt: "isOptionalBoundedString (withDefault JUndef JStr x) n \<longleftrightarrow>
      (\<forall>l \<in> set_option x. l \<noteq> [] \<and> length l \<le> n)" for x n
    by (cases x) auto
  have stamp: "withDefault JUndef JStr x = JUndef \<or> isCanonicalTimestamp (withDefault JUndef JStr x) \<longleftrightarrow>
      (\<forall>t \<in> set_option x. isIsoString t)" for x
    by (cases x) auto
  have cov: "withDefault JUndef (\<lambda>c. JStr (coverStateString c)) x \<in> {JUndef, JStr ''available'', JStr ''unavailable''}"
    for x
    by (cases x; cases "the x") (auto simp: coverStateString_def)
  have size: "isSafeIntegerFrom 1 (JNum x) \<longleftrightarrow> (\<exists>n. x = Fin (of_int n) \<and> 1 \<le> n \<and> n \<le> MAX_SAFE_INTEGER)" for x
    by (auto simp: isSafeIntegerFrom_iff)
  show ?thesis
    using cov [of "br_coverState b"]
    by (auto simp: isBookRecord_def opt stamp size isBookId_def)
qed

lemma isReadingProgress_iff:
  "isReadingProgress (progressVal p) \<longleftrightarrow>
     matchesSha256 ''sha256:'' (rp_bookId p) \<and>
     rp_deviceId p \<noteq> [] \<and> length (rp_deviceId p) \<le> 256 \<and>
     isPublicationLocator (locatorVal (rp_locator p)) (formatVal (rp_format p)) \<and>
     (\<exists>q. rp_furthest p = Fin q \<and> 0 \<le> q \<and> q \<le> 1) \<and>
     isIsoString (rp_updatedAt p) \<and>
     rp_appVersion p \<noteq> [] \<and> length (rp_appVersion p) \<le> 128"
  by (auto simp: isReadingProgress_def isBookId_def isProgression_JNum)

end
