(* ===== verification/Preference_State.thy ===== *)
theory Preference_State
  imports Publication
begin

text \<open>
  Synchronized reader preferences, \<open>libs/reader/domain/src/lib/reader-preference-sync-state.ts\<close>: one
  register per preference field, each merged by last-writer-wins on revision, device and change. The
  JSON scanner of that file (\<open>parseReaderPreferenceSyncState\<close>) is not modelled here.
\<close>

section \<open>State\<close>

definition EPUB_READER_PREFERENCE_FIELDS :: "string list" where
  "EPUB_READER_PREFERENCE_FIELDS =
     [''theme'', ''fontFamily'', ''fontSizePercent'', ''lineHeight'', ''paragraphSpacingRem'',
      ''marginPercent'', ''maxLineWidthRem'', ''flow'', ''spread'']"

definition PDF_READER_PREFERENCE_FIELDS :: "string list" where
  "PDF_READER_PREFERENCE_FIELDS = [''zoomMode'', ''zoomPercent'', ''rotation'']"

record ReaderPreferenceRegister =
  reg_value :: jsval
  reg_revision :: int
  reg_deviceId :: string
  reg_changeId :: string

type_synonym ReaderPreferenceRegisters = "(string, ReaderPreferenceRegister) jsMap"

record ReaderPreferenceSyncState =
  st_epub :: ReaderPreferenceRegisters
  st_pdf :: ReaderPreferenceRegisters

record ReaderPreferenceChange =
  ch_format :: PublicationFormat
  ch_field :: string
  ch_register :: ReaderPreferenceRegister

datatype Baseline = BaselineRemote | BaselineSeeded

record ReaderPreferenceSyncMetadata =
  md_destinationId :: string
  md_baseline :: Baseline
  md_state :: ReaderPreferenceSyncState

definition registerVal :: "ReaderPreferenceRegister \<Rightarrow> jsval" where
  "registerVal r = JObj
     [(''value'', reg_value r), (''revision'', JInt (reg_revision r)),
      (''deviceId'', JStr (reg_deviceId r)), (''changeId'', JStr (reg_changeId r))]"

definition sectionVal :: "ReaderPreferenceRegisters \<Rightarrow> jsval" where
  "sectionVal s = JObj (map (\<lambda>(k, r). (k, registerVal r)) s)"

definition preferenceStateVal :: "ReaderPreferenceSyncState \<Rightarrow> jsval" where
  "preferenceStateVal s = JObj
     [(''schemaVersion'', JInt 1), (''epub'', sectionVal (st_epub s)), (''pdf'', sectionVal (st_pdf s))]"

definition preferenceChangeVal :: "ReaderPreferenceChange \<Rightarrow> jsval" where
  "preferenceChangeVal c = JObj
     [(''schemaVersion'', JInt 1), (''format'', formatVal (ch_format c)),
      (''field'', JStr (ch_field c)), (''register'', registerVal (ch_register c))]"

section \<open>Validation\<close>

definition isExactRecord :: "jsval \<Rightarrow> string list \<Rightarrow> bool" where
  "isExactRecord v keys =
     (isRecord v \<and> length (objectKeys v) = length keys \<and> (\<forall>field \<in> set keys. hasOwn v field))"

definition isBoundedId :: "jsval \<Rightarrow> bool" where
  "isBoundedId v = isBoundedString v 256"

definition isNumberInRange :: "jsval \<Rightarrow> rat \<Rightarrow> rat \<Rightarrow> bool" where
  "isNumberInRange v minimum maximum = isFiniteNumberInRange v minimum maximum"

definition isPreferenceRegister :: "jsval \<Rightarrow> bool" where
  "isPreferenceRegister v =
     (isExactRecord v [''value'', ''revision'', ''deviceId'', ''changeId''] \<and>
      isSafeIntegerFrom 0 (getProp v ''revision'') \<and>
      isBoundedId (getProp v ''deviceId'') \<and>
      isBoundedId (getProp v ''changeId''))"

definition isPreferenceValue :: "PublicationFormat \<Rightarrow> string \<Rightarrow> jsval \<Rightarrow> bool" where
  "isPreferenceValue format field v =
     (if format = Epub then
        if field = ''theme'' then v = JStr ''light'' \<or> v = JStr ''sepia'' \<or> v = JStr ''dark''
        else if field = ''fontFamily'' then v = JStr ''serif'' \<or> v = JStr ''sans-serif''
        else if field = ''fontSizePercent'' then isNumberInRange v 50 300
        else if field = ''lineHeight'' then isNumberInRange v (1 / 2) 4
        else if field = ''paragraphSpacingRem'' then isNumberInRange v 0 10
        else if field = ''marginPercent'' then isNumberInRange v 0 40
        else if field = ''maxLineWidthRem'' then isNumberInRange v 10 200
        else if field = ''flow'' then v = JStr ''auto'' \<or> v = JStr ''paginated'' \<or> v = JStr ''scrolled''
        else if field = ''spread'' then v = JStr ''none'' \<or> v = JStr ''auto''
        else False
      else
        if field = ''zoomMode'' then v = JStr ''fit-width'' \<or> v = JStr ''fit-page'' \<or> v = JStr ''custom''
        else if field = ''zoomPercent'' then isNumberInRange v 10 1000
        else if field = ''rotation'' then v = JInt 0 \<or> v = JInt 90 \<or> v = JInt 180 \<or> v = JInt 270
        else False)"

definition preferenceFields :: "PublicationFormat \<Rightarrow> string list" where
  "preferenceFields format =
     (if format = Epub then EPUB_READER_PREFERENCE_FIELDS else PDF_READER_PREFERENCE_FIELDS)"

definition objectEntries :: "jsval \<Rightarrow> (string \<times> jsval) list" where
  "objectEntries v = (case v of JObj kvs \<Rightarrow> kvs | _ \<Rightarrow> [])"

definition isPreferenceSection :: "jsval \<Rightarrow> PublicationFormat \<Rightarrow> bool" where
  "isPreferenceSection v format =
     (isRecord v \<and>
      (\<forall>key \<in> set (objectKeys v). key \<in> set (preferenceFields format)) \<and>
      (\<forall>(field, register) \<in> set (objectEntries v).
         isPreferenceRegister register \<and> isPreferenceValue format field (getProp register ''value'')))"

definition isReaderPreferenceSyncState :: "jsval \<Rightarrow> bool" where
  "isReaderPreferenceSyncState v =
     (isExactRecord v [''schemaVersion'', ''epub'', ''pdf''] \<and>
      getProp v ''schemaVersion'' = JInt 1 \<and>
      isPreferenceSection (getProp v ''epub'') Epub \<and>
      isPreferenceSection (getProp v ''pdf'') Pdf)"

definition isReaderPreferenceChange :: "jsval \<Rightarrow> bool" where
  "isReaderPreferenceChange v =
     (isExactRecord v [''schemaVersion'', ''format'', ''field'', ''register''] \<and>
      getProp v ''schemaVersion'' = JInt 1 \<and>
      (getProp v ''format'' = JStr ''epub'' \<or> getProp v ''format'' = JStr ''pdf'') \<and>
      isStr (getProp v ''field'') \<and>
      isPreferenceRegister (getProp v ''register'') \<and>
      isPreferenceValue (formatOf (getProp v ''format'')) (strOf (getProp v ''field''))
        (getProp (getProp v ''register'') ''value''))"

definition isReaderPreferenceSyncMetadata :: "jsval \<Rightarrow> bool" where
  "isReaderPreferenceSyncMetadata v =
     (isExactRecord v [''schemaVersion'', ''destinationId'', ''baseline'', ''state''] \<and>
      getProp v ''schemaVersion'' = JInt 1 \<and>
      isBoundedId (getProp v ''destinationId'') \<and>
      (getProp v ''baseline'' = JStr ''remote'' \<or> getProp v ''baseline'' = JStr ''seeded'') \<and>
      isReaderPreferenceSyncState (getProp v ''state''))"

definition readerPreferenceChangeMatches :: "ReaderPreferences \<Rightarrow> ReaderPreferenceChange \<Rightarrow> bool" where
  "readerPreferenceChangeMatches preferences change =
     (getProp (preferencesVal preferences) ''format'' = formatVal (ch_format change) \<and>
      getProp (preferencesVal preferences) (ch_field change) = reg_value (ch_register change))"

section \<open>Merging\<close>

datatype PreferenceError = InvalidPreferenceState

definition compareRegisters ::
  "(string \<Rightarrow> string \<Rightarrow> int) \<Rightarrow> ReaderPreferenceRegister \<Rightarrow> ReaderPreferenceRegister \<Rightarrow> int" where
  "compareRegisters localeCompare left right =
     cmpOr (reg_revision left - reg_revision right)
       (cmpOr (localeCompare (reg_deviceId left) (reg_deviceId right))
         (localeCompare (reg_changeId left) (reg_changeId right)))"

fun preferredRegister ::
  "(string \<Rightarrow> string \<Rightarrow> int) \<Rightarrow> ReaderPreferenceRegister option \<Rightarrow> ReaderPreferenceRegister option \<Rightarrow>
     ReaderPreferenceRegister option" where
  "preferredRegister localeCompare None right = right"
| "preferredRegister localeCompare (Some left) None = Some left"
| "preferredRegister localeCompare (Some left) (Some right) =
     Some (if compareRegisters localeCompare right left > 0 then right else left)"

text \<open>The loop that fills a fresh object, one property per field, in the order of the fields.\<close>

definition collectFields :: "(string \<Rightarrow> 'r option) \<Rightarrow> string list \<Rightarrow> (string, 'r) jsMap" where
  "collectFields g keys =
     List.map_filter (\<lambda>field. case g field of None \<Rightarrow> None | Some r \<Rightarrow> Some (field, r)) keys"

definition mergeSections ::
  "(string \<Rightarrow> string \<Rightarrow> int) \<Rightarrow> ReaderPreferenceRegisters \<Rightarrow> ReaderPreferenceRegisters \<Rightarrow> string list \<Rightarrow>
     ReaderPreferenceRegisters" where
  "mergeSections localeCompare left right keys =
     collectFields (\<lambda>field. preferredRegister localeCompare (map_of left field) (map_of right field)) keys"

definition mergeReaderPreferenceSyncStates ::
  "(string \<Rightarrow> string \<Rightarrow> int) \<Rightarrow> ReaderPreferenceSyncState \<Rightarrow> ReaderPreferenceSyncState \<Rightarrow>
     PreferenceError + ReaderPreferenceSyncState" where
  "mergeReaderPreferenceSyncStates localeCompare left right =
     (if \<not> isReaderPreferenceSyncState (preferenceStateVal left) \<or>
         \<not> isReaderPreferenceSyncState (preferenceStateVal right)
      then Inl InvalidPreferenceState
      else Inr
        \<lparr>st_epub = mergeSections localeCompare (st_epub left) (st_epub right) EPUB_READER_PREFERENCE_FIELDS,
         st_pdf = mergeSections localeCompare (st_pdf left) (st_pdf right) PDF_READER_PREFERENCE_FIELDS\<rparr>)"

definition canonicalSection :: "ReaderPreferenceRegisters \<Rightarrow> string list \<Rightarrow> ReaderPreferenceRegisters" where
  "canonicalSection s keys = collectFields (map_of s) keys"

definition serializeReaderPreferenceSyncState :: "ReaderPreferenceSyncState \<Rightarrow> PreferenceError + string" where
  "serializeReaderPreferenceSyncState state =
     (if \<not> isReaderPreferenceSyncState (preferenceStateVal state) then Inl InvalidPreferenceState
      else Inr (stringify (preferenceStateVal
        \<lparr>st_epub = canonicalSection (st_epub state) EPUB_READER_PREFERENCE_FIELDS,
         st_pdf = canonicalSection (st_pdf state) PDF_READER_PREFERENCE_FIELDS\<rparr>)))"

text \<open>\<open>setPreferenceValue\<close>: assignment to a property of a preferences object.\<close>

definition setPreferenceValue :: "jsval \<Rightarrow> string \<Rightarrow> jsval \<Rightarrow> jsval" where
  "setPreferenceValue preferences field v = (case preferences of
     JObj kvs \<Rightarrow> JObj (mapSet field v kvs) | _ \<Rightarrow> preferences)"

definition applyRegisters :: "ReaderPreferenceRegisters \<Rightarrow> string list \<Rightarrow> jsval \<Rightarrow> jsval" where
  "applyRegisters s keys preferences =
     foldl (\<lambda>p field. case map_of s field of
              None \<Rightarrow> p | Some register \<Rightarrow> setPreferenceValue p field (reg_value register))
       preferences keys"

definition readerPreferencesFromSyncState ::
  "PublicationFormat \<Rightarrow> ReaderPreferenceSyncState \<Rightarrow> PreferenceError + jsval" where
  "readerPreferencesFromSyncState format state =
     (if \<not> isReaderPreferenceSyncState (preferenceStateVal state) then Inl InvalidPreferenceState
      else if format = Epub then
        Inr (applyRegisters (st_epub state) EPUB_READER_PREFERENCE_FIELDS
          (preferencesVal (EpubPrefs DEFAULT_EPUB_READER_PREFERENCES)))
      else
        Inr (applyRegisters (st_pdf state) PDF_READER_PREFERENCE_FIELDS
          (preferencesVal (PdfPrefs DEFAULT_PDF_READER_PREFERENCES))))"

section \<open>Lookups in a collected section\<close>

lemma map_of_collectFields [js_simps]:
  "map_of (collectFields g keys) f = (if f \<in> set keys then g f else None)"
  by (induction keys) (auto simp: collectFields_def map_filter_simps split: option.splits)

lemma set_collectFields: "(f, r) \<in> set (collectFields g keys) \<longleftrightarrow> f \<in> set keys \<and> g f = Some r"
  by (induction keys) (auto simp: collectFields_def map_filter_simps split: option.splits)

lemma collectFields_cong:
  "(\<And>f. f \<in> set keys \<Longrightarrow> g f = h f) \<Longrightarrow> collectFields g keys = collectFields h keys"
  by (induction keys) (auto simp: collectFields_def map_filter_simps split: option.splits)

lemma collectFields_lookup: "collectFields (map_of (collectFields g keys)) keys = collectFields g keys"
  by (rule collectFields_cong) (simp add: map_of_collectFields)

section \<open>Well-formed states\<close>

definition registerOk :: "ReaderPreferenceRegister \<Rightarrow> bool" where
  "registerOk r \<longleftrightarrow> 0 \<le> reg_revision r \<and> reg_revision r \<le> MAX_SAFE_INTEGER \<and>
     reg_deviceId r \<noteq> [] \<and> length (reg_deviceId r) \<le> 256 \<and>
     reg_changeId r \<noteq> [] \<and> length (reg_changeId r) \<le> 256"

definition sectionOk :: "PublicationFormat \<Rightarrow> ReaderPreferenceRegisters \<Rightarrow> bool" where
  "sectionOk format s \<longleftrightarrow> (\<forall>(field, r) \<in> set s.
     field \<in> set (preferenceFields format) \<and> registerOk r \<and> isPreferenceValue format field (reg_value r))"

abbreviation stateOk :: "ReaderPreferenceSyncState \<Rightarrow> bool" where
  "stateOk s \<equiv> isReaderPreferenceSyncState (preferenceStateVal s)"

lemma isPreferenceRegister_registerVal [simp]: "isPreferenceRegister (registerVal r) \<longleftrightarrow> registerOk r"
  by (auto simp: isPreferenceRegister_def registerVal_def isExactRecord_def hasOwn_def isBoundedId_def
      registerOk_def isSafeIntegerFrom_iff)

lemma getProp_registerVal [simp]: "getProp (registerVal r) ''value'' = reg_value r"
  by (simp add: registerVal_def)

lemma isPreferenceSection_sectionVal [simp]: "isPreferenceSection (sectionVal s) format \<longleftrightarrow> sectionOk format s"
  by (auto simp: isPreferenceSection_def sectionVal_def objectEntries_def sectionOk_def)

lemma stateOk_iff: "stateOk s \<longleftrightarrow> sectionOk Epub (st_epub s) \<and> sectionOk Pdf (st_pdf s)"
  by (simp add: isReaderPreferenceSyncState_def preferenceStateVal_def isExactRecord_def hasOwn_def)

lemma sectionOk_collectFields:
  assumes "\<And>f r. f \<in> set keys \<Longrightarrow> g f = Some r \<Longrightarrow>
    f \<in> set (preferenceFields format) \<and> registerOk r \<and> isPreferenceValue format f (reg_value r)"
  shows "sectionOk format (collectFields g keys)"
  using assms by (auto simp: sectionOk_def set_collectFields)

lemma sectionOkD:
  "sectionOk format s \<Longrightarrow> map_of s f = Some r \<Longrightarrow>
   f \<in> set (preferenceFields format) \<and> registerOk r \<and> isPreferenceValue format f (reg_value r)"
  by (auto simp: sectionOk_def dest: map_of_SomeD)

lemma preferredRegister_cases: "preferredRegister lc a b = Some r \<Longrightarrow> a = Some r \<or> b = Some r"
  by (cases a; cases b) (auto split: if_splits)

lemma sectionOk_mergeSections:
  "sectionOk format a \<Longrightarrow> sectionOk format b \<Longrightarrow> sectionOk format (mergeSections lc a b keys)"
  unfolding mergeSections_def
  by (rule sectionOk_collectFields) (auto dest!: preferredRegister_cases dest: sectionOkD)

section \<open>Registers form a semilattice\<close>

lemma register_lww:
  assumes "collation lc"
  shows "lww (compareRegisters lc) (\<lambda>l r. the (preferredRegister lc (Some l) (Some r)))"
proof (intro lww.intro lww_axioms.intro)
  show "comparator (compareRegisters lc)"
    unfolding compareRegisters_def by (intro cmp_intros collation.lc_key [OF assms])
qed simp

sublocale collation \<subseteq> reg: lww "compareRegisters lc" "\<lambda>l r. the (preferredRegister lc (Some l) (Some r))"
  by (rule register_lww) (rule collation_axioms)

lemma compareRegisters_tie:
  assumes "strict_collation lc"
  shows "compareRegisters lc a b = 0 \<longleftrightarrow>
    reg_revision a = reg_revision b \<and> reg_deviceId a = reg_deviceId b \<and> reg_changeId a = reg_changeId b"
  by (auto simp: compareRegisters_def cmpOr_zero_iff strict_collation_eq_iff [OF assms])

lemma preferredRegister_idem: "collation lc \<Longrightarrow> preferredRegister lc a a = a"
  by (cases a) auto

lemma preferredRegister_assoc:
  assumes "collation lc"
  shows "preferredRegister lc (preferredRegister lc a b) c = preferredRegister lc a (preferredRegister lc b c)"
  using lww.pick_assoc [OF register_lww [OF assms]]
  by (cases a; cases b; cases c) simp_all

lemma preferredRegister_commute:
  assumes "strict_collation lc"
    and "\<And>x y. a = Some x \<Longrightarrow> b = Some y \<Longrightarrow> reg_revision x = reg_revision y \<Longrightarrow>
      reg_deviceId x = reg_deviceId y \<Longrightarrow> reg_changeId x = reg_changeId y \<Longrightarrow> x = y"
  shows "preferredRegister lc a b = preferredRegister lc b a"
proof (cases a; cases b)
  fix x y assume ab: "a = Some x" "b = Some y"
  have "the (preferredRegister lc (Some x) (Some y)) = the (preferredRegister lc (Some y) (Some x))"
    by (rule lww.pick_commute [OF register_lww [OF strict_collation_collation [OF assms(1)]]])
      (use ab assms in \<open>auto simp: compareRegisters_tie\<close>)
  then show ?thesis by (simp add: ab)
qed simp_all

section \<open>Merging states\<close>

lemma merge_ok:
  "stateOk a \<Longrightarrow> stateOk b \<Longrightarrow> mergeReaderPreferenceSyncStates lc a b = Inr
     \<lparr>st_epub = mergeSections lc (st_epub a) (st_epub b) EPUB_READER_PREFERENCE_FIELDS,
      st_pdf = mergeSections lc (st_pdf a) (st_pdf b) PDF_READER_PREFERENCE_FIELDS\<rparr>"
  by (simp add: mergeReaderPreferenceSyncStates_def)

lemma merge_keeps_ok: "stateOk a \<Longrightarrow> stateOk b \<Longrightarrow> mergeReaderPreferenceSyncStates lc a b = Inr m \<Longrightarrow> stateOk m"
  by (auto simp: mergeReaderPreferenceSyncStates_def stateOk_iff sectionOk_mergeSections)

text \<open>The registers of a state, by format and field.\<close>

definition register :: "ReaderPreferenceSyncState \<Rightarrow> PublicationFormat \<Rightarrow> string \<Rightarrow> ReaderPreferenceRegister option" where
  "register s format field = map_of (if format = Epub then st_epub s else st_pdf s) field"

lemma register_outside:
  "stateOk s \<Longrightarrow> f \<notin> set (preferenceFields format) \<Longrightarrow> register s format f = None"
  by (cases format; cases "register s format f")
    (auto simp: register_def stateOk_iff dest: sectionOkD)

text \<open>Merging two valid states succeeds, the result is valid again, and each of its registers is
  the preferred one of the two registers of that field.\<close>

theorem preference_merge_valid:
  assumes "isReaderPreferenceSyncState (preferenceStateVal a)" and "isReaderPreferenceSyncState (preferenceStateVal b)"
  shows "\<exists>m. mergeReaderPreferenceSyncStates lc a b = Inr m \<and>
    isReaderPreferenceSyncState (preferenceStateVal m) \<and>
    (\<forall>format field. register m format field = preferredRegister lc (register a format field) (register b format field))"
proof -
  obtain m where m: "mergeReaderPreferenceSyncStates lc a b = Inr m"
    using merge_ok [OF assms] by blast
  have "register m format field = preferredRegister lc (register a format field) (register b format field)"
    for format field
  proof (cases "field \<in> set (preferenceFields format)")
    case True
    then show ?thesis
      using m merge_ok [OF assms, of lc]
      by (cases format) (auto simp: register_def mergeSections_def map_of_collectFields preferenceFields_def)
  next
    case False
    then show ?thesis
      using register_outside assms merge_keeps_ok [OF assms m] by simp
  qed
  then show ?thesis using m merge_keeps_ok [OF assms m] by blast
qed

definition samplePreferenceState :: "int \<Rightarrow> string \<Rightarrow> string \<Rightarrow> ReaderPreferenceSyncState" where
  "samplePreferenceState revision device v =
     \<lparr>st_epub = [(''theme'', \<lparr>reg_value = JStr v, reg_revision = revision, reg_deviceId = device,
        reg_changeId = ''change-1''\<rparr>)],
      st_pdf = []\<rparr>"

lemma samplePreferenceState_ok:
  "stateOk (samplePreferenceState 3 ''device-a'' ''dark'')" "stateOk (samplePreferenceState 3 ''device-b'' ''sepia'')"
  by code_simp+

theorem preference_merge_valid_witness:
  "\<exists>m. mergeReaderPreferenceSyncStates codeUnitCompare (samplePreferenceState 3 ''device-a'' ''dark'')
      (samplePreferenceState 3 ''device-b'' ''sepia'') = Inr m \<and> stateOk m"
  using preference_merge_valid [OF samplePreferenceState_ok, of codeUnitCompare] by blast

text \<open>C24. On valid states merging is a semilattice: merging a state with itself serializes as before,
  the order of three merges does not matter, and neither does the order of two states in which
  registers of equal revision, device and change are equal. Devices that merge the same states
  therefore agree.\<close>

theorem preference_merge_semilattice:
  assumes "strict_collation lc"
    and "isReaderPreferenceSyncState (preferenceStateVal a)" and "isReaderPreferenceSyncState (preferenceStateVal b)"
    and "isReaderPreferenceSyncState (preferenceStateVal c)"
    and "\<And>format field x y. register a format field = Some x \<Longrightarrow> register b format field = Some y \<Longrightarrow>
      reg_revision x = reg_revision y \<Longrightarrow> reg_deviceId x = reg_deviceId y \<Longrightarrow> reg_changeId x = reg_changeId y \<Longrightarrow> x = y"
  shows "andThen (mergeReaderPreferenceSyncStates lc a a) serializeReaderPreferenceSyncState =
      serializeReaderPreferenceSyncState a \<and>
    mergeReaderPreferenceSyncStates lc a b = mergeReaderPreferenceSyncStates lc b a \<and>
    andThen (mergeReaderPreferenceSyncStates lc a b) (\<lambda>m. mergeReaderPreferenceSyncStates lc m c) =
      andThen (mergeReaderPreferenceSyncStates lc b c) (mergeReaderPreferenceSyncStates lc a)"
proof (intro conjI)
  note lc = strict_collation_collation [OF assms(1)]
  show "andThen (mergeReaderPreferenceSyncStates lc a a) serializeReaderPreferenceSyncState =
      serializeReaderPreferenceSyncState a"
    using merge_keeps_ok [OF assms(2,2), of lc]
    by (simp add: merge_ok assms(2) serializeReaderPreferenceSyncState_def canonicalSection_def
        mergeSections_def preferredRegister_idem [OF lc] collectFields_lookup)
  have "preferredRegister lc (register a format field) (register b format field) =
      preferredRegister lc (register b format field) (register a format field)" for format field
    by (rule preferredRegister_commute [OF assms(1)]) (use assms(5) in blast)
  from this [of Epub] this [of Pdf]
  show "mergeReaderPreferenceSyncStates lc a b = mergeReaderPreferenceSyncStates lc b a"
    by (simp add: merge_ok assms(2,3) mergeSections_def register_def cong: collectFields_cong)
  have sec: "mergeSections lc (mergeSections lc x y keys) z keys = mergeSections lc x (mergeSections lc y z keys) keys"
    for x y z keys
    unfolding mergeSections_def
    by (rule collectFields_cong) (simp add: map_of_collectFields preferredRegister_assoc [OF lc])
  show "andThen (mergeReaderPreferenceSyncStates lc a b) (\<lambda>m. mergeReaderPreferenceSyncStates lc m c) =
      andThen (mergeReaderPreferenceSyncStates lc b c) (mergeReaderPreferenceSyncStates lc a)"
    using merge_keeps_ok [OF assms(2,3), of lc] merge_keeps_ok [OF assms(3,4), of lc] assms(2-4)
    by (simp add: merge_ok sec)
qed

theorem preference_merge_semilattice_witness:
  "mergeReaderPreferenceSyncStates codeUnitCompare (samplePreferenceState 3 ''device-a'' ''dark'')
      (samplePreferenceState 3 ''device-b'' ''sepia'') =
   mergeReaderPreferenceSyncStates codeUnitCompare (samplePreferenceState 3 ''device-b'' ''sepia'')
      (samplePreferenceState 3 ''device-a'' ''dark'')"
  by (rule preference_merge_semilattice
      [OF ascii.strict_collation_axioms samplePreferenceState_ok samplePreferenceState_ok(1), THEN conjunct2, THEN conjunct1])
    (auto simp: register_def samplePreferenceState_def split: if_splits)

section \<open>Preferences read from a state\<close>

lemma getProp_applyRegisters:
  "isRecord (applyRegisters s keys (JObj kvs)) \<and>
   getProp (applyRegisters s keys (JObj kvs)) f =
     (if f \<in> set keys then case map_of s f of Some r \<Rightarrow> reg_value r | None \<Rightarrow> getProp (JObj kvs) f else getProp (JObj kvs) f)"
proof (induction keys arbitrary: kvs)
  case (Cons k keys)
  show ?case
  proof (cases "map_of s k")
    case None
    then show ?thesis using Cons by (auto simp: applyRegisters_def)
  next
    case (Some r)
    define kvs' where "kvs' = mapSet k (reg_value r) kvs"
    have "applyRegisters s (k # keys) (JObj kvs) = applyRegisters s keys (JObj kvs')"
      by (simp add: applyRegisters_def Some setPreferenceValue_def kvs'_def)
    moreover have "getProp (JObj kvs') f = (if f = k then reg_value r else getProp (JObj kvs) f)"
      by (simp add: kvs'_def getProp.simps(1) mapGet_mapSet)
    ultimately show ?thesis using Cons.IH [of kvs'] Some by (auto split: option.splits)
  qed
qed (simp add: applyRegisters_def)

lemma defaults_valid:
  "\<forall>f \<in> set (preferenceFields format). isPreferenceValue format f (getProp (preferencesVal (defaultReaderPreferences format)) f)"
proof -
  have "\<forall>x \<in> {Epub, Pdf}. \<forall>f \<in> set (preferenceFields x).
      isPreferenceValue x f (getProp (preferencesVal (defaultReaderPreferences x)) f)"
    by code_simp
  then show ?thesis by (cases format) simp_all
qed

lemma isReaderPreferences_fields:
  assumes "isRecord v" and "getProp v ''format'' = formatVal format"
    and "\<And>f. f \<in> set (preferenceFields format) \<Longrightarrow> isPreferenceValue format f (getProp v f)"
  shows "isReaderPreferences v"
proof (cases format)
  case Epub
  show ?thesis
    using assms(1,2) assms(3) [of "''theme''"] assms(3) [of "''fontFamily''"] assms(3) [of "''fontSizePercent''"]
      assms(3) [of "''lineHeight''"] assms(3) [of "''paragraphSpacingRem''"] assms(3) [of "''marginPercent''"]
      assms(3) [of "''maxLineWidthRem''"] assms(3) [of "''flow''"] assms(3) [of "''spread''"]
    by (auto simp: Epub formatString_def isReaderPreferences_def includesString_def isPreferenceValue_def
        isNumberInRange_def preferenceFields_def EPUB_READER_PREFERENCE_FIELDS_def)
next
  case Pdf
  show ?thesis
    using assms(1,2) assms(3) [of "''zoomMode''"] assms(3) [of "''zoomPercent''"] assms(3) [of "''rotation''"]
    by (auto simp: Pdf formatString_def isReaderPreferences_def includesString_def includesNumber_def
        isPreferenceValue_def isNumberInRange_def toNumberJ_def preferenceFields_def PDF_READER_PREFERENCE_FIELDS_def)
qed

text \<open>C36. A valid state always yields preferences: every field is its register's value or else the
  default, every field has a value of its declared type, and the whole is accepted by
  \<open>isReaderPreferences\<close>.\<close>

theorem preferences_from_state_typed:
  assumes "isReaderPreferenceSyncState (preferenceStateVal s)"
  shows "\<exists>v. readerPreferencesFromSyncState format s = Inr v \<and> isReaderPreferences v \<and>
    (\<forall>field \<in> set (preferenceFields format). isPreferenceValue format field (getProp v field) \<and>
       getProp v field = (case register s format field of
         Some r \<Rightarrow> reg_value r | None \<Rightarrow> getProp (preferencesVal (defaultReaderPreferences format)) field))"
proof -
  let ?d = "preferencesVal (defaultReaderPreferences format)"
  let ?s = "if format = Epub then st_epub s else st_pdf s"
  let ?v = "applyRegisters ?s (preferenceFields format) ?d"
  have run: "readerPreferencesFromSyncState format s = Inr ?v"
    using assms by (cases format)
      (simp_all add: readerPreferencesFromSyncState_def defaultReaderPreferences_def preferenceFields_def)
  obtain kvs where d: "?d = JObj kvs"
    by (cases format) (simp_all add: preferencesVal_def defaultReaderPreferences_def)
  note app = getProp_applyRegisters [of ?s "preferenceFields format" kvs, folded d]
  have fmt: "getProp ?v ''format'' = formatVal format"
    using app by (cases format)
      (simp_all add: preferenceFields_def EPUB_READER_PREFERENCE_FIELDS_def PDF_READER_PREFERENCE_FIELDS_def
        preferencesVal_def defaultReaderPreferences_def formatString_def)
  have val: "getProp ?v f = (case register s format f of Some r \<Rightarrow> reg_value r | None \<Rightarrow> getProp ?d f)"
    if "f \<in> set (preferenceFields format)" for f
    using app [of f] that by (simp add: register_def)
  have ok: "isPreferenceValue format f (getProp ?v f)" if f: "f \<in> set (preferenceFields format)" for f
  proof (cases "register s format f")
    case None
    then show ?thesis using val [OF f] defaults_valid f by simp
  next
    case (Some r)
    then have "isPreferenceValue format f (reg_value r)"
      using assms by (cases format) (auto simp: register_def stateOk_iff dest: sectionOkD)
    then show ?thesis using val [OF f] Some by simp
  qed
  show ?thesis
    using run val ok isReaderPreferences_fields [OF _ fmt] app by blast
qed

theorem preferences_from_state_typed_witness:
  "\<exists>v. readerPreferencesFromSyncState Epub (samplePreferenceState 3 ''device-a'' ''dark'') = Inr v \<and> isReaderPreferences v"
  using preferences_from_state_typed [OF samplePreferenceState_ok(1), of Epub] by blast

text \<open>The guard \<open>isReaderPreferences\<close> on its own is weaker than its type: it compares \<open>String(value)\<close>
  and \<open>Number(value)\<close> with the allowed values, so it accepts a \<open>null\<close> rotation and a zoom mode that is
  an array, which \<open>isPreferenceValue\<close> rejects.\<close>

theorem reader_preferences_guard_coerces:
  "let v = JObj [(''format'', JStr ''pdf''), (''zoomMode'', JArr [JStr ''custom'']),
      (''zoomPercent'', JInt 100), (''rotation'', JNull)]
   in isReaderPreferences v \<and>
      \<not> isPreferenceValue Pdf ''zoomMode'' (getProp v ''zoomMode'') \<and>
      \<not> isPreferenceValue Pdf ''rotation'' (getProp v ''rotation'')"
  by code_simp

end
