(* ===== verification/Logical_Book.thy ===== *)
theory Logical_Book
  imports Publication
begin

text \<open>
  Logical books, \<open>libs/reader/domain/src/lib/logical-book.ts\<close>: a logical book groups at most one
  publication per format. This theory has the records, the changes devices exchange about them, and
  the validators of both.
\<close>

section \<open>Records\<close>

datatype LogicalCoverState = LogicalPending | LogicalAvailable | LogicalUnavailable

record LogicalMutationIdentity =
  mi_changeId :: string
  mi_parents :: "string list"
  mi_createdAt :: string
  mi_deviceId :: string
  mi_appVersion :: string

text \<open>The optional properties \<open>epub\<close> and \<open>pdf\<close> of \<open>variants\<close>, in the order of the object's keys.\<close>

record LogicalBookRecord =
  lb_id :: string
  lb_title :: string
  lb_authors :: "string list"
  lb_language :: "string option"
  lb_publisher :: "string option"
  lb_identifier :: "string option"
  lb_importedAt :: string
  lb_updatedAt :: string
  lb_coverState :: LogicalCoverState
  lb_variants :: "(PublicationFormat, string) jsMap"

record LogicalBookFormatPreference =
  fp_logicalBookId :: string
  fp_preferredFormat :: PublicationFormat
  fp_winningChangeId :: string
  fp_preferenceHeads :: "string list"
  fp_updatedAt :: string
  fp_deviceId :: string

record MembershipTuple =
  mt_logicalBookId :: string
  mt_format :: PublicationFormat
  mt_variantId :: string

datatype ReconciliationStatus = ReconciliationOpen | ReconciliationResolved

record MembershipReconciliation =
  mr_conflictId :: string
  mr_status :: ReconciliationStatus
  mr_conflictingChangeIds :: "string list"
  mr_affectedVariantIds :: "string list"
  mr_acceptedMembership :: "MembershipTuple list"
  mr_rejectedMembership :: "MembershipTuple list"
  mr_resolvedByChangeId :: "string option"
  mr_detectedAt :: string

datatype LogicalBookChangeKind = Bootstrap | AddVariant | Associate | Detach | DeleteVariantKind
  | DeleteBook | MetadataKind | PreferenceKind | ReconcileMembership

datatype LogicalVariantEffect =
    UpsertVariant BookRecord string
  | DeleteVariant string PublicationFormat

record LogicalPreferenceEffect =
  pe_logicalBookId :: string
  pe_preference :: "LogicalBookFormatPreference option"

record LogicalBookChange =
  chg_changeId :: string
  chg_kind :: LogicalBookChangeKind
  chg_parents :: "string list"
  chg_resultingBooks :: "LogicalBookRecord list"
  chg_removedLogicalBookIds :: "string list"
  chg_variantEffects :: "LogicalVariantEffect list option"
  chg_preferenceEffects :: "LogicalPreferenceEffect list option"
  chg_resolvesConflictIds :: "string list option"
  chg_createdAt :: string
  chg_deviceId :: string
  chg_appVersion :: string

record LogicalBookMutationResult =
  mres_createdLogicalBookIds :: "string list"
  mres_updatedLogicalBookIds :: "string list"
  mres_deletedLogicalBookIds :: "string list"
  mres_createdVariantIds :: "string list"
  mres_deletedVariantIds :: "string list"
  mres_resultingBooks :: "LogicalBookRecord list"
  mres_change :: LogicalBookChange

datatype AddLogicalBookVariantResult =
    Added LogicalBookMutationResult
  | AlreadyMember string
  | BelongsToOtherBook string
  | SameFormatConflict string string

datatype MembershipReconciliationDecision =
    KeepAccepted
  | AcceptRejected string
  | MakeStandalone string

section \<open>The objects behind the records\<close>

definition logicalCoverString :: "LogicalCoverState \<Rightarrow> string" where
  "logicalCoverString c = (case c of
     LogicalPending \<Rightarrow> ''pending'' | LogicalAvailable \<Rightarrow> ''available'' | LogicalUnavailable \<Rightarrow> ''unavailable'')"

definition variantsVal :: "(PublicationFormat, string) jsMap \<Rightarrow> jsval" where
  "variantsVal vs = JObj (map (\<lambda>(f, i). (formatString f, JStr i)) vs)"

definition logicalBookVal :: "LogicalBookRecord \<Rightarrow> jsval" where
  "logicalBookVal b = JObj
     ([(''schemaVersion'', JInt 1), (''id'', JStr (lb_id b)), (''title'', JStr (lb_title b)),
       (''authors'', JArr (map JStr (lb_authors b)))] @
      optional ''language'' JStr (lb_language b) @
      optional ''publisher'' JStr (lb_publisher b) @
      optional ''identifier'' JStr (lb_identifier b) @
      [(''importedAt'', JStr (lb_importedAt b)), (''updatedAt'', JStr (lb_updatedAt b)),
       (''coverState'', JStr (logicalCoverString (lb_coverState b))),
       (''variants'', variantsVal (lb_variants b))])"

definition stringsVal :: "string list \<Rightarrow> jsval" where
  "stringsVal xs = JArr (map JStr xs)"

definition formatPreferenceVal :: "LogicalBookFormatPreference \<Rightarrow> jsval" where
  "formatPreferenceVal p = JObj
     [(''schemaVersion'', JInt 1), (''logicalBookId'', JStr (fp_logicalBookId p)),
      (''preferredFormat'', formatVal (fp_preferredFormat p)),
      (''winningChangeId'', JStr (fp_winningChangeId p)),
      (''preferenceHeads'', stringsVal (fp_preferenceHeads p)),
      (''updatedAt'', JStr (fp_updatedAt p)), (''deviceId'', JStr (fp_deviceId p))]"

definition membershipVal :: "MembershipTuple \<Rightarrow> jsval" where
  "membershipVal m = JObj
     [(''logicalBookId'', JStr (mt_logicalBookId m)), (''format'', formatVal (mt_format m)),
      (''variantId'', JStr (mt_variantId m))]"

definition statusString :: "ReconciliationStatus \<Rightarrow> string" where
  "statusString s = (case s of ReconciliationOpen \<Rightarrow> ''open'' | ReconciliationResolved \<Rightarrow> ''resolved'')"

definition reconciliationVal :: "MembershipReconciliation \<Rightarrow> jsval" where
  "reconciliationVal r = JObj
     ([(''schemaVersion'', JInt 1), (''conflictId'', JStr (mr_conflictId r)),
       (''status'', JStr (statusString (mr_status r))),
       (''conflictingChangeIds'', stringsVal (mr_conflictingChangeIds r)),
       (''affectedVariantIds'', stringsVal (mr_affectedVariantIds r)),
       (''acceptedMembership'', JArr (map membershipVal (mr_acceptedMembership r))),
       (''rejectedMembership'', JArr (map membershipVal (mr_rejectedMembership r))),
       (''detectedAt'', JStr (mr_detectedAt r))] @
      optional ''resolvedByChangeId'' JStr (mr_resolvedByChangeId r))"

definition kindString :: "LogicalBookChangeKind \<Rightarrow> string" where
  "kindString k = (case k of
     Bootstrap \<Rightarrow> ''bootstrap'' | AddVariant \<Rightarrow> ''add-variant'' | Associate \<Rightarrow> ''associate''
   | Detach \<Rightarrow> ''detach'' | DeleteVariantKind \<Rightarrow> ''delete-variant'' | DeleteBook \<Rightarrow> ''delete-book''
   | MetadataKind \<Rightarrow> ''metadata'' | PreferenceKind \<Rightarrow> ''preference''
   | ReconcileMembership \<Rightarrow> ''reconcile-membership'')"

definition variantEffectVal :: "LogicalVariantEffect \<Rightarrow> jsval" where
  "variantEffectVal e = (case e of
     UpsertVariant b path \<Rightarrow> JObj
       [(''operation'', JStr ''upsert''), (''variant'', bookVal b), (''objectPath'', JStr path)]
   | DeleteVariant i f \<Rightarrow> JObj
       [(''operation'', JStr ''delete''), (''variantId'', JStr i), (''format'', formatVal f)])"

definition preferenceEffectVal :: "LogicalPreferenceEffect \<Rightarrow> jsval" where
  "preferenceEffectVal e = JObj
     [(''logicalBookId'', JStr (pe_logicalBookId e)),
      (''preference'', withDefault JNull formatPreferenceVal (pe_preference e))]"

definition changeVal :: "LogicalBookChange \<Rightarrow> jsval" where
  "changeVal c = JObj
     ([(''schemaVersion'', JInt 1), (''changeId'', JStr (chg_changeId c)),
       (''kind'', JStr (kindString (chg_kind c))), (''parents'', stringsVal (chg_parents c)),
       (''resultingBooks'', JArr (map logicalBookVal (chg_resultingBooks c))),
       (''removedLogicalBookIds'', stringsVal (chg_removedLogicalBookIds c))] @
      optional ''variantEffects'' (\<lambda>es. JArr (map variantEffectVal es)) (chg_variantEffects c) @
      optional ''preferenceEffects'' (\<lambda>es. JArr (map preferenceEffectVal es)) (chg_preferenceEffects c) @
      optional ''resolvesConflictIds'' stringsVal (chg_resolvesConflictIds c) @
      [(''createdAt'', JStr (chg_createdAt c)), (''deviceId'', JStr (chg_deviceId c)),
       (''appVersion'', JStr (chg_appVersion c))])"

section \<open>Validators\<close>

definition isVariantId :: "jsval \<Rightarrow> bool" where
  "isVariantId v = (case v of JStr s \<Rightarrow> matchesSha256 ''sha256:'' s | _ \<Rightarrow> False)"

definition isLogicalBookId :: "jsval \<Rightarrow> bool" where
  "isLogicalBookId v = (case v of JStr s \<Rightarrow> matchesSha256 ''logical:sha256:'' s | _ \<Rightarrow> False)"

definition isOpaqueId :: "jsval \<Rightarrow> bool" where
  "isOpaqueId v = (case v of JStr s \<Rightarrow> matchesOpaque 255 s | _ \<Rightarrow> False)"

definition isBoundedArray :: "jsval \<Rightarrow> nat \<Rightarrow> (jsval \<Rightarrow> bool) \<Rightarrow> bool" where
  "isBoundedArray v maximum validator =
     (case v of JArr vs \<Rightarrow> length vs \<le> maximum \<and> (\<forall>x \<in> set vs. validator x) | _ \<Rightarrow> False)"

definition isAuthors :: "jsval \<Rightarrow> bool" where
  "isAuthors v = isBoundedArray v 64 (\<lambda>author. isBoundedString author 512)"

text \<open>\<open>value.every((entry, index) => index === 0 || value[index - 1] < entry)\<close>\<close>

fun eachAscends :: "jsval list \<Rightarrow> bool" where
  "eachAscends (a # b # rest) = (strLess (strOf a) (strOf b) \<and> eachAscends (b # rest))"
| "eachAscends _ = True"

definition isSortedUniqueIdsAllowEmpty :: "jsval \<Rightarrow> nat \<Rightarrow> bool" where
  "isSortedUniqueIdsAllowEmpty v maximum = (case v of
     JArr vs \<Rightarrow> length vs \<le> maximum \<and> (\<forall>x \<in> set vs. isOpaqueId x) \<and>
       length (jsUnique vs) = length vs \<and> eachAscends vs
   | _ \<Rightarrow> False)"

definition isSortedUniqueIds :: "jsval \<Rightarrow> nat \<Rightarrow> bool" where
  "isSortedUniqueIds v maximum = (case v of
     JArr vs \<Rightarrow> length vs > 0 \<and> length vs \<le> maximum \<and> (\<forall>x \<in> set vs. isOpaqueId x) \<and>
       length (jsUnique vs) = length vs \<and> eachAscends vs
   | _ \<Rightarrow> False)"

definition isSortedUniqueVariantIds :: "jsval \<Rightarrow> nat \<Rightarrow> bool" where
  "isSortedUniqueVariantIds v maximum = (case v of
     JArr vs \<Rightarrow> length vs > 0 \<and> length vs \<le> maximum \<and> (\<forall>x \<in> set vs. isVariantId x) \<and>
       length (jsUnique vs) = length vs \<and> eachAscends vs
   | _ \<Rightarrow> False)"

definition isMemberships :: "jsval \<Rightarrow> bool" where
  "isMemberships v = (case v of
     JArr vs \<Rightarrow> length vs > 0 \<and> length vs \<le> 4 \<and>
       (\<forall>item \<in> set vs. isRecord item \<and>
          isLogicalBookId (getProp item ''logicalBookId'') \<and>
          (getProp item ''format'' = JStr ''epub'' \<or> getProp item ''format'' = JStr ''pdf'') \<and>
          isVariantId (getProp item ''variantId''))
   | _ \<Rightarrow> False)"

definition isVariantAvailability :: "jsval \<Rightarrow> bool" where
  "isVariantAvailability v =
     (if \<not> isRecord v then False
      else if getProp v ''status'' = JStr ''checking'' \<or> getProp v ''status'' = JStr ''healthy'' then
        (\<forall>key \<in> set (objectKeys v). key = ''status'')
      else if getProp v ''status'' = JStr ''unavailable'' then
        (\<forall>key \<in> set (objectKeys v). key = ''status'' \<or> key = ''cause'') \<and>
        includesString [''missing'', ''evicted'', ''inaccessible'', ''incomplete''] (getProp v ''cause'')
      else
        getProp v ''status'' = JStr ''quarantined'' \<and>
        (\<forall>key \<in> set (objectKeys v). key = ''status'' \<or> key = ''cause'') \<and>
        includesString [''integrity-invalid'', ''unsupported'', ''malformed-reference''] (getProp v ''cause''))"

definition isLogicalBookRecord :: "jsval \<Rightarrow> bool" where
  "isLogicalBookRecord v =
     (if \<not> isRecord v \<or> \<not> isRecord (getProp v ''variants'') then False
      else
        let variants = getProp v ''variants''; epub = getProp variants ''epub''; pdf = getProp variants ''pdf''
        in getProp v ''schemaVersion'' = JInt 1 \<and>
           isLogicalBookId (getProp v ''id'') \<and>
           isBoundedString (getProp v ''title'') 1024 \<and>
           isAuthors (getProp v ''authors'') \<and>
           isOptionalBoundedString (getProp v ''language'') 128 \<and>
           isOptionalBoundedString (getProp v ''publisher'') 1024 \<and>
           isOptionalBoundedString (getProp v ''identifier'') 1024 \<and>
           isCanonicalTimestamp (getProp v ''importedAt'') \<and>
           isCanonicalTimestamp (getProp v ''updatedAt'') \<and>
           includesString [''pending'', ''available'', ''unavailable''] (getProp v ''coverState'') \<and>
           (epub = JUndef \<or> isVariantId epub) \<and>
           (pdf = JUndef \<or> isVariantId pdf) \<and>
           (epub \<noteq> JUndef \<or> pdf \<noteq> JUndef) \<and>
           (epub = JUndef \<or> pdf = JUndef \<or> epub \<noteq> pdf) \<and>
           (\<forall>key \<in> set (objectKeys variants). key = ''epub'' \<or> key = ''pdf''))"

definition isLogicalBookFormatPreference :: "jsval \<Rightarrow> bool" where
  "isLogicalBookFormatPreference v =
     (isRecord v \<and>
      getProp v ''schemaVersion'' = JInt 1 \<and>
      isLogicalBookId (getProp v ''logicalBookId'') \<and>
      (getProp v ''preferredFormat'' = JStr ''epub'' \<or> getProp v ''preferredFormat'' = JStr ''pdf'') \<and>
      isOpaqueId (getProp v ''winningChangeId'') \<and>
      isSortedUniqueIds (getProp v ''preferenceHeads'') 32 \<and>
      getProp v ''winningChangeId'' \<in> set (arrOf (getProp v ''preferenceHeads'')) \<and>
      isCanonicalTimestamp (getProp v ''updatedAt'') \<and>
      isBoundedString (getProp v ''deviceId'') 256)"

definition isMembershipReconciliation :: "jsval \<Rightarrow> bool" where
  "isMembershipReconciliation v =
     (isRecord v \<and>
      (let status = getProp v ''status''; resolvedBy = getProp v ''resolvedByChangeId'' in
       getProp v ''schemaVersion'' = JInt 1 \<and>
       isOpaqueId (getProp v ''conflictId'') \<and>
       (status = JStr ''open'' \<or> status = JStr ''resolved'') \<and>
       isSortedUniqueIds (getProp v ''conflictingChangeIds'') 32 \<and>
       isSortedUniqueVariantIds (getProp v ''affectedVariantIds'') 32 \<and>
       isMemberships (getProp v ''acceptedMembership'') \<and>
       isMemberships (getProp v ''rejectedMembership'') \<and>
       (if status = JStr ''open'' then resolvedBy = JUndef else isOpaqueId resolvedBy) \<and>
       isCanonicalTimestamp (getProp v ''detectedAt'')))"

definition changeKinds :: "jsval list" where
  "changeKinds = map JStr [''bootstrap'', ''add-variant'', ''associate'', ''detach'', ''delete-variant'',
     ''delete-book'', ''metadata'', ''preference'', ''reconcile-membership'']"

definition isLogicalBookChange :: "jsval \<Rightarrow> bool" where
  "isLogicalBookChange v =
     (isRecord v \<and>
      getProp v ''schemaVersion'' = JInt 1 \<and>
      isOpaqueId (getProp v ''changeId'') \<and>
      getProp v ''kind'' \<in> set changeKinds \<and>
      isSortedUniqueIdsAllowEmpty (getProp v ''parents'') 32 \<and>
      isBoundedArray (getProp v ''resultingBooks'') 2 isLogicalBookRecord \<and>
      isBoundedArray (getProp v ''removedLogicalBookIds'') 2 isLogicalBookId \<and>
      isCanonicalTimestamp (getProp v ''createdAt'') \<and>
      isBoundedString (getProp v ''deviceId'') 256 \<and>
      isBoundedString (getProp v ''appVersion'') 128)"

definition isLogicalBookMutationResult :: "jsval \<Rightarrow> bool" where
  "isLogicalBookMutationResult v =
     (isRecord v \<and>
      isBoundedArray (getProp v ''createdLogicalBookIds'') 2 isLogicalBookId \<and>
      isBoundedArray (getProp v ''updatedLogicalBookIds'') 2 isLogicalBookId \<and>
      isBoundedArray (getProp v ''deletedLogicalBookIds'') 2 isLogicalBookId \<and>
      isBoundedArray (getProp v ''createdVariantIds'') 2 isVariantId \<and>
      isBoundedArray (getProp v ''deletedVariantIds'') 2 isVariantId \<and>
      isBoundedArray (getProp v ''resultingBooks'') 2 isLogicalBookRecord \<and>
      isLogicalBookChange (getProp v ''change''))"

section \<open>From a publication to its logical book\<close>

datatype LogicalBookError = VariantIdNotExact

definition singletonLogicalBookId :: "string \<Rightarrow> LogicalBookError + string" where
  "singletonLogicalBookId variantId =
     (if \<not> isVariantId (JStr variantId) then Inl VariantIdNotExact
      else Inr (''logical:sha256:'' @ drop (length ''sha256:'') variantId))"

text \<open>\<open>...(x ? { key: x } : {})\<close>: an empty string is dropped like a missing one.\<close>

definition truthy :: "string option \<Rightarrow> string option" where
  "truthy x = (case x of None \<Rightarrow> None | Some s \<Rightarrow> if s = [] then None else Some s)"

definition logicalBookFromVariant :: "BookRecord \<Rightarrow> string \<Rightarrow> LogicalBookError + LogicalBookRecord" where
  "logicalBookFromVariant variant now =
     andThen (singletonLogicalBookId (br_id variant)) (\<lambda>id. Inr
       \<lparr>lb_id = id, lb_title = br_title variant, lb_authors = br_authors variant,
        lb_language = truthy (br_language variant), lb_publisher = truthy (br_publisher variant),
        lb_identifier = truthy (br_identifier variant), lb_importedAt = br_importedAt variant,
        lb_updatedAt = now,
        lb_coverState = (case br_coverState variant of
          None \<Rightarrow> LogicalPending | Some CoverAvailable \<Rightarrow> LogicalAvailable
        | Some CoverUnavailable \<Rightarrow> LogicalUnavailable),
        lb_variants = [(br_format variant, br_id variant)]\<rparr>)"

definition sampleHash :: string where
  "sampleHash = replicate 64 (CHR ''b'')"

section \<open>What the validators mean on records\<close>

lemma getProp_logicalBookVal [simp]:
  "getProp (logicalBookVal b) ''schemaVersion'' = JInt 1"
  "getProp (logicalBookVal b) ''id'' = JStr (lb_id b)"
  "getProp (logicalBookVal b) ''title'' = JStr (lb_title b)"
  "getProp (logicalBookVal b) ''authors'' = JArr (map JStr (lb_authors b))"
  "getProp (logicalBookVal b) ''language'' = withDefault JUndef JStr (lb_language b)"
  "getProp (logicalBookVal b) ''publisher'' = withDefault JUndef JStr (lb_publisher b)"
  "getProp (logicalBookVal b) ''identifier'' = withDefault JUndef JStr (lb_identifier b)"
  "getProp (logicalBookVal b) ''importedAt'' = JStr (lb_importedAt b)"
  "getProp (logicalBookVal b) ''updatedAt'' = JStr (lb_updatedAt b)"
  "getProp (logicalBookVal b) ''coverState'' = JStr (logicalCoverString (lb_coverState b))"
  "getProp (logicalBookVal b) ''variants'' = variantsVal (lb_variants b)"
  by (simp_all add: logicalBookVal_def)

lemma isRecord_logicalVals [simp]: "isRecord (logicalBookVal b)" "isRecord (variantsVal vs)"
  by (simp_all add: logicalBookVal_def variantsVal_def)

lemma formatString_inj [simp]: "formatString f = formatString g \<longleftrightarrow> f = g"
  by (cases f; cases g) (simp_all add: formatString_def)

lemma getProp_variantsVal [simp]:
  "getProp (variantsVal vs) (formatString f) = withDefault JUndef JStr (map_of vs f)"
proof (induction vs)
  case (Cons p vs)
  then show ?case by (cases p) (simp add: variantsVal_def eq_commute)
qed (simp add: variantsVal_def)

lemma getProp_variantsVal_keys [simp]:
  "getProp (variantsVal vs) ''epub'' = withDefault JUndef JStr (map_of vs Epub)"
  "getProp (variantsVal vs) ''pdf'' = withDefault JUndef JStr (map_of vs Pdf)"
  using getProp_variantsVal [of vs Epub] getProp_variantsVal [of vs Pdf] by (simp_all add: formatString_def)

lemma objectKeys_variantsVal: "\<forall>key \<in> set (objectKeys (variantsVal vs)). key = ''epub'' \<or> key = ''pdf''"
  by (auto simp: variantsVal_def formatString_def split: PublicationFormat.splits)

lemma isOptionalBoundedString_opt [simp]:
  "isOptionalBoundedString (withDefault JUndef JStr x) n \<longleftrightarrow> (\<forall>l \<in> set_option x. l \<noteq> [] \<and> length l \<le> n)"
  by (cases x) auto

lemma isVariantId_JStr [simp]: "isVariantId (JStr s) \<longleftrightarrow> matchesSha256 ''sha256:'' s"
  and isLogicalBookId_JStr [simp]: "isLogicalBookId (JStr s) \<longleftrightarrow> matchesSha256 ''logical:sha256:'' s"
  and isOpaqueId_JStr [simp]: "isOpaqueId (JStr s) \<longleftrightarrow> matchesOpaque 255 s"
  by (simp_all add: isVariantId_def isLogicalBookId_def isOpaqueId_def)

lemma isLogicalBookRecord_iff:
  "isLogicalBookRecord (logicalBookVal b) \<longleftrightarrow>
     matchesSha256 ''logical:sha256:'' (lb_id b) \<and>
     lb_title b \<noteq> [] \<and> length (lb_title b) \<le> 1024 \<and>
     length (lb_authors b) \<le> 64 \<and> (\<forall>a \<in> set (lb_authors b). a \<noteq> [] \<and> length a \<le> 512) \<and>
     (\<forall>l \<in> set_option (lb_language b). l \<noteq> [] \<and> length l \<le> 128) \<and>
     (\<forall>l \<in> set_option (lb_publisher b). l \<noteq> [] \<and> length l \<le> 1024) \<and>
     (\<forall>l \<in> set_option (lb_identifier b). l \<noteq> [] \<and> length l \<le> 1024) \<and>
     isIsoString (lb_importedAt b) \<and> isIsoString (lb_updatedAt b) \<and>
     (\<forall>f. \<forall>i \<in> set_option (map_of (lb_variants b) f). matchesSha256 ''sha256:'' i) \<and>
     lb_variants b \<noteq> [] \<and>
     (map_of (lb_variants b) Epub = None \<or> map_of (lb_variants b) Epub \<noteq> map_of (lb_variants b) Pdf)"
proof -
  have some: "lb_variants b \<noteq> [] \<longleftrightarrow> map_of (lb_variants b) Epub \<noteq> None \<or> map_of (lb_variants b) Pdf \<noteq> None"
    by (cases "lb_variants b"; cases "fst (hd (lb_variants b))") auto
  have all: "(\<forall>f. P f) \<longleftrightarrow> P Epub \<and> P Pdf" for P
    by (metis PublicationFormat.exhaust)
  have cov: "logicalCoverString c \<in> {''pending'', ''available'', ''unavailable''}" for c
    by (cases c) (simp_all add: logicalCoverString_def)
  show ?thesis
    using objectKeys_variantsVal [of "lb_variants b"] cov [of "lb_coverState b"]
    by (cases "map_of (lb_variants b) Epub"; cases "map_of (lb_variants b) Pdf")
      (auto simp: isLogicalBookRecord_def Let_def isAuthors_def isBoundedArray_def includesString_def some all)
qed

lemma truthy_bound:
  "\<forall>l \<in> set_option x. l \<noteq> [] \<and> length l \<le> n \<Longrightarrow> \<forall>l \<in> set_option (truthy x). l \<noteq> [] \<and> length l \<le> n"
  by (cases x) (simp_all add: truthy_def)

lemma singletonLogicalBookId_ok:
  assumes "matchesSha256 ''sha256:'' i"
  obtains d where "i = ''sha256:'' @ d" and "singletonLogicalBookId i = Inr (''logical:sha256:'' @ d)"
    and "matchesSha256 ''logical:sha256:'' (''logical:sha256:'' @ d)"
proof -
  obtain d where d: "i = ''sha256:'' @ d" "length d = 64" "\<forall>c \<in> set d. isHexLower c"
    using assms by (rule matchesSha256E)
  show ?thesis
    by (rule that [of d]) (use assms d in \<open>simp_all add: singletonLogicalBookId_def matchesSha256_def startsWith_def\<close>)
qed

text \<open>Every valid publication record has a logical book of its own: the book is valid, holds exactly
  that publication, and no other publication is given the same logical identifier.\<close>

theorem logical_book_from_variant_valid:
  assumes "isBookRecord (bookVal v)" and "isIsoString now"
  shows "\<exists>b. logicalBookFromVariant v now = Inr b \<and> isLogicalBookRecord (logicalBookVal b) \<and>
    lb_variants b = [(br_format v, br_id v)] \<and>
    (\<forall>w. singletonLogicalBookId w = Inr (lb_id b) \<longrightarrow> w = br_id v)"
proof -
  have id: "matchesSha256 ''sha256:'' (br_id v)"
    using assms(1) by (simp add: isBookRecord_iff)
  obtain d where d: "br_id v = ''sha256:'' @ d" "singletonLogicalBookId (br_id v) = Inr (''logical:sha256:'' @ d)"
    "matchesSha256 ''logical:sha256:'' (''logical:sha256:'' @ d)"
    using id by (rule singletonLogicalBookId_ok)
  have inj: "w = br_id v" if "singletonLogicalBookId w = Inr (''logical:sha256:'' @ d)" for w
  proof -
    have w: "matchesSha256 ''sha256:'' w"
      using that by (simp add: singletonLogicalBookId_def split: if_splits)
    show ?thesis
      by (rule singletonLogicalBookId_ok [OF w]) (use that d(1) in simp)
  qed
  obtain b where b: "logicalBookFromVariant v now = Inr b" "lb_id b = ''logical:sha256:'' @ d"
    "lb_variants b = [(br_format v, br_id v)]"
    by (simp add: logicalBookFromVariant_def d(2))
  have vs: "\<forall>i \<in> set_option (map_of (lb_variants b) f). matchesSha256 ''sha256:'' i"
    "map_of (lb_variants b) Epub = None \<or> map_of (lb_variants b) Epub \<noteq> map_of (lb_variants b) Pdf" for f
    using id by (simp_all add: b(3))
  have flds: "lb_title b = br_title v" "lb_authors b = br_authors v" "lb_language b = truthy (br_language v)"
    "lb_publisher b = truthy (br_publisher v)" "lb_identifier b = truthy (br_identifier v)"
    "lb_importedAt b = br_importedAt v" "lb_updatedAt b = now"
    using b(1) by (auto simp: logicalBookFromVariant_def d(2))
  have "isLogicalBookRecord (logicalBookVal b)"
    using assms unfolding isLogicalBookRecord_iff isBookRecord_iff flds
    by (intro conjI allI vs truthy_bound d(3) [folded b(2)]) (simp_all add: b(3))
  then show ?thesis using b inj by auto
qed

definition sampleBook :: BookRecord where
  "sampleBook = \<lparr>br_id = ''sha256:'' @ sampleHash, br_format = Epub, br_fileName = ''book.epub'',
     br_mediaType = ''application/epub+zip'', br_size = Fin 1024, br_title = ''A book'',
     br_authors = [''Author''], br_language = Some ''en'', br_publisher = None, br_identifier = None,
     br_importedAt = ''2024-05-01T10:00:00.000Z'', br_lastOpenedAt = None, br_coverState = None\<rparr>"

lemma isBookRecord_sample: "isBookRecord (bookVal sampleBook)"
  by code_simp

theorem logical_book_from_variant_valid_witness:
  "\<exists>b. logicalBookFromVariant sampleBook ''2024-05-02T10:00:00.000Z'' = Inr b \<and>
     isLogicalBookRecord (logicalBookVal b) \<and> lb_variants b = [(Epub, ''sha256:'' @ sampleHash)]"
proof -
  have "isIsoString ''2024-05-02T10:00:00.000Z''" by code_simp
  from logical_book_from_variant_valid [OF isBookRecord_sample this] show ?thesis
    by (auto simp: sampleBook_def)
qed

text \<open>Like the preferences guard, \<open>isVariantAvailability\<close> tests \<open>String(cause)\<close>: it accepts a cause that
  is an array, although the type only has strings.\<close>

theorem variant_availability_guard_coerces:
  "isVariantAvailability (JObj [(''status'', JStr ''unavailable''), (''cause'', JArr [JStr ''missing''])])"
  by code_simp

end
