(* ===== verification/Book_Manifest.thy ===== *)
theory Book_Manifest
  imports Logical_Book
begin

text \<open>
  The documents and paths of the synchronized library: \<open>library-sync-manifest.ts\<close>,
  \<open>book-sync-manifest.ts\<close> and \<open>progress-paths.ts\<close> of \<open>libs/sync/core/src/lib\<close>. File names of
  publications come from the user and become path segments here.

  \<open>String.prototype.normalize('NFKC')\<close> is a parameter \<open>nfkc\<close> of the definitions that reach it: the
  theorems on paths hold for every such function.
\<close>

section \<open>The library manifest\<close>

definition SYNC_ROOT :: string where "SYNC_ROOT = ''.omnia-reader''"
definition PREVIOUS_SYNC_ROOT :: string where "PREVIOUS_SYNC_ROOT = ''.omnia-reader/v1''"
definition SYNC_MANIFEST_PATH :: string where "SYNC_MANIFEST_PATH = SYNC_ROOT @ ''/manifest.json''"

definition LIBRARY_SYNC_FEATURES :: "string list" where
  "LIBRARY_SYNC_FEATURES =
     [''annotations'', ''bookmarks'', ''books'', ''progress'', ''logical-books'', ''reader-preferences'']"

definition REQUIRED_LIBRARY_SYNC_FEATURES :: "string list" where
  "REQUIRED_LIBRARY_SYNC_FEATURES = filter (\<lambda>feature. feature \<noteq> ''reader-preferences'') LIBRARY_SYNC_FEATURES"

record LibrarySyncManifest =
  lsm_features :: "string list"

definition libraryManifestVal :: "LibrarySyncManifest \<Rightarrow> jsval" where
  "libraryManifestVal m = JObj
     [(''schemaVersion'', JInt 2), (''application'', JStr ''omnia-reader''),
      (''publicationIdentity'', JStr ''sha256''), (''features'', stringsVal (lsm_features m))]"

definition createLibrarySyncManifest :: LibrarySyncManifest where
  "createLibrarySyncManifest = \<lparr>lsm_features = LIBRARY_SYNC_FEATURES\<rparr>"

definition isLowerAlpha :: "char \<Rightarrow> bool" where
  "isLowerAlpha c = (let n = (of_char c :: int) in 97 \<le> n \<and> n \<le> 122)"

text \<open>\<open>/^[a-z][a-z0-9-]{0,63}$/\<close>\<close>

definition isFeatureName :: "jsval \<Rightarrow> bool" where
  "isFeatureName v = (case v of
     JStr (c # cs) \<Rightarrow> isLowerAlpha c \<and> length cs \<le> 63 \<and>
       (\<forall>d \<in> set cs. isLowerAlpha d \<or> isDigit d \<or> d = CHR ''-'')
   | _ \<Rightarrow> False)"

definition isLibrarySyncManifest :: "jsval \<Rightarrow> bool" where
  "isLibrarySyncManifest v =
     (isRecord v \<and>
      getProp v ''schemaVersion'' = JInt 2 \<and>
      getProp v ''application'' = JStr ''omnia-reader'' \<and>
      getProp v ''publicationIdentity'' = JStr ''sha256'' \<and>
      isBoundedArray (getProp v ''features'') 32 isFeatureName \<and>
      (let features = jsUnique (arrOf (getProp v ''features'')) in
       length features = arrayLength (getProp v ''features'') \<and>
       (\<forall>feature \<in> set REQUIRED_LIBRARY_SYNC_FEATURES. JStr feature \<in> set features)))"

definition supportsReaderPreferenceSync :: "LibrarySyncManifest \<Rightarrow> bool" where
  "supportsReaderPreferenceSync manifest = (''reader-preferences'' \<in> set (lsm_features manifest))"

definition isLegacyLibrarySyncManifest :: "jsval \<Rightarrow> bool" where
  "isLegacyLibrarySyncManifest v =
     (isRecord v \<and>
      getProp v ''schemaVersion'' = JInt 1 \<and>
      getProp v ''application'' = JStr ''omnia-reader'' \<and>
      getProp v ''publicationIdentity'' = JStr ''sha256'' \<and>
      isBoundedArray (getProp v ''features'') 32 isFeatureName \<and>
      (let features = jsUnique (arrOf (getProp v ''features'')) in
       length features = arrayLength (getProp v ''features'') \<and>
       (\<forall>feature \<in> {''annotations'', ''bookmarks'', ''books'', ''progress''}. JStr feature \<in> set features) \<and>
       JStr ''logical-books'' \<notin> set features))"

section \<open>Path segments\<close>

definition isUnreserved :: "char \<Rightarrow> bool" where
  "isUnreserved c = (isAlnum c \<or> c \<in> set ''-_.!~*()'' \<or> c = CHR 0x27)"

definition hexUpper :: "nat \<Rightarrow> char" where
  "hexUpper d = char_of (if d < 10 then 48 + d else 55 + d)"

definition percentByte :: "nat \<Rightarrow> string" where
  "percentByte n = [CHR ''%'', hexUpper (n div 16), hexUpper (n mod 16)]"

text \<open>\<open>encodeURIComponent\<close>: the UTF-8 bytes of every character that is not unreserved.\<close>

definition encodeURIChar :: "char \<Rightarrow> string" where
  "encodeURIChar c =
     (let n = (of_char c :: nat) in
      if isUnreserved c then [c]
      else if n < 128 then percentByte n
      else percentByte (192 + n div 64) @ percentByte (128 + n mod 64))"

definition encodeURIComponent :: "string \<Rightarrow> string" where
  "encodeURIComponent s = concat (map encodeURIChar s)"

text \<open>\<open>replace(/%2F/g, '%252F')\<close>; \<open>encodeURIComponent\<close> only produces upper-case digits.\<close>

fun replaceSlash :: "string \<Rightarrow> string" where
  "replaceSlash (a # b # c # s) =
     (if a = CHR ''%'' \<and> b = CHR ''2'' \<and> c = CHR ''F'' then ''%252F'' @ replaceSlash s
      else a # replaceSlash (b # c # s))"
| "replaceSlash s = s"

definition pathSegment :: "string \<Rightarrow> string" where
  "pathSegment v = replaceSlash (encodeURIComponent v)"

definition PROGRESS_ROOT :: string where "PROGRESS_ROOT = SYNC_ROOT @ ''/progress''"

definition progressDocumentPath :: "string \<Rightarrow> string \<Rightarrow> string" where
  "progressDocumentPath bookId deviceId =
     PROGRESS_ROOT @ ''/'' @ pathSegment bookId @ ''/'' @ pathSegment deviceId @ ''.json''"

section \<open>Readable file names\<close>

text \<open>\<open>replace(/[...]+/g, r)\<close>: every maximal run of characters in the class becomes one \<open>r\<close>.\<close>

function replaceRuns :: "(char \<Rightarrow> bool) \<Rightarrow> char \<Rightarrow> string \<Rightarrow> string" where
  "replaceRuns p r [] = []"
| "replaceRuns p r (c # s) = (if p c then r # replaceRuns p r (dropWhile p s) else c # replaceRuns p r s)"
  by pat_completeness auto
termination
  by (relation "measure (\<lambda>(p, r, s). length s)") (auto simp: length_dropWhile_le le_imp_less_Suc)

definition isUnsafePathChar :: "char \<Rightarrow> bool" where
  "isUnsafePathChar c = (c \<in> set ''/<>:|?*%'' \<or> c = CHR 0x5C \<or> c = CHR 0x22)"

definition stripDots :: "string \<Rightarrow> string" where
  "stripDots s = (let p = (\<lambda>c. c = CHR '' '' \<or> c = CHR ''.'') in rev (dropWhile p (rev (dropWhile p s))))"

definition controlToDash :: "char \<Rightarrow> char" where
  "controlToDash c = (let n = (of_char c :: int) in if n \<le> 31 \<or> n = 127 then CHR ''-'' else c)"

definition orUntitled :: "string \<Rightarrow> string" where
  "orUntitled s = (if s = [] then ''Untitled'' else s)"

definition readableFileName :: "(string \<Rightarrow> string) \<Rightarrow> string \<Rightarrow> PublicationFormat \<Rightarrow> string" where
  "readableFileName nfkc v format =
     (let extension = ''.'' @ formatString format;
          normalized = stripDots (replaceRuns isWhite (CHR '' '')
            (replaceRuns isUnsafePathChar (CHR ''-'') (map controlToDash (nfkc v))));
          withExtension = (if endsWith (toLowerCase normalized) extension then normalized
            else orUntitled normalized @ extension);
          stem = trimString (take 120 (take (length withExtension - length extension) withExtension))
      in orUntitled stem @ extension)"

section \<open>Book manifests\<close>

datatype ManifestError = BookIdNotFingerprint

record BookSyncManifest =
  bsm_bookId :: string
  bsm_format :: PublicationFormat
  bsm_fileName :: string
  bsm_mediaType :: string
  bsm_size :: jsnum
  bsm_sha256 :: string
  bsm_objectPath :: string
  bsm_title :: string
  bsm_authors :: "string list"
  bsm_language :: "string option"
  bsm_publisher :: "string option"
  bsm_identifier :: "string option"
  bsm_importedAt :: string
  bsm_updatedAt :: string
  bsm_appVersion :: string

record BookSyncDeletionTombstone =
  bdt_bookId :: string
  bdt_format :: PublicationFormat
  bdt_fileName :: string
  bdt_objectPath :: string
  bdt_deletedAt :: string
  bdt_appVersion :: string

definition manifestVal :: "BookSyncManifest \<Rightarrow> jsval" where
  "manifestVal m = JObj
     ([(''schemaVersion'', JInt 2), (''bookId'', JStr (bsm_bookId m)),
       (''format'', formatVal (bsm_format m)), (''fileName'', JStr (bsm_fileName m)),
       (''mediaType'', JStr (bsm_mediaType m)), (''size'', JNum (bsm_size m)),
       (''sha256'', JStr (bsm_sha256 m)), (''objectPath'', JStr (bsm_objectPath m)),
       (''title'', JStr (bsm_title m)), (''authors'', stringsVal (bsm_authors m))] @
      optional ''language'' JStr (bsm_language m) @
      optional ''publisher'' JStr (bsm_publisher m) @
      optional ''identifier'' JStr (bsm_identifier m) @
      [(''importedAt'', JStr (bsm_importedAt m)), (''updatedAt'', JStr (bsm_updatedAt m)),
       (''appVersion'', JStr (bsm_appVersion m))])"

definition tombstoneVal :: "BookSyncDeletionTombstone \<Rightarrow> jsval" where
  "tombstoneVal t = JObj
     [(''schemaVersion'', JInt 2), (''deleted'', JBool True), (''bookId'', JStr (bdt_bookId t)),
      (''format'', formatVal (bdt_format t)), (''fileName'', JStr (bdt_fileName t)),
      (''objectPath'', JStr (bdt_objectPath t)), (''deletedAt'', JStr (bdt_deletedAt t)),
      (''appVersion'', JStr (bdt_appVersion t))]"

definition bookIdSha256 :: "jsval \<Rightarrow> string option" where
  "bookIdSha256 v = (case v of
     JStr s \<Rightarrow> if matchesSha256 ''sha256:'' s then Some (drop (length ''sha256:'') s) else None
   | _ \<Rightarrow> None)"

definition LEGACY_BOOKS_ROOT :: string where "LEGACY_BOOKS_ROOT = PREVIOUS_SYNC_ROOT @ ''/books''"
definition BOOKS_ROOT :: string where "BOOKS_ROOT = SYNC_ROOT @ ''/library''"
definition BOOK_DELETIONS_ROOT :: string where "BOOK_DELETIONS_ROOT = SYNC_ROOT @ ''/.deletions/books''"

text \<open>\<open>replace(/\.(epub|pdf)$/i, '')\<close>\<close>

definition stripExtension :: "string \<Rightarrow> string" where
  "stripExtension s =
     (if endsWith (toLowerCase s) ''.epub'' then take (length s - 5) s
      else if endsWith (toLowerCase s) ''.pdf'' then take (length s - 4) s else s)"

definition bookDirectoryPath ::
  "(string \<Rightarrow> string) \<Rightarrow> string \<Rightarrow> PublicationFormat \<Rightarrow> string \<Rightarrow> ManifestError + string" where
  "bookDirectoryPath nfkc bookId format fileName =
     (case bookIdSha256 (JStr bookId) of
        None \<Rightarrow> Inl BookIdNotFingerprint
      | Some sha256 \<Rightarrow>
          (let stem = stripExtension (readableFileName nfkc fileName format)
           in Inr (BOOKS_ROOT @ ''/'' @ stem @ ''--'' @ take 12 sha256)))"

definition bookManifestPath ::
  "(string \<Rightarrow> string) \<Rightarrow> string \<Rightarrow> PublicationFormat \<Rightarrow> string \<Rightarrow> ManifestError + string" where
  "bookManifestPath nfkc bookId format fileName =
     andThen (bookDirectoryPath nfkc bookId format fileName) (\<lambda>d. Inr (d @ ''/book.json''))"

definition bookObjectPath ::
  "(string \<Rightarrow> string) \<Rightarrow> string \<Rightarrow> PublicationFormat \<Rightarrow> string \<Rightarrow> ManifestError + string" where
  "bookObjectPath nfkc bookId format fileName =
     andThen (bookDirectoryPath nfkc bookId format fileName)
       (\<lambda>d. Inr (d @ ''/'' @ readableFileName nfkc fileName format))"

definition bookDeletionPath :: "string \<Rightarrow> ManifestError + string" where
  "bookDeletionPath bookId =
     (case bookIdSha256 (JStr bookId) of
        None \<Rightarrow> Inl BookIdNotFingerprint
      | Some sha256 \<Rightarrow> Inr (BOOK_DELETIONS_ROOT @ ''/'' @ sha256 @ ''.json''))"

definition legacyBookManifestPath :: "string \<Rightarrow> string" where
  "legacyBookManifestPath bookId = LEGACY_BOOKS_ROOT @ ''/'' @ pathSegment bookId @ ''/book.json''"

definition legacyBookObjectPath :: "string \<Rightarrow> PublicationFormat \<Rightarrow> string" where
  "legacyBookObjectPath bookId format =
     LEGACY_BOOKS_ROOT @ ''/'' @ pathSegment bookId @ ''/publication.'' @ formatString format"

definition createBookSyncManifest ::
  "(string \<Rightarrow> string) \<Rightarrow> BookRecord \<Rightarrow> string \<Rightarrow> string \<Rightarrow> ManifestError + BookSyncManifest" where
  "createBookSyncManifest nfkc book updatedAt appVersion =
     (case bookIdSha256 (JStr (br_id book)) of
        None \<Rightarrow> Inl BookIdNotFingerprint
      | Some sha256 \<Rightarrow>
          andThen (bookObjectPath nfkc (br_id book) (br_format book) (br_fileName book)) (\<lambda>path. Inr
            \<lparr>bsm_bookId = br_id book, bsm_format = br_format book, bsm_fileName = br_fileName book,
             bsm_mediaType = br_mediaType book, bsm_size = br_size book, bsm_sha256 = sha256,
             bsm_objectPath = path, bsm_title = br_title book, bsm_authors = br_authors book,
             bsm_language = truthy (br_language book), bsm_publisher = truthy (br_publisher book),
             bsm_identifier = truthy (br_identifier book), bsm_importedAt = br_importedAt book,
             bsm_updatedAt = updatedAt, bsm_appVersion = appVersion\<rparr>))"

text \<open>The default of the parameter \<open>updatedAt\<close>.\<close>

definition manifestUpdatedAt :: "BookRecord \<Rightarrow> string" where
  "manifestUpdatedAt book = (case br_lastOpenedAt book of None \<Rightarrow> br_importedAt book | Some t \<Rightarrow> t)"

definition createBookSyncDeletionTombstone ::
  "(string \<Rightarrow> string) \<Rightarrow> string \<Rightarrow> PublicationFormat \<Rightarrow> string \<Rightarrow> string \<Rightarrow> string \<Rightarrow>
     ManifestError + BookSyncDeletionTombstone" where
  "createBookSyncDeletionTombstone nfkc bookId format fileName deletedAt appVersion =
     (if bookIdSha256 (JStr bookId) = None then Inl BookIdNotFingerprint
      else andThen (bookObjectPath nfkc bookId format fileName) (\<lambda>path. Inr
        \<lparr>bdt_bookId = bookId, bdt_format = format, bdt_fileName = fileName, bdt_objectPath = path,
         bdt_deletedAt = deletedAt, bdt_appVersion = appVersion\<rparr>))"

definition expectedMediaType :: "PublicationFormat \<Rightarrow> string" where
  "expectedMediaType format = (if format = Pdf then ''application/pdf'' else ''application/epub+zip'')"

definition isBookSyncManifest :: "(string \<Rightarrow> string) \<Rightarrow> jsval \<Rightarrow> bool" where
  "isBookSyncManifest nfkc v =
     (isRecord v \<and>
      (let bookId = getProp v ''bookId''; format = getProp v ''format''; sha256 = bookIdSha256 bookId in
       getProp v ''schemaVersion'' = JInt 2 \<and>
       sha256 \<noteq> None \<and>
       (format = JStr ''epub'' \<or> format = JStr ''pdf'') \<and>
       isBoundedString (getProp v ''fileName'') 1024 \<and>
       getProp v ''mediaType'' = JStr (expectedMediaType (formatOf format)) \<and>
       isSafeIntegerFrom 1 (getProp v ''size'') \<and>
       getProp v ''sha256'' = JStr (the sha256) \<and>
       (case bookObjectPath nfkc (strOf bookId) (formatOf format) (strOf (getProp v ''fileName'')) of
          Inl _ \<Rightarrow> False | Inr path \<Rightarrow> getProp v ''objectPath'' = JStr path) \<and>
       isBoundedString (getProp v ''title'') 1024 \<and>
       isBoundedArray (getProp v ''authors'') 100 (\<lambda>author. isBoundedString author 1024) \<and>
       isOptionalBoundedString (getProp v ''language'') 1024 \<and>
       isOptionalBoundedString (getProp v ''publisher'') 1024 \<and>
       isOptionalBoundedString (getProp v ''identifier'') 1024 \<and>
       isCanonicalTimestamp (getProp v ''importedAt'') \<and>
       isCanonicalTimestamp (getProp v ''updatedAt'') \<and>
       isBoundedString (getProp v ''appVersion'') 1024))"

definition isBookSyncDeletionTombstone :: "(string \<Rightarrow> string) \<Rightarrow> jsval \<Rightarrow> bool" where
  "isBookSyncDeletionTombstone nfkc v =
     (isRecord v \<and>
      (let bookId = getProp v ''bookId''; format = getProp v ''format'' in
       getProp v ''schemaVersion'' = JInt 2 \<and>
       getProp v ''deleted'' = JBool True \<and>
       bookIdSha256 bookId \<noteq> None \<and>
       (format = JStr ''epub'' \<or> format = JStr ''pdf'') \<and>
       isBoundedString (getProp v ''fileName'') 1024 \<and>
       (case bookObjectPath nfkc (strOf bookId) (formatOf format) (strOf (getProp v ''fileName'')) of
          Inl _ \<Rightarrow> False | Inr path \<Rightarrow> getProp v ''objectPath'' = JStr path) \<and>
       isCanonicalTimestamp (getProp v ''deletedAt'') \<and>
       isBoundedString (getProp v ''appVersion'') 1024))"

definition isBookSyncDocument :: "(string \<Rightarrow> string) \<Rightarrow> jsval \<Rightarrow> bool" where
  "isBookSyncDocument nfkc v = (isBookSyncManifest nfkc v \<or> isBookSyncDeletionTombstone nfkc v)"

definition manifestBookRecord :: "BookSyncManifest \<Rightarrow> BookRecord" where
  "manifestBookRecord m =
     \<lparr>br_id = bsm_bookId m, br_format = bsm_format m, br_fileName = bsm_fileName m,
      br_mediaType = bsm_mediaType m, br_size = bsm_size m, br_title = bsm_title m,
      br_authors = bsm_authors m, br_language = truthy (bsm_language m),
      br_publisher = truthy (bsm_publisher m), br_identifier = truthy (bsm_identifier m),
      br_importedAt = bsm_importedAt m, br_lastOpenedAt = None, br_coverState = None\<rparr>"

section \<open>Object paths are safe\<close>

text \<open>A path segment that cannot leave its directory and survives on every file system: not empty, not
  \<open>.\<close> or \<open>..\<close>, no separator, none of the reserved characters and no control character.\<close>

definition safeChar :: "char \<Rightarrow> bool" where
  "safeChar c \<longleftrightarrow> \<not> isUnsafePathChar c \<and> 31 < (of_char c :: int) \<and> of_char c \<noteq> (127 :: int)"

definition safeSegment :: "string \<Rightarrow> bool" where
  "safeSegment s \<longleftrightarrow> s \<noteq> [] \<and> s \<noteq> ''.'' \<and> s \<noteq> ''..'' \<and> (\<forall>c \<in> set s. safeChar c)"

lemma set_replaceRuns: "set (replaceRuns p r s) \<subseteq> insert r {c \<in> set s. \<not> p c}"
  by (induction p r s rule: replaceRuns.induct) (auto dest: set_dropWhileD)

lemma set_strip: "set (rev (dropWhile p (rev (dropWhile p s)))) \<subseteq> set s"
  by (metis set_dropWhileD set_rev subsetI)

lemma set_stripDots: "set (stripDots s) \<subseteq> set s"
  unfolding stripDots_def Let_def by (rule set_strip)

lemma set_trimString: "set (trimString s) \<subseteq> set s"
  unfolding trimString_def by (rule set_strip)

lemma safeChar_controlToDash: "\<not> isUnsafePathChar (controlToDash c) \<Longrightarrow> safeChar (controlToDash c)"
  by (auto simp: safeChar_def controlToDash_def Let_def split: if_splits)

lemma safeChar_literals [simp]:
  "safeChar (CHR ''-'')" "safeChar (CHR '' '')" "safeChar (CHR ''.'')"
  "\<forall>c \<in> set ''Untitled''. safeChar c"
  by code_simp+

lemma safeChar_formatString: "\<forall>c \<in> set (formatString f). safeChar c"
proof -
  have "\<forall>g \<in> {Epub, Pdf}. \<forall>c \<in> set (formatString g). safeChar c" by code_simp
  then show ?thesis by (cases f) auto
qed

lemma safe_orUntitled: "\<forall>c \<in> set s. safeChar c \<Longrightarrow> \<forall>c \<in> set (orUntitled s). safeChar c"
  using safeChar_literals(4) by (auto simp: orUntitled_def)

lemma length_trimString: "length (trimString s) \<le> length s"
  unfolding trimString_def by (metis length_dropWhile_le length_rev order_trans)

text \<open>A readable file name is a stem of at most 120 safe characters with the extension of the format.\<close>

lemma readableFileName_form:
  obtains stem where "readableFileName nfkc v format = stem @ ''.'' @ formatString format"
    and "stem \<noteq> []" and "length stem \<le> 120" and "\<forall>c \<in> set stem. safeChar c"
proof -
  let ?e = "''.'' @ formatString format"
  define n where "n = stripDots (replaceRuns isWhite (CHR '' '')
    (replaceRuns isUnsafePathChar (CHR ''-'') (map controlToDash (nfkc v))))"
  define w where "w = (if endsWith (toLowerCase n) ?e then n else orUntitled n @ ?e)"
  define t where "t = trimString (take 120 (take (length w - length ?e) w))"
  have "\<forall>c \<in> set (replaceRuns isUnsafePathChar (CHR ''-'') (map controlToDash (nfkc v))). safeChar c"
    using set_replaceRuns [of isUnsafePathChar "CHR ''-''" "map controlToDash (nfkc v)"] safeChar_controlToDash
    by fastforce
  then have n: "\<forall>c \<in> set n. safeChar c"
    using set_stripDots set_replaceRuns [of isWhite "CHR '' ''"] unfolding n_def by fastforce
  then have w: "\<forall>c \<in> set w. safeChar c"
    using safe_orUntitled [OF n] n safeChar_formatString by (auto simp: w_def)
  have t: "\<forall>c \<in> set t. safeChar c"
    using w set_trimString unfolding t_def by (meson in_set_takeD subsetD)
  have "length t \<le> 120"
    unfolding t_def by (rule order_trans [OF length_trimString]) simp
  show ?thesis
  proof (rule that [of "orUntitled t"])
    show "readableFileName nfkc v format = orUntitled t @ ''.'' @ formatString format"
      by (simp add: readableFileName_def Let_def n_def w_def t_def)
    show "\<forall>c \<in> set (orUntitled t). safeChar c" by (rule safe_orUntitled [OF t])
  qed (use \<open>length t \<le> 120\<close> in \<open>auto simp: orUntitled_def\<close>)
qed

lemma endsWith_append [simp]: "endsWith (s @ p) p"
  by (simp add: endsWith_def)

lemma toLowerCase_append: "toLowerCase (s @ t) = toLowerCase s @ toLowerCase t"
  by (simp add: toLowerCase_def)

lemma stripExtension_format: "stripExtension (stem @ ''.'' @ formatString f) = stem"
proof -
  have "\<forall>g \<in> {Epub, Pdf}. toLowerCase (''.'' @ formatString g) = ''.'' @ formatString g"
    by code_simp
  then have lower: "toLowerCase (''.'' @ formatString f) = ''.'' @ formatString f"
    by (cases f) auto
  have epub: "endsWith (toLowerCase (stem @ ''.'' @ formatString f)) ''.epub'' \<longleftrightarrow> f = Epub"
    unfolding toLowerCase_append [of stem] lower
    by (cases f) (auto simp: formatString_def endsWith_def dest: arg_cong [where f = last])
  have pdf: "endsWith (toLowerCase (stem @ ''.'' @ formatString f)) ''.pdf''" if "f = Pdf"
    unfolding toLowerCase_append [of stem] lower using that
    by (simp add: formatString_def endsWith_def)
  show ?thesis
    by (cases f) (use epub pdf in \<open>simp_all add: stripExtension_def, simp_all add: formatString_def\<close>)
qed

lemma bookIdSha256_ok:
  assumes "matchesSha256 ''sha256:'' i"
  obtains d where "bookIdSha256 (JStr i) = Some d" and "length d = 64" and "\<forall>c \<in> set d. isHexLower c"
  using assms
proof (rule matchesSha256E)
  fix d assume d: "i = ''sha256:'' @ d" "length d = 64" "\<forall>c \<in> set d. isHexLower c"
  then have "bookIdSha256 (JStr i) = Some d"
    using assms by (simp add: bookIdSha256_def)
  then show thesis using d(2,3) by (rule that)
qed

lemma isHexLower_safe: "isHexLower c \<Longrightarrow> safeChar c"
  by (auto simp: isHexLower_def safeChar_def isUnsafePathChar_def Let_def)

lemma safeSegmentI: "2 < length s \<Longrightarrow> \<forall>c \<in> set s. safeChar c \<Longrightarrow> safeSegment s"
  by (auto simp: safeSegment_def)

lemma bookDirectoryPath_form:
  assumes "matchesSha256 ''sha256:'' i"
  obtains dir where "bookDirectoryPath nfkc i format name = Inr (BOOKS_ROOT @ ''/'' @ dir)"
    and "safeSegment dir" and "length dir \<le> 134"
proof -
  obtain d where d: "bookIdSha256 (JStr i) = Some d" "length d = 64" "\<forall>c \<in> set d. isHexLower c"
    using assms by (rule bookIdSha256_ok)
  obtain stem where stem: "readableFileName nfkc name format = stem @ ''.'' @ formatString format"
    "stem \<noteq> []" "length stem \<le> 120" "\<forall>c \<in> set stem. safeChar c"
    by (rule readableFileName_form)
  show ?thesis
  proof (rule that)
    show "bookDirectoryPath nfkc i format name = Inr (BOOKS_ROOT @ ''/'' @ (stem @ ''--'' @ take 12 d))"
      by (simp add: bookDirectoryPath_def d(1) stem(1) stripExtension_format [simplified])
    have "\<forall>c \<in> set (take 12 d). safeChar c"
      using d(3) isHexLower_safe by (meson in_set_takeD)
    then show "safeSegment (stem @ ''--'' @ take 12 d)"
      using stem d(2) by (intro safeSegmentI) auto
    show "length (stem @ ''--'' @ take 12 d) \<le> 134" using stem(3) d(2) by simp
  qed
qed

text \<open>C35. Where a publication is stored: whatever its file name, the object path of a book with a valid
  identifier is two safe path segments below the library root, of bounded length. The name cannot
  escape the root, nor add a directory level.\<close>

theorem book_object_path_safe:
  assumes "matchesSha256 ''sha256:'' bookId"
  shows "\<exists>dir file. bookObjectPath nfkc bookId format fileName = Inr (BOOKS_ROOT @ ''/'' @ dir @ ''/'' @ file) \<and>
    bookManifestPath nfkc bookId format fileName = Inr (BOOKS_ROOT @ ''/'' @ dir @ ''/book.json'') \<and>
    safeSegment dir \<and> length dir \<le> 134 \<and> safeSegment file \<and> length file \<le> 125"
proof -
  obtain dir where dir: "bookDirectoryPath nfkc bookId format fileName = Inr (BOOKS_ROOT @ ''/'' @ dir)"
    "safeSegment dir" "length dir \<le> 134"
    using assms by (rule bookDirectoryPath_form)
  obtain stem where stem: "readableFileName nfkc fileName format = stem @ ''.'' @ formatString format"
    "stem \<noteq> []" "length stem \<le> 120" "\<forall>c \<in> set stem. safeChar c"
    by (rule readableFileName_form)
  have len: "3 \<le> length (formatString format)" "length (formatString format) \<le> 4"
    by (cases format; simp add: formatString_def)+
  have "safeSegment (stem @ ''.'' @ formatString format)"
    using stem safeChar_formatString len by (intro safeSegmentI) auto
  then show ?thesis
    using dir stem len by (simp add: bookObjectPath_def bookManifestPath_def)
qed

theorem book_object_path_safe_witness:
  "\<exists>dir file. bookObjectPath id (br_id sampleBook) Epub ''../../etc/passwd'' = Inr (BOOKS_ROOT @ ''/'' @ dir @ ''/'' @ file) \<and>
    safeSegment dir \<and> safeSegment file"
proof -
  have "matchesSha256 ''sha256:'' (br_id sampleBook)" by code_simp
  from book_object_path_safe [OF this, of id Epub "''../../etc/passwd''"] show ?thesis by blast
qed

section \<open>Manifests and records\<close>

lemma getProp_manifestVal [simp]:
  "getProp (manifestVal m) ''schemaVersion'' = JInt 2"
  "getProp (manifestVal m) ''bookId'' = JStr (bsm_bookId m)"
  "getProp (manifestVal m) ''format'' = formatVal (bsm_format m)"
  "getProp (manifestVal m) ''fileName'' = JStr (bsm_fileName m)"
  "getProp (manifestVal m) ''mediaType'' = JStr (bsm_mediaType m)"
  "getProp (manifestVal m) ''size'' = JNum (bsm_size m)"
  "getProp (manifestVal m) ''sha256'' = JStr (bsm_sha256 m)"
  "getProp (manifestVal m) ''objectPath'' = JStr (bsm_objectPath m)"
  "getProp (manifestVal m) ''title'' = JStr (bsm_title m)"
  "getProp (manifestVal m) ''authors'' = stringsVal (bsm_authors m)"
  "getProp (manifestVal m) ''language'' = withDefault JUndef JStr (bsm_language m)"
  "getProp (manifestVal m) ''publisher'' = withDefault JUndef JStr (bsm_publisher m)"
  "getProp (manifestVal m) ''identifier'' = withDefault JUndef JStr (bsm_identifier m)"
  "getProp (manifestVal m) ''importedAt'' = JStr (bsm_importedAt m)"
  "getProp (manifestVal m) ''updatedAt'' = JStr (bsm_updatedAt m)"
  "getProp (manifestVal m) ''appVersion'' = JStr (bsm_appVersion m)"
  by (simp_all add: manifestVal_def)

lemma isRecord_manifestVal [simp]: "isRecord (manifestVal m)"
  by (simp add: manifestVal_def)

lemma truthy_id: "\<forall>l \<in> set_option x. l \<noteq> [] \<and> length l \<le> n \<Longrightarrow> truthy x = x"
  by (cases x) (auto simp: truthy_def)

lemma set_option_mono: "\<forall>l \<in> set_option x. l \<noteq> [] \<and> length l \<le> m \<Longrightarrow> m \<le> n \<Longrightarrow> \<forall>l \<in> set_option x. l \<noteq> [] \<and> length l \<le> n"
  by auto

text \<open>Publishing a valid book whose media type is the one of its format writes a manifest that every
  device accepts, and reading the manifest back gives the book, without the two fields that are local
  to a device.\<close>

theorem manifest_roundtrip:
  assumes "isBookRecord (bookVal b)" and "br_mediaType b = expectedMediaType (br_format b)"
    and "isIsoString updatedAt" and "appVersion \<noteq> []" and "length appVersion \<le> 1024"
  shows "\<exists>m. createBookSyncManifest nfkc b updatedAt appVersion = Inr m \<and>
    isBookSyncManifest nfkc (manifestVal m) \<and>
    manifestBookRecord m = b\<lparr>br_lastOpenedAt := None, br_coverState := None\<rparr>"
proof -
  note v = assms(1) [unfolded isBookRecord_iff]
  have id: "matchesSha256 ''sha256:'' (br_id b)" using v by blast
  obtain d where d: "bookIdSha256 (JStr (br_id b)) = Some d"
    using id by (rule bookIdSha256_ok)
  obtain path where path: "bookObjectPath nfkc (br_id b) (br_format b) (br_fileName b) = Inr path"
    using bookDirectoryPath_form [OF id] unfolding bookObjectPath_def by (metis andThen.simps(2))
  have opt: "truthy (br_language b) = br_language b" "truthy (br_publisher b) = br_publisher b"
    "truthy (br_identifier b) = br_identifier b"
    using v by (blast intro: truthy_id)+
  obtain m where m: "createBookSyncManifest nfkc b updatedAt appVersion = Inr m"
    and mdef: "m = \<lparr>bsm_bookId = br_id b, bsm_format = br_format b, bsm_fileName = br_fileName b,
      bsm_mediaType = br_mediaType b, bsm_size = br_size b, bsm_sha256 = d, bsm_objectPath = path,
      bsm_title = br_title b, bsm_authors = br_authors b, bsm_language = br_language b,
      bsm_publisher = br_publisher b, bsm_identifier = br_identifier b, bsm_importedAt = br_importedAt b,
      bsm_updatedAt = updatedAt, bsm_appVersion = appVersion\<rparr>"
    using d path opt by (simp add: createBookSyncManifest_def)
  have fmt: "formatString f = ''epub'' \<or> formatString f = ''pdf''" for f
    by (cases f) (simp_all add: formatString_def)
  have auth: "isBoundedArray (stringsVal (br_authors b)) 100 (\<lambda>author. isBoundedString author 1024)"
    using v by (fastforce simp: isBoundedArray_def stringsVal_def)
  have size: "isSafeIntegerFrom 1 (JNum (br_size b))"
    using v by (auto simp: isSafeIntegerFrom_iff)
  have lang: "\<forall>l \<in> set_option (br_language b). l \<noteq> [] \<and> length l \<le> 1024"
    by (rule set_option_mono [of _ 128]) (use v in auto)
  have "isBookSyncManifest nfkc (manifestVal m)"
    unfolding isBookSyncManifest_def Let_def
    by (intro conjI) (use v fmt d path auth size lang assms(2-) in \<open>simp_all add: mdef\<close>)
  moreover have "manifestBookRecord m = b\<lparr>br_lastOpenedAt := None, br_coverState := None\<rparr>"
    by (cases b) (use opt in \<open>simp add: mdef manifestBookRecord_def\<close>)
  ultimately show ?thesis using m by blast
qed

theorem manifest_roundtrip_witness:
  "\<exists>m. createBookSyncManifest id sampleBook ''2024-05-02T10:00:00.000Z'' ''1.0.0'' = Inr m \<and>
     manifestBookRecord m = sampleBook"
proof -
  have "br_mediaType sampleBook = expectedMediaType (br_format sampleBook)"
    "isIsoString ''2024-05-02T10:00:00.000Z''" by code_simp+
  from manifest_roundtrip [OF isBookRecord_sample this, of "''1.0.0''" id] show ?thesis
    by (auto simp: sampleBook_def)
qed

text \<open>A slash in a device identifier is escaped twice so that it stays inside its segment, but the
  escape is also the encoding of a literal \<open>%2F\<close>: two devices named this way share one progress document.\<close>

theorem progress_path_slash_collision:
  "progressDocumentPath bookId ''a/b'' = progressDocumentPath bookId ''a%2Fb''"
proof -
  have "pathSegment ''a/b'' = pathSegment ''a%2Fb''" by code_simp
  then show ?thesis by (simp add: progressDocumentPath_def)
qed

end
