(* ===== verification/Logical_Change.thy ===== *)
theory Logical_Change
  imports Book_Manifest
begin

text \<open>
  Changes of logical books as synchronized documents, \<open>libs/sync/core/src/lib/logical-book-change.ts\<close>:
  which changes may leave a device, and their canonical text.
\<close>

section \<open>Indented JSON\<close>

text \<open>\<open>JSON.stringify(v, null, 2)\<close> for the values of documents, at a given indentation.\<close>

definition newlineAt :: "nat \<Rightarrow> string" where
  "newlineAt n = CHR 0x0A # replicate n (CHR '' '')"

fun prettyAt :: "nat \<Rightarrow> jsval \<Rightarrow> string" where
  "prettyAt n (JArr vs) =
     (if vs = [] then ''[]''
      else ''['' @ newlineAt (n + 2) @
        joinWith ('','' @ newlineAt (n + 2)) (map (\<lambda>v. if v = JUndef then ''null'' else prettyAt (n + 2) v) vs) @
        newlineAt n @ '']'')"
| "prettyAt n (JObj kvs) =
     (let members = filter (\<lambda>(k, t). t \<noteq> []) (map (\<lambda>(k, v). (k, prettyAt (n + 2) v)) kvs) in
      if members = [] then ''{}''
      else ''{'' @ newlineAt (n + 2) @
        joinWith ('','' @ newlineAt (n + 2)) (map (\<lambda>(k, t). quoteString k @ '': '' @ t) members) @
        newlineAt n @ ''}'')"
| "prettyAt n v = stringify v"

section \<open>Validation\<close>

definition CHANGE_ID :: "string \<Rightarrow> bool" where
  "CHANGE_ID s = matchesOpaque 255 s"

datatype LogicalChangeError = ChangeIdUnsafe | ChangeInvalid | ConflictingChanges

definition logicalBookChangePath :: "string \<Rightarrow> LogicalChangeError + string" where
  "logicalBookChangePath changeId =
     (if \<not> CHANGE_ID changeId then Inl ChangeIdUnsafe
      else Inr (SYNC_ROOT @ ''/logical-books/changes/'' @ encodeURIComponent changeId @ ''.json''))"

text \<open>Device-local availability must not be published, at any depth of the document.\<close>

fun containsAvailability :: "jsval \<Rightarrow> bool" where
  "containsAvailability (JArr vs) = (\<exists>v \<in> set vs. containsAvailability v)"
| "containsAvailability (JObj kvs) =
     (hasOwn (JObj kvs) ''availability'' \<or>
      (\<exists>(key, child) \<in> set kvs.
         (key = ''status'' \<and> includesString [''checking'', ''healthy'', ''unavailable'', ''quarantined''] child) \<or>
         containsAvailability child))"
| "containsAvailability _ = False"

definition isSafeObjectPath :: "(string \<Rightarrow> string) \<Rightarrow> string \<Rightarrow> BookRecord \<Rightarrow> bool" where
  "isSafeObjectPath nfkc path variant =
     (let digest = drop (length ''sha256:'') (br_id variant) in
      bookObjectPath nfkc (br_id variant) (br_format variant) (br_fileName variant) = Inr path \<or>
      path = LEGACY_BOOKS_ROOT @ ''/'' @ digest @ ''/publication.'' @ formatString (br_format variant))"

definition isVariantEffect :: "(string \<Rightarrow> string) \<Rightarrow> jsval \<Rightarrow> bool" where
  "isVariantEffect nfkc v =
     (if \<not> isRecord v then False
      else if getProp v ''operation'' = JStr ''delete'' then
        isVariantId (getProp v ''variantId'') \<and>
        (getProp v ''format'' = JStr ''epub'' \<or> getProp v ''format'' = JStr ''pdf'')
      else
        getProp v ''operation'' = JStr ''upsert'' \<and>
        isBookRecord (getProp v ''variant'') \<and>
        isStr (getProp v ''objectPath'') \<and>
        isSafeObjectPath nfkc (strOf (getProp v ''objectPath'')) (bookOf (getProp v ''variant'')))"

definition isPreferenceEffect :: "jsval \<Rightarrow> bool" where
  "isPreferenceEffect v =
     (isRecord v \<and>
      isLogicalBookId (getProp v ''logicalBookId'') \<and>
      (getProp v ''preference'' = JNull \<or>
       (isLogicalBookFormatPreference (getProp v ''preference'') \<and>
        getProp (getProp v ''preference'') ''logicalBookId'' = getProp v ''logicalBookId'')))"

text \<open>
  \<open>xs ?? []\<close> followed by \<open>xs.length <= n && xs.every(p)\<close>. On a value that is neither missing nor an array
  the guard is not satisfied: \<open>length\<close> is not a small number, or calling \<open>every\<close> throws a \<open>TypeError\<close>.
\<close>

definition missingOrEvery :: "jsval \<Rightarrow> nat \<Rightarrow> (jsval \<Rightarrow> bool) \<Rightarrow> bool" where
  "missingOrEvery v maximum p =
     (v = JUndef \<or> v = JNull \<or> isBoundedArray v maximum p)"

definition isSynchronizedLogicalBookChange :: "(string \<Rightarrow> string) \<Rightarrow> jsval \<Rightarrow> bool" where
  "isSynchronizedLogicalBookChange nfkc v =
     (if \<not> isLogicalBookChange v \<or> containsAvailability v then False
      else
        missingOrEvery (getProp v ''variantEffects'') 4 (isVariantEffect nfkc) \<and>
        missingOrEvery (getProp v ''preferenceEffects'') 2 isPreferenceEffect \<and>
        missingOrEvery (getProp v ''resolvesConflictIds'') 32 (\<lambda>id. isStr id \<and> CHANGE_ID (strOf id)) \<and>
        distinct (arrOf (getProp v ''resolvesConflictIds'')))"

section \<open>Canonical form\<close>

definition effectVariantId :: "LogicalVariantEffect \<Rightarrow> string" where
  "effectVariantId e = (case e of UpsertVariant b _ \<Rightarrow> br_id b | DeleteVariant i _ \<Rightarrow> i)"

definition effectOperation :: "LogicalVariantEffect \<Rightarrow> string" where
  "effectOperation e = (case e of UpsertVariant _ _ \<Rightarrow> ''upsert'' | DeleteVariant _ _ \<Rightarrow> ''delete'')"

definition compareVariantEffects ::
  "(string \<Rightarrow> string \<Rightarrow> int) \<Rightarrow> LogicalVariantEffect \<Rightarrow> LogicalVariantEffect \<Rightarrow> int" where
  "compareVariantEffects localeCompare left right =
     cmpOr (localeCompare (effectVariantId left) (effectVariantId right))
       (localeCompare (effectOperation left) (effectOperation right))"

text \<open>\<open>x ?? []\<close> on an optional array.\<close>

definition orEmpty :: "'a list option \<Rightarrow> 'a list" where
  "orEmpty x = (case x of None \<Rightarrow> [] | Some xs \<Rightarrow> xs)"

text \<open>The object \<open>canonical\<close> of \<open>serializeLogicalBookChange\<close>.\<close>

definition canonicalChange :: "(string \<Rightarrow> string \<Rightarrow> int) \<Rightarrow> LogicalBookChange \<Rightarrow> LogicalBookChange" where
  "canonicalChange localeCompare change = change
     \<lparr>chg_parents := sortStrings (chg_parents change),
      chg_resultingBooks := jsSort (\<lambda>left right. localeCompare (lb_id left) (lb_id right)) (chg_resultingBooks change),
      chg_removedLogicalBookIds := sortStrings (chg_removedLogicalBookIds change),
      chg_variantEffects := Some (jsSort (compareVariantEffects localeCompare) (orEmpty (chg_variantEffects change))),
      chg_preferenceEffects := Some (jsSort
        (\<lambda>left right. localeCompare (pe_logicalBookId left) (pe_logicalBookId right))
        (orEmpty (chg_preferenceEffects change))),
      chg_resolvesConflictIds := Some (sortStrings (orEmpty (chg_resolvesConflictIds change)))\<rparr>"

definition serializeLogicalBookChange ::
  "(string \<Rightarrow> string) \<Rightarrow> (string \<Rightarrow> string \<Rightarrow> int) \<Rightarrow> LogicalBookChange \<Rightarrow> LogicalChangeError + string" where
  "serializeLogicalBookChange nfkc localeCompare change =
     (if \<not> isSynchronizedLogicalBookChange nfkc (changeVal change) then Inl ChangeInvalid
      else Inr (prettyAt 0 (changeVal (canonicalChange localeCompare change)) @ [CHR 0x0A]))"

text \<open>
  \<open>parseLogicalBookChange(serializeLogicalBookChange(change))\<close>: \<open>JSON.parse\<close> gives back the object that
  was printed, which is then validated.
\<close>

definition reparseLogicalBookChange ::
  "(string \<Rightarrow> string) \<Rightarrow> (string \<Rightarrow> string \<Rightarrow> int) \<Rightarrow> LogicalBookChange \<Rightarrow> LogicalChangeError + LogicalBookChange" where
  "reparseLogicalBookChange nfkc localeCompare change =
     (if \<not> isSynchronizedLogicalBookChange nfkc (changeVal (canonicalChange localeCompare change))
      then Inl ChangeInvalid else Inr (canonicalChange localeCompare change))"

section \<open>The canonical form is valid and stable\<close>

lemma getProp_changeVal [simp]:
  "getProp (changeVal c) ''schemaVersion'' = JInt 1"
  "getProp (changeVal c) ''changeId'' = JStr (chg_changeId c)"
  "getProp (changeVal c) ''kind'' = JStr (kindString (chg_kind c))"
  "getProp (changeVal c) ''parents'' = stringsVal (chg_parents c)"
  "getProp (changeVal c) ''resultingBooks'' = JArr (map logicalBookVal (chg_resultingBooks c))"
  "getProp (changeVal c) ''removedLogicalBookIds'' = stringsVal (chg_removedLogicalBookIds c)"
  "getProp (changeVal c) ''variantEffects'' = withDefault JUndef (\<lambda>es. JArr (map variantEffectVal es)) (chg_variantEffects c)"
  "getProp (changeVal c) ''preferenceEffects'' = withDefault JUndef (\<lambda>es. JArr (map preferenceEffectVal es)) (chg_preferenceEffects c)"
  "getProp (changeVal c) ''resolvesConflictIds'' = withDefault JUndef stringsVal (chg_resolvesConflictIds c)"
  "getProp (changeVal c) ''createdAt'' = JStr (chg_createdAt c)"
  "getProp (changeVal c) ''deviceId'' = JStr (chg_deviceId c)"
  "getProp (changeVal c) ''appVersion'' = JStr (chg_appVersion c)"
  by (simp_all add: changeVal_def)

lemma isRecord_changeVal [simp]: "isRecord (changeVal c)"
  by (simp add: changeVal_def)

lemma containsAvailability_stringsVal [simp]: "\<not> containsAvailability (stringsVal xs)"
  by (auto simp: stringsVal_def)

lemma containsAvailability_changeVal:
  "containsAvailability (changeVal c) \<longleftrightarrow>
     (\<exists>b \<in> set (chg_resultingBooks c). containsAvailability (logicalBookVal b)) \<or>
     (\<exists>e \<in> set (orEmpty (chg_variantEffects c)). containsAvailability (variantEffectVal e)) \<or>
     (\<exists>e \<in> set (orEmpty (chg_preferenceEffects c)). containsAvailability (preferenceEffectVal e))"
  by (cases "chg_variantEffects c"; cases "chg_preferenceEffects c"; cases "chg_resolvesConflictIds c")
    (simp_all add: changeVal_def hasOwn_def orEmpty_def bex_Un disj_ac)

lemma missingOrEvery_opt:
  "missingOrEvery (withDefault JUndef (\<lambda>es. JArr (map f es)) x) n p \<longleftrightarrow>
     length (orEmpty x) \<le> n \<and> (\<forall>e \<in> set (orEmpty x). p (f e))"
  by (cases x) (simp_all add: missingOrEvery_def orEmpty_def isBoundedArray_def)

lemma isBoundedArray_map [simp]:
  "isBoundedArray (JArr (map f xs)) n p \<longleftrightarrow> length xs \<le> n \<and> (\<forall>x \<in> set xs. p (f x))"
  by (simp add: isBoundedArray_def)

lemma missingOrEvery_strings:
  "missingOrEvery (withDefault JUndef stringsVal x) n p \<longleftrightarrow>
     length (orEmpty x) \<le> n \<and> (\<forall>e \<in> set (orEmpty x). p (JStr e))"
  by (cases x) (simp_all add: missingOrEvery_def orEmpty_def isBoundedArray_def stringsVal_def)

lemma distinct_resolves:
  "distinct (arrOf (withDefault JUndef stringsVal x)) \<longleftrightarrow> distinct (orEmpty x)"
  by (cases x) (auto simp: orEmpty_def stringsVal_def distinct_map arrOf_def inj_on_def)

lemma isSynchronized_iff:
  "isSynchronizedLogicalBookChange nfkc (changeVal c) \<longleftrightarrow>
     isLogicalBookChange (changeVal c) \<and> \<not> containsAvailability (changeVal c) \<and>
     length (orEmpty (chg_variantEffects c)) \<le> 4 \<and>
     (\<forall>e \<in> set (orEmpty (chg_variantEffects c)). isVariantEffect nfkc (variantEffectVal e)) \<and>
     length (orEmpty (chg_preferenceEffects c)) \<le> 2 \<and>
     (\<forall>e \<in> set (orEmpty (chg_preferenceEffects c)). isPreferenceEffect (preferenceEffectVal e)) \<and>
     length (orEmpty (chg_resolvesConflictIds c)) \<le> 32 \<and>
     (\<forall>i \<in> set (orEmpty (chg_resolvesConflictIds c)). CHANGE_ID i) \<and>
     distinct (orEmpty (chg_resolvesConflictIds c))"
  by (auto simp: isSynchronizedLogicalBookChange_def missingOrEvery_opt missingOrEvery_strings distinct_resolves)

lemma eachAscends_sorted: "eachAscends (map JStr xs) \<Longrightarrow> sorted_wrt (\<lambda>a b. codeUnitCompare a b \<le> 0) xs"
proof (induction xs)
  case (Cons a xs)
  then show ?case
  proof (cases xs)
    case (Cons b ys)
    have ab: "codeUnitCompare a b < 0" and s: "sorted_wrt (\<lambda>a b. codeUnitCompare a b \<le> 0) xs"
      using Cons.prems Cons.IH Cons by (simp_all add: local.Cons)
    then have "codeUnitCompare a y \<le> 0" if "y \<in> set xs" for y
      using that codeUnits.cmp_trans [of a b y] by (auto simp: local.Cons)
    then show ?thesis using s by simp
  qed simp
qed simp

lemma sorted_parents:
  "isSortedUniqueIdsAllowEmpty (stringsVal xs) n \<Longrightarrow> sortStrings xs = xs"
  by (rule codeUnits.jsSort_ascending, rule eachAscends_sorted)
    (simp add: isSortedUniqueIdsAllowEmpty_def stringsVal_def)

lemma jsSort_key_idem:
  "collation lc \<Longrightarrow> jsSort (\<lambda>x y. lc (f x) (f y)) (jsSort (\<lambda>x y. lc (f x) (f y)) xs) = jsSort (\<lambda>x y. lc (f x) (f y)) xs"
  by (rule comparator.jsSort_idem) (rule collation.lc_key)

lemma compareVariantEffects_comparator: "collation lc \<Longrightarrow> comparator (compareVariantEffects lc)"
  unfolding compareVariantEffects_def by (intro cmp_intros collation.lc_key)

lemma orEmpty_Some [simp]: "orEmpty (Some xs) = xs"
  by (simp add: orEmpty_def)

lemma canonicalChange_idem:
  assumes "collation lc"
  shows "canonicalChange lc (canonicalChange lc c) = canonicalChange lc c"
  by (simp add: canonicalChange_def jsSort_key_idem [OF assms] codeUnits.jsSort_idem
      comparator.jsSort_idem [OF compareVariantEffects_comparator [OF assms]])

lemma isLogicalBookChange_canonical:
  assumes "isLogicalBookChange (changeVal c)"
  shows "isLogicalBookChange (changeVal (canonicalChange lc c))"
proof -
  have "chg_parents (canonicalChange lc c) = chg_parents c"
    using assms sorted_parents [of "chg_parents c" 32] by (simp add: canonicalChange_def isLogicalBookChange_def)
  then show ?thesis
    using assms by (simp add: isLogicalBookChange_def) (simp add: canonicalChange_def stringsVal_def)
qed

lemma isSynchronized_canonical:
  assumes "isSynchronizedLogicalBookChange nfkc (changeVal c)"
  shows "isSynchronizedLogicalBookChange nfkc (changeVal (canonicalChange lc c))"
  using assms isLogicalBookChange_canonical [of c lc]
  unfolding isSynchronized_iff containsAvailability_changeVal
  by (simp add: canonicalChange_def)

text \<open>Publishing a change: every change that passes the guard has a canonical document, which passes
  the guard again when another device reads it, carries the same identifier, and serializes to the
  same text, so the text identifies the change.\<close>

theorem change_document_stable:
  assumes "collation lc" and "isSynchronizedLogicalBookChange nfkc (changeVal c)"
  shows "\<exists>c'. reparseLogicalBookChange nfkc lc c = Inr c' \<and> chg_changeId c' = chg_changeId c \<and>
    isSynchronizedLogicalBookChange nfkc (changeVal c') \<and>
    serializeLogicalBookChange nfkc lc c' = serializeLogicalBookChange nfkc lc c"
proof -
  have s: "isSynchronizedLogicalBookChange nfkc (changeVal (canonicalChange lc c))"
    by (rule isSynchronized_canonical [OF assms(2)])
  then show ?thesis
    using assms(2) canonicalChange_idem [OF assms(1), of c]
    by (simp add: reparseLogicalBookChange_def serializeLogicalBookChange_def) (simp add: canonicalChange_def)
qed

definition sampleLogicalBook :: LogicalBookRecord where
  "sampleLogicalBook = \<lparr>lb_id = ''logical:sha256:'' @ sampleHash, lb_title = ''A book'', lb_authors = [''Author''],
     lb_language = Some ''en'', lb_publisher = None, lb_identifier = None,
     lb_importedAt = ''2024-05-01T10:00:00.000Z'', lb_updatedAt = ''2024-05-02T10:00:00.000Z'',
     lb_coverState = LogicalPending, lb_variants = [(Epub, ''sha256:'' @ sampleHash)]\<rparr>"

definition sampleChange :: LogicalBookChange where
  "sampleChange = \<lparr>chg_changeId = ''change:add'', chg_kind = Bootstrap, chg_parents = [],
     chg_resultingBooks = [sampleLogicalBook], chg_removedLogicalBookIds = [],
     chg_variantEffects = Some [UpsertVariant sampleBook ''.omnia-reader/library/book--bbbbbbbbbbbb/book.epub''],
     chg_preferenceEffects = None, chg_resolvesConflictIds = None,
     chg_createdAt = ''2024-05-02T10:00:00.000Z'', chg_deviceId = ''device-a'', chg_appVersion = ''1.0.0''\<rparr>"

lemma isSynchronized_sample: "isSynchronizedLogicalBookChange id (changeVal sampleChange)"
  by code_simp

theorem change_document_stable_witness:
  "\<exists>c'. reparseLogicalBookChange id codeUnitCompare sampleChange = Inr c' \<and>
     chg_changeId c' = ''change:add'' \<and>
     serializeLogicalBookChange id codeUnitCompare c' = serializeLogicalBookChange id codeUnitCompare sampleChange"
  using change_document_stable [OF ascii.collation_axioms isSynchronized_sample]
  by (simp add: sampleChange_def) blast

end
