(* ===== verification/Change_Graph.thy ===== *)
theory Change_Graph
  imports Logical_Change
begin

text \<open>
  The causal order of changes, shared by \<open>logical-book-state.ts\<close> and \<open>logical-book-merge.ts\<close> of
  \<open>libs/sync/core/src/lib\<close>: the ancestor search over the parent links of the known changes, the
  comparison by which changes are sorted, and the membership helpers of both files.
\<close>

section \<open>Ancestors\<close>

type_synonym ChangeMap = "(string, LogicalBookChange) jsMap"

definition parentsOf :: "ChangeMap \<Rightarrow> string \<Rightarrow> string list" where
  "parentsOf changes i = (case map_of changes i of None \<Rightarrow> [] | Some c \<Rightarrow> chg_parents c)"

lemma parentsOf_unknown: "i \<notin> fst ` set changes \<Longrightarrow> parentsOf changes i = []"
  by (simp add: parentsOf_def map_of_eq_None_iff [THEN iffD2])

lemma unseen_decreases:
  "i \<in> fst ` set changes \<Longrightarrow> i \<notin> set seen \<Longrightarrow>
   card (fst ` set changes - set (i # seen)) < card (fst ` set changes - set seen)"
  by (rule psubset_card_mono) auto

text \<open>
  \<open>isAncestor\<close> is a depth-first search that shares the mutable set \<open>seen\<close> between its recursive calls and
  stops at the first hit. The recursion is an explicit stack here: an entry is a parent that the
  innermost unfinished \<open>some\<close> has still to look at.
\<close>

function ancestorSearch :: "string \<Rightarrow> ChangeMap \<Rightarrow> string list \<Rightarrow> string list \<Rightarrow> bool" where
  "ancestorSearch ancestorId changes [] seen = False"
| "ancestorSearch ancestorId changes (parent # rest) seen =
     (if parent = ancestorId then True
      else if parent \<in> set seen then ancestorSearch ancestorId changes rest seen
      else ancestorSearch ancestorId changes (parentsOf changes parent @ rest) (parent # seen))"
  by pat_completeness auto

termination
proof (relation "measures [\<lambda>(a, changes, stack, seen). card (fst ` set changes - set seen),
    \<lambda>(a, changes, stack, seen). length stack]")
  fix a :: string and changes :: ChangeMap and p rest seen
  assume "p \<noteq> a" and p: "p \<notin> set seen"
  show "((a, changes, parentsOf changes p @ rest, p # seen), a, changes, p # rest, seen) \<in>
    measures [\<lambda>(a, changes, stack, seen). card (fst ` set changes - set seen),
      \<lambda>(a, changes, stack, seen). length stack]"
  proof (cases "p \<in> fst ` set changes")
    case True
    then show ?thesis using unseen_decreases [OF True p] by simp
  next
    case False
    then have "fst ` set changes - set (p # seen) = fst ` set changes - set seen" by auto
    then show ?thesis by (simp add: parentsOf_unknown [OF False])
  qed
qed simp_all

definition isAncestor :: "string \<Rightarrow> string \<Rightarrow> ChangeMap \<Rightarrow> bool" where
  "isAncestor ancestorId descendantId changes =
     ancestorSearch ancestorId changes (parentsOf changes descendantId) [descendantId]"

text \<open>The specification: reachability along parent links of known changes.\<close>

definition parentLinks :: "ChangeMap \<Rightarrow> (string \<times> string) set" where
  "parentLinks changes = {(i, p). p \<in> set (parentsOf changes i)}"

lemma ancestorSearch_sound:
  "ancestorSearch a changes stack seen \<Longrightarrow> \<exists>p \<in> set stack. (p, a) \<in> (parentLinks changes)\<^sup>*"
proof (induction a changes stack seen rule: ancestorSearch.induct)
  case (2 a changes parent rest seen)
  show ?case
  proof (cases "parent = a \<or> parent \<in> set seen")
    case True
    then show ?thesis using 2 by (auto split: if_splits)
  next
    case False
    then obtain p where p: "p \<in> set (parentsOf changes parent @ rest)" "(p, a) \<in> (parentLinks changes)\<^sup>*"
      using 2 by auto
    show ?thesis
    proof (cases "p \<in> set rest")
      case False
      then have "(parent, p) \<in> parentLinks changes" using p(1) by (simp add: parentLinks_def)
      then show ?thesis using p(2) by (auto intro: converse_rtrancl_into_rtrancl)
    qed (use p in auto)
  qed
qed simp

text \<open>A search that fails has visited a set closed under parents that the ancestor is not a parent in.\<close>

lemma ancestorSearch_complete:
  "\<not> ancestorSearch a changes stack seen \<Longrightarrow>
   \<forall>s \<in> set seen. \<forall>q \<in> set (parentsOf changes s). q \<in> set stack \<or> (q \<in> set seen \<and> q \<noteq> a) \<Longrightarrow>
   \<exists>S. set stack \<union> set seen \<subseteq> S \<and> (\<forall>s \<in> S. \<forall>q \<in> set (parentsOf changes s). q \<in> S \<and> q \<noteq> a)"
proof (induction a changes stack seen rule: ancestorSearch.induct)
  case (1 a changes seen)
  then show ?case by (intro exI [of _ "set seen"]) simp
next
  case (2 a changes parent rest seen)
  have pa: "parent \<noteq> a" using "2.prems"(1) by auto
  show ?case
  proof (cases "parent \<in> set seen")
    case True
    obtain S where S: "set rest \<union> set seen \<subseteq> S" "\<forall>s \<in> S. \<forall>q \<in> set (parentsOf changes s). q \<in> S \<and> q \<noteq> a"
    proof (rule exE [OF "2.IH"(1) [OF pa True]])
      show "\<not> ancestorSearch a changes rest seen" using "2.prems"(1) pa True by simp
      show "\<forall>s \<in> set seen. \<forall>q \<in> set (parentsOf changes s). q \<in> set rest \<or> (q \<in> set seen \<and> q \<noteq> a)"
        using "2.prems"(2) pa True by (metis set_ConsD)
    qed blast
    show ?thesis by (intro exI [of _ S] conjI S(2)) (use S(1) True in auto)
  next
    case False
    obtain S where S: "set (parentsOf changes parent @ rest) \<union> set (parent # seen) \<subseteq> S"
      "\<forall>s \<in> S. \<forall>q \<in> set (parentsOf changes s). q \<in> S \<and> q \<noteq> a"
    proof (rule exE [OF "2.IH"(2) [OF pa False]])
      show "\<not> ancestorSearch a changes (parentsOf changes parent @ rest) (parent # seen)"
        using "2.prems"(1) pa False by simp
      show "\<forall>s \<in> set (parent # seen). \<forall>q \<in> set (parentsOf changes s).
          q \<in> set (parentsOf changes parent @ rest) \<or> (q \<in> set (parent # seen) \<and> q \<noteq> a)"
        using "2.prems"(2) pa by (metis UnCI list.set_intros set_ConsD set_append)
    qed blast
    show ?thesis by (intro exI [of _ S] conjI S(2)) (use S(1) in auto)
  qed
qed

lemma isAncestor_iff: "isAncestor a d changes \<longleftrightarrow> (d, a) \<in> (parentLinks changes)\<^sup>+"
proof
  assume "isAncestor a d changes"
  then obtain p where "p \<in> set (parentsOf changes d)" "(p, a) \<in> (parentLinks changes)\<^sup>*"
    unfolding isAncestor_def by (blast dest: ancestorSearch_sound)
  then show "(d, a) \<in> (parentLinks changes)\<^sup>+"
    by (auto simp: parentLinks_def intro: rtrancl_into_trancl2)
next
  assume r: "(d, a) \<in> (parentLinks changes)\<^sup>+"
  show "isAncestor a d changes"
  proof (rule ccontr)
    assume "\<not> isAncestor a d changes"
    then obtain S where d: "d \<in> S" and S: "\<forall>s \<in> S. \<forall>q \<in> set (parentsOf changes s). q \<in> S \<and> q \<noteq> a"
      unfolding isAncestor_def using ancestorSearch_complete [of a changes "parentsOf changes d" "[d]"] by auto
    have "b \<in> S \<and> b \<noteq> a" if "(d, b) \<in> (parentLinks changes)\<^sup>+" for b
      using that by (induction rule: trancl_induct) (use d S in \<open>auto simp: parentLinks_def\<close>)
    then show False using r by blast
  qed
qed

lemma isAncestor_trans: "isAncestor a b changes \<Longrightarrow> isAncestor b c changes \<Longrightarrow> isAncestor a c changes"
  by (auto simp: isAncestor_iff)

section \<open>Sorting changes\<close>

text \<open>
  The result of \<open>Array.prototype.sort\<close> is only determined for a consistent comparator; otherwise the
  order is up to the engine, but the result is always a permutation. Code that sorts by causality takes
  the engine's sort as a parameter.
\<close>

locale engine_sort =
  fixes sortBy :: "('a \<Rightarrow> 'a \<Rightarrow> int) \<Rightarrow> 'a list \<Rightarrow> 'a list"
  assumes sort_perm: "mset (sortBy cmp xs) = mset xs"
    and sort_consistent: "comparator cmp \<Longrightarrow> sortBy cmp xs = jsSort cmp xs"
begin

lemma set_sortBy: "set (sortBy cmp xs) = set xs"
  by (metis set_mset_mset sort_perm)

lemma length_sortBy: "length (sortBy cmp xs) = length xs"
  by (metis size_mset sort_perm)

end

interpretation insertionSort: engine_sort jsSort
  by unfold_locales simp_all

text \<open>The comparison callback of \<open>orderChanges\<close> and of \<open>foldLogicalBookChanges\<close>.\<close>

definition changeOrder ::
  "(string \<Rightarrow> string \<Rightarrow> int) \<Rightarrow> ChangeMap \<Rightarrow> LogicalBookChange \<Rightarrow> LogicalBookChange \<Rightarrow> int" where
  "changeOrder localeCompare byId left right =
     (if isAncestor (chg_changeId left) (chg_changeId right) byId then -1
      else if isAncestor (chg_changeId right) (chg_changeId left) byId then 1
      else localeCompare (chg_changeId left) (chg_changeId right))"

definition orderChanges ::
  "((LogicalBookChange \<Rightarrow> LogicalBookChange \<Rightarrow> int) \<Rightarrow> LogicalBookChange list \<Rightarrow> LogicalBookChange list) \<Rightarrow>
   (string \<Rightarrow> string \<Rightarrow> int) \<Rightarrow> LogicalBookChange list \<Rightarrow> LogicalBookChange list" where
  "orderChanges sortBy localeCompare changes =
     (let byId = mapBy chg_changeId changes in sortBy (changeOrder localeCompare byId) changes)"

section \<open>Memberships\<close>

definition compareMemberships :: "(string \<Rightarrow> string \<Rightarrow> int) \<Rightarrow> MembershipTuple \<Rightarrow> MembershipTuple \<Rightarrow> int" where
  "compareMemberships localeCompare left right =
     cmpOr (localeCompare (mt_logicalBookId left) (mt_logicalBookId right))
       (cmpOr (localeCompare (formatString (mt_format left)) (formatString (mt_format right)))
         (localeCompare (mt_variantId left) (mt_variantId right)))"

definition memberships :: "(string \<Rightarrow> string \<Rightarrow> int) \<Rightarrow> LogicalBookRecord \<Rightarrow> MembershipTuple list" where
  "memberships localeCompare book =
     jsSort (compareMemberships localeCompare)
       (map (\<lambda>(format, variantId). \<lparr>mt_logicalBookId = lb_id book, mt_format = format, mt_variantId = variantId\<rparr>)
         (lb_variants book))"

text \<open>The books that already own a publication of the proposed one, over the values of the map.\<close>

definition membershipConflicts :: "LogicalBookRecord \<Rightarrow> LogicalBookRecord list \<Rightarrow> MembershipTuple list" where
  "membershipConflicts proposed books =
     concat (map (\<lambda>(format, variantId).
       map (\<lambda>book. \<lparr>mt_logicalBookId = lb_id book, mt_format = format, mt_variantId = variantId\<rparr>)
         (filter (\<lambda>book. lb_id book \<noteq> lb_id proposed \<and> map_of (lb_variants book) format = Some variantId) books))
       (lb_variants proposed))"

lemma membershipConflicts_none:
  "membershipConflicts proposed books = [] \<Longrightarrow> b \<in> set books \<Longrightarrow> lb_id b \<noteq> lb_id proposed \<Longrightarrow>
   map_of (lb_variants proposed) f = Some v \<Longrightarrow> map_of (lb_variants b) f \<noteq> Some v"
  by (fastforce simp: membershipConflicts_def filter_empty_conv dest: map_of_SomeD)

section \<open>Properties\<close>

text \<open>The ancestor search terminates on every graph of changes, cyclic ones included, and finds exactly
  the changes reachable along one or more parent links of known changes.\<close>

theorem ancestor_search_correct:
  "isAncestor ancestorId descendantId changes \<longleftrightarrow> (descendantId, ancestorId) \<in> (parentLinks changes)\<^sup>+"
  by (rule isAncestor_iff)

definition exampleChange :: "string \<Rightarrow> string list \<Rightarrow> LogicalBookChange" where
  "exampleChange changeId parents = sampleChange\<lparr>chg_changeId := changeId, chg_parents := parents\<rparr>"

text \<open>The callback that sorts changes mixes causality with the order of identifiers and is not a
  consistent comparator: with \<open>change:c\<close> the parent of \<open>change:a\<close> and \<open>change:b\<close> concurrent to both it
  orders a before b, b before c and c before a. A stable insertion sort of the three, given in the
  order of their identifiers, leaves the descendant before its ancestor, and another order of the same
  changes gives another result.\<close>

theorem change_order_inconsistent:
  "let a = exampleChange ''change:a'' [''change:c'']; b = exampleChange ''change:b'' [];
       c = exampleChange ''change:c'' []; byId = mapBy chg_changeId [a, b, c]
   in changeOrder codeUnitCompare byId a b < 0 \<and> changeOrder codeUnitCompare byId b c < 0 \<and>
      changeOrder codeUnitCompare byId c a < 0 \<and>
      isAncestor ''change:c'' ''change:a'' byId \<and>
      map chg_changeId (orderChanges jsSort codeUnitCompare [a, b, c]) = [''change:a'', ''change:b'', ''change:c''] \<and>
      map chg_changeId (orderChanges jsSort codeUnitCompare [c, a, b]) = [''change:c'', ''change:a'', ''change:b'']"
  by code_simp

end
