(* ===== verification/Logical_State.thy ===== *)
theory Logical_State
  imports Change_Graph "HOL-Library.Word"
begin

unbundle bit_operations_syntax

text \<open>
  The replicated state of logical books, \<open>libs/sync/core/src/lib/logical-book-state.ts\<close>. Every entry of
  the state document carries the clock of the change that wrote it; a change is applied entry by entry,
  each entry being replaced only when the change wins against the entry's clock. Deletions leave
  tombstones, which win against concurrent writes.
\<close>

section \<open>The document\<close>

record LogicalBookStateClock =
  ck_changeId :: string
  ck_createdAt :: string
  ck_deviceId :: string

record BookEntry =
  be_book :: LogicalBookRecord
  be_clock :: LogicalBookStateClock

record RemovedBookEntry =
  rb_logicalBookId :: string
  rb_clock :: LogicalBookStateClock

record VariantEntry =
  ve_variant :: BookRecord
  ve_objectPath :: string
  ve_clock :: LogicalBookStateClock

record RemovedVariantEntry =
  rv_variantId :: string
  rv_format :: PublicationFormat
  rv_clock :: LogicalBookStateClock

record PreferenceEntry =
  pr_logicalBookId :: string
  pr_preference :: "LogicalBookFormatPreference option"
  pr_clock :: LogicalBookStateClock

record ReconciliationEntry =
  rc_reconciliation :: MembershipReconciliation
  rc_clock :: LogicalBookStateClock

record LogicalBookStateDocument =
  sd_heads :: "string list"
  sd_books :: "BookEntry list"
  sd_removedBooks :: "RemovedBookEntry list"
  sd_variants :: "VariantEntry list"
  sd_removedVariants :: "RemovedVariantEntry list"
  sd_preferences :: "PreferenceEntry list"
  sd_reconciliations :: "ReconciliationEntry list"

definition emptyLogicalBookState :: LogicalBookStateDocument where
  "emptyLogicalBookState =
     \<lparr>sd_heads = [], sd_books = [], sd_removedBooks = [], sd_variants = [], sd_removedVariants = [],
      sd_preferences = [], sd_reconciliations = []\<rparr>"

definition stateClocks :: "LogicalBookStateDocument \<Rightarrow> LogicalBookStateClock list" where
  "stateClocks state =
     map be_clock (sd_books state) @ map rb_clock (sd_removedBooks state) @
     map ve_clock (sd_variants state) @ map rv_clock (sd_removedVariants state) @
     map pr_clock (sd_preferences state) @ map rc_clock (sd_reconciliations state)"

section \<open>Clocks\<close>

definition clockOf :: "LogicalBookChange \<Rightarrow> LogicalBookStateClock" where
  "clockOf change =
     \<lparr>ck_changeId = chg_changeId change, ck_createdAt = chg_createdAt change, ck_deviceId = chg_deviceId change\<rparr>"

definition clockWins ::
  "(string \<Rightarrow> string \<Rightarrow> int) \<Rightarrow> ChangeMap \<Rightarrow> LogicalBookStateClock \<Rightarrow> LogicalBookStateClock option \<Rightarrow> bool" where
  "clockWins localeCompare changes candidate current =
     (case current of
        None \<Rightarrow> True
      | Some cur \<Rightarrow>
          if ck_changeId candidate = ck_changeId cur then False
          else if isAncestor (ck_changeId cur) (ck_changeId candidate) changes then True
          else if isAncestor (ck_changeId candidate) (ck_changeId cur) changes then False
          else localeCompare (ck_changeId candidate) (ck_changeId cur) > 0)"

definition tombstoneClockWins ::
  "(string \<Rightarrow> string \<Rightarrow> int) \<Rightarrow> ChangeMap \<Rightarrow> LogicalBookStateClock \<Rightarrow> LogicalBookStateClock option \<Rightarrow>
     bool \<Rightarrow> bool \<Rightarrow> bool" where
  "tombstoneClockWins localeCompare changes candidate current candidateIsTombstone currentIsTombstone =
     (case current of
        None \<Rightarrow> True
      | Some cur \<Rightarrow>
          if ck_changeId candidate = ck_changeId cur then False
          else if isAncestor (ck_changeId cur) (ck_changeId candidate) changes then True
          else if isAncestor (ck_changeId candidate) (ck_changeId cur) changes then False
          else if candidateIsTombstone \<noteq> currentIsTombstone then candidateIsTombstone
          else localeCompare (ck_changeId candidate) (ck_changeId cur) > 0)"

definition compareClocks ::
  "(string \<Rightarrow> string \<Rightarrow> int) \<Rightarrow> LogicalBookStateClock \<Rightarrow> LogicalBookStateClock option \<Rightarrow> int" where
  "compareClocks localeCompare left right =
     (case right of None \<Rightarrow> 1 | Some r \<Rightarrow> localeCompare (ck_changeId left) (ck_changeId r))"

section \<open>Applying a change\<close>

text \<open>The 32-bit FNV-1a hash of the sorted identifiers, as eight hexadecimal digits.\<close>

definition fnvHash :: "string \<Rightarrow> 32 word" where
  "fnvHash input =
     foldl (\<lambda>hash character. (hash XOR of_nat (of_char character)) * 16777619) 2166136261 input"

definition hexDigits :: "nat \<Rightarrow> nat \<Rightarrow> string" where
  "hexDigits digits n = map (\<lambda>k. hexDigit (n div 16 ^ (digits - 1 - k) mod 16)) [0..<digits]"

definition deterministicConflictId :: "string list \<Rightarrow> string list \<Rightarrow> string" where
  "deterministicConflictId changeIds variantIds =
     (let input = joinWith ''|'' (sortStrings (changeIds @ variantIds))
      in ''conflict:membership:'' @ hexDigits 8 (unat (fnvHash input)))"

type_synonym BookMap = "(string, BookEntry) jsMap"
type_synonym RemovedBookMap = "(string, RemovedBookEntry) jsMap"

text \<open>One iteration of the loop over \<open>removedLogicalBookIds\<close>, on the two candidate maps.\<close>

definition removeBook ::
  "(string \<Rightarrow> string \<Rightarrow> int) \<Rightarrow> ChangeMap \<Rightarrow> LogicalBookStateClock \<Rightarrow> BookMap \<Rightarrow> RemovedBookMap \<Rightarrow>
     BookMap \<times> RemovedBookMap \<Rightarrow> string \<Rightarrow> BookMap \<times> RemovedBookMap" where
  "removeBook localeCompare changes clock books removedBooks candidates logicalBookId =
     (if \<not> tombstoneClockWins localeCompare changes clock
          (map_option be_clock (map_of books logicalBookId)) True False \<or>
        \<not> clockWins localeCompare changes clock
          (map_option rb_clock (map_of removedBooks logicalBookId))
      then candidates
      else (mapDelete logicalBookId (fst candidates),
            mapSet logicalBookId \<lparr>rb_logicalBookId = logicalBookId, rb_clock = clock\<rparr> (snd candidates)))"

definition removeBooks ::
  "(string \<Rightarrow> string \<Rightarrow> int) \<Rightarrow> ChangeMap \<Rightarrow> LogicalBookChange \<Rightarrow> BookMap \<Rightarrow> RemovedBookMap \<Rightarrow> BookMap \<times> RemovedBookMap"
where
  "removeBooks localeCompare changes change books removedBooks =
     foldl (removeBook localeCompare changes (clockOf change) books removedBooks)
       (books, removedBooks) (chg_removedLogicalBookIds change)"

text \<open>One iteration of the loop over \<open>resultingBooks\<close>, on the candidate maps and the list \<open>competing\<close>.\<close>

definition proposeBook ::
  "(string \<Rightarrow> string \<Rightarrow> int) \<Rightarrow> ChangeMap \<Rightarrow> LogicalBookStateClock \<Rightarrow> BookMap \<Rightarrow> RemovedBookMap \<Rightarrow>
     BookMap \<times> RemovedBookMap \<times> LogicalBookRecord list \<Rightarrow> LogicalBookRecord \<Rightarrow>
     BookMap \<times> RemovedBookMap \<times> LogicalBookRecord list" where
  "proposeBook localeCompare changes clock books removedBooks candidates proposed =
     (case candidates of (candidateBooks, candidateRemovedBooks, competing) \<Rightarrow>
        if \<not> clockWins localeCompare changes clock
             (map_option be_clock (map_of books (lb_id proposed))) \<or>
           \<not> tombstoneClockWins localeCompare changes clock
             (map_option rb_clock (map_of removedBooks (lb_id proposed))) False True
        then (candidateBooks, candidateRemovedBooks, competing)
        else if membershipConflicts proposed (map be_book (mapValues candidateBooks)) \<noteq> []
        then (candidateBooks, candidateRemovedBooks, competing @ [proposed])
        else (mapSet (lb_id proposed) \<lparr>be_book = proposed, be_clock = clock\<rparr> candidateBooks,
              mapDelete (lb_id proposed) candidateRemovedBooks, competing))"

definition proposeBooks ::
  "(string \<Rightarrow> string \<Rightarrow> int) \<Rightarrow> ChangeMap \<Rightarrow> LogicalBookChange \<Rightarrow> BookMap \<Rightarrow> RemovedBookMap \<Rightarrow>
     BookMap \<times> RemovedBookMap \<Rightarrow> BookMap \<times> RemovedBookMap \<times> LogicalBookRecord list" where
  "proposeBooks localeCompare changes change books removedBooks candidates =
     foldl (proposeBook localeCompare changes (clockOf change) books removedBooks)
       (fst candidates, snd candidates, []) (chg_resultingBooks change)"

text \<open>The reconciliation recorded when a proposed book claims publications of another one.\<close>

definition membershipReconciliation ::
  "(string \<Rightarrow> string \<Rightarrow> int) \<Rightarrow> LogicalBookChange \<Rightarrow> BookMap \<Rightarrow> LogicalBookRecord list \<Rightarrow> MembershipReconciliation" where
  "membershipReconciliation localeCompare change books competing =
     (let rejectedMembership = concat (map (memberships localeCompare) competing);
          proposedVariantIds = map mt_variantId rejectedMembership;
          acceptedMembership = concat (map (memberships localeCompare)
            (filter (\<lambda>book. \<exists>i \<in> set (map snd (lb_variants book)). i \<noteq> [] \<and> i \<in> set proposedVariantIds)
              (map be_book (mapValues books))));
          conflictingChangeIds = chg_changeId change # map (\<lambda>entry.
            case map_of books (mt_logicalBookId entry) of
              Some e \<Rightarrow> ck_changeId (be_clock e) | None \<Rightarrow> ''change:bootstrap'') acceptedMembership;
          affectedVariantIds = sortStrings (jsUnique (map mt_variantId (acceptedMembership @ rejectedMembership)));
          conflictId = deterministicConflictId conflictingChangeIds affectedVariantIds
      in \<lparr>mr_conflictId = conflictId, mr_status = ReconciliationOpen,
          mr_conflictingChangeIds = sortStrings (jsUnique conflictingChangeIds),
          mr_affectedVariantIds = affectedVariantIds, mr_acceptedMembership = acceptedMembership,
          mr_rejectedMembership = rejectedMembership, mr_resolvedByChangeId = None,
          mr_detectedAt = chg_createdAt change\<rparr>)"

type_synonym ReconciliationMap = "(string, ReconciliationEntry) jsMap"

definition recordConflict ::
  "(string \<Rightarrow> string \<Rightarrow> int) \<Rightarrow> ChangeMap \<Rightarrow> LogicalBookChange \<Rightarrow> MembershipReconciliation \<Rightarrow>
     ReconciliationMap \<Rightarrow> ReconciliationMap" where
  "recordConflict localeCompare changes change r reconciliations =
     (if clockWins localeCompare changes (clockOf change)
          (map_option rc_clock (map_of reconciliations (mr_conflictId r)))
      then mapSet (mr_conflictId r) \<lparr>rc_reconciliation = r, rc_clock = clockOf change\<rparr> reconciliations
      else reconciliations)"

definition applyPreference ::
  "(string \<Rightarrow> string \<Rightarrow> int) \<Rightarrow> ChangeMap \<Rightarrow> LogicalBookStateClock \<Rightarrow> (string, PreferenceEntry) jsMap \<Rightarrow>
     LogicalPreferenceEffect \<Rightarrow> (string, PreferenceEntry) jsMap" where
  "applyPreference localeCompare changes clock preferences effect =
     (let current = map_of preferences (pe_logicalBookId effect) in
      if tombstoneClockWins localeCompare changes clock (map_option pr_clock current)
           (pe_preference effect = None) (case current of Some c \<Rightarrow> pr_preference c = None | None \<Rightarrow> False)
      then mapSet (pe_logicalBookId effect)
        \<lparr>pr_logicalBookId = pe_logicalBookId effect, pr_preference = pe_preference effect, pr_clock = clock\<rparr> preferences
      else preferences)"

definition applyPreferences ::
  "(string \<Rightarrow> string \<Rightarrow> int) \<Rightarrow> ChangeMap \<Rightarrow> LogicalBookChange \<Rightarrow> (string, PreferenceEntry) jsMap \<Rightarrow>
     (string, PreferenceEntry) jsMap" where
  "applyPreferences localeCompare changes change preferences =
     foldl (applyPreference localeCompare changes (clockOf change)) preferences
       (orEmpty (chg_preferenceEffects change))"

definition resolveConflict ::
  "(string \<Rightarrow> string \<Rightarrow> int) \<Rightarrow> ChangeMap \<Rightarrow> LogicalBookStateClock \<Rightarrow> ReconciliationMap \<Rightarrow> string \<Rightarrow> ReconciliationMap"
where
  "resolveConflict localeCompare changes clock reconciliations conflictId =
     (case map_of reconciliations conflictId of
        None \<Rightarrow> reconciliations
      | Some current \<Rightarrow>
          if clockWins localeCompare changes clock (Some (rc_clock current))
          then mapSet conflictId
            \<lparr>rc_reconciliation = (rc_reconciliation current)
               \<lparr>mr_status := ReconciliationResolved, mr_resolvedByChangeId := Some (ck_changeId clock)\<rparr>,
             rc_clock = clock\<rparr> reconciliations
          else reconciliations)"

definition resolveConflicts ::
  "(string \<Rightarrow> string \<Rightarrow> int) \<Rightarrow> ChangeMap \<Rightarrow> LogicalBookChange \<Rightarrow> ReconciliationMap \<Rightarrow> ReconciliationMap" where
  "resolveConflicts localeCompare changes change reconciliations =
     foldl (resolveConflict localeCompare changes (clockOf change)) reconciliations
       (orEmpty (chg_resolvesConflictIds change))"

type_synonym VariantMap = "(string, VariantEntry) jsMap"
type_synonym RemovedVariantMap = "(string, RemovedVariantEntry) jsMap"

definition applyVariantEffects ::
  "(string \<Rightarrow> string) \<Rightarrow> (string \<Rightarrow> string \<Rightarrow> int) \<Rightarrow> ChangeMap \<Rightarrow> LogicalBookChange \<Rightarrow> string list \<Rightarrow>
     VariantMap \<times> RemovedVariantMap \<Rightarrow> VariantMap \<times> RemovedVariantMap" where
  "applyVariantEffects nfkc localeCompare changes change activeVariantIds start =
     (let clock = clockOf change in
      foldl (\<lambda>(variants, removedVariants) effect.
          let variantId = effectVariantId effect;
              isDelete = (case effect of DeleteVariant _ _ \<Rightarrow> True | UpsertVariant _ _ \<Rightarrow> False)
          in if \<not> tombstoneClockWins localeCompare changes clock
                  (map_option ve_clock (map_of variants variantId)) isDelete False \<or>
                \<not> tombstoneClockWins localeCompare changes clock
                  (map_option rv_clock (map_of removedVariants variantId)) isDelete True
             then (variants, removedVariants)
             else case effect of
               DeleteVariant _ format \<Rightarrow>
                 (mapDelete variantId variants,
                  mapSet variantId \<lparr>rv_variantId = variantId, rv_format = format, rv_clock = clock\<rparr> removedVariants)
             | UpsertVariant variant _ \<Rightarrow>
                 (if variantId \<in> set activeVariantIds
                  then (mapSet variantId
                         \<lparr>ve_variant = variant,
                          ve_objectPath = (case bookObjectPath nfkc (br_id variant) (br_format variant) (br_fileName variant) of
                            Inr path \<Rightarrow> path | Inl _ \<Rightarrow> []),
                          ve_clock = clock\<rparr> variants,
                        mapDelete variantId removedVariants)
                  else (variants, removedVariants)))
        start (orEmpty (chg_variantEffects change)))"

definition bookVariantIds :: "LogicalBookRecord \<Rightarrow> string list" where
  "bookVariantIds book = map snd (lb_variants book)"

definition applyChange ::
  "(string \<Rightarrow> string) \<Rightarrow> (string \<Rightarrow> string \<Rightarrow> int) \<Rightarrow> ChangeMap \<Rightarrow> LogicalBookStateDocument \<Rightarrow> LogicalBookChange \<Rightarrow>
     LogicalBookStateDocument" where
  "applyChange nfkc localeCompare changes state change =
     (let books0 = mapBy (\<lambda>e. lb_id (be_book e)) (sd_books state);
          removedBooks0 = mapBy rb_logicalBookId (sd_removedBooks state);
          (candidateBooks, candidateRemovedBooks, competing) =
            proposeBooks localeCompare changes change books0 removedBooks0
              (removeBooks localeCompare changes change books0 removedBooks0);
          books = (if competing = [] then candidateBooks else books0);
          removedBooks = (if competing = [] then candidateRemovedBooks else removedBooks0);
          reconciliations0 = mapBy (\<lambda>e. mr_conflictId (rc_reconciliation e)) (sd_reconciliations state);
          reconciliations1 = (if competing = [] then reconciliations0
            else recordConflict localeCompare changes change
              (membershipReconciliation localeCompare change books0 competing) reconciliations0);
          preferences = applyPreferences localeCompare changes change
            (mapBy pr_logicalBookId (sd_preferences state));
          reconciliations = resolveConflicts localeCompare changes change reconciliations1;
          activeVariantIds = concat (map (\<lambda>e. bookVariantIds (be_book e)) (mapValues books));
          (variants1, removedVariants) = applyVariantEffects nfkc localeCompare changes change activeVariantIds
            (mapBy (\<lambda>e. br_id (ve_variant e)) (sd_variants state),
             mapBy rv_variantId (sd_removedVariants state));
          variants = filter (\<lambda>(variantId, _). variantId \<in> set activeVariantIds) variants1;
          next = \<lparr>sd_heads = [], sd_books = mapValues books, sd_removedBooks = mapValues removedBooks,
            sd_variants = mapValues variants, sd_removedVariants = mapValues removedVariants,
            sd_preferences = mapValues preferences, sd_reconciliations = mapValues reconciliations\<rparr>
      in next\<lparr>sd_heads := map ck_changeId (stateClocks next)\<rparr>)"

section \<open>Canonical documents\<close>

definition expectedHeads :: "LogicalBookStateDocument \<Rightarrow> string list" where
  "expectedHeads state = sortStrings (jsUnique (map ck_changeId (stateClocks state)))"

definition canonicalizeLogicalBookState ::
  "(string \<Rightarrow> string \<Rightarrow> int) \<Rightarrow> LogicalBookStateDocument \<Rightarrow> LogicalBookStateDocument" where
  "canonicalizeLogicalBookState localeCompare state =
     (let canonical =
        \<lparr>sd_heads = sortStrings (jsUnique (sd_heads state)),
         sd_books = jsSort (\<lambda>l r. localeCompare (lb_id (be_book l)) (lb_id (be_book r))) (sd_books state),
         sd_removedBooks = jsSort (\<lambda>l r. localeCompare (rb_logicalBookId l) (rb_logicalBookId r)) (sd_removedBooks state),
         sd_variants = jsSort (\<lambda>l r. localeCompare (br_id (ve_variant l)) (br_id (ve_variant r))) (sd_variants state),
         sd_removedVariants = jsSort (\<lambda>l r. localeCompare (rv_variantId l) (rv_variantId r)) (sd_removedVariants state),
         sd_preferences = jsSort (\<lambda>l r. localeCompare (pr_logicalBookId l) (pr_logicalBookId r)) (sd_preferences state),
         sd_reconciliations = jsSort (\<lambda>l r. localeCompare (mr_conflictId (rc_reconciliation l))
           (mr_conflictId (rc_reconciliation r))) (sd_reconciliations state)\<rparr>
      in canonical\<lparr>sd_heads := expectedHeads canonical\<rparr>)"

definition clockVal :: "LogicalBookStateClock \<Rightarrow> jsval" where
  "clockVal c = JObj
     [(''changeId'', JStr (ck_changeId c)), (''createdAt'', JStr (ck_createdAt c)), (''deviceId'', JStr (ck_deviceId c))]"

definition stateVal :: "LogicalBookStateDocument \<Rightarrow> jsval" where
  "stateVal s = JObj
     [(''schemaVersion'', JInt 1), (''heads'', stringsVal (sd_heads s)),
      (''books'', JArr (map (\<lambda>e. JObj [(''book'', logicalBookVal (be_book e)), (''clock'', clockVal (be_clock e))])
        (sd_books s))),
      (''removedBooks'', JArr (map (\<lambda>e. JObj [(''logicalBookId'', JStr (rb_logicalBookId e)),
        (''clock'', clockVal (rb_clock e))]) (sd_removedBooks s))),
      (''variants'', JArr (map (\<lambda>e. JObj [(''variant'', bookVal (ve_variant e)),
        (''objectPath'', JStr (ve_objectPath e)), (''clock'', clockVal (ve_clock e))]) (sd_variants s))),
      (''removedVariants'', JArr (map (\<lambda>e. JObj [(''variantId'', JStr (rv_variantId e)),
        (''format'', formatVal (rv_format e)), (''clock'', clockVal (rv_clock e))]) (sd_removedVariants s))),
      (''preferences'', JArr (map (\<lambda>e. JObj [(''logicalBookId'', JStr (pr_logicalBookId e)),
        (''preference'', withDefault JNull formatPreferenceVal (pr_preference e)),
        (''clock'', clockVal (pr_clock e))]) (sd_preferences s))),
      (''reconciliations'', JArr (map (\<lambda>e. JObj [(''reconciliation'', reconciliationVal (rc_reconciliation e)),
        (''clock'', clockVal (rc_clock e))]) (sd_reconciliations s)))]"

section \<open>Validation of documents\<close>

definition LOGICAL_BOOK_STATE_MAX_RECORDS :: nat where "LOGICAL_BOOK_STATE_MAX_RECORDS = 20000"
definition LOGICAL_BOOK_STATE_MAX_BYTES :: nat where "LOGICAL_BOOK_STATE_MAX_BYTES = 2 * 1024 * 1024"

definition isClock :: "jsval \<Rightarrow> bool" where
  "isClock v =
     (isRecord v \<and> matchesOpaque 255 (toStringJ (getProp v ''changeId'')) \<and>
      isBoundedString (getProp v ''deviceId'') 256 \<and>
      isStr (getProp v ''createdAt'') \<and> isIsoString (strOf (getProp v ''createdAt'')))"

definition isSortedUniqueStrings :: "jsval list \<Rightarrow> (string \<Rightarrow> bool) \<Rightarrow> bool" where
  "isSortedUniqueStrings vs pattern =
     ((\<forall>entry \<in> set vs. isStr entry \<and> pattern (strOf entry)) \<and>
      length (jsUnique vs) = length vs \<and> eachAscends vs)"

definition uniqueBy :: "jsval list \<Rightarrow> (jsval \<Rightarrow> jsval) \<Rightarrow> bool" where
  "uniqueBy vs key = (length (jsUnique (map (\<lambda>v. toStringJ (key v)) vs)) = length vs)"

definition clockIdOf :: "jsval \<Rightarrow> string" where
  "clockIdOf entry = strOf (getProp (getProp entry ''clock'') ''changeId'')"

text \<open>\<open>compareClocks(active.clock, removed.get(id)?.clock) <= 0\<close> for some active entry.\<close>

definition tombstoneCovers ::
  "(string \<Rightarrow> string \<Rightarrow> int) \<Rightarrow> (jsval \<Rightarrow> jsval) \<Rightarrow> jsval list \<Rightarrow> (jsval \<Rightarrow> jsval) \<Rightarrow> jsval list \<Rightarrow> bool" where
  "tombstoneCovers localeCompare key active removedKey removed =
     (\<exists>a \<in> set active. \<exists>r \<in> set removed.
        key a = removedKey r \<and> localeCompare (clockIdOf a) (clockIdOf r) \<le> 0)"

text \<open>The entries of \<open>books\<close>, \<open>variants\<close> and so on, each with its own test.\<close>

definition isBookEntry :: "jsval \<Rightarrow> bool" where
  "isBookEntry e = (isRecord e \<and> isLogicalBookRecord (getProp e ''book'') \<and> isClock (getProp e ''clock''))"

definition isRemovedBookEntry :: "jsval \<Rightarrow> bool" where
  "isRemovedBookEntry e = (isRecord e \<and> isLogicalBookId (getProp e ''logicalBookId'') \<and> isClock (getProp e ''clock''))"

definition isVariantEntry :: "(string \<Rightarrow> string) \<Rightarrow> jsval \<Rightarrow> bool" where
  "isVariantEntry nfkc e =
     (isRecord e \<and> isBookRecord (getProp e ''variant'') \<and>
      (let b = bookOf (getProp e ''variant'') in
       case bookObjectPath nfkc (br_id b) (br_format b) (br_fileName b) of
         Inl _ \<Rightarrow> False | Inr path \<Rightarrow> getProp e ''objectPath'' = JStr path) \<and>
      isClock (getProp e ''clock''))"

definition isRemovedVariantEntry :: "jsval \<Rightarrow> bool" where
  "isRemovedVariantEntry e =
     (isRecord e \<and> isVariantId (getProp e ''variantId'') \<and>
      (getProp e ''format'' = JStr ''epub'' \<or> getProp e ''format'' = JStr ''pdf'') \<and> isClock (getProp e ''clock''))"

definition isPreferenceEntry :: "jsval \<Rightarrow> bool" where
  "isPreferenceEntry e =
     (isRecord e \<and> isLogicalBookId (getProp e ''logicalBookId'') \<and>
      (getProp e ''preference'' = JNull \<or>
       (isLogicalBookFormatPreference (getProp e ''preference'') \<and>
        getProp (getProp e ''preference'') ''logicalBookId'' = getProp e ''logicalBookId'')) \<and>
      isClock (getProp e ''clock''))"

definition isReconciliationEntry :: "jsval \<Rightarrow> bool" where
  "isReconciliationEntry e =
     (isRecord e \<and> isMembershipReconciliation (getProp e ''reconciliation'') \<and> isClock (getProp e ''clock''))"

definition bookEntryId :: "jsval \<Rightarrow> jsval" where
  "bookEntryId e = getProp (getProp e ''book'') ''id''"

definition variantEntryId :: "jsval \<Rightarrow> jsval" where
  "variantEntryId e = getProp (getProp e ''variant'') ''id''"

text \<open>\<open>`${format}:${id}`\<close> for every entry of \<open>variants\<close> of the books, in order.\<close>

definition membershipKeys :: "jsval list \<Rightarrow> (string \<times> jsval) list" where
  "membershipKeys books = concat (map (\<lambda>e. case getProp (getProp e ''book'') ''variants'' of
     JObj kvs \<Rightarrow> kvs | _ \<Rightarrow> []) books)"

definition membershipsOk :: "jsval list \<Rightarrow> jsval list \<Rightarrow> bool" where
  "membershipsOk books variants =
     (let seen = map (\<lambda>(format, id). format @ '':'' @ toStringJ id) (membershipKeys books) in
      (\<forall>(format, id) \<in> set (membershipKeys books). \<exists>e \<in> set variants.
         variantEntryId e = id \<and> getProp (getProp e ''variant'') ''format'' = JStr format) \<and>
      distinct seen \<and>
      (\<forall>e \<in> set variants. toStringJ (getProp (getProp e ''variant'') ''format'') @ '':'' @ toStringJ (variantEntryId e) \<in> set seen))"

definition isLogicalBookStateDocument :: "(string \<Rightarrow> string) \<Rightarrow> (string \<Rightarrow> string \<Rightarrow> int) \<Rightarrow> jsval \<Rightarrow> bool" where
  "isLogicalBookStateDocument nfkc localeCompare v =
     (if \<not> isRecord v \<or> getProp v ''schemaVersion'' \<noteq> JInt 1 then False
      else case (getProp v ''heads'', getProp v ''books'', getProp v ''removedBooks'', getProp v ''variants'',
                 getProp v ''removedVariants'', getProp v ''preferences'', getProp v ''reconciliations'') of
        (JArr heads, JArr books, JArr removedBooks, JArr variants, JArr removedVariants, JArr preferences,
         JArr reconciliations) \<Rightarrow>
          length books + length removedBooks + length variants + length removedVariants + length preferences +
            length reconciliations \<le> LOGICAL_BOOK_STATE_MAX_RECORDS \<and>
          isSortedUniqueStrings heads (matchesOpaque 255) \<and>
          (\<forall>e \<in> set books. isBookEntry e) \<and> uniqueBy books bookEntryId \<and>
          (\<forall>e \<in> set removedBooks. isRemovedBookEntry e) \<and> uniqueBy removedBooks (\<lambda>e. getProp e ''logicalBookId'') \<and>
          (\<forall>e \<in> set variants. isVariantEntry nfkc e) \<and> uniqueBy variants variantEntryId \<and>
          (\<forall>e \<in> set removedVariants. isRemovedVariantEntry e) \<and> uniqueBy removedVariants (\<lambda>e. getProp e ''variantId'') \<and>
          (\<forall>e \<in> set preferences. isPreferenceEntry e) \<and> uniqueBy preferences (\<lambda>e. getProp e ''logicalBookId'') \<and>
          (\<forall>e \<in> set reconciliations. isReconciliationEntry e) \<and>
          uniqueBy reconciliations (\<lambda>e. getProp (getProp e ''reconciliation'') ''conflictId'') \<and>
          \<not> tombstoneCovers localeCompare bookEntryId books (\<lambda>e. getProp e ''logicalBookId'') removedBooks \<and>
          \<not> tombstoneCovers localeCompare variantEntryId variants (\<lambda>e. getProp e ''variantId'') removedVariants \<and>
          membershipsOk books variants \<and>
          (let clocks = map (\<lambda>e. getProp (getProp e ''clock'') ''changeId'')
             (books @ removedBooks @ variants @ removedVariants @ preferences @ reconciliations)
           in stringify (JArr heads) =
              stringify (JArr (jsSort (\<lambda>a b. codeUnitCompare (toStringJ a) (toStringJ b)) (jsUnique clocks))))
      | _ \<Rightarrow> False)"

section \<open>Merging changes into a state\<close>

text \<open>The loop that checks the changes; the map keeps the text and the change it was printed from.\<close>

fun checkIdentities ::
  "(string \<Rightarrow> string) \<Rightarrow> (string \<Rightarrow> string \<Rightarrow> int) \<Rightarrow> (string, string \<times> LogicalBookChange) jsMap \<Rightarrow>
     LogicalBookChange list \<Rightarrow> LogicalChangeError + (string, string \<times> LogicalBookChange) jsMap" where
  "checkIdentities nfkc localeCompare identities [] = Inr identities"
| "checkIdentities nfkc localeCompare identities (change # rest) =
     andThen (serializeLogicalBookChange nfkc localeCompare change) (\<lambda>identity.
       case map_of identities (chg_changeId change) of
         Some (current, _) \<Rightarrow>
           if current \<noteq> identity then Inl ConflictingChanges
           else checkIdentities nfkc localeCompare (mapSet (chg_changeId change) (identity, change) identities) rest
       | None \<Rightarrow> checkIdentities nfkc localeCompare (mapSet (chg_changeId change) (identity, change) identities) rest)"

fun reparseAll ::
  "(string \<Rightarrow> string) \<Rightarrow> (string \<Rightarrow> string \<Rightarrow> int) \<Rightarrow> LogicalBookChange list \<Rightarrow> LogicalChangeError + LogicalBookChange list"
where
  "reparseAll nfkc localeCompare [] = Inr []"
| "reparseAll nfkc localeCompare (c # cs) =
     andThen (reparseLogicalBookChange nfkc localeCompare c) (\<lambda>d.
       andThen (reparseAll nfkc localeCompare cs) (\<lambda>ds. Inr (d # ds)))"

definition mergeLogicalBookChangesIntoState ::
  "((LogicalBookChange \<Rightarrow> LogicalBookChange \<Rightarrow> int) \<Rightarrow> LogicalBookChange list \<Rightarrow> LogicalBookChange list) \<Rightarrow>
   (string \<Rightarrow> string) \<Rightarrow> (string \<Rightarrow> string \<Rightarrow> int) \<Rightarrow> LogicalBookStateDocument \<Rightarrow> LogicalBookChange list \<Rightarrow>
     LogicalChangeError + LogicalBookStateDocument" where
  "mergeLogicalBookChangesIntoState sortBy nfkc localeCompare initial changes =
     andThen (checkIdentities nfkc localeCompare [] changes) (\<lambda>identities.
     andThen (reparseAll nfkc localeCompare (map snd (mapValues identities))) (\<lambda>parsedChanges.
       let changesById = mapBy chg_changeId parsedChanges in
       Inr (canonicalizeLogicalBookState localeCompare
         (foldl (applyChange nfkc localeCompare changesById) (canonicalizeLogicalBookState localeCompare initial)
           (orderChanges sortBy localeCompare parsedChanges)))))"

datatype LogicalStateError = StateInvalid | StateTooLarge

text \<open>The UTF-8 length of a text: characters from 128 on take two bytes.\<close>

definition byteLength :: "string \<Rightarrow> nat" where
  "byteLength s = sum_list (map (\<lambda>c. if (of_char c :: int) < 128 then 1 else 2) s)"

definition serializeLogicalBookState ::
  "(string \<Rightarrow> string) \<Rightarrow> (string \<Rightarrow> string \<Rightarrow> int) \<Rightarrow> LogicalBookStateDocument \<Rightarrow> LogicalStateError + string" where
  "serializeLogicalBookState nfkc localeCompare state =
     (let canonical = canonicalizeLogicalBookState localeCompare state in
      if \<not> isLogicalBookStateDocument nfkc localeCompare (stateVal canonical) then Inl StateInvalid
      else let content = prettyAt 0 (stateVal canonical) @ [CHR 0x0A] in
        if byteLength content > LOGICAL_BOOK_STATE_MAX_BYTES then Inl StateTooLarge else Inr content)"

definition logicalBookStateView ::
  "LogicalBookStateDocument \<Rightarrow>
     LogicalBookRecord list \<times> LogicalBookFormatPreference list \<times> MembershipReconciliation list" where
  "logicalBookStateView state =
     (map be_book (sd_books state),
      concat (map (\<lambda>e. case pr_preference e of Some p \<Rightarrow> [p] | None \<Rightarrow> []) (sd_preferences state)),
      map rc_reconciliation (sd_reconciliations state))"

end
