(* ===== verification/Logical_Invariant.thy ===== *)
theory Logical_Invariant
  imports Logical_State
begin

text \<open>
  What every merge of changes keeps of the state of logical books, whatever the changes, their clocks
  and the order the engine sorts them in: no entry is both active and deleted, no publication belongs to
  two books, and only publications of active books are kept.
\<close>

section \<open>The invariant\<close>

abbreviation bookKey :: "BookEntry \<Rightarrow> string" where
  "bookKey e \<equiv> lb_id (be_book e)"

abbreviation variantKey :: "VariantEntry \<Rightarrow> string" where
  "variantKey e \<equiv> br_id (ve_variant e)"

abbreviation reconciliationKey :: "ReconciliationEntry \<Rightarrow> string" where
  "reconciliationKey e \<equiv> mr_conflictId (rc_reconciliation e)"

definition exclusive :: "LogicalBookRecord set \<Rightarrow> bool" where
  "exclusive books \<longleftrightarrow> (\<forall>a \<in> books. \<forall>b \<in> books. lb_id a \<noteq> lb_id b \<longrightarrow>
     (\<forall>format variantId. map_of (lb_variants a) format = Some variantId \<longrightarrow>
       map_of (lb_variants b) format \<noteq> Some variantId))"

definition stateInv :: "LogicalBookStateDocument \<Rightarrow> bool" where
  "stateInv s \<longleftrightarrow>
     distinct (map bookKey (sd_books s)) \<and>
     distinct (map rb_logicalBookId (sd_removedBooks s)) \<and>
     distinct (map variantKey (sd_variants s)) \<and>
     distinct (map rv_variantId (sd_removedVariants s)) \<and>
     distinct (map pr_logicalBookId (sd_preferences s)) \<and>
     distinct (map reconciliationKey (sd_reconciliations s)) \<and>
     bookKey ` set (sd_books s) \<inter> rb_logicalBookId ` set (sd_removedBooks s) = {} \<and>
     variantKey ` set (sd_variants s) \<inter> rv_variantId ` set (sd_removedVariants s) = {} \<and>
     exclusive (be_book ` set (sd_books s)) \<and>
     variantKey ` set (sd_variants s) \<subseteq> (\<Union>e \<in> set (sd_books s). set (bookVariantIds (be_book e)))"

section \<open>Books and their tombstones\<close>

definition booksInv :: "BookMap \<Rightarrow> RemovedBookMap \<Rightarrow> bool" where
  "booksInv B R \<longleftrightarrow> keyed bookKey B \<and> keyed rb_logicalBookId R \<and> fst ` set B \<inter> fst ` set R = {} \<and>
     exclusive (be_book ` set (mapValues B))"

lemma exclusive_subset: "exclusive B \<Longrightarrow> A \<subseteq> B \<Longrightarrow> exclusive A"
  by (auto simp: exclusive_def)

lemma exclusive_insert:
  assumes "exclusive B"
    and "\<And>b f v. b \<in> B \<Longrightarrow> lb_id b \<noteq> lb_id p \<Longrightarrow> map_of (lb_variants p) f = Some v \<Longrightarrow> map_of (lb_variants b) f \<noteq> Some v"
  shows "exclusive (insert p B)"
  unfolding exclusive_def
proof (intro ballI impI allI)
  fix a b f v
  assume ab: "a \<in> insert p B" "b \<in> insert p B" "lb_id a \<noteq> lb_id b" and a: "map_of (lb_variants a) f = Some v"
  consider "a = p" "b \<in> B" | "b = p" "a \<in> B" | "a \<in> B" "b \<in> B" using ab by blast
  then show "map_of (lb_variants b) f \<noteq> Some v"
  proof cases
    case 1
    then show ?thesis using assms(2) ab(3) a by metis
  next
    case 2
    then show ?thesis using assms(2) ab(3) a by metis
  next
    case 3
    then show ?thesis using assms(1) ab(3) a unfolding exclusive_def by metis
  qed
qed

lemma booksInv_remove:
  assumes "booksInv B R"
  shows "booksInv (mapDelete i B) (mapSet i \<lparr>rb_logicalBookId = i, rb_clock = c\<rparr> R)"
proof -
  have "exclusive (be_book ` set (mapValues (mapDelete i B)))"
    by (rule exclusive_subset [OF _ image_mono [OF values_mapDelete]]) (use assms in \<open>simp add: booksInv_def\<close>)
  moreover have "(fst ` set B - {i}) \<inter> insert i (fst ` set R) = {}"
    using assms unfolding booksInv_def by blast
  ultimately show ?thesis
    using assms by (simp add: booksInv_def keyed_mapDelete keyed_mapSet keys_mapDelete keys_mapSet)
qed

lemma booksInv_propose:
  assumes "booksInv B R" and "membershipConflicts p (map be_book (mapValues B)) = []"
  shows "booksInv (mapSet (lb_id p) \<lparr>be_book = p, be_clock = c\<rparr> B) (mapDelete (lb_id p) R)"
proof -
  have none: "map_of (lb_variants b) f \<noteq> Some v"
    if "b \<in> be_book ` set (mapValues B)" "lb_id b \<noteq> lb_id p" "map_of (lb_variants p) f = Some v" for b f v
    using membershipConflicts_none [OF assms(2) _ that(2,3)] that(1) by simp
  have "exclusive (insert p (be_book ` set (mapValues B)))"
    using assms(1) none unfolding booksInv_def by (blast intro: exclusive_insert)
  moreover have "be_book ` set (mapValues (mapSet (lb_id p) \<lparr>be_book = p, be_clock = c\<rparr> B)) \<subseteq>
      insert p (be_book ` set (mapValues B))"
    using values_mapSet [of "lb_id p" "\<lparr>be_book = p, be_clock = c\<rparr>" B] by auto
  ultimately have "exclusive (be_book ` set (mapValues (mapSet (lb_id p) \<lparr>be_book = p, be_clock = c\<rparr> B)))"
    by (rule exclusive_subset)
  moreover have "insert (lb_id p) (fst ` set B) \<inter> (fst ` set R - {lb_id p}) = {}"
    using assms unfolding booksInv_def by blast
  ultimately show ?thesis
    using assms(1) by (simp add: booksInv_def keyed_mapDelete keyed_mapSet keys_mapDelete keys_mapSet)
qed

lemma booksInv_removeBooks:
  assumes "booksInv B R"
  shows "case removeBooks lc changes change B R of (B', R') \<Rightarrow> booksInv B' R'"
  unfolding removeBooks_def
  by (rule foldl_inv) (use assms booksInv_remove in \<open>auto simp: removeBook_def split: prod.splits\<close>)

lemma booksInv_proposeBooks:
  assumes "booksInv B' R'"
  shows "case proposeBooks lc changes change B R (B', R') of (B'', R'', competing) \<Rightarrow> booksInv B'' R''"
  unfolding proposeBooks_def
  by (rule foldl_inv) (use assms booksInv_propose in \<open>auto simp: proposeBook_def split: prod.splits\<close>)

section \<open>Publications and their tombstones\<close>

definition variantsInv :: "VariantMap \<times> RemovedVariantMap \<Rightarrow> bool" where
  "variantsInv VR \<longleftrightarrow> (case VR of (V, R) \<Rightarrow>
     keyed variantKey V \<and> keyed rv_variantId R \<and> fst ` set V \<inter> fst ` set R = {})"

lemma variantsInv_applyVariantEffects:
  "variantsInv start \<Longrightarrow> variantsInv (applyVariantEffects nfkc lc changes change active start)"
  unfolding applyVariantEffects_def Let_def
  by (rule foldl_inv, assumption)
    (auto simp: variantsInv_def effectVariantId_def keyed_mapDelete keyed_mapSet keys_mapDelete keys_mapSet
      split: prod.splits LogicalVariantEffect.splits if_splits)

section \<open>Preferences and reconciliations\<close>

lemma keyed_applyPreferences:
  "keyed pr_logicalBookId m \<Longrightarrow> keyed pr_logicalBookId (applyPreferences lc changes change m)"
  unfolding applyPreferences_def
  by (rule foldl_inv) (auto simp: applyPreference_def Let_def keyed_mapSet)

lemma keyed_recordConflict:
  "keyed reconciliationKey m \<Longrightarrow> keyed reconciliationKey (recordConflict lc changes change r m)"
  by (simp add: recordConflict_def keyed_mapSet)

lemma keyed_resolveConflict:
  assumes "keyed reconciliationKey m"
  shows "keyed reconciliationKey (resolveConflict lc changes clock m i)"
proof -
  have "reconciliationKey e = i" if "map_of m i = Some e" for e
    using assms that by (auto simp: keyed_def dest: map_of_SomeD)
  then show ?thesis
    using assms by (auto simp: resolveConflict_def keyed_mapSet split: option.splits)
qed

lemma keyed_resolveConflicts:
  "keyed reconciliationKey m \<Longrightarrow> keyed reconciliationKey (resolveConflicts lc changes change m)"
  unfolding resolveConflicts_def by (rule foldl_inv) (auto intro: keyed_resolveConflict)

section \<open>Every operation keeps the invariant\<close>

lemma keys_mapBy: "distinct (map key xs) \<Longrightarrow> fst ` set (mapBy key xs) = key ` set xs"
  by (simp add: mapBy_distinct image_image)

lemma stateInv_books:
  "stateInv s \<Longrightarrow> booksInv (mapBy bookKey (sd_books s)) (mapBy rb_logicalBookId (sd_removedBooks s))"
  by (simp add: stateInv_def booksInv_def keys_mapBy mapValues_mapBy)

lemma stateInv_variants:
  "stateInv s \<Longrightarrow> variantsInv (mapBy variantKey (sd_variants s), mapBy rv_variantId (sd_removedVariants s))"
  by (simp add: stateInv_def variantsInv_def keys_mapBy)

text \<open>A state assembled from maps that satisfy the parts satisfies the whole.\<close>

lemma keyed_keys: "keyed key m \<Longrightarrow> key ` set (mapValues m) = fst ` set m"
  using keyed_values [of key m] by (metis list.set_map)

lemma stateInv_assemble:
  assumes "booksInv B R" and "variantsInv (V, W)" and "keyed pr_logicalBookId P" and "keyed reconciliationKey C"
    and "fst ` set V \<subseteq> (\<Union>e \<in> set (mapValues B). set (bookVariantIds (be_book e)))"
  shows "stateInv \<lparr>sd_heads = H, sd_books = mapValues B, sd_removedBooks = mapValues R,
    sd_variants = mapValues V, sd_removedVariants = mapValues W, sd_preferences = mapValues P,
    sd_reconciliations = mapValues C\<rparr>"
  using assms
  by (simp add: stateInv_def booksInv_def variantsInv_def keyed_distinct keyed_keys)

lemma variantsInv_filter: "variantsInv (V, W) \<Longrightarrow> variantsInv (filter p V, W)"
  by (auto simp: variantsInv_def keyed_filter)

lemma stateInv_applyChange:
  assumes "stateInv s"
  shows "stateInv (applyChange nfkc lc changes s change)"
proof -
  let ?B = "mapBy bookKey (sd_books s)" and ?R = "mapBy rb_logicalBookId (sd_removedBooks s)"
  obtain B1 R1 where r: "removeBooks lc changes change ?B ?R = (B1, R1)"
    by fastforce
  obtain B2 R2 comp where p: "proposeBooks lc changes change ?B ?R (B1, R1) = (B2, R2, comp)"
    by (metis prod_cases3)
  define B where "B = (if comp = [] then B2 else ?B)"
  define R where "R = (if comp = [] then R2 else ?R)"
  define active where "active = concat (map (\<lambda>e. bookVariantIds (be_book e)) (mapValues B))"
  define P where "P = applyPreferences lc changes change (mapBy pr_logicalBookId (sd_preferences s))"
  define C where "C = resolveConflicts lc changes change
    (if comp = [] then mapBy reconciliationKey (sd_reconciliations s)
     else recordConflict lc changes change (membershipReconciliation lc change ?B comp)
       (mapBy reconciliationKey (sd_reconciliations s)))"
  obtain V W where v: "applyVariantEffects nfkc lc changes change active
      (mapBy variantKey (sd_variants s), mapBy rv_variantId (sd_removedVariants s)) = (V, W)"
    by fastforce
  have "booksInv B R"
    using stateInv_books [OF assms] booksInv_removeBooks [OF stateInv_books [OF assms], of lc changes change]
      booksInv_proposeBooks [of B1 R1 lc changes change ?B ?R]
    by (simp add: r p B_def R_def)
  moreover have "variantsInv (filter (\<lambda>(i, _). i \<in> set active) V, W)"
    using variantsInv_applyVariantEffects [OF stateInv_variants [OF assms], of nfkc lc changes change active]
    by (intro variantsInv_filter) (simp add: v)
  moreover have "keyed pr_logicalBookId P" by (simp add: P_def keyed_applyPreferences)
  moreover have "keyed reconciliationKey C"
    by (simp add: C_def keyed_resolveConflicts keyed_recordConflict)
  moreover have "fst ` set (filter (\<lambda>(i, _). i \<in> set active) V) \<subseteq>
      (\<Union>e \<in> set (mapValues B). set (bookVariantIds (be_book e)))"
    by (auto simp: active_def)
  ultimately have inv: "stateInv \<lparr>sd_heads = H, sd_books = mapValues B, sd_removedBooks = mapValues R,
      sd_variants = mapValues (filter (\<lambda>(i, _). i \<in> set active) V), sd_removedVariants = mapValues W,
      sd_preferences = mapValues P, sd_reconciliations = mapValues C\<rparr>" for H
    by (rule stateInv_assemble)
  show ?thesis
    unfolding applyChange_def Let_def r p prod.case
    unfolding B_def [symmetric] R_def [symmetric] active_def [symmetric] P_def [symmetric] C_def [symmetric]
    unfolding v prod.case by (simp add: inv del: set_concat set_map)
qed

lemma stateInv_canonicalize: "stateInv s \<Longrightarrow> stateInv (canonicalizeLogicalBookState lc s)"
  by (simp add: stateInv_def canonicalizeLogicalBookState_def Let_def)

lemma stateInv_foldl:
  "stateInv s \<Longrightarrow> stateInv (foldl (applyChange nfkc lc changes) s cs)"
  by (rule foldl_inv) (auto intro: stateInv_applyChange)

lemma stateInv_empty: "stateInv emptyLogicalBookState"
  by (simp add: stateInv_def emptyLogicalBookState_def exclusive_def)

section \<open>Merging succeeds on valid changes\<close>

text \<open>Changes that may be merged together: each passes the guard, and equal identifiers mean equal documents.\<close>

definition mergeable :: "(string \<Rightarrow> string) \<Rightarrow> (string \<Rightarrow> string \<Rightarrow> int) \<Rightarrow> LogicalBookChange set \<Rightarrow> bool" where
  "mergeable nfkc lc U \<longleftrightarrow>
     (\<forall>c \<in> U. isSynchronizedLogicalBookChange nfkc (changeVal c)) \<and>
     (\<forall>c \<in> U. \<forall>d \<in> U. chg_changeId c = chg_changeId d \<longrightarrow>
        serializeLogicalBookChange nfkc lc c = serializeLogicalBookChange nfkc lc d)"

definition identitiesOk ::
  "(string \<Rightarrow> string) \<Rightarrow> (string \<Rightarrow> string \<Rightarrow> int) \<Rightarrow> LogicalBookChange set \<Rightarrow>
     (string, string \<times> LogicalBookChange) jsMap \<Rightarrow> bool" where
  "identitiesOk nfkc lc U m \<longleftrightarrow> (\<forall>(i, t, c) \<in> set m.
     c \<in> U \<and> chg_changeId c = i \<and> serializeLogicalBookChange nfkc lc c = Inr t)"

lemma checkIdentities_total:
  assumes "mergeable nfkc lc U"
  shows "set cs \<subseteq> U \<Longrightarrow> identitiesOk nfkc lc U m \<Longrightarrow>
    \<exists>m'. checkIdentities nfkc lc m cs = Inr m' \<and> identitiesOk nfkc lc U m'"
proof (induction cs arbitrary: m)
  case (Cons c cs)
  have c: "c \<in> U" using Cons.prems(1) by simp
  then obtain t where t: "serializeLogicalBookChange nfkc lc c = Inr t"
    using assms unfolding mergeable_def serializeLogicalBookChange_def by auto
  have ok: "identitiesOk nfkc lc U (mapSet (chg_changeId c) (t, c) m)"
    using Cons.prems(2) set_mapSet_subset [of "chg_changeId c" "(t, c)" m] c t
    unfolding identitiesOk_def by blast
  have same: "t' = t" if "map_of m (chg_changeId c) = Some (t', d)" for t' d
  proof -
    have "d \<in> U" "chg_changeId d = chg_changeId c" "serializeLogicalBookChange nfkc lc d = Inr t'"
      using map_of_SomeD [OF that] Cons.prems(2) unfolding identitiesOk_def by auto
    then show ?thesis using assms c t unfolding mergeable_def by (metis Inr_inject)
  qed
  show ?case
    using Cons.IH [OF _ ok] Cons.prems(1) same by (auto simp: t split: option.splits)
qed simp

lemma reparseAll_total:
  assumes "\<forall>c \<in> set cs. isSynchronizedLogicalBookChange nfkc (changeVal c)"
  shows "reparseAll nfkc lc cs = Inr (map (canonicalChange lc) cs)"
  using assms by (induction cs) (simp_all add: reparseLogicalBookChange_def isSynchronized_canonical)

lemma merge_total:
  assumes "mergeable nfkc lc (set changes)"
  shows "\<exists>s. mergeLogicalBookChangesIntoState sortBy nfkc lc initial changes = Inr s"
proof -
  obtain m where m: "checkIdentities nfkc lc [] changes = Inr m" "identitiesOk nfkc lc (set changes) m"
    using checkIdentities_total [OF assms, of changes "[]"] by (auto simp: identitiesOk_def)
  have "\<forall>c \<in> set (map snd (mapValues m)). isSynchronizedLogicalBookChange nfkc (changeVal c)"
  proof
    fix c assume "c \<in> set (map snd (mapValues m))"
    then obtain i t where "(i, t, c) \<in> set m" by (auto simp: mapValues_def)
    then have "c \<in> set changes" using m(2) unfolding identitiesOk_def by blast
    then show "isSynchronizedLogicalBookChange nfkc (changeVal c)" using assms by (simp add: mergeable_def)
  qed
  from reparseAll_total [OF this] show ?thesis
    by (simp add: mergeLogicalBookChangesIntoState_def m(1) Let_def)
qed

text \<open>The value of a merge of changes with distinct identifiers.\<close>

definition mergedState ::
  "((LogicalBookChange \<Rightarrow> LogicalBookChange \<Rightarrow> int) \<Rightarrow> LogicalBookChange list \<Rightarrow> LogicalBookChange list) \<Rightarrow>
   (string \<Rightarrow> string) \<Rightarrow> (string \<Rightarrow> string \<Rightarrow> int) \<Rightarrow> LogicalBookStateDocument \<Rightarrow> LogicalBookChange list \<Rightarrow>
     LogicalBookStateDocument" where
  "mergedState sortBy nfkc lc initial changes =
     (let parsed = map (canonicalChange lc) changes in
      canonicalizeLogicalBookState lc (foldl (applyChange nfkc lc (mapBy chg_changeId parsed))
        (canonicalizeLogicalBookState lc initial) (orderChanges sortBy lc parsed)))"

lemma checkIdentities_distinct:
  "\<forall>c \<in> set cs. isSynchronizedLogicalBookChange nfkc (changeVal c) \<Longrightarrow> distinct (map chg_changeId cs) \<Longrightarrow>
   fst ` set m \<inter> chg_changeId ` set cs = {} \<Longrightarrow>
   checkIdentities nfkc lc m cs =
     Inr (m @ map (\<lambda>c. (chg_changeId c, projr (serializeLogicalBookChange nfkc lc c), c)) cs)"
proof (induction cs arbitrary: m)
  case (Cons c cs)
  obtain t where t: "serializeLogicalBookChange nfkc lc c = Inr t"
    using Cons.prems(1) by (simp add: serializeLogicalBookChange_def)
  have new: "chg_changeId c \<notin> fst ` set m" using Cons.prems(3) by auto
  have IH: "checkIdentities nfkc lc (m @ [(chg_changeId c, t, c)]) cs =
      Inr ((m @ [(chg_changeId c, t, c)]) @ map (\<lambda>c. (chg_changeId c, projr (serializeLogicalBookChange nfkc lc c), c)) cs)"
    by (rule Cons.IH) (use Cons.prems in auto)
  show ?case
    using IH new by (simp add: t mapSet_fresh map_of_eq_None_iff [THEN iffD2])
qed simp

lemma merge_distinct:
  assumes "\<forall>c \<in> set cs. isSynchronizedLogicalBookChange nfkc (changeVal c)" and "distinct (map chg_changeId cs)"
  shows "mergeLogicalBookChangesIntoState sortBy nfkc lc initial cs = Inr (mergedState sortBy nfkc lc initial cs)"
  using checkIdentities_distinct [OF assms, of "[]" lc] reparseAll_total [OF assms(1), of lc]
  by (simp add: mergeLogicalBookChangesIntoState_def mergedState_def Let_def mapValues_def comp_def)

lemma merge_stateInv:
  assumes "stateInv initial"
    and "mergeLogicalBookChangesIntoState sortBy nfkc lc initial changes = Inr s"
  shows "stateInv s"
proof -
  obtain m cs where "checkIdentities nfkc lc [] changes = Inr m" "reparseAll nfkc lc (map snd (mapValues m)) = Inr cs"
    using assms(2) unfolding mergeLogicalBookChangesIntoState_def andThen_Inr_iff by blast
  then have "s = canonicalizeLogicalBookState lc (foldl (applyChange nfkc lc (mapBy chg_changeId cs))
      (canonicalizeLogicalBookState lc initial) (orderChanges sortBy lc cs))"
    using assms(2) by (simp add: mergeLogicalBookChangesIntoState_def Let_def)
  then show ?thesis using assms(1) by (simp add: stateInv_canonicalize stateInv_foldl)
qed


lemma mergeable_sample: "mergeable id codeUnitCompare (set [sampleChange])"
  using isSynchronized_sample by (simp add: mergeable_def)


end
