(* ===== verification/Logical_Replay.thy ===== *)
theory Logical_Replay
  imports Logical_Invariant
begin

text \<open>
  Delivering a change again. A device keeps a change in its journal until the merged state is verified,
  so a change can reach a state that has already absorbed it. Applying it once more changes neither
  the books, nor the deleted books, nor the preferences, nor the reconciliations.
\<close>

section \<open>A change never wins against itself\<close>

lemma clockWins_self [simp]: "\<not> clockWins lc changes c (Some c)"
  by (simp add: clockWins_def)

lemma tombstoneClockWins_self [simp]: "\<not> tombstoneClockWins lc changes c (Some c) x y"
  by (simp add: tombstoneClockWins_def)

section \<open>Books\<close>

text \<open>An entry that the change has written, as a book or as a tombstone.\<close>

definition settled :: "LogicalBookStateClock \<Rightarrow> BookMap \<Rightarrow> RemovedBookMap \<Rightarrow> string \<Rightarrow> bool" where
  "settled c B R k \<longleftrightarrow> map_option be_clock (map_of B k) = Some c \<or> map_option rb_clock (map_of R k) = Some c"

definition sameEntry :: "BookMap \<Rightarrow> RemovedBookMap \<Rightarrow> BookMap \<Rightarrow> RemovedBookMap \<Rightarrow> string \<Rightarrow> bool" where
  "sameEntry B R B' R' k \<longleftrightarrow> map_of B' k = map_of B k \<and> map_of R' k = map_of R k"

definition progressed :: "LogicalBookStateClock \<Rightarrow> BookMap \<Rightarrow> RemovedBookMap \<Rightarrow> BookMap \<Rightarrow> RemovedBookMap \<Rightarrow> bool" where
  "progressed c B R B' R' \<longleftrightarrow> (\<forall>k. sameEntry B R B' R' k \<or> settled c B' R' k)"

abbreviation removalLoses where
  "removalLoses lc changes c B R i \<equiv>
     \<not> tombstoneClockWins lc changes c (map_option be_clock (map_of B i)) True False \<or>
     \<not> clockWins lc changes c (map_option rb_clock (map_of R i))"

abbreviation proposalLoses where
  "proposalLoses lc changes c B R i \<equiv>
     \<not> clockWins lc changes c (map_option be_clock (map_of B i)) \<or>
     \<not> tombstoneClockWins lc changes c (map_option rb_clock (map_of R i)) False True"

lemma settled_loses:
  "settled c B R i \<Longrightarrow> removalLoses lc changes c B R i"
  "settled c B R i \<Longrightarrow> proposalLoses lc changes c B R i"
  by (auto simp: settled_def)

lemma settled_remove:
  "settled c (mapDelete i B) (mapSet i \<lparr>rb_logicalBookId = i, rb_clock = c\<rparr> R) k \<longleftrightarrow> k = i \<or> settled c B R k"
  by (auto simp: settled_def mapGet_mapSet mapGet_mapDelete)

lemma settled_propose:
  "settled c (mapSet i \<lparr>be_book = p, be_clock = c\<rparr> B) (mapDelete i R) k \<longleftrightarrow> k = i \<or> settled c B R k"
  by (auto simp: settled_def mapGet_mapSet mapGet_mapDelete)

lemma progressed_remove:
  "progressed c B R B' R' \<Longrightarrow> progressed c B R (mapDelete i B') (mapSet i \<lparr>rb_logicalBookId = i, rb_clock = c\<rparr> R')"
  unfolding progressed_def settled_remove by (auto simp: sameEntry_def mapGet_mapSet mapGet_mapDelete)

lemma progressed_propose:
  "progressed c B R B' R' \<Longrightarrow> progressed c B R (mapSet i \<lparr>be_book = p, be_clock = c\<rparr> B') (mapDelete i R')"
  unfolding progressed_def settled_propose by (auto simp: sameEntry_def mapGet_mapSet mapGet_mapDelete)

text \<open>After the first loop every removal is written or has lost.\<close>

lemma removeBook_loop:
  "progressed c B R (fst S) (snd S) \<Longrightarrow> foldl (removeBook lc changes c B R) S ids = S' \<Longrightarrow>
   progressed c B R (fst S') (snd S') \<and>
   (\<forall>k. settled c (fst S) (snd S) k \<longrightarrow> settled c (fst S') (snd S') k) \<and>
   (\<forall>i \<in> set ids. settled c (fst S') (snd S') i \<or> removalLoses lc changes c B R i)"
proof (induction ids arbitrary: S)
  case (Cons i ids)
  let ?T = "removeBook lc changes c B R S i"
  have T: "progressed c B R (fst ?T) (snd ?T)" "settled c (fst ?T) (snd ?T) i \<or> removalLoses lc changes c B R i"
    "\<And>k. settled c (fst S) (snd S) k \<Longrightarrow> settled c (fst ?T) (snd ?T) k"
    using Cons.prems(1) by (simp_all add: removeBook_def progressed_remove settled_remove)
  show ?case using Cons.IH [OF T(1)] Cons.prems(2) T(2,3) by simp blast
qed simp

text \<open>After the second loop every proposal is written or has lost, unless some proposal competes.\<close>

lemma proposeBook_loop:
  "progressed c B R B1 R1 \<Longrightarrow> foldl (proposeBook lc changes c B R) (B1, R1, rivals) ps = (B', R', []) \<Longrightarrow>
   rivals = [] \<and> progressed c B R B' R' \<and> (\<forall>k. settled c B1 R1 k \<longrightarrow> settled c B' R' k) \<and>
   (\<forall>p \<in> set ps. settled c B' R' (lb_id p) \<or> proposalLoses lc changes c B R (lb_id p))"
proof (induction ps arbitrary: B1 R1 rivals)
  case (Cons p ps)
  obtain B2 R2 rivals2 where T: "proposeBook lc changes c B R (B1, R1, rivals) p = (B2, R2, rivals2)"
    by (metis prod_cases3)
  have pr: "progressed c B R B2 R2" and mono: "\<And>k. settled c B1 R1 k \<Longrightarrow> settled c B2 R2 k"
    using T Cons.prems(1) by (auto simp: proposeBook_def progressed_propose settled_propose split: if_splits)
  have hit: "rivals2 = [] \<Longrightarrow> rivals = [] \<and> (settled c B2 R2 (lb_id p) \<or> proposalLoses lc changes c B R (lb_id p))"
    using T by (auto simp: proposeBook_def settled_propose split: if_splits)
  show ?case
    using Cons.IH [OF pr, of rivals2] Cons.prems(2) hit mono by (simp add: T) blast
qed simp

lemma replay_entry:
  assumes "progressed c B R B' R'"
  shows "settled c B' R' i \<or> removalLoses lc changes c B R i \<Longrightarrow> removalLoses lc changes c B' R' i"
    and "settled c B' R' i \<or> proposalLoses lc changes c B R i \<Longrightarrow> proposalLoses lc changes c B' R' i"
  using assms settled_loses [of c B' R' i lc changes] unfolding progressed_def sameEntry_def by metis+

lemma replay_books:
  assumes "proposeBooks lc changes change B R (removeBooks lc changes change B R) = (B', R', [])"
  shows "removeBooks lc changes change B' R' = (B', R') \<and>
    proposeBooks lc changes change B' R' (B', R') = (B', R', [])"
proof -
  let ?c = "clockOf change"
  let ?S = "removeBooks lc changes change B R"
  have start: "progressed ?c B R B R" by (simp add: progressed_def sameEntry_def)
  have r: "progressed ?c B R (fst ?S) (snd ?S)"
    "\<forall>i \<in> set (chg_removedLogicalBookIds change). settled ?c (fst ?S) (snd ?S) i \<or> removalLoses lc changes ?c B R i"
    using removeBook_loop [of ?c B R "(B, R)" lc changes "chg_removedLogicalBookIds change"] start
    by (simp_all add: removeBooks_def)
  have p: "progressed ?c B R B' R'" "\<And>k. settled ?c (fst ?S) (snd ?S) k \<Longrightarrow> settled ?c B' R' k"
    "\<forall>p \<in> set (chg_resultingBooks change). settled ?c B' R' (lb_id p) \<or> proposalLoses lc changes ?c B R (lb_id p)"
    using proposeBook_loop [OF r(1), of lc changes "[]" "chg_resultingBooks change"] assms
    by (simp_all add: proposeBooks_def)
  have "removalLoses lc changes ?c B' R' i" if "i \<in> set (chg_removedLogicalBookIds change)" for i
    using replay_entry(1) [OF p(1)] r(2) p(2) that by blast
  moreover have "proposalLoses lc changes ?c B' R' (lb_id q)" if "q \<in> set (chg_resultingBooks change)" for q
    using replay_entry(2) [OF p(1)] p(3) that by blast
  ultimately show ?thesis
    unfolding removeBooks_def proposeBooks_def
    by (intro conjI foldl_fix) (auto simp: removeBook_def proposeBook_def intro!: foldl_fix)
qed

section \<open>Preferences and reconciliations\<close>

text \<open>A map in which every entry is as before or written by the change.\<close>

definition rewritten :: "('v \<Rightarrow> LogicalBookStateClock) \<Rightarrow> LogicalBookStateClock \<Rightarrow> (string, 'v) jsMap \<Rightarrow> (string, 'v) jsMap \<Rightarrow> bool" where
  "rewritten clk c m m' \<longleftrightarrow> (\<forall>k. map_of m' k = map_of m k \<or> map_option clk (map_of m' k) = Some c)"

lemma rewritten_refl [simp]: "rewritten clk c m m"
  by (simp add: rewritten_def)

lemma rewritten_mapSet: "rewritten clk c m m' \<Longrightarrow> clk v = c \<Longrightarrow> rewritten clk c m (mapSet k v m')"
  by (auto simp: rewritten_def mapGet_mapSet)

lemma rewritten_trans: "rewritten clk c m m' \<Longrightarrow> rewritten clk c m' m'' \<Longrightarrow> rewritten clk c m m''"
  unfolding rewritten_def by metis

lemma rewritten_keeps:
  "rewritten clk c m m' \<Longrightarrow> map_option clk (map_of m k) = Some c \<Longrightarrow> map_option clk (map_of m' k) = Some c"
  unfolding rewritten_def by metis

lemma mapSet_self: "mapSet k v m = m \<Longrightarrow> map_option f (map_of m k) = Some (f v)"
  by (metis mapGet_mapSet option.map(2))

text \<open>A loop of steps that each write their key or lose, and depend on the entry of their key alone, has
  no effect the second time.\<close>

lemma foldl_replay:
  assumes step: "\<And>m x. x \<in> set xs \<Longrightarrow> rewritten clk c m (f m x) \<and>
      (map_option clk (map_of (f m x) (key x)) = Some c \<or> f m x = m)"
    and onKey: "\<And>m m' x. x \<in> set xs \<Longrightarrow> map_of m' (key x) = map_of m (key x) \<Longrightarrow>
      map_option clk (map_of m (key x)) \<noteq> Some c \<Longrightarrow> f m x = m \<Longrightarrow> f m' x = m'"
    and wrote: "\<And>m x. x \<in> set xs \<Longrightarrow> map_option clk (map_of m (key x)) = Some c \<Longrightarrow> f m x = m"
  shows "rewritten clk c m (foldl f m xs) \<and> foldl f (foldl f m xs) xs = foldl f m xs"
proof -
  have loop: "rewritten clk c m (foldl f m ys) \<and> (\<forall>x \<in> set ys. f (foldl f m ys) x = foldl f m ys)"
    if "set ys \<subseteq> set xs" for ys
    using that
  proof (induction ys arbitrary: m)
    case (Cons y ys)
    let ?m = "f m y"
    have y: "y \<in> set xs" "set ys \<subseteq> set xs" using Cons.prems by auto
    have IH: "rewritten clk c ?m (foldl f ?m ys)" "\<forall>x \<in> set ys. f (foldl f ?m ys) x = foldl f ?m ys"
      using Cons.IH [OF y(2)] by blast+
    have fix_y: "f (foldl f ?m ys) y = foldl f ?m ys"
    proof (cases "map_option clk (map_of (foldl f ?m ys) (key y)) = Some c")
      case True
      then show ?thesis by (rule wrote [OF y(1)])
    next
      case False
      then have same: "map_of (foldl f ?m ys) (key y) = map_of ?m (key y)" using IH(1) unfolding rewritten_def by metis
      then have "f m y = m" using step [OF y(1), of m] False by metis
      then show ?thesis using onKey [OF y(1), of "foldl f ?m ys" m] same False by simp
    qed
    have "rewritten clk c m (foldl f ?m ys)"
      using rewritten_trans IH(1) step [OF y(1), of m] by blast
    then show ?case using IH(2) fix_y by simp
  qed simp
  show ?thesis using loop [of xs] foldl_fix [of xs f "foldl f m xs"] by blast
qed

lemma replay_preferences:
  "applyPreferences lc changes change (applyPreferences lc changes change m) = applyPreferences lc changes change m"
  unfolding applyPreferences_def
  by (rule foldl_replay [where clk = pr_clock and key = pe_logicalBookId and c = "clockOf change", THEN conjunct2])
    (auto simp: applyPreference_def Let_def rewritten_mapSet mapGet_mapSet dest!: mapSet_self [where f = pr_clock] split: if_splits)

lemma replay_resolves:
  "rewritten rc_clock (clockOf change) m (resolveConflicts lc changes change m) \<and>
   resolveConflicts lc changes change (resolveConflicts lc changes change m) = resolveConflicts lc changes change m"
  unfolding resolveConflicts_def
  by (rule foldl_replay [where key = id])
    (auto simp: resolveConflict_def rewritten_mapSet mapGet_mapSet dest!: mapSet_self [where f = rc_clock]
      split: if_splits option.splits)

lemma recordConflict_once:
  assumes "rewritten rc_clock (clockOf change) (recordConflict lc changes change r m) m'"
  shows "recordConflict lc changes change r m' = m'"
proof (cases "map_option rc_clock (map_of m' (mr_conflictId r)) = Some (clockOf change)")
  case True
  then show ?thesis by (auto simp: recordConflict_def)
next
  case False
  let ?k = "mr_conflictId r"
  have same: "map_of m' ?k = map_of (recordConflict lc changes change r m) ?k"
    using assms False unfolding rewritten_def by metis
  show ?thesis
    using same False by (auto simp: recordConflict_def mapGet_mapSet split: if_splits)
qed

section \<open>The whole change\<close>

lemma applyChange_books:
  assumes "proposeBooks lc changes change (mapBy bookKey (sd_books s)) (mapBy rb_logicalBookId (sd_removedBooks s))
      (removeBooks lc changes change (mapBy bookKey (sd_books s)) (mapBy rb_logicalBookId (sd_removedBooks s))) = (B, R, rivals)"
  shows "sd_books (applyChange nfkc lc changes s change) =
      mapValues (if rivals = [] then B else mapBy bookKey (sd_books s))"
    and "sd_removedBooks (applyChange nfkc lc changes s change) =
      mapValues (if rivals = [] then R else mapBy rb_logicalBookId (sd_removedBooks s))"
    and "sd_preferences (applyChange nfkc lc changes s change) =
      mapValues (applyPreferences lc changes change (mapBy pr_logicalBookId (sd_preferences s)))"
    and "sd_reconciliations (applyChange nfkc lc changes s change) =
      mapValues (resolveConflicts lc changes change (if rivals = [] then mapBy reconciliationKey (sd_reconciliations s)
        else recordConflict lc changes change (membershipReconciliation lc change (mapBy bookKey (sd_books s)) rivals)
          (mapBy reconciliationKey (sd_reconciliations s))))"
  using assms by (simp_all add: applyChange_def Let_def split_beta)

text \<open>C14. Delivering a change again right after it was merged changes nothing that a user sees: the books,
  the deleted books, the preferences and the reconciliations stay exactly as they are, whether the
  change was accepted, lost against newer entries or was recorded as a membership conflict.\<close>

theorem apply_change_idempotent:
  assumes "stateInv s"
  shows "let s' = applyChange nfkc lc changes s change; s'' = applyChange nfkc lc changes s' change in
    sd_books s'' = sd_books s' \<and> sd_removedBooks s'' = sd_removedBooks s' \<and>
    sd_preferences s'' = sd_preferences s' \<and> sd_reconciliations s'' = sd_reconciliations s' \<and>
    logicalBookStateView s'' = logicalBookStateView s'"
proof -
  let ?s = "applyChange nfkc lc changes s change"
  let ?B = "mapBy bookKey (sd_books s)" and ?R = "mapBy rb_logicalBookId (sd_removedBooks s)"
  let ?C = "mapBy reconciliationKey (sd_reconciliations s)"
  obtain B R rivals where run: "proposeBooks lc changes change ?B ?R (removeBooks lc changes change ?B ?R) = (B, R, rivals)"
    by (metis prod_cases3)
  note first = applyChange_books [OF run, of nfkc]
  have inv: "booksInv ?B ?R" by (rule stateInv_books [OF assms])
  obtain B1 R1 where rem: "removeBooks lc changes change ?B ?R = (B1, R1)" by fastforce
  then have "booksInv B1 R1" using booksInv_removeBooks [OF inv, of lc changes change] by simp
  from booksInv_proposeBooks [OF this, of lc changes change ?B ?R]
  have kB: "keyed bookKey B" "keyed rb_logicalBookId R"
    using run by (simp_all add: rem booksInv_def)
  have maps: "mapBy bookKey (sd_books ?s) = (if rivals = [] then B else ?B)"
    "mapBy rb_logicalBookId (sd_removedBooks ?s) = (if rivals = [] then R else ?R)"
    using kB inv by (simp_all add: first mapBy_values booksInv_def)
  have prefs: "mapBy pr_logicalBookId (sd_preferences ?s) = applyPreferences lc changes change (mapBy pr_logicalBookId (sd_preferences s))"
    by (simp add: first mapBy_values keyed_applyPreferences)
  define C1 where "C1 = (if rivals = [] then ?C
    else recordConflict lc changes change (membershipReconciliation lc change ?B rivals) ?C)"
  have recs: "mapBy reconciliationKey (sd_reconciliations ?s) = resolveConflicts lc changes change C1"
    by (simp add: first C1_def mapBy_values keyed_resolveConflicts keyed_recordConflict)
  have f4: "sd_reconciliations ?s = mapValues (resolveConflicts lc changes change C1)"
    by (simp only: first(4) C1_def)
  have again: "proposeBooks lc changes change (mapBy bookKey (sd_books ?s)) (mapBy rb_logicalBookId (sd_removedBooks ?s))
      (removeBooks lc changes change (mapBy bookKey (sd_books ?s)) (mapBy rb_logicalBookId (sd_removedBooks ?s))) =
      (B, R, rivals)"
    using run replay_books [of lc changes change ?B ?R B R] by (cases "rivals = []") (simp_all add: maps)
  note second = applyChange_books [OF again, of nfkc]
  have rec2: "resolveConflicts lc changes change (if rivals = [] then resolveConflicts lc changes change C1
      else recordConflict lc changes change (membershipReconciliation lc change ?B rivals)
        (resolveConflicts lc changes change C1)) = resolveConflicts lc changes change C1"
  proof (cases "rivals = []")
    case True
    then show ?thesis using replay_resolves by simp
  next
    case False
    then have "recordConflict lc changes change (membershipReconciliation lc change ?B rivals)
        (resolveConflicts lc changes change C1) = resolveConflicts lc changes change C1"
      by (intro recordConflict_once [where m = ?C]) (simp add: C1_def replay_resolves)
    then show ?thesis using False replay_resolves by simp
  qed
  have "sd_books (applyChange nfkc lc changes ?s change) = sd_books ?s"
    "sd_removedBooks (applyChange nfkc lc changes ?s change) = sd_removedBooks ?s"
    unfolding second(1,2) maps by (simp_all add: first)
  moreover have "sd_preferences (applyChange nfkc lc changes ?s change) = sd_preferences ?s"
    unfolding second(3) prefs replay_preferences by (simp add: first)
  moreover have "sd_reconciliations (applyChange nfkc lc changes ?s change) = sd_reconciliations ?s"
    unfolding second(4) recs maps unfolding f4 using rec2 by (cases "rivals = []") simp_all
  ultimately show ?thesis by (simp add: Let_def logicalBookStateView_def)
qed

theorem apply_change_idempotent_witness:
  "let s' = applyChange id codeUnitCompare [] emptyLogicalBookState sampleChange in
   logicalBookStateView (applyChange id codeUnitCompare [] s' sampleChange) = logicalBookStateView s' \<and>
   length (sd_books s') = 1"
proof -
  have "length (sd_books (applyChange id codeUnitCompare [] emptyLogicalBookState sampleChange)) = 1"
    by code_simp
  then show ?thesis
    using apply_change_idempotent [OF stateInv_empty, of id codeUnitCompare "[]" sampleChange] by (simp add: Let_def)
qed

section \<open>Canonical form of the state\<close>

lemma stateClocks_heads [simp]: "stateClocks (s\<lparr>sd_heads := h\<rparr>) = stateClocks s"
  by (simp add: stateClocks_def)

lemma canonicalize_idem:
  assumes "collation lc"
  shows "canonicalizeLogicalBookState lc (canonicalizeLogicalBookState lc s) = canonicalizeLogicalBookState lc s"
  by (simp add: canonicalizeLogicalBookState_def Let_def expectedHeads_def stateClocks_def jsSort_key_idem [OF assms])

text \<open>Reading a merged state and writing it again does not change the document: the canonical form is
  stable, and its heads are exactly the changes that some entry of the document carries, each once and
  in code-unit order.\<close>

theorem canonical_state_stable:
  assumes "collation lc"
  shows "let c = canonicalizeLogicalBookState lc s in
    canonicalizeLogicalBookState lc c = c \<and>
    serializeLogicalBookState nfkc lc c = serializeLogicalBookState nfkc lc s \<and>
    set (sd_heads c) = ck_changeId ` set (stateClocks s) \<and> distinct (sd_heads c) \<and>
    sorted_wrt (\<lambda>a b. codeUnitCompare a b \<le> 0) (sd_heads c)"
proof -
  have "set (stateClocks (canonicalizeLogicalBookState lc s)) = set (stateClocks s)"
    by (simp add: canonicalizeLogicalBookState_def Let_def stateClocks_def)
  moreover have "sd_heads (canonicalizeLogicalBookState lc s) = expectedHeads (canonicalizeLogicalBookState lc s)"
    by (simp add: canonicalizeLogicalBookState_def Let_def expectedHeads_def stateClocks_def)
  ultimately show ?thesis
    using canonicalize_idem [OF assms, of s] codeUnits.ascending_jsSort
    by (simp add: Let_def serializeLogicalBookState_def expectedHeads_def)
qed

theorem canonical_state_stable_witness:
  "let s = applyChange id codeUnitCompare [] emptyLogicalBookState sampleChange; c = canonicalizeLogicalBookState codeUnitCompare s
   in serializeLogicalBookState id codeUnitCompare c = serializeLogicalBookState id codeUnitCompare s"
  using canonical_state_stable [OF ascii.collation_axioms] by (simp add: Let_def)

section \<open>A concurrent deletion can block synchronization\<close>

definition pdfHash :: string where
  "pdfHash = replicate 64 (CHR ''c'')"

definition pdfBook :: BookRecord where
  "pdfBook = sampleBook\<lparr>br_id := ''sha256:'' @ pdfHash, br_format := Pdf,
     br_fileName := ''book.pdf'', br_mediaType := ''application/pdf''\<rparr>"

definition pdfLogicalBook :: LogicalBookRecord where
  "pdfLogicalBook = sampleLogicalBook\<lparr>lb_id := ''logical:sha256:'' @ pdfHash, lb_variants := [(Pdf, ''sha256:'' @ pdfHash)]\<rparr>"

definition importEpub :: LogicalBookChange where
  "importEpub = sampleChange\<lparr>chg_changeId := ''change:a''\<rparr>"

definition importPdf :: LogicalBookChange where
  "importPdf = sampleChange\<lparr>chg_changeId := ''change:b'', chg_resultingBooks := [pdfLogicalBook],
     chg_variantEffects := Some [UpsertVariant pdfBook ''.omnia-reader/library/book--cccccccccccc/book.pdf'']\<rparr>"

text \<open>One device deletes the book of the PDF; another, concurrently, associates it with the EPUB.\<close>

definition deletion :: LogicalBookChange where
  "deletion = sampleChange\<lparr>chg_changeId := ''change:c'', chg_kind := DeleteBook,
     chg_parents := [''change:b''], chg_resultingBooks := [],
     chg_removedLogicalBookIds := [lb_id pdfLogicalBook],
     chg_variantEffects := Some [DeleteVariant (br_id pdfBook) Pdf]\<rparr>"

definition association :: LogicalBookChange where
  "association = sampleChange\<lparr>chg_changeId := ''change:d'', chg_kind := Associate,
     chg_parents := [''change:a'', ''change:b''],
     chg_resultingBooks := [sampleLogicalBook\<lparr>lb_variants := [(Epub, br_id sampleBook), (Pdf, br_id pdfBook)]\<rparr>],
     chg_removedLogicalBookIds := [lb_id pdfLogicalBook], chg_variantEffects := None\<rparr>"

lemma isSynchronized_examples:
  "isSynchronizedLogicalBookChange id (changeVal importEpub)"
  "isSynchronizedLogicalBookChange id (changeVal importPdf)"
  "isSynchronizedLogicalBookChange id (changeVal deletion)"
  "isSynchronizedLogicalBookChange id (changeVal association)"
  by code_simp+

text \<open>The states the devices reach, spelled out.\<close>

definition exampleClock :: "string \<Rightarrow> LogicalBookStateClock" where
  "exampleClock i = \<lparr>ck_changeId = i, ck_createdAt = ''2024-05-02T10:00:00.000Z'', ck_deviceId = ''device-a''\<rparr>"

definition importedState :: LogicalBookStateDocument where
  "importedState = \<lparr>sd_heads = [''change:a'', ''change:b''],
     sd_books = [\<lparr>be_book = sampleLogicalBook, be_clock = exampleClock ''change:a''\<rparr>,
       \<lparr>be_book = pdfLogicalBook, be_clock = exampleClock ''change:b''\<rparr>],
     sd_removedBooks = [],
     sd_variants = [\<lparr>ve_variant = sampleBook, ve_objectPath = ''.omnia-reader/library/book--bbbbbbbbbbbb/book.epub'',
         ve_clock = exampleClock ''change:a''\<rparr>,
       \<lparr>ve_variant = pdfBook, ve_objectPath = ''.omnia-reader/library/book--cccccccccccc/book.pdf'',
         ve_clock = exampleClock ''change:b''\<rparr>],
     sd_removedVariants = [], sd_preferences = [], sd_reconciliations = []\<rparr>"

definition deletedState :: LogicalBookStateDocument where
  "deletedState = \<lparr>sd_heads = [''change:a'', ''change:c''],
     sd_books = [\<lparr>be_book = sampleLogicalBook, be_clock = exampleClock ''change:a''\<rparr>],
     sd_removedBooks = [\<lparr>rb_logicalBookId = lb_id pdfLogicalBook, rb_clock = exampleClock ''change:c''\<rparr>],
     sd_variants = [\<lparr>ve_variant = sampleBook, ve_objectPath = ''.omnia-reader/library/book--bbbbbbbbbbbb/book.epub'',
         ve_clock = exampleClock ''change:a''\<rparr>],
     sd_removedVariants = [\<lparr>rv_variantId = br_id pdfBook, rv_format = Pdf, rv_clock = exampleClock ''change:c''\<rparr>],
     sd_preferences = [], sd_reconciliations = []\<rparr>"

definition blockedState :: LogicalBookStateDocument where
  "blockedState = \<lparr>sd_heads = [''change:a'', ''change:c'', ''change:d''],
     sd_books = [\<lparr>be_book = sampleLogicalBook\<lparr>lb_variants := [(Epub, br_id sampleBook), (Pdf, br_id pdfBook)]\<rparr>,
       be_clock = exampleClock ''change:d''\<rparr>],
     sd_removedBooks = [\<lparr>rb_logicalBookId = lb_id pdfLogicalBook, rb_clock = exampleClock ''change:d''\<rparr>],
     sd_variants = [\<lparr>ve_variant = sampleBook, ve_objectPath = ''.omnia-reader/library/book--bbbbbbbbbbbb/book.epub'',
         ve_clock = exampleClock ''change:a''\<rparr>],
     sd_removedVariants = [\<lparr>rv_variantId = br_id pdfBook, rv_format = Pdf, rv_clock = exampleClock ''change:c''\<rparr>],
     sd_preferences = [], sd_reconciliations = []\<rparr>"

lemma example_ids_distinct: "chg_changeId importEpub \<noteq> chg_changeId importPdf"
  by (simp add: importEpub_def importPdf_def)

lemma importedState_merged: "mergedState jsSort id codeUnitCompare emptyLogicalBookState [importEpub, importPdf] = importedState"
  by code_simp

lemma deletedState_merged: "mergedState jsSort id codeUnitCompare importedState [deletion] = deletedState"
  by code_simp

lemma blockedState_merged: "mergedState jsSort id codeUnitCompare deletedState [association] = blockedState"
  by code_simp

lemma example_states_valid:
  "isLogicalBookStateDocument id codeUnitCompare (stateVal importedState)"
  "isLogicalBookStateDocument id codeUnitCompare (stateVal deletedState)"
  by code_simp+

lemma blockedState_invalid: "serializeLogicalBookState id codeUnitCompare blockedState = Inl StateInvalid"
  by code_simp


end
