(* ===== verification/Logical_Fold.thy ===== *)
theory Logical_Fold
  imports Logical_Replay
begin

text \<open>
  \<open>foldLogicalBookChanges\<close> of \<open>libs/sync/core/src/lib/logical-book-merge.ts\<close>: the view of a complete
  history of changes, without clocks and tombstones. Its helpers \<open>isAncestor\<close>, \<open>memberships\<close>,
  \<open>membershipConflicts\<close> and \<open>deterministicConflictId\<close> are those of \<open>logical-book-state.ts\<close>.
\<close>

record LogicalBookMergeResult =
  lm_books :: "LogicalBookRecord list"
  lm_preferences :: "LogicalBookFormatPreference list"
  lm_reconciliations :: "MembershipReconciliation list"
  lm_heads :: "string list"
  lm_appliedChangeIds :: "string list"

datatype MergeError = DuplicateLogicalChangeId

text \<open>The state of the loop: three maps and the changes applied so far.\<close>

record FoldState =
  fs_books :: "(string, LogicalBookRecord) jsMap"
  fs_preferences :: "(string, LogicalBookFormatPreference) jsMap"
  fs_reconciliations :: "(string, MembershipReconciliation) jsMap"
  fs_applied :: "LogicalBookChange list"

definition ownerChangeId :: "string \<Rightarrow> LogicalBookChange list \<Rightarrow> string" where
  "ownerChangeId logicalBookId ordered =
     (case find (\<lambda>change. \<exists>book \<in> set (chg_resultingBooks change). lb_id book = logicalBookId) (rev ordered) of
        Some change \<Rightarrow> chg_changeId change | None \<Rightarrow> ''change:bootstrap'')"

definition foldPropose ::
  "(string, LogicalBookRecord) jsMap \<times> LogicalBookRecord list \<Rightarrow> LogicalBookRecord \<Rightarrow>
     (string, LogicalBookRecord) jsMap \<times> LogicalBookRecord list" where
  "foldPropose state proposed =
     (if membershipConflicts proposed (mapValues (fst state)) = []
      then (mapSet (lb_id proposed) proposed (fst state), snd state)
      else (fst state, snd state @ [proposed]))"

definition foldReconciliation ::
  "(string \<Rightarrow> string \<Rightarrow> int) \<Rightarrow> LogicalBookChange \<Rightarrow> (string, LogicalBookRecord) jsMap \<Rightarrow> LogicalBookChange list \<Rightarrow>
     LogicalBookRecord list \<Rightarrow> MembershipReconciliation" where
  "foldReconciliation localeCompare change books applied competing =
     (let rejectedMembership = concat (map (memberships localeCompare) competing);
          proposedVariantIds = map mt_variantId rejectedMembership;
          acceptedMembership = concat (map (memberships localeCompare)
            (filter (\<lambda>book. \<exists>i \<in> set (bookVariantIds book). i \<noteq> [] \<and> i \<in> set proposedVariantIds) (mapValues books)));
          conflictingChanges = chg_changeId change #
            map (\<lambda>membership. ownerChangeId (mt_logicalBookId membership) applied) acceptedMembership;
          affectedVariantIds = sortStrings (jsUnique (map mt_variantId (acceptedMembership @ rejectedMembership)));
          conflictId = deterministicConflictId conflictingChanges affectedVariantIds
      in \<lparr>mr_conflictId = conflictId, mr_status = ReconciliationOpen,
          mr_conflictingChangeIds = sortStrings (jsUnique conflictingChanges),
          mr_affectedVariantIds = affectedVariantIds, mr_acceptedMembership = acceptedMembership,
          mr_rejectedMembership = rejectedMembership, mr_resolvedByChangeId = None,
          mr_detectedAt = chg_createdAt change\<rparr>)"

definition foldPreference ::
  "(string, LogicalBookFormatPreference) jsMap \<Rightarrow> LogicalPreferenceEffect \<Rightarrow> (string, LogicalBookFormatPreference) jsMap" where
  "foldPreference preferences effect =
     (case pe_preference effect of
        None \<Rightarrow> mapDelete (pe_logicalBookId effect) preferences
      | Some preference \<Rightarrow> mapSet (pe_logicalBookId effect) preference preferences)"

definition foldResolve ::
  "LogicalBookChange \<Rightarrow> (string, MembershipReconciliation) jsMap \<Rightarrow> string \<Rightarrow> (string, MembershipReconciliation) jsMap" where
  "foldResolve change reconciliations conflictId =
     (case map_of reconciliations conflictId of
        None \<Rightarrow> reconciliations
      | Some conflict \<Rightarrow> mapSet conflictId
          (conflict\<lparr>mr_status := ReconciliationResolved, mr_resolvedByChangeId := Some (chg_changeId change)\<rparr>)
          reconciliations)"

text \<open>The body of the loop over the ordered changes.\<close>

definition foldChange :: "(string \<Rightarrow> string \<Rightarrow> int) \<Rightarrow> FoldState \<Rightarrow> LogicalBookChange \<Rightarrow> FoldState" where
  "foldChange localeCompare state change =
     (let (candidateBooks, competing) = foldl foldPropose
            (foldl (\<lambda>m removedId. mapDelete removedId m) (fs_books state) (chg_removedLogicalBookIds change), [])
            (chg_resultingBooks change);
          reconciliations = (if competing = [] then fs_reconciliations state
            else let r = foldReconciliation localeCompare change (fs_books state) (fs_applied state) competing
                 in mapSet (mr_conflictId r) r (fs_reconciliations state))
      in \<lparr>fs_books = (if competing = [] then candidateBooks else fs_books state),
          fs_preferences = foldl foldPreference (fs_preferences state) (orEmpty (chg_preferenceEffects change)),
          fs_reconciliations = foldl (foldResolve change) reconciliations (orEmpty (chg_resolvesConflictIds change)),
          fs_applied = fs_applied state @ [change]\<rparr>)"

definition foldLogicalBookChanges ::
  "((LogicalBookChange \<Rightarrow> LogicalBookChange \<Rightarrow> int) \<Rightarrow> LogicalBookChange list \<Rightarrow> LogicalBookChange list) \<Rightarrow>
   (string \<Rightarrow> string \<Rightarrow> int) \<Rightarrow> LogicalBookChange list \<Rightarrow> MergeError + LogicalBookMergeResult" where
  "foldLogicalBookChanges sortBy localeCompare changes =
     (let byId = mapBy chg_changeId changes in
      if length byId \<noteq> length changes then Inl DuplicateLogicalChangeId
      else
        let ordered = sortBy (changeOrder localeCompare byId) changes;
            final = foldl (foldChange localeCompare)
              \<lparr>fs_books = [], fs_preferences = [], fs_reconciliations = [], fs_applied = []\<rparr> ordered;
            parentIds = concat (map chg_parents ordered)
        in Inr
          \<lparr>lm_books = jsSort (\<lambda>l r. localeCompare (lb_id l) (lb_id r)) (mapValues (fs_books final)),
           lm_preferences = jsSort (\<lambda>l r. localeCompare (fp_logicalBookId l) (fp_logicalBookId r)) (mapValues (fs_preferences final)),
           lm_reconciliations = jsSort (\<lambda>l r. localeCompare (mr_conflictId l) (mr_conflictId r)) (mapValues (fs_reconciliations final)),
           lm_heads = sortStrings (filter (\<lambda>id. id \<notin> set parentIds) (map chg_changeId ordered)),
           lm_appliedChangeIds = map chg_changeId ordered\<rparr>)"

section \<open>Exclusive membership\<close>

definition foldInv :: "(string, LogicalBookRecord) jsMap \<Rightarrow> bool" where
  "foldInv books \<longleftrightarrow> keyed lb_id books \<and> exclusive (set (mapValues books))"

lemma foldInv_empty: "foldInv []"
  by (simp add: foldInv_def keyed_def exclusive_def mapValues_def)

lemma foldInv_delete: "foldInv m \<Longrightarrow> foldInv (mapDelete i m)"
  unfolding foldInv_def by (intro conjI keyed_mapDelete exclusive_subset [OF _ values_mapDelete]) simp_all

lemma foldInv_foldPropose: "foldInv (fst s) \<Longrightarrow> foldInv (fst (foldPropose s p))"
proof (cases "membershipConflicts p (mapValues (fst s)) = []")
  case True
  assume inv: "foldInv (fst s)"
  have "exclusive (insert p (set (mapValues (fst s))))"
    by (rule exclusive_insert) (use inv membershipConflicts_none [OF True] in \<open>auto simp: foldInv_def\<close>)
  from exclusive_subset [OF this values_mapSet] show ?thesis
    using inv True by (simp add: foldInv_def foldPropose_def keyed_mapSet)
qed (simp add: foldPropose_def)

lemma foldInv_foldChange:
  assumes "foldInv (fs_books s)"
  shows "foldInv (fs_books (foldChange lc s change))"
proof -
  let ?m = "foldl (\<lambda>m i. mapDelete i m) (fs_books s) (chg_removedLogicalBookIds change)"
  have "foldInv ?m" by (rule foldl_inv) (use assms foldInv_delete in auto)
  then have "foldInv (fst (foldl foldPropose (?m, []) (chg_resultingBooks change)))"
    by (intro foldl_inv [where P = "\<lambda>s. foldInv (fst s)"]) (auto intro: foldInv_foldPropose)
  then show ?thesis using assms by (simp add: foldChange_def Let_def split_beta)
qed

lemma length_mapBy_distinct: "length (mapBy key xs) = length xs \<longleftrightarrow> distinct (map key xs)"
proof
  assume l: "length (mapBy key xs) = length xs"
  have k: "fst ` set (mapBy key xs) = key ` set xs"
  proof -
    have "fst ` set (fold (\<lambda>x. mapSet (key x) x) xs m) = fst ` set m \<union> key ` set xs" for m
      by (induction xs arbitrary: m) (auto simp: keys_mapSet)
    then show ?thesis by (simp add: mapBy_def)
  qed
  have "card (key ` set xs) = length (mapBy key xs)"
    using distinct_card [OF mapOk_mapBy, of key xs] k by simp
  then show "distinct (map key xs)" using l by (simp add: card_distinct)
qed (simp add: mapBy_distinct)



end
