(* ===== verification/Bookmarks.thy ===== *)
theory Bookmarks
  imports Publication
begin

text \<open>
  Bookmarks, \<open>libs/reader/domain/src/lib/publication-bookmark.ts\<close>: the record, its validator and the
  last-writer-wins rule by which replicas merge two versions of a bookmark.
\<close>

record PublicationBookmark =
  bm_id :: string
  bm_bookId :: string
  bm_format :: PublicationFormat
  bm_deviceId :: string
  bm_locator :: PublicationLocator
  bm_label :: string
  bm_createdAt :: string
  bm_updatedAt :: string
  bm_deletedAt :: "string option"

definition bookmarkVal :: "PublicationBookmark \<Rightarrow> jsval" where
  "bookmarkVal b = JObj
     ([(''schemaVersion'', JInt 1), (''id'', JStr (bm_id b)), (''bookId'', JStr (bm_bookId b)),
       (''format'', formatVal (bm_format b)), (''deviceId'', JStr (bm_deviceId b)),
       (''locator'', locatorVal (bm_locator b)), (''label'', JStr (bm_label b)),
       (''createdAt'', JStr (bm_createdAt b)), (''updatedAt'', JStr (bm_updatedAt b))] @
      optional ''deletedAt'' JStr (bm_deletedAt b))"

definition bookmarkOf :: "jsval \<Rightarrow> PublicationBookmark" where
  "bookmarkOf v =
     \<lparr>bm_id = strOf (getProp v ''id''), bm_bookId = strOf (getProp v ''bookId''),
      bm_format = formatOf (getProp v ''format''), bm_deviceId = strOf (getProp v ''deviceId''),
      bm_locator = locatorOf (getProp v ''locator''), bm_label = strOf (getProp v ''label''),
      bm_createdAt = strOf (getProp v ''createdAt''), bm_updatedAt = strOf (getProp v ''updatedAt''),
      bm_deletedAt = optOf strOf (getProp v ''deletedAt'')\<rparr>"

section \<open>Validation\<close>

text \<open>\<open>isPublicationLocator\<close> of this file: unlike its namesakes it does not bound \<open>href\<close>.\<close>

definition isPublicationLocator_bookmark :: "jsval \<Rightarrow> jsval \<Rightarrow> bool" where
  "isPublicationLocator_bookmark v format =
     (isRecord v \<and>
      isStr (getProp v ''href'') \<and>
      (format = JStr ''pdf'' \<or> getProp v ''href'' \<noteq> JStr []) \<and>
      isBoundedString (getProp v ''type'') 256 \<and>
      isOptionalBoundedString (getProp v ''title'') 512 \<and>
      (getProp v ''locations'' = JUndef \<or> isLocations 16 2048 (getProp v ''locations'')) \<and>
      (let text = getProp v ''text'' in
       text = JUndef \<or>
       (isRecord text \<and>
        (\<forall>key \<in> {''before'', ''highlight'', ''after''}.
           getProp text key = JUndef \<or> isString (getProp text key) 4096))))"

text \<open>\<open>createdAt <= updatedAt\<close> between two strings.\<close>

definition stringLe :: "jsval \<Rightarrow> jsval \<Rightarrow> bool" where
  "stringLe a b = (codeUnitCompare (strOf a) (strOf b) \<le> 0)"

definition isPublicationBookmark :: "jsval \<Rightarrow> bool" where
  "isPublicationBookmark v =
     (isRecord v \<and>
      (let createdAt = getProp v ''createdAt''; updatedAt = getProp v ''updatedAt'';
           deletedAt = getProp v ''deletedAt''
       in getProp v ''schemaVersion'' = JInt 1 \<and>
          isStr (getProp v ''id'') \<and> matchesOpaque 127 (strOf (getProp v ''id'')) \<and>
          isStr (getProp v ''bookId'') \<and> matchesSha256 ''sha256:'' (strOf (getProp v ''bookId'')) \<and>
          (getProp v ''format'' = JStr ''epub'' \<or> getProp v ''format'' = JStr ''pdf'') \<and>
          isBoundedString (getProp v ''deviceId'') 128 \<and>
          isBoundedString (getProp v ''label'') 512 \<and>
          isPublicationLocator_bookmark (getProp v ''locator'') (getProp v ''format'') \<and>
          isCanonicalTimestamp createdAt \<and>
          isCanonicalTimestamp updatedAt \<and>
          stringLe createdAt updatedAt \<and>
          (deletedAt = JUndef \<or> (isCanonicalTimestamp deletedAt \<and> deletedAt = updatedAt))))"

section \<open>Merging\<close>

definition compareBookmarks ::
  "(string \<Rightarrow> string \<Rightarrow> int) \<Rightarrow> PublicationBookmark \<Rightarrow> PublicationBookmark \<Rightarrow> int" where
  "compareBookmarks localeCompare left right =
     cmpOr (localeCompare (bm_updatedAt left) (bm_updatedAt right))
       (cmpOr (localeCompare (bm_deviceId left) (bm_deviceId right))
         (localeCompare (bm_id left) (bm_id right)))"

definition preferredBookmark ::
  "(string \<Rightarrow> string \<Rightarrow> int) \<Rightarrow> PublicationBookmark option \<Rightarrow> PublicationBookmark \<Rightarrow> PublicationBookmark"
where
  "preferredBookmark localeCompare local incoming =
     (case local of
        None \<Rightarrow> incoming
      | Some l \<Rightarrow> if compareBookmarks localeCompare incoming l > 0 then incoming else l)"

lemma bookmark_lww:
  assumes "collation lc"
  shows "lww (compareBookmarks lc) (\<lambda>local. preferredBookmark lc (Some local))"
proof (intro lww.intro lww_axioms.intro)
  show "comparator (compareBookmarks lc)"
    unfolding compareBookmarks_def by (intro cmp_intros collation.lc_key [OF assms])
qed (simp add: preferredBookmark_def)

sublocale collation \<subseteq> bm: lww "compareBookmarks lc" "\<lambda>local. preferredBookmark lc (Some local)"
  by (rule bookmark_lww) (rule collation_axioms)

lemma compareBookmarks_tie:
  assumes "strict_collation lc"
  shows "compareBookmarks lc a b = 0 \<longleftrightarrow>
    bm_updatedAt a = bm_updatedAt b \<and> bm_deviceId a = bm_deviceId b \<and> bm_id a = bm_id b"
  by (simp add: compareBookmarks_def cmpOr_zero_iff strict_collation_eq_iff [OF assms])

section \<open>The validator is sound for the record type\<close>

lemma getProp_bookmarkVal [simp]:
  "getProp (bookmarkVal b) ''schemaVersion'' = JInt 1"
  "getProp (bookmarkVal b) ''id'' = JStr (bm_id b)"
  "getProp (bookmarkVal b) ''bookId'' = JStr (bm_bookId b)"
  "getProp (bookmarkVal b) ''format'' = formatVal (bm_format b)"
  "getProp (bookmarkVal b) ''deviceId'' = JStr (bm_deviceId b)"
  "getProp (bookmarkVal b) ''locator'' = locatorVal (bm_locator b)"
  "getProp (bookmarkVal b) ''label'' = JStr (bm_label b)"
  "getProp (bookmarkVal b) ''createdAt'' = JStr (bm_createdAt b)"
  "getProp (bookmarkVal b) ''updatedAt'' = JStr (bm_updatedAt b)"
  "getProp (bookmarkVal b) ''deletedAt'' = withDefault JUndef JStr (bm_deletedAt b)"
  by (simp_all add: bookmarkVal_def)

lemma isRecord_bookmarkVal [simp]: "isRecord (bookmarkVal b)"
  by (simp add: bookmarkVal_def)

lemma bookmarkOf_bookmarkVal [simp]: "bookmarkOf (bookmarkVal b) = b"
  by (cases b) (simp add: bookmarkOf_def)

lemma isOptString_kinds: "w = JUndef \<or> isString w n \<Longrightarrow> w = JUndef \<or> isStr w"
  by (auto dest: isStr_kinds)

lemma isPublicationLocator_bookmark_locatorOf:
  assumes "isPublicationLocator_bookmark w format"
  shows "isPublicationLocator_bookmark (locatorVal (locatorOf w)) format"
proof -
  note a = assms [unfolded isPublicationLocator_bookmark_def Let_def]
  have str: "isStr (getProp w ''href'')" "isStr (getProp w ''type'')"
    using a by (blast intro: isStr_kinds)+
  have title: "getProp w ''title'' = JUndef \<or> isStr (getProp w ''title'')"
    using a by (blast dest: isOptStr_kinds(1))
  have loc: "isLocations 16 2048 (locationsVal (locationsOf (getProp w ''locations'')))"
    if "getProp w ''locations'' \<noteq> JUndef"
    using a that by (blast intro: isLocations_locationsOf)
  let ?t = "getProp w ''text''"
  have txtKey: "withDefault JUndef JStr (optOf strOf (getProp ?t key)) = getProp ?t key"
    if "?t \<noteq> JUndef" and "key \<in> {''before'', ''highlight'', ''after''}" for key
    using a that isOptString_kinds write_read(4) by metis
  show ?thesis
    using a str title loc txtKey
    by (simp add: isPublicationLocator_bookmark_def locatorOf_def write_read)
      (simp add: optOf_def textOf_def, blast)
qed

lemma isPublicationBookmark_bookmarkOf:
  assumes "isPublicationBookmark v"
  shows "isPublicationBookmark (bookmarkVal (bookmarkOf v))"
proof -
  note a = assms [unfolded isPublicationBookmark_def Let_def]
  have str: "isStr (getProp v ''deviceId'')" "isStr (getProp v ''label'')"
    "isStr (getProp v ''createdAt'')" "isStr (getProp v ''updatedAt'')"
    "isStr (getProp v ''id'')" "isStr (getProp v ''bookId'')"
    using a by (blast intro: isStr_kinds)+
  have opt: "getProp v ''deletedAt'' = JUndef \<or> isStr (getProp v ''deletedAt'')"
    using a by (blast dest: isStr_kinds)
  have fmt: "isPublicationFormat (getProp v ''format'')"
    using a by (auto simp: isPublicationFormat_def)
  show ?thesis
    using a isPublicationLocator_bookmark_locatorOf
    by (simp add: isPublicationBookmark_def bookmarkOf_def write_read str opt fmt)
qed

text \<open>\<open>isPublicationBookmark\<close> is a sound type guard: an accepted value of unknown origin, read as
  a \<open>PublicationBookmark\<close>, is again accepted, was not updated before it was created, and when it is
  deleted the deletion is its last update.\<close>

theorem bookmark_guard_sound:
  assumes "isPublicationBookmark v"
  shows "isPublicationBookmark (bookmarkVal (bookmarkOf v)) \<and>
    \<not> strLess (bm_updatedAt (bookmarkOf v)) (bm_createdAt (bookmarkOf v)) \<and>
    bm_deletedAt (bookmarkOf v) \<in> {None, Some (bm_updatedAt (bookmarkOf v))}"
proof -
  note a = assms [unfolded isPublicationBookmark_def Let_def stringLe_def]
  have "\<not> strLess (bm_updatedAt (bookmarkOf v)) (bm_createdAt (bookmarkOf v))"
    using a codeUnits.cmp_le_iff by (auto simp: bookmarkOf_def not_less)
  moreover have "bm_deletedAt (bookmarkOf v) \<in> {None, Some (bm_updatedAt (bookmarkOf v))}"
    using a by (auto simp: bookmarkOf_def optOf_def)
  ultimately show ?thesis
    using isPublicationBookmark_bookmarkOf [OF assms] by blast
qed

text \<open>A bookmark accepted by the validator, for the examples.\<close>

definition sampleDigest :: string where
  "sampleDigest = replicate 64 (CHR ''a'')"

definition sampleLocator :: PublicationLocator where
  "sampleLocator = \<lparr>href = ''text/chapter-1.xhtml'', loc_type = ''application/xhtml+xml'', loc_title = None,
     locations = Some \<lparr>fragments = None, progression = Some (Fin (1 / 4)), position = None,
       totalProgression = Some (Fin (1 / 8))\<rparr>, loc_text = None\<rparr>"

definition sampleBookmark :: PublicationBookmark where
  "sampleBookmark = \<lparr>bm_id = ''bookmark-1'', bm_bookId = ''sha256:'' @ sampleDigest, bm_format = Epub,
     bm_deviceId = ''device-a'', bm_locator = sampleLocator, bm_label = ''Here'',
     bm_createdAt = ''2024-05-01T10:00:00.000Z'', bm_updatedAt = ''2024-05-02T10:00:00.000Z'',
     bm_deletedAt = Some ''2024-05-02T10:00:00.000Z''\<rparr>"

lemma isPublicationBookmark_sample: "isPublicationBookmark (bookmarkVal sampleBookmark)"
  by code_simp

theorem bookmark_guard_sound_witness:
  "isPublicationBookmark (bookmarkVal sampleBookmark) \<and>
   \<not> strLess (bm_updatedAt sampleBookmark) (bm_createdAt sampleBookmark) \<and>
   bm_deletedAt sampleBookmark \<in> {None, Some (bm_updatedAt sampleBookmark)}"
  using bookmark_guard_sound [OF isPublicationBookmark_sample] by simp

section \<open>Convergence\<close>

text \<open>C25. Replicas that have seen the same versions of a bookmark, in any order and with any
  repetitions, keep the same version, provided that no two different versions carry the same update
  time, device and identifier.\<close>

theorem bookmarks_converge:
  assumes "strict_collation lc"
    and "insert x (set xs) = insert y (set ys)"
    and "\<And>a b. a \<in> insert x (set xs) \<Longrightarrow> b \<in> insert x (set xs) \<Longrightarrow>
      bm_updatedAt a = bm_updatedAt b \<Longrightarrow> bm_deviceId a = bm_deviceId b \<Longrightarrow> bm_id a = bm_id b \<Longrightarrow> a = b"
  shows "foldl (\<lambda>local. preferredBookmark lc (Some local)) x xs =
    foldl (\<lambda>local. preferredBookmark lc (Some local)) y ys"
  by (rule lww.foldl_pick_converges [OF bookmark_lww assms(2), OF strict_collation_collation [OF assms(1)]])
    (use assms(3) in \<open>auto simp: compareBookmarks_tie [OF assms(1)]\<close>)

definition sampleBookmark2 :: PublicationBookmark where
  "sampleBookmark2 = sampleBookmark\<lparr>bm_updatedAt := ''2024-05-03T10:00:00.000Z'', bm_deletedAt := None\<rparr>"

theorem bookmarks_converge_witness:
  "foldl (\<lambda>local. preferredBookmark codeUnitCompare (Some local)) sampleBookmark [sampleBookmark2] =
   foldl (\<lambda>local. preferredBookmark codeUnitCompare (Some local)) sampleBookmark2
     [sampleBookmark, sampleBookmark2]"
  by (rule bookmarks_converge [OF ascii.strict_collation_axioms])
    (auto simp: sampleBookmark2_def sampleBookmark_def)

text \<open>The proviso is needed: two versions with equal update time, device and identifier tie, each
  replica keeps its own, and exchanging them never makes the replicas agree.\<close>

theorem bookmark_tie_diverges:
  assumes "collation lc"
  shows "preferredBookmark lc (Some b) (b\<lparr>bm_label := l\<rparr>) = b \<and>
    preferredBookmark lc (Some (b\<lparr>bm_label := l\<rparr>)) b = b\<lparr>bm_label := l\<rparr>"
proof -
  have "lc s s = 0" for s
    using assms by (simp add: collation_def comparator.cmp_refl)
  then show ?thesis by (simp add: preferredBookmark_def compareBookmarks_def cmpOr_def)
qed

theorem bookmark_tie_diverges_witness:
  "preferredBookmark codeUnitCompare (Some sampleBookmark) (sampleBookmark\<lparr>bm_label := ''There''\<rparr>) \<noteq>
   preferredBookmark codeUnitCompare (Some (sampleBookmark\<lparr>bm_label := ''There''\<rparr>)) sampleBookmark"
  using bookmark_tie_diverges [OF ascii.collation_axioms, of sampleBookmark "''There''"]
  by (simp add: sampleBookmark_def)

end
