(* ===== verification/Annotations.thy ===== *)
theory Annotations
  imports Bookmarks
begin

text \<open>
  Annotations, \<open>libs/reader/domain/src/lib/publication-annotation.ts\<close>: colours and decorations, the
  validator, the canonical JSON text used to break ties, and the last-writer-wins merge.
\<close>

section \<open>Colours\<close>

record AnnotationColorOption =
  opt_value :: string
  opt_label :: string
  opt_hex :: string

definition colorOption :: "string \<Rightarrow> string \<Rightarrow> string \<Rightarrow> AnnotationColorOption" where
  "colorOption v l h = \<lparr>opt_value = v, opt_label = l, opt_hex = h\<rparr>"

definition PUBLICATION_ANNOTATION_COLOR_OPTIONS :: "AnnotationColorOption list" where
  "PUBLICATION_ANNOTATION_COLOR_OPTIONS =
     [colorOption ''orange'' ''Orange'' ''#E69F00'',
      colorOption ''sky-blue'' ''Sky blue'' ''#56B4E9'',
      colorOption ''bluish-green'' ''Bluish green'' ''#009E73'',
      colorOption ''yellow'' ''Yellow'' ''#F0E442'',
      colorOption ''dark-blue'' ''Dark blue'' ''#0072B2'',
      colorOption ''vermilion'' ''Vermilion'' ''#D55E00'',
      colorOption ''purple'' ''Purple'' ''#CC79A7'',
      colorOption ''brown'' ''Brown'' ''#8C564B'',
      colorOption ''gray'' ''Gray'' ''#7F7F7F'']"

definition PUBLICATION_ANNOTATION_BLACK_COLOR_OPTION :: AnnotationColorOption where
  "PUBLICATION_ANNOTATION_BLACK_COLOR_OPTION = colorOption ''black'' ''Black'' ''#000000''"

definition LEGACY_PUBLICATION_ANNOTATION_COLOR_OPTIONS :: "AnnotationColorOption list" where
  "LEGACY_PUBLICATION_ANNOTATION_COLOR_OPTIONS =
     [colorOption ''green'' ''Green'' ''#15803d'',
      colorOption ''red'' ''Red'' ''#b91c1c'',
      colorOption ''blue'' ''Blue'' ''#1d4ed8'',
      colorOption ''cyan'' ''Cyan'' ''#22d3ee'',
      colorOption ''pink'' ''Pink'' ''#f472b6'']"

definition SUPPORTED_PUBLICATION_ANNOTATION_COLOR_OPTIONS :: "AnnotationColorOption list" where
  "SUPPORTED_PUBLICATION_ANNOTATION_COLOR_OPTIONS =
     PUBLICATION_ANNOTATION_BLACK_COLOR_OPTION #
     PUBLICATION_ANNOTATION_COLOR_OPTIONS @ LEGACY_PUBLICATION_ANNOTATION_COLOR_OPTIONS"

definition isHexAny :: "char \<Rightarrow> bool" where
  "isHexAny c = (let n = (of_char c :: int) in
     (48 \<le> n \<and> n \<le> 57) \<or> (65 \<le> n \<and> n \<le> 70) \<or> (97 \<le> n \<and> n \<le> 102))"

text \<open>\<open>/^#[0-9a-fA-F]{6}$/\<close>\<close>

definition CUSTOM_ANNOTATION_COLOR_PATTERN :: "string \<Rightarrow> bool" where
  "CUSTOM_ANNOTATION_COLOR_PATTERN s =
     (case s of [] \<Rightarrow> False | c # cs \<Rightarrow> c = CHR ''#'' \<and> length cs = 6 \<and> (\<forall>d \<in> set cs. isHexAny d))"

definition isPublicationAnnotationColor :: "jsval \<Rightarrow> bool" where
  "isPublicationAnnotationColor v = (case v of
     JStr s \<Rightarrow> (\<exists>option \<in> set SUPPORTED_PUBLICATION_ANNOTATION_COLOR_OPTIONS. opt_value option = s) \<or>
       CUSTOM_ANNOTATION_COLOR_PATTERN s
   | _ \<Rightarrow> False)"

definition publicationAnnotationColorHex :: "string \<Rightarrow> string" where
  "publicationAnnotationColorHex color =
     (case find (\<lambda>option. opt_value option = color) SUPPORTED_PUBLICATION_ANNOTATION_COLOR_OPTIONS of
        Some preset \<Rightarrow> opt_hex preset
      | None \<Rightarrow> toLowerCase color)"

text \<open>\<open>toUpperCase\<close> on the ASCII colour strings it is applied to.\<close>

definition toUpperCase :: "string \<Rightarrow> string" where
  "toUpperCase s = map (\<lambda>c. let n = (of_char c :: int) in
     if 97 \<le> n \<and> n \<le> 122 then char_of (n - 32) else c) s"

definition publicationAnnotationColorLabel :: "string \<Rightarrow> string" where
  "publicationAnnotationColorLabel color =
     (case find (\<lambda>option. opt_value option = color) SUPPORTED_PUBLICATION_ANNOTATION_COLOR_OPTIONS of
        Some preset \<Rightarrow> opt_label preset
      | None \<Rightarrow> toUpperCase color)"

section \<open>The record\<close>

datatype PublicationAnnotationStyle = Highlight | Underline | Strikethrough

definition styleString :: "PublicationAnnotationStyle \<Rightarrow> string" where
  "styleString s = (case s of
     Highlight \<Rightarrow> ''highlight'' | Underline \<Rightarrow> ''underline'' | Strikethrough \<Rightarrow> ''strikethrough'')"

record PublicationAnnotationDecoration =
  dec_style :: PublicationAnnotationStyle
  dec_color :: string

record PublicationAnnotation =
  an_id :: string
  an_bookId :: string
  an_format :: PublicationFormat
  an_deviceId :: string
  an_locator :: PublicationLocator
  an_color :: string
  an_style :: "PublicationAnnotationStyle option"
  an_decorations :: "PublicationAnnotationDecoration list option"
  an_note :: "string option"
  an_createdAt :: string
  an_updatedAt :: string
  an_deletedAt :: "string option"

definition decorationVal :: "PublicationAnnotationDecoration \<Rightarrow> jsval" where
  "decorationVal d = JObj [(''style'', JStr (styleString (dec_style d))), (''color'', JStr (dec_color d))]"

definition annotationVal :: "PublicationAnnotation \<Rightarrow> jsval" where
  "annotationVal a = JObj
     ([(''schemaVersion'', JInt 1), (''id'', JStr (an_id a)), (''bookId'', JStr (an_bookId a)),
       (''format'', formatVal (an_format a)), (''deviceId'', JStr (an_deviceId a)),
       (''locator'', locatorVal (an_locator a)), (''color'', JStr (an_color a))] @
      optional ''style'' (\<lambda>s. JStr (styleString s)) (an_style a) @
      optional ''decorations'' (\<lambda>ds. JArr (map decorationVal ds)) (an_decorations a) @
      optional ''note'' JStr (an_note a) @
      [(''createdAt'', JStr (an_createdAt a)), (''updatedAt'', JStr (an_updatedAt a))] @
      optional ''deletedAt'' JStr (an_deletedAt a))"

definition annotationDecorations :: "PublicationAnnotation \<Rightarrow> PublicationAnnotationDecoration list" where
  "annotationDecorations a =
     (case an_decorations a of
        Some ds \<Rightarrow> ds
      | None \<Rightarrow> [\<lparr>dec_style = (case an_style a of None \<Rightarrow> Highlight | Some s \<Rightarrow> s), dec_color = an_color a\<rparr>])"

definition annotationHasStyle :: "PublicationAnnotation \<Rightarrow> PublicationAnnotationStyle \<Rightarrow> bool" where
  "annotationHasStyle a style = (\<exists>d \<in> set (annotationDecorations a). dec_style d = style)"

section \<open>Validation\<close>

definition isPublicationLocator_annotation :: "jsval \<Rightarrow> jsval \<Rightarrow> bool" where
  "isPublicationLocator_annotation v format =
     (isRecord v \<and>
      isString (getProp v ''href'') 8192 \<and>
      (format = JStr ''pdf'' \<or> getProp v ''href'' \<noteq> JStr []) \<and>
      isBoundedString (getProp v ''type'') 256 \<and>
      isOptionalBoundedString (getProp v ''title'') 512 \<and>
      (getProp v ''locations'' = JUndef \<or> isLocations 16 2048 (getProp v ''locations'')) \<and>
      (let text = getProp v ''text'' in
       text = JUndef \<or>
       (isRecord text \<and>
        (\<forall>key \<in> {''before'', ''highlight'', ''after''}.
           getProp text key = JUndef \<or> isString (getProp text key) 4096))))"

definition ANNOTATION_STYLES :: "jsval list" where
  "ANNOTATION_STYLES = [JStr ''highlight'', JStr ''underline'', JStr ''strikethrough'']"

text \<open>The loop over the decorations, with the set of styles seen so far.\<close>

fun decorationsFrom :: "jsval list \<Rightarrow> jsval list \<Rightarrow> bool" where
  "decorationsFrom styles [] = True"
| "decorationsFrom styles (decoration # rest) =
     (if \<not> isRecord decoration \<or>
         getProp decoration ''style'' \<notin> set ANNOTATION_STYLES \<or>
         \<not> isPublicationAnnotationColor (getProp decoration ''color'')
      then False
      else let style = getProp decoration ''style'' in
        if style \<in> set styles then False else decorationsFrom (style # styles) rest)"

definition isAnnotationDecorations :: "jsval \<Rightarrow> jsval \<Rightarrow> bool" where
  "isAnnotationDecorations v note =
     (if v = JUndef then True
      else case v of
        JArr ds \<Rightarrow>
          (if length ds > length ANNOTATION_STYLES then False
           else if length ds = 0 then isBoundedString note 16384
           else decorationsFrom [] ds)
      | _ \<Rightarrow> False)"

definition isPublicationAnnotation :: "jsval \<Rightarrow> bool" where
  "isPublicationAnnotation v =
     (isRecord v \<and>
      (let locator = getProp v ''locator''; createdAt = getProp v ''createdAt'';
           updatedAt = getProp v ''updatedAt''; deletedAt = getProp v ''deletedAt''
       in getProp v ''schemaVersion'' = JInt 1 \<and>
          isStr (getProp v ''id'') \<and> matchesOpaque 127 (strOf (getProp v ''id'')) \<and>
          isStr (getProp v ''bookId'') \<and> matchesSha256 ''sha256:'' (strOf (getProp v ''bookId'')) \<and>
          (getProp v ''format'' = JStr ''epub'' \<or> getProp v ''format'' = JStr ''pdf'') \<and>
          isBoundedString (getProp v ''deviceId'') 128 \<and>
          isPublicationLocator_annotation locator (getProp v ''format'') \<and>
          isRecord (getProp locator ''text'') \<and>
          isBoundedString (getProp (getProp locator ''text'') ''highlight'') 4096 \<and>
          isPublicationAnnotationColor (getProp v ''color'') \<and>
          (getProp v ''style'' = JUndef \<or> getProp v ''style'' \<in> set ANNOTATION_STYLES) \<and>
          (getProp v ''note'' = JUndef \<or> isBoundedString (getProp v ''note'') 16384) \<and>
          isAnnotationDecorations (getProp v ''decorations'') (getProp v ''note'') \<and>
          isCanonicalTimestamp createdAt \<and>
          isCanonicalTimestamp updatedAt \<and>
          stringLe createdAt updatedAt \<and>
          (deletedAt = JUndef \<or> (isCanonicalTimestamp deletedAt \<and> deletedAt = updatedAt))))"

section \<open>Merging\<close>

text \<open>
  Keys are printed in code-unit order. Inside a template literal a property that is \<open>undefined\<close> prints
  as \<open>undefined\<close>; inside an array it is empty. The texts of the members are computed first, then
  looked up by key.
\<close>

fun stableJson :: "jsval \<Rightarrow> string" where
  "stableJson JUndef = ''undefined''"
| "stableJson (JArr vs) =
     ''['' @ joinWith '','' (map (\<lambda>v. if v = JUndef then [] else stableJson v) vs) @ '']''"
| "stableJson (JObj kvs) =
     (let texts = map (\<lambda>(k, v). (k, stableJson v)) kvs in
      ''{'' @ joinWith '',''
        (map (\<lambda>k. quoteString k @ '':'' @ (case map_of texts k of Some t \<Rightarrow> t | None \<Rightarrow> []))
          (sortStrings (map fst kvs))) @ ''}'')"
| "stableJson JNull = stringify JNull"
| "stableJson (JBool b) = stringify (JBool b)"
| "stableJson (JNum x) = stringify (JNum x)"
| "stableJson (JStr s) = stringify (JStr s)"
| "stableJson (JBytes s) = ''{}''"
| "stableJson (JBlob t s) = ''{}''"

definition compareAnnotations ::
  "(string \<Rightarrow> string \<Rightarrow> int) \<Rightarrow> PublicationAnnotation \<Rightarrow> PublicationAnnotation \<Rightarrow> int" where
  "compareAnnotations localeCompare left right =
     cmpOr (localeCompare (an_updatedAt left) (an_updatedAt right))
       (cmpOr (localeCompare (an_deviceId left) (an_deviceId right))
         (localeCompare (stableJson (annotationVal left)) (stableJson (annotationVal right))))"

definition preferredAnnotation ::
  "(string \<Rightarrow> string \<Rightarrow> int) \<Rightarrow> PublicationAnnotation option \<Rightarrow> PublicationAnnotation \<Rightarrow> PublicationAnnotation"
where
  "preferredAnnotation localeCompare local incoming =
     (case local of
        None \<Rightarrow> incoming
      | Some l \<Rightarrow> if compareAnnotations localeCompare incoming l > 0 then incoming else l)"

lemma annotation_lww:
  assumes "collation lc"
  shows "lww (compareAnnotations lc) (\<lambda>local. preferredAnnotation lc (Some local))"
proof (intro lww.intro lww_axioms.intro)
  show "comparator (compareAnnotations lc)"
    unfolding compareAnnotations_def by (intro cmp_intros collation.lc_key [OF assms])
qed (simp add: preferredAnnotation_def)

sublocale collation \<subseteq> an: lww "compareAnnotations lc" "\<lambda>local. preferredAnnotation lc (Some local)"
  by (rule annotation_lww) (rule collation_axioms)

section \<open>What an accepted annotation shows\<close>

lemma getProp_annotationVal [simp]:
  "getProp (annotationVal a) ''color'' = JStr (an_color a)"
  "getProp (annotationVal a) ''decorations'' =
     withDefault JUndef (\<lambda>ds. JArr (map decorationVal ds)) (an_decorations a)"
  "getProp (annotationVal a) ''note'' = withDefault JUndef JStr (an_note a)"
  by (simp_all add: annotationVal_def)

lemma styleString_inj: "styleString a = styleString b \<longleftrightarrow> a = b"
  by (cases a; cases b) (simp_all add: styleString_def)

lemma decorationsFrom_sound:
  "decorationsFrom styles (map decorationVal ds) \<Longrightarrow>
   distinct (map dec_style ds) \<and>
   (\<forall>d \<in> set ds. JStr (styleString (dec_style d)) \<notin> set styles \<and> isPublicationAnnotationColor (JStr (dec_color d)))"
proof (induction ds arbitrary: styles)
  case (Cons d ds)
  have "distinct (map dec_style ds) \<and> (\<forall>e \<in> set ds.
      JStr (styleString (dec_style e)) \<notin> set (JStr (styleString (dec_style d)) # styles) \<and>
      isPublicationAnnotationColor (JStr (dec_color e)))"
    using Cons.prems by (intro Cons.IH) (simp add: decorationVal_def Let_def split: if_splits)
  then show ?case
    using Cons.prems by (auto simp: decorationVal_def Let_def styleString_inj split: if_splits)
qed simp

text \<open>What an accepted annotation shows: its visual layers use each style at most once and only
  supported colours, and an annotation without any layer carries a non-empty note, so no accepted
  annotation is invisible. Legacy records without layers get one from their style and colour.\<close>

theorem annotation_layers_sound:
  assumes "isPublicationAnnotation (annotationVal a)"
  shows "distinct (map dec_style (annotationDecorations a)) \<and>
    (\<forall>d \<in> set (annotationDecorations a). isPublicationAnnotationColor (JStr (dec_color d))) \<and>
    (annotationDecorations a \<noteq> [] \<or> (\<exists>n. an_note a = Some n \<and> n \<noteq> []))"
proof (cases "an_decorations a")
  case None
  then show ?thesis
    using assms by (simp add: isPublicationAnnotation_def annotationDecorations_def Let_def)
next
  case (Some ds)
  have d: "isAnnotationDecorations (JArr (map decorationVal ds)) (withDefault JUndef JStr (an_note a))"
    using assms Some by (simp add: isPublicationAnnotation_def Let_def)
  show ?thesis
  proof (cases ds)
    case Nil
    then show ?thesis
      using d Some by (cases "an_note a") (auto simp: isAnnotationDecorations_def annotationDecorations_def)
  next
    case (Cons e es)
    then have "decorationsFrom [] (map decorationVal ds)"
      using d by (auto simp: isAnnotationDecorations_def split: if_splits)
    from decorationsFrom_sound [OF this] show ?thesis
      using Some Cons by (simp add: annotationDecorations_def)
  qed
qed

definition sampleAnnotation :: PublicationAnnotation where
  "sampleAnnotation = \<lparr>an_id = ''note-1'', an_bookId = ''sha256:'' @ sampleDigest, an_format = Epub,
     an_deviceId = ''device-a'',
     an_locator = sampleLocator\<lparr>loc_text := Some \<lparr>before = None, highlight = Some ''quoted'', after = None\<rparr>\<rparr>,
     an_color = ''orange'', an_style = None,
     an_decorations = Some [\<lparr>dec_style = Underline, dec_color = ''#12aBcd''\<rparr>], an_note = None,
     an_createdAt = ''2024-05-01T10:00:00.000Z'', an_updatedAt = ''2024-05-02T10:00:00.000Z'',
     an_deletedAt = None\<rparr>"

lemma isPublicationAnnotation_sample: "isPublicationAnnotation (annotationVal sampleAnnotation)"
  by code_simp

theorem annotation_layers_sound_witness:
  "distinct (map dec_style (annotationDecorations sampleAnnotation)) \<and>
   isPublicationAnnotationColor (JStr ''#12aBcd'') \<and> annotationDecorations sampleAnnotation \<noteq> []"
  using annotation_layers_sound [OF isPublicationAnnotation_sample]
  by (simp add: annotationDecorations_def sampleAnnotation_def)

section \<open>Colours are always renderable\<close>

lemma isHexAny_toLower: "isHexAny c \<Longrightarrow> isHexAny (toLowerChar c)"
  by (auto simp: isHexAny_def toLowerChar_def Let_def)

lemma pattern_toLower: "CUSTOM_ANNOTATION_COLOR_PATTERN s \<Longrightarrow> CUSTOM_ANNOTATION_COLOR_PATTERN (toLowerCase s)"
  by (cases s) (auto simp: CUSTOM_ANNOTATION_COLOR_PATTERN_def toLowerCase_def isHexAny_toLower,
      simp add: toLowerChar_def)

lemma supported_hex:
  "\<forall>p \<in> set SUPPORTED_PUBLICATION_ANNOTATION_COLOR_OPTIONS. CUSTOM_ANNOTATION_COLOR_PATTERN (opt_hex p)"
  by code_simp

text \<open>Every accepted colour, named or custom, is rendered as \<open>#\<close> and six hexadecimal digits.\<close>

theorem annotation_color_hex:
  assumes "isPublicationAnnotationColor (JStr color)"
  shows "CUSTOM_ANNOTATION_COLOR_PATTERN (publicationAnnotationColorHex color)"
proof (cases "find (\<lambda>p. opt_value p = color) SUPPORTED_PUBLICATION_ANNOTATION_COLOR_OPTIONS")
  case None
  then have "CUSTOM_ANNOTATION_COLOR_PATTERN color"
    using assms by (auto simp: isPublicationAnnotationColor_def find_None_iff)
  then show ?thesis by (simp add: publicationAnnotationColorHex_def None pattern_toLower)
next
  case (Some p)
  then have "p \<in> set SUPPORTED_PUBLICATION_ANNOTATION_COLOR_OPTIONS"
    by (auto simp: find_Some_iff)
  then show ?thesis using supported_hex by (simp add: publicationAnnotationColorHex_def Some)
qed

theorem annotation_color_hex_witness:
  "CUSTOM_ANNOTATION_COLOR_PATTERN (publicationAnnotationColorHex ''#12aBcd'')"
  by (rule annotation_color_hex) code_simp

section \<open>Convergence of annotations\<close>

lemma compareAnnotations_tie:
  assumes "strict_collation lc"
  shows "compareAnnotations lc a b = 0 \<longleftrightarrow> an_updatedAt a = an_updatedAt b \<and>
    an_deviceId a = an_deviceId b \<and> stableJson (annotationVal a) = stableJson (annotationVal b)"
  by (simp add: compareAnnotations_def cmpOr_zero_iff strict_collation_eq_iff [OF assms])



end
