(* ===== verification/Object_Store.thy ===== *)
theory Object_Store
  imports JS_Prelude "HOL-Library.List_Lexorder" "HOL-Library.Char_ord" "HOL-Library.Product_Lexorder"
begin

text \<open>
  The IndexedDB object stores the library and the journal are kept in. A store lists its records in
  the order of their keys, which is the order a cursor and \<open>getAll\<close> visit them. The interface
  \<open>object_store\<close> holds the laws the clients rely on.
\<close>

type_synonym idbKey = "string list"
type_synonym ('k, 'v) objectStore = "('k \<times> 'v) list"

fun putEntry :: "'k::linorder \<Rightarrow> 'v \<Rightarrow> ('k, 'v) objectStore \<Rightarrow> ('k, 'v) objectStore" where
  "putEntry k v [] = [(k, v)]"
| "putEntry k v ((k', v') # es) =
     (if k' < k then (k', v') # putEntry k v es else if k' = k then (k, v) # es else (k, v) # (k', v') # es)"

abbreviation deleteEntry :: "'k \<Rightarrow> ('k, 'v) objectStore \<Rightarrow> ('k, 'v) objectStore" where
  "deleteEntry \<equiv> AList.delete"

abbreviation storeOk :: "('k::linorder, 'v) objectStore \<Rightarrow> bool" where
  "storeOk es \<equiv> sorted_wrt (<) (map fst es)"

section \<open>The interface\<close>

locale object_store =
  fixes get :: "'s \<Rightarrow> 'k \<Rightarrow> 'v option" and put :: "'k \<Rightarrow> 'v \<Rightarrow> 's \<Rightarrow> 's" and remove :: "'k \<Rightarrow> 's \<Rightarrow> 's"
    and ok :: "'s \<Rightarrow> bool"
  assumes get_put: "get (put k v s) k' = (if k' = k then Some v else get s k')"
    and get_remove: "get (remove k s) k' = (if k' = k then None else get s k')"
    and ok_put: "ok s \<Longrightarrow> ok (put k v s)"
    and ok_remove: "ok s \<Longrightarrow> ok (remove k s)"
begin

lemma get_remove_all: "get (fold remove ks s) k = (if k \<in> set ks then None else get s k)"
  by (induction ks arbitrary: s) (auto simp: get_remove)

lemma ok_remove_all: "ok s \<Longrightarrow> ok (fold remove ks s)"
  by (induction ks arbitrary: s) (auto simp: ok_remove)

end

section \<open>Sorted association lists\<close>

lemma set_putEntry: "set (putEntry k v es) \<subseteq> insert (k, v) (set es)"
  by (induction k v es rule: putEntry.induct) auto

lemma keys_putEntry: "fst ` set (putEntry k v es) = insert k (fst ` set es)"
  by (induction k v es rule: putEntry.induct) auto

lemma map_of_putEntry: "map_of (putEntry k v es) k' = (if k' = k then Some v else map_of es k')"
  by (induction k v es rule: putEntry.induct) auto

lemma storeOk_putEntry: "storeOk es \<Longrightarrow> storeOk (putEntry k v es)"
proof (induction k v es rule: putEntry.induct)
  case (2 k v k' v' es)
  show ?case
  proof (cases "k' < k")
    case True
    then have "\<forall>x \<in> fst ` set (putEntry k v es). k' < x"
      using "2.prems" by (auto simp: keys_putEntry)
    then show ?thesis using 2 True by simp
  next
    case False
    then show ?thesis using "2.prems" by (auto simp: not_less)
  qed
qed simp

lemma storeOk_filter: "storeOk es \<Longrightarrow> storeOk (filter P es)"
  by (induction es) auto

lemma storeOk_delete: "storeOk es \<Longrightarrow> storeOk (deleteEntry k es)"
  by (simp add: AList.delete_eq storeOk_filter)

lemma storeOk_distinct: "storeOk es \<Longrightarrow> distinct (map fst es)"
  by (simp add: strict_sorted_iff)

lemma storeOk_map_of: "storeOk es \<Longrightarrow> (k, v) \<in> set es \<longleftrightarrow> map_of es k = Some v"
  by (simp add: storeOk_distinct map_of_eq_Some_iff)

interpretation idb: object_store map_of putEntry AList.delete storeOk
  by unfold_locales (simp_all add: map_of_putEntry delete_conv storeOk_putEntry storeOk_delete)

end
