(* ===== verification/Library_Store.thy ===== *)
theory Library_Store
  imports Annotations Logical_Book Object_Store
begin

text \<open>
  The local library of \<open>libs/library/data-access/src/lib/browser-library-repository.ts\<close>: the object stores
  with their validated reads, which move records that fail validation to the quarantine, and the
  operations on progress, progress documents, bookmarks and annotations. Every operation is one
  step; the failures of the database itself are not modelled.
\<close>

section \<open>Object stores\<close>

datatype ActiveLibraryStore =
  BOOKS_STORE | BINARIES_STORE | COVERS_STORE | PROGRESS_STORE | PROGRESS_DOCUMENTS_STORE | PREFERENCES_STORE
  | READER_PREFERENCE_CHANGE_OUTBOX_STORE | READER_PREFERENCE_SYNC_METADATA_STORE | BOOKMARKS_STORE | ANNOTATIONS_STORE | LOGICAL_BOOKS_STORE | LOGICAL_BOOK_COVERS_STORE
  | LOGICAL_BOOK_PREFERENCES_STORE | LOGICAL_BOOK_RECONCILIATIONS_STORE | LOGICAL_BOOK_CHANGE_OUTBOX_STORE

type_synonym recordStore = "(idbKey, jsval) objectStore"

record QuarantinedLibraryRecord =
  q_storeName :: ActiveLibraryStore
  q_recordKey :: idbKey
  q_value :: jsval
  q_reason :: string
  q_quarantinedAt :: string

text \<open>The database, with the files of the publications directory of the origin-private file system (the only
  other local storage) and what the clock reads during the operation.\<close>

record LibraryDb =
  db_stores :: "ActiveLibraryStore \<Rightarrow> recordStore"
  db_quarantine :: "QuarantinedLibraryRecord list"
  db_files :: "(string, string) jsMap"
  db_now :: string

text \<open>The key paths the stores are created with: for every part of the key the properties that lead to it.\<close>

definition keyPath :: "ActiveLibraryStore \<Rightarrow> string list list" where
  "keyPath s = (case s of
     BOOKS_STORE \<Rightarrow> [[''id'']] | BINARIES_STORE \<Rightarrow> [[''bookId'']] | COVERS_STORE \<Rightarrow> [[''bookId'']]
   | PROGRESS_STORE \<Rightarrow> [[''bookId'']] | PROGRESS_DOCUMENTS_STORE \<Rightarrow> [[''bookId''], [''deviceId'']]
   | PREFERENCES_STORE \<Rightarrow> [[''format'']] | READER_PREFERENCE_CHANGE_OUTBOX_STORE \<Rightarrow> [[''register'', ''changeId'']]
   | READER_PREFERENCE_SYNC_METADATA_STORE \<Rightarrow> [[''destinationId'']]
   | BOOKMARKS_STORE \<Rightarrow> [[''id'']] | ANNOTATIONS_STORE \<Rightarrow> [[''id'']]
   | LOGICAL_BOOKS_STORE \<Rightarrow> [[''id'']] | LOGICAL_BOOK_COVERS_STORE \<Rightarrow> [[''logicalBookId'']]
   | LOGICAL_BOOK_PREFERENCES_STORE \<Rightarrow> [[''logicalBookId'']] | LOGICAL_BOOK_RECONCILIATIONS_STORE \<Rightarrow> [[''conflictId'']]
   | LOGICAL_BOOK_CHANGE_OUTBOX_STORE \<Rightarrow> [[''changeId'']])"

definition recordKey :: "ActiveLibraryStore \<Rightarrow> jsval \<Rightarrow> idbKey" where
  "recordKey s v = map (\<lambda>path. strOf (foldl getProp v path)) (keyPath s)"

definition idbGet :: "LibraryDb \<Rightarrow> ActiveLibraryStore \<Rightarrow> idbKey \<Rightarrow> jsval option" where
  "idbGet db s k = map_of (db_stores db s) k"

definition idbWrite :: "LibraryDb \<Rightarrow> ActiveLibraryStore \<Rightarrow> jsval \<Rightarrow> LibraryDb" where
  "idbWrite db s v = db\<lparr>db_stores := (db_stores db)(s := putEntry (recordKey s v) v (db_stores db s))\<rparr>"

definition quarantineInvalidRecord ::
  "LibraryDb \<Rightarrow> ActiveLibraryStore \<Rightarrow> idbKey \<Rightarrow> (jsval \<Rightarrow> bool) \<Rightarrow> string \<Rightarrow> LibraryDb" where
  "quarantineInvalidRecord db s k validator reason =
     (case idbGet db s k of
        None \<Rightarrow> db
      | Some current \<Rightarrow>
          if validator current then db
          else db\<lparr>db_quarantine := db_quarantine db @ [\<lparr>q_storeName = s, q_recordKey = k, q_value = current,
                    q_reason = reason, q_quarantinedAt = db_now db\<rparr>],
                  db_stores := (db_stores db)(s := deleteEntry k (db_stores db s))\<rparr>)"

definition readValidated ::
  "LibraryDb \<Rightarrow> ActiveLibraryStore \<Rightarrow> idbKey \<Rightarrow> (jsval \<Rightarrow> bool) \<Rightarrow> string \<Rightarrow> jsval option \<times> LibraryDb" where
  "readValidated db s k validator reason =
     (case idbGet db s k of
        None \<Rightarrow> (None, db)
      | Some v \<Rightarrow> if validator v then (Some v, db) else (None, quarantineInvalidRecord db s k validator reason))"

definition validatedEntries ::
  "LibraryDb \<Rightarrow> ActiveLibraryStore \<Rightarrow> recordStore \<Rightarrow> (jsval \<Rightarrow> bool) \<Rightarrow> string \<Rightarrow> jsval list \<times> LibraryDb" where
  "validatedEntries db s entries validator reason =
     foldl (\<lambda>(valid, db) (k, v).
         if validator v then (valid @ [v], db) else (valid, quarantineInvalidRecord db s k validator reason))
       ([], db) entries"

definition readAllValidated ::
  "LibraryDb \<Rightarrow> ActiveLibraryStore \<Rightarrow> (jsval \<Rightarrow> bool) \<Rightarrow> string \<Rightarrow> jsval list \<times> LibraryDb" where
  "readAllValidated db s validator reason = validatedEntries db s (db_stores db s) validator reason"

text \<open>An index holds the records whose indexed property has the given value, in key order.\<close>

definition readAllByIndexValidated ::
  "LibraryDb \<Rightarrow> ActiveLibraryStore \<Rightarrow> (jsval \<Rightarrow> jsval) \<Rightarrow> string \<Rightarrow> (jsval \<Rightarrow> bool) \<Rightarrow> string \<Rightarrow> jsval list \<times> LibraryDb" where
  "readAllByIndexValidated db s index key validator reason =
     validatedEntries db s (filter (\<lambda>(k, v). index v = JStr key) (db_stores db s)) validator reason"

definition bookIdIndex :: "jsval \<Rightarrow> jsval" where
  "bookIdIndex v = getProp v ''bookId''"

section \<open>Publications\<close>

datatype RepositoryError = InvalidRecord | PublicationUnavailable

definition getBook :: "LibraryDb \<Rightarrow> string \<Rightarrow> jsval option \<times> LibraryDb" where
  "getBook db bookId = readValidated db BOOKS_STORE [bookId] (\<lambda>v. isBookRecord v \<and> getProp v ''id'' = JStr bookId)
     ''Book metadata failed identity or schema validation''"

text \<open>Sorting by a string property, descending: \<open>right.p.localeCompare(left.p)\<close>.\<close>

definition descendingBy :: "(string \<Rightarrow> string \<Rightarrow> int) \<Rightarrow> string \<Rightarrow> jsval \<Rightarrow> jsval \<Rightarrow> int" where
  "descendingBy localeCompare k left right = localeCompare (strOf (getProp right k)) (strOf (getProp left k))"

definition listBooks :: "(string \<Rightarrow> string \<Rightarrow> int) \<Rightarrow> LibraryDb \<Rightarrow> jsval list \<times> LibraryDb" where
  "listBooks localeCompare db =
     (let (records, db) = readAllValidated db BOOKS_STORE isBookRecord ''Book metadata failed schema validation''
      in (jsSort (descendingBy localeCompare ''importedAt'') records, db))"

definition booksById :: "jsval list \<Rightarrow> (string, jsval) jsMap" where
  "booksById books = mapBy (\<lambda>b. strOf (getProp b ''id'')) books"

text \<open>\<open>books.get(value.bookId)?.format === value.format\<close>.\<close>

definition formatMatches :: "(string, jsval) jsMap \<Rightarrow> jsval \<Rightarrow> bool" where
  "formatMatches books v =
     (case map_of books (strOf (getProp v ''bookId'')) of
        None \<Rightarrow> False
      | Some b \<Rightarrow> getProp b ''format'' = getProp v ''format'')"

text \<open>The four save operations check the record, then that its publication is there with the same
  format, and write it.\<close>

definition saveChecked :: "LibraryDb \<Rightarrow> ActiveLibraryStore \<Rightarrow> (jsval \<Rightarrow> bool) \<Rightarrow> jsval \<Rightarrow> (RepositoryError + unit) \<times> LibraryDb" where
  "saveChecked db s validator v =
     (if \<not> validator v then (Inl InvalidRecord, db)
      else let (book, db) = getBook db (strOf (getProp v ''bookId'')) in
        case book of
          None \<Rightarrow> (Inl PublicationUnavailable, db)
        | Some b \<Rightarrow>
            if getProp b ''format'' \<noteq> getProp v ''format'' then (Inl PublicationUnavailable, db)
            else (Inr (), idbWrite db s v))"

section \<open>Progress\<close>

definition getProgress :: "LibraryDb \<Rightarrow> string \<Rightarrow> jsval option \<times> LibraryDb" where
  "getProgress db bookId =
     (let (book, db) = getBook db bookId in
      readValidated db PROGRESS_STORE [bookId]
        (\<lambda>v. case book of
           None \<Rightarrow> False
         | Some b \<Rightarrow> isReadingProgress v \<and> getProp v ''bookId'' = JStr bookId \<and> getProp v ''format'' = getProp b ''format'')
        ''Reading progress failed publication or schema validation'')"

definition listProgress :: "(string \<Rightarrow> string \<Rightarrow> int) \<Rightarrow> LibraryDb \<Rightarrow> jsval list \<times> LibraryDb" where
  "listProgress localeCompare db =
     (let (books, db) = listBooks localeCompare db in
      readAllValidated db PROGRESS_STORE (\<lambda>v. isReadingProgress v \<and> formatMatches (booksById books) v)
        ''Reading progress failed publication or schema validation'')"

definition saveProgress :: "LibraryDb \<Rightarrow> ReadingProgress \<Rightarrow> (RepositoryError + unit) \<times> LibraryDb" where
  "saveProgress db progress = saveChecked db PROGRESS_STORE isReadingProgress (progressVal progress)"

definition compareProgressDocuments :: "(string \<Rightarrow> string \<Rightarrow> int) \<Rightarrow> jsval \<Rightarrow> jsval \<Rightarrow> int" where
  "compareProgressDocuments localeCompare left right =
     cmpOr (descendingBy localeCompare ''bookId'' right left) (descendingBy localeCompare ''deviceId'' right left)"

definition listProgressDocuments ::
  "(string \<Rightarrow> string \<Rightarrow> int) \<Rightarrow> LibraryDb \<Rightarrow> string option \<Rightarrow> jsval list \<times> LibraryDb" where
  "listProgressDocuments localeCompare db bookId =
     (let (books, db) = listBooks localeCompare db;
          reason = ''Progress document failed publication or schema validation'';
          (documents, db) = (case bookId of
             None \<Rightarrow> readAllValidated db PROGRESS_DOCUMENTS_STORE
               (\<lambda>v. isReadingProgress v \<and> formatMatches (booksById books) v) reason
           | Some i \<Rightarrow> readAllByIndexValidated db PROGRESS_DOCUMENTS_STORE bookIdIndex i
               (\<lambda>v. isReadingProgress v \<and> getProp v ''bookId'' = JStr i \<and> formatMatches (booksById books) v) reason)
      in (jsSort (compareProgressDocuments localeCompare) documents, db))"

definition saveProgressDocument :: "LibraryDb \<Rightarrow> ReadingProgress \<Rightarrow> (RepositoryError + unit) \<times> LibraryDb" where
  "saveProgressDocument db progress = saveChecked db PROGRESS_DOCUMENTS_STORE isReadingProgress (progressVal progress)"

section \<open>Bookmarks and annotations\<close>

text \<open>Both kinds of marks are read the same way; \<open>isMark\<close> is the guard of the kind.\<close>

definition getMark ::
  "LibraryDb \<Rightarrow> ActiveLibraryStore \<Rightarrow> (jsval \<Rightarrow> bool) \<Rightarrow> string \<Rightarrow> string \<Rightarrow> string \<Rightarrow> jsval option \<times> LibraryDb" where
  "getMark db s isMark reason mismatch markId =
     (let (mark, db) = readValidated db s [markId] (\<lambda>v. isMark v \<and> getProp v ''id'' = JStr markId) reason in
      case mark of
        None \<Rightarrow> (None, db)
      | Some m \<Rightarrow>
          let (book, db) = getBook db (strOf (getProp m ''bookId'')) in
          if (case book of None \<Rightarrow> False | Some b \<Rightarrow> getProp b ''format'' = getProp m ''format'') then (Some m, db)
          else (None, quarantineInvalidRecord db s [markId]
            (\<lambda>v. isMark v \<and> getProp v ''id'' = JStr markId \<and>
               (case book of None \<Rightarrow> False
                | Some b \<Rightarrow> getProp v ''bookId'' = getProp b ''id'' \<and> getProp v ''format'' = getProp b ''format''))
            mismatch))"

definition listMarks ::
  "(string \<Rightarrow> string \<Rightarrow> int) \<Rightarrow> LibraryDb \<Rightarrow> ActiveLibraryStore \<Rightarrow> (jsval \<Rightarrow> bool) \<Rightarrow> string \<Rightarrow> string option \<Rightarrow> bool \<Rightarrow>
     jsval list \<times> LibraryDb" where
  "listMarks localeCompare db s isMark reason bookId includeDeleted =
     (let (books, db) = listBooks localeCompare db;
          (marks, db) = (case bookId of
             None \<Rightarrow> readAllValidated db s (\<lambda>v. isMark v \<and> formatMatches (booksById books) v) reason
           | Some i \<Rightarrow> readAllByIndexValidated db s bookIdIndex i
               (\<lambda>v. isMark v \<and> getProp v ''bookId'' = JStr i \<and> formatMatches (booksById books) v) reason)
      in (jsSort (\<lambda>left right. cmpOr (descendingBy localeCompare ''createdAt'' left right) (descendingBy localeCompare ''id'' left right))
            (filter (\<lambda>m. includeDeleted \<or> getProp m ''deletedAt'' = JUndef) marks), db))"

definition getBookmark :: "LibraryDb \<Rightarrow> string \<Rightarrow> jsval option \<times> LibraryDb" where
  "getBookmark db bookmarkId = getMark db BOOKMARKS_STORE isPublicationBookmark
     ''Bookmark failed identity or schema validation'' ''Bookmark publication is missing or mismatched'' bookmarkId"

definition listBookmarks ::
  "(string \<Rightarrow> string \<Rightarrow> int) \<Rightarrow> LibraryDb \<Rightarrow> string option \<Rightarrow> bool \<Rightarrow> jsval list \<times> LibraryDb" where
  "listBookmarks localeCompare db bookId includeDeleted = listMarks localeCompare db BOOKMARKS_STORE isPublicationBookmark
     ''Bookmark failed publication or schema validation'' bookId includeDeleted"

definition saveBookmark :: "LibraryDb \<Rightarrow> PublicationBookmark \<Rightarrow> (RepositoryError + unit) \<times> LibraryDb" where
  "saveBookmark db bookmark = saveChecked db BOOKMARKS_STORE isPublicationBookmark (bookmarkVal bookmark)"

definition getAnnotation :: "LibraryDb \<Rightarrow> string \<Rightarrow> jsval option \<times> LibraryDb" where
  "getAnnotation db annotationId = getMark db ANNOTATIONS_STORE isPublicationAnnotation
     ''Annotation failed identity or schema validation'' ''Annotation publication is missing or mismatched'' annotationId"

definition listAnnotations ::
  "(string \<Rightarrow> string \<Rightarrow> int) \<Rightarrow> LibraryDb \<Rightarrow> string option \<Rightarrow> bool \<Rightarrow> jsval list \<times> LibraryDb" where
  "listAnnotations localeCompare db bookId includeDeleted = listMarks localeCompare db ANNOTATIONS_STORE isPublicationAnnotation
     ''Annotation failed publication or schema validation'' bookId includeDeleted"

definition saveAnnotation :: "LibraryDb \<Rightarrow> PublicationAnnotation \<Rightarrow> (RepositoryError + unit) \<times> LibraryDb" where
  "saveAnnotation db annotation = saveChecked db ANNOTATIONS_STORE isPublicationAnnotation (annotationVal annotation)"

definition getReaderPreferences :: "LibraryDb \<Rightarrow> PublicationFormat \<Rightarrow> jsval option \<times> LibraryDb" where
  "getReaderPreferences db format = readValidated db PREFERENCES_STORE [formatString format]
     (\<lambda>v. isReaderPreferences v \<and> getProp v ''format'' = JStr (formatString format))
     ''Reader preferences failed format or schema validation''"

section \<open>Quarantine\<close>

text \<open>A store is well-formed when its records are sorted by their keys, without duplicates.\<close>

definition dbOk :: "LibraryDb \<Rightarrow> bool" where
  "dbOk db \<longleftrightarrow> (\<forall>s. storeOk (db_stores db s) \<and> (\<forall>(k, v) \<in> set (db_stores db s). recordKey s v = k))"

text \<open>What a read may do to the database: move records to the quarantine, and nothing else.\<close>

definition quarantinedIn :: "LibraryDb \<Rightarrow> ActiveLibraryStore \<Rightarrow> idbKey \<Rightarrow> jsval \<Rightarrow> bool" where
  "quarantinedIn db s k v \<longleftrightarrow>
     (\<exists>q \<in> set (db_quarantine db). q_storeName q = s \<and> q_recordKey q = k \<and> q_value q = v)"

definition onlyQuarantines :: "LibraryDb \<Rightarrow> LibraryDb \<Rightarrow> bool" where
  "onlyQuarantines db db' \<longleftrightarrow>
     (dbOk db \<longrightarrow> dbOk db') \<and> db_files db' = db_files db \<and> set (db_quarantine db) \<subseteq> set (db_quarantine db') \<and>
     (\<forall>s k. idbGet db' s k = idbGet db s k \<or>
        idbGet db' s k = None \<and> (\<exists>v. idbGet db s k = Some v \<and> quarantinedIn db' s k v))"

lemma onlyQuarantines_refl [simp]: "onlyQuarantines db db"
  by (simp add: onlyQuarantines_def)

lemma onlyQuarantines_trans [trans]:
  assumes "onlyQuarantines db1 db2" and "onlyQuarantines db2 db3"
  shows "onlyQuarantines db1 db3"
proof -
  have mono: "quarantinedIn db2 s k v \<Longrightarrow> quarantinedIn db3 s k v" for s k v
    using assms(2) by (auto simp: onlyQuarantines_def quarantinedIn_def)
  have "idbGet db3 s k = idbGet db1 s k \<or>
      idbGet db3 s k = None \<and> (\<exists>v. idbGet db1 s k = Some v \<and> quarantinedIn db3 s k v)" for s k
    using assms mono [of s k] unfolding onlyQuarantines_def by metis
  then show ?thesis using assms by (auto simp: onlyQuarantines_def)
qed

lemma onlyQuarantines_dbOk: "onlyQuarantines db db' \<Longrightarrow> dbOk db \<Longrightarrow> dbOk db'"
  by (simp add: onlyQuarantines_def)

lemma dbOk_key: "dbOk db \<Longrightarrow> idbGet db s k = Some v \<Longrightarrow> recordKey s v = k"
  by (auto simp: dbOk_def idbGet_def dest: map_of_SomeD)

lemma onlyQuarantines_record: "onlyQuarantines db (quarantineInvalidRecord db s k validator reason)"
proof -
  have ok: "dbOk db \<Longrightarrow> dbOk (db\<lparr>db_quarantine := q, db_stores := (db_stores db)(s := deleteEntry k (db_stores db s))\<rparr>)" for q
    using set_mapDelete_subset [of k "db_stores db s"] by (auto simp: dbOk_def storeOk_delete)
  show ?thesis
    using ok by (auto simp: quarantineInvalidRecord_def onlyQuarantines_def idbGet_def quarantinedIn_def
        delete_conv split: option.splits)
qed

lemma onlyQuarantines_readValidated: "onlyQuarantines db (snd (readValidated db s k validator reason))"
  by (simp add: readValidated_def onlyQuarantines_record split: option.splits)

lemma onlyQuarantines_entries: "onlyQuarantines db (snd (validatedEntries db s entries validator reason))"
proof -
  have "onlyQuarantines db (snd (foldl (\<lambda>(valid, db) (k, v).
         if validator v then (valid @ [v], db) else (valid, quarantineInvalidRecord db s k validator reason))
       (acc, db) entries))" for acc
  proof (induction entries arbitrary: acc db)
    case (Cons e es)
    obtain k v where e: "e = (k, v)" by fastforce
    show ?case
      using Cons onlyQuarantines_trans [OF onlyQuarantines_record [of db s k validator reason] Cons]
      by (simp add: e)
  qed simp
  then show ?thesis by (simp add: validatedEntries_def)
qed

lemma onlyQuarantines_readAll [simp]:
  "onlyQuarantines db (snd (readAllValidated db s validator reason))"
  "onlyQuarantines db (snd (readAllByIndexValidated db s index i validator reason))"
  by (simp_all add: readAllValidated_def readAllByIndexValidated_def onlyQuarantines_entries)

lemma onlyQuarantines_getBook [simp]: "onlyQuarantines db (snd (getBook db b))"
  by (simp add: getBook_def onlyQuarantines_readValidated)

lemma onlyQuarantines_listBooks [simp]: "onlyQuarantines db (snd (listBooks lc db))"
  by (simp add: listBooks_def split_beta)

text \<open>Every read of the repository, in the order of the code.\<close>

inductive libraryRead :: "(string \<Rightarrow> string \<Rightarrow> int) \<Rightarrow> LibraryDb \<Rightarrow> LibraryDb \<Rightarrow> bool" for lc where
  read_book: "libraryRead lc db (snd (getBook db i))"
| read_books: "libraryRead lc db (snd (listBooks lc db))"
| read_progress: "libraryRead lc db (snd (getProgress db i))"
| read_all_progress: "libraryRead lc db (snd (listProgress lc db))"
| read_documents: "libraryRead lc db (snd (listProgressDocuments lc db bookId))"
| read_bookmark: "libraryRead lc db (snd (getBookmark db i))"
| read_bookmarks: "libraryRead lc db (snd (listBookmarks lc db bookId includeDeleted))"
| read_annotation: "libraryRead lc db (snd (getAnnotation db i))"
| read_annotations: "libraryRead lc db (snd (listAnnotations lc db bookId includeDeleted))"
| read_preferences: "libraryRead lc db (snd (getReaderPreferences db format))"

inductive librarySave :: "LibraryDb \<Rightarrow> LibraryDb \<Rightarrow> bool" where
  save_progress: "librarySave db (snd (saveProgress db p))"
| save_document: "librarySave db (snd (saveProgressDocument db p))"
| save_bookmark: "librarySave db (snd (saveBookmark db m))"
| save_annotation: "librarySave db (snd (saveAnnotation db a))"

text \<open>A session: reads and saves in any order.\<close>

inductive librarySession :: "(string \<Rightarrow> string \<Rightarrow> int) \<Rightarrow> LibraryDb \<Rightarrow> LibraryDb \<Rightarrow> bool" for lc where
  session_start: "librarySession lc db db"
| session_read: "librarySession lc db db1 \<Longrightarrow> libraryRead lc db1 db2 \<Longrightarrow> librarySession lc db db2"
| session_save: "librarySession lc db db1 \<Longrightarrow> librarySave db1 db2 \<Longrightarrow> librarySession lc db db2"

lemma onlyQuarantines_getProgress: "onlyQuarantines db (snd (getProgress db i))"
  by (simp add: getProgress_def split_beta)
    (rule onlyQuarantines_trans [OF onlyQuarantines_getBook onlyQuarantines_readValidated])

lemma onlyQuarantines_booksThen [simp]:
  "onlyQuarantines db (snd (readAllValidated (snd (listBooks lc db)) s validator reason))"
  "onlyQuarantines db (snd (readAllByIndexValidated (snd (listBooks lc db)) s index i validator reason))"
  by - (rule onlyQuarantines_trans [OF onlyQuarantines_listBooks [of db lc]], simp)+

lemma onlyQuarantines_listProgress: "onlyQuarantines db (snd (listProgress lc db))"
  by (simp add: listProgress_def split_beta)

lemma onlyQuarantines_listProgressDocuments: "onlyQuarantines db (snd (listProgressDocuments lc db b))"
  by (cases b) (simp_all add: listProgressDocuments_def split_beta Let_def)

lemma onlyQuarantines_listMarks: "onlyQuarantines db (snd (listMarks lc db s isMark reason b d))"
  by (cases b) (simp_all add: listMarks_def split_beta)

lemma onlyQuarantines_getMark: "onlyQuarantines db (snd (getMark db s isMark reason mismatch i))"
proof -
  obtain m db1 where m: "readValidated db s [i] (\<lambda>v. isMark v \<and> getProp v ''id'' = JStr i) reason = (m, db1)"
    by fastforce
  have db1: "onlyQuarantines db db1"
    using onlyQuarantines_readValidated [of db s "[i]" "\<lambda>v. isMark v \<and> getProp v ''id'' = JStr i" reason] by (simp add: m)
  show ?thesis
  proof (cases m)
    case (Some v)
    obtain b db2 where b: "getBook db1 (strOf (getProp v ''bookId'')) = (b, db2)" by fastforce
    have "onlyQuarantines db db2"
      using onlyQuarantines_trans [OF db1] onlyQuarantines_getBook [of db1 "strOf (getProp v ''bookId'')"] by (simp add: b)
    then show ?thesis
      using onlyQuarantines_trans [OF _ onlyQuarantines_record] by (simp add: getMark_def m Some b)
  qed (simp add: getMark_def m db1)
qed

lemmas onlyQuarantines_reads = onlyQuarantines_getBook onlyQuarantines_listBooks onlyQuarantines_getProgress
  onlyQuarantines_listProgress onlyQuarantines_listProgressDocuments onlyQuarantines_listMarks
  onlyQuarantines_getMark onlyQuarantines_readValidated

lemma libraryRead_onlyQuarantines: "libraryRead lc db db' \<Longrightarrow> onlyQuarantines db db'"
  by (induction rule: libraryRead.induct)
    (simp_all add: onlyQuarantines_reads getBookmark_def listBookmarks_def getAnnotation_def listAnnotations_def
      getReaderPreferences_def)

section \<open>Saving\<close>

lemma dbOk_idbWrite: "dbOk db \<Longrightarrow> dbOk (idbWrite db s v)"
  using set_putEntry [of "recordKey s v" v "db_stores db s"]
  by (auto simp: dbOk_def idbWrite_def storeOk_putEntry)

lemma idbGet_idbWrite:
  "idbGet (idbWrite db s v) s' k = (if s' = s \<and> k = recordKey s v then Some v else idbGet db s' k)"
  by (simp add: idbGet_def idbWrite_def map_of_putEntry)

lemma idbGet_getBook: "s \<noteq> BOOKS_STORE \<Longrightarrow> idbGet (snd (getBook db b)) s k = idbGet db s k"
  by (simp add: getBook_def readValidated_def quarantineInvalidRecord_def idbGet_def split: option.splits)

lemma saveChecked_cases:
  obtains (error) e db' where "saveChecked db s validator v = (Inl e, db')" "onlyQuarantines db db'"
      "s \<noteq> BOOKS_STORE \<Longrightarrow> idbGet db' s = idbGet db s"
  | (saved) b db' where "saveChecked db s validator v = (Inr (), idbWrite db' s v)" "onlyQuarantines db db'"
      "validator v" "getBook db (strOf (getProp v ''bookId'')) = (Some b, db')" "getProp b ''format'' = getProp v ''format''"
proof (cases "validator v")
  case True
  obtain b db1 where b: "getBook db (strOf (getProp v ''bookId'')) = (b, db1)" by fastforce
  have q: "onlyQuarantines db db1" "s \<noteq> BOOKS_STORE \<Longrightarrow> idbGet db1 s = idbGet db s"
    using onlyQuarantines_getBook [of db "strOf (getProp v ''bookId'')"]
      idbGet_getBook [of s db "strOf (getProp v ''bookId'')"] by (auto simp: b)
  show ?thesis
  proof (cases "\<exists>c. b = Some c \<and> getProp c ''format'' = getProp v ''format''")
    case True
    then show ?thesis using b q \<open>validator v\<close> saved [of db1] by (auto simp: saveChecked_def)
  next
    case False
    then have "saveChecked db s validator v = (Inl PublicationUnavailable, db1)"
      using True b by (auto simp: saveChecked_def split: option.splits)
    then show ?thesis using q error by blast
  qed
next
  case False
  then show ?thesis using error [of InvalidRecord db] by (simp add: saveChecked_def)
qed

lemma librarySave_dbOk: "librarySave db db' \<Longrightarrow> dbOk db \<Longrightarrow> dbOk db'"
proof -
  have "dbOk (snd (saveChecked db s validator v))" if "dbOk db" for db s validator v
    using that by (cases rule: saveChecked_cases [of db s validator v]) (auto intro: onlyQuarantines_dbOk dbOk_idbWrite)
  then show "librarySave db db' \<Longrightarrow> dbOk db \<Longrightarrow> dbOk db'"
    by (auto elim!: librarySave.cases simp: saveProgress_def saveProgressDocument_def saveBookmark_def saveAnnotation_def)
qed

text \<open>Whatever reads and saves are made, the stores stay sorted by key and hold every record under
  its own key.\<close>

theorem library_session_invariant:
  assumes "librarySession lc db db'" and "dbOk db"
  shows "dbOk db'"
  using assms
  by (induction rule: librarySession.induct)
    (auto intro: librarySave_dbOk onlyQuarantines_dbOk [OF libraryRead_onlyQuarantines])


section \<open>Validated reads\<close>

definition quarantineRecord :: "LibraryDb \<Rightarrow> ActiveLibraryStore \<Rightarrow> string \<Rightarrow> idbKey \<times> jsval \<Rightarrow> QuarantinedLibraryRecord" where
  "quarantineRecord db s reason e = \<lparr>q_storeName = s, q_recordKey = fst e, q_value = snd e, q_reason = reason,
     q_quarantinedAt = db_now db\<rparr>"

lemma deleteEntry_filter: "deleteEntry k es = filter (\<lambda>e. fst e \<noteq> k) es"
  by (induction es) auto

lemma validatedEntries_loop:
  assumes "distinct (map fst entries)" and "\<forall>(k, v) \<in> set entries. idbGet db s k = Some v"
  shows "foldl (\<lambda>(valid, db) (k, v).
         if validator v then (valid @ [v], db) else (valid, quarantineInvalidRecord db s k validator reason))
       (acc, db) entries =
     (acc @ filter validator (map snd entries),
      db\<lparr>db_quarantine := db_quarantine db @ map (quarantineRecord db s reason) (filter (\<lambda>e. \<not> validator (snd e)) entries),
         db_stores := (db_stores db)(s := filter (\<lambda>e. fst e \<notin> fst ` set (filter (\<lambda>e. \<not> validator (snd e)) entries)) (db_stores db s))\<rparr>)"
  using assms
proof (induction entries arbitrary: acc db)
  case (Cons e es)
  obtain k v where e: "e = (k, v)" by fastforce
  show ?case
  proof (cases "validator v")
    case True
    then show ?thesis using Cons by (simp add: e)
  next
    case False
    let ?db = "quarantineInvalidRecord db s k validator reason"
    have db': "?db = db\<lparr>db_quarantine := db_quarantine db @ [quarantineRecord db s reason e],
        db_stores := (db_stores db)(s := deleteEntry k (db_stores db s))\<rparr>"
      using Cons.prems(2) False by (simp add: e quarantineInvalidRecord_def quarantineRecord_def)
    have "\<forall>(k', v') \<in> set es. idbGet ?db s k' = Some v'"
      using Cons.prems by (fastforce simp: db' e idbGet_def delete_conv image_iff)
    from Cons.IH [OF _ this, of acc] show ?thesis
      using Cons.prems(1) False
      by (simp add: e db' quarantineRecord_def deleteEntry_filter split_beta filter_filter conj_commute fun_upd_def cong: if_cong)
  qed
qed (simp add: fun_upd_def)

text \<open>Reading a whole store returns exactly the records that pass the validator, in key order; the others
  leave the store and are appended to the quarantine with their key, value, reason and time; the other
  stores are untouched. Reading once more returns the same records and quarantines nothing.\<close>

theorem validated_read_partitions:
  assumes "dbOk db"
  shows "let (valid, db') = readAllValidated db s validator reason in
    valid = filter validator (map snd (db_stores db s)) \<and>
    db_stores db' s = filter (\<lambda>e. validator (snd e)) (db_stores db s) \<and>
    (\<forall>s'. s' \<noteq> s \<longrightarrow> db_stores db' s' = db_stores db s') \<and>
    db_quarantine db' = db_quarantine db @
      map (quarantineRecord db s reason) (filter (\<lambda>e. \<not> validator (snd e)) (db_stores db s)) \<and>
    readAllValidated db' s validator reason = (valid, db')"
proof -
  have d: "distinct (map fst (db_stores db s))" using assms by (simp add: dbOk_def storeOk_distinct)
  have all: "\<forall>(k, v) \<in> set (db_stores db s). idbGet db s k = Some v" using d by (simp add: idbGet_def)
  have keep: "filter (\<lambda>e. fst e \<notin> fst ` set (filter (\<lambda>e. \<not> validator (snd e)) (db_stores db s))) (db_stores db s) =
      filter (\<lambda>e. validator (snd e)) (db_stores db s)"
    using d by (intro filter_cong) (auto simp: image_iff dest: eq_key_imp_eq_value)
  let ?db = "db\<lparr>db_quarantine := db_quarantine db @
        map (quarantineRecord db s reason) (filter (\<lambda>e. \<not> validator (snd e)) (db_stores db s)),
      db_stores := (db_stores db)(s := filter (\<lambda>e. validator (snd e)) (db_stores db s))\<rparr>"
  have first: "readAllValidated db s validator reason = (filter validator (map snd (db_stores db s)), ?db)"
    unfolding readAllValidated_def validatedEntries_def validatedEntries_loop [OF d all] keep by simp
  have again: "foldl (\<lambda>(valid, db) (k, v).
         if validator v then (valid @ [v], db) else (valid, quarantineInvalidRecord db s k validator reason))
       (acc, db') es = (acc @ map snd es, db')" if "\<forall>e \<in> set es. validator (snd e)" for acc db' es
    using that by (induction es arbitrary: acc) auto
  have "readAllValidated ?db s validator reason = (filter validator (map snd (db_stores db s)), ?db)"
    unfolding readAllValidated_def validatedEntries_def
    by (subst again) (auto simp: filter_map comp_def)
  then show ?thesis by (simp add: first)
qed

section \<open>The repository interface\<close>

text \<open>
  What the synchronization services rely on when they save records of one kind: a record that was
  saved is what is stored under its key, other keys are not affected, and a failed save stores nothing.
\<close>

fun saveEach :: "('db \<Rightarrow> 'p \<Rightarrow> ('e + unit) \<times> 'db) \<Rightarrow> 'db \<Rightarrow> 'p list \<Rightarrow> ('e + unit) \<times> 'db" where
  "saveEach save db [] = (Inr (), db)"
| "saveEach save db (p # ps) = (case save db p of (Inl e, db') \<Rightarrow> (Inl e, db') | (Inr _, db') \<Rightarrow> saveEach save db' ps)"

locale record_repository =
  fixes save :: "'db \<Rightarrow> 'p \<Rightarrow> ('e + unit) \<times> 'db" and stored :: "'db \<Rightarrow> 'k \<Rightarrow> 'p option" and key :: "'p \<Rightarrow> 'k"
  assumes stored_saved: "save db p = (Inr (), db') \<Longrightarrow> stored db' k = (if k = key p then Some p else stored db k)"
    and stored_error: "save db p = (Inl e, db') \<Longrightarrow> stored db' k = stored db k"
begin

lemma saveEach_stored:
  assumes "saveEach save db ps = (Inr (), db')" and "distinct (map key ps)"
  shows "(\<forall>p \<in> set ps. stored db' (key p) = Some p) \<and> (\<forall>k. k \<notin> key ` set ps \<longrightarrow> stored db' k = stored db k)"
  using assms
proof (induction ps arbitrary: db)
  case (Cons p ps)
  obtain r db1 where r: "save db p = (r, db1)" by fastforce
  with Cons.prems obtain u where u: "r = Inr u" by (cases r) auto
  then have "stored db1 k = (if k = key p then Some p else stored db k)" for k
    using stored_saved [of db p db1 k] r by simp
  moreover have "(\<forall>q \<in> set ps. stored db' (key q) = Some q) \<and> (\<forall>k. k \<notin> key ` set ps \<longrightarrow> stored db' k = stored db1 k)"
    using Cons.IH [of db1] Cons.prems r u by simp
  ultimately show ?case using Cons.prems(2) by auto
qed simp

end

lemma getBook_some:
  assumes "getBook db i = (Some b, db')"
  shows "db' = db" and "idbGet db BOOKS_STORE [i] = Some b" and "isBookRecord b" and "getProp b ''id'' = JStr i"
  using assms by (auto simp: getBook_def readValidated_def split: option.splits if_splits)

lemma getBook_unchanged:
  "idbGet db BOOKS_STORE [i] = Some b \<Longrightarrow> isBookRecord b \<Longrightarrow> getProp b ''id'' = JStr i \<Longrightarrow> getBook db i = (Some b, db)"
  by (simp add: getBook_def readValidated_def)

lemma saveChecked_saved:
  assumes "saveChecked db s validator v = (Inr (), db')"
  obtains b where "db' = idbWrite db s v" "validator v" "getBook db (strOf (getProp v ''bookId'')) = (Some b, db)"
    "getProp b ''format'' = getProp v ''format''"
proof (cases rule: saveChecked_cases [of db s validator v])
  case (saved b db1)
  then have "db1 = db" by (blast dest: getBook_some(1))
  then show ?thesis using that [of b] saved assms by simp
qed (use assms in simp)

lemma saveChecked_failed:
  "saveChecked db s validator v = (Inl e, db') \<Longrightarrow> s \<noteq> BOOKS_STORE \<Longrightarrow> idbGet db' s = idbGet db s"
  by (cases rule: saveChecked_cases [of db s validator v]) auto

lemma stored_saveChecked:
  assumes "\<And>p. recordKey s (val p) = f (key p)" and "inj f" and "\<And>p. ofVal (val p) = p" and "s \<noteq> BOOKS_STORE"
  shows "record_repository (\<lambda>db p. saveChecked db s validator (val p)) (\<lambda>db k. map_option ofVal (idbGet db s (f k))) key"
proof
  show "map_option ofVal (idbGet db' s (f k)) = (if k = key p then Some p else map_option ofVal (idbGet db s (f k)))"
    if "saveChecked db s validator (val p) = (Inr (), db')" for db db' p k
    using that by (rule saveChecked_saved) (simp add: idbGet_idbWrite assms(1,3) inj_eq [OF assms(2)])
  show "map_option ofVal (idbGet db' s (f k)) = map_option ofVal (idbGet db s (f k))"
    if "saveChecked db s validator (val p) = (Inl e, db')" for db db' p e k
    using saveChecked_failed [OF that assms(4)] by simp
qed

definition storedDocument :: "LibraryDb \<Rightarrow> string \<times> string \<Rightarrow> ReadingProgress option" where
  "storedDocument db k = map_option progressOf (idbGet db PROGRESS_DOCUMENTS_STORE [fst k, snd k])"

definition storedProgress :: "LibraryDb \<Rightarrow> string \<Rightarrow> ReadingProgress option" where
  "storedProgress db i = map_option progressOf (idbGet db PROGRESS_STORE [i])"

definition storedBookmark :: "LibraryDb \<Rightarrow> string \<Rightarrow> PublicationBookmark option" where
  "storedBookmark db i = map_option bookmarkOf (idbGet db BOOKMARKS_STORE [i])"

interpretation documents: record_repository saveProgressDocument storedDocument "\<lambda>p. (rp_bookId p, rp_deviceId p)"
  unfolding saveProgressDocument_def storedDocument_def
  by (rule stored_saveChecked) (auto simp: recordKey_def keyPath_def strOf_def inj_def)

interpretation positions: record_repository saveProgress storedProgress rp_bookId
  unfolding saveProgress_def storedProgress_def
  by (rule stored_saveChecked) (auto simp: recordKey_def keyPath_def strOf_def inj_def)

interpretation bookmarks: record_repository saveBookmark storedBookmark bm_id
  unfolding saveBookmark_def storedBookmark_def
  by (rule stored_saveChecked) (auto simp: recordKey_def keyPath_def strOf_def inj_def)

section \<open>Saving and reading back\<close>

lemma getMark_saved:
  assumes "saveChecked db s isMark v = (Inr (), db')" and "s \<noteq> BOOKS_STORE"
    and "recordKey s v = [i]" and "getProp v ''id'' = JStr i"
  shows "getMark db' s isMark reason mismatch i = (Some v, db')"
proof -
  from assms(1) obtain b where b: "db' = idbWrite db s v" "isMark v" "getBook db (strOf (getProp v ''bookId'')) = (Some b, db)"
    "getProp b ''format'' = getProp v ''format''"
    by (rule saveChecked_saved)
  have "getBook db' (strOf (getProp v ''bookId'')) = (Some b, db')"
    using getBook_some [OF b(3)] assms(2) by (intro getBook_unchanged) (simp_all add: b(1) idbGet_idbWrite)
  then show ?thesis
    using b assms(3,4) by (simp add: getMark_def readValidated_def idbGet_idbWrite)
qed

text \<open>What was saved can be read back unchanged: the position of a book by its book, a bookmark and an
  annotation by their identifiers; the read changes nothing.\<close>

theorem library_save_roundtrip:
  "(saveProgress db p = (Inr (), db1) \<longrightarrow> getProgress db1 (rp_bookId p) = (Some (progressVal p), db1)) \<and>
   (saveBookmark db m = (Inr (), db2) \<longrightarrow> getBookmark db2 (bm_id m) = (Some (bookmarkVal m), db2)) \<and>
   (saveAnnotation db a = (Inr (), db3) \<longrightarrow> getAnnotation db3 (an_id a) = (Some (annotationVal a), db3))"
proof (intro conjI impI)
  assume "saveProgress db p = (Inr (), db1)"
  then obtain b where b: "db1 = idbWrite db PROGRESS_STORE (progressVal p)" "isReadingProgress (progressVal p)"
    "getBook db (rp_bookId p) = (Some b, db)" "getProp b ''format'' = formatVal (rp_format p)"
    unfolding saveProgress_def by (elim saveChecked_saved) (simp add: strOf_def)
  have "getBook db1 (rp_bookId p) = (Some b, db1)"
    using getBook_some [OF b(3)] by (intro getBook_unchanged) (simp_all add: b(1) idbGet_idbWrite)
  then show "getProgress db1 (rp_bookId p) = (Some (progressVal p), db1)"
    using b by (simp add: getProgress_def readValidated_def idbGet_idbWrite recordKey_def keyPath_def strOf_def)
next
  assume "saveBookmark db m = (Inr (), db2)"
  then show "getBookmark db2 (bm_id m) = (Some (bookmarkVal m), db2)"
    unfolding saveBookmark_def getBookmark_def
    by (rule getMark_saved) (simp_all add: recordKey_def keyPath_def strOf_def)
next
  assume "saveAnnotation db a = (Inr (), db3)"
  then show "getAnnotation db3 (an_id a) = (Some (annotationVal a), db3)"
    unfolding saveAnnotation_def getAnnotation_def
    by (rule getMark_saved) (simp_all add: recordKey_def keyPath_def strOf_def annotationVal_def)
qed

section \<open>An example library\<close>

definition exampleBookmark :: PublicationBookmark where
  "exampleBookmark = sampleBookmark\<lparr>bm_bookId := br_id sampleBook, bm_deletedAt := None\<rparr>"

text \<open>One publication and a bookmark of a publication that is not there.\<close>

definition exampleDb :: LibraryDb where
  "exampleDb = \<lparr>db_stores = (\<lambda>s. case s of
       BOOKS_STORE \<Rightarrow> [([br_id sampleBook], bookVal sampleBook)]
     | BOOKMARKS_STORE \<Rightarrow> [([bm_id sampleBookmark], bookmarkVal sampleBookmark)]
     | _ \<Rightarrow> []), db_quarantine = [], db_files = [], db_now = ''2024-05-03T10:00:00.000Z''\<rparr>"

lemma dbOk_exampleDb: "dbOk exampleDb"
  by (auto simp: dbOk_def exampleDb_def recordKey_def keyPath_def strOf_def split: ActiveLibraryStore.splits)

theorem library_session_invariant_witness:
  "dbOk (snd (listBookmarks codeUnitCompare exampleDb None False))"
  by (rule library_session_invariant [OF session_read [OF session_start read_bookmarks] dbOk_exampleDb])


theorem validated_read_partitions_witness:
  "fst (readAllValidated exampleDb BOOKMARKS_STORE isPublicationBookmark []) = [bookmarkVal sampleBookmark]"
  using validated_read_partitions [OF dbOk_exampleDb, of BOOKMARKS_STORE isPublicationBookmark "[]"]
    isPublicationBookmark_sample
  by (simp add: split_beta exampleDb_def)

theorem library_save_roundtrip_witness:
  "getBookmark (snd (saveBookmark exampleDb exampleBookmark)) (bm_id exampleBookmark) =
     (Some (bookmarkVal exampleBookmark), snd (saveBookmark exampleDb exampleBookmark))"
proof -
  have "fst (saveBookmark exampleDb exampleBookmark) = Inr ()" by code_simp
  then show ?thesis using library_save_roundtrip by (metis prod.collapse)
qed

end
