(* ===== verification/Binary_Storage.thy ===== *)
theory Binary_Storage
  imports Library_Store Book_Manifest
begin

text \<open>
  The bytes of publications: \<open>libs/library/data-access/src/lib/publication-binary-storage.ts\<close>, which keeps them in a file
  of the origin-private file system when the browser has one and in the database otherwise, and the
  operations of \<open>browser-library-repository.ts\<close> that read and replace them. What the file system does is an
  argument of every operation that uses it.
\<close>

section \<open>Formats\<close>

text \<open>The first bytes of a publication; bytes are characters.\<close>

definition detectPublicationBlobFormat :: "string \<Rightarrow> PublicationFormat option" where
  "detectPublicationBlobFormat blob =
     (let bytes = take 5 blob in
      if bytes = [CHR 0x25, CHR 0x50, CHR 0x44, CHR 0x46, CHR 0x2D] then Some Pdf
      else if length bytes \<ge> 4 \<and> take 2 bytes = [CHR 0x50, CHR 0x4B] \<and>
              (take 2 (drop 2 bytes) = [CHR 0x03, CHR 0x04] \<or> take 2 (drop 2 bytes) = [CHR 0x05, CHR 0x06] \<or>
               take 2 (drop 2 bytes) = [CHR 0x07, CHR 0x08])
      then Some Epub else None)"

text \<open>A publication offered to the library: \<open>source.open()\<close> gives its bytes.\<close>

record BookSource =
  src_name :: string
  src_mediaType :: string
  src_size :: jsnum
  src_content :: string

section \<open>Stored publications\<close>

record StoredPublicationBinaryBase =
  sb_bookId :: string
  sb_fileName :: string
  sb_mediaType :: string
  sb_size :: jsnum

datatype StoredPublicationBinary =
    IndexedDbBytes StoredPublicationBinaryBase string
  | IndexedDbBlob StoredPublicationBinaryBase string string
  | OpfsBinary StoredPublicationBinaryBase string

fun binaryBase :: "StoredPublicationBinary \<Rightarrow> StoredPublicationBinaryBase" where
  "binaryBase (IndexedDbBytes base _) = base"
| "binaryBase (IndexedDbBlob base _ _) = base"
| "binaryBase (OpfsBinary base _) = base"

definition binaryFields :: "string \<Rightarrow> StoredPublicationBinaryBase \<Rightarrow> (string \<times> jsval) list" where
  "binaryFields storage base =
     [(''schemaVersion'', JInt 2), (''storage'', JStr storage), (''bookId'', JStr (sb_bookId base)),
      (''fileName'', JStr (sb_fileName base)), (''mediaType'', JStr (sb_mediaType base)), (''size'', JNum (sb_size base))]"

fun binaryVal :: "StoredPublicationBinary \<Rightarrow> jsval" where
  "binaryVal (IndexedDbBytes base bytes) = JObj (binaryFields ''indexeddb'' base @ [(''bytes'', JBytes bytes)])"
| "binaryVal (IndexedDbBlob base mediaType content) = JObj (binaryFields ''indexeddb'' base @ [(''blob'', JBlob mediaType content)])"
| "binaryVal (OpfsBinary base opfsFileName) = JObj (binaryFields ''opfs'' base @ [(''opfsFileName'', JStr opfsFileName)])"

fun asArrayBuffer :: "jsval \<Rightarrow> string option" where
  "asArrayBuffer (JBytes bytes) = Some bytes"
| "asArrayBuffer _ = None"

fun asBlob :: "jsval \<Rightarrow> (string \<times> string) option" where
  "asBlob (JBlob mediaType content) = Some (mediaType, content)"
| "asBlob _ = None"

definition blobSize :: "string \<Rightarrow> jsnum" where
  "blobSize content = Fin (of_nat (length content))"

definition digestOf :: "jsval \<Rightarrow> string option" where
  "digestOf v = (case v of JStr s \<Rightarrow> if matchesSha256 ''sha256:'' s then Some (drop 7 s) else None | _ \<Rightarrow> None)"

definition parseStoredPublicationBinary :: "jsval \<Rightarrow> StoredPublicationBinary option" where
  "parseStoredPublicationBinary v =
     (let bookId = getProp v ''bookId''; fileName = getProp v ''fileName''; mediaType = getProp v ''mediaType'';
          size = getProp v ''size''; version = getProp v ''schemaVersion''; storage = getProp v ''storage'';
          base = (\<lambda>n. \<lparr>sb_bookId = strOf bookId, sb_fileName = strOf fileName, sb_mediaType = strOf mediaType, sb_size = n\<rparr>)
      in if \<not> isRecord v then None
      else case digestOf bookId of
        None \<Rightarrow> None
      | Some digest \<Rightarrow>
          if \<not> isBoundedString fileName 1024 \<or> \<not> isBoundedString mediaType 1024 then None
          else if storage = JStr ''opfs'' then
            (let opfsFileName = getProp v ''opfsFileName'' in
             if version = JInt 2 \<and> isSafeIntegerFrom 1 size \<and>
                (opfsFileName = JStr (digest @ ''.epub'') \<or> opfsFileName = JStr (digest @ ''.pdf''))
             then Some (OpfsBinary (base (numOf size)) (strOf opfsFileName)) else None)
          else
            case asBlob (getProp v ''blob'') of
              Some (t, content) \<Rightarrow>
                if version = JInt 2 \<and> storage = JStr ''indexeddb'' \<and> size = JNum (blobSize content) \<or>
                   version = JUndef \<and> storage = JUndef
                then Some (IndexedDbBlob (base (blobSize content)) t content)
                else (case asArrayBuffer (getProp v ''bytes'') of
                  Some bytes \<Rightarrow> if version = JInt 2 \<and> storage = JStr ''indexeddb'' \<and> size = JNum (blobSize bytes)
                    then Some (IndexedDbBytes (base (blobSize bytes)) bytes) else None
                | None \<Rightarrow> None)
            | None \<Rightarrow> (case asArrayBuffer (getProp v ''bytes'') of
                  Some bytes \<Rightarrow> if version = JInt 2 \<and> storage = JStr ''indexeddb'' \<and> size = JNum (blobSize bytes)
                    then Some (IndexedDbBytes (base (blobSize bytes)) bytes) else None
                | None \<Rightarrow> None))"

section \<open>The file system\<close>

text \<open>
  \<open>fs_directory\<close>: the publications directory can be opened. \<open>fs_written name content\<close>: what a file holds after the
  content was written to it, \<open>None\<close> when creating or writing the file fails. \<open>fs_readable name\<close>: an existing file
  can be opened.
\<close>

record FileSystem =
  fs_directory :: bool
  fs_written :: "string \<Rightarrow> string \<Rightarrow> string option"
  fs_readable :: "string \<Rightarrow> bool"

datatype StorageError = PublicationIdNotFingerprint

record PublicationBinaryWrite =
  pw_bookId :: string
  pw_format :: PublicationFormat
  pw_fileName :: string
  pw_mediaType :: string
  pw_blob :: string

definition publicationFileName :: "string \<Rightarrow> PublicationFormat \<Rightarrow> StorageError + string" where
  "publicationFileName bookId format =
     (case digestOf (JStr bookId) of
        None \<Rightarrow> Inl PublicationIdNotFingerprint
      | Some digest \<Rightarrow> Inr (digest @ ''.'' @ formatString format))"

definition requestBase :: "PublicationBinaryWrite \<Rightarrow> StoredPublicationBinaryBase" where
  "requestBase request = \<lparr>sb_bookId = pw_bookId request, sb_fileName = pw_fileName request,
     sb_mediaType = pw_mediaType request, sb_size = blobSize (pw_blob request)\<rparr>"

text \<open>A write that fails, or that did not persist every byte, removes the file.\<close>

definition writeOpfs ::
  "FileSystem \<Rightarrow> LibraryDb \<Rightarrow> PublicationBinaryWrite \<Rightarrow> (StorageError + StoredPublicationBinary option) \<times> LibraryDb" where
  "writeOpfs fs db request =
     (case publicationFileName (pw_bookId request) (pw_format request) of
        Inl e \<Rightarrow> (Inl e, db)
      | Inr opfsFileName \<Rightarrow>
          if \<not> fs_directory fs then (Inr None, db)
          else case fs_written fs opfsFileName (pw_blob request) of
            None \<Rightarrow> (Inr None, db\<lparr>db_files := mapDelete opfsFileName (db_files db)\<rparr>)
          | Some persisted \<Rightarrow>
              if length persisted \<noteq> length (pw_blob request)
              then (Inr None, db\<lparr>db_files := mapDelete opfsFileName (db_files db)\<rparr>)
              else (Inr (Some (OpfsBinary (requestBase request) opfsFileName)),
                    db\<lparr>db_files := mapSet opfsFileName persisted (db_files db)\<rparr>))"

definition saveBinary ::
  "FileSystem \<Rightarrow> LibraryDb \<Rightarrow> PublicationBinaryWrite \<Rightarrow> (StorageError + StoredPublicationBinary) \<times> LibraryDb" where
  "saveBinary fs db request =
     (case writeOpfs fs db request of
        (Inl e, db') \<Rightarrow> (Inl e, db')
      | (Inr (Some stored), db') \<Rightarrow> (Inr stored, db')
      | (Inr None, db') \<Rightarrow> (Inr (IndexedDbBytes (requestBase request) (pw_blob request)), db'))"

definition openBinary :: "FileSystem \<Rightarrow> LibraryDb \<Rightarrow> StoredPublicationBinary \<Rightarrow> string option" where
  "openBinary fs db stored =
     (let sized = (\<lambda>content. if blobSize content = sb_size (binaryBase stored) then Some content else None) in
      case stored of
        IndexedDbBytes _ bytes \<Rightarrow> sized bytes
      | IndexedDbBlob _ _ content \<Rightarrow> sized content
      | OpfsBinary _ opfsFileName \<Rightarrow>
          if \<not> fs_directory fs \<or> \<not> fs_readable fs opfsFileName then None
          else case map_of (db_files db) opfsFileName of None \<Rightarrow> None | Some content \<Rightarrow> sized content)"

definition migrateBinary ::
  "FileSystem \<Rightarrow> LibraryDb \<Rightarrow> StoredPublicationBinary \<Rightarrow> PublicationFormat \<Rightarrow> (StorageError + StoredPublicationBinary) \<times> LibraryDb" where
  "migrateBinary fs db stored format =
     (let toOpfs = (\<lambda>base content.
            case writeOpfs fs db \<lparr>pw_bookId = sb_bookId base, pw_format = format, pw_fileName = sb_fileName base,
                pw_mediaType = sb_mediaType base, pw_blob = content\<rparr> of
              (Inl e, db') \<Rightarrow> (Inl e, db')
            | (Inr None, db') \<Rightarrow> (Inr stored, db')
            | (Inr (Some migrated), db') \<Rightarrow> (Inr migrated, db'))
      in case stored of
           OpfsBinary _ _ \<Rightarrow> (Inr stored, db)
         | IndexedDbBytes base bytes \<Rightarrow> toOpfs base bytes
         | IndexedDbBlob base _ content \<Rightarrow> toOpfs base content)"

definition removeBinary :: "FileSystem \<Rightarrow> StoredPublicationBinary \<Rightarrow> LibraryDb \<Rightarrow> LibraryDb" where
  "removeBinary fs stored db =
     (case stored of
        OpfsBinary _ opfsFileName \<Rightarrow> if fs_directory fs then db\<lparr>db_files := mapDelete opfsFileName (db_files db)\<rparr> else db
      | _ \<Rightarrow> db)"

section \<open>Reading and replacing the bytes of a publication\<close>

definition getStoredBinary :: "LibraryDb \<Rightarrow> string \<Rightarrow> StoredPublicationBinary option \<times> LibraryDb" where
  "getStoredBinary db bookId =
     (case idbGet db BINARIES_STORE [bookId] of
        None \<Rightarrow> (None, db)
      | Some v \<Rightarrow>
          (case parseStoredPublicationBinary v of
             Some parsed \<Rightarrow> (Some parsed, db)
           | None \<Rightarrow> (None, quarantineInvalidRecord db BINARIES_STORE [bookId] (\<lambda>c. parseStoredPublicationBinary c \<noteq> None)
               ''Publication binary reference failed identity or schema validation'')))"

definition quarantineStoredBinary :: "LibraryDb \<Rightarrow> string \<Rightarrow> string \<Rightarrow> LibraryDb" where
  "quarantineStoredBinary db bookId reason = quarantineInvalidRecord db BINARIES_STORE [bookId] (\<lambda>_. False) reason"

definition writeRequest :: "BookRecord \<Rightarrow> string \<Rightarrow> string \<Rightarrow> string \<Rightarrow> PublicationBinaryWrite" where
  "writeRequest book blob fileName mediaType =
     \<lparr>pw_bookId = br_id book, pw_format = br_format book, pw_fileName = fileName, pw_mediaType = mediaType, pw_blob = blob\<rparr>"

definition replaceStoredBinary ::
  "FileSystem \<Rightarrow> LibraryDb \<Rightarrow> BookRecord \<Rightarrow> string \<Rightarrow> string \<Rightarrow> string \<Rightarrow> (StorageError + unit) \<times> LibraryDb" where
  "replaceStoredBinary fs db book blob fileName mediaType =
     (case saveBinary fs db (writeRequest book blob fileName mediaType) of
        (Inl e, db') \<Rightarrow> (Inl e, db')
      | (Inr replacement, db') \<Rightarrow> (Inr (), idbWrite db' BINARIES_STORE (binaryVal replacement)))"

text \<open>\<open>if (migrated !== stored)\<close>: a migration either returns what it was given or a reference to a file.\<close>

definition getBookSource ::
  "FileSystem \<Rightarrow> LibraryDb \<Rightarrow> string \<Rightarrow> (StorageError + (string \<times> string \<times> string) option) \<times> LibraryDb" where
  "getBookSource fs db0 bookId =
     (let (storedVal, db1) = getStoredBinary db0 bookId; (book, db2) = getBook db1 bookId in
      case (storedVal, book) of
        (Some stored, Some b) \<Rightarrow>
          (case migrateBinary fs db2 stored (br_format (bookOf b)) of
             (Inl e, db3) \<Rightarrow> (Inl e, db3)
           | (Inr migrated, db3) \<Rightarrow>
               (let db4 = (if migrated \<noteq> stored then idbWrite db3 BINARIES_STORE (binaryVal migrated) else db3) in
                (Inr (map_option (\<lambda>content. (sb_fileName (binaryBase migrated), sb_mediaType (binaryBase migrated), content))
                  (openBinary fs db4 migrated)), db4)))
      | _ \<Rightarrow> (Inr None, db2))"

section \<open>Covers\<close>

definition isStoredCover :: "jsval \<Rightarrow> string \<Rightarrow> bool" where
  "isStoredCover v expectedBookId =
     (isRecord v \<and> getProp v ''bookId'' = JStr expectedBookId \<and> matchesSha256 ''sha256:'' expectedBookId \<and>
      (asBlob (getProp v ''blob'') \<noteq> None \<or>
       isBoundedString (getProp v ''mediaType'') 128 \<and> asArrayBuffer (getProp v ''bytes'') \<noteq> None))"

definition getBookCover :: "LibraryDb \<Rightarrow> string \<Rightarrow> (string \<times> string) option \<times> LibraryDb" where
  "getBookCover db bookId =
     (let (stored, db') = readValidated db COVERS_STORE [bookId] (\<lambda>v. isStoredCover v bookId)
            ''Cover cache failed identity or schema validation'' in
      (case stored of
         None \<Rightarrow> None
       | Some v \<Rightarrow>
           (case asBlob (getProp v ''blob'') of
              Some blob \<Rightarrow> Some blob
            | None \<Rightarrow> (case (asArrayBuffer (getProp v ''bytes''), getProp v ''mediaType'') of
                (Some bytes, JStr mediaType) \<Rightarrow> Some (mediaType, bytes) | _ \<Rightarrow> None)), db'))"

definition coverVal :: "string \<Rightarrow> string \<Rightarrow> string \<times> string \<Rightarrow> jsval" where
  "coverVal key i cover = JObj [(key, JStr i), (''mediaType'', JStr (fst cover)), (''bytes'', JBytes (snd cover))]"

definition getLogicalBookCover :: "LibraryDb \<Rightarrow> string \<Rightarrow> (string \<times> string) option \<times> LibraryDb" where
  "getLogicalBookCover db logicalBookId =
     (let (stored, db') = readValidated db LOGICAL_BOOK_COVERS_STORE [logicalBookId]
            (\<lambda>v. isRecord v \<and> getProp v ''logicalBookId'' = JStr logicalBookId \<and>
               (asBlob (getProp v ''blob'') \<noteq> None \<or>
                isStr (getProp v ''mediaType'') \<and> strOf (getProp v ''mediaType'') \<noteq> [] \<and> asArrayBuffer (getProp v ''bytes'') \<noteq> None))
            ''Logical book cover failed identity or schema validation'' in
      (case stored of
         None \<Rightarrow> None
       | Some v \<Rightarrow>
           if hasOwn v ''blob'' then asBlob (getProp v ''blob'')
           else map_option (\<lambda>bytes. (strOf (getProp v ''mediaType''), bytes)) (asArrayBuffer (getProp v ''bytes'')), db'))"

end
