(* ===== verification/Library_Catalog.thy ===== *)
theory Library_Catalog
  imports Binary_Storage
begin

text \<open>
  The catalog of logical books in \<open>libs/library/data-access/src/lib/browser-library-repository.ts\<close>: its reads, the
  outbox of changes, and the mutations that group, split and delete the formats of a book. A mutation
  reads, computes, and commits one transaction. What other operations do to the database between the
  reads and the transaction is the argument \<open>between\<close> of every mutation. The digest of the browser is an argument.
\<close>

section \<open>Typed views of stored records\<close>

definition variantsOf :: "jsval \<Rightarrow> (PublicationFormat, string) jsMap" where
  "variantsOf v = List.map_filter (\<lambda>k. case getProp v k of JStr s \<Rightarrow> Some (formatOf (JStr k), s) | _ \<Rightarrow> None)
     (jsUnique (objectKeys v))"

definition logicalCoverOf :: "jsval \<Rightarrow> LogicalCoverState" where
  "logicalCoverOf v = (if v = JStr ''available'' then LogicalAvailable
     else if v = JStr ''unavailable'' then LogicalUnavailable else LogicalPending)"

definition logicalBookOf :: "jsval \<Rightarrow> LogicalBookRecord" where
  "logicalBookOf v =
     \<lparr>lb_id = strOf (getProp v ''id''), lb_title = strOf (getProp v ''title''),
      lb_authors = map strOf (arrOf (getProp v ''authors'')), lb_language = optOf strOf (getProp v ''language''),
      lb_publisher = optOf strOf (getProp v ''publisher''), lb_identifier = optOf strOf (getProp v ''identifier''),
      lb_importedAt = strOf (getProp v ''importedAt''), lb_updatedAt = strOf (getProp v ''updatedAt''),
      lb_coverState = logicalCoverOf (getProp v ''coverState''), lb_variants = variantsOf (getProp v ''variants'')\<rparr>"

definition formatPreferenceOf :: "jsval \<Rightarrow> LogicalBookFormatPreference" where
  "formatPreferenceOf v =
     \<lparr>fp_logicalBookId = strOf (getProp v ''logicalBookId''), fp_preferredFormat = formatOf (getProp v ''preferredFormat''),
      fp_winningChangeId = strOf (getProp v ''winningChangeId''),
      fp_preferenceHeads = map strOf (arrOf (getProp v ''preferenceHeads'')),
      fp_updatedAt = strOf (getProp v ''updatedAt''), fp_deviceId = strOf (getProp v ''deviceId'')\<rparr>"

definition membershipOf :: "jsval \<Rightarrow> MembershipTuple" where
  "membershipOf v = \<lparr>mt_logicalBookId = strOf (getProp v ''logicalBookId''), mt_format = formatOf (getProp v ''format''),
     mt_variantId = strOf (getProp v ''variantId'')\<rparr>"

definition reconciliationOf :: "jsval \<Rightarrow> MembershipReconciliation" where
  "reconciliationOf v =
     \<lparr>mr_conflictId = strOf (getProp v ''conflictId''),
      mr_status = (if getProp v ''status'' = JStr ''resolved'' then ReconciliationResolved else ReconciliationOpen),
      mr_conflictingChangeIds = map strOf (arrOf (getProp v ''conflictingChangeIds'')),
      mr_affectedVariantIds = map strOf (arrOf (getProp v ''affectedVariantIds'')),
      mr_acceptedMembership = map membershipOf (arrOf (getProp v ''acceptedMembership'')),
      mr_rejectedMembership = map membershipOf (arrOf (getProp v ''rejectedMembership'')),
      mr_resolvedByChangeId = optOf strOf (getProp v ''resolvedByChangeId''),
      mr_detectedAt = strOf (getProp v ''detectedAt'')\<rparr>"

section \<open>Reads\<close>

definition ascendingBy :: "(string \<Rightarrow> string \<Rightarrow> int) \<Rightarrow> string \<Rightarrow> jsval \<Rightarrow> jsval \<Rightarrow> int" where
  "ascendingBy localeCompare k left right = localeCompare (strOf (getProp left k)) (strOf (getProp right k))"

definition listLogicalBooks :: "(string \<Rightarrow> string \<Rightarrow> int) \<Rightarrow> LibraryDb \<Rightarrow> jsval list \<times> LibraryDb" where
  "listLogicalBooks localeCompare db =
     (let (records, db) = readAllValidated db LOGICAL_BOOKS_STORE isLogicalBookRecord ''Logical book failed schema validation''
      in (jsSort (ascendingBy localeCompare ''id'') records, db))"

definition getLogicalBook :: "LibraryDb \<Rightarrow> string \<Rightarrow> jsval option \<times> LibraryDb" where
  "getLogicalBook db logicalBookId = readValidated db LOGICAL_BOOKS_STORE [logicalBookId]
     (\<lambda>v. isLogicalBookRecord v \<and> getProp v ''id'' = JStr logicalBookId)
     ''Logical book failed identity or schema validation''"

definition findLogicalBookByVariant :: "LibraryDb \<Rightarrow> string \<Rightarrow> jsval option \<times> LibraryDb" where
  "findLogicalBookByVariant db variantId =
     (let byFormat = (\<lambda>db f. readAllByIndexValidated db LOGICAL_BOOKS_STORE
            (\<lambda>v. getProp (getProp v ''variants'') (formatString f)) variantId isLogicalBookRecord
            ''Logical book failed membership or schema validation'');
          (epubs, db1) = byFormat db Epub
      in case epubs of
           v # _ \<Rightarrow> (Some v, db1)
         | [] \<Rightarrow> (let (pdfs, db2) = byFormat db1 Pdf in (case pdfs of v # _ \<Rightarrow> Some v | [] \<Rightarrow> None, db2)))"

definition getLogicalBookFormatPreference :: "LibraryDb \<Rightarrow> string \<Rightarrow> jsval option \<times> LibraryDb" where
  "getLogicalBookFormatPreference db logicalBookId = readValidated db LOGICAL_BOOK_PREFERENCES_STORE [logicalBookId]
     (\<lambda>v. isLogicalBookFormatPreference v \<and> getProp v ''logicalBookId'' = JStr logicalBookId)
     ''Logical book preference failed identity or schema validation''"

definition listOpenMembershipReconciliations :: "(string \<Rightarrow> string \<Rightarrow> int) \<Rightarrow> LibraryDb \<Rightarrow> jsval list \<times> LibraryDb" where
  "listOpenMembershipReconciliations localeCompare db =
     (let (records, db) = readAllValidated db LOGICAL_BOOK_RECONCILIATIONS_STORE isMembershipReconciliation
            ''Membership reconciliation failed schema validation''
      in (jsSort (ascendingBy localeCompare ''conflictId'')
            (filter (\<lambda>r. getProp r ''status'' = JStr ''open'') records), db))"

text \<open>The revision is the JSON text of the three lists, without the records that fail validation.\<close>

record LogicalLibrarySnapshot =
  snap_revision :: string
  snap_logicalBooks :: "jsval list"
  snap_preferences :: "jsval list"
  snap_reconciliations :: "jsval list"

definition sortedValid :: "(string \<Rightarrow> string \<Rightarrow> int) \<Rightarrow> (jsval \<Rightarrow> bool) \<Rightarrow> string \<Rightarrow> jsval list \<Rightarrow> jsval list" where
  "sortedValid localeCompare validator k records = jsSort (ascendingBy localeCompare k) (filter validator records)"

definition logicalRevision :: "(string \<Rightarrow> string \<Rightarrow> int) \<Rightarrow> jsval list \<Rightarrow> jsval list \<Rightarrow> jsval list \<Rightarrow> string" where
  "logicalRevision localeCompare rawBooks rawPreferences rawReconciliations =
     stringify (JObj
       [(''logicalBooks'', JArr (sortedValid localeCompare isLogicalBookRecord ''id'' rawBooks)),
        (''preferences'', JArr (sortedValid localeCompare isLogicalBookFormatPreference ''logicalBookId'' rawPreferences)),
        (''reconciliations'', JArr (sortedValid localeCompare isMembershipReconciliation ''conflictId'' rawReconciliations))])"

definition storeRecords :: "LibraryDb \<Rightarrow> ActiveLibraryStore \<Rightarrow> jsval list" where
  "storeRecords db s = map snd (db_stores db s)"

definition getLogicalLibrarySnapshot :: "(string \<Rightarrow> string \<Rightarrow> int) \<Rightarrow> LibraryDb \<Rightarrow> LogicalLibrarySnapshot" where
  "getLogicalLibrarySnapshot localeCompare db =
     (let rawBooks = storeRecords db LOGICAL_BOOKS_STORE; rawPreferences = storeRecords db LOGICAL_BOOK_PREFERENCES_STORE;
          rawReconciliations = storeRecords db LOGICAL_BOOK_RECONCILIATIONS_STORE
      in \<lparr>snap_revision = logicalRevision localeCompare rawBooks rawPreferences rawReconciliations,
          snap_logicalBooks = sortedValid localeCompare isLogicalBookRecord ''id'' rawBooks,
          snap_preferences = sortedValid localeCompare isLogicalBookFormatPreference ''logicalBookId'' rawPreferences,
          snap_reconciliations = sortedValid localeCompare isMembershipReconciliation ''conflictId'' rawReconciliations\<rparr>)"

definition listPendingLogicalBookChanges :: "(string \<Rightarrow> string \<Rightarrow> int) \<Rightarrow> LibraryDb \<Rightarrow> jsval list \<times> LibraryDb" where
  "listPendingLogicalBookChanges localeCompare db =
     (let (changes, db) = readAllValidated db LOGICAL_BOOK_CHANGE_OUTBOX_STORE isLogicalBookChange
            ''Pending logical-book change failed schema validation''
      in (jsSort (\<lambda>left right. cmpOr
              (localeCompare (strOf (getProp left ''createdAt'')) (strOf (getProp right ''createdAt'')))
              (localeCompare (strOf (getProp left ''changeId'')) (strOf (getProp right ''changeId'')))) changes, db))"

section \<open>Transactions\<close>

text \<open>\<open>add\<close> refuses a key that is already there, which aborts the whole transaction.\<close>

definition idbDelete :: "ActiveLibraryStore \<Rightarrow> idbKey \<Rightarrow> LibraryDb \<Rightarrow> LibraryDb" where
  "idbDelete s k db = db\<lparr>db_stores := (db_stores db)(s := deleteEntry k (db_stores db s))\<rparr>"

definition idbClear :: "ActiveLibraryStore \<Rightarrow> LibraryDb \<Rightarrow> LibraryDb" where
  "idbClear s db = db\<lparr>db_stores := (db_stores db)(s := [])\<rparr>"

abbreviation idbPut :: "ActiveLibraryStore \<Rightarrow> jsval \<Rightarrow> LibraryDb \<Rightarrow> LibraryDb" where
  "idbPut s v db \<equiv> idbWrite db s v"

definition idbOccupied :: "ActiveLibraryStore \<Rightarrow> jsval \<Rightarrow> LibraryDb \<Rightarrow> bool" where
  "idbOccupied s v db = (idbGet db s (recordKey s v) \<noteq> None)"

definition acknowledgePendingLogicalBookChanges :: "LibraryDb \<Rightarrow> string list \<Rightarrow> LibraryDb" where
  "acknowledgePendingLogicalBookChanges db changeIds =
     (if changeIds = [] then db
      else fold (\<lambda>changeId. idbDelete LOGICAL_BOOK_CHANGE_OUTBOX_STORE [changeId]) (jsUnique changeIds) db)"

section \<open>Changes\<close>

datatype MutationError =
    LogicalBookNotFound | SelfAssociation | FormatOccupied PublicationFormat | MembershipChanged
  | NotTwoFormats | NotAMember | EmptyLogicalBook | ReconciliationClosed | StaleSelection | NotInConflict
  | InvalidVariant | FormatCardinality | ConstraintError | InvalidMetadata | SourceMismatch
  | VariantIdentity LogicalBookError | StorageFailed StorageError

definition logicalChange ::
  "LogicalBookChangeKind \<Rightarrow> LogicalMutationIdentity \<Rightarrow> LogicalBookRecord list \<Rightarrow> string list \<Rightarrow> LogicalBookChange" where
  "logicalChange kind identity resultingBooks removedLogicalBookIds =
     \<lparr>chg_changeId = mi_changeId identity, chg_kind = kind, chg_parents = sortStrings (mi_parents identity),
      chg_resultingBooks = resultingBooks, chg_removedLogicalBookIds = removedLogicalBookIds,
      chg_variantEffects = None, chg_preferenceEffects = None, chg_resolvesConflictIds = None,
      chg_createdAt = mi_createdAt identity, chg_deviceId = mi_deviceId identity, chg_appVersion = mi_appVersion identity\<rparr>"

definition derivedLogicalBookId :: "(string \<Rightarrow> string) \<Rightarrow> string \<Rightarrow> string \<Rightarrow> string" where
  "derivedLogicalBookId sha256Hex variantId changeId =
     ''logical:sha256:'' @ sha256Hex (''omnia-logical:'' @ variantId @ '':'' @ changeId)"

type_synonym 'a mutation = "(MutationError + 'a) \<times> LibraryDb"

definition mutationResult ::
  "string list \<Rightarrow> string list \<Rightarrow> string list \<Rightarrow> string list \<Rightarrow> string list \<Rightarrow> LogicalBookRecord list \<Rightarrow> LogicalBookChange \<Rightarrow>
     LogicalBookMutationResult" where
  "mutationResult created updated deleted createdVariants deletedVariants books change =
     \<lparr>mres_createdLogicalBookIds = created, mres_updatedLogicalBookIds = updated, mres_deletedLogicalBookIds = deleted,
      mres_createdVariantIds = createdVariants, mres_deletedVariantIds = deletedVariants, mres_resultingBooks = books,
      mres_change = change\<rparr>"

definition otherFormat :: "PublicationFormat \<Rightarrow> PublicationFormat" where
  "otherFormat f = (case f of Epub \<Rightarrow> Pdf | Pdf \<Rightarrow> Epub)"

end
