(* ===== verification/Catalog_Mutations.thy ===== *)
theory Catalog_Mutations
  imports Library_Catalog
begin

text \<open>
  The mutations of logical books in \<open>browser-library-repository.ts\<close>: adding a format, associating two books,
  detaching and deleting formats, choosing the preferred format and reconciling memberships.
\<close>

section \<open>Associating two books\<close>

definition spread :: "('k, 'v) jsMap \<Rightarrow> ('k, 'v) jsMap \<Rightarrow> ('k, 'v) jsMap" where
  "spread base extra = foldl (\<lambda>m (k, v). mapSet k v m) base extra"

text \<open>The two texts compared before the commit are those of stored records: they are equal exactly when the
  records are.\<close>

definition associate ::
  "(LibraryDb \<Rightarrow> LibraryDb) \<Rightarrow> LibraryDb \<Rightarrow> string \<Rightarrow> string \<Rightarrow> LogicalMutationIdentity \<Rightarrow> LogicalBookMutationResult mutation" where
  "associate between db0 destinationId sourceId identity =
     (if destinationId = sourceId then (Inl SelfAssociation, db0)
      else
        let (destinationVal, db1) = getLogicalBook db0 destinationId; (sourceVal, db2) = getLogicalBook db1 sourceId in
        case (destinationVal, sourceVal) of
          (Some d, Some s) \<Rightarrow>
            (let destination = logicalBookOf d; source = logicalBookOf s in
             case filter (\<lambda>f. map_of (lb_variants destination) f \<noteq> None \<and> map_of (lb_variants source) f \<noteq> None) [Epub, Pdf] of
               f # _ \<Rightarrow> (Inl (FormatOccupied f), db2)
             | [] \<Rightarrow>
                 let updated = destination\<lparr>lb_variants := spread (lb_variants destination) (lb_variants source),
                       lb_updatedAt := mi_createdAt identity\<rparr>;
                     change = logicalChange Associate identity [updated] [sourceId];
                     db = between db2
                 in if idbGet db LOGICAL_BOOKS_STORE [destinationId] \<noteq> Some d \<or> idbGet db LOGICAL_BOOKS_STORE [sourceId] \<noteq> Some s
                    then (Inl MembershipChanged, db)
                    else
                      (Inr (mutationResult [] [destinationId] [sourceId] [] [] [updated] change),
                       idbPut LOGICAL_BOOK_CHANGE_OUTBOX_STORE (changeVal change)
                         (idbDelete LOGICAL_BOOK_PREFERENCES_STORE [sourceId]
                           (idbDelete LOGICAL_BOOK_COVERS_STORE [sourceId]
                             (idbPut LOGICAL_BOOKS_STORE (logicalBookVal updated)
                               (idbDelete LOGICAL_BOOKS_STORE [sourceId] db))))))
        | _ \<Rightarrow> (Inl LogicalBookNotFound, db2))"

section \<open>Detaching a format\<close>

definition switchPreference ::
  "LogicalBookFormatPreference \<Rightarrow> PublicationFormat \<Rightarrow> LogicalMutationIdentity \<Rightarrow> LogicalBookFormatPreference" where
  "switchPreference preference format identity = preference
     \<lparr>fp_preferredFormat := format, fp_winningChangeId := mi_changeId identity, fp_preferenceHeads := [mi_changeId identity],
      fp_updatedAt := mi_createdAt identity, fp_deviceId := mi_deviceId identity\<rparr>"

definition detachVariant ::
  "(string \<Rightarrow> string) \<Rightarrow> (LibraryDb \<Rightarrow> LibraryDb) \<Rightarrow> LibraryDb \<Rightarrow> string \<Rightarrow> string \<Rightarrow>
     LogicalMutationIdentity \<Rightarrow> LogicalBookMutationResult mutation" where
  "detachVariant sha256Hex between db0 logicalBookId variantId identity =
     (let (bookVal0, db1) = getLogicalBook db0 logicalBookId; (variantVal, db2) = getBook db1 variantId;
          (preferenceVal, db2') = getLogicalBookFormatPreference db2 logicalBookId;
          (variantCover, db3) = getBookCover db2' variantId
      in case (bookVal0, variantVal) of
           (Some b, Some v) \<Rightarrow>
             (let logicalBook = logicalBookOf b; variant = bookOf v; remainingFormat = otherFormat (br_format variant) in
              if length (lb_variants logicalBook) \<noteq> 2 then (Inl NotTwoFormats, db3)
              else if map_of (lb_variants logicalBook) (br_format variant) \<noteq> Some variantId then (Inl NotAMember, db3)
              else
                case (map_of (lb_variants logicalBook) remainingFormat, singletonLogicalBookId variantId) of
                  (None, _) \<Rightarrow> (Inl EmptyLogicalBook, db3)
                | (Some _, Inl e) \<Rightarrow> (Inl (VariantIdentity e), db3)
                | (Some remainingVariantId, Inr canonicalId) \<Rightarrow>
                    (let (canonicalOwner, db4) = getLogicalBook db3 canonicalId;
                         detachedId = (if canonicalId \<noteq> logicalBookId \<and> canonicalOwner = None then canonicalId
                           else derivedLogicalBookId sha256Hex variantId (mi_changeId identity))
                     in case logicalBookFromVariant variant (mi_createdAt identity) of
                          Inl e \<Rightarrow> (Inl (VariantIdentity e), db4)
                        | Inr fresh \<Rightarrow>
                            let updated = logicalBook\<lparr>lb_variants := [(remainingFormat, remainingVariantId)],
                                  lb_updatedAt := mi_createdAt identity\<rparr>;
                                detached = fresh\<lparr>lb_id := detachedId\<rparr>;
                                updatedPreference = map_option (\<lambda>p. let preference = formatPreferenceOf p in
                                  if fp_preferredFormat preference = br_format variant
                                  then formatPreferenceVal (switchPreference preference remainingFormat identity) else p) preferenceVal;
                                change = logicalChange Detach identity [updated, detached] [];
                                db = between db4;
                                db5 = idbPut LOGICAL_BOOKS_STORE (logicalBookVal updated) db
                            in if idbOccupied LOGICAL_BOOKS_STORE (logicalBookVal detached) db5 then (Inl ConstraintError, db)
                               else
                                 (Inr (mutationResult [detachedId] [logicalBookId] [] [] [] [updated, detached] change),
                                  idbPut LOGICAL_BOOK_CHANGE_OUTBOX_STORE (changeVal change)
                                    ((case updatedPreference of None \<Rightarrow> id | Some p \<Rightarrow> idbPut LOGICAL_BOOK_PREFERENCES_STORE p)
                                      ((case variantCover of None \<Rightarrow> id
                                        | Some c \<Rightarrow> idbPut LOGICAL_BOOK_COVERS_STORE (coverVal ''logicalBookId'' detachedId c))
                                        (idbPut LOGICAL_BOOKS_STORE (logicalBookVal detached) db5))))))
         | _ \<Rightarrow> (Inl LogicalBookNotFound, db3))"

section \<open>Deleting formats\<close>

record CleanupItem =
  cl_target :: string
  cl_stored :: "StoredPublicationBinary option"
  cl_progressDocuments :: "jsval list"
  cl_bookmarks :: "jsval list"
  cl_annotations :: "jsval list"

definition collectCleanup :: "(string \<Rightarrow> string \<Rightarrow> int) \<Rightarrow> CleanupItem list \<times> LibraryDb \<Rightarrow> string \<Rightarrow> CleanupItem list \<times> LibraryDb" where
  "collectCleanup localeCompare state target =
     (let (stored, db0) = getStoredBinary (snd state) target;
          (documents, db1) = listProgressDocuments localeCompare db0 (Some target);
          (bookmarks, db2) = listBookmarks localeCompare db1 (Some target) True;
          (annotations, db3) = listAnnotations localeCompare db2 (Some target) True
      in (fst state @ [\<lparr>cl_target = target, cl_stored = stored, cl_progressDocuments = documents, cl_bookmarks = bookmarks,
            cl_annotations = annotations\<rparr>], db3))"

definition deleteItem :: "CleanupItem \<Rightarrow> LibraryDb \<Rightarrow> LibraryDb" where
  "deleteItem item db =
     fold (\<lambda>a. idbDelete ANNOTATIONS_STORE [strOf (getProp a ''id'')]) (cl_annotations item)
       (fold (\<lambda>b. idbDelete BOOKMARKS_STORE [strOf (getProp b ''id'')]) (cl_bookmarks item)
         (fold (\<lambda>p. idbDelete PROGRESS_DOCUMENTS_STORE [strOf (getProp p ''bookId''), strOf (getProp p ''deviceId'')])
             (cl_progressDocuments item)
           (idbDelete PROGRESS_STORE [cl_target item]
             (idbDelete COVERS_STORE [cl_target item]
               (idbDelete BINARIES_STORE [cl_target item]
                 (idbDelete BOOKS_STORE [cl_target item] db))))))"

definition removeItemFile :: "FileSystem \<Rightarrow> CleanupItem \<Rightarrow> LibraryDb \<Rightarrow> LibraryDb" where
  "removeItemFile fs item = (case cl_stored item of None \<Rightarrow> id | Some stored \<Rightarrow> removeBinary fs stored)"

definition deleteVariant ::
  "FileSystem \<Rightarrow> (string \<Rightarrow> string \<Rightarrow> int) \<Rightarrow> (LibraryDb \<Rightarrow> LibraryDb) \<Rightarrow> LibraryDb \<Rightarrow> string \<Rightarrow> string option \<Rightarrow>
     LogicalMutationIdentity \<Rightarrow> LogicalBookMutationResult mutation" where
  "deleteVariant fs localeCompare between db0 logicalBookId variantId identity =
     (let (bookVal0, db1) = getLogicalBook db0 logicalBookId in
      case bookVal0 of
        None \<Rightarrow> (Inl LogicalBookNotFound, db1)
      | Some b \<Rightarrow>
          (let logicalBook = logicalBookOf b; members = mapValues (lb_variants logicalBook);
               targets = (case variantId of None \<Rightarrow> members | Some i \<Rightarrow> [i])
           in if \<exists>t \<in> set targets. t \<notin> set members then (Inl NotAMember, db1)
              else
                let (cleanup, db2) = foldl (collectCleanup localeCompare) ([], db1) targets;
                    remaining = filter (\<lambda>(f, i). i \<notin> set targets) (lb_variants logicalBook);
                    updated = logicalBook\<lparr>lb_variants := remaining, lb_updatedAt := mi_createdAt identity\<rparr>;
                    (preferenceVal, db3) = getLogicalBookFormatPreference db2 logicalBookId;
                    effects = map (\<lambda>t. DeleteVariant t (if map_of (lb_variants logicalBook) Epub = Some t then Epub else Pdf)) targets;
                    change = (logicalChange (if remaining \<noteq> [] then DeleteVariantKind else DeleteBook) identity
                        (if remaining \<noteq> [] then [updated] else []) (if remaining \<noteq> [] then [] else [logicalBookId]))
                      \<lparr>chg_variantEffects := Some effects\<rparr>;
                    db4 = fold deleteItem cleanup (between db3);
                    db5 = (case remaining of
                        (remainingFormat, _) # _ \<Rightarrow>
                          (case preferenceVal of
                             Some p \<Rightarrow> if fp_preferredFormat (formatPreferenceOf p) \<noteq> remainingFormat
                               then idbPut LOGICAL_BOOK_PREFERENCES_STORE
                                 (formatPreferenceVal (switchPreference (formatPreferenceOf p) remainingFormat identity)) else id
                           | None \<Rightarrow> id) (idbPut LOGICAL_BOOKS_STORE (logicalBookVal updated) db4)
                      | [] \<Rightarrow> idbDelete LOGICAL_BOOK_PREFERENCES_STORE [logicalBookId]
                          (idbDelete LOGICAL_BOOK_COVERS_STORE [logicalBookId]
                            (idbDelete LOGICAL_BOOKS_STORE [logicalBookId] db4)))
                in (Inr (mutationResult [] (if remaining \<noteq> [] then [logicalBookId] else [])
                       (if remaining \<noteq> [] then [] else [logicalBookId]) [] targets
                       (if remaining \<noteq> [] then [updated] else []) change),
                    fold (removeItemFile fs) cleanup (idbPut LOGICAL_BOOK_CHANGE_OUTBOX_STORE (changeVal change) db5))))"

section \<open>Adding a format\<close>

definition addVariant ::
  "(string \<Rightarrow> string) \<Rightarrow> FileSystem \<Rightarrow> (LibraryDb \<Rightarrow> LibraryDb) \<Rightarrow> LibraryDb \<Rightarrow> string \<Rightarrow> BookRecord \<Rightarrow>
     BookSource \<Rightarrow> string \<Rightarrow> LogicalMutationIdentity \<Rightarrow> (string \<times> string) option \<Rightarrow> AddLogicalBookVariantResult mutation" where
  "addVariant fingerprinter fs between db0 logicalBookId variant source objectPath identity cover =
     (if \<not> isBookRecord (bookVal variant) then (Inl InvalidMetadata, db0)
      else
        let (destinationVal, db1) = getLogicalBook db0 logicalBookId in
        case destinationVal of
          None \<Rightarrow> (Inl LogicalBookNotFound, db1)
        | Some d \<Rightarrow>
            (let destination = logicalBookOf d; (owner, db2) = findLogicalBookByVariant db1 (br_id variant) in
             case owner of
               Some w \<Rightarrow> (Inr (if getProp w ''id'' = JStr logicalBookId then AlreadyMember logicalBookId
                   else BelongsToOtherBook (strOf (getProp w ''id''))), db2)
             | None \<Rightarrow>
                 (case map_of (lb_variants destination) (br_format variant) of
                    Some occupied \<Rightarrow> (Inr (SameFormatConflict logicalBookId occupied), db2)
                  | None \<Rightarrow>
                      let blob = src_content source; size = Fin (of_nat (length blob)) in
                      if src_size source \<noteq> size \<or> br_size variant \<noteq> size \<or>
                         detectPublicationBlobFormat blob \<noteq> Some (br_format variant) \<or> fingerprinter blob \<noteq> br_id variant
                      then (Inl SourceMismatch, db2)
                      else
                        case saveBinary fs db2 (writeRequest variant blob (br_fileName variant) (br_mediaType variant)) of
                          (Inl e, db3) \<Rightarrow> (Inl (StorageFailed e), db3)
                        | (Inr staged, db3) \<Rightarrow>
                            let updated = destination\<lparr>lb_variants := mapSet (br_format variant) (br_id variant) (lb_variants destination),
                                  lb_updatedAt := mi_createdAt identity\<rparr>;
                                change = (logicalChange AddVariant identity [updated] [])
                                  \<lparr>chg_variantEffects := Some [UpsertVariant variant objectPath]\<rparr>;
                                db = between db3;
                                storedCover = map_option (coverVal ''bookId'' (br_id variant)) cover
                            in if idbGet db LOGICAL_BOOKS_STORE [logicalBookId] \<noteq> Some d
                               then (Inl MembershipChanged, removeBinary fs staged db)
                               else if idbOccupied BOOKS_STORE (bookVal variant) db \<or> idbOccupied BINARIES_STORE (binaryVal staged) db \<or>
                                 (\<exists>c \<in> set_option storedCover. idbOccupied COVERS_STORE c db)
                               then (Inl ConstraintError, removeBinary fs staged db)
                               else
                                 (Inr (Added (mutationResult [] [logicalBookId] [] [br_id variant] [] [updated] change)),
                                  idbPut LOGICAL_BOOK_CHANGE_OUTBOX_STORE (changeVal change)
                                    (idbPut LOGICAL_BOOKS_STORE (logicalBookVal updated)
                                      ((case storedCover of None \<Rightarrow> id | Some c \<Rightarrow> idbPut COVERS_STORE c)
                                        (idbPut BINARIES_STORE (binaryVal staged) (idbPut BOOKS_STORE (bookVal variant) db))))))))"

section \<open>The preferred format\<close>

definition saveLogicalBookFormatPreference ::
  "(LibraryDb \<Rightarrow> LibraryDb) \<Rightarrow> LibraryDb \<Rightarrow> string \<Rightarrow> PublicationFormat \<Rightarrow> LogicalMutationIdentity \<Rightarrow> LogicalBookChange option mutation" where
  "saveLogicalBookFormatPreference between db0 logicalBookId preferredFormat identity =
     (let (bookVal0, db1) = getLogicalBook db0 logicalBookId in
      if (case bookVal0 of None \<Rightarrow> True | Some b \<Rightarrow> map_of (lb_variants (logicalBookOf b)) preferredFormat = None)
      then (Inl NotAMember, db1)
      else
        let (currentVal, db2) = getLogicalBookFormatPreference db1 logicalBookId; current = map_option formatPreferenceOf currentVal in
        if map_option fp_preferredFormat current = Some preferredFormat then (Inr None, db2)
        else
          let preference = \<lparr>fp_logicalBookId = logicalBookId, fp_preferredFormat = preferredFormat,
                fp_winningChangeId = mi_changeId identity, fp_preferenceHeads = [mi_changeId identity],
                fp_updatedAt = mi_createdAt identity, fp_deviceId = mi_deviceId identity\<rparr>;
              parents = sortStrings (jsUnique (mi_parents identity @ (case current of None \<Rightarrow> [] | Some c \<Rightarrow> fp_preferenceHeads c)));
              change = (logicalChange PreferenceKind (identity\<lparr>mi_parents := parents\<rparr>) [] [])
                \<lparr>chg_preferenceEffects := Some [\<lparr>pe_logicalBookId = logicalBookId, pe_preference = Some preference\<rparr>]\<rparr>
          in (Inr (Some change), idbPut LOGICAL_BOOK_CHANGE_OUTBOX_STORE (changeVal change)
                (idbPut LOGICAL_BOOK_PREFERENCES_STORE (formatPreferenceVal preference) (between db2))))"

section \<open>Reconciling memberships\<close>

type_synonym BookCatalog = "(string, LogicalBookRecord) jsMap"

text \<open>Taking a variant out of every book; a book without variants disappears.\<close>

definition stripVariant :: "LogicalMutationIdentity \<Rightarrow> BookCatalog \<Rightarrow> string \<Rightarrow> BookCatalog" where
  "stripVariant identity books variantId =
     List.map_filter (\<lambda>(i, book).
       let variants = filter (\<lambda>(f, v). v \<noteq> variantId) (lb_variants book) in
       if variants = [] then None
       else Some (i, book\<lparr>lb_variants := variants, lb_updatedAt := mi_createdAt identity\<rparr>)) books"

definition placeMembership ::
  "LogicalMutationIdentity \<Rightarrow> MembershipTuple \<Rightarrow> BookCatalog \<times> LibraryDb \<Rightarrow> (MutationError + BookCatalog) \<times> LibraryDb" where
  "placeMembership identity membership state =
     (let (variantVal, db) = getBook (snd state) (mt_variantId membership); books = fst state in
      case variantVal of
        None \<Rightarrow> (Inl InvalidVariant, db)
      | Some v \<Rightarrow>
          (let variant = bookOf v in
           if br_format variant \<noteq> mt_format membership then (Inl InvalidVariant, db)
           else
             case map_of books (mt_logicalBookId membership) of
               Some current \<Rightarrow>
                 (case map_of (lb_variants current) (mt_format membership) of
                    Some occupied \<Rightarrow>
                      if occupied \<noteq> mt_variantId membership then (Inl FormatCardinality, db)
                      else (Inr (mapSet (mt_logicalBookId membership) (current\<lparr>lb_variants :=
                        mapSet (mt_format membership) (mt_variantId membership) (lb_variants current),
                        lb_updatedAt := mi_createdAt identity\<rparr>) books), db)
                  | None \<Rightarrow> (Inr (mapSet (mt_logicalBookId membership) (current\<lparr>lb_variants :=
                        mapSet (mt_format membership) (mt_variantId membership) (lb_variants current),
                        lb_updatedAt := mi_createdAt identity\<rparr>) books), db))
             | None \<Rightarrow>
                 (case logicalBookFromVariant variant (mi_createdAt identity) of
                    Inl e \<Rightarrow> (Inl (VariantIdentity e), db)
                  | Inr fresh \<Rightarrow> (Inr (mapSet (mt_logicalBookId membership) (fresh\<lparr>lb_id := mt_logicalBookId membership\<rparr>) books), db))))"

fun placeMemberships ::
  "LogicalMutationIdentity \<Rightarrow> MembershipTuple list \<Rightarrow> BookCatalog \<times> LibraryDb \<Rightarrow> (MutationError + BookCatalog) \<times> LibraryDb" where
  "placeMemberships identity [] state = (Inr (fst state), snd state)"
| "placeMemberships identity (m # ms) state =
     (case placeMembership identity m state of
        (Inl e, db) \<Rightarrow> (Inl e, db)
      | (Inr books, db) \<Rightarrow> placeMemberships identity ms (books, db))"

text \<open>The memberships a decision selects, and the catalog with the book it may add.\<close>

definition selectMemberships ::
  "(string \<Rightarrow> string) \<Rightarrow> LogicalMutationIdentity \<Rightarrow> MembershipReconciliationDecision \<Rightarrow> MembershipReconciliation \<Rightarrow>
     BookCatalog \<times> LibraryDb \<Rightarrow> (MutationError + MembershipTuple list \<times> BookCatalog) \<times> LibraryDb" where
  "selectMemberships sha256Hex identity decision raw state =
     (let books = fst state; db0 = snd state in
      case decision of
        KeepAccepted \<Rightarrow> (Inr (mr_acceptedMembership raw, books), db0)
      | AcceptRejected i \<Rightarrow>
          (let selected = filter (\<lambda>m. mt_logicalBookId m = i) (mr_rejectedMembership raw) in
           if selected = [] then (Inl StaleSelection, db0) else (Inr (selected, books), db0))
      | MakeStandalone variantId \<Rightarrow>
          (let (variantVal, db) = getBook db0 variantId in
           case variantVal of
             None \<Rightarrow> (Inl NotInConflict, db)
           | Some v \<Rightarrow>
               (let variant = bookOf v in
                if br_id variant \<notin> set (mr_affectedVariantIds raw) then (Inl NotInConflict, db)
                else
                  case (singletonLogicalBookId (br_id variant), logicalBookFromVariant variant (mi_createdAt identity)) of
                    (Inr canonical, Inr fresh) \<Rightarrow>
                      (let i = (if map_of books canonical \<noteq> None
                          then derivedLogicalBookId sha256Hex (br_id variant) (mi_changeId identity) else canonical);
                          selected = filter (\<lambda>m. mt_variantId m \<noteq> br_id variant) (mr_acceptedMembership raw) @
                            [\<lparr>mt_logicalBookId = i, mt_format = br_format variant, mt_variantId = br_id variant\<rparr>]
                       in (Inr (selected, mapSet i (fresh\<lparr>lb_id := i\<rparr>) books), db))
                  | _ \<Rightarrow> (Inl (VariantIdentity VariantIdNotExact), db))))"

definition reconcileMembership ::
  "(string \<Rightarrow> string \<Rightarrow> int) \<Rightarrow> (string \<Rightarrow> string) \<Rightarrow> (LibraryDb \<Rightarrow> LibraryDb) \<Rightarrow> LibraryDb \<Rightarrow> string \<Rightarrow>
     MembershipReconciliationDecision \<Rightarrow> LogicalMutationIdentity \<Rightarrow> LogicalBookMutationResult mutation" where
  "reconcileMembership localeCompare sha256Hex between db0 conflictId decision identity =
     (case idbGet db0 LOGICAL_BOOK_RECONCILIATIONS_STORE [conflictId] of
        None \<Rightarrow> (Inl ReconciliationClosed, db0)
      | Some rawVal \<Rightarrow>
          if \<not> isMembershipReconciliation rawVal \<or> getProp rawVal ''status'' \<noteq> JStr ''open'' then (Inl ReconciliationClosed, db0)
          else
            let raw = reconciliationOf rawVal; (beforeVals, db1) = listLogicalBooks localeCompare db0;
                before = map logicalBookOf beforeVals
            in case selectMemberships sha256Hex identity decision raw (mapBy lb_id before, db1) of
                 (Inl e, db2) \<Rightarrow> (Inl e, db2)
               | (Inr (selected, books), db2) \<Rightarrow>
                   (case placeMemberships identity selected (foldl (stripVariant identity) books (mr_affectedVariantIds raw), db2) of
                      (Inl e, db3) \<Rightarrow> (Inl e, db3)
                    | (Inr books', db3) \<Rightarrow>
                        let after = jsSort (\<lambda>left right. localeCompare (lb_id left) (lb_id right)) (mapValues books');
                            resolved = raw\<lparr>mr_status := ReconciliationResolved, mr_resolvedByChangeId := Some (mi_changeId identity)\<rparr>;
                            beforeIds = map lb_id before; afterIds = map lb_id after;
                            created = filter (\<lambda>i. i \<notin> set beforeIds) afterIds;
                            deleted = filter (\<lambda>i. i \<notin> set afterIds) beforeIds;
                            updated = filter (\<lambda>i. i \<in> set beforeIds) afterIds;
                            change = (logicalChange ReconcileMembership identity after deleted)
                              \<lparr>chg_resolvesConflictIds := Some [conflictId]\<rparr>;
                            preferencesToDelete = map fp_logicalBookId (filter (\<lambda>p.
                                (case map_of books' (fp_logicalBookId p) of None \<Rightarrow> True
                                 | Some b \<Rightarrow> map_of (lb_variants b) (fp_preferredFormat p) = None))
                              (map formatPreferenceOf (snap_preferences (getLogicalLibrarySnapshot localeCompare db3))));
                            db = between db3
                        in (Inr (mutationResult created updated deleted [] [] after change),
                            idbPut LOGICAL_BOOK_CHANGE_OUTBOX_STORE (changeVal change)
                              (fold (\<lambda>i. idbDelete LOGICAL_BOOK_PREFERENCES_STORE [i]) preferencesToDelete
                                (idbPut LOGICAL_BOOK_RECONCILIATIONS_STORE (reconciliationVal resolved)
                                  (fold (\<lambda>b. idbPut LOGICAL_BOOKS_STORE (logicalBookVal b)) after
                                    (idbClear LOGICAL_BOOKS_STORE db)))))))"

end
