(* ===== verification/Catalog_Invariant.thy ===== *)
theory Catalog_Invariant
  imports Catalog_Mutations
begin

text \<open>
  What the mutations of the catalog keep: a publication belongs to at most one logical book, and deleting
  a format leaves nothing of it behind and nothing else changed.
\<close>

section \<open>Memberships of stored records\<close>

definition memberIds :: "jsval \<Rightarrow> string set" where
  "memberIds v = {i. \<exists>f. getProp (getProp v ''variants'') (formatString f) = JStr i}"

definition exclusiveCatalog :: "LibraryDb \<Rightarrow> bool" where
  "exclusiveCatalog db \<longleftrightarrow>
     (\<forall>k v k' v'. idbGet db LOGICAL_BOOKS_STORE k = Some v \<longrightarrow> idbGet db LOGICAL_BOOKS_STORE k' = Some v' \<longrightarrow>
        memberIds v \<inter> memberIds v' \<noteq> {} \<longrightarrow> k = k')"

lemma memberIds_logicalBookVal: "memberIds (logicalBookVal b) \<subseteq> snd ` set (lb_variants b)"
proof
  fix i assume "i \<in> memberIds (logicalBookVal b)"
  then obtain f where "getProp (variantsVal (lb_variants b)) (formatString f) = JStr i" by (auto simp: memberIds_def)
  then have "map_of (lb_variants b) f = Some i" by (cases "map_of (lb_variants b) f") simp_all
  then show "i \<in> snd ` set (lb_variants b)" by (force dest: map_of_SomeD)
qed

lemma getProp_key: "getProp v k \<noteq> JUndef \<Longrightarrow> k \<in> set (objectKeys v)"
proof (cases v)
  case (JObj kvs)
  then show "getProp v k \<noteq> JUndef \<Longrightarrow> k \<in> set (objectKeys v)"
    by (induction kvs arbitrary: v) (auto split: if_splits)
qed auto

lemma mem_map_filter: "y \<in> set (List.map_filter g xs) \<longleftrightarrow> (\<exists>x \<in> set xs. g x = Some y)"
  by (induction xs) (auto split: option.splits)

lemma mem_variantsOf:
  assumes "isLogicalBookRecord v"
  shows "(f, i) \<in> set (lb_variants (logicalBookOf v)) \<longleftrightarrow> getProp (getProp v ''variants'') (formatString f) = JStr i"
proof -
  let ?w = "getProp v ''variants''"
  have keys: "\<forall>k \<in> set (objectKeys ?w). k = ''epub'' \<or> k = ''pdf''"
    using assms by (auto simp: isLogicalBookRecord_def Let_def split: if_splits)
  have fmt: "k = ''epub'' \<or> k = ''pdf'' \<Longrightarrow> formatOf (JStr k) = f \<longleftrightarrow> k = formatString f" for k f
    by (cases f) (auto simp: formatOf_def formatString_def)
  have "(f, i) \<in> set (variantsOf ?w) \<longleftrightarrow> (\<exists>k \<in> set (objectKeys ?w). getProp ?w k = JStr i \<and> formatOf (JStr k) = f)"
  proof -
    have "(case getProp ?w k of JStr s \<Rightarrow> Some (formatOf (JStr k), s) | _ \<Rightarrow> None) = Some (f, i) \<longleftrightarrow>
        getProp ?w k = JStr i \<and> formatOf (JStr k) = f" for k
      by (cases "getProp ?w k") auto
    then show ?thesis by (simp add: variantsOf_def mem_map_filter)
  qed
  also have "\<dots> \<longleftrightarrow> getProp ?w (formatString f) = JStr i"
  proof
    assume "\<exists>k \<in> set (objectKeys ?w). getProp ?w k = JStr i \<and> formatOf (JStr k) = f"
    then obtain k where "k \<in> set (objectKeys ?w)" "getProp ?w k = JStr i" "formatOf (JStr k) = f" by blast
    moreover from this keys have "k = formatString f" using fmt [of k f] by blast
    ultimately show "getProp ?w (formatString f) = JStr i" by simp
  next
    assume i: "getProp ?w (formatString f) = JStr i"
    then have "formatString f \<in> set (objectKeys ?w)" using getProp_key [of ?w "formatString f"] by simp
    moreover from this keys have "formatOf (JStr (formatString f)) = f" using fmt [of "formatString f" f] by blast
    ultimately show "\<exists>k \<in> set (objectKeys ?w). getProp ?w k = JStr i \<and> formatOf (JStr k) = f" using i by blast
  qed
  finally show ?thesis by (simp add: logicalBookOf_def)
qed

lemma memberIds_iff: "isLogicalBookRecord v \<Longrightarrow> memberIds v = snd ` set (lb_variants (logicalBookOf v))"
  by (force simp: memberIds_def mem_variantsOf [symmetric])

lemma variant_formats_differ:
  assumes "isLogicalBookRecord v" and "(Epub, i) \<in> set (lb_variants (logicalBookOf v))" and "(Pdf, j) \<in> set (lb_variants (logicalBookOf v))"
  shows "i \<noteq> j"
  using assms by (auto simp: mem_variantsOf isLogicalBookRecord_def Let_def formatString_def split: if_splits)

section \<open>What the reads and writes keep\<close>

definition inCatalog :: "LibraryDb \<Rightarrow> LibraryDb \<Rightarrow> bool" where
  "inCatalog db' db \<longleftrightarrow> (\<forall>k v. idbGet db' LOGICAL_BOOKS_STORE k = Some v \<longrightarrow> idbGet db LOGICAL_BOOKS_STORE k = Some v)"

lemma inCatalog_reads: "onlyQuarantines db db' \<Longrightarrow> inCatalog db' db"
  unfolding onlyQuarantines_def inCatalog_def by (metis option.distinct(1))

lemma inCatalog_refl [simp]: "inCatalog db db"
  by (simp add: inCatalog_def)

lemma inCatalog_trans: "inCatalog db3 db2 \<Longrightarrow> inCatalog db2 db1 \<Longrightarrow> inCatalog db3 db1"
  by (simp add: inCatalog_def)

lemma exclusiveCatalog_subset: "inCatalog db' db \<Longrightarrow> exclusiveCatalog db \<Longrightarrow> exclusiveCatalog db'"
  unfolding inCatalog_def exclusiveCatalog_def by blast

lemma idbGet_idbDelete: "idbGet (idbDelete s k db) s' k' = (if s' = s \<and> k' = k then None else idbGet db s' k')"
  by (simp add: idbGet_def idbDelete_def delete_conv)

lemma inCatalog_idbDelete [simp]: "inCatalog (idbDelete s k db) db"
  by (simp add: inCatalog_def idbGet_idbDelete)

lemma inCatalog_idbPut_other [simp]: "s \<noteq> LOGICAL_BOOKS_STORE \<Longrightarrow> inCatalog (idbPut s v db) db"
  by (simp add: inCatalog_def idbGet_idbWrite)

lemma recordKey_logicalBookVal [simp]: "recordKey LOGICAL_BOOKS_STORE (logicalBookVal b) = [lb_id b]"
  by (simp add: recordKey_def keyPath_def strOf_def)

text \<open>Putting a book whose publications belong to no other book keeps the catalog exclusive.\<close>

lemma exclusiveCatalog_put:
  assumes "exclusiveCatalog db"
    and "\<And>k v. idbGet db LOGICAL_BOOKS_STORE k = Some v \<Longrightarrow> k \<noteq> [lb_id b] \<Longrightarrow> memberIds v \<inter> snd ` set (lb_variants b) = {}"
  shows "exclusiveCatalog (idbPut LOGICAL_BOOKS_STORE (logicalBookVal b) db)"
proof -
  have "memberIds v \<inter> memberIds (logicalBookVal b) = {}" if "idbGet db LOGICAL_BOOKS_STORE k = Some v" "k \<noteq> [lb_id b]" for k v
    using assms(2) [OF that] memberIds_logicalBookVal [of b] by blast
  then show ?thesis
    using assms(1) unfolding exclusiveCatalog_def idbGet_idbWrite recordKey_logicalBookVal by (simp add: Int_commute)
qed

lemma getLogicalBook_result:
  assumes "getLogicalBook db i = (r, db')"
  shows "onlyQuarantines db db'"
    and "r = Some v \<Longrightarrow> idbGet db LOGICAL_BOOKS_STORE [i] = Some v \<and> isLogicalBookRecord v \<and> lb_id (logicalBookOf v) = i \<and> db' = db"
proof -
  show "onlyQuarantines db db'"
    using onlyQuarantines_readValidated [of db LOGICAL_BOOKS_STORE "[i]" "\<lambda>v. isLogicalBookRecord v \<and> getProp v ''id'' = JStr i"
        "''Logical book failed identity or schema validation''"] assms by (simp add: getLogicalBook_def)
  show "r = Some v \<Longrightarrow> idbGet db LOGICAL_BOOKS_STORE [i] = Some v \<and> isLogicalBookRecord v \<and> lb_id (logicalBookOf v) = i \<and> db' = db"
    using assms by (auto simp: getLogicalBook_def readValidated_def logicalBookOf_def strOf_def split: option.splits if_splits)
qed

lemma getPreference_reads: "onlyQuarantines db (snd (getLogicalBookFormatPreference db i))"
  by (simp add: getLogicalBookFormatPreference_def onlyQuarantines_readValidated)

lemma inCatalog_fold: "(\<And>x d. inCatalog (f x d) d) \<Longrightarrow> inCatalog (fold f xs db) db"
proof (induction xs arbitrary: db)
  case (Cons x xs)
  then show ?case using inCatalog_trans [of "fold f xs (f x db)" "f x db" db] by simp
qed simp

section \<open>Association\<close>

lemma values_mapSet_subset: "snd ` set (mapSet k x m) \<subseteq> insert x (snd ` set m)"
  using image_mono [OF set_mapSet_subset [of k x m], of snd] by simp

lemma spread_values: "snd ` set (spread m m') \<subseteq> snd ` set m \<union> snd ` set m'"
proof (induction m' arbitrary: m)
  case Nil
  then show ?case by (simp add: spread_def)
next
  case (Cons e es)
  have step: "spread m (e # es) = spread (mapSet (fst e) (snd e) m) es" by (simp add: spread_def split_beta)
  have "snd ` set (spread m (e # es)) \<subseteq> snd ` set (mapSet (fst e) (snd e) m) \<union> snd ` set es"
    unfolding step by (rule Cons.IH)
  also have "\<dots> \<subseteq> insert (snd e) (snd ` set m) \<union> snd ` set es" by (rule Un_mono [OF values_mapSet_subset order_refl])
  finally show ?case by simp
qed

text \<open>Two books become one: the source is deleted and the destination takes over its publications.\<close>

lemma exclusiveCatalog_unite:
  assumes "exclusiveCatalog db" and "idbGet db LOGICAL_BOOKS_STORE [lb_id b] = Some d" "isLogicalBookRecord d"
    and "idbGet db LOGICAL_BOOKS_STORE [sourceId] = Some s" "isLogicalBookRecord s"
    and "lb_variants b = spread (lb_variants (logicalBookOf d)) (lb_variants (logicalBookOf s))"
  shows "exclusiveCatalog (idbPut LOGICAL_BOOKS_STORE (logicalBookVal b) (idbDelete LOGICAL_BOOKS_STORE [sourceId] db))"
proof (rule exclusiveCatalog_put)
  show "exclusiveCatalog (idbDelete LOGICAL_BOOKS_STORE [sourceId] db)"
    by (rule exclusiveCatalog_subset [OF inCatalog_idbDelete assms(1)])
  fix k v assume "idbGet (idbDelete LOGICAL_BOOKS_STORE [sourceId] db) LOGICAL_BOOKS_STORE k = Some v" "k \<noteq> [lb_id b]"
  then have "idbGet db LOGICAL_BOOKS_STORE k = Some v" "k \<noteq> [sourceId]" "k \<noteq> [lb_id b]"
    by (auto simp: idbGet_idbDelete split: if_splits)
  then have "memberIds v \<inter> memberIds d = {}" "memberIds v \<inter> memberIds s = {}"
    using assms(1,2,4) unfolding exclusiveCatalog_def by blast+
  then show "memberIds v \<inter> snd ` set (lb_variants b) = {}"
    using Int_mono [OF order_refl spread_values [of "lb_variants (logicalBookOf d)" "lb_variants (logicalBookOf s)"], of "memberIds v"]
    unfolding memberIds_iff [OF assms(3)] memberIds_iff [OF assms(5)] assms(6) by (simp add: Int_Un_distrib)
qed

text \<open>How an association ends: refused, aborted because a book changed meanwhile, or committed.\<close>

lemma associate_cases:
  assumes "associate between db x y identity = (r, db')"
  obtains (refused) e where "r = Inl e" "inCatalog db' db"
  | (changed) d where "r = Inl MembershipChanged" "inCatalog d db" "db' = between d"
  | (committed) d s db2 b m where "x \<noteq> y" "inCatalog db2 db"
      "idbGet (between db2) LOGICAL_BOOKS_STORE [x] = Some d" "isLogicalBookRecord d"
      "idbGet (between db2) LOGICAL_BOOKS_STORE [y] = Some s" "isLogicalBookRecord s"
      "lb_id b = x" "lb_variants b = spread (lb_variants (logicalBookOf d)) (lb_variants (logicalBookOf s))"
      "r = Inr m" "mres_resultingBooks m = [b]"
      "\<And>k. idbGet db' LOGICAL_BOOKS_STORE k =
         idbGet (idbPut LOGICAL_BOOKS_STORE (logicalBookVal b) (idbDelete LOGICAL_BOOKS_STORE [y] (between db2))) LOGICAL_BOOKS_STORE k"
proof -
  obtain dv db1 where g1: "getLogicalBook db x = (dv, db1)" by fastforce
  obtain sv db2 where g2: "getLogicalBook db1 y = (sv, db2)" by fastforce
  note r1 = getLogicalBook_result [OF g1] and r2 = getLogicalBook_result [OF g2]
  have in2: "inCatalog db2 db" using inCatalog_trans [OF inCatalog_reads [OF r2(1)] inCatalog_reads [OF r1(1)]] .
  note eq = assms [unfolded associate_def Let_def g1 g2 prod.case]
  show ?thesis
  proof (cases "x = y \<or> dv = None \<or> sv = None")
    case True
    then have "(r, db') = (Inl SelfAssociation, db) \<or> (r, db') = (Inl LogicalBookNotFound, db2)"
      using eq by (cases dv; cases sv) (auto split: if_splits)
    then show ?thesis using in2 refused by auto
  next
    case False
    then obtain d s where ds: "dv = Some d" "sv = Some s" "x \<noteq> y" by (cases dv; cases sv) auto
    let ?d = "logicalBookOf d" and ?s = "logicalBookOf s" and ?db = "between db2"
    define clash where "clash = filter (\<lambda>f. map_of (lb_variants ?d) f \<noteq> None \<and> map_of (lb_variants ?s) f \<noteq> None) [Epub, Pdf]"
    define b where "b = ?d\<lparr>lb_variants := spread (lb_variants ?d) (lb_variants ?s), lb_updatedAt := mi_createdAt identity\<rparr>"
    show ?thesis
    proof (cases "clash = [] \<and> idbGet ?db LOGICAL_BOOKS_STORE [x] = Some d \<and> idbGet ?db LOGICAL_BOOKS_STORE [y] = Some s")
      case False
      then have "(r, db') = (Inl MembershipChanged, ?db) \<or> (\<exists>f. (r, db') = (Inl (FormatOccupied f), db2))"
        using eq ds unfolding clash_def by (auto split: list.splits if_splits)
      then show ?thesis using in2 refused changed by auto
    next
      case True
      have "lb_id b = x" "isLogicalBookRecord d" "isLogicalBookRecord s" using r1(2) r2(2) ds by (simp_all add: b_def)
      then show ?thesis
        using eq ds True unfolding clash_def b_def [symmetric]
        by (intro committed [OF ds(3) in2, of d s b]) (auto simp: b_def mutationResult_def idbGet_idbWrite idbGet_idbDelete split: list.splits)
    qed
  qed
qed

lemma exclusiveCatalog_associate:
  assumes "exclusiveCatalog db" and "\<forall>d. exclusiveCatalog d \<longrightarrow> exclusiveCatalog (between d)"
    and "associate between db x y identity = (r, db')"
  shows "exclusiveCatalog db'"
  using assms(3)
proof (cases rule: associate_cases)
  case (refused e)
  then show ?thesis using exclusiveCatalog_subset assms(1) by blast
next
  case (changed d)
  then show ?thesis using exclusiveCatalog_subset assms(1,2) by blast
next
  case (committed d s db2 b m)
  have "exclusiveCatalog (between db2)" using exclusiveCatalog_subset [OF committed(2) assms(1)] assms(2) by blast
  then have "exclusiveCatalog (idbPut LOGICAL_BOOKS_STORE (logicalBookVal b) (idbDelete LOGICAL_BOOKS_STORE [y] (between db2)))"
    using exclusiveCatalog_unite committed(3-8) by blast
  then show ?thesis using exclusiveCatalog_subset committed(11) unfolding inCatalog_def by metis
qed

text \<open>Associating two books keeps every publication in at most one logical book, whatever other
  operations do between reading the two books and committing: the commit is refused when either book
  changed. A refused or failed association changes nothing.\<close>

theorem associate_exclusive:
  assumes "exclusiveCatalog db" and "\<forall>d. exclusiveCatalog d \<longrightarrow> exclusiveCatalog (between d)"
    and "associate between db destinationId sourceId identity = (r, db')"
  shows "exclusiveCatalog db' \<and>
    (\<forall>e. r = Inl e \<longrightarrow> inCatalog db' db \<or> (\<exists>d. inCatalog d db \<and> db' = between d)) \<and>
    (\<forall>m. r = Inr m \<longrightarrow> idbGet db' LOGICAL_BOOKS_STORE [sourceId] = None \<and>
       (\<exists>b. mres_resultingBooks m = [b] \<and> idbGet db' LOGICAL_BOOKS_STORE [destinationId] = Some (logicalBookVal b)))"
proof -
  have "exclusiveCatalog db'" using exclusiveCatalog_associate [OF assms] .
  from assms(3) show ?thesis
  proof (cases rule: associate_cases)
    case (committed d s db2 b m)
    then show ?thesis using \<open>exclusiveCatalog db'\<close> by (simp add: idbGet_idbWrite idbGet_idbDelete)
  qed (use \<open>exclusiveCatalog db'\<close> in auto)
qed

definition exampleIdentity :: LogicalMutationIdentity where
  "exampleIdentity = \<lparr>mi_changeId = ''change:1'', mi_parents = [], mi_createdAt = ''2024-05-03T10:00:00.000Z'',
     mi_deviceId = ''device-a'', mi_appVersion = ''1.0.0''\<rparr>"

text \<open>A library with the EPUB and the PDF of a work as two books.\<close>

definition pdfVariant :: BookRecord where
  "pdfVariant = sampleBook\<lparr>br_id := ''sha256:'' @ replicate 64 (CHR ''c''), br_format := Pdf, br_fileName := ''book.pdf'',
     br_mediaType := ''application/pdf''\<rparr>"

definition singletonBook :: "BookRecord \<Rightarrow> LogicalBookRecord" where
  "singletonBook v = (case logicalBookFromVariant v ''2024-05-02T10:00:00.000Z'' of Inr b \<Rightarrow> b)"

definition epubBook :: LogicalBookRecord where
  "epubBook = singletonBook sampleBook"

definition pdfBook2 :: LogicalBookRecord where
  "pdfBook2 = singletonBook pdfVariant"

definition twoBooksDb :: LibraryDb where
  "twoBooksDb = idbPut LOGICAL_BOOKS_STORE (logicalBookVal pdfBook2) (idbPut LOGICAL_BOOKS_STORE (logicalBookVal epubBook)
     (idbPut BOOKS_STORE (bookVal pdfVariant) exampleDb))"

lemma exclusiveCatalog_twoBooksDb: "exclusiveCatalog twoBooksDb"
proof -
  have "exclusiveCatalog (idbPut BOOKS_STORE (bookVal pdfVariant) exampleDb)"
    by (simp add: exclusiveCatalog_def idbGet_idbWrite) (simp add: idbGet_def exampleDb_def)
  then have one: "exclusiveCatalog (idbPut LOGICAL_BOOKS_STORE (logicalBookVal epubBook) (idbPut BOOKS_STORE (bookVal pdfVariant) exampleDb))"
    by (rule exclusiveCatalog_put) (simp add: idbGet_idbWrite, simp add: idbGet_def exampleDb_def)
  have "snd ` set (lb_variants epubBook) \<inter> snd ` set (lb_variants pdfBook2) = {}" by code_simp
  then have "memberIds (logicalBookVal epubBook) \<inter> snd ` set (lb_variants pdfBook2) = {}"
    using memberIds_logicalBookVal [of epubBook] by blast
  moreover have "idbGet exampleDb LOGICAL_BOOKS_STORE k = None" for k by (simp add: idbGet_def exampleDb_def)
  ultimately show ?thesis
    unfolding twoBooksDb_def by (intro exclusiveCatalog_put [OF one]) (simp add: idbGet_idbWrite split: if_splits)
qed

theorem associate_exclusive_witness:
  "exclusiveCatalog (snd (associate (\<lambda>d. d) twoBooksDb (lb_id epubBook) (lb_id pdfBook2) exampleIdentity))"
  using associate_exclusive [OF exclusiveCatalog_twoBooksDb, of "\<lambda>d. d" "lb_id epubBook" "lb_id pdfBook2" exampleIdentity]
  by (metis prod.collapse)

section \<open>Deletion\<close>

lemma onlyQuarantines_getStoredBinary: "onlyQuarantines db (snd (getStoredBinary db i))"
  by (simp add: getStoredBinary_def onlyQuarantines_record split: option.splits)

lemma idbGet_removeBinary [simp]: "idbGet (removeBinary fs stored db) s k = idbGet db s k"
  by (simp add: removeBinary_def idbGet_def split: StoredPublicationBinary.splits)

lemma idbGet_removeFiles [simp]: "idbGet (fold (removeItemFile fs) items db) s k = idbGet db s k"
  by (induction items arbitrary: db) (simp_all add: removeItemFile_def split: option.splits)

text \<open>What the cleanup of one publication reads.\<close>

lemma collectCleanup_steps:
  obtains st0 d db0 db1 b db2 a db3 where
    "getStoredBinary (snd st) t = (st0, db0)" "listProgressDocuments lc db0 (Some t) = (d, db1)"
    "listBookmarks lc db1 (Some t) True = (b, db2)" "listAnnotations lc db2 (Some t) True = (a, db3)"
    "collectCleanup lc st t = (fst st @ [\<lparr>cl_target = t, cl_stored = st0, cl_progressDocuments = d, cl_bookmarks = b,
       cl_annotations = a\<rparr>], db3)"
    "onlyQuarantines (snd st) db0" "onlyQuarantines db0 db1" "onlyQuarantines db1 db2" "onlyQuarantines db2 db3"
proof -
  obtain st0 db0 where 0: "getStoredBinary (snd st) t = (st0, db0)" by fastforce
  obtain d db1 where 1: "listProgressDocuments lc db0 (Some t) = (d, db1)" by fastforce
  obtain b db2 where 2: "listBookmarks lc db1 (Some t) True = (b, db2)" by fastforce
  obtain a db3 where 3: "listAnnotations lc db2 (Some t) True = (a, db3)" by fastforce
  have q: "onlyQuarantines (snd st) db0" "onlyQuarantines db0 db1" "onlyQuarantines db1 db2" "onlyQuarantines db2 db3"
    using onlyQuarantines_getStoredBinary [of "snd st" t] onlyQuarantines_listProgressDocuments [of db0 lc "Some t"]
      onlyQuarantines_listMarks [of db1 lc] onlyQuarantines_listMarks [of db2 lc] 0 1 2 3
    by (metis snd_conv listBookmarks_def listAnnotations_def)+
  show ?thesis by (rule that [OF 0 1 2 3 _ q]) (simp add: collectCleanup_def 0 1 2 3)
qed

lemma collectCleanup_reads: "onlyQuarantines (snd st) (snd (collectCleanup lc st t))"
  by (rule collectCleanup_steps [of st t lc]) (metis onlyQuarantines_trans snd_conv)

lemma cleanup_reads: "onlyQuarantines (snd st) (snd (foldl (collectCleanup lc) st ts))"
proof (induction ts arbitrary: st)
  case (Cons t ts)
  from onlyQuarantines_trans [OF collectCleanup_reads Cons.IH] show ?case by simp
qed simp

lemma inCatalog_deleteItem: "inCatalog (deleteItem item db) db"
  unfolding deleteItem_def
  by (intro inCatalog_trans [OF inCatalog_fold] inCatalog_idbDelete inCatalog_trans [OF inCatalog_idbDelete] inCatalog_refl)

lemma quarantine_writes [simp]:
  "db_quarantine (idbPut s v db) = db_quarantine db" "db_quarantine (idbDelete s k db) = db_quarantine db"
  "db_quarantine (removeBinary fs stored db) = db_quarantine db"
  by (simp_all add: idbWrite_def idbDelete_def removeBinary_def split: StoredPublicationBinary.splits)

lemma quarantine_fold: "(\<And>x d. db_quarantine (f x d) = db_quarantine d) \<Longrightarrow> db_quarantine (fold f xs db) = db_quarantine db"
  by (induction xs arbitrary: db) simp_all

lemma quarantine_deleteItems [simp]: "db_quarantine (fold deleteItem items db) = db_quarantine db"
  by (rule quarantine_fold) (simp add: deleteItem_def quarantine_fold)

lemma quarantine_removeFiles [simp]: "db_quarantine (fold (removeItemFile fs) items db) = db_quarantine db"
  by (rule quarantine_fold) (simp add: removeItemFile_def split: option.splits)

text \<open>A deletion that succeeds: what it collects, and that its commit touches only the catalog and its outbox
  beyond the collected records.\<close>

lemma deleteVariant_cases:
  assumes "deleteVariant fs lc (\<lambda>d. d) db i t identity = (r, db')"
  obtains (refused) e where "r = Inl e" "onlyQuarantines db db'"
  | (committed) b targets cleanup db2 db3 remaining where
      "idbGet db LOGICAL_BOOKS_STORE [i] = Some b" "isLogicalBookRecord b" "lb_id (logicalBookOf b) = i"
      "foldl (collectCleanup lc) ([], db) targets = (cleanup, db2)" "onlyQuarantines db2 db3"
      "remaining = filter (\<lambda>(f, j). j \<notin> set targets) (lb_variants (logicalBookOf b))"
      "\<exists>m. r = Inr m \<and> mres_deletedVariantIds m = targets" "set targets \<subseteq> snd ` set (lb_variants (logicalBookOf b))"
      "\<And>s k. s \<notin> {LOGICAL_BOOKS_STORE, LOGICAL_BOOK_COVERS_STORE, LOGICAL_BOOK_PREFERENCES_STORE, LOGICAL_BOOK_CHANGE_OUTBOX_STORE} \<Longrightarrow>
         idbGet db' s k = idbGet (fold deleteItem cleanup db3) s k" "db_quarantine db' = db_quarantine db3"
      "remaining = [] \<Longrightarrow> inCatalog db' (idbDelete LOGICAL_BOOKS_STORE [i] (fold deleteItem cleanup db3))"
      "remaining \<noteq> [] \<Longrightarrow> inCatalog db' (idbPut LOGICAL_BOOKS_STORE
         (logicalBookVal ((logicalBookOf b)\<lparr>lb_variants := remaining, lb_updatedAt := mi_createdAt identity\<rparr>))
         (fold deleteItem cleanup db3))"
proof -
  obtain bv db1 where g: "getLogicalBook db i = (bv, db1)" by fastforce
  note r = getLogicalBook_result [OF g]
  show ?thesis
  proof (cases bv)
    case None
    then show ?thesis using r(1) assms refused by (auto simp: deleteVariant_def g)
  next
    case (Some b)
    have b: "idbGet db LOGICAL_BOOKS_STORE [i] = Some b" "isLogicalBookRecord b" "lb_id (logicalBookOf b) = i" "db1 = db"
      using r(2) [OF Some] by auto
    define targets where "targets = (case t of None \<Rightarrow> mapValues (lb_variants (logicalBookOf b)) | Some j \<Rightarrow> [j])"
    define remaining where "remaining = filter (\<lambda>(f, j). j \<notin> set targets) (lb_variants (logicalBookOf b))"
    obtain cleanup db2 where c: "foldl (collectCleanup lc) ([], db) targets = (cleanup, db2)" by fastforce
    obtain p db3 where p: "getLogicalBookFormatPreference db2 i = (p, db3)" by fastforce
    have q3: "onlyQuarantines db2 db3" using getPreference_reads [of db2 i] by (simp add: p)
    note eq = assms [unfolded deleteVariant_def Let_def g prod.case Some option.case b(4), folded targets_def,
        unfolded c prod.case p, folded remaining_def]
    show ?thesis
    proof (cases "\<exists>x \<in> set targets. x \<notin> set (mapValues (lb_variants (logicalBookOf b)))")
      case True
      then show ?thesis using eq b(4) refused by auto
    next
      case False
      then have sub: "set targets \<subseteq> snd ` set (lb_variants (logicalBookOf b))" by (auto simp: mapValues_def)
      show ?thesis
        by (rule committed [OF b(1-3) c q3 remaining_def _ sub]; use eq False in
            \<open>auto simp: mutationResult_def idbGet_idbWrite idbGet_idbDelete inCatalog_def split: list.splits option.splits if_splits\<close>)
    qed
  qed
qed

lemma exclusiveCatalog_shrink:
  assumes "exclusiveCatalog db" and "inCatalog db4 db" and "idbGet db LOGICAL_BOOKS_STORE [lb_id b] = Some d"
    and "snd ` set (lb_variants b) \<subseteq> memberIds d"
  shows "exclusiveCatalog (idbPut LOGICAL_BOOKS_STORE (logicalBookVal b) db4)"
proof (rule exclusiveCatalog_put [OF exclusiveCatalog_subset [OF assms(2,1)]])
  fix k v assume "idbGet db4 LOGICAL_BOOKS_STORE k = Some v" "k \<noteq> [lb_id b]"
  then have "memberIds v \<inter> memberIds d = {}"
    using assms(1-3) unfolding exclusiveCatalog_def inCatalog_def by blast
  then show "memberIds v \<inter> snd ` set (lb_variants b) = {}" using assms(4) by blast
qed

lemma exclusiveCatalog_deleteVariant:
  assumes "exclusiveCatalog db" and "deleteVariant fs lc (\<lambda>d. d) db i t identity = (r, db')"
  shows "exclusiveCatalog db'"
  using assms(2)
proof (cases rule: deleteVariant_cases)
  case (refused e)
  then show ?thesis using exclusiveCatalog_subset [OF inCatalog_reads] assms(1) by blast
next
  case (committed b targets cleanup db2 db3 remaining)
  let ?db4 = "fold deleteItem cleanup db3"
  have "onlyQuarantines db db3"
    using onlyQuarantines_trans [OF _ committed(5)] cleanup_reads [of "([], db)" lc targets] committed(4) by simp
  then have in4: "inCatalog ?db4 db"
    using inCatalog_trans [OF inCatalog_fold [of deleteItem cleanup db3]] inCatalog_deleteItem inCatalog_reads by blast
  let ?b = "(logicalBookOf b)\<lparr>lb_variants := remaining, lb_updatedAt := mi_createdAt identity\<rparr>"
  have "snd ` set (lb_variants ?b) \<subseteq> memberIds b"
    unfolding memberIds_iff [OF committed(2)] committed(6) by auto
  then have "exclusiveCatalog (idbPut LOGICAL_BOOKS_STORE (logicalBookVal ?b) ?db4)"
    using exclusiveCatalog_shrink [OF assms(1) in4, of ?b b] committed(1,3) by simp
  moreover have "exclusiveCatalog (idbDelete LOGICAL_BOOKS_STORE [i] ?db4)"
    using exclusiveCatalog_subset [OF inCatalog_trans [OF inCatalog_idbDelete in4] assms(1)] .
  ultimately show ?thesis using committed(11,12) exclusiveCatalog_subset by blast
qed

text \<open>Everything of the index that is left after reading it was returned.\<close>

lemma validatedEntries_index:
  assumes "dbOk db" and "validatedEntries db s (filter (\<lambda>(k, v). P v) (db_stores db s)) validator reason = (vs, db')"
    and "idbGet db' s k = Some v" and "P v"
  shows "v \<in> set vs" and "validator v"
proof -
  let ?es = "filter (\<lambda>(k, v). P v) (db_stores db s)"
  have d: "distinct (map fst (db_stores db s))" using assms(1) by (simp add: dbOk_def storeOk_distinct)
  then have de: "distinct (map fst ?es)" by (simp add: distinct_map_filter)
  have all: "\<forall>(k, v) \<in> set ?es. idbGet db s k = Some v" using d by (auto simp: idbGet_def)
  note loop = validatedEntries_loop [OF de all, of validator reason "[]"]
  have keep: "idbGet (snd (validatedEntries db s ?es validator reason)) s k =
      map_of (filter (\<lambda>e. fst e \<notin> fst ` set (filter (\<lambda>e. \<not> validator (snd e)) ?es)) (db_stores db s)) k"
    unfolding validatedEntries_def loop by (simp add: idbGet_def)
  have "(k, v) \<in> set (filter (\<lambda>e. fst e \<notin> fst ` set (filter (\<lambda>e. \<not> validator (snd e)) ?es)) (db_stores db s))"
    by (rule map_of_SomeD) (use keep assms(2,3) in simp)
  then have kv: "(k, v) \<in> set (db_stores db s)" "k \<notin> fst ` set (filter (\<lambda>e. \<not> validator (snd e)) ?es)"
    by (simp_all only: set_filter mem_Collect_eq fst_conv simp_thms)
  then have es: "(k, v) \<in> set ?es" using assms(4) by simp
  then show valid: "validator v" using kv(2) by force
  have "vs = filter validator (map snd ?es)" using assms(2) unfolding validatedEntries_def loop by simp
  moreover have "v \<in> snd ` set ?es" using es by force
  ultimately show "v \<in> set vs" using valid by simp
qed

lemma listMarks_complete:
  assumes "dbOk db" and "listMarks lc db s isMark reason (Some i) True = (ms, db')" and "s \<noteq> BOOKS_STORE"
    and "idbGet db' s k = Some v" and "getProp v ''bookId'' = JStr i"
  shows "v \<in> set ms"
proof -
  obtain books db1 where b: "listBooks lc db = (books, db1)" by fastforce
  have ok: "dbOk db1" using onlyQuarantines_dbOk [OF onlyQuarantines_listBooks assms(1), of lc] by (simp add: b)
  show ?thesis
    using assms(2-5) validatedEntries_index(1) [OF ok, of s "\<lambda>v. bookIdIndex v = JStr i"]
    unfolding listMarks_def b readAllByIndexValidated_def bookIdIndex_def by (auto split: prod.splits)
qed

lemma listDocuments_complete:
  assumes "dbOk db" and "listProgressDocuments lc db (Some i) = (ms, db')"
    and "idbGet db' PROGRESS_DOCUMENTS_STORE k = Some v" and "getProp v ''bookId'' = JStr i"
  shows "v \<in> set ms"
proof -
  obtain books db1 where b: "listBooks lc db = (books, db1)" by fastforce
  have ok: "dbOk db1" using onlyQuarantines_dbOk [OF onlyQuarantines_listBooks assms(1), of lc] by (simp add: b)
  show ?thesis
    using assms(2-4) validatedEntries_index(1) [OF ok, of PROGRESS_DOCUMENTS_STORE "\<lambda>v. bookIdIndex v = JStr i"]
    unfolding listProgressDocuments_def Let_def b readAllByIndexValidated_def bookIdIndex_def by (auto split: prod.splits)
qed

section \<open>What a deletion removes\<close>

text \<open>The records a deletion collects for a publication, by store.\<close>

definition markStores :: "ActiveLibraryStore set" where
  "markStores = {PROGRESS_DOCUMENTS_STORE, BOOKMARKS_STORE, ANNOTATIONS_STORE}"

definition variantStores :: "ActiveLibraryStore set" where
  "variantStores = {BOOKS_STORE, BINARIES_STORE, COVERS_STORE, PROGRESS_STORE}"

definition itemRecords :: "CleanupItem \<Rightarrow> ActiveLibraryStore \<Rightarrow> jsval list" where
  "itemRecords item s = (case s of PROGRESS_DOCUMENTS_STORE \<Rightarrow> cl_progressDocuments item
     | BOOKMARKS_STORE \<Rightarrow> cl_bookmarks item | ANNOTATIONS_STORE \<Rightarrow> cl_annotations item | _ \<Rightarrow> [])"

lemma idbGet_fold_delete:
  "idbGet (fold (\<lambda>x. idbDelete s (g x)) xs db) s' k = (if s' = s \<and> k \<in> g ` set xs then None else idbGet db s' k)"
  by (induction xs arbitrary: db) (auto simp: idbGet_idbDelete)

definition itemKeys :: "CleanupItem \<Rightarrow> ActiveLibraryStore \<Rightarrow> idbKey set" where
  "itemKeys item s = (if s \<in> variantStores then {[cl_target item]} else recordKey s ` set (itemRecords item s))"

lemma idbGet_deleteItem: "idbGet (deleteItem item db) s k = (if k \<in> itemKeys item s then None else idbGet db s k)"
  unfolding itemKeys_def deleteItem_def idbGet_fold_delete idbGet_idbDelete
  by (cases s) (auto simp: variantStores_def itemRecords_def recordKey_def keyPath_def)

lemma idbGet_deleteItems:
  "idbGet (fold deleteItem items db) s k = (if \<exists>item \<in> set items. k \<in> itemKeys item s then None else idbGet db s k)"
  by (induction items arbitrary: db) (simp_all add: idbGet_deleteItem)

lemma onlyQuarantines_get:
  "onlyQuarantines db db' \<Longrightarrow> idbGet db s k = Some v \<Longrightarrow> idbGet db' s k = Some v \<or> quarantinedIn db' s k v"
  unfolding onlyQuarantines_def by (metis option.inject)

lemma reads_get: "onlyQuarantines db db' \<Longrightarrow> idbGet db' s k = Some v \<Longrightarrow> idbGet db s k = Some v"
  unfolding onlyQuarantines_def by (metis option.distinct(1))

definition collects :: "LibraryDb \<Rightarrow> string \<Rightarrow> CleanupItem \<Rightarrow> bool" where
  "collects db t item \<longleftrightarrow> cl_target item = t \<and>
     (\<forall>s \<in> markStores. \<forall>k v. idbGet db s k = Some v \<longrightarrow> getProp v ''bookId'' = JStr t \<longrightarrow> v \<in> set (itemRecords item s))"

lemma collects_reads: "onlyQuarantines db db' \<Longrightarrow> collects db t item \<Longrightarrow> collects db' t item"
  unfolding collects_def using reads_get by blast

lemma collectCleanup_collects:
  assumes "dbOk (snd st)"
  shows "\<exists>item \<in> set (fst (collectCleanup lc st t)). collects (snd (collectCleanup lc st t)) t item"
proof (rule collectCleanup_steps [of st t lc])
  fix st0 d db0 db1 b db2 a db3
  assume 1: "listProgressDocuments lc db0 (Some t) = (d, db1)" and 2: "listBookmarks lc db1 (Some t) True = (b, db2)"
    and 3: "listAnnotations lc db2 (Some t) True = (a, db3)"
    and run: "collectCleanup lc st t = (fst st @ [\<lparr>cl_target = t, cl_stored = st0, cl_progressDocuments = d, cl_bookmarks = b,
       cl_annotations = a\<rparr>], db3)"
    and q: "onlyQuarantines (snd st) db0" "onlyQuarantines db0 db1" "onlyQuarantines db1 db2" "onlyQuarantines db2 db3"
  have ok: "dbOk db0" "dbOk db1" "dbOk db2" using assms q onlyQuarantines_dbOk by blast+
  have "v \<in> set d" if "idbGet db3 PROGRESS_DOCUMENTS_STORE k = Some v" "getProp v ''bookId'' = JStr t" for k v
    using listDocuments_complete [OF ok(1) 1] reads_get q that by blast
  moreover have "v \<in> set b" if "idbGet db3 BOOKMARKS_STORE k = Some v" "getProp v ''bookId'' = JStr t" for k v
    using listMarks_complete [OF ok(2) 2 [unfolded listBookmarks_def]] reads_get q that by blast
  moreover have "v \<in> set a" if "idbGet db3 ANNOTATIONS_STORE k = Some v" "getProp v ''bookId'' = JStr t" for k v
    using listMarks_complete [OF ok(3) 3 [unfolded listAnnotations_def]] that by blast
  ultimately show ?thesis
    by (auto simp: run collects_def markStores_def itemRecords_def)
qed

lemma cleanup_collects:
  assumes "dbOk (snd st)" and "t \<in> set ts"
  shows "\<exists>item \<in> set (fst (foldl (collectCleanup lc) st ts)). collects (snd (foldl (collectCleanup lc) st ts)) t item"
  using assms(2)
proof (induction ts rule: rev_induct)
  case (snoc x ts)
  let ?st = "foldl (collectCleanup lc) st ts"
  have q: "onlyQuarantines (snd st) (snd ?st)" "onlyQuarantines (snd ?st) (snd (collectCleanup lc ?st x))"
    by (rule cleanup_reads, rule collectCleanup_reads)
  have ok: "dbOk (snd ?st)" using onlyQuarantines_dbOk [OF q(1) assms(1)] .
  show ?case
  proof (cases "t = x")
    case True
    then show ?thesis using collectCleanup_collects [OF ok, of lc x] by simp
  next
    case False
    then obtain item where "item \<in> set (fst ?st)" "collects (snd ?st) t item" using snoc by auto
    moreover have "set (fst ?st) \<subseteq> set (fst (collectCleanup lc ?st x))" by (auto simp: collectCleanup_def split: prod.splits)
    ultimately show ?thesis using collects_reads [OF q(2)] by auto
  qed
qed simp

text \<open>Conversely, what a cleanup collects are records of its publication.\<close>

lemma validatedEntries_sound:
  assumes "dbOk db" and "v \<in> set (fst (readAllByIndexValidated db s index i validator reason))"
  shows "(\<exists>k. idbGet db s k = Some v) \<and> index v = JStr i \<and> validator v"
proof -
  let ?es = "filter (\<lambda>(k, v). index v = JStr i) (db_stores db s)"
  have d: "distinct (map fst (db_stores db s))" using assms(1) by (simp add: dbOk_def storeOk_distinct)
  then have de: "distinct (map fst ?es)" by (simp add: distinct_map_filter)
  have all: "\<forall>(k, v) \<in> set ?es. idbGet db s k = Some v" using d by (auto simp: idbGet_def)
  have v: "v \<in> set (map snd ?es)" "validator v"
    using assms(2) unfolding readAllByIndexValidated_def validatedEntries_def validatedEntries_loop [OF de all] by auto
  then obtain k where "(k, v) \<in> set ?es" by auto
  then show ?thesis using all v(2) by auto
qed

definition collectedFrom :: "LibraryDb \<Rightarrow> CleanupItem \<Rightarrow> bool" where
  "collectedFrom db item \<longleftrightarrow> (\<forall>s \<in> markStores. \<forall>v \<in> set (itemRecords item s).
     (\<exists>k. idbGet db s k = Some v) \<and> getProp v ''bookId'' = JStr (cl_target item))"

lemma collectedFrom_reads: "onlyQuarantines db db' \<Longrightarrow> collectedFrom db' item \<Longrightarrow> collectedFrom db item"
  unfolding collectedFrom_def using reads_get by blast

lemma indexed_after_books:
  assumes "dbOk db" and "v \<in> set (fst (readAllByIndexValidated (snd (listBooks lc db)) s bookIdIndex i validator reason))"
  shows "(\<exists>k. idbGet db s k = Some v) \<and> getProp v ''bookId'' = JStr i"
proof -
  note q = onlyQuarantines_listBooks [of db lc]
  from validatedEntries_sound [OF onlyQuarantines_dbOk [OF q assms(1)] assms(2)]
  show ?thesis using reads_get [OF q] by (auto simp: bookIdIndex_def)
qed

lemma listMarks_sound:
  assumes "dbOk db" and "v \<in> set (fst (listMarks lc db s isMark reason (Some i) d))"
  shows "(\<exists>k. idbGet db s k = Some v) \<and> getProp v ''bookId'' = JStr i"
proof -
  from assms(2) have "v \<in> set (fst (readAllByIndexValidated (snd (listBooks lc db)) s bookIdIndex i
      (\<lambda>v. isMark v \<and> getProp v ''bookId'' = JStr i \<and> formatMatches (booksById (fst (listBooks lc db))) v) reason))"
    by (simp add: listMarks_def split_beta)
  then show ?thesis by (rule indexed_after_books [OF assms(1)])
qed

lemma listDocuments_sound:
  assumes "dbOk db" and "v \<in> set (fst (listProgressDocuments lc db (Some i)))"
  shows "(\<exists>k. idbGet db PROGRESS_DOCUMENTS_STORE k = Some v) \<and> getProp v ''bookId'' = JStr i"
  by (rule indexed_after_books [OF assms(1)]) (use assms(2) in \<open>simp add: listProgressDocuments_def Let_def split_beta\<close>)

lemma collectCleanup_from:
  assumes "dbOk (snd st)" and "\<forall>item \<in> set (fst st). collectedFrom db item" and "onlyQuarantines db (snd st)"
  shows "\<forall>item \<in> set (fst (collectCleanup lc st t)). collectedFrom db item"
proof (rule collectCleanup_steps [of st t lc])
  fix st0 d db0 db1 b db2 a db3
  assume 1: "listProgressDocuments lc db0 (Some t) = (d, db1)" and 2: "listBookmarks lc db1 (Some t) True = (b, db2)"
    and 3: "listAnnotations lc db2 (Some t) True = (a, db3)"
    and run: "collectCleanup lc st t = (fst st @ [\<lparr>cl_target = t, cl_stored = st0, cl_progressDocuments = d, cl_bookmarks = b,
       cl_annotations = a\<rparr>], db3)"
    and q: "onlyQuarantines (snd st) db0" "onlyQuarantines db0 db1" "onlyQuarantines db1 db2" "onlyQuarantines db2 db3"
  have ok: "dbOk db0" "dbOk db1" "dbOk db2" using assms(1) q onlyQuarantines_dbOk by blast+
  have origin: "(\<exists>k. idbGet db' s k = Some v) \<and> P \<Longrightarrow> onlyQuarantines db db' \<Longrightarrow> (\<exists>k. idbGet db s k = Some v) \<and> P" for db' s v P
    using reads_get by blast
  have q': "onlyQuarantines db db0" "onlyQuarantines db db1" "onlyQuarantines db db2"
    using q assms(3) onlyQuarantines_trans by blast+
  have "(\<exists>k. idbGet db PROGRESS_DOCUMENTS_STORE k = Some v) \<and> getProp v ''bookId'' = JStr t" if "v \<in> set d" for v
    by (rule origin [OF listDocuments_sound [OF ok(1), of v lc t] q'(1)]) (simp add: 1 that)
  moreover have "(\<exists>k. idbGet db BOOKMARKS_STORE k = Some v) \<and> getProp v ''bookId'' = JStr t" if "v \<in> set b" for v
    by (rule origin [OF listMarks_sound [OF ok(2)] q'(2)]) (subst 2 [unfolded listBookmarks_def], simp add: that)
  moreover have "(\<exists>k. idbGet db ANNOTATIONS_STORE k = Some v) \<and> getProp v ''bookId'' = JStr t" if "v \<in> set a" for v
    by (rule origin [OF listMarks_sound [OF ok(3)] q'(3)]) (subst 3 [unfolded listAnnotations_def], simp add: that)
  ultimately show ?thesis
    using assms(2) by (auto simp: run collectedFrom_def markStores_def itemRecords_def)
qed

lemma cleanup_from:
  assumes "dbOk db"
  shows "\<forall>item \<in> set (fst (foldl (collectCleanup lc) ([], db) ts)). collectedFrom db item"
proof (induction ts rule: rev_induct)
  case (snoc x ts)
  have "onlyQuarantines db (snd (foldl (collectCleanup lc) ([], db) ts))" using cleanup_reads [of "([], db)" lc ts] by simp
  then show ?case using collectCleanup_from [OF onlyQuarantines_dbOk [OF _ assms] snoc] by simp
qed simp

text \<open>Which keys of a store a cleanup deletes, in the database it was collected from.\<close>

lemma markStores_disjoint: "s \<in> markStores \<Longrightarrow> s \<notin> variantStores"
  by (auto simp: markStores_def variantStores_def)

lemma deleted_mark:
  assumes "collects db t item" and "dbOk db" and "s \<in> markStores" and "idbGet db s k = Some v" and "getProp v ''bookId'' = JStr t"
  shows "k \<in> itemKeys item s"
proof -
  have "v \<in> set (itemRecords item s)" using assms(1,3-5) by (auto simp: collects_def)
  then show ?thesis using dbOk_key [OF assms(2,4)] markStores_disjoint [OF assms(3)] by (auto simp: itemKeys_def)
qed

lemma kept_mark:
  assumes "collectedFrom db item" and "dbOk db" and "s \<in> markStores" and "idbGet db s k = Some v"
    and "getProp v ''bookId'' \<noteq> JStr (cl_target item)"
  shows "k \<notin> itemKeys item s"
proof
  assume "k \<in> itemKeys item s"
  then obtain w where w: "w \<in> set (itemRecords item s)" "k = recordKey s w"
    using markStores_disjoint [OF assms(3)] by (auto simp: itemKeys_def)
  obtain k' where k': "idbGet db s k' = Some w" "getProp w ''bookId'' = JStr (cl_target item)"
    using w(1) assms(1,3) by (auto simp: collectedFrom_def)
  then have "k' = k" using dbOk_key [OF assms(2)] w(2) by blast
  then show False using k' assms(4,5) by simp
qed

lemma cleanup_targets: "cl_target ` set (fst (foldl (collectCleanup lc) st ts)) = cl_target ` set (fst st) \<union> set ts"
proof (induction ts arbitrary: st)
  case (Cons t ts)
  have "cl_target ` set (fst (collectCleanup lc st t)) = insert t (cl_target ` set (fst st))"
    by (rule collectCleanup_steps [of st t lc]) simp
  then show ?case using Cons.IH [of "collectCleanup lc st t"] by simp
qed simp

lemma deleteVariant_effect:
  assumes "dbOk db" and "deleteVariant fs lc (\<lambda>d. d) db i t identity = (Inr m, db')"
  obtains cleanup db3 where "onlyQuarantines db db3" "db_quarantine db' = db_quarantine db3"
    "cl_target ` set cleanup = set (mres_deletedVariantIds m)"
    "\<And>x. x \<in> set (mres_deletedVariantIds m) \<Longrightarrow> \<exists>item \<in> set cleanup. collects db3 x item"
    "\<And>item. item \<in> set cleanup \<Longrightarrow> collectedFrom db item"
    "\<And>s k. s \<in> variantStores \<union> markStores \<Longrightarrow>
       idbGet db' s k = (if \<exists>item \<in> set cleanup. k \<in> itemKeys item s then None else idbGet db3 s k)"
proof -
  from assms(2) obtain b targets cleanup db2 db3 where
    c: "foldl (collectCleanup lc) ([], db) targets = (cleanup, db2)" and q3: "onlyQuarantines db2 db3"
    and tm: "mres_deletedVariantIds m = targets" and qd: "db_quarantine db' = db_quarantine db3"
    and get: "\<And>s k. s \<notin> {LOGICAL_BOOKS_STORE, LOGICAL_BOOK_COVERS_STORE, LOGICAL_BOOK_PREFERENCES_STORE, LOGICAL_BOOK_CHANGE_OUTBOX_STORE} \<Longrightarrow>
         idbGet db' s k = idbGet (fold deleteItem cleanup db3) s k"
    by (cases rule: deleteVariant_cases) auto
  have "onlyQuarantines db db2" using cleanup_reads [of "([], db)" lc targets] by (simp add: c)
  then have "onlyQuarantines db db3" using q3 by (rule onlyQuarantines_trans)
  moreover have "cl_target ` set cleanup = set targets" using cleanup_targets [of lc "([], db)" targets] by (simp add: c)
  moreover have "\<exists>item \<in> set cleanup. collects db3 x item" if "x \<in> set targets" for x
    using cleanup_collects [of "([], db)" x targets lc] assms(1) that collects_reads [OF q3] by (auto simp: c)
  moreover have "collectedFrom db item" if "item \<in> set cleanup" for item
    using cleanup_from [OF assms(1), of lc targets] that by (simp add: c)
  moreover have "idbGet db' s k = (if \<exists>item \<in> set cleanup. k \<in> itemKeys item s then None else idbGet db3 s k)"
    if "s \<in> variantStores \<union> markStores" for s k
    using get [of s k] that unfolding idbGet_deleteItems by (auto simp: variantStores_def markStores_def)
  ultimately show ?thesis using qd by (intro that [of db3 cleanup]) (simp_all only: tm)
qed


definition noFiles :: FileSystem where
  "noFiles = \<lparr>fs_directory = False, fs_written = (\<lambda>_ _. None), fs_readable = (\<lambda>_. False)\<rparr>"

lemma dbOk_twoBooksDb: "dbOk twoBooksDb"
  unfolding twoBooksDb_def by (intro dbOk_idbWrite dbOk_exampleDb)

lemma deleteVariant_whole:
  assumes "fst (getLogicalBook db i) = Some b"
  shows "\<exists>m db'. deleteVariant fs lc between db i None identity = (Inr m, db') \<and>
    mres_deletedVariantIds m = mapValues (lb_variants (logicalBookOf b))"
  using assms by (auto simp: deleteVariant_def Let_def mutationResult_def split: prod.splits)


end
