(* ===== verification/Library_Import.thy ===== *)
theory Library_Import
  imports Catalog_Mutations
begin

text \<open>
  How publications enter, change and leave the library in
  \<open>libs/library/data-access/src/lib/browser-library-repository.ts\<close>: import, synchronized publications, metadata, removal, the
  health checks before a publication is opened, and the replacement of the whole catalog by a
  synchronized state or a backup.
\<close>

section \<open>Health of a publication\<close>

datatype UnavailableCause = Missing | Evicted | Inaccessible | Incomplete

datatype QuarantineCause = IntegrityInvalid | Unsupported | MalformedReference

datatype VariantAvailability = Checking | Healthy | Unavailable UnavailableCause | Quarantined QuarantineCause

definition MALFORMED_BINARY :: string where
  "MALFORMED_BINARY = ''Publication binary reference failed identity or schema validation''"

text \<open>What both health checks find in the stores: the publication and its reference, or why not.\<close>

definition lookupVariant ::
  "LibraryDb \<Rightarrow> string \<Rightarrow> (VariantAvailability + BookRecord \<times> StoredPublicationBinary) \<times> LibraryDb" where
  "lookupVariant db0 variantId =
     (let (book, db) = getBook db0 variantId in
      case book of
        None \<Rightarrow> (Inl (Quarantined MalformedReference), db)
      | Some b \<Rightarrow>
          (case idbGet db BINARIES_STORE [variantId] of
             None \<Rightarrow> (Inl (Unavailable Missing), db)
           | Some raw \<Rightarrow>
               (case parseStoredPublicationBinary raw of
                  None \<Rightarrow> (Inl (Quarantined MalformedReference), quarantineStoredBinary db variantId MALFORMED_BINARY)
                | Some stored \<Rightarrow>
                    if sb_bookId (binaryBase stored) \<noteq> variantId
                    then (Inl (Quarantined MalformedReference), quarantineStoredBinary db variantId MALFORMED_BINARY)
                    else (Inr (bookOf b, stored), db))))"

definition resolveVariantAvailability ::
  "LibraryDb \<Rightarrow> string list \<Rightarrow> (string, VariantAvailability) jsMap \<times> LibraryDb" where
  "resolveVariantAvailability db variantIds =
     foldl (\<lambda>(result, db) variantId.
         case lookupVariant db variantId of
           (Inl availability, db') \<Rightarrow> (mapSet variantId availability result, db')
         | (Inr _, db') \<Rightarrow> (mapSet variantId Checking result, db'))
       ([], db) (jsUnique variantIds)"

text \<open>A healthy publication comes with its name, media type and bytes.\<close>

definition openHealthyVariant ::
  "(string \<Rightarrow> string) \<Rightarrow> FileSystem \<Rightarrow> LibraryDb \<Rightarrow> string \<Rightarrow>
     (StorageError + VariantAvailability \<times> (string \<times> string \<times> string) option) \<times> LibraryDb" where
  "openHealthyVariant fingerprinter fs db0 variantId =
     (case lookupVariant db0 variantId of
        (Inl availability, db) \<Rightarrow> (Inr (availability, None), db)
      | (Inr (book, stored), db) \<Rightarrow>
          (case openBinary fs db stored of
             None \<Rightarrow> (Inr (Unavailable (case stored of OpfsBinary _ _ \<Rightarrow> Evicted | _ \<Rightarrow> Inaccessible), None), db)
           | Some blob \<Rightarrow>
               if blobSize blob \<noteq> br_size book then (Inr (Unavailable Incomplete, None), db)
               else if detectPublicationBlobFormat blob \<noteq> Some (br_format book)
               then (Inr (Quarantined Unsupported, None), quarantineStoredBinary db variantId ''Publication format mismatch'')
               else if fingerprinter blob \<noteq> br_id book
               then (Inr (Quarantined IntegrityInvalid, None), quarantineStoredBinary db variantId ''Publication digest mismatch'')
               else
                 case migrateBinary fs db stored (br_format book) of
                   (Inl e, db') \<Rightarrow> (Inl e, db')
                 | (Inr migrated, db') \<Rightarrow>
                     (Inr (Healthy, Some (sb_fileName (binaryBase stored), sb_mediaType (binaryBase stored), blob)),
                      if migrated \<noteq> stored then idbPut BINARIES_STORE (binaryVal migrated) db' else db')))"

definition replaceVariantSource ::
  "(string \<Rightarrow> string) \<Rightarrow> FileSystem \<Rightarrow> LibraryDb \<Rightarrow> string \<Rightarrow> BookSource \<Rightarrow> unit mutation" where
  "replaceVariantSource fingerprinter fs db0 variantId source =
     (let (book, db) = getBook db0 variantId in
      case book of
        None \<Rightarrow> (Inl LogicalBookNotFound, db)
      | Some b \<Rightarrow>
          (let blob = src_content source; record = bookOf b in
           if blobSize blob \<noteq> br_size record \<or> detectPublicationBlobFormat blob \<noteq> Some (br_format record) \<or>
              fingerprinter blob \<noteq> br_id record
           then (Inl SourceMismatch, db)
           else case replaceStoredBinary fs db record blob (src_name source) (src_mediaType source) of
             (Inl e, db') \<Rightarrow> (Inl (StorageFailed e), db')
           | (Inr _, db') \<Rightarrow> (Inr (), db')))"

section \<open>Import\<close>

definition titleFromFileName :: "string \<Rightarrow> string" where
  "titleFromFileName fileName = (let stem = stripExtension fileName in if stem = [] then ''Untitled publication'' else stem)"

definition importedRecord :: "string \<Rightarrow> PublicationFormat \<Rightarrow> BookSource \<Rightarrow> string \<Rightarrow> BookRecord" where
  "importedRecord i format source now =
     \<lparr>br_id = i, br_format = format, br_fileName = src_name source,
      br_mediaType = (if src_mediaType source \<noteq> [] then src_mediaType source
        else if format = Epub then ''application/epub+zip'' else ''application/pdf''),
      br_size = blobSize (src_content source), br_title = titleFromFileName (src_name source), br_authors = [],
      br_language = None, br_publisher = None, br_identifier = None, br_importedAt = now, br_lastOpenedAt = None,
      br_coverState = None\<rparr>"

text \<open>\<open>this.getBookSource(id).catch(() => null)\<close>: whether the bytes can be read.\<close>

definition hasSource :: "FileSystem \<Rightarrow> LibraryDb \<Rightarrow> string \<Rightarrow> bool \<times> LibraryDb" where
  "hasSource fs db i =
     (case getBookSource fs db i of (Inl _, db') \<Rightarrow> (False, db') | (Inr source, db') \<Rightarrow> (source \<noteq> None, db'))"

datatype ImportError =
    UnsupportedPublication | ImportStorage StorageError | ImportIdentity LogicalBookError
  | InvalidSyncedMetadata | SyncedIntegrity | BookMissing

definition importBook ::
  "(string \<Rightarrow> string) \<Rightarrow> FileSystem \<Rightarrow> LibraryDb \<Rightarrow> BookSource \<Rightarrow> (ImportError + BookRecord) \<times> LibraryDb" where
  "importBook fingerprinter fs db0 source =
     (let blob = src_content source; i = fingerprinter blob; (existingVal, db1) = getBook db0 i in
      case existingVal of
        Some v \<Rightarrow>
          (let existing = bookOf v; (readable, db2) = hasSource fs db1 i;
               (replaced, db3) = (if readable then (Inr (), db2)
                 else replaceStoredBinary fs db2 existing blob (br_fileName existing) (br_mediaType existing))
           in case replaced of
                Inl e \<Rightarrow> (Inl (ImportStorage e), db3)
              | Inr _ \<Rightarrow>
                  (let (owner, db4) = findLogicalBookByVariant db3 i in
                   case owner of
                     Some _ \<Rightarrow> (Inr existing, db4)
                   | None \<Rightarrow>
                       (case logicalBookFromVariant existing (br_importedAt existing) of
                          Inl e \<Rightarrow> (Inl (ImportIdentity e), db4)
                        | Inr logicalBook \<Rightarrow> (Inr existing, idbPut LOGICAL_BOOKS_STORE (logicalBookVal logicalBook) db4))))
      | None \<Rightarrow>
          (case detectPublicationFormat (src_name source) (src_mediaType source) of
             None \<Rightarrow> (Inl UnsupportedPublication, db1)
           | Some format \<Rightarrow>
               (let record = importedRecord i format source (db_now db1) in
                case saveBinary fs db1 (writeRequest record blob (br_fileName record) (br_mediaType record)) of
                  (Inl e, db2) \<Rightarrow> (Inl (ImportStorage e), db2)
                | (Inr binary, db2) \<Rightarrow>
                    (case logicalBookFromVariant record (br_importedAt record) of
                       Inl e \<Rightarrow> (Inl (ImportIdentity e), removeBinary fs binary db2)
                     | Inr logicalBook \<Rightarrow>
                         (Inr record, idbPut LOGICAL_BOOKS_STORE (logicalBookVal logicalBook)
                            (idbPut BINARIES_STORE (binaryVal binary) (idbPut BOOKS_STORE (bookVal record) db2)))))))"

definition storeSyncedBook ::
  "(string \<Rightarrow> string) \<Rightarrow> FileSystem \<Rightarrow> LibraryDb \<Rightarrow> BookRecord \<Rightarrow> BookSource \<Rightarrow> (ImportError + unit) \<times> LibraryDb" where
  "storeSyncedBook fingerprinter fs db0 book source =
     (if \<not> isBookRecord (bookVal book) then (Inl InvalidSyncedMetadata, db0)
      else
        let (existing, db1) = getBook db0 (br_id book);
            (readable, db2) = (if existing = None then (False, db1) else hasSource fs db1 (br_id book));
            blob = src_content source
        in if readable then (Inr (), db2)
           else if fingerprinter blob \<noteq> br_id book \<or> blobSize blob \<noteq> br_size book \<or>
                detectPublicationFormat (br_fileName book) (br_mediaType book) \<noteq> Some (br_format book)
           then (Inl SyncedIntegrity, db2)
           else case saveBinary fs db2 (writeRequest book blob (br_fileName book) (br_mediaType book)) of
             (Inl e, db3) \<Rightarrow> (Inl (ImportStorage e), db3)
           | (Inr binary, db3) \<Rightarrow>
               if existing \<noteq> None then (Inr (), idbPut BINARIES_STORE (binaryVal binary) db3)
               else (case logicalBookFromVariant book (br_importedAt book) of
                   Inl e \<Rightarrow> (Inl (ImportIdentity e), removeBinary fs binary (idbPut BOOKS_STORE (bookVal book) db3))
                 | Inr logicalBook \<Rightarrow>
                     (Inr (), idbPut BINARIES_STORE (binaryVal binary)
                        (idbPut LOGICAL_BOOKS_STORE (logicalBookVal logicalBook) (idbPut BOOKS_STORE (bookVal book) db3)))))"

section \<open>Metadata\<close>

record PublicationMetadata =
  pm_title :: string
  pm_authors :: "string list"
  pm_language :: "string option"
  pm_publisher :: "string option"
  pm_identifier :: "string option"
  pm_cover :: "(string \<times> string) option"

record MetadataUpdateOptions =
  mo_markOpened :: bool
  mo_markCoverUnavailable :: bool

definition orElse :: "'a option \<Rightarrow> 'a option \<Rightarrow> 'a option" where
  "orElse x y = (case x of None \<Rightarrow> y | Some _ \<Rightarrow> x)"

definition updatedRecord :: "BookRecord \<Rightarrow> PublicationMetadata \<Rightarrow> MetadataUpdateOptions \<Rightarrow> string \<Rightarrow> BookRecord" where
  "updatedRecord current metadata options now = current
     \<lparr>br_title := (if pm_title metadata \<noteq> [] then pm_title metadata else br_title current),
      br_authors := pm_authors metadata,
      br_language := orElse (pm_language metadata) (br_language current),
      br_publisher := orElse (pm_publisher metadata) (br_publisher current),
      br_identifier := orElse (pm_identifier metadata) (br_identifier current),
      br_lastOpenedAt := (if mo_markOpened options then Some now else br_lastOpenedAt current),
      br_coverState := (if pm_cover metadata \<noteq> None then Some CoverAvailable
        else if mo_markCoverUnavailable options then Some CoverUnavailable else br_coverState current)\<rparr>"

definition catalogFromVariant :: "LogicalBookRecord \<Rightarrow> BookRecord \<Rightarrow> string \<Rightarrow> LogicalBookRecord" where
  "catalogFromVariant owner updated now = owner
     \<lparr>lb_title := br_title updated, lb_authors := br_authors updated, lb_language := br_language updated,
      lb_publisher := br_publisher updated, lb_identifier := br_identifier updated,
      lb_coverState := (case br_coverState updated of None \<Rightarrow> lb_coverState owner
        | Some CoverAvailable \<Rightarrow> LogicalAvailable | Some CoverUnavailable \<Rightarrow> LogicalUnavailable),
      lb_updatedAt := now\<rparr>"

definition updateMetadata ::
  "(LibraryDb \<Rightarrow> LibraryDb) \<Rightarrow> LibraryDb \<Rightarrow> string \<Rightarrow> PublicationMetadata \<Rightarrow> MetadataUpdateOptions \<Rightarrow> (ImportError + BookRecord) \<times> LibraryDb" where
  "updateMetadata between db0 bookId metadata options =
     (let (currentVal, db1) = getBook db0 bookId in
      case currentVal of
        None \<Rightarrow> (Inl BookMissing, db1)
      | Some v \<Rightarrow>
          (let (ownerVal, db2) = findLogicalBookByVariant db1 bookId; owner = map_option logicalBookOf ownerVal;
               updated = updatedRecord (bookOf v) metadata options (db_now db2);
               db3 = idbPut BOOKS_STORE (bookVal updated) (between db2);
               db4 = (case pm_cover metadata of
                   None \<Rightarrow> db3
                 | Some cover \<Rightarrow>
                     (case owner of None \<Rightarrow> id
                      | Some w \<Rightarrow> idbPut LOGICAL_BOOK_COVERS_STORE (coverVal ''logicalBookId'' (lb_id w) cover))
                     (idbPut COVERS_STORE (coverVal ''bookId'' bookId cover) db3));
               db5 = (case owner of
                   None \<Rightarrow> db4
                 | Some w \<Rightarrow> if length (lb_variants w) = 1
                     then idbPut LOGICAL_BOOKS_STORE (logicalBookVal (catalogFromVariant w updated (db_now db2))) db4 else db4)
           in (Inr updated, db5)))"

section \<open>Removal\<close>

definition removeBook ::
  "FileSystem \<Rightarrow> (string \<Rightarrow> string \<Rightarrow> int) \<Rightarrow> (LibraryDb \<Rightarrow> LibraryDb) \<Rightarrow> LibraryDb \<Rightarrow> string \<Rightarrow> LibraryDb" where
  "removeBook fs localeCompare between db0 bookId =
     (let (items, db1) = collectCleanup localeCompare ([], db0) bookId; (owner, db2) = findLogicalBookByVariant db1 bookId;
          db3 = fold deleteItem items (between db2);
          db4 = (case owner of
              None \<Rightarrow> db3
            | Some w \<Rightarrow>
                (let book = logicalBookOf w; variants = filter (\<lambda>(f, i). i \<noteq> bookId) (lb_variants book) in
                 if variants \<noteq> []
                 then idbPut LOGICAL_BOOKS_STORE (logicalBookVal (book\<lparr>lb_variants := variants, lb_updatedAt := db_now db2\<rparr>)) db3
                 else idbDelete LOGICAL_BOOK_PREFERENCES_STORE [lb_id book]
                   (idbDelete LOGICAL_BOOK_COVERS_STORE [lb_id book] (idbDelete LOGICAL_BOOKS_STORE [lb_id book] db3))))
      in fold (removeItemFile fs) items db4)"

section \<open>Replacing the catalog\<close>

datatype ReplaceError = InvalidState | MultipleOwners | MissingVariant | CoverWithoutBook | StaleRevision

fun checkMembers :: "(PublicationFormat \<times> string) list \<Rightarrow> string list \<Rightarrow> LibraryDb \<Rightarrow> (ReplaceError + string list) \<times> LibraryDb" where
  "checkMembers [] variants db = (Inr variants, db)"
| "checkMembers ((format, variantId) # rest) variants db =
     (if variantId \<in> set variants then (Inl MultipleOwners, db)
      else let (variant, db') = getBook db variantId in
        case variant of
          None \<Rightarrow> (Inl MissingVariant, db')
        | Some v \<Rightarrow> if br_format (bookOf v) \<noteq> format then (Inl MissingVariant, db')
            else checkMembers rest (variants @ [variantId]) db')"

fun checkBooks :: "LogicalBookRecord list \<Rightarrow> string list \<Rightarrow> LibraryDb \<Rightarrow> (ReplaceError + string list) \<times> LibraryDb" where
  "checkBooks [] variants db = (Inr variants, db)"
| "checkBooks (b # bs) variants db =
     (case checkMembers (lb_variants b) variants db of
        (Inl e, db') \<Rightarrow> (Inl e, db')
      | (Inr variants', db') \<Rightarrow> checkBooks bs variants' db')"

definition clearAndPut :: "ActiveLibraryStore \<Rightarrow> jsval list \<Rightarrow> LibraryDb \<Rightarrow> LibraryDb" where
  "clearAndPut s records db = fold (idbPut s) records (idbClear s db)"

text \<open>Covers have a media type; one without is stored as \<open>application/octet-stream\<close>.\<close>

definition logicalCoverVals :: "(string \<times> (string \<times> string)) list \<Rightarrow> jsval list" where
  "logicalCoverVals covers = map (\<lambda>(i, t, bytes).
     coverVal ''logicalBookId'' i (if t = [] then ''application/octet-stream'' else t, bytes)) covers"

definition replaceLogicalBookState ::
  "(LibraryDb \<Rightarrow> LibraryDb) \<Rightarrow> LibraryDb \<Rightarrow> LogicalBookRecord list \<Rightarrow> LogicalBookFormatPreference list \<Rightarrow>
     MembershipReconciliation list \<Rightarrow> (string \<times> (string \<times> string)) list option \<Rightarrow> (ReplaceError + unit) \<times> LibraryDb" where
  "replaceLogicalBookState between db0 logicalBooks preferences reconciliations covers =
     (if \<not> (\<forall>b \<in> set logicalBooks. isLogicalBookRecord (logicalBookVal b)) \<or>
         \<not> (\<forall>p \<in> set preferences. isLogicalBookFormatPreference (formatPreferenceVal p)) \<or>
         \<not> (\<forall>r \<in> set reconciliations. isMembershipReconciliation (reconciliationVal r))
      then (Inl InvalidState, db0)
      else case checkBooks logicalBooks [] db0 of
        (Inl e, db1) \<Rightarrow> (Inl e, db1)
      | (Inr _, db1) \<Rightarrow>
          if \<exists>c \<in> set_option covers. \<not> fst ` set c \<subseteq> lb_id ` set logicalBooks then (Inl CoverWithoutBook, db1)
          else
            (Inr (), clearAndPut LOGICAL_BOOK_RECONCILIATIONS_STORE (map reconciliationVal reconciliations)
              (clearAndPut LOGICAL_BOOK_PREFERENCES_STORE (map formatPreferenceVal preferences)
                ((case covers of None \<Rightarrow> id | Some c \<Rightarrow> clearAndPut LOGICAL_BOOK_COVERS_STORE (logicalCoverVals c))
                  (clearAndPut LOGICAL_BOOKS_STORE (map logicalBookVal logicalBooks) (between db1))))))"

record AtomicLibraryRestoreRequest =
  rr_expectedLogicalRevision :: string
  rr_publications :: "(BookRecord \<times> string) list"
  rr_logicalBooks :: "LogicalBookRecord list"
  rr_logicalBookPreferences :: "LogicalBookFormatPreference list"
  rr_membershipReconciliations :: "MembershipReconciliation list"
  rr_logicalBookCovers :: "(string \<times> (string \<times> string)) list"
  rr_progress :: "ReadingProgress list"
  rr_progressDocuments :: "ReadingProgress list"
  rr_readerPreferences :: "jsval list"
  rr_bookmarks :: "PublicationBookmark list"
  rr_annotations :: "PublicationAnnotation list"

definition restoredBinary :: "BookRecord \<times> string \<Rightarrow> StoredPublicationBinary" where
  "restoredBinary p = IndexedDbBytes \<lparr>sb_bookId = br_id (fst p), sb_fileName = br_fileName (fst p),
     sb_mediaType = br_mediaType (fst p), sb_size = blobSize (snd p)\<rparr> (snd p)"

text \<open>The revision is read inside the transaction that restores, so nothing comes between.\<close>

definition restoreLibraryBackupAtomically ::
  "(string \<Rightarrow> string \<Rightarrow> int) \<Rightarrow> LibraryDb \<Rightarrow> AtomicLibraryRestoreRequest \<Rightarrow> (ReplaceError + unit) \<times> LibraryDb" where
  "restoreLibraryBackupAtomically localeCompare db request =
     (if logicalRevision localeCompare (storeRecords db LOGICAL_BOOKS_STORE) (storeRecords db LOGICAL_BOOK_PREFERENCES_STORE)
           (storeRecords db LOGICAL_BOOK_RECONCILIATIONS_STORE) \<noteq> rr_expectedLogicalRevision request
      then (Inl StaleRevision, db)
      else
        (Inr (),
         fold (idbPut ANNOTATIONS_STORE) (map annotationVal (rr_annotations request))
         (fold (idbPut BOOKMARKS_STORE) (map bookmarkVal (rr_bookmarks request))
         (fold (idbPut PREFERENCES_STORE) (rr_readerPreferences request)
         (fold (idbPut PROGRESS_DOCUMENTS_STORE) (map progressVal (rr_progressDocuments request))
         (fold (idbPut PROGRESS_STORE) (map progressVal (rr_progress request))
         (fold (idbPut LOGICAL_BOOK_COVERS_STORE) (logicalCoverVals (rr_logicalBookCovers request))
         (fold (idbPut LOGICAL_BOOK_RECONCILIATIONS_STORE) (map reconciliationVal (rr_membershipReconciliations request))
         (fold (idbPut LOGICAL_BOOK_PREFERENCES_STORE) (map formatPreferenceVal (rr_logicalBookPreferences request))
         (fold (idbPut LOGICAL_BOOKS_STORE) (map logicalBookVal (rr_logicalBooks request))
         (idbClear LOGICAL_BOOK_COVERS_STORE (idbClear LOGICAL_BOOK_RECONCILIATIONS_STORE
           (idbClear LOGICAL_BOOK_PREFERENCES_STORE (idbClear LOGICAL_BOOKS_STORE
         (fold (idbPut BINARIES_STORE) (map (binaryVal \<circ> restoredBinary) (rr_publications request))
         (fold (idbPut BOOKS_STORE) (map (bookVal \<circ> fst) (rr_publications request)) db))))))))))))))))"

end
