(* ===== verification/Catalog_Safety.thy ===== *)
theory Catalog_Safety
  imports Catalog_Invariant Library_Import
begin

text \<open>
  The catalog of logical books over whole sessions: every operation of the repository keeps the stores
  well-formed and every publication in at most one logical book, whatever sequence of operations ran.
\<close>

section \<open>The stores stay well-formed\<close>

lemma dbOk_idbDelete [simp]: "dbOk db \<Longrightarrow> dbOk (idbDelete s k db)"
  using set_mapDelete_subset [of k "db_stores db s"] by (auto simp: dbOk_def idbDelete_def storeOk_delete)

lemma dbOk_idbClear [simp]: "dbOk db \<Longrightarrow> dbOk (idbClear s db)"
  by (simp add: dbOk_def idbClear_def)

lemma dbOk_files [simp]: "dbOk (db\<lparr>db_files := fs\<rparr>) = dbOk db"
  by (simp add: dbOk_def)

lemma idbGet_files [simp]: "idbGet (db\<lparr>db_files := fs\<rparr>) s k = idbGet db s k"
  by (simp add: idbGet_def)

lemma dbOk_fold: "(\<And>x d. dbOk d \<Longrightarrow> dbOk (f x d)) \<Longrightarrow> dbOk db \<Longrightarrow> dbOk (fold f xs db)"
  by (induction xs arbitrary: db) simp_all

lemma dbOk_quarantine [simp]: "dbOk db \<Longrightarrow> dbOk (quarantineInvalidRecord db s k validator reason)"
  by (rule onlyQuarantines_dbOk [OF onlyQuarantines_record])

lemma dbOk_reads [simp]:
  assumes "dbOk db"
  shows "dbOk (snd (getBook db i))" "dbOk (snd (getLogicalBook db i))" "dbOk (snd (getLogicalBookFormatPreference db i))"
    "dbOk (snd (getBookCover db i))" "dbOk (snd (getStoredBinary db i))"
    "dbOk (snd (readAllByIndexValidated db s index i validator reason))"
proof -
  show "dbOk (snd (getLogicalBook db i))"
    using onlyQuarantines_dbOk [OF getLogicalBook_result(1) assms] by (metis prod.collapse)
  show "dbOk (snd (getBookCover db i))"
    using onlyQuarantines_dbOk [OF onlyQuarantines_readValidated assms] by (simp add: getBookCover_def split_beta)
qed (rule onlyQuarantines_dbOk [OF _ assms], simp add: getPreference_reads onlyQuarantines_getStoredBinary)+

lemma saveBinary_idbGet: "idbGet (snd (saveBinary fs db request)) s k = idbGet db s k"
  by (simp add: saveBinary_def writeOpfs_def split: sum.splits option.splits)

lemma dbOk_saveBinary [simp]: "dbOk (snd (saveBinary fs db request)) = dbOk db"
  by (simp add: saveBinary_def writeOpfs_def split: sum.splits option.splits)

lemma dbOk_removeBinary [simp]: "dbOk (removeBinary fs stored db) = dbOk db"
  by (simp add: removeBinary_def split: StoredPublicationBinary.splits)

lemma dbOk_migrateBinary [simp]: "dbOk (snd (migrateBinary fs db stored format)) = dbOk db"
  by (simp add: migrateBinary_def writeOpfs_def Let_def split: StoredPublicationBinary.splits sum.splits option.splits)

lemma dbOk_removeFiles [simp]: "dbOk (fold (removeItemFile fs) items db) = dbOk db"
  by (induction items arbitrary: db) (simp_all add: removeItemFile_def split: option.splits)

lemma dbOk_deleteItems [simp]: "dbOk db \<Longrightarrow> dbOk (fold deleteItem items db)"
  by (rule dbOk_fold) (simp_all add: deleteItem_def dbOk_fold)

lemma findLogicalBook_reads: "onlyQuarantines db (snd (findLogicalBookByVariant db i))"
proof -
  let ?read = "\<lambda>d f. readAllByIndexValidated d LOGICAL_BOOKS_STORE (\<lambda>v. getProp (getProp v ''variants'') (formatString f)) i
    isLogicalBookRecord ''Logical book failed membership or schema validation''"
  have "onlyQuarantines db (snd (?read (snd (?read db Epub)) Pdf))"
    by (rule onlyQuarantines_trans [of _ "snd (?read db Epub)"]) simp_all
  then show ?thesis
    by (simp add: findLogicalBookByVariant_def split_beta Let_def split: list.splits)
qed

lemma dbOk_find [simp]: "dbOk db \<Longrightarrow> dbOk (snd (findLogicalBookByVariant db i))"
  by (rule onlyQuarantines_dbOk [OF findLogicalBook_reads])

lemma dbOk_cleanup [simp]: "dbOk (snd st) \<Longrightarrow> dbOk (snd (foldl (collectCleanup lc) st ts))"
  by (rule onlyQuarantines_dbOk [OF cleanup_reads])

lemma dbOk_collect [simp]: "dbOk (snd st) \<Longrightarrow> dbOk (snd (collectCleanup lc st t))"
  by (rule onlyQuarantines_dbOk [OF collectCleanup_reads])

lemma dbOk_associate: "dbOk db \<Longrightarrow> dbOk (snd (associate (\<lambda>d. d) db x y identity))"
  by (simp add: associate_def split_beta Let_def dbOk_idbWrite split: option.splits list.splits)

lemma dbOk_deleteVariant: "dbOk db \<Longrightarrow> dbOk (snd (deleteVariant fs lc (\<lambda>d. d) db x t identity))"
  by (simp add: deleteVariant_def split_beta Let_def dbOk_idbWrite split: option.splits list.splits)

lemma dbOk_preference: "dbOk db \<Longrightarrow> dbOk (snd (saveLogicalBookFormatPreference (\<lambda>d. d) db x f identity))"
  by (simp add: saveLogicalBookFormatPreference_def split_beta Let_def dbOk_idbWrite)

lemma dbOk_detach: "dbOk db \<Longrightarrow> dbOk (snd (detachVariant sha (\<lambda>d. d) db x i identity))"
  by (simp add: detachVariant_def split_beta Let_def dbOk_idbWrite split: option.splits sum.splits)

lemma dbOk_addVariant: "dbOk db \<Longrightarrow> dbOk (snd (addVariant fp fs (\<lambda>d. d) db x variant source path identity cover))"
  by (simp add: addVariant_def split_beta Let_def dbOk_idbWrite split: option.splits sum.splits)

lemma dbOk_replaceStored [simp]: "dbOk db \<Longrightarrow> dbOk (snd (replaceStoredBinary fs db book blob n t))"
  by (simp add: replaceStoredBinary_def split_beta dbOk_idbWrite split: sum.splits)

lemma dbOk_hasSource [simp]:
  assumes "dbOk db"
  shows "dbOk (snd (hasSource fs db i))"
proof -
  have "dbOk (snd (getBookSource fs db i))"
    by (simp add: getBookSource_def Let_def split_beta assms dbOk_idbWrite split: option.splits sum.splits)
  then show ?thesis by (auto simp: hasSource_def split: prod.splits sum.splits)
qed

lemma dbOk_import: "dbOk db \<Longrightarrow> dbOk (snd (importBook fp fs db source))"
  by (simp add: importBook_def split_beta Let_def dbOk_idbWrite split: option.splits sum.splits)

lemma dbOk_storeSynced: "dbOk db \<Longrightarrow> dbOk (snd (storeSyncedBook fp fs db book source))"
  by (simp add: storeSyncedBook_def split_beta Let_def dbOk_idbWrite split: option.splits sum.splits)

lemma dbOk_updateMetadata: "dbOk db \<Longrightarrow> dbOk (snd (updateMetadata (\<lambda>d. d) db i metadata options))"
  by (simp add: updateMetadata_def split_beta Let_def dbOk_idbWrite split: option.splits sum.splits)

lemma dbOk_removeBook: "dbOk db \<Longrightarrow> dbOk (removeBook fs lc (\<lambda>d. d) db i)"
  by (simp add: removeBook_def split_beta Let_def dbOk_idbWrite split: option.splits sum.splits)

section \<open>Every publication in at most one logical book\<close>

lemma recordKey_logicalBook: "recordKey LOGICAL_BOOKS_STORE v = [lb_id (logicalBookOf v)]"
  by (simp add: recordKey_def keyPath_def logicalBookOf_def)

lemma byFormat_complete:
  assumes "dbOk db" and "readAllByIndexValidated db LOGICAL_BOOKS_STORE index i isLogicalBookRecord reason = ([], db')"
    and "idbGet db' LOGICAL_BOOKS_STORE k = Some v"
  shows "index v \<noteq> JStr i"
  using validatedEntries_index(1) [OF assms(1) assms(2) [unfolded readAllByIndexValidated_def] assms(3)] by auto

lemma findLogicalBook_none:
  assumes "dbOk db" and "findLogicalBookByVariant db i = (None, db')" and "idbGet db' LOGICAL_BOOKS_STORE k = Some v"
  shows "i \<notin> memberIds v"
proof -
  let ?read = "\<lambda>d f. readAllByIndexValidated d LOGICAL_BOOKS_STORE (\<lambda>v. getProp (getProp v ''variants'') (formatString f)) i
    isLogicalBookRecord ''Logical book failed membership or schema validation''"
  obtain e db1 where e: "?read db Epub = (e, db1)" by fastforce
  obtain p db2 where p: "?read db1 Pdf = (p, db2)" by fastforce
  have none: "e = []" "p = []" "db' = db2"
    using assms(2) unfolding findLogicalBookByVariant_def Let_def e prod.case by (cases e; cases p; simp add: p)+
  have q: "onlyQuarantines db1 db2" using onlyQuarantines_readAll(2) [of db1] p by (metis snd_conv)
  have ok: "dbOk db1" using dbOk_reads(6) [OF assms(1)] e by (metis snd_conv)
  have v2: "idbGet db2 LOGICAL_BOOKS_STORE k = Some v" using assms(3) none(3) by simp
  have "getProp (getProp v ''variants'') (formatString f) \<noteq> JStr i" for f
    using byFormat_complete [OF assms(1) e [unfolded none] reads_get [OF q v2]]
      byFormat_complete [OF ok p [unfolded none] v2] by (cases f) simp_all
  then show ?thesis by (simp add: memberIds_def)
qed

lemma findLogicalBook_some:
  assumes "dbOk db" and "findLogicalBookByVariant db i = (Some w, db')"
  shows "idbGet db LOGICAL_BOOKS_STORE [lb_id (logicalBookOf w)] = Some w" "isLogicalBookRecord w"
proof -
  let ?read = "\<lambda>d f. readAllByIndexValidated d LOGICAL_BOOKS_STORE (\<lambda>v. getProp (getProp v ''variants'') (formatString f)) i
    isLogicalBookRecord ''Logical book failed membership or schema validation''"
  have valid: "isLogicalBookRecord v \<and> idbGet d LOGICAL_BOOKS_STORE [lb_id (logicalBookOf v)] = Some v"
    if ok: "dbOk d" and mem: "v \<in> set (fst (?read d f))" for v d f
    using validatedEntries_sound [OF ok mem] dbOk_key [OF ok, of LOGICAL_BOOKS_STORE] recordKey_logicalBook by metis
  obtain e db1 where e: "?read db Epub = (e, db1)" by fastforce
  obtain p db2 where p: "?read db1 Pdf = (p, db2)" by fastforce
  have ok: "dbOk db1" using dbOk_reads(6) [OF assms(1)] e by (metis snd_conv)
  have q: "onlyQuarantines db db1" using onlyQuarantines_readAll(2) [of db] e by (metis snd_conv)
  have "w \<in> set e \<or> w \<in> set p"
    using assms(2) unfolding findLogicalBookByVariant_def Let_def e prod.case by (cases e; cases p; simp add: p)
  then have "isLogicalBookRecord w \<and> idbGet db LOGICAL_BOOKS_STORE [lb_id (logicalBookOf w)] = Some w"
    using valid [OF assms(1), of w Epub] valid [OF ok, of w Pdf] reads_get [OF q] unfolding e p by auto
  then show "idbGet db LOGICAL_BOOKS_STORE [lb_id (logicalBookOf w)] = Some w" "isLogicalBookRecord w" by blast+
qed

text \<open>A book that loses publications, or none, keeps the catalog exclusive.\<close>

lemma exclusiveCatalog_owner:
  assumes "exclusiveCatalog db" and "inCatalog db4 db" and "idbGet db LOGICAL_BOOKS_STORE [lb_id (logicalBookOf w)] = Some w"
    and "isLogicalBookRecord w" and "lb_id b = lb_id (logicalBookOf w)" and "set (lb_variants b) \<subseteq> set (lb_variants (logicalBookOf w))"
  shows "exclusiveCatalog (idbPut LOGICAL_BOOKS_STORE (logicalBookVal b) db4)"
  by (rule exclusiveCatalog_shrink [OF assms(1,2)])
    (use assms(3,5) in simp, unfold memberIds_iff [OF assms(4)], rule image_mono [OF assms(6)])

lemma exclusiveCatalog_preference:
  "exclusiveCatalog db \<Longrightarrow> exclusiveCatalog (snd (saveLogicalBookFormatPreference (\<lambda>d. d) db x f identity))"
proof (rule exclusiveCatalog_subset)
  have "inCatalog (snd (getLogicalBook d x)) d" "inCatalog (snd (getLogicalBookFormatPreference d x)) d" for d
    by (rule inCatalog_reads, metis getLogicalBook_result(1) prod.collapse, rule inCatalog_reads [OF getPreference_reads])
  then have "inCatalog (snd (getLogicalBook db x)) db"
    "inCatalog (snd (getLogicalBookFormatPreference (snd (getLogicalBook db x)) x)) db"
    using inCatalog_trans by blast+
  then show "inCatalog (snd (saveLogicalBookFormatPreference (\<lambda>d. d) db x f identity)) db"
    by (simp add: saveLogicalBookFormatPreference_def split_beta Let_def inCatalog_def idbGet_idbWrite)
qed

text \<open>A detached publication belonged to the book it leaves.\<close>

lemma exclusiveCatalog_split:
  assumes "exclusiveCatalog db" and "idbGet db LOGICAL_BOOKS_STORE [lb_id b] = Some d" "isLogicalBookRecord d" "inCatalog db5 db"
    and "lb_variants b = [(f, j)]" and "lb_variants c = [(g, i)]" and "f \<noteq> g"
    and "map_of (lb_variants (logicalBookOf d)) f = Some j" "map_of (lb_variants (logicalBookOf d)) g = Some i"
  shows "exclusiveCatalog (idbPut LOGICAL_BOOKS_STORE (logicalBookVal c) (idbPut LOGICAL_BOOKS_STORE (logicalBookVal b) db5))"
proof (rule exclusiveCatalog_put)
  have mem: "(f, j) \<in> set (lb_variants (logicalBookOf d))" "(g, i) \<in> set (lb_variants (logicalBookOf d))"
    using assms(8,9) by (auto dest: map_of_SomeD)
  then have ids: "j \<in> memberIds d" "i \<in> memberIds d" by (force simp: memberIds_iff [OF assms(3)])+
  show "exclusiveCatalog (idbPut LOGICAL_BOOKS_STORE (logicalBookVal b) db5)"
    by (rule exclusiveCatalog_shrink [OF assms(1,4,2)]) (simp add: assms(5) ids)
  fix k v assume v: "idbGet (idbPut LOGICAL_BOOKS_STORE (logicalBookVal b) db5) LOGICAL_BOOKS_STORE k = Some v" "k \<noteq> [lb_id c]"
  have ij: "i \<noteq> j"
    using variant_formats_differ [OF assms(3)] mem assms(7) by (cases f; cases g) blast+
  show "memberIds v \<inter> snd ` set (lb_variants c) = {}"
  proof (cases "k = [lb_id b]")
    case True
    then have "memberIds v \<subseteq> {j}" using v(1) memberIds_logicalBookVal [of b] by (simp add: idbGet_idbWrite assms(5))
    then show ?thesis using ij by (auto simp: assms(6))
  next
    case False
    then have "memberIds v \<inter> memberIds d = {}"
      using v(1) assms(1,2,4) unfolding exclusiveCatalog_def inCatalog_def idbGet_idbWrite recordKey_logicalBookVal by metis
    then show ?thesis using ids by (auto simp: assms(6))
  qed
qed

lemma inCatalog_getters:
  "inCatalog (snd (getBook d i)) d" "inCatalog (snd (getLogicalBook d i)) d"
  "inCatalog (snd (getLogicalBookFormatPreference d i)) d" "inCatalog (snd (getBookCover d i)) d"
  "inCatalog (snd (findLogicalBookByVariant d i)) d" "inCatalog (snd (getStoredBinary d i)) d"
proof -
  show "inCatalog (snd (getLogicalBook d i)) d"
    by (rule inCatalog_reads) (metis getLogicalBook_result(1) prod.collapse)
  show "inCatalog (snd (getBookCover d i)) d"
    by (rule inCatalog_reads) (simp add: getBookCover_def split_beta onlyQuarantines_readValidated)
qed (rule inCatalog_reads, simp add: getPreference_reads findLogicalBook_reads onlyQuarantines_getStoredBinary)+

lemma getBook_id: "getBook db i = (Some v, db') \<Longrightarrow> br_id (bookOf v) = i \<and> isBookRecord v"
  by (auto simp: getBook_def readValidated_def bookOf_def strOf_def split: option.splits if_splits)

lemma fromVariant_variants: "logicalBookFromVariant v now = Inr b \<Longrightarrow> lb_variants b = [(br_format v, br_id v)]"
  by (auto simp: logicalBookFromVariant_def elim: andThen.elims)

lemma exclusiveCatalog_detach:
  assumes "exclusiveCatalog db" and "detachVariant sha (\<lambda>d. d) db x i identity = (r, db')"
  shows "exclusiveCatalog db'"
proof -
  obtain bv db1 where g1: "getLogicalBook db x = (bv, db1)" by fastforce
  obtain vv db2 where g2: "getBook db1 i = (vv, db2)" by fastforce
  obtain p db3 where g3: "getLogicalBookFormatPreference db2 x = (p, db3)" by fastforce
  obtain c db4 where g4: "getBookCover db3 i = (c, db4)" by fastforce
  have in4: "inCatalog db4 db"
    using inCatalog_getters [of db1 i] inCatalog_getters [of db x] inCatalog_getters [of db2 x] inCatalog_getters [of db3 i]
    unfolding g1 g2 g3 g4 snd_conv by (meson inCatalog_trans)
  note eq = assms(2) [unfolded detachVariant_def g1 g2 g3 g4 Let_def prod.case]
  show ?thesis
  proof (cases "bv = None \<or> vv = None")
    case True
    then have "db' = db4" using eq by (cases bv; cases vv) auto
    then show ?thesis using exclusiveCatalog_subset [OF in4 assms(1)] by simp
  next
    case False
    then obtain b v where bv: "bv = Some b" "vv = Some v" by auto
    let ?b = "logicalBookOf b" and ?v = "bookOf v"
    have b: "idbGet db LOGICAL_BOOKS_STORE [x] = Some b" "isLogicalBookRecord b" "lb_id ?b = x" and v: "br_id ?v = i"
      using getLogicalBook_result(2) [OF g1 bv(1)] getBook_id [OF g2 [unfolded bv]] by auto
    let ?f = "br_format ?v" and ?g = "otherFormat (br_format ?v)"
    show ?thesis
    proof (cases "length (lb_variants ?b) \<noteq> 2 \<or> map_of (lb_variants ?b) ?f \<noteq> Some i \<or> map_of (lb_variants ?b) ?g = None \<or>
        isl (singletonLogicalBookId i)")
      case True
      then have "db' = db4" using eq unfolding bv prod.case option.case by (auto split: if_splits option.splits sum.splits)
      then show ?thesis using exclusiveCatalog_subset [OF in4 assms(1)] by simp
    next
      case False
      then obtain j canonical where ok: "length (lb_variants ?b) = 2" "map_of (lb_variants ?b) ?f = Some i"
        "map_of (lb_variants ?b) ?g = Some j" "singletonLogicalBookId i = Inr canonical"
        by (cases "singletonLogicalBookId i") auto
      obtain o5 db5 where g5: "getLogicalBook db4 canonical = (o5, db5)" by fastforce
      have in5: "inCatalog db5 db" using inCatalog_trans [OF _ in4] inCatalog_getters(2) [of db4 canonical] by (simp add: g5)
      have ex5: "exclusiveCatalog db5" using exclusiveCatalog_subset [OF in5 assms(1)] .
      note eq5 = eq [unfolded bv prod.case option.case ok g5 sum.case, simplified]
      show ?thesis
      proof (cases "logicalBookFromVariant ?v (mi_createdAt identity)")
        case (Inl e)
        then show ?thesis using eq5 ex5 by simp
      next
        case (Inr fresh)
        define up where "up = ?b\<lparr>lb_variants := [(?g, j)], lb_updatedAt := mi_createdAt identity\<rparr>"
        define det where "det = fresh\<lparr>lb_id := if canonical \<noteq> x \<and> o5 = None then canonical
          else derivedLogicalBookId sha i (mi_changeId identity)\<rparr>"
        let ?db = "idbPut LOGICAL_BOOKS_STORE (logicalBookVal det) (idbPut LOGICAL_BOOKS_STORE (logicalBookVal up) db5)"
        have "exclusiveCatalog ?db"
          by (rule exclusiveCatalog_split [OF assms(1) _ b(2) in5, of up ?g j det ?f i])
            (use b(1,3) ok fromVariant_variants [OF Inr] v in \<open>auto simp: up_def det_def otherFormat_def split: PublicationFormat.splits\<close>)
        moreover have "db' = db5 \<or> inCatalog db' ?db"
          using eq5 unfolding Inr sum.case up_def [symmetric] det_def [symmetric]
          by (auto simp: inCatalog_def idbGet_idbWrite split: if_splits option.splits)
        ultimately show ?thesis using ex5 exclusiveCatalog_subset by blast
      qed
    qed
  qed
qed

text \<open>A book that takes in a publication of no book.\<close>

lemma exclusiveCatalog_join:
  assumes "exclusiveCatalog db" and "inCatalog db3 db" and "idbGet db LOGICAL_BOOKS_STORE [lb_id b] = Some d" "isLogicalBookRecord d"
    and "\<And>k v. idbGet db3 LOGICAL_BOOKS_STORE k = Some v \<Longrightarrow> i \<notin> memberIds v"
    and "lb_variants b = mapSet f i (lb_variants (logicalBookOf d))"
  shows "exclusiveCatalog (idbPut LOGICAL_BOOKS_STORE (logicalBookVal b) db3)"
proof (rule exclusiveCatalog_put [OF exclusiveCatalog_subset [OF assms(2,1)]])
  fix k v assume v: "idbGet db3 LOGICAL_BOOKS_STORE k = Some v" "k \<noteq> [lb_id b]"
  then have "memberIds v \<inter> memberIds d = {}"
    using assms(1-3) unfolding exclusiveCatalog_def inCatalog_def by blast
  moreover have "snd ` set (lb_variants b) \<subseteq> insert i (memberIds d)"
    unfolding assms(6) memberIds_iff [OF assms(4)] by (rule values_mapSet_subset)
  ultimately show "memberIds v \<inter> snd ` set (lb_variants b) = {}" using assms(5) [OF v(1)] by blast
qed

lemma exclusiveCatalog_addVariant:
  assumes "exclusiveCatalog db" and "dbOk db"
    and "addVariant fp fs (\<lambda>d. d) db x variant source path identity cover = (r, db')"
  shows "exclusiveCatalog db'"
proof -
  obtain dv db1 where g1: "getLogicalBook db x = (dv, db1)" by fastforce
  obtain w db2 where g2: "findLogicalBookByVariant db1 (br_id variant) = (w, db2)" by fastforce
  let ?req = "writeRequest variant (src_content source) (br_fileName variant) (br_mediaType variant)"
  obtain st db3 where g3: "saveBinary fs db2 ?req = (st, db3)" by fastforce
  have in12: "inCatalog db1 db" "inCatalog db2 db"
    using inCatalog_getters(2) [of db x] inCatalog_getters(5) [of db1 "br_id variant"] inCatalog_trans by (auto simp: g1 g2)
  have get3: "idbGet db3 s k = idbGet db2 s k" for s k using saveBinary_idbGet [of fs db2 ?req s k] by (simp add: g3)
  have in3: "inCatalog db3 db" using in12(2) by (simp add: inCatalog_def get3)
  note eq = assms(3) [unfolded addVariant_def g1 Let_def prod.case]
  show ?thesis
  proof (cases "inCatalog db' db")
    case True
    then show ?thesis using exclusiveCatalog_subset assms(1) by blast
  next
    case False
    then obtain d where d: "dv = Some d" using eq in12(1) by (cases dv) (auto split: if_splits)
    note eq2 = eq [unfolded d option.case g2 prod.case]
    have w: "w = None" using eq2 in12(2) False by (cases w) (auto split: if_splits)
    note eq3 = eq2 [unfolded w option.case g3 prod.case]
    define up where "up = (logicalBookOf d)\<lparr>lb_variants := mapSet (br_format variant) (br_id variant) (lb_variants (logicalBookOf d)),
      lb_updatedAt := mi_createdAt identity\<rparr>"
    have none: "br_id variant \<notin> memberIds v" if "idbGet db3 LOGICAL_BOOKS_STORE k = Some v" for k v
    proof (rule findLogicalBook_none [OF _ g2 [unfolded w]])
      show "dbOk db1" using dbOk_reads(2) [OF assms(2), of x] by (simp add: g1)
    qed (use that get3 in simp)
    have "inCatalog db' (idbPut LOGICAL_BOOKS_STORE (logicalBookVal up) db3)"
      using eq3 False in12(2) in3 unfolding up_def [symmetric]
      by (auto simp: inCatalog_def idbGet_idbWrite split: if_splits option.splits sum.splits)
    moreover have "exclusiveCatalog (idbPut LOGICAL_BOOKS_STORE (logicalBookVal up) db3)"
      by (rule exclusiveCatalog_join [OF assms(1) in3 _ _ none])
        (use getLogicalBook_result(2) [OF g1 d] in \<open>auto simp: up_def\<close>)
    ultimately show ?thesis using exclusiveCatalog_subset by blast
  qed
qed

lemma exclusiveCatalog_removeBook:
  assumes "exclusiveCatalog db" and "dbOk db"
  shows "exclusiveCatalog (removeBook fs lc (\<lambda>d. d) db i)"
proof -
  obtain items db1 where g1: "collectCleanup lc ([], db) i = (items, db1)" by fastforce
  obtain w db2 where g2: "findLogicalBookByVariant db1 i = (w, db2)" by fastforce
  let ?db3 = "fold deleteItem items db2"
  have q1: "onlyQuarantines db db1" using collectCleanup_reads [of "([], db)" lc i] by (simp add: g1)
  have in3: "inCatalog ?db3 db1"
    using inCatalog_trans [OF inCatalog_fold [of deleteItem items db2]] inCatalog_deleteItem inCatalog_getters(5) [of db1 i] by (simp add: g2)
  have ex1: "exclusiveCatalog db1" using exclusiveCatalog_subset [OF inCatalog_reads [OF q1] assms(1)] .
  show ?thesis
  proof (cases w)
    case None
    then show ?thesis
      by (intro exclusiveCatalog_subset [OF in3 ex1, THEN exclusiveCatalog_subset [rotated]])
        (simp add: removeBook_def g1 g2 inCatalog_def)
  next
    case (Some v)
    note own = findLogicalBook_some [OF onlyQuarantines_dbOk [OF q1 assms(2)] g2 [unfolded Some]]
    define up where "up = (logicalBookOf v)\<lparr>lb_variants := filter (\<lambda>(f, j). j \<noteq> i) (lb_variants (logicalBookOf v)), lb_updatedAt := db_now db2\<rparr>"
    have "exclusiveCatalog (idbPut LOGICAL_BOOKS_STORE (logicalBookVal up) ?db3)"
      by (rule exclusiveCatalog_owner [OF ex1 in3 own]) (auto simp: up_def)
    moreover have "inCatalog (removeBook fs lc (\<lambda>d. d) db i) (idbPut LOGICAL_BOOKS_STORE (logicalBookVal up) ?db3) \<or>
        inCatalog (removeBook fs lc (\<lambda>d. d) db i) ?db3"
      by (auto simp: removeBook_def g1 g2 Some Let_def up_def inCatalog_def idbGet_idbWrite idbGet_idbDelete)
    ultimately show ?thesis using exclusiveCatalog_subset exclusiveCatalog_subset [OF in3 ex1] by blast
  qed
qed

lemma exclusiveCatalog_updateMetadata:
  assumes "exclusiveCatalog db" and "dbOk db"
  shows "exclusiveCatalog (snd (updateMetadata (\<lambda>d. d) db i metadata options))"
proof -
  obtain cv db1 where g1: "getBook db i = (cv, db1)" by fastforce
  obtain w db2 where g2: "findLogicalBookByVariant db1 i = (w, db2)" by fastforce
  have in1: "inCatalog db1 db" using inCatalog_getters(1) [of db i] by (simp add: g1)
  have ok1: "dbOk db1" using dbOk_reads(1) [OF assms(2), of i] by (simp add: g1)
  have in2: "inCatalog db2 db1" using inCatalog_getters(5) [of db1 i] by (simp add: g2)
  have ex1: "exclusiveCatalog db1" using exclusiveCatalog_subset [OF in1 assms(1)] .
  let ?run = "updateMetadata (\<lambda>d. d) db i metadata options"
  show ?thesis
  proof (cases "inCatalog (snd ?run) db1")
    case True
    then show ?thesis using exclusiveCatalog_subset ex1 by blast
  next
    case False
    then obtain c v where cv: "cv = Some c" and w: "w = Some v"
      using in2 by (cases cv; cases w) (auto simp: updateMetadata_def g1 g2 Let_def inCatalog_def idbGet_idbWrite split: option.splits)
    note own = findLogicalBook_some [OF ok1 g2 [unfolded w]]
    define up where "up = catalogFromVariant (logicalBookOf v) (updatedRecord (bookOf c) metadata options (db_now db2)) (db_now db2)"
    have "inCatalog (snd ?run) (idbPut LOGICAL_BOOKS_STORE (logicalBookVal up) db2)"
      using False in2
      by (auto simp: updateMetadata_def g1 g2 cv w Let_def inCatalog_def idbGet_idbWrite up_def [symmetric] split: option.splits if_splits)
    moreover have "exclusiveCatalog (idbPut LOGICAL_BOOKS_STORE (logicalBookVal up) db2)"
      by (rule exclusiveCatalog_owner [OF ex1 in2 own]) (simp_all add: up_def catalogFromVariant_def)
    ultimately show ?thesis using exclusiveCatalog_subset by blast
  qed
qed

text \<open>A publication that enters the library gets the book named after its fingerprint. The catalog stays
  exclusive when no other book lists that publication.\<close>

definition unlisted :: "LibraryDb \<Rightarrow> string \<Rightarrow> bool" where
  "unlisted db i \<longleftrightarrow> (\<forall>k v. idbGet db LOGICAL_BOOKS_STORE k = Some v \<longrightarrow> i \<in> memberIds v \<longrightarrow> singletonLogicalBookId i = Inr (hd k))"

lemma exclusiveCatalog_fresh:
  assumes "exclusiveCatalog db" and "inCatalog db3 db" and "unlisted db3 (br_id v)" and "dbOk db3"
    and "logicalBookFromVariant v now = Inr b"
  shows "exclusiveCatalog (idbPut LOGICAL_BOOKS_STORE (logicalBookVal b) db3)"
proof (rule exclusiveCatalog_put [OF exclusiveCatalog_subset [OF assms(2,1)]])
  fix k w assume w: "idbGet db3 LOGICAL_BOOKS_STORE k = Some w" "k \<noteq> [lb_id b]"
  have "singletonLogicalBookId (br_id v) = Inr (lb_id b)"
    using assms(5) by (cases "singletonLogicalBookId (br_id v)") (auto simp: logicalBookFromVariant_def)
  moreover have "k = [hd k]" using dbOk_key [OF assms(4) w(1)] by (auto simp: recordKey_logicalBook)
  ultimately have "br_id v \<notin> memberIds w" using w assms(3) unfolding unlisted_def by (metis sum.inject(2))
  then show "memberIds w \<inter> snd ` set (lb_variants b) = {}" by (simp add: fromVariant_variants [OF assms(5)])
qed

lemma unlisted_inCatalog: "inCatalog db' db \<Longrightarrow> unlisted db i \<Longrightarrow> unlisted db' i"
  unfolding inCatalog_def unlisted_def by blast

lemma catalog_binaries:
  "inCatalog (snd (saveBinary fs db request)) db" "inCatalog (removeBinary fs stored db) db"
  "inCatalog (snd (replaceStoredBinary fs db book blob n t)) db" "inCatalog (snd (hasSource fs db i)) db"
proof -
  show save: "inCatalog (snd (saveBinary fs db request)) db" for request by (simp add: inCatalog_def saveBinary_idbGet)
  show "inCatalog (removeBinary fs stored db) db" by (simp add: inCatalog_def)
  show "inCatalog (snd (replaceStoredBinary fs db book blob n t)) db"
    using save [of "writeRequest book blob n t"] by (simp add: replaceStoredBinary_def split_beta inCatalog_def idbGet_idbWrite split: sum.splits)
  have migrate: "inCatalog (snd (migrateBinary fs d stored format)) d" for d stored format
    by (simp add: migrateBinary_def writeOpfs_def Let_def inCatalog_def split: StoredPublicationBinary.splits sum.splits option.splits)
  obtain st db1 where g1: "getStoredBinary db i = (st, db1)" by fastforce
  obtain bk db2 where g2: "getBook db1 i = (bk, db2)" by fastforce
  have in2: "inCatalog db2 db"
    using inCatalog_trans [of db2 db1 db] inCatalog_getters(1) [of db1 i] inCatalog_getters(6) [of db i] by (simp add: g1 g2)
  have "inCatalog (snd (getBookSource fs db i)) db"
  proof (cases "st = None \<or> bk = None")
    case True
    then show ?thesis using in2 by (cases st; cases bk) (simp_all add: getBookSource_def g1 g2)
  next
    case False
    then obtain s b where sb: "st = Some s" "bk = Some b" by auto
    obtain m db3 where g3: "migrateBinary fs db2 s (br_format (bookOf b)) = (m, db3)" by fastforce
    have in3: "inCatalog db3 db" using inCatalog_trans [OF _ in2] migrate [of db2 s "br_format (bookOf b)"] by (simp add: g3)
    have "snd (getBookSource fs db i) = db3 \<or> (\<exists>v. snd (getBookSource fs db i) = idbPut BINARIES_STORE v db3)"
      by (cases m) (auto simp: getBookSource_def g1 g2 sb g3 Let_def)
    then show ?thesis using in3 inCatalog_trans [OF inCatalog_idbPut_other in3] by auto
  qed
  then show "inCatalog (snd (hasSource fs db i)) db" by (simp add: hasSource_def split_beta split: sum.splits)
qed

lemma exclusiveCatalog_import_known:
  assumes "exclusiveCatalog db" and "dbOk db" and "getBook db (fp (src_content source)) = (Some v, db1)"
  shows "exclusiveCatalog (snd (importBook fp fs db source))"
proof -
  let ?i = "fp (src_content source)" and ?b = "bookOf v"
  obtain rd db2 where g2: "hasSource fs db1 ?i = (rd, db2)" by fastforce
  obtain rp db3 where g3: "(if rd then (Inr (), db2)
      else replaceStoredBinary fs db2 ?b (src_content source) (br_fileName ?b) (br_mediaType ?b)) = (rp, db3)" by fastforce
  obtain w db4 where g4: "findLogicalBookByVariant db3 ?i = (w, db4)" by fastforce
  have in3: "inCatalog db3 db"
    using inCatalog_getters(1) [of db ?i] catalog_binaries(4) [of fs db1 ?i]
      catalog_binaries(3) [of fs db2 ?b "src_content source" "br_fileName ?b" "br_mediaType ?b"] g3 inCatalog_trans
    unfolding assms(3) g2 by (auto split: if_splits)
  have ok2: "dbOk db2" using dbOk_reads(1) [OF assms(2), of ?i] dbOk_hasSource [of db1 fs ?i] unfolding assms(3) g2 by simp
  have ok3: "dbOk db3"
    using dbOk_replaceStored [OF ok2, of fs ?b "src_content source" "br_fileName ?b" "br_mediaType ?b"] ok2 g3
    by (cases rd) (simp_all del: dbOk_replaceStored)
  have in4: "inCatalog db4 db" using inCatalog_trans [OF _ in3] inCatalog_getters(5) [of db3 ?i] by (simp add: g4)
  have ok4: "dbOk db4" using dbOk_find [OF ok3, of ?i] by (simp add: g4)
  note eq = importBook_def [of fp fs db source, unfolded Let_def assms(3) prod.case option.case g2 g3 g4]
  show ?thesis
  proof (cases "\<exists>b. w = None \<and> logicalBookFromVariant ?b (br_importedAt ?b) = Inr b")
    case True
    then obtain b where b: "w = None" "logicalBookFromVariant ?b (br_importedAt ?b) = Inr b" by blast
    have "br_id ?b = ?i" using getBook_id [OF assms(3)] by simp
    then have "unlisted db4 (br_id ?b)" using findLogicalBook_none [OF ok3 g4 [unfolded b(1)]] by (simp add: unlisted_def)
    from exclusiveCatalog_fresh [OF assms(1) in4 this ok4 b(2)] exclusiveCatalog_subset [OF in3 assms(1)]
    show ?thesis by (simp add: eq b split: sum.splits)
  next
    case False
    then have "snd (importBook fp fs db source) \<in> {db3, db4}" by (auto simp: eq split: sum.splits option.splits)
    then show ?thesis using exclusiveCatalog_subset [OF in3 assms(1)] exclusiveCatalog_subset [OF in4 assms(1)] by auto
  qed
qed

text \<open>Storing a publication that has no metadata yet.\<close>

lemma exclusiveCatalog_stored:
  assumes "exclusiveCatalog db" and "dbOk db2" and "inCatalog db2 db" and "unlisted db2 (br_id book)"
    and "logicalBookFromVariant book now = Inr b" and "inCatalog db3 db2" and "dbOk db3"
    and "\<And>k. idbGet db' LOGICAL_BOOKS_STORE k = idbGet (idbPut LOGICAL_BOOKS_STORE (logicalBookVal b) db3) LOGICAL_BOOKS_STORE k"
  shows "exclusiveCatalog db'"
proof -
  have "exclusiveCatalog (idbPut LOGICAL_BOOKS_STORE (logicalBookVal b) db3)"
    by (rule exclusiveCatalog_fresh [OF assms(1) inCatalog_trans [OF assms(6,3)] unlisted_inCatalog [OF assms(6,4)] assms(7,5)])
  then show ?thesis using assms(8) exclusiveCatalog_subset unfolding inCatalog_def by metis
qed

lemma exclusiveCatalog_import_new:
  assumes "exclusiveCatalog db" and "dbOk db" and "getBook db (fp (src_content source)) = (None, db1)"
    and "unlisted db (fp (src_content source))"
  shows "exclusiveCatalog (snd (importBook fp fs db source))"
proof -
  let ?i = "fp (src_content source)" and ?run = "importBook fp fs db source"
  have in1: "inCatalog db1 db" using inCatalog_getters(1) [of db ?i] by (simp add: assms(3))
  have ok1: "dbOk db1" using dbOk_reads(1) [OF assms(2), of ?i] by (simp add: assms(3))
  note eq = importBook_def [of fp fs db source, unfolded Let_def assms(3) prod.case option.case]
  show ?thesis
  proof (cases "detectPublicationFormat (src_name source) (src_mediaType source)")
    case None
    then show ?thesis using exclusiveCatalog_subset [OF in1 assms(1)] by (simp add: eq)
  next
    case (Some f)
    define rec where "rec = importedRecord ?i f source (db_now db1)"
    let ?req = "writeRequest rec (src_content source) (br_fileName rec) (br_mediaType rec)"
    obtain st db2 where g2: "saveBinary fs db1 ?req = (st, db2)" by fastforce
    have in2: "inCatalog db2 db1" "inCatalog db2 db"
      using catalog_binaries(1) [of fs db1 ?req] inCatalog_trans [OF _ in1] by (simp_all add: g2)
    have ok2: "dbOk db2" using dbOk_saveBinary [of fs db1 ?req] ok1 by (simp add: g2)
    have id: "br_id rec = ?i" by (simp add: rec_def importedRecord_def)
    note eq2 = eq [unfolded Some option.case, folded rec_def, unfolded g2 prod.case]
    show ?thesis
    proof (cases "inCatalog (snd ?run) db")
      case False
      then obtain b where b: "logicalBookFromVariant rec (br_importedAt rec) = Inr b" and st: "\<not> isl st"
        using eq2 in2 by (cases st; cases "logicalBookFromVariant rec (br_importedAt rec)") (auto simp: inCatalog_def)
      have "idbGet (snd ?run) LOGICAL_BOOKS_STORE k = idbGet (idbPut LOGICAL_BOOKS_STORE (logicalBookVal b) db2) LOGICAL_BOOKS_STORE k" for k
        using eq2 st b by (cases st) (simp_all add: idbGet_idbWrite)
      then show ?thesis
        using exclusiveCatalog_stored [OF assms(1) ok1 in1 _ b in2(1) ok2] unlisted_inCatalog [OF in1 assms(4)] id by simp
    qed (use exclusiveCatalog_subset assms(1) in blast)
  qed
qed

lemma exclusiveCatalog_storeSynced:
  assumes "exclusiveCatalog db" and "dbOk db" and "fst (getBook db (br_id book)) = None \<longrightarrow> unlisted db (br_id book)"
  shows "exclusiveCatalog (snd (storeSyncedBook fp fs db book source))"
proof -
  let ?run = "storeSyncedBook fp fs db book source" and ?i = "br_id book"
  obtain ex db1 where g1: "getBook db ?i = (ex, db1)" by fastforce
  obtain rd db2 where g2: "(if ex = None then (False, db1) else hasSource fs db1 ?i) = (rd, db2)" by fastforce
  let ?req = "writeRequest book (src_content source) (br_fileName book) (br_mediaType book)"
  obtain st db3 where g3: "saveBinary fs db2 ?req = (st, db3)" by fastforce
  have in1: "inCatalog db1 db" using inCatalog_getters(1) [of db ?i] by (simp add: g1)
  have in2: "inCatalog db2 db" using g2 in1 inCatalog_trans [OF catalog_binaries(4) in1, of fs ?i] by (auto split: if_splits)
  have ok1: "dbOk db1" using dbOk_reads(1) [OF assms(2), of ?i] by (simp add: g1)
  have ok2: "dbOk db2" using dbOk_hasSource [OF ok1, of fs ?i] g2 ok1 by (cases "ex = None") (simp_all del: dbOk_hasSource)
  have in3: "inCatalog db3 db2" using catalog_binaries(1) [of fs db2 ?req] by (simp add: g3)
  have ok3: "dbOk db3" using dbOk_saveBinary [of fs db2 ?req] ok2 by (simp add: g3)
  note in3' = inCatalog_trans [OF in3 in2]
  note eq = storeSyncedBook_def [of fp fs db book source, unfolded Let_def g1 prod.case g2 g3]
  show ?thesis
  proof (cases "\<exists>b. ex = None \<and> isl st = False \<and> logicalBookFromVariant book (br_importedAt book) = Inr b \<and> \<not> inCatalog (snd ?run) db")
    case True
    then obtain b binary where b: "ex = None" "st = Inr binary" "logicalBookFromVariant book (br_importedAt book) = Inr b"
      and out: "\<not> inCatalog (snd ?run) db" by (cases st) auto
    have "idbGet (snd ?run) LOGICAL_BOOKS_STORE k = idbGet (idbPut LOGICAL_BOOKS_STORE (logicalBookVal b) db3) LOGICAL_BOOKS_STORE k" for k
      using out in2 unfolding eq b by (auto simp: idbGet_idbWrite split: if_splits)
    moreover have "unlisted db2 ?i" using unlisted_inCatalog [OF in2] assms(3) b(1) by (simp add: g1)
    ultimately show ?thesis using exclusiveCatalog_stored [OF assms(1) ok2 in2 _ b(3) in3 ok3] by blast
  next
    case False
    then have "inCatalog (snd ?run) db"
      using in2 in3' unfolding eq by (cases st) (auto simp: inCatalog_def idbGet_idbWrite split: sum.splits if_splits)
    then show ?thesis using exclusiveCatalog_subset assms(1) by blast
  qed
qed

section \<open>A synchronized state\<close>

lemma checkMembers_ok:
  assumes "checkMembers ms variants db = (Inr variants', db')"
  shows "variants' = variants @ map snd ms \<and> (distinct variants \<longrightarrow> distinct variants') \<and> onlyQuarantines db db'"
  using assms
proof (induction ms variants db rule: checkMembers.induct)
  case (2 format variantId rest variants db)
  obtain v db1 where g: "getBook db variantId = (v, db1)" by fastforce
  have q: "onlyQuarantines db db1" using onlyQuarantines_getBook [of db variantId] by (simp add: g)
  obtain b where b: "v = Some b" "br_format (bookOf b) = format" "variantId \<notin> set variants"
    and run: "checkMembers rest (variants @ [variantId]) db1 = (Inr variants', db')"
    using "2.prems" by (auto simp: g split: if_splits option.splits)
  have ih: "variants' = (variants @ [variantId]) @ map snd rest \<and> (distinct (variants @ [variantId]) \<longrightarrow> distinct variants') \<and>
      onlyQuarantines db1 db'"
    by (rule "2.IH" [OF b(3) g [symmetric] refl b(1)]) (use b run in simp_all)
  show ?case
  proof (intro conjI impI)
    show "variants' = variants @ map snd ((format, variantId) # rest)" using ih by simp
    assume "distinct variants"
    then have "distinct (variants @ [variantId])" using b(3) by simp
    then show "distinct variants'" using ih by blast
  next
    show "onlyQuarantines db db'" using onlyQuarantines_trans [OF q] ih by blast
  qed
qed simp

fun allVariants :: "LogicalBookRecord list \<Rightarrow> string list" where
  "allVariants [] = []"
| "allVariants (b # bs) = map snd (lb_variants b) @ allVariants bs"

lemma set_allVariants: "set (allVariants bs) = (\<Union>b \<in> set bs. snd ` set (lb_variants b))"
  by (induction bs) simp_all

lemma checkBooks_ok:
  assumes "checkBooks bs variants db = (Inr variants', db')" and "distinct variants"
  shows "variants' = variants @ allVariants bs \<and> distinct variants' \<and> onlyQuarantines db db'"
  using assms
proof (induction bs variants db rule: checkBooks.induct)
  case (2 b bs variants db)
  obtain vs db1 where m: "checkMembers (lb_variants b) variants db = (Inr vs, db1)" and run: "checkBooks bs vs db1 = (Inr variants', db')"
    using "2.prems"(1) by (auto split: sum.splits prod.splits)
  note c = checkMembers_ok [OF m]
  have "distinct vs" using c "2.prems"(2) by blast
  then have ih: "variants' = vs @ allVariants bs \<and> distinct variants' \<and> onlyQuarantines db1 db'"
    by (rule "2.IH" [OF m [symmetric] refl run])
  then have "onlyQuarantines db db'" using c onlyQuarantines_trans by blast
  moreover have "variants' = variants @ allVariants (b # bs)" using c ih by simp
  ultimately show ?case using ih by blast
qed simp

lemma idbGet_clearAndPut:
  "idbGet (clearAndPut s records db) s' k =
     (if s' = s then map_of (rev (map (\<lambda>v. (recordKey s v, v)) records)) k else idbGet db s' k)"
proof -
  have "idbGet (fold (idbPut s) records d) s' k =
      (if s' = s then (case map_of (rev (map (\<lambda>v. (recordKey s v, v)) records)) k of Some v \<Rightarrow> Some v | None \<Rightarrow> idbGet d s k)
       else idbGet d s' k)" for d
    by (induction records arbitrary: d) (auto simp: idbGet_idbWrite map_add_def split: option.splits)
  then show ?thesis by (simp add: clearAndPut_def) (simp add: idbGet_def idbClear_def split: option.splits)
qed

lemma exclusive_books:
  assumes "distinct (allVariants bs)" and "b \<in> set bs" "c \<in> set bs"
    and "i \<in> snd ` set (lb_variants b)" "i \<in> snd ` set (lb_variants c)"
  shows "b = c"
  using assms(1-3)
proof (induction bs)
  case (Cons x xs)
  have far: "i \<notin> snd ` set (lb_variants y)" if "y \<in> set xs" "i \<in> snd ` set (lb_variants x)" for y
    using Cons.prems(1) that by (auto simp: set_allVariants)
  show ?case using Cons far assms(4,5) by auto
qed simp

text \<open>A member is there when its metadata is valid and names its format.\<close>

definition memberThere :: "LibraryDb \<Rightarrow> PublicationFormat \<Rightarrow> string \<Rightarrow> bool" where
  "memberThere db f i \<longleftrightarrow>
     (\<exists>v. idbGet db BOOKS_STORE [i] = Some v \<and> isBookRecord v \<and> getProp v ''id'' = JStr i \<and> br_format (bookOf v) = f)"

lemma memberThere_getBook: "memberThere db f i \<Longrightarrow> memberThere (snd (getBook db j)) f i"
  by (auto simp: memberThere_def getBook_def readValidated_def quarantineInvalidRecord_def idbGet_def delete_conv split: option.splits)

lemma getBook_there: "getBook db i = (Some v, db') \<Longrightarrow> memberThere db' (br_format (bookOf v)) i"
  by (auto simp: memberThere_def getBook_def readValidated_def split: option.splits if_splits)

lemma checkMembers_there:
  assumes "checkMembers ms variants db = (Inr variants', db')"
  shows "(\<forall>(f, i) \<in> set ms. memberThere db' f i) \<and> (\<forall>f i. memberThere db f i \<longrightarrow> memberThere db' f i)"
  using assms
proof (induction ms variants db rule: checkMembers.induct)
  case (2 format variantId rest variants db)
  obtain v db1 where g: "getBook db variantId = (v, db1)" by fastforce
  obtain b where b: "v = Some b" "br_format (bookOf b) = format" "variantId \<notin> set variants"
    and run: "checkMembers rest (variants @ [variantId]) db1 = (Inr variants', db')"
    using "2.prems" by (auto simp: g split: if_splits option.splits)
  have ih: "(\<forall>(f, i) \<in> set rest. memberThere db' f i) \<and> (\<forall>f i. memberThere db1 f i \<longrightarrow> memberThere db' f i)"
    by (rule "2.IH" [OF b(3) g [symmetric] refl b(1)]) (use b run in simp_all)
  have "memberThere db1 format variantId" using getBook_there [OF g [unfolded b(1)]] b(2) by simp
  moreover have "memberThere db f i \<Longrightarrow> memberThere db1 f i" for f i using memberThere_getBook [of db f i variantId] by (simp add: g)
  ultimately show ?case using ih by auto
qed simp

lemma checkBooks_there:
  assumes "checkBooks bs variants db = (Inr variants', db')"
  shows "(\<forall>b \<in> set bs. \<forall>(f, i) \<in> set (lb_variants b). memberThere db' f i) \<and> (\<forall>f i. memberThere db f i \<longrightarrow> memberThere db' f i)"
  using assms
proof (induction bs variants db rule: checkBooks.induct)
  case (2 b bs variants db)
  obtain vs db1 where m: "checkMembers (lb_variants b) variants db = (Inr vs, db1)" and run: "checkBooks bs vs db1 = (Inr variants', db')"
    using "2.prems" by (auto split: sum.splits prod.splits)
  from "2.IH" [OF m [symmetric] refl run] checkMembers_there [OF m] show ?case by auto
qed simp

lemma replace_catalog:
  assumes "replaceLogicalBookState between db bs ps rs covers = (Inr (), db')"
  obtains variants db1 where "checkBooks bs [] db = (Inr variants, db1)"
    "\<And>k. idbGet db' LOGICAL_BOOKS_STORE k = map_of (rev (map (\<lambda>b. ([lb_id b], logicalBookVal b)) bs)) k"
    "\<And>k. idbGet db' BOOKS_STORE k = idbGet (between db1) BOOKS_STORE k"
proof -
  obtain c db1 where c: "checkBooks bs [] db = (c, db1)" by fastforce
  then obtain variants where "c = Inr variants" using assms by (cases c) (auto simp: replaceLogicalBookState_def split: if_splits)
  moreover have "idbGet db' LOGICAL_BOOKS_STORE k = map_of (rev (map (\<lambda>b. ([lb_id b], logicalBookVal b)) bs)) k"
    "idbGet db' BOOKS_STORE k = idbGet (between db1) BOOKS_STORE k" for k
    using assms c by (auto simp: replaceLogicalBookState_def idbGet_clearAndPut comp_def split: if_splits sum.splits option.splits)
  ultimately show ?thesis using that c by blast
qed

lemma exclusiveCatalog_replace:
  assumes "replaceLogicalBookState between db bs ps rs covers = (Inr (), db')"
  shows "exclusiveCatalog db'"
  using assms
proof (rule replace_catalog)
  fix variants db1
  assume c: "checkBooks bs [] db = (Inr variants, db1)"
    and get: "\<And>k. idbGet db' LOGICAL_BOOKS_STORE k = map_of (rev (map (\<lambda>b. ([lb_id b], logicalBookVal b)) bs)) k"
  have d: "distinct (allVariants bs)" using checkBooks_ok [OF c] by auto
  have origin: "\<exists>b \<in> set bs. k = [lb_id b] \<and> v = logicalBookVal b" if "idbGet db' LOGICAL_BOOKS_STORE k = Some v" for k v
    using map_of_SomeD [OF that [unfolded get]] by auto
  show ?thesis unfolding exclusiveCatalog_def
  proof (intro allI impI)
    fix k v k' v'
    assume 1: "idbGet db' LOGICAL_BOOKS_STORE k = Some v" and 2: "idbGet db' LOGICAL_BOOKS_STORE k' = Some v'"
      and ne: "memberIds v \<inter> memberIds v' \<noteq> {}"
    obtain b b' where b: "b \<in> set bs" "k = [lb_id b]" "v = logicalBookVal b" "b' \<in> set bs" "k' = [lb_id b']" "v' = logicalBookVal b'"
      using origin [OF 1] origin [OF 2] by blast
    obtain i where "i \<in> memberIds v" "i \<in> memberIds v'" using ne by blast
    then have "i \<in> snd ` set (lb_variants b)" "i \<in> snd ` set (lb_variants b')"
      using memberIds_logicalBookVal [of b] memberIds_logicalBookVal [of b'] by (auto simp only: b(3,6))
    then have "b = b'" by (rule exclusive_books [OF d b(1,4)])
    then show "k = k'" using b by simp
  qed
qed

lemma checkMembers_catalog:
  "checkMembers ms vs d = (c, d') \<Longrightarrow> idbGet d' LOGICAL_BOOKS_STORE k = idbGet d LOGICAL_BOOKS_STORE k"
proof (induction ms vs d rule: checkMembers.induct)
  case (2 format variantId rest variants db)
  have "idbGet (snd (getBook db variantId)) LOGICAL_BOOKS_STORE k = idbGet db LOGICAL_BOOKS_STORE k" by (simp add: idbGet_getBook)
  then show ?case using 2 by (auto split: if_splits option.splits prod.splits)
qed simp

lemma checkBooks_catalog:
  "checkBooks bs vs d = (c, d') \<Longrightarrow> idbGet d' LOGICAL_BOOKS_STORE k = idbGet d LOGICAL_BOOKS_STORE k"
proof (induction bs vs d rule: checkBooks.induct)
  case (2 b bs vs d)
  obtain m d1 where m: "checkMembers (lb_variants b) vs d = (m, d1)" by fastforce
  show ?case
  proof (cases m)
    case (Inl e)
    then show ?thesis using "2.prems" checkMembers_catalog [OF m] by (simp add: m)
  next
    case (Inr vs')
    then show ?thesis using "2.IH" [OF m [symmetric] Inr] "2.prems" checkMembers_catalog [OF m] by (simp add: m)
  qed
qed simp

text \<open>A synchronized state that is accepted leaves a consistent catalog: every publication belongs to at
  most one logical book, and every member of a book is a publication of the library with the format the book
  lists it under. A state that is refused changes no logical book.\<close>

theorem replaced_catalog_consistent:
  assumes "replaceLogicalBookState (\<lambda>d. d) db bs ps rs covers = (r, db')"
  shows "(r = Inr () \<longrightarrow> exclusiveCatalog db' \<and>
      (\<forall>k v f i. idbGet db' LOGICAL_BOOKS_STORE k = Some v \<longrightarrow> getProp (getProp v ''variants'') (formatString f) = JStr i \<longrightarrow>
         memberThere db' f i)) \<and>
    (\<forall>e. r = Inl e \<longrightarrow> inCatalog db' db \<and> (\<forall>k. idbGet db' LOGICAL_BOOKS_STORE k = idbGet db LOGICAL_BOOKS_STORE k))"
proof (cases r)
  case (Inl e)
  then show ?thesis using assms checkBooks_catalog [of bs "[]" db]
    by (auto simp: replaceLogicalBookState_def inCatalog_def split: if_splits sum.splits prod.splits)
next
  case (Inr u)
  then have run: "replaceLogicalBookState (\<lambda>d. d) db bs ps rs covers = (Inr (), db')" using assms by simp
  from run show ?thesis
  proof (rule replace_catalog)
    fix variants db1
    assume c: "checkBooks bs [] db = (Inr variants, db1)"
      and get: "\<And>k. idbGet db' LOGICAL_BOOKS_STORE k = map_of (rev (map (\<lambda>b. ([lb_id b], logicalBookVal b)) bs)) k"
      and books: "\<And>k. idbGet db' BOOKS_STORE k = idbGet db1 BOOKS_STORE k"
    have "memberThere db' f i"
      if v: "idbGet db' LOGICAL_BOOKS_STORE k = Some v" "getProp (getProp v ''variants'') (formatString f) = JStr i" for k v f i
    proof -
      obtain b where b: "b \<in> set bs" "v = logicalBookVal b" using map_of_SomeD [OF v(1) [unfolded get]] by auto
      have "map_of (lb_variants b) f = Some i" using v(2) by (cases "map_of (lb_variants b) f") (simp_all add: b(2))
      then have "memberThere db1 f i" using checkBooks_there [OF c] b(1) map_of_SomeD by fastforce
      then show ?thesis by (simp add: memberThere_def books)
    qed
    then show ?thesis using exclusiveCatalog_replace [OF run] Inr by blast
  qed
qed

theorem replaced_catalog_consistent_witness:
  "let db' = snd (replaceLogicalBookState (\<lambda>d. d) twoBooksDb [epubBook] [] [] None) in
   fst (replaceLogicalBookState (\<lambda>d. d) twoBooksDb [epubBook] [] [] None) = Inr () \<and> exclusiveCatalog db'"
proof -
  have "fst (replaceLogicalBookState (\<lambda>d. d) twoBooksDb [epubBook] [] [] None) = Inr ()" by code_simp
  then show ?thesis
    using replaced_catalog_consistent [OF prod.collapse [symmetric], of twoBooksDb "[epubBook]" "[]" "[]" None]
    unfolding Let_def by blast
qed

section \<open>Sessions\<close>

lemma dbOk_clearAndPut [simp]: "dbOk db \<Longrightarrow> dbOk (clearAndPut s records db)"
  unfolding clearAndPut_def by (rule dbOk_fold) (simp_all add: dbOk_idbWrite)

lemma dbOk_replace:
  assumes "dbOk db"
  shows "dbOk (snd (replaceLogicalBookState (\<lambda>d. d) db bs ps rs covers))"
proof -
  have members: "dbOk d \<Longrightarrow> dbOk (snd (checkMembers ms vs d))" for ms vs d
  proof (induction ms vs d rule: checkMembers.induct)
    case (2 f i rest vs d)
    obtain v d1 where g: "getBook d i = (v, d1)" by fastforce
    have "dbOk d1" using dbOk_reads(1) [OF "2.prems", of i] by (simp add: g)
    then show ?case using 2 by (cases v) (auto simp: g)
  qed simp
  have "dbOk d \<Longrightarrow> dbOk (snd (checkBooks cs vs d))" for cs vs d
  proof (induction cs vs d rule: checkBooks.induct)
    case (2 b bs vs d)
    obtain m d1 where g: "checkMembers (lb_variants b) vs d = (m, d1)" by fastforce
    have "dbOk d1" using members [OF "2.prems", of "lb_variants b" vs] by (simp add: g)
    then show ?case using 2 by (cases m) (auto simp: g)
  qed simp
  then have "dbOk (snd (checkBooks bs [] db))" using assms by blast
  then show ?thesis using assms
    by (simp add: replaceLogicalBookState_def split_beta split: sum.splits option.splits)
qed

text \<open>Every operation of the repository on publications and logical books, one call at a time.\<close>

inductive catalogStep ::
  "FileSystem \<Rightarrow> (string \<Rightarrow> string) \<Rightarrow> (string \<Rightarrow> string) \<Rightarrow> (string \<Rightarrow> string \<Rightarrow> int) \<Rightarrow> LibraryDb \<Rightarrow> LibraryDb \<Rightarrow> bool" for fs fp sha lc where
  step_read: "libraryRead lc db db' \<Longrightarrow> catalogStep fs fp sha lc db db'"
| step_save: "librarySave db db' \<Longrightarrow> catalogStep fs fp sha lc db db'"
| step_associate: "catalogStep fs fp sha lc db (snd (associate (\<lambda>d. d) db x y identity))"
| step_detach: "catalogStep fs fp sha lc db (snd (detachVariant sha (\<lambda>d. d) db x i identity))"
| step_delete: "catalogStep fs fp sha lc db (snd (deleteVariant fs lc (\<lambda>d. d) db x t identity))"
| step_add: "catalogStep fs fp sha lc db (snd (addVariant fp fs (\<lambda>d. d) db x variant source path identity cover))"
| step_preference: "catalogStep fs fp sha lc db (snd (saveLogicalBookFormatPreference (\<lambda>d. d) db x f identity))"
| step_import: "fst (getBook db (fp (src_content source))) \<noteq> None \<or> unlisted db (fp (src_content source)) \<Longrightarrow>
    catalogStep fs fp sha lc db (snd (importBook fp fs db source))"
| step_synced: "fst (getBook db (br_id book)) \<noteq> None \<or> unlisted db (br_id book) \<Longrightarrow>
    catalogStep fs fp sha lc db (snd (storeSyncedBook fp fs db book source))"
| step_metadata: "catalogStep fs fp sha lc db (snd (updateMetadata (\<lambda>d. d) db i metadata options))"
| step_remove: "catalogStep fs fp sha lc db (removeBook fs lc (\<lambda>d. d) db i)"
| step_replace: "catalogStep fs fp sha lc db (snd (replaceLogicalBookState (\<lambda>d. d) db bs ps rs covers))"

inductive_cases catalogStepE: "catalogStep fs fp sha lc db db'"

lemmas dbOk_operations = dbOk_associate dbOk_detach dbOk_deleteVariant dbOk_addVariant dbOk_preference dbOk_import
  dbOk_storeSynced dbOk_updateMetadata dbOk_removeBook dbOk_replace

lemma saveChecked_catalog:
  "s \<noteq> LOGICAL_BOOKS_STORE \<Longrightarrow> inCatalog (snd (saveChecked db s validator v)) db"
  using inCatalog_getters(1) [of db "strOf (getProp v ''bookId'')"]
  by (auto simp: saveChecked_def split_beta inCatalog_def idbGet_idbWrite split: option.splits)

lemma librarySave_catalog: "librarySave db db' \<Longrightarrow> inCatalog db' db"
  by (auto elim!: librarySave.cases
      simp: saveChecked_catalog saveProgress_def saveProgressDocument_def saveBookmark_def saveAnnotation_def)

lemma exclusiveCatalog_replaced:
  assumes "exclusiveCatalog db"
  shows "exclusiveCatalog (snd (replaceLogicalBookState (\<lambda>d. d) db bs ps rs covers))"
proof -
  obtain r db' where run: "replaceLogicalBookState (\<lambda>d. d) db bs ps rs covers = (r, db')" by fastforce
  show ?thesis
  proof (cases r)
    case (Inl e)
    have "db' = db \<or> db' = snd (checkBooks bs [] db)" using run Inl
      by (auto simp: replaceLogicalBookState_def split_beta split: if_splits sum.splits)
    then have "inCatalog db' db" using checkBooks_catalog [OF prod.collapse [symmetric], of bs "[]" db] by (auto simp: inCatalog_def)
    then show ?thesis using exclusiveCatalog_subset assms by (simp add: run)
  next
    case (Inr u)
    then show ?thesis using exclusiveCatalog_replace [of "\<lambda>d. d" db bs ps rs covers db'] run by simp
  qed
qed

lemma catalogStep_safe:
  assumes "catalogStep fs fp sha lc db db'" and "dbOk db" and "exclusiveCatalog db"
  shows "dbOk db' \<and> exclusiveCatalog db'"
  using assms
proof (induction rule: catalogStep.induct)
  case (step_read db db')
  then show ?case
    using libraryRead_onlyQuarantines onlyQuarantines_dbOk inCatalog_reads exclusiveCatalog_subset by blast
next
  case (step_save db db')
  then show ?case using librarySave_dbOk librarySave_catalog exclusiveCatalog_subset by blast
next
  case (step_associate db x y identity)
  then show ?case
    using dbOk_associate exclusiveCatalog_associate [of db "\<lambda>d. d" x y identity, OF _ _ prod.collapse [symmetric]] by simp
next
  case (step_detach db x i identity)
  then show ?case using dbOk_detach exclusiveCatalog_detach [OF _ prod.collapse [symmetric]] by blast
next
  case (step_delete db x t identity)
  then show ?case using dbOk_deleteVariant exclusiveCatalog_deleteVariant [OF _ prod.collapse [symmetric]] by blast
next
  case (step_add db x variant source path identity cover)
  then show ?case using dbOk_addVariant exclusiveCatalog_addVariant [OF _ _ prod.collapse [symmetric]] by blast
next
  case (step_import db source)
  then show ?case
    using dbOk_import exclusiveCatalog_import_known exclusiveCatalog_import_new by (metis not_None_eq prod.collapse)
next
  case (step_synced db book source)
  then show ?case using dbOk_storeSynced [of db fp fs book source] exclusiveCatalog_storeSynced [of db book fp fs source] by auto
qed (simp_all add: dbOk_operations exclusiveCatalog_preference exclusiveCatalog_updateMetadata exclusiveCatalog_removeBook
  exclusiveCatalog_replaced)



end
