(* ===== verification/Library_Health.thy ===== *)
theory Library_Health
  imports Catalog_Safety
begin

text \<open>
  What the library promises about the bytes of its publications: what is stored can be read back, a
  publication only opens when its bytes are the ones it was imported with, and an imported publication
  opens. Then what import, metadata updates and the addition of a format do not protect.
\<close>

section \<open>Stored bytes\<close>

text \<open>A file system that does not lie: a file of the written length holds the written bytes, and what was
  written can be opened.\<close>

definition honestFiles :: "FileSystem \<Rightarrow> bool" where
  "honestFiles fs \<longleftrightarrow> (\<forall>name content persisted. fs_written fs name content = Some persisted \<longrightarrow>
     length persisted = length content \<longrightarrow> persisted = content \<and> fs_readable fs name)"

lemma digestOf_book: "matchesSha256 ''sha256:'' i \<Longrightarrow> digestOf (JStr i) = Some (drop 7 i)"
  by (simp add: digestOf_def)

lemma saveBinary_cases:
  assumes "saveBinary fs db request = (Inr stored, db')"
  obtains (opfs) name persisted where "publicationFileName (pw_bookId request) (pw_format request) = Inr name" "fs_directory fs"
      "fs_written fs name (pw_blob request) = Some persisted" "length persisted = length (pw_blob request)"
      "stored = OpfsBinary (requestBase request) name" "db' = db\<lparr>db_files := mapSet name persisted (db_files db)\<rparr>"
  | (inline) "stored = IndexedDbBytes (requestBase request) (pw_blob request)"
  using assms by (auto simp: saveBinary_def writeOpfs_def split: sum.splits option.splits if_splits)

lemma saveBinary_base: "saveBinary fs db request = (Inr stored, db') \<Longrightarrow> binaryBase stored = requestBase request"
  by (erule saveBinary_cases) simp_all

lemma saveBinary_succeeds: "matchesSha256 ''sha256:'' (pw_bookId request) \<Longrightarrow> \<exists>stored db'. saveBinary fs db request = (Inr stored, db')"
  by (auto simp: saveBinary_def writeOpfs_def publicationFileName_def digestOf_book split: option.splits)

lemma openBinary_saved:
  assumes "honestFiles fs" and "saveBinary fs db request = (Inr stored, db')" and "db_files db'' = db_files db'"
  shows "openBinary fs db'' stored = Some (pw_blob request)"
  using assms(2)
proof (cases rule: saveBinary_cases)
  case (opfs name persisted)
  then have "persisted = pw_blob request" "fs_readable fs name" using assms(1) by (auto simp: honestFiles_def)
  then show ?thesis using opfs assms(3) by (simp add: openBinary_def requestBase_def mapGet_mapSet)
qed (simp add: openBinary_def requestBase_def)

text \<open>What is stored passes the validation it is read with.\<close>

lemma isSafeIntegerFrom_size:
  assumes "c \<noteq> []" and "int (length c) \<le> MAX_SAFE_INTEGER"
  shows "isSafeIntegerFrom 1 (JNum (blobSize c))"
proof -
  have "blobSize c = Fin (of_int (int (length c)))" by (simp add: blobSize_def)
  moreover have "1 \<le> int (length c)" using assms(1) by (cases c) simp_all
  ultimately show ?thesis unfolding isSafeIntegerFrom_iff by (intro exI [of _ "int (length c)"]) (use assms(2) in simp)
qed

lemma blobSize_bounds:
  assumes "\<exists>n. blobSize c = Fin (of_int n) \<and> 1 \<le> n \<and> n \<le> m"
  shows "c \<noteq> [] \<and> int (length c) \<le> m"
proof -
  obtain n where n: "rat_of_nat (length c) = rat_of_int n" "1 \<le> n" "n \<le> m" using assms by (auto simp: blobSize_def)
  then have "int (length c) = n" by (metis of_int_eq_iff of_int_of_nat_eq)
  then show ?thesis using n by auto
qed

lemma getProp_binaryFields:
  "k \<notin> {''schemaVersion'', ''storage'', ''bookId'', ''fileName'', ''mediaType'', ''size''} \<Longrightarrow>
     getProp (JObj (binaryFields storage base @ kvs)) k = getProp (JObj kvs) k"
  "getProp (JObj (binaryFields storage base @ kvs)) ''schemaVersion'' = JInt 2"
  "getProp (JObj (binaryFields storage base @ kvs)) ''storage'' = JStr storage"
  "getProp (JObj (binaryFields storage base @ kvs)) ''bookId'' = JStr (sb_bookId base)"
  "getProp (JObj (binaryFields storage base @ kvs)) ''fileName'' = JStr (sb_fileName base)"
  "getProp (JObj (binaryFields storage base @ kvs)) ''mediaType'' = JStr (sb_mediaType base)"
  "getProp (JObj (binaryFields storage base @ kvs)) ''size'' = JNum (sb_size base)"
  by (simp_all add: binaryFields_def)

lemma parse_saved:
  assumes "saveBinary fs db request = (Inr stored, db')" and "matchesSha256 ''sha256:'' (pw_bookId request)"
    and "isBoundedString (JStr (pw_fileName request)) 1024" and "isBoundedString (JStr (pw_mediaType request)) 1024"
    and "pw_blob request \<noteq> []" and "int (length (pw_blob request)) \<le> MAX_SAFE_INTEGER"
  shows "parseStoredPublicationBinary (binaryVal stored) = Some stored"
proof -
  note digest = digestOf_book [OF assms(2)]
  have base: "sb_bookId (requestBase request) = pw_bookId request" "sb_fileName (requestBase request) = pw_fileName request"
    "sb_mediaType (requestBase request) = pw_mediaType request" "sb_size (requestBase request) = blobSize (pw_blob request)"
    by (simp_all add: requestBase_def)
  have rebuild: "\<lparr>sb_bookId = pw_bookId request, sb_fileName = pw_fileName request, sb_mediaType = pw_mediaType request,
      sb_size = blobSize (pw_blob request)\<rparr> = requestBase request" by (simp add: requestBase_def)
  from assms(1) show ?thesis
  proof (cases rule: saveBinary_cases)
    case (opfs name persisted)
    then have "name = drop 7 (pw_bookId request) @ ''.epub'' \<or> name = drop 7 (pw_bookId request) @ ''.pdf''"
      by (cases "pw_format request") (simp_all add: publicationFileName_def digest formatString_def)
    then show ?thesis
      using opfs(5) assms(3,4) isSafeIntegerFrom_size [OF assms(5,6)]
      by (simp add: parseStoredPublicationBinary_def getProp_binaryFields base digest rebuild)
  next
    case inline
    then show ?thesis
      using assms(3,4) by (simp add: parseStoredPublicationBinary_def getProp_binaryFields base digest rebuild)
  qed
qed

section \<open>Opening a publication\<close>

lemma quarantineStored_gone:
  assumes "idbGet db BINARIES_STORE [i] = Some v"
  shows "idbGet (quarantineStoredBinary db i reason) BINARIES_STORE [i] = None"
    "quarantinedIn (quarantineStoredBinary db i reason) BINARIES_STORE [i] v"
  using assms by (auto simp: quarantineStoredBinary_def quarantineInvalidRecord_def idbGet_def delete_conv quarantinedIn_def)

lemma lookupVariant_found:
  assumes "lookupVariant db i = (Inr (book, stored), db')"
  shows "\<exists>v w. idbGet db BOOKS_STORE [i] = Some v \<and> isBookRecord v \<and> book = bookOf v \<and> br_id book = i \<and>
    idbGet db' BINARIES_STORE [i] = Some w \<and> parseStoredPublicationBinary w = Some stored"
proof -
  obtain b db1 where g: "getBook db i = (b, db1)" by fastforce
  then obtain v where v: "b = Some v" using assms by (cases b) (auto simp: lookupVariant_def)
  have "idbGet db BOOKS_STORE [i] = Some v" using g v by (auto simp: getBook_def readValidated_def split: option.splits if_splits)
  moreover have "isBookRecord v" "br_id (bookOf v) = i" using getBook_id [OF g [unfolded v]] by blast+
  moreover have "book = bookOf v" "\<exists>w. idbGet db' BINARIES_STORE [i] = Some w \<and> parseStoredPublicationBinary w = Some stored"
    using assms by (auto simp: lookupVariant_def g v split: option.splits if_splits)
  ultimately show ?thesis by blast
qed

text \<open>C18. A publication opens as healthy only with the exact bytes of its metadata: their size, their format by
  the first bytes, and their fingerprint. In every other case no bytes are handed out, and bytes with the
  wrong format or fingerprint leave the library for the quarantine.\<close>

theorem open_healthy_exact:
  assumes "openHealthyVariant fp fs db i = (Inr (availability, source), db')"
  shows "(\<forall>name mediaType blob. source = Some (name, mediaType, blob) \<longrightarrow> availability = Healthy \<and> fp blob = i \<and>
      (\<exists>v. idbGet db BOOKS_STORE [i] = Some v \<and> isBookRecord v \<and> blobSize blob = br_size (bookOf v) \<and>
         detectPublicationBlobFormat blob = Some (br_format (bookOf v)))) \<and>
    (source = None \<longleftrightarrow> availability \<noteq> Healthy) \<and>
    (availability \<in> {Quarantined IntegrityInvalid, Quarantined Unsupported} \<longrightarrow>
       idbGet db' BINARIES_STORE [i] = None \<and> (\<exists>w. quarantinedIn db' BINARIES_STORE [i] w))"
proof (cases "lookupVariant db i")
  case (Pair found db1)
  note eq = assms [unfolded openHealthyVariant_def Pair prod.case]
  show ?thesis
  proof (cases found)
    case (Inl a)
    have "a \<noteq> Healthy \<and> a \<noteq> Quarantined IntegrityInvalid \<and> a \<noteq> Quarantined Unsupported"
      using Pair Inl by (auto simp: lookupVariant_def split_beta split: option.splits if_splits)
    then show ?thesis using eq Inl by auto
  next
    case (Inr bs)
    obtain book stored where bs: "bs = (book, stored)" by fastforce
    obtain v w where v: "idbGet db BOOKS_STORE [i] = Some v" "isBookRecord v" "book = bookOf v" "br_id book = i"
      and w: "idbGet db1 BINARIES_STORE [i] = Some w"
      using lookupVariant_found [of db i book stored db1] Pair Inr bs by auto
    note q = quarantineStored_gone [OF w]
    note eq' = eq [unfolded Inr bs sum.case prod.case]
    show ?thesis
    proof (cases "openBinary fs db1 stored")
      case None
      then show ?thesis using eq' by (cases stored) auto
    next
      case (Some blob)
      note eqb = eq' [unfolded Some option.case]
      show ?thesis
      proof (cases "blobSize blob = br_size book \<and> detectPublicationBlobFormat blob = Some (br_format book) \<and> fp blob = i")
        case True
        then show ?thesis using eqb v by (auto split: prod.splits sum.splits)
      next
        case False
        then show ?thesis using eqb q v(4) by (auto split: if_splits)
      qed
    qed
  qed
qed

section \<open>Import\<close>

lemma recordKey_vals [simp]:
  "recordKey BOOKS_STORE (bookVal b) = [br_id b]" "recordKey BINARIES_STORE (binaryVal stored) = [sb_bookId (binaryBase stored)]"
  by (simp_all add: recordKey_def keyPath_def strOf_def) (cases stored; simp add: binaryFields_def)

lemma db_files_idbPut [simp]: "db_files (idbPut s v db) = db_files db"
  by (simp add: idbWrite_def)

lemma importBook_new:
  assumes "importBook fp fs db source = (Inr book, db')" and "fst (getBook db (fp (src_content source))) = None"
  obtains stored db1 db2 b where "getBook db (fp (src_content source)) = (None, db1)" "br_id book = fp (src_content source)" "br_size book = blobSize (src_content source)"
    "saveBinary fs db1 (writeRequest book (src_content source) (br_fileName book) (br_mediaType book)) = (Inr stored, db2)"
    "logicalBookFromVariant book (br_importedAt book) = Inr b"
    "db' = idbPut LOGICAL_BOOKS_STORE (logicalBookVal b) (idbPut BINARIES_STORE (binaryVal stored) (idbPut BOOKS_STORE (bookVal book) db2))"
proof -
  obtain db1 where g: "getBook db (fp (src_content source)) = (None, db1)" using assms(2) by (metis prod.collapse)
  note eq = assms(1) [unfolded importBook_def Let_def g prod.case option.case]
  obtain f where f: "detectPublicationFormat (src_name source) (src_mediaType source) = Some f"
    using eq by (auto split: option.splits)
  define rec where "rec = importedRecord (fp (src_content source)) f source (db_now db1)"
  obtain st db2 where st: "saveBinary fs db1 (writeRequest rec (src_content source) (br_fileName rec) (br_mediaType rec)) = (st, db2)"
    by fastforce
  note eq' = eq [unfolded f option.case, folded rec_def, unfolded st prod.case]
  obtain stored b where "st = Inr stored" "logicalBookFromVariant rec (br_importedAt rec) = Inr b" "book = rec"
    "db' = idbPut LOGICAL_BOOKS_STORE (logicalBookVal b) (idbPut BINARIES_STORE (binaryVal stored) (idbPut BOOKS_STORE (bookVal rec) db2))"
    using eq' by (auto split: sum.splits)
  moreover have "br_id rec = fp (src_content source)" "br_size rec = blobSize (src_content source)"
    by (simp_all add: rec_def importedRecord_def)
  ultimately show ?thesis using st g by (intro that) auto
qed

lemma migrateBinary_ok:
  "matchesSha256 ''sha256:'' (sb_bookId (binaryBase stored)) \<Longrightarrow> \<exists>migrated db'. migrateBinary fs db stored format = (Inr migrated, db')"
  by (cases stored) (auto simp: migrateBinary_def writeOpfs_def publicationFileName_def digestOf_book Let_def split: option.splits)


lemma importBook_succeeds:
  assumes "fst (getBook db (fp (src_content source))) = None" and "matchesSha256 ''sha256:'' (fp (src_content source))"
    and "detectPublicationFormat (src_name source) (src_mediaType source) = Some f"
  shows "\<exists>db'. importBook fp fs db source = (Inr (importedRecord (fp (src_content source)) f source (db_now db)), db')"
proof -
  obtain db1 where g: "getBook db (fp (src_content source)) = (None, db1)" using assms(1) by (metis prod.collapse)
  have now: "db_now db1 = db_now db"
    using g by (auto simp: getBook_def readValidated_def quarantineInvalidRecord_def split: option.splits if_splits)
  let ?rec = "importedRecord (fp (src_content source)) f source (db_now db)"
  have id: "br_id ?rec = fp (src_content source)" by (simp add: importedRecord_def)
  obtain stored db2 where st: "saveBinary fs db1 (writeRequest ?rec (src_content source) (br_fileName ?rec) (br_mediaType ?rec)) = (Inr stored, db2)"
    using saveBinary_succeeds [of "writeRequest ?rec (src_content source) (br_fileName ?rec) (br_mediaType ?rec)" fs db1] assms(2) id
    by (auto simp: writeRequest_def)
  obtain b where "logicalBookFromVariant ?rec (br_importedAt ?rec) = Inr b"
    using assms(2) id by (auto simp: logicalBookFromVariant_def singletonLogicalBookId_def isVariantId_def)
  then have "importBook fp fs db source = (Inr ?rec, idbPut LOGICAL_BOOKS_STORE (logicalBookVal b)
      (idbPut BINARIES_STORE (binaryVal stored) (idbPut BOOKS_STORE (bookVal ?rec) db2)))"
    using g assms(3) st now by (simp add: importBook_def Let_def)
  then show ?thesis by blast
qed

section \<open>What is not protected\<close>

lemma idbGet_getBook_other: "k \<noteq> [i] \<Longrightarrow> idbGet (snd (getBook db i)) s k = idbGet db s k"
  by (simp add: getBook_def readValidated_def quarantineInvalidRecord_def idbGet_def delete_conv split: option.splits)

text \<open>C38. An import can take another publication out of the catalog: when the logical book named after the imported
  bytes lists another publication (which happens after the publication it was named after was detached
  and deleted), the import overwrites that book, and the other publication is left in the library
  without a logical book.\<close>

theorem import_can_orphan:
  assumes "exclusiveCatalog db" and "importBook fp fs db source = (Inr book, db')"
    and "fst (getBook db (fp (src_content source))) = None"
    and "singletonLogicalBookId (fp (src_content source)) = Inr x" and "idbGet db LOGICAL_BOOKS_STORE [x] = Some v"
    and "j \<in> memberIds v" and "j \<noteq> fp (src_content source)"
  shows "(\<forall>k w. idbGet db' LOGICAL_BOOKS_STORE k = Some w \<longrightarrow> j \<notin> memberIds w) \<and>
    idbGet db' BOOKS_STORE [j] = idbGet db BOOKS_STORE [j]"
proof -
  let ?i = "fp (src_content source)" and ?req = "writeRequest book (src_content source) (br_fileName book) (br_mediaType book)"
  obtain stored db1 db2 b where g: "getBook db ?i = (None, db1)" and id: "br_id book = ?i"
    and st: "saveBinary fs db1 ?req = (Inr stored, db2)" and b: "logicalBookFromVariant book (br_importedAt book) = Inr b"
    and db': "db' = idbPut LOGICAL_BOOKS_STORE (logicalBookVal b) (idbPut BINARIES_STORE (binaryVal stored) (idbPut BOOKS_STORE (bookVal book) db2))"
    using importBook_new [OF assms(2,3)] by metis
  have get2: "idbGet db2 s k = idbGet (snd (getBook db ?i)) s k" for s k
    using saveBinary_idbGet [of fs db1 ?req s k] by (simp add: g st)
  have x: "lb_id b = x" using b assms(4) id by (auto simp: logicalBookFromVariant_def)
  have "j \<notin> memberIds w" if w: "idbGet db' LOGICAL_BOOKS_STORE k = Some w" for k w
  proof (cases "k = [x]")
    case True
    then have "memberIds w \<subseteq> {?i}"
      using w memberIds_logicalBookVal [of b] fromVariant_variants [OF b] id by (simp add: db' idbGet_idbWrite x)
    then show ?thesis using assms(7) by blast
  next
    case False
    then have "idbGet db LOGICAL_BOOKS_STORE k = Some w"
      using w by (simp add: db' idbGet_idbWrite x get2 idbGet_getBook)
    then show ?thesis using False assms(1,5,6) unfolding exclusiveCatalog_def by blast
  qed
  moreover have "idbGet db' BOOKS_STORE [j] = idbGet db BOOKS_STORE [j]"
    using idbGet_getBook_other [of "[j]" ?i db BOOKS_STORE] assms(7) by (simp add: db' idbGet_idbWrite id get2)
  ultimately show ?thesis by blast
qed

text \<open>A metadata update is not validated: an author longer than the 512 characters that the guard of the
  records allows is stored, and the next read moves the whole publication to the quarantine.\<close>

theorem metadata_update_can_lose_book:
  assumes "fst (getBook db i) \<noteq> None" and "a \<in> set (pm_authors metadata)" and "512 < length a"
  shows "let db' = snd (updateMetadata (\<lambda>d. d) db i metadata options) in
    fst (getBook db' i) = None \<and> (\<exists>v. quarantinedIn (snd (getBook db' i)) BOOKS_STORE [i] v)"
proof -
  obtain v db1 where g: "getBook db i = (Some v, db1)" using assms(1) by (cases "getBook db i") auto
  obtain w db2 where g2: "findLogicalBookByVariant db1 i = (w, db2)" by fastforce
  define up where "up = updatedRecord (bookOf v) metadata options (db_now db2)"
  let ?db' = "snd (updateMetadata (\<lambda>d. d) db i metadata options)"
  have id: "br_id up = i" using getBook_id [OF g] by (simp add: up_def updatedRecord_def)
  have get: "idbGet ?db' BOOKS_STORE [i] = Some (bookVal up)"
    by (auto simp: updateMetadata_def g g2 Let_def idbGet_idbWrite id up_def [symmetric] split: option.splits)
  have "\<not> isBookRecord (bookVal up)" using assms(2,3) by (auto simp: isBookRecord_iff up_def updatedRecord_def not_le)
  then have "getBook ?db' i = (None, quarantineInvalidRecord ?db' BOOKS_STORE [i] (\<lambda>v. isBookRecord v \<and> getProp v ''id'' = JStr i)
      ''Book metadata failed identity or schema validation'')" and q: "\<not> (isBookRecord (bookVal up) \<and> getProp (bookVal up) ''id'' = JStr i)"
    by (simp_all add: getBook_def readValidated_def get)
  then show ?thesis by (auto simp: Let_def quarantineInvalidRecord_def get quarantinedIn_def)
qed

definition longAuthor :: PublicationMetadata where
  "longAuthor = \<lparr>pm_title = ''A book'', pm_authors = [replicate 513 (CHR ''x'')], pm_language = None, pm_publisher = None,
     pm_identifier = None, pm_cover = None\<rparr>"

theorem metadata_update_can_lose_book_witness:
  "let db' = snd (updateMetadata (\<lambda>d. d) twoBooksDb (br_id sampleBook) longAuthor \<lparr>mo_markOpened = False, mo_markCoverUnavailable = False\<rparr>) in
   fst (getBook twoBooksDb (br_id sampleBook)) \<noteq> None \<and> fst (getBook db' (br_id sampleBook)) = None"
proof -
  have "fst (getBook twoBooksDb (br_id sampleBook)) \<noteq> None" by code_simp
  then show ?thesis
    using metadata_update_can_lose_book [of twoBooksDb "br_id sampleBook" "replicate 513 (CHR ''x'')" longAuthor]
    by (simp add: longAuthor_def Let_def)
qed

text \<open>Adding a format that is refused at the commit removes the staged file even when another operation
  stored the same publication in the meantime: both use the file named after the fingerprint, so the stored
  publication can no longer be opened.\<close>

theorem refused_add_removes_file:
  assumes "addVariant fp fs between db x variant source path identity cover = (Inl e, db')"
    and "e = MembershipChanged \<or> e = ConstraintError" and "fs_directory fs"
    and "publicationFileName (br_id variant) (br_format variant) = Inr name"
    and "\<forall>c. fs_written fs name c = Some c"
  shows "map_of (db_files db') name = None \<and> (\<forall>base. openBinary fs db' (OpfsBinary base name) = None)"
proof -
  have saved: "fst (saveBinary fs d (writeRequest variant blob n t)) = Inr (OpfsBinary (requestBase (writeRequest variant blob n t)) name)" for d blob n t
    using assms(3-5) by (simp add: saveBinary_def writeOpfs_def writeRequest_def)
  have "\<exists>d base. db' = removeBinary fs (OpfsBinary base name) d"
  proof -
    obtain dv db1 where g1: "getLogicalBook db x = (dv, db1)" by fastforce
    obtain w db2 where g2: "findLogicalBookByVariant db1 (br_id variant) = (w, db2)" by fastforce
    let ?req = "writeRequest variant (src_content source) (br_fileName variant) (br_mediaType variant)"
    obtain db3 where g3: "saveBinary fs db2 ?req = (Inr (OpfsBinary (requestBase ?req) name), db3)" using saved by (metis prod.collapse)
    show ?thesis
      using assms(1,2) unfolding addVariant_def Let_def g1 prod.case
      by (auto simp: g2 g3 split: if_splits option.splits)
  qed
  then have "map_of (db_files db') name = None" using assms(3) by (auto simp: removeBinary_def delete_conv)
  then show ?thesis by (simp add: openBinary_def)
qed

text \<open>Examples: a library in which the book named after one publication lists another one, and the import
  of the publication it is named after.\<close>

definition strandedId :: string where
  "strandedId = ''sha256:'' @ replicate 64 (CHR ''e'')"

definition strandedBook :: LogicalBookRecord where
  "strandedBook = epubBook\<lparr>lb_id := ''logical:'' @ strandedId, lb_variants := [(Pdf, br_id pdfVariant)]\<rparr>"

definition strandedDb :: LibraryDb where
  "strandedDb = idbPut LOGICAL_BOOKS_STORE (logicalBookVal strandedBook) (idbPut BOOKS_STORE (bookVal pdfVariant) exampleDb)"

definition epubSource :: BookSource where
  "epubSource = \<lparr>src_name = ''Book.epub'', src_mediaType = [], src_size = Fin 6,
     src_content = [CHR 0x50, CHR 0x4B, CHR 0x03, CHR 0x04, CHR 0x14, CHR 0x00]\<rparr>"

definition allFiles :: FileSystem where
  "allFiles = \<lparr>fs_directory = True, fs_written = (\<lambda>_ c. Some c), fs_readable = (\<lambda>_. True)\<rparr>"

lemma strandedDb_exclusive: "exclusiveCatalog strandedDb"
proof -
  have "idbGet exampleDb LOGICAL_BOOKS_STORE k = None" for k by (simp add: idbGet_def exampleDb_def)
  then have "exclusiveCatalog (idbPut BOOKS_STORE (bookVal pdfVariant) exampleDb)"
    by (simp add: exclusiveCatalog_def idbGet_idbWrite)
  then show ?thesis unfolding strandedDb_def
    by (rule exclusiveCatalog_put) (simp add: idbGet_idbWrite \<open>\<And>k. idbGet exampleDb LOGICAL_BOOKS_STORE k = None\<close>)
qed

lemma strandedImport:
  obtains db' where "importBook (\<lambda>_. strandedId) allFiles strandedDb epubSource =
    (Inr (importedRecord strandedId Epub epubSource (db_now strandedDb)), db')"
proof -
  have "fst (getBook strandedDb strandedId) = None" "matchesSha256 ''sha256:'' strandedId"
    "detectPublicationFormat (src_name epubSource) (src_mediaType epubSource) = Some Epub"
    by code_simp+
  then show ?thesis using importBook_succeeds [of strandedDb "\<lambda>_. strandedId" epubSource Epub allFiles] that by blast
qed

theorem import_can_orphan_witness:
  "br_id pdfVariant \<in> memberIds (logicalBookVal strandedBook) \<and>
   (\<nexists>k w. idbGet (snd (importBook (\<lambda>_. strandedId) allFiles strandedDb epubSource)) LOGICAL_BOOKS_STORE k = Some w \<and>
      br_id pdfVariant \<in> memberIds w)"
proof (rule strandedImport)
  fix db'
  assume run: "importBook (\<lambda>_. strandedId) allFiles strandedDb epubSource =
    (Inr (importedRecord strandedId Epub epubSource (db_now strandedDb)), db')"
  have fresh: "fst (getBook strandedDb strandedId) = None" by code_simp
  have other: "br_id pdfVariant \<noteq> strandedId" by code_simp
  have "getProp (getProp (logicalBookVal strandedBook) ''variants'') (formatString Pdf) = JStr (br_id pdfVariant)" by code_simp
  then have mem: "br_id pdfVariant \<in> memberIds (logicalBookVal strandedBook)" unfolding memberIds_def by blast
  have canonical: "singletonLogicalBookId strandedId = Inr (lb_id strandedBook)" by code_simp
  have get: "idbGet strandedDb LOGICAL_BOOKS_STORE [lb_id strandedBook] = Some (logicalBookVal strandedBook)"
    by (simp add: strandedDb_def idbGet_idbWrite)
  show ?thesis
    using import_can_orphan [OF strandedDb_exclusive run fresh canonical get mem other] mem by (simp add: run)
qed


definition epubRecord :: BookRecord where
  "epubRecord = importedRecord strandedId Epub epubSource (db_now exampleDb)"

definition healthyDb :: LibraryDb where
  "healthyDb = idbPut BINARIES_STORE (binaryVal (restoredBinary (epubRecord, src_content epubSource)))
     (idbPut BOOKS_STORE (bookVal epubRecord) exampleDb)"

theorem open_healthy_exact_witness:
  "let r = openHealthyVariant (\<lambda>_. strandedId) noFiles healthyDb strandedId in
   fst r = Inr (Healthy, Some (''Book.epub'', ''application/epub+zip'', src_content epubSource)) \<and>
   (\<exists>v. idbGet healthyDb BOOKS_STORE [strandedId] = Some v \<and> isBookRecord v \<and> blobSize (src_content epubSource) = br_size (bookOf v))"
proof -
  let ?r = "openHealthyVariant (\<lambda>_. strandedId) noFiles healthyDb strandedId"
  have "fst ?r = Inr (Healthy, Some (''Book.epub'', ''application/epub+zip'', src_content epubSource))" by code_simp
  then have run: "?r = (Inr (Healthy, Some (''Book.epub'', ''application/epub+zip'', src_content epubSource)), snd ?r)"
    by (metis prod.collapse)
  show ?thesis unfolding Let_def
    using open_healthy_exact [OF run] \<open>fst ?r = _\<close> by blast
qed

theorem refused_add_removes_file_witness:
  "let r = addVariant (\<lambda>_. strandedId) allFiles (idbPut BOOKS_STORE (bookVal epubRecord)) strandedDb (lb_id strandedBook) epubRecord
       epubSource ''object'' exampleIdentity None in
   fst r = Inl ConstraintError \<and> map_of (db_files (snd r)) (replicate 64 (CHR ''e'') @ ''.epub'') = None"
proof -
  let ?r = "addVariant (\<lambda>_. strandedId) allFiles (idbPut BOOKS_STORE (bookVal epubRecord)) strandedDb (lb_id strandedBook) epubRecord
    epubSource ''object'' exampleIdentity None"
  have e: "fst ?r = Inl ConstraintError" by code_simp
  then have run: "?r = (Inl ConstraintError, snd ?r)" by (metis prod.collapse)
  have name: "publicationFileName (br_id epubRecord) (br_format epubRecord) = Inr (replicate 64 (CHR ''e'') @ ''.epub'')" by code_simp
  show ?thesis unfolding Let_def
    using refused_add_removes_file [OF run _ _ name] e by (simp add: allFiles_def)
qed

section \<open>Reconciliation\<close>

lemma isLogicalBookChange_books: "2 < length (chg_resultingBooks c) \<Longrightarrow> \<not> isLogicalBookChange (changeVal c)"
  by (simp add: isLogicalBookChange_def isBoundedArray_def changeVal_def)

lemma validatedEntries_valid: "v \<in> set (fst (validatedEntries db s es validator reason)) \<Longrightarrow> validator v"
proof -
  have "\<forall>v \<in> set (fst (foldl (\<lambda>(valid, db) (k, v).
         if validator v then (valid @ [v], db) else (valid, quarantineInvalidRecord db s k validator reason)) (acc, db) es)). validator v"
    if "\<forall>v \<in> set acc. validator v" for acc
    using that
  proof (induction es arbitrary: acc db)
    case (Cons e es)
    obtain k w where e: "e = (k, w)" by fastforce
    show ?case
    proof (cases "validator w")
      case True
      then have "\<forall>v \<in> set (acc @ [w]). validator v" using Cons.prems by auto
      then show ?thesis unfolding e foldl_Cons prod.case if_P [OF True] by (rule Cons.IH)
    next
      case False
      show ?thesis unfolding e foldl_Cons prod.case if_not_P [OF False] by (rule Cons.IH [OF Cons.prems])
    qed
  qed simp
  note loop = this [of "[]"]
  have "\<forall>v \<in> set (fst (validatedEntries db s es validator reason)). validator v"
    unfolding validatedEntries_def by (rule loop) simp
  moreover assume "v \<in> set (fst (validatedEntries db s es validator reason))"
  ultimately show "validator v" by (rule bspec)
qed

lemma pending_valid: "v \<in> set (fst (listPendingLogicalBookChanges lc db)) \<Longrightarrow> isLogicalBookChange v"
  by (auto simp: listPendingLogicalBookChanges_def readAllValidated_def split_beta dest: validatedEntries_valid)

lemma reconcile_outbox:
  assumes "reconcileMembership lc sha between db conflictId decision identity = (Inr m, db')"
  obtains change d where "db' = idbPut LOGICAL_BOOK_CHANGE_OUTBOX_STORE (changeVal change) d" "mres_change m = change"
    "mres_resultingBooks m = chg_resultingBooks change" "chg_changeId change = mi_changeId identity"
proof -
  obtain rawVal where raw: "idbGet db LOGICAL_BOOK_RECONCILIATIONS_STORE [conflictId] = Some rawVal"
    and opn: "\<not> (\<not> isMembershipReconciliation rawVal \<or> getProp rawVal ''status'' \<noteq> JStr ''open'')"
    using assms by (auto simp: reconcileMembership_def split: option.splits if_splits)
  obtain vals db1 where l: "listLogicalBooks lc db = (vals, db1)" by fastforce
  obtain sel db2 where s: "selectMemberships sha identity decision (reconciliationOf rawVal) (mapBy lb_id (map logicalBookOf vals), db1) = (sel, db2)"
    by fastforce
  note eq = assms [unfolded reconcileMembership_def Let_def raw option.case if_not_P [OF opn] l prod.case s]
  obtain selected books where sel: "sel = Inr (selected, books)" using eq by (cases sel) auto
  obtain pl db3 where p: "placeMemberships identity selected
      (foldl (stripVariant identity) books (mr_affectedVariantIds (reconciliationOf rawVal)), db2) = (pl, db3)" by fastforce
  note eq' = eq [unfolded sel sum.case prod.case p]
  obtain books' where pl: "pl = Inr books'" using eq' by (cases pl) auto
  note eq'' = eq' [unfolded pl sum.case, unfolded prod.inject sum.inject(2)]
  show ?thesis
    by (rule that [OF eq'' [THEN conjunct2, symmetric]]) (simp_all add: eq'' [THEN conjunct1, symmetric] mutationResult_def logicalChange_def)
qed

text \<open>A reconciliation records every logical book of the library in its change, but a change may carry at
  most two: in a library with three books or more the recorded change fails its own guard, so the next read
  of the outbox moves it to the quarantine and the decision is never synchronized.\<close>

theorem reconcile_change_rejected:
  assumes "reconcileMembership lc sha between db conflictId decision identity = (Inr m, db')"
    and "2 < length (mres_resultingBooks m)"
  shows "\<exists>v. idbGet db' LOGICAL_BOOK_CHANGE_OUTBOX_STORE [mi_changeId identity] = Some v \<and> \<not> isLogicalBookChange v \<and>
    v \<notin> set (fst (listPendingLogicalBookChanges lc db'))"
proof -
  from assms(1) obtain change d where m: "db' = idbPut LOGICAL_BOOK_CHANGE_OUTBOX_STORE (changeVal change) d"
    "mres_resultingBooks m = chg_resultingBooks change" "chg_changeId change = mi_changeId identity"
    by (rule reconcile_outbox)
  have "\<not> isLogicalBookChange (changeVal change)" using isLogicalBookChange_books assms(2) m(2) by simp
  moreover have "idbGet db' LOGICAL_BOOK_CHANGE_OUTBOX_STORE [mi_changeId identity] = Some (changeVal change)"
    by (simp add: m idbGet_idbWrite recordKey_def keyPath_def strOf_def changeVal_def)
  ultimately show ?thesis using pending_valid by blast
qed

definition openConflict :: MembershipReconciliation where
  "openConflict = \<lparr>mr_conflictId = ''conflict:1'', mr_status = ReconciliationOpen, mr_conflictingChangeIds = [''change:a'', ''change:b''],
     mr_affectedVariantIds = [br_id sampleBook],
     mr_acceptedMembership = [\<lparr>mt_logicalBookId = lb_id epubBook, mt_format = Epub, mt_variantId = br_id sampleBook\<rparr>],
     mr_rejectedMembership = [\<lparr>mt_logicalBookId = lb_id pdfBook2, mt_format = Epub, mt_variantId = br_id sampleBook\<rparr>],
     mr_resolvedByChangeId = None, mr_detectedAt = ''2024-05-02T10:00:00.000Z''\<rparr>"

definition conflictDb :: LibraryDb where
  "conflictDb = idbPut LOGICAL_BOOK_RECONCILIATIONS_STORE (reconciliationVal openConflict)
     (idbPut LOGICAL_BOOKS_STORE (logicalBookVal (singletonBook epubRecord)) twoBooksDb)"

theorem reconcile_change_rejected_witness:
  "let db' = snd (reconcileMembership codeUnitCompare id (\<lambda>d. d) conflictDb ''conflict:1'' KeepAccepted exampleIdentity) in
   \<exists>v. idbGet db' LOGICAL_BOOK_CHANGE_OUTBOX_STORE [''change:1''] = Some v \<and> v \<notin> set (fst (listPendingLogicalBookChanges codeUnitCompare db'))"
proof -
  let ?r = "reconcileMembership codeUnitCompare id (\<lambda>d. d) conflictDb ''conflict:1'' KeepAccepted exampleIdentity"
  have "case fst ?r of Inr m \<Rightarrow> length (mres_resultingBooks m) = 3 | Inl _ \<Rightarrow> False" by code_simp
  then obtain m where m: "?r = (Inr m, snd ?r)" "2 < length (mres_resultingBooks m)"
    by (cases "fst ?r") (auto simp: prod_eq_iff)
  have "mi_changeId exampleIdentity = ''change:1''" by (simp add: exampleIdentity_def)
  then show ?thesis unfolding Let_def using reconcile_change_rejected [OF m] by auto
qed

end
