(* ===== verification/JSON_Text.thy ===== *)
theory JSON_Text
  imports Logical_Change
begin

text \<open>
  \<open>JSON.parse\<close> on the texts of the model: the grammar of JSON with its white space, literals, numbers,
  strings with escapes, arrays and objects. A repeated key keeps its first place and takes the last
  value. An escape above \<open>\u00FF\<close> denotes a code unit the model has no character for; such a text is
  not parsed here. The recursion is bounded by the length of the text, which every nested value
  shortens.
\<close>

definition isJsonSpace :: "char \<Rightarrow> bool" where
  "isJsonSpace c = (c = CHR '' '' \<or> c = CHR 0x09 \<or> c = CHR 0x0A \<or> c = CHR 0x0D)"

definition skipSpace :: "string \<Rightarrow> string" where
  "skipSpace s = dropWhile isJsonSpace s"

definition jsonEscape :: "char \<Rightarrow> char option" where
  "jsonEscape c =
     (if c = CHR 0x22 \<or> c = CHR 0x5C \<or> c = CHR ''/'' then Some c
      else if c = CHR ''b'' then Some (CHR 0x08)
      else if c = CHR ''f'' then Some (CHR 0x0C)
      else if c = CHR ''n'' then Some (CHR 0x0A)
      else if c = CHR ''r'' then Some (CHR 0x0D)
      else if c = CHR ''t'' then Some (CHR 0x09)
      else None)"

text \<open>The characters of a string after its opening quote, and the text after the closing one.\<close>

fun parseChars :: "string \<Rightarrow> (string \<times> string) option" where
  "parseChars [] = None"
| "parseChars (c # s) =
     (if c = CHR 0x22 then Some ([], s)
      else if c = CHR 0x5C then
        (case s of
           [] \<Rightarrow> None
         | e # s' \<Rightarrow>
             if e = CHR ''u'' then
               (case s' of
                  a # b # d # f # s'' \<Rightarrow>
                    (case (radixDigit 16 a, radixDigit 16 b, radixDigit 16 d, radixDigit 16 f) of
                       (Some 0, Some 0, Some x, Some y) \<Rightarrow>
                         map_option (\<lambda>(t, r). (char_of (16 * x + y) # t, r)) (parseChars s'')
                     | _ \<Rightarrow> None)
                | _ \<Rightarrow> None)
             else
               (case jsonEscape e of
                  None \<Rightarrow> None
                | Some x \<Rightarrow> map_option (\<lambda>(t, r). (x # t, r)) (parseChars s')))
      else if (of_char c :: int) < 32 then None
      else map_option (\<lambda>(t, r). (c # t, r)) (parseChars s))"

definition isNumberChar :: "char \<Rightarrow> bool" where
  "isNumberChar c = (isDigit c \<or> c \<in> set ''+-.eE'')"

text \<open>A number without sign: no superfluous leading zero, digits on both sides of a point.\<close>

definition jsonNumber :: "string \<Rightarrow> jsnum option" where
  "jsonNumber s =
     (let neg = (s \<noteq> [] \<and> hd s = CHR ''-''); t = (if neg then tl s else s);
          ip = takeWhile isDigit t; r = dropWhile isDigit t;
          dot = (r \<noteq> [] \<and> hd r = CHR ''.'')
      in if ip = [] \<or> (length ip > 1 \<and> hd ip = CHR ''0'') \<or> (dot \<and> takeWhile isDigit (tl r) = []) then None
         else map_option (\<lambda>q.
           if overflowLimit \<le> q then (if neg then NegInf else PosInf) else Fin (if neg then - q else q))
           (readDecimal t))"

text \<open>The three mutually recursive readers, with a bound on the depth.\<close>

fun parseValue :: "nat \<Rightarrow> string \<Rightarrow> (jsval \<times> string) option"
  and parseElements :: "nat \<Rightarrow> string \<Rightarrow> (jsval list \<times> string) option"
  and parseMembers :: "nat \<Rightarrow> (string \<times> jsval) list \<Rightarrow> string \<Rightarrow> ((string \<times> jsval) list \<times> string) option" where
  "parseValue 0 s = None"
| "parseValue (Suc n) s =
     (case skipSpace s of
        [] \<Rightarrow> None
      | c # r \<Rightarrow>
          if c = CHR 0x22 then map_option (\<lambda>(t, u). (JStr t, u)) (parseChars r)
          else if c = CHR ''['' then
            (if startsWith (skipSpace r) '']'' then Some (JArr [], tl (skipSpace r))
             else map_option (\<lambda>(vs, u). (JArr vs, u)) (parseElements n r))
          else if c = CHR ''{'' then
            (if startsWith (skipSpace r) ''}'' then Some (JObj [], tl (skipSpace r))
             else map_option (\<lambda>(kvs, u). (JObj kvs, u)) (parseMembers n [] r))
          else if startsWith (c # r) ''null'' then Some (JNull, drop 4 (c # r))
          else if startsWith (c # r) ''true'' then Some (JBool True, drop 4 (c # r))
          else if startsWith (c # r) ''false'' then Some (JBool False, drop 5 (c # r))
          else map_option (\<lambda>x. (JNum x, dropWhile isNumberChar (c # r))) (jsonNumber (takeWhile isNumberChar (c # r))))"
| "parseElements 0 s = None"
| "parseElements (Suc n) s =
     (case parseValue n s of
        None \<Rightarrow> None
      | Some (v, r) \<Rightarrow>
          (case skipSpace r of
             [] \<Rightarrow> None
           | c # u \<Rightarrow>
               if c = CHR '']'' then Some ([v], u)
               else if c = CHR '','' then map_option (\<lambda>(vs, w). (v # vs, w)) (parseElements n u)
               else None))"
| "parseMembers 0 acc s = None"
| "parseMembers (Suc n) acc s =
     (case skipSpace s of
        [] \<Rightarrow> None
      | q # k \<Rightarrow>
          if q \<noteq> CHR 0x22 then None
          else case parseChars k of
            None \<Rightarrow> None
          | Some (key, r) \<Rightarrow>
              (case skipSpace r of
                 [] \<Rightarrow> None
               | col # t \<Rightarrow>
                   if col \<noteq> CHR '':'' then None
                   else case parseValue n t of
                     None \<Rightarrow> None
                   | Some (v, u) \<Rightarrow>
                       (case skipSpace u of
                          [] \<Rightarrow> None
                        | c # w \<Rightarrow>
                            if c = CHR ''}'' then Some (mapSet key v acc, w)
                            else if c = CHR '','' then parseMembers n (mapSet key v acc) w
                            else None)))"

definition parseJson :: "string \<Rightarrow> jsval option" where
  "parseJson s =
     (case parseValue (length s + 1) s of
        Some (v, r) \<Rightarrow> if skipSpace r = [] then Some v else None
      | None \<Rightarrow> None)"

lemma parseJson_example:
  "parseJson ''{\"a\": [1, -2.5e1, true], \"b\":{}}'' =
     Some (JObj [(''a'', JArr [JInt 1, JInt (-25), JBool True]), (''b'', JObj [])])"
  by code_simp

end
