(* ===== verification/Preference_Store.thy ===== *)
theory Preference_Store
  imports Preference_State Library_Catalog
begin

text \<open>
  Reader preferences in \<open>libs/library/data-access/src/lib/browser-library-repository.ts\<close>: saving them, recording a
  change per field in the outbox with a revision above every revision the database knows, and the
  synchronized state of each destination.
\<close>

section \<open>Typed views of stored records\<close>

definition intOf :: "jsval \<Rightarrow> int" where
  "intOf v = (case v of JNum (Fin q) \<Rightarrow> \<lfloor>q\<rfloor> | _ \<Rightarrow> 0)"

definition registerOf :: "jsval \<Rightarrow> ReaderPreferenceRegister" where
  "registerOf v = \<lparr>reg_value = getProp v ''value'', reg_revision = intOf (getProp v ''revision''),
     reg_deviceId = strOf (getProp v ''deviceId''), reg_changeId = strOf (getProp v ''changeId'')\<rparr>"

definition preferenceChangeOf :: "jsval \<Rightarrow> ReaderPreferenceChange" where
  "preferenceChangeOf v = \<lparr>ch_format = formatOf (getProp v ''format''), ch_field = strOf (getProp v ''field''),
     ch_register = registerOf (getProp v ''register'')\<rparr>"

definition sectionOf :: "jsval \<Rightarrow> ReaderPreferenceRegisters" where
  "sectionOf v = map (\<lambda>(k, r). (k, registerOf r)) (objectEntries v)"

definition preferenceStateOf :: "jsval \<Rightarrow> ReaderPreferenceSyncState" where
  "preferenceStateOf v = \<lparr>st_epub = sectionOf (getProp v ''epub''), st_pdf = sectionOf (getProp v ''pdf'')\<rparr>"

definition metadataOf :: "jsval \<Rightarrow> ReaderPreferenceSyncMetadata" where
  "metadataOf v = \<lparr>md_destinationId = strOf (getProp v ''destinationId''),
     md_baseline = (if getProp v ''baseline'' = JStr ''remote'' then BaselineRemote else BaselineSeeded),
     md_state = preferenceStateOf (getProp v ''state'')\<rparr>"

definition metadataVal :: "ReaderPreferenceSyncMetadata \<Rightarrow> jsval" where
  "metadataVal m = JObj [(''schemaVersion'', JInt 1), (''destinationId'', JStr (md_destinationId m)),
     (''baseline'', JStr (case md_baseline m of BaselineRemote \<Rightarrow> ''remote'' | BaselineSeeded \<Rightarrow> ''seeded'')),
     (''state'', preferenceStateVal (md_state m))]"

section \<open>Operations\<close>

datatype PreferenceStoreError =
  InvalidPreferences | InvalidPreferenceChange | InvalidPreferenceUpdate | InvalidPreferenceMetadata | RevisionExhausted | InvalidChangeId

definition saveReaderPreferences :: "LibraryDb \<Rightarrow> ReaderPreferences \<Rightarrow> (PreferenceStoreError + unit) \<times> LibraryDb" where
  "saveReaderPreferences db preferences =
     (if \<not> isReaderPreferences (preferencesVal preferences) then (Inl InvalidPreferences, db)
      else (Inr (), idbPut PREFERENCES_STORE (preferencesVal preferences) db))"

definition saveReaderPreferencesWithChange ::
  "LibraryDb \<Rightarrow> ReaderPreferences \<Rightarrow> ReaderPreferenceChange \<Rightarrow> (PreferenceStoreError + unit) \<times> LibraryDb" where
  "saveReaderPreferencesWithChange db preferences change =
     (if \<not> isReaderPreferences (preferencesVal preferences) \<or> \<not> isReaderPreferenceChange (preferenceChangeVal change) \<or>
         \<not> readerPreferenceChangeMatches preferences change
      then (Inl InvalidPreferenceChange, db)
      else (Inr (), idbPut READER_PREFERENCE_CHANGE_OUTBOX_STORE (preferenceChangeVal change)
             (idbPut PREFERENCES_STORE (preferencesVal preferences) db)))"

definition stateSection :: "PublicationFormat \<Rightarrow> ReaderPreferenceSyncState \<Rightarrow> ReaderPreferenceRegisters" where
  "stateSection format state = (if format = Epub then st_epub state else st_pdf state)"

definition nextPreferenceRevision ::
  "PublicationFormat \<Rightarrow> string \<Rightarrow> ReaderPreferenceChange list \<Rightarrow> ReaderPreferenceSyncMetadata list \<Rightarrow> PreferenceStoreError + int" where
  "nextPreferenceRevision format field outbox metadata =
     (let revision = foldl (\<lambda>revision change. if ch_format change = format \<and> ch_field change = field
            then max revision (reg_revision (ch_register change)) else revision) 0 outbox;
          revision = foldl (\<lambda>revision record. max revision
            (case map_of (stateSection format (md_state record)) field of Some r \<Rightarrow> reg_revision r | None \<Rightarrow> 0)) revision metadata
      in if revision \<ge> MAX_SAFE_INTEGER then Inl RevisionExhausted else Inr (revision + 1))"

text \<open>The change for one field of the update. The identifiers of the changes are an argument.\<close>

definition preferenceUpdate ::
  "ReaderPreferences \<Rightarrow> string \<Rightarrow> (string \<Rightarrow> string) \<Rightarrow> ReaderPreferenceChange list \<Rightarrow> ReaderPreferenceSyncMetadata list \<Rightarrow> string \<Rightarrow>
     PreferenceStoreError + ReaderPreferenceChange" where
  "preferenceUpdate preferences deviceId createChangeId outbox metadata field =
     (let format = formatOf (getProp (preferencesVal preferences) ''format'') in
      andThen (nextPreferenceRevision format field outbox metadata) (\<lambda>revision.
        let change = \<lparr>ch_format = format, ch_field = field, ch_register =
              \<lparr>reg_value = getProp (preferencesVal preferences) field, reg_revision = revision, reg_deviceId = deviceId,
               reg_changeId = createChangeId field\<rparr>\<rparr>
        in if \<not> isReaderPreferenceChange (preferenceChangeVal change) then Inl InvalidPreferenceUpdate else Inr change))"

fun preferenceUpdates ::
  "(string \<Rightarrow> PreferenceStoreError + ReaderPreferenceChange) \<Rightarrow> string list \<Rightarrow> PreferenceStoreError + ReaderPreferenceChange list" where
  "preferenceUpdates update [] = Inr []"
| "preferenceUpdates update (field # changed) =
     andThen (update field) (\<lambda>change. andThen (preferenceUpdates update changed) (\<lambda>changes. Inr (change # changes)))"

definition commitReaderPreferenceUpdate ::
  "LibraryDb \<Rightarrow> ReaderPreferences \<Rightarrow> string list \<Rightarrow> string \<Rightarrow> (string \<Rightarrow> string) \<Rightarrow>
     (PreferenceStoreError + ReaderPreferenceChange list) \<times> LibraryDb" where
  "commitReaderPreferenceUpdate db preferences changed deviceId createChangeId =
     (let uniqueFields = jsUnique changed;
          outbox = storeRecords db READER_PREFERENCE_CHANGE_OUTBOX_STORE;
          metadata = storeRecords db READER_PREFERENCE_SYNC_METADATA_STORE
      in if \<not> isReaderPreferences (preferencesVal preferences) \<or> uniqueFields = [] \<or> length uniqueFields \<noteq> length changed \<or>
            deviceId = [] \<or> length deviceId > 256
         then (Inl InvalidPreferenceUpdate, db)
         else if \<not> (\<forall>v \<in> set outbox. isReaderPreferenceChange v) \<or> \<not> (\<forall>v \<in> set metadata. isReaderPreferenceSyncMetadata v)
         then (Inl InvalidPreferenceMetadata, db)
         else case preferenceUpdates
              (preferenceUpdate preferences deviceId createChangeId (map preferenceChangeOf outbox) (map metadataOf metadata)) uniqueFields of
           Inl e \<Rightarrow> (Inl e, db)
         | Inr changes \<Rightarrow>
             (Inr changes, fold (idbPut READER_PREFERENCE_CHANGE_OUTBOX_STORE) (map preferenceChangeVal changes)
               (idbPut PREFERENCES_STORE (preferencesVal preferences) db)))"

definition listPendingReaderPreferenceChanges :: "LibraryDb \<Rightarrow> PreferenceStoreError + ReaderPreferenceChange list" where
  "listPendingReaderPreferenceChanges db =
     (let records = storeRecords db READER_PREFERENCE_CHANGE_OUTBOX_STORE in
      if \<not> (\<forall>v \<in> set records. isReaderPreferenceChange v) then Inl InvalidPreferenceChange else Inr (map preferenceChangeOf records))"

definition acknowledgePendingReaderPreferenceChanges :: "LibraryDb \<Rightarrow> string list \<Rightarrow> (PreferenceStoreError + unit) \<times> LibraryDb" where
  "acknowledgePendingReaderPreferenceChanges db changeIds =
     (if \<not> (\<forall>i \<in> set changeIds. 0 < length i \<and> length i \<le> 256) then (Inl InvalidChangeId, db)
      else (Inr (), fold (\<lambda>i. idbDelete READER_PREFERENCE_CHANGE_OUTBOX_STORE [i]) (jsUnique changeIds) db))"

definition getReaderPreferenceSyncMetadata :: "LibraryDb \<Rightarrow> string \<Rightarrow> jsval option \<times> LibraryDb" where
  "getReaderPreferenceSyncMetadata db destinationId =
     readValidated db READER_PREFERENCE_SYNC_METADATA_STORE [destinationId] isReaderPreferenceSyncMetadata
       ''Reader preference synchronization metadata is invalid''"

definition saveReaderPreferenceSyncMetadata ::
  "LibraryDb \<Rightarrow> ReaderPreferenceSyncMetadata \<Rightarrow> (PreferenceStoreError + unit) \<times> LibraryDb" where
  "saveReaderPreferenceSyncMetadata db metadata =
     (if \<not> isReaderPreferenceSyncMetadata (metadataVal metadata) then (Inl InvalidPreferenceMetadata, db)
      else (Inr (), idbPut READER_PREFERENCE_SYNC_METADATA_STORE (metadataVal metadata) db))"

text \<open>The preferences of a synchronization are the objects the state was turned into.\<close>

definition saveSynchronizedReaderPreferences ::
  "LibraryDb \<Rightarrow> jsval list \<Rightarrow> ReaderPreferenceSyncMetadata \<Rightarrow> (PreferenceStoreError + unit) \<times> LibraryDb" where
  "saveSynchronizedReaderPreferences db preferences metadata =
     (if length preferences > 2 \<or> length (jsUnique (map (\<lambda>v. getProp v ''format'') preferences)) \<noteq> length preferences \<or>
         \<not> (\<forall>v \<in> set preferences. isReaderPreferences v) \<or> \<not> isReaderPreferenceSyncMetadata (metadataVal metadata)
      then (Inl InvalidPreferences, db)
      else (Inr (), idbPut READER_PREFERENCE_SYNC_METADATA_STORE (metadataVal metadata)
             (fold (idbPut PREFERENCES_STORE) preferences db)))"

section \<open>Views\<close>

lemma intOf_JInt [simp]: "intOf (JInt n) = n"
  by (simp add: intOf_def)

lemma registerOf_registerVal [simp]: "registerOf (registerVal r) = r"
  by (simp add: registerOf_def registerVal_def strOf_def)

lemma preferenceChangeOf_Val [simp]: "preferenceChangeOf (preferenceChangeVal c) = c"
  by (cases "ch_format c") (simp_all add: preferenceChangeOf_def preferenceChangeVal_def strOf_def formatOf_def formatString_def)

lemma sectionOf_sectionVal [simp]: "sectionOf (sectionVal s) = s"
  by (simp add: sectionOf_def sectionVal_def objectEntries_def comp_def split_beta)

lemma preferenceStateOf_Val [simp]: "preferenceStateOf (preferenceStateVal s) = s"
  by (simp add: preferenceStateOf_def preferenceStateVal_def)

lemma metadataOf_Val [simp]: "metadataOf (metadataVal m) = m"
  by (cases "md_baseline m") (simp_all add: metadataOf_def metadataVal_def strOf_def)

lemma recordKey_preferenceChange [simp]:
  "recordKey READER_PREFERENCE_CHANGE_OUTBOX_STORE (preferenceChangeVal c) = [reg_changeId (ch_register c)]"
  by (simp add: recordKey_def keyPath_def preferenceChangeVal_def registerVal_def strOf_def)

lemma recordKey_metadata [simp]: "recordKey READER_PREFERENCE_SYNC_METADATA_STORE (metadataVal m) = [md_destinationId m]"
  by (simp add: recordKey_def keyPath_def metadataVal_def strOf_def)

section \<open>Revisions grow\<close>

lemma foldl_max_ge:
  assumes "\<And>m x. m \<le> f m x"
  shows "(m :: int) \<le> foldl f m xs" "x \<in> set xs \<Longrightarrow> (\<And>m. b \<le> f m x) \<Longrightarrow> b \<le> foldl f m xs"
proof -
  show ge: "m \<le> foldl f m xs" for m xs
  proof (induction xs arbitrary: m)
    case (Cons y ys)
    then show ?case using assms [of m y] by (metis foldl_Cons order_trans)
  qed simp
  show "x \<in> set xs \<Longrightarrow> (\<And>m. b \<le> f m x) \<Longrightarrow> b \<le> foldl f m xs"
  proof (induction xs arbitrary: m)
    case (Cons y ys)
    show ?case
    proof (cases "x \<in> set ys")
      case True
      then show ?thesis using Cons by simp
    next
      case False
      then have "b \<le> f m y" using Cons.prems by simp
      then show ?thesis using ge [of "f m y" ys] by simp
    qed
  qed simp
qed

lemma nextPreferenceRevision_above:
  assumes "nextPreferenceRevision format field outbox metadata = Inr n"
  shows "0 < n" "n \<le> MAX_SAFE_INTEGER"
    "c \<in> set outbox \<Longrightarrow> ch_format c = format \<Longrightarrow> ch_field c = field \<Longrightarrow> reg_revision (ch_register c) < n"
    "m \<in> set metadata \<Longrightarrow> map_of (stateSection format (md_state m)) field = Some r \<Longrightarrow> reg_revision r < n"
proof -
  let ?f = "\<lambda>revision change. if ch_format change = format \<and> ch_field change = field
    then max revision (reg_revision (ch_register change)) else revision"
  let ?g = "\<lambda>revision record. max revision
    (case map_of (stateSection format (md_state record)) field of Some r \<Rightarrow> reg_revision r | None \<Rightarrow> 0)"
  let ?a = "foldl ?f 0 outbox"
  have n: "n = foldl ?g ?a metadata + 1" and small: "foldl ?g ?a metadata < MAX_SAFE_INTEGER"
    using assms by (auto simp: nextPreferenceRevision_def Let_def split: if_splits)
  have f: "m \<le> ?f m x" and g: "m \<le> ?g m y" for m x y by simp_all
  have a: "0 \<le> ?a" and b: "?a \<le> foldl ?g ?a metadata" using foldl_max_ge(1) [of ?f, OF f] foldl_max_ge(1) [of ?g, OF g] by auto
  show "0 < n" "n \<le> MAX_SAFE_INTEGER" using n a b small by simp_all
  show "c \<in> set outbox \<Longrightarrow> ch_format c = format \<Longrightarrow> ch_field c = field \<Longrightarrow> reg_revision (ch_register c) < n"
    using foldl_max_ge(2) [of ?f, OF f, of c outbox "reg_revision (ch_register c)" 0] n b by simp
  show "m \<in> set metadata \<Longrightarrow> map_of (stateSection format (md_state m)) field = Some r \<Longrightarrow> reg_revision r < n"
    using foldl_max_ge(2) [of ?g, OF g, of m metadata "reg_revision r" ?a] n by simp
qed

lemma preferenceUpdates_result:
  "preferenceUpdates update changed = Inr changes \<Longrightarrow>
     length changes = length changed \<and> (\<forall>i < length changed. update (changed ! i) = Inr (changes ! i))"
proof (induction changed arbitrary: changes)
  case (Cons field rest)
  then obtain c cs where "update field = Inr c" "preferenceUpdates update rest = Inr cs" "changes = c # cs"
    by (cases "update field"; cases "preferenceUpdates update rest") auto
  then show ?case using Cons.IH [of cs] by (auto simp: nth_Cons split: nat.splits)
qed simp

lemma preferenceUpdate_result:
  assumes "preferenceUpdate preferences deviceId ids outbox metadata field = Inr c"
  shows "nextPreferenceRevision (ch_format c) (ch_field c) outbox metadata = Inr (reg_revision (ch_register c))" "ch_field c = field"
    "reg_changeId (ch_register c) = ids field" "reg_deviceId (ch_register c) = deviceId" "isReaderPreferenceChange (preferenceChangeVal c)"
    "reg_value (ch_register c) = getProp (preferencesVal preferences) field"
    "ch_format c = formatOf (getProp (preferencesVal preferences) ''format'')"
  using assms by (cases "nextPreferenceRevision (formatOf (getProp (preferencesVal preferences) ''format'')) field outbox metadata";
      auto simp: preferenceUpdate_def Let_def split: if_splits)+

lemma commit_changes:
  assumes "commitReaderPreferenceUpdate db preferences changed deviceId ids = (Inr changes, db')"
  shows "ch_field ` set changes = set changed" and "db' = fold (idbPut READER_PREFERENCE_CHANGE_OUTBOX_STORE) (map preferenceChangeVal changes)
      (idbPut PREFERENCES_STORE (preferencesVal preferences) db)"
    and "c \<in> set changes \<Longrightarrow> preferenceUpdate preferences deviceId ids
      (map preferenceChangeOf (storeRecords db READER_PREFERENCE_CHANGE_OUTBOX_STORE))
      (map metadataOf (storeRecords db READER_PREFERENCE_SYNC_METADATA_STORE)) (ch_field c) = Inr c"
    and "length changes = length changed"
proof -
  let ?u = "preferenceUpdate preferences deviceId ids (map preferenceChangeOf (storeRecords db READER_PREFERENCE_CHANGE_OUTBOX_STORE))
    (map metadataOf (storeRecords db READER_PREFERENCE_SYNC_METADATA_STORE))"
  have u: "preferenceUpdates ?u (jsUnique changed) = Inr changes" and len: "length (jsUnique changed) = length changed"
    and "db' = fold (idbPut READER_PREFERENCE_CHANGE_OUTBOX_STORE) (map preferenceChangeVal changes)
      (idbPut PREFERENCES_STORE (preferencesVal preferences) db)"
    using assms by (auto simp: commitReaderPreferenceUpdate_def Let_def split: if_splits sum.splits)
  then show "db' = fold (idbPut READER_PREFERENCE_CHANGE_OUTBOX_STORE) (map preferenceChangeVal changes)
      (idbPut PREFERENCES_STORE (preferencesVal preferences) db)" by simp
  note r = preferenceUpdates_result [OF u]
  show "length changes = length changed" using r len by simp
  have field: "ch_field (changes ! i) = jsUnique changed ! i" if "i < length changes" for i
    using r that preferenceUpdate_result(2) by metis
  then show "c \<in> set changes \<Longrightarrow> ?u (ch_field c) = Inr c" using r by (metis in_set_conv_nth)
  have "map ch_field changes = jsUnique changed" using r field by (intro nth_equalityI) auto
  then show "ch_field ` set changes = set changed" by (metis set_map set_jsUnique)
qed

lemma fold_idbPut_get:
  assumes "c \<in> set cs" and "distinct (map (\<lambda>c. reg_changeId (ch_register c)) cs)"
  shows "idbGet (fold (idbPut READER_PREFERENCE_CHANGE_OUTBOX_STORE) (map preferenceChangeVal cs) db)
    READER_PREFERENCE_CHANGE_OUTBOX_STORE [reg_changeId (ch_register c)] = Some (preferenceChangeVal c)"
  using assms
proof (induction cs arbitrary: db rule: rev_induct)
  case (snoc x xs)
  show ?case
  proof (cases "c = x")
    case False
    then have c: "c \<in> set xs" using snoc.prems by simp
    then have "reg_changeId (ch_register c) \<noteq> reg_changeId (ch_register x)" using snoc.prems(2) by (auto simp: image_iff)
    then show ?thesis using snoc.IH [OF c] snoc.prems(2) by (simp add: idbGet_idbWrite)
  qed (simp add: idbGet_idbWrite)
qed simp

text \<open>C31. An update of preferences records one change per field, or fails and changes nothing. The revision of a
  change is above every revision of the field that the outbox or the state of any destination holds, and never
  leaves the integers JavaScript can count.\<close>

theorem preference_revision_fresh:
  assumes "commitReaderPreferenceUpdate db preferences changed deviceId createChangeId = (r, db')"
  shows "case r of
      Inl e \<Rightarrow> db' = db
    | Inr changes \<Rightarrow> ch_field ` set changes = set changed \<and>
        (\<forall>c \<in> set changes. 0 < reg_revision (ch_register c) \<and> reg_revision (ch_register c) \<le> MAX_SAFE_INTEGER \<and>
           (\<forall>v \<in> set (storeRecords db READER_PREFERENCE_CHANGE_OUTBOX_STORE).
              ch_format (preferenceChangeOf v) = ch_format c \<and> ch_field (preferenceChangeOf v) = ch_field c \<longrightarrow>
              reg_revision (ch_register (preferenceChangeOf v)) < reg_revision (ch_register c)) \<and>
           (\<forall>v \<in> set (storeRecords db READER_PREFERENCE_SYNC_METADATA_STORE). \<forall>reg.
              map_of (stateSection (ch_format c) (md_state (metadataOf v))) (ch_field c) = Some reg \<longrightarrow>
              reg_revision reg < reg_revision (ch_register c)) \<and>
           (distinct (map (\<lambda>c. reg_changeId (ch_register c)) changes) \<longrightarrow>
              idbGet db' READER_PREFERENCE_CHANGE_OUTBOX_STORE [reg_changeId (ch_register c)] = Some (preferenceChangeVal c)))"
proof (cases r)
  case (Inl e)
  then show ?thesis using assms by (auto simp: commitReaderPreferenceUpdate_def Let_def split: if_splits sum.splits)
next
  case (Inr changes)
  note c = commit_changes [OF assms [unfolded Inr]]
  have "0 < reg_revision (ch_register c) \<and> reg_revision (ch_register c) \<le> MAX_SAFE_INTEGER \<and>
      (\<forall>v \<in> set (storeRecords db READER_PREFERENCE_CHANGE_OUTBOX_STORE).
         ch_format (preferenceChangeOf v) = ch_format c \<and> ch_field (preferenceChangeOf v) = ch_field c \<longrightarrow>
         reg_revision (ch_register (preferenceChangeOf v)) < reg_revision (ch_register c)) \<and>
      (\<forall>v \<in> set (storeRecords db READER_PREFERENCE_SYNC_METADATA_STORE). \<forall>reg.
         map_of (stateSection (ch_format c) (md_state (metadataOf v))) (ch_field c) = Some reg \<longrightarrow>
         reg_revision reg < reg_revision (ch_register c))" if "c \<in> set changes" for c
  proof -
    note above = nextPreferenceRevision_above [OF preferenceUpdate_result(1) [OF c(3) [OF that]]]
    show ?thesis
      using above(1,2) above(3) [unfolded set_map, OF imageI] above(4) [unfolded set_map, OF imageI] by blast
  qed
  then show ?thesis using c(1,2) fold_idbPut_get unfolding Inr by simp
qed

definition darkPreferences :: ReaderPreferences where
  "darkPreferences = EpubPrefs (DEFAULT_EPUB_READER_PREFERENCES\<lparr>theme := Dark\<rparr>)"

definition darkCommit :: "(PreferenceStoreError + ReaderPreferenceChange list) \<times> LibraryDb" where
  "darkCommit = commitReaderPreferenceUpdate exampleDb darkPreferences [''theme''] ''device-a'' (\<lambda>_. ''change-b'')"

theorem preference_revision_fresh_witness:
  "case fst darkCommit of
     Inl e \<Rightarrow> False
   | Inr changes \<Rightarrow> ch_field ` set changes = {''theme''} \<and> map (\<lambda>c. reg_revision (ch_register c)) changes = [1]"
proof -
  have "case fst darkCommit of Inl e \<Rightarrow> False | Inr changes \<Rightarrow> map (\<lambda>c. reg_revision (ch_register c)) changes = [1]" by code_simp
  moreover have "commitReaderPreferenceUpdate exampleDb darkPreferences [''theme''] ''device-a'' (\<lambda>_. ''change-b'') = (fst darkCommit, snd darkCommit)"
    by (simp add: darkCommit_def)
  note preference_revision_fresh [OF this]
  ultimately show ?thesis by (cases "fst darkCommit") auto
qed

end
