(* ===== verification/Preference_Text.thy ===== *)
theory Preference_Text
  imports JSON_Text Preference_Store
begin

text \<open>
  Reading the synchronized preference state from its text in
  \<open>libs/reader/domain/src/lib/reader-preference-sync-state.ts\<close>. \<open>JSON.parse\<close> keeps the last of two members with one
  key, so a second scanner walks over the text to find a repeated key. Its loops do not look at the end of the text:
  on a text that is not JSON an array may be scanned for ever. It is only called on a text that was parsed, and on
  such a text it returns.
\<close>

section \<open>The scanner\<close>

text \<open>The index into the text is the rest of the text from there on.\<close>

definition skipWhitespace :: "string \<Rightarrow> string" where
  "skipWhitespace s = dropWhile isWhite s"

text \<open>The loop of \<open>readString\<close>: what follows the closing quote.\<close>

fun stringEnd :: "string \<Rightarrow> string option" where
  "stringEnd [] = None"
| "stringEnd (c # s) =
     (if c = CHR 0x5C then (case s of [] \<Rightarrow> None | _ # s' \<Rightarrow> stringEnd s')
      else if c = CHR 0x22 then Some s
      else stringEnd s)"

text \<open>Nothing when \<open>JSON.parse\<close> throws on the slice.\<close>

definition readString :: "string \<Rightarrow> (string \<times> string) option" where
  "readString s =
     (case s of
        [] \<Rightarrow> Some ([], [])
      | _ # r \<Rightarrow>
          (case stringEnd r of
             None \<Rightarrow> Some ([], [])
           | Some rest \<Rightarrow>
               (case parseJson (take (length s - length rest) s) of
                  Some (JStr key) \<Rightarrow> Some (key, rest)
                | _ \<Rightarrow> None)))"

definition isDelimiter :: "char \<Rightarrow> bool" where
  "isDelimiter c \<longleftrightarrow> isWhite c \<or> c = CHR '','' \<or> c = CHR ''}'' \<or> c = CHR '']''"

text \<open>The two loops and the visit of a value, with fuel. After a value the scanner skips white space and one comma.\<close>

definition afterValue :: "string \<Rightarrow> string" where
  "afterValue s = (let s = skipWhitespace s in if startsWith s '','' then skipWhitespace (tl s) else s)"

fun visitValue :: "nat \<Rightarrow> string \<Rightarrow> (bool \<times> string) option"
  and visitObject :: "nat \<Rightarrow> string list \<Rightarrow> string \<Rightarrow> (bool \<times> string) option"
  and visitArray :: "nat \<Rightarrow> string \<Rightarrow> (bool \<times> string) option" where
  "visitValue 0 s = None"
| "visitValue (Suc n) s =
     (let s = skipWhitespace s in
      if startsWith s ''{'' then visitObject n [] (skipWhitespace (tl s))
      else if startsWith s ''['' then visitArray n (skipWhitespace (tl s))
      else if startsWith s [CHR 0x22] then map_option (\<lambda>(_, rest). (False, rest)) (readString s)
      else Some (False, dropWhile (\<lambda>c. \<not> isDelimiter c) s))"
| "visitObject 0 keys s = None"
| "visitObject (Suc n) keys s =
     (if startsWith s ''}'' then Some (False, tl s)
      else case readString s of
        None \<Rightarrow> None
      | Some (key, r) \<Rightarrow>
          if key \<in> set keys then Some (True, r)
          else case visitValue n (drop 1 (skipWhitespace r)) of
            None \<Rightarrow> None
          | Some (duplicate, u) \<Rightarrow> if duplicate then Some (True, u) else visitObject n (keys @ [key]) (afterValue u))"
| "visitArray 0 s = None"
| "visitArray (Suc n) s =
     (if startsWith s '']'' then Some (False, tl s)
      else case visitValue n s of
        None \<Rightarrow> None
      | Some (duplicate, u) \<Rightarrow> if duplicate then Some (True, u) else visitArray n (afterValue u))"

text \<open>Nothing when the scanner does not return.\<close>

definition hasDuplicateJsonObjectKeys :: "string \<Rightarrow> bool option" where
  "hasDuplicateJsonObjectKeys document = map_option fst (visitValue (2 * (length document + 1)) document)"

definition MAX_DOCUMENT_BYTES :: nat where
  "MAX_DOCUMENT_BYTES = 64 * 1024"

text \<open>A character above 127 takes two bytes in UTF-8.\<close>

definition byteLength :: "string \<Rightarrow> nat" where
  "byteLength s = sum_list (map (\<lambda>c. if (of_char c :: nat) < 128 then 1 else 2) s)"

definition parseReaderPreferenceSyncState :: "string \<Rightarrow> PreferenceError + ReaderPreferenceSyncState" where
  "parseReaderPreferenceSyncState document =
     (if byteLength document > MAX_DOCUMENT_BYTES then Inl InvalidPreferenceState
      else case parseJson document of
        None \<Rightarrow> Inl InvalidPreferenceState
      | Some v \<Rightarrow>
          if hasDuplicateJsonObjectKeys document \<noteq> Some False \<or> \<not> isReaderPreferenceSyncState v then Inl InvalidPreferenceState
          else Inr (preferenceStateOf v))"

section \<open>The scanner returns\<close>

lemma isJsonSpace_white: "isJsonSpace c \<Longrightarrow> isWhite c"
  by (auto simp: isJsonSpace_def isWhite_def)

lemma skipWhitespace_skipSpace: "skipSpace s = c # r \<Longrightarrow> \<not> isWhite c \<Longrightarrow> skipWhitespace s = c # r"
  by (induction s) (auto simp: skipSpace_def skipWhitespace_def isJsonSpace_white split: if_splits)

lemma skipWhitespace_idem [simp]: "skipWhitespace (skipWhitespace s) = skipWhitespace s"
  by (simp add: skipWhitespace_def dropWhile_idem)

lemma visitValue_skip [simp]: "visitValue n (skipWhitespace s) = visitValue n s"
  by (cases n) simp_all

text \<open>The reader of strings finds what the parser finds.\<close>

lemma radixDigit_plain: "radixDigit 16 c = Some d \<Longrightarrow> c \<noteq> CHR 0x22 \<and> c \<noteq> CHR 0x5C"
  by (auto simp: radixDigit_def)

lemma parseChars_stringEnd:
  "parseChars s = Some (t, r) \<Longrightarrow>
     stringEnd s = Some r \<and> (\<exists>k. s = k @ r \<and> k \<noteq> [] \<and> parseChars k = Some (t, []))"
proof (induction s arbitrary: t r rule: parseChars.induct)
  case (2 c s)
  consider (quote) "c = CHR 0x22" | (esc) "c = CHR 0x5C" | (plain) "c \<noteq> CHR 0x22" "c \<noteq> CHR 0x5C" by blast
  then show ?case
  proof cases
    case quote
    then have "t = []" "r = s" using 2(4) by simp_all
    then show ?thesis using quote by (intro conjI exI [of _ "[c]"]) simp_all
  next
    case esc
    obtain e s' where s: "s = e # s'" using 2(4) esc by (cases s) auto
    show ?thesis
    proof (cases "e = CHR ''u''")
      case True
      obtain a b d f s'' where s': "s' = a # b # d # f # s''" using 2(4) esc s True by (auto split: list.splits)
      obtain x y t' where x: "radixDigit 16 a = Some 0" "radixDigit 16 b = Some 0" "radixDigit 16 d = Some x" "radixDigit 16 f = Some y"
        "parseChars s'' = Some (t', r)" "t = char_of (16 * x + y) # t'"
        using 2(4) esc s True s' by (auto split: option.splits nat.splits)
      have "stringEnd s'' = Some r \<and> (\<exists>k. s'' = k @ r \<and> k \<noteq> [] \<and> parseChars k = Some (t', []))"
        using 2(1) x esc s True s' by simp
      then obtain k where k: "stringEnd s'' = Some r" "s'' = k @ r" "k \<noteq> []" "parseChars k = Some (t', [])" by blast
      show ?thesis using k x(1-4,6) esc s s' True radixDigit_plain
        by (intro conjI exI [of _ "c # e # a # b # d # f # k"]) auto
    next
      case False
      obtain x t' where x: "jsonEscape e = Some x" "parseChars s' = Some (t', r)" "t = x # t'"
        using 2(4) esc s False by (auto split: option.splits)
      have "stringEnd s' = Some r \<and> (\<exists>k. s' = k @ r \<and> k \<noteq> [] \<and> parseChars k = Some (t', []))"
        using 2(2) x esc s False by simp
      then obtain k where "stringEnd s' = Some r" "s' = k @ r" "k \<noteq> []" "parseChars k = Some (t', [])" by blast
      then show ?thesis using x esc s False by (intro conjI exI [of _ "c # e # k"]) auto
    qed
  next
    case plain
    then obtain t' where x: "\<not> (of_char c :: int) < 32" "parseChars s = Some (t', r)" "t = c # t'" using 2(4) by (auto split: if_splits)
    have "stringEnd s = Some r \<and> (\<exists>k. s = k @ r \<and> k \<noteq> [] \<and> parseChars k = Some (t', []))" using 2(3) x plain by simp
    then obtain k where "stringEnd s = Some r" "s = k @ r" "k \<noteq> []" "parseChars k = Some (t', [])" by blast
    then show ?thesis using x plain by (intro conjI exI [of _ "c # k"]) auto
  qed
qed simp

lemma readString_parseChars: "parseChars s = Some (t, r) \<Longrightarrow> readString (CHR 0x22 # s) = Some (t, r)"
proof -
  assume "parseChars s = Some (t, r)"
  then obtain k where k: "stringEnd s = Some r" "s = k @ r" "parseChars k = Some (t, [])" using parseChars_stringEnd by blast
  have "parseJson (CHR 0x22 # k) = Some (JStr t)" using k(3) by (simp add: parseJson_def skipSpace_def isJsonSpace_def)
  then show ?thesis using k by (simp add: readString_def)
qed

text \<open>After a value the text ends or goes on with a delimiter.\<close>

definition delimited :: "string \<Rightarrow> bool" where
  "delimited s \<longleftrightarrow> s = [] \<or> isDelimiter (hd s)"

lemma delimited_skipSpace: "skipSpace s = c # r \<Longrightarrow> isDelimiter c \<Longrightarrow> delimited s"
  by (cases s) (auto simp: delimited_def skipSpace_def isDelimiter_def isJsonSpace_white split: if_splits)

lemma white_structure [simp]:
  "\<not> isWhite (CHR '','')" "\<not> isWhite (CHR ''}'')" "\<not> isWhite (CHR '']'')" "\<not> isWhite (CHR '':'')" "\<not> isWhite (CHR 0x22)"
  "\<not> isWhite (CHR ''{'')" "\<not> isWhite (CHR ''['')" "\<not> isWhite (CHR ''n'')" "\<not> isWhite (CHR ''t'')" "\<not> isWhite (CHR ''f'')"
  by (simp_all add: isWhite_def)

lemma dropWhile_delimited:
  "(\<forall>c \<in> set k. \<not> isDelimiter c) \<Longrightarrow> delimited r \<Longrightarrow> dropWhile (\<lambda>c. \<not> isDelimiter c) (k @ r) = r"
  by (cases r) (auto simp: delimited_def dropWhile_append)

lemma numberChar_plain: "isNumberChar c \<Longrightarrow> \<not> isDelimiter c \<and> c \<noteq> CHR 0x22 \<and> c \<noteq> CHR ''['' \<and> c \<noteq> CHR ''{''"
  by (auto simp: isNumberChar_def isDelimiter_def isWhite_def isDigit_def Let_def of_char_int)

text \<open>A value that parses does not begin like the end of a list, and a literal ends where the scanner stops.\<close>

lemma literal_scan:
  assumes "startsWith s k" and "\<forall>c \<in> set k. \<not> isDelimiter c" and "delimited (drop (length k) s)"
  shows "dropWhile (\<lambda>c. \<not> isDelimiter c) s = drop (length k) s"
proof -
  have "s = k @ drop (length k) s" using assms(1) by (metis append_take_drop_id startsWith_def)
  then show ?thesis using dropWhile_delimited [OF assms(2,3)] by simp
qed

lemma keyword_plain: "\<forall>k \<in> {''null'', ''true'', ''false''}. \<forall>c \<in> set k. \<not> isDelimiter c"
  by code_simp

lemma keyword_scan:
  "k \<in> {''null'', ''true'', ''false''} \<Longrightarrow> startsWith s k \<Longrightarrow> drop (length k) s = r \<Longrightarrow> delimited r \<Longrightarrow>
     dropWhile (\<lambda>c. \<not> isDelimiter c) s = r"
  using literal_scan keyword_plain by blast

lemma number_scan: "delimited (dropWhile isNumberChar s) \<Longrightarrow> dropWhile (\<lambda>c. \<not> isDelimiter c) s = dropWhile isNumberChar s"
  using dropWhile_delimited [of "takeWhile isNumberChar s" "dropWhile isNumberChar s"] numberChar_plain
  by (metis set_takeWhileD takeWhile_dropWhile_id)


lemma startsWith_Cons [simp]: "startsWith (c # s) [d] \<longleftrightarrow> c = d" "\<not> startsWith [] [d]"
  by (auto simp: startsWith_def)

lemma parseValue_begins:
  "parseValue n s = Some (v, r) \<Longrightarrow> \<exists>c u. skipSpace s = c # u \<and> \<not> isDelimiter c"
proof (cases n)
  case (Suc m)
  assume p: "parseValue n s = Some (v, r)"
  then obtain c u where s: "skipSpace s = c # u" using Suc by (cases "skipSpace s") auto
  have "\<not> isDelimiter c"
  proof
    assume d: "isDelimiter c"
    then have "\<not> isNumberChar c" using numberChar_plain by blast
    moreover have "c \<notin> {CHR 0x22, CHR ''['', CHR ''{'', CHR ''n'', CHR ''t'', CHR ''f''}" using d by (auto simp: isDelimiter_def)
    ultimately show False using p s Suc by (auto simp: jsonNumber_def startsWith_def Let_def)
  qed
  then show ?thesis using s by blast
qed simp

lemma afterValue_comma: "skipSpace r = CHR '','' # u \<Longrightarrow> afterValue r = skipWhitespace u"
  using skipWhitespace_skipSpace by (simp add: afterValue_def)

lemma afterValue_end: "skipSpace r = c # u \<Longrightarrow> c = CHR ''}'' \<or> c = CHR '']'' \<Longrightarrow> afterValue r = c # u"
  using skipWhitespace_skipSpace [of r c u] by (auto simp: afterValue_def)

lemma visit_follows_parse:
  "parseValue n s = Some (v, r) \<Longrightarrow> delimited r \<Longrightarrow> 2 * n \<le> m \<Longrightarrow> \<exists>b u. visitValue m s = Some (b, u) \<and> (\<not> b \<longrightarrow> u = r)"
  "parseElements n s = Some (vs, r) \<Longrightarrow> 2 * n \<le> m \<Longrightarrow> \<exists>b u. visitArray m (skipWhitespace s) = Some (b, u) \<and> (\<not> b \<longrightarrow> u = r)"
  "parseMembers n acc s = Some (kvs, r) \<Longrightarrow> 2 * n \<le> m \<Longrightarrow>
     \<exists>b u. visitObject m keys (skipWhitespace s) = Some (b, u) \<and> (\<not> b \<longrightarrow> u = r)"
proof (induction n s and n s and n acc s arbitrary: v r m and vs r m and kvs r m keys
    rule: parseValue_parseElements_parseMembers.induct)
  case (2 n s)
  obtain c t where s: "skipSpace s = c # t" "\<not> isDelimiter c" using parseValue_begins [OF 2(3)] by blast
  then have w: "skipWhitespace s = c # t" using skipWhitespace_skipSpace by (auto simp: isDelimiter_def)
  obtain k where m: "m = Suc k" "2 * n \<le> k" "0 < k" using 2(5) by (cases m) auto
  consider (str) "c = CHR 0x22" | (arr) "c = CHR ''[''" | (obj) "c = CHR ''{''"
    | (lit) "c \<notin> {CHR 0x22, CHR ''['', CHR ''{''}" by blast
  then show ?case
  proof cases
    case str
    then obtain x where "parseChars t = Some (x, r)" using 2(3) s by (auto split: option.splits)
    then show ?thesis using readString_parseChars str w m by auto
  next
    case arr
    show ?thesis
    proof (cases "startsWith (skipSpace t) '']''")
      case True
      then obtain u where u: "skipSpace t = CHR '']'' # u" by (cases "skipSpace t") auto
      then have "r = u" using 2(3) s arr by simp
      moreover have "skipWhitespace t = CHR '']'' # u" using u skipWhitespace_skipSpace by simp
      ultimately show ?thesis using arr w m by (cases k) auto
    next
      case False
      then obtain vs where "parseElements n t = Some (vs, r)" using 2(3) s arr by auto
      then have "\<exists>b u. visitArray k (skipWhitespace t) = Some (b, u) \<and> (\<not> b \<longrightarrow> u = r)" using 2(1) s arr False m by simp
      then show ?thesis using arr w m by simp
    qed
  next
    case obj
    show ?thesis
    proof (cases "startsWith (skipSpace t) ''}''")
      case True
      then obtain u where u: "skipSpace t = CHR ''}'' # u" by (cases "skipSpace t") auto
      then have "r = u" using 2(3) s obj by simp
      moreover have "skipWhitespace t = CHR ''}'' # u" using u skipWhitespace_skipSpace by simp
      ultimately show ?thesis using obj w m by (cases k) auto
    next
      case False
      then obtain kvs where "parseMembers n [] t = Some (kvs, r)" using 2(3) s obj by auto
      then have "\<exists>b u. visitObject k [] (skipWhitespace t) = Some (b, u) \<and> (\<not> b \<longrightarrow> u = r)" using 2(2) s obj False m by simp
      then show ?thesis using obj w m by simp
    qed
  next
    case lit
    have "dropWhile (\<lambda>c. \<not> isDelimiter c) (c # t) = r"
    proof -
      consider (null) "startsWith (c # t) ''null''" "r = drop 4 (c # t)" | (true) "startsWith (c # t) ''true''" "r = drop 4 (c # t)"
        | (false) "startsWith (c # t) ''false''" "r = drop 5 (c # t)" | (num) "r = dropWhile isNumberChar (c # t)"
        using 2(3) s lit by (auto split: if_splits)
      then show ?thesis
      proof cases
        case num
        then show ?thesis using number_scan [of "c # t"] 2(4) by simp
      next
        case null
        then show ?thesis by (intro keyword_scan [of "''null''" "c # t"]) (use 2(4) in \<open>simp_all add: eval_nat_numeral\<close>)
      next
        case true
        then show ?thesis by (intro keyword_scan [of "''true''" "c # t"]) (use 2(4) in \<open>simp_all add: eval_nat_numeral\<close>)
      next
        case false
        then show ?thesis by (intro keyword_scan [of "''false''" "c # t"]) (use 2(4) in \<open>simp_all add: eval_nat_numeral\<close>)
      qed
    qed
    then show ?thesis using lit w m by auto
  qed
next
  case (4 n s)
  obtain v r1 where v: "parseValue n s = Some (v, r1)" using 4(3) by (auto split: option.splits)
  obtain c u where r1: "skipSpace r1 = c # u" using 4(3) v by (cases "skipSpace r1") auto
  have c: "c = CHR '']'' \<or> c = CHR '',''" using 4(3) v r1 by (auto split: if_splits)
  then have "delimited r1" using delimited_skipSpace [OF r1] by (auto simp: isDelimiter_def)
  obtain k where m: "m = Suc k" "2 * n < k" using 4(4) by (cases m) auto
  obtain d e where "skipSpace s = d # e" "\<not> isDelimiter d" using parseValue_begins [OF v] by blast
  then have start: "\<not> startsWith (skipWhitespace s) '']''" using skipWhitespace_skipSpace [of s d e] by (auto simp: isDelimiter_def)
  obtain b w where b: "visitValue k s = Some (b, w)" "\<not> b \<longrightarrow> w = r1" using 4(1) v \<open>delimited r1\<close> m by (metis less_imp_le)
  show ?case
  proof (cases b)
    case True
    then show ?thesis using b start m by auto
  next
    case False
    have "\<exists>b u. visitArray k (afterValue r1) = Some (b, u) \<and> (\<not> b \<longrightarrow> u = r)"
    proof (cases "c = CHR '']''")
      case True
      then have "r = u" using 4(3) v r1 by simp
      then show ?thesis using afterValue_end [OF r1] True m by (cases k) auto
    next
      case False
      then obtain vs' where "parseElements n u = Some (vs', r)" using 4(3) v r1 c by auto
      then have "\<exists>b x. visitArray k (skipWhitespace u) = Some (b, x) \<and> (\<not> b \<longrightarrow> x = r)" using 4(2) v r1 False c m by simp
      then show ?thesis using afterValue_comma r1 False c by simp
    qed
    then show ?thesis using False b start m by simp
  qed
next
  case (6 n acc s)
  obtain k1 where q: "skipSpace s = CHR 0x22 # k1" using 6(3) by (auto split: list.splits if_splits)
  obtain key r1 where key: "parseChars k1 = Some (key, r1)" using 6(3) q by (auto split: option.splits)
  obtain t1 where col: "skipSpace r1 = CHR '':'' # t1" using 6(3) q key by (auto split: list.splits if_splits)
  obtain v r2 where v: "parseValue n t1 = Some (v, r2)" using 6(3) q key col by (auto split: option.splits)
  obtain c u where r2: "skipSpace r2 = c # u" using 6(3) q key col v by (cases "skipSpace r2") auto
  have c: "c = CHR ''}'' \<or> c = CHR '',''" using 6(3) q key col v r2 by (auto split: if_splits)
  then have del: "delimited r2" using delimited_skipSpace [OF r2] by (auto simp: isDelimiter_def)
  obtain k where m: "m = Suc k" "2 * n < k" using 6(4) by (cases m) auto
  have ws: "skipWhitespace s = CHR 0x22 # k1" "skipWhitespace r1 = CHR '':'' # t1" using q col skipWhitespace_skipSpace by simp_all
  note key' = readString_parseChars [OF key]
  show ?case
  proof (cases "key \<in> set keys")
    case True
    then show ?thesis using ws key' m by auto
  next
    case fresh: False
    obtain b w where b: "visitValue k t1 = Some (b, w)" "\<not> b \<longrightarrow> w = r2"
      using 6(1) q key col v del m by (metis (no_types, lifting) less_imp_le)
    show ?thesis
    proof (cases b)
      case True
      then show ?thesis using ws key' m b fresh by auto
    next
      case False
      have "\<exists>b u. visitObject k (keys @ [key]) (afterValue r2) = Some (b, u) \<and> (\<not> b \<longrightarrow> u = r)"
      proof (cases "c = CHR ''}''")
        case True
        then have "r = u" using 6(3) q key col v r2 by simp
        then show ?thesis using afterValue_end [OF r2] True m by (cases k) auto
      next
        case False
        then have "parseMembers n (mapSet key v acc) u = Some (kvs, r)" using 6(3) q key col v r2 c by simp
        then have "\<exists>b x. visitObject k (keys @ [key]) (skipWhitespace u) = Some (b, x) \<and> (\<not> b \<longrightarrow> x = r)"
          using 6(2) q key col v r2 False c m by simp
        then show ?thesis using afterValue_comma r2 False c by simp
      qed
      then show ?thesis using False ws key' m b fresh by simp
    qed
  qed
qed simp_all

lemma visitArray_end: "visitArray n [] = None"
proof (induction n)
  case (Suc n)
  have "visitValue n [] = None \<or> visitValue n [] = Some (False, [])" by (cases n) (simp_all add: skipWhitespace_def startsWith_def)
  then show ?case using Suc.IH by (auto simp: afterValue_def skipWhitespace_def startsWith_def)
qed simp

text \<open>C32. The scanner for repeated keys returns on every text that \<open>JSON.parse\<close> accepts. It has to come after the
  parser: at the end of an array that is not closed its loop never ends.\<close>

theorem duplicate_scan_terminates:
  assumes "parseJson document = Some v"
  shows "(\<exists>b. hasDuplicateJsonObjectKeys document = Some b) \<and> (\<forall>fuel. visitValue fuel ''['' = None)"
proof -
  obtain r where r: "parseValue (length document + 1) document = Some (v, r)" "skipSpace r = []"
    using assms by (auto simp: parseJson_def split: option.splits if_splits)
  have "delimited r" using r(2) by (cases r) (auto simp: delimited_def skipSpace_def isDelimiter_def isJsonSpace_white split: if_splits)
  then have "\<exists>b. hasDuplicateJsonObjectKeys document = Some b"
    using visit_follows_parse(1) [OF r(1), of "2 * (length document + 1)"] by (auto simp: hasDuplicateJsonObjectKeys_def)
  moreover have "visitValue fuel ''['' = None" for fuel
    by (cases fuel) (simp_all add: skipWhitespace_def visitArray_end)
  ultimately show ?thesis by blast
qed

definition repeatedKeyText :: string where
  "repeatedKeyText = ''{'' @ [CHR 0x22] @ ''a'' @ [CHR 0x22] @ '':[1, 2],'' @ [CHR 0x22] @ ''a'' @ [CHR 0x22] @ '':null}''"

theorem duplicate_scan_terminates_witness: "hasDuplicateJsonObjectKeys repeatedKeyText = Some True \<and> parseJson repeatedKeyText \<noteq> None"
proof -
  have p: "parseJson repeatedKeyText = Some (JObj [(''a'', JNull)])" by code_simp
  obtain b where "hasDuplicateJsonObjectKeys repeatedKeyText = Some b" using duplicate_scan_terminates [OF p] by blast
  moreover have "hasDuplicateJsonObjectKeys repeatedKeyText \<noteq> Some False" by code_simp
  ultimately show ?thesis using p by (cases b) simp_all
qed

end
