(* ===== verification/Operation_Journal.thy ===== *)
theory Operation_Journal
  imports JS_Values Object_Store
begin

text \<open>
  The journal of local changes that wait to be synchronized:
  \<open>libs/sync/git/src/lib/indexed-db-operation-journal.ts\<close>. Appending numbers the operations of an
  entity, \<open>pending\<close> lists what is not yet acknowledged, and \<open>acknowledge\<close> removes what was stored
  remotely. Random identifiers and the clock are arguments.
\<close>

section \<open>Operations\<close>

record SyncOperation =
  op_id :: string
  op_entity :: string
  op_entityId :: string
  op_operation :: string
  op_revision :: int
  op_createdAt :: string
  op_payload :: jsval

record NewSyncOperation =
  new_entity :: string
  new_entityId :: string
  new_operation :: string
  new_payload :: jsval

record Journal =
  j_operations :: "(string, SyncOperation) objectStore"
  j_revisions :: "(string, int) objectStore"

definition entityKey :: "string \<Rightarrow> string \<Rightarrow> string" where
  "entityKey entity entityId = entity @ '':'' @ entityId"

definition append_op :: "Journal \<Rightarrow> NewSyncOperation \<Rightarrow> string \<Rightarrow> string \<Rightarrow> SyncOperation \<times> Journal" where
  "append_op journal input randomUUID now =
     (let key = entityKey (new_entity input) (new_entityId input);
          revision = (case map_of (j_revisions journal) key of None \<Rightarrow> 0 | Some previous \<Rightarrow> previous) + 1;
          operation = \<lparr>op_id = randomUUID, op_entity = new_entity input, op_entityId = new_entityId input,
            op_operation = new_operation input, op_revision = revision, op_createdAt = now,
            op_payload = new_payload input\<rparr>
      in (operation, \<lparr>j_operations = putEntry randomUUID operation (j_operations journal),
            j_revisions = putEntry key revision (j_revisions journal)\<rparr>))"

definition pending_ops :: "(string \<Rightarrow> string \<Rightarrow> int) \<Rightarrow> Journal \<Rightarrow> SyncOperation list" where
  "pending_ops localeCompare journal =
     jsSort (\<lambda>left right. cmpOr (localeCompare (op_createdAt left) (op_createdAt right)) (localeCompare (op_id left) (op_id right)))
       (map snd (j_operations journal))"

definition acknowledge :: "Journal \<Rightarrow> string list \<Rightarrow> Journal" where
  "acknowledge journal operationIds =
     (if operationIds = [] then journal
      else journal\<lparr>j_operations := fold deleteEntry operationIds (j_operations journal)\<rparr>)"

section \<open>The numbering of operations\<close>

definition opKey :: "SyncOperation \<Rightarrow> string" where
  "opKey operation = entityKey (op_entity operation) (op_entityId operation)"

abbreviation journalOps :: "Journal \<Rightarrow> SyncOperation set" where
  "journalOps j \<equiv> snd ` set (j_operations j)"

definition journalOk :: "Journal \<Rightarrow> bool" where
  "journalOk j \<longleftrightarrow> storeOk (j_operations j) \<and> storeOk (j_revisions j) \<and>
     (\<forall>(i, x) \<in> set (j_operations j). i = op_id x) \<and>
     (\<forall>x \<in> journalOps j. \<exists>n. map_of (j_revisions j) (opKey x) = Some n \<and> 1 \<le> op_revision x \<and> op_revision x \<le> n) \<and>
     inj_on (\<lambda>x. (opKey x, op_revision x)) (journalOps j) \<and>
     (\<forall>(k, n) \<in> set (j_revisions j). 1 \<le> n)"

text \<open>The journal grows with a fresh identifier and shrinks by acknowledgements.\<close>

inductive journalStep :: "Journal \<Rightarrow> Journal \<Rightarrow> bool" where
  journal_append: "map_of (j_operations j) uuid = None \<Longrightarrow> journalStep j (snd (append_op j input uuid now))"
| journal_acknowledge: "journalStep j (acknowledge j ids)"

inductive_cases journalStepE: "journalStep j j'"

lemma mem_acknowledge:
  "storeOk (j_operations j) \<Longrightarrow>
   (i, x) \<in> set (j_operations (acknowledge j ids)) \<longleftrightarrow> (i, x) \<in> set (j_operations j) \<and> i \<notin> set ids"
  by (auto simp: acknowledge_def storeOk_map_of idb.ok_remove_all idb.get_remove_all split: if_splits)

lemma journalOk_acknowledge: "journalOk j \<Longrightarrow> journalOk (acknowledge j ids)"
proof -
  assume ok: "journalOk j"
  have keep: "j_revisions (acknowledge j ids) = j_revisions j" by (simp add: acknowledge_def)
  have st: "storeOk (j_operations j)" using ok by (simp add: journalOk_def)
  have "storeOk (j_operations (acknowledge j ids))"
    using st by (simp add: acknowledge_def idb.ok_remove_all)
  moreover have "set (j_operations (acknowledge j ids)) \<subseteq> set (j_operations j)"
    using mem_acknowledge [OF st] by auto
  ultimately show ?thesis
    using ok unfolding journalOk_def keep by (auto intro: inj_on_subset image_mono)
qed

lemma journalOps_append:
  assumes "storeOk (j_operations j)" and "map_of (j_operations j) uuid = None"
  shows "journalOps (snd (append_op j input uuid now)) = insert (fst (append_op j input uuid now)) (journalOps j)"
proof -
  have "(i, x) \<in> set (putEntry uuid v (j_operations j)) \<longleftrightarrow> (i, x) = (uuid, v) \<or> (i, x) \<in> set (j_operations j)" for i x v
    using assms by (auto simp: storeOk_map_of storeOk_putEntry map_of_putEntry)
  then have "set (putEntry uuid v (j_operations j)) = insert (uuid, v) (set (j_operations j))" for v
    by auto
  then show ?thesis by (simp add: append_op_def Let_def)
qed

text \<open>A new operation gets a higher number than every pending operation of its entity.\<close>

lemma append_revision:
  assumes "journalOk j" and "x \<in> journalOps j" and "opKey x = opKey (fst (append_op j input uuid now))"
  shows "op_revision x < op_revision (fst (append_op j input uuid now))"
  using assms by (fastforce simp: journalOk_def append_op_def Let_def opKey_def)

lemma journalOk_append:
  assumes ok: "journalOk j" and fresh: "map_of (j_operations j) uuid = None"
  shows "journalOk (snd (append_op j input uuid now))"
proof -
  let ?x = "fst (append_op j input uuid now)" and ?j = "snd (append_op j input uuid now)"
  have st: "storeOk (j_operations j)" "storeOk (j_revisions j)" using ok by (simp_all add: journalOk_def)
  have ops: "journalOps ?j = insert ?x (journalOps j)" by (rule journalOps_append [OF st(1) fresh])
  have rev: "map_of (j_revisions ?j) k = (if k = opKey ?x then Some (op_revision ?x) else map_of (j_revisions j) k)" for k
    by (simp add: append_op_def Let_def map_of_putEntry opKey_def)
  have "1 \<le> n" if "map_of (j_revisions j) k = Some n" for k n
    using ok map_of_SomeD [OF that] by (auto simp: journalOk_def)
  then have pos: "1 \<le> op_revision ?x"
    by (fastforce simp: append_op_def Let_def split: option.splits)
  have below: "\<exists>n. map_of (j_revisions ?j) (opKey y) = Some n \<and> 1 \<le> op_revision y \<and> op_revision y \<le> n"
    if "y \<in> journalOps ?j" for y
  proof (cases "y = ?x")
    case False
    then have y: "y \<in> journalOps j" using that ops by simp
    then show ?thesis
      using ok append_revision [OF ok y, of input uuid now] by (auto simp: rev journalOk_def)
  qed (simp add: rev pos)
  have "inj_on (\<lambda>x. (opKey x, op_revision x)) (journalOps ?j)"
    unfolding ops using ok append_revision [OF ok, of _ input uuid now] by (fastforce simp: journalOk_def)
  moreover have "\<forall>(i, y) \<in> set (j_operations ?j). i = op_id y"
    using ok set_putEntry [of uuid ?x "j_operations j"] by (auto simp: append_op_def Let_def journalOk_def)
  moreover have "\<forall>(k, n) \<in> set (j_revisions ?j). 1 \<le> n"
    using ok pos set_putEntry [of "opKey ?x" "op_revision ?x" "j_revisions j"]
    by (auto simp: append_op_def Let_def journalOk_def opKey_def)
  moreover have "storeOk (j_operations ?j)" "storeOk (j_revisions ?j)"
    using st by (simp_all add: append_op_def Let_def storeOk_putEntry)
  ultimately show ?thesis using below by (simp add: journalOk_def)
qed

text \<open>C34. Starting from a well-formed journal, whatever is appended (with fresh identifiers) and acknowledged
  in whatever order, the pending operations of one entity carry pairwise different revisions, all at
  least 1, and the next operation of the entity is numbered above all of them.\<close>

theorem journal_revisions_unique:
  assumes "journalStep\<^sup>*\<^sup>* j0 j" and "journalOk j0"
  shows "journalOk j \<and>
    (\<forall>x \<in> journalOps j. \<forall>y \<in> journalOps j. opKey x = opKey y \<longrightarrow> op_revision x = op_revision y \<longrightarrow> x = y) \<and>
    (\<forall>x \<in> journalOps j. \<forall>input uuid now. opKey x = opKey (fst (append_op j input uuid now)) \<longrightarrow>
       1 \<le> op_revision x \<and> op_revision x < op_revision (fst (append_op j input uuid now)))"
proof -
  have ok: "journalOk j"
    using assms
    by (induction rule: rtranclp_induct) (auto elim!: journalStepE intro: journalOk_append journalOk_acknowledge)
  then have "inj_on (\<lambda>x. (opKey x, op_revision x)) (journalOps j)" and "\<forall>x \<in> journalOps j. 1 \<le> op_revision x"
    by (auto simp: journalOk_def)
  then show ?thesis using ok append_revision [OF ok] by (auto simp: inj_on_def)
qed

definition emptyJournal :: Journal where
  "emptyJournal = \<lparr>j_operations = [], j_revisions = []\<rparr>"

definition exampleInput :: NewSyncOperation where
  "exampleInput = \<lparr>new_entity = ''progress'', new_entityId = ''book'', new_operation = ''upsert'', new_payload = JNull\<rparr>"

theorem journal_revisions_unique_witness:
  "let j = snd (append_op emptyJournal exampleInput ''uuid-1'' ''2024-05-01T10:00:00.000Z'') in
   journalOk (acknowledge (snd (append_op j exampleInput ''uuid-2'' ''2024-05-01T10:00:01.000Z'')) [''uuid-1''])"
proof -
  let ?j1 = "snd (append_op emptyJournal exampleInput ''uuid-1'' ''2024-05-01T10:00:00.000Z'')"
  let ?j2 = "snd (append_op ?j1 exampleInput ''uuid-2'' ''2024-05-01T10:00:01.000Z'')"
  have "map_of (j_operations emptyJournal) ''uuid-1'' = None" "map_of (j_operations ?j1) ''uuid-2'' = None"
    by code_simp+
  then have steps: "journalStep emptyJournal ?j1" "journalStep ?j1 ?j2" "journalStep ?j2 (acknowledge ?j2 [''uuid-1''])"
    by (simp_all only: journal_append journal_acknowledge)
  have three: "r a b \<Longrightarrow> r b c \<Longrightarrow> r c d \<Longrightarrow> r\<^sup>*\<^sup>* a d" for r :: "Journal \<Rightarrow> Journal \<Rightarrow> bool" and a b c d
    by simp
  have "journalStep\<^sup>*\<^sup>* emptyJournal (acknowledge ?j2 [''uuid-1''])" by (rule three [OF steps])
  moreover have "journalOk emptyJournal" by (simp add: journalOk_def emptyJournal_def)
  ultimately show ?thesis unfolding Let_def by (rule journal_revisions_unique [THEN conjunct1])
qed

lemma journalOps_acknowledge:
  assumes "journalOk j"
  shows "journalOps (acknowledge j ids) = {x \<in> journalOps j. op_id x \<notin> set ids}"
proof -
  have st: "storeOk (j_operations j)" and key: "\<And>i x. (i, x) \<in> set (j_operations j) \<Longrightarrow> i = op_id x"
    using assms by (auto simp: journalOk_def)
  show ?thesis using mem_acknowledge [OF st] key by force
qed

lemma journalOps_inj:
  assumes "journalOk j"
  shows "inj_on op_id (journalOps j)"
proof (rule inj_onI)
  fix x y assume xy: "x \<in> journalOps j" "y \<in> journalOps j" "op_id x = op_id y"
  have "(op_id z, z) \<in> set (j_operations j)" if "z \<in> journalOps j" for z
    using assms that by (auto simp: journalOk_def)
  then have "(op_id x, x) \<in> set (j_operations j)" "(op_id x, y) \<in> set (j_operations j)"
    using xy by metis+
  then show "x = y"
    using assms eq_key_imp_eq_value [OF storeOk_distinct] by (auto simp: journalOk_def)
qed

lemma set_pending_ops [simp]: "set (pending_ops lc j) = journalOps j"
  by (simp add: pending_ops_def)

text \<open>Acknowledging removes exactly the named operations from the pending list and keeps the numbering.\<close>

theorem acknowledge_removes:
  assumes "journalOk j"
  shows "set (pending_ops lc (acknowledge j ids)) = {x \<in> set (pending_ops lc j). op_id x \<notin> set ids} \<and>
    j_revisions (acknowledge j ids) = j_revisions j"
  using journalOps_acknowledge [OF assms] by (simp add: acknowledge_def)

theorem acknowledge_removes_witness:
  "set (pending_ops codeUnitCompare (acknowledge emptyJournal [''uuid-1''])) = {}"
  using acknowledge_removes [of emptyJournal codeUnitCompare "[''uuid-1'']"]
  by (simp add: journalOk_def emptyJournal_def pending_ops_def)

end
