(* ===== verification/Progress.thy ===== *)
theory Progress
  imports JSON_Text Library_Store Operation_Journal
begin

text \<open>
  Reading progress: \<open>progress-merge.ts\<close> and the merging part of \<open>progress-sync-service.ts\<close> of
  \<open>libs/sync/core/src/lib\<close>. Every device owns one document per book; the position shown is the latest of
  them, the furthest point is the maximum. Writes go through a journal, which is coalesced to one
  pending write per document.
\<close>

section \<open>Merging the documents of several devices\<close>

record ProgressMergeResult =
  pm_current :: "ReadingProgress option"
  pm_furthest :: jsnum
  pm_documents :: "ReadingProgress list"

definition compareProgress :: "(string \<Rightarrow> string \<Rightarrow> int) \<Rightarrow> ReadingProgress \<Rightarrow> ReadingProgress \<Rightarrow> int" where
  "compareProgress localeCompare left right =
     cmpOr (localeCompare (rp_updatedAt right) (rp_updatedAt left))
       (localeCompare (rp_deviceId right) (rp_deviceId left))"

definition mergeDeviceProgress :: "(string \<Rightarrow> string \<Rightarrow> int) \<Rightarrow> ReadingProgress list \<Rightarrow> ProgressMergeResult" where
  "mergeDeviceProgress localeCompare documents =
     (let valid = filter (\<lambda>p. isReadingProgress (progressVal p)) documents in
      \<lparr>pm_current = (case jsSort (compareProgress localeCompare) valid of [] \<Rightarrow> None | p # _ \<Rightarrow> Some p),
       pm_furthest = foldl (\<lambda>maximum progress. mathMax maximum (rp_furthest progress)) (Fin 0) valid,
       pm_documents = valid\<rparr>)"

section \<open>Merging two versions of one document\<close>

datatype ProgressError = DifferentDocuments | SyncConflictError | TransportFailure | RepositoryFailure RepositoryError

abbreviation progressPath :: "ReadingProgress \<Rightarrow> string" where
  "progressPath p \<equiv> progressDocumentPath (rp_bookId p) (rp_deviceId p)"

definition selectProgress :: "(string \<Rightarrow> string \<Rightarrow> int) \<Rightarrow> ReadingProgress \<Rightarrow> ReadingProgress \<Rightarrow> ReadingProgress" where
  "selectProgress localeCompare left right =
     (let byUpdatedAt = localeCompare (rp_updatedAt left) (rp_updatedAt right) in
      if byUpdatedAt > 0 then left
      else if byUpdatedAt < 0 then right
      else if localeCompare (stringify (progressVal left)) (stringify (progressVal right)) \<ge> 0 then left else right)"

definition mergeProgressDocument ::
  "(string \<Rightarrow> string \<Rightarrow> int) \<Rightarrow> ReadingProgress \<Rightarrow> ReadingProgress \<Rightarrow> ProgressError + ReadingProgress" where
  "mergeProgressDocument localeCompare left right =
     (if progressPath left \<noteq> progressPath right then Inl DifferentDocuments
      else Inr ((selectProgress localeCompare left right)
        \<lparr>rp_furthest := mathMax (rp_furthest left) (rp_furthest right)\<rparr>))"

section \<open>Journal operations\<close>

text \<open>Removing the property \<open>position\<close> and rebuilding the nested objects.\<close>

definition setProp :: "jsval \<Rightarrow> string \<Rightarrow> jsval \<Rightarrow> jsval" where
  "setProp v k w = (case v of JObj kvs \<Rightarrow> JObj (mapSet k w kvs) | _ \<Rightarrow> v)"

definition deleteProp :: "jsval \<Rightarrow> string \<Rightarrow> jsval" where
  "deleteProp v k = (case v of JObj kvs \<Rightarrow> JObj (mapDelete k kvs) | _ \<Rightarrow> v)"

definition normalizeProgressOperationPayload :: "jsval \<Rightarrow> jsval option" where
  "normalizeProgressOperationPayload v =
     (if isReadingProgress v then Some v
      else if \<not> isRecord v then None
      else let locator = getProp v ''locator'' in
        if \<not> isRecord locator then None
        else let locations = getProp locator ''locations'' in
          if \<not> isRecord locations \<or> getProp locations ''position'' \<noteq> JInt (-1) then None
          else let normalized = setProp v ''locator'' (setProp locator ''locations'' (deleteProp locations ''position''))
            in if isReadingProgress normalized then Some normalized else None)"

record PendingProgressWrite =
  pw_progress :: ReadingProgress
  pw_operationIds :: "string list"
  pw_latest :: SyncOperation

definition compareOperations :: "(string \<Rightarrow> string \<Rightarrow> int) \<Rightarrow> SyncOperation \<Rightarrow> SyncOperation \<Rightarrow> int" where
  "compareOperations localeCompare left right =
     cmpOr (localeCompare (rp_updatedAt (progressOf (op_payload left))) (rp_updatedAt (progressOf (op_payload right))))
       (cmpOr (op_revision left - op_revision right)
         (cmpOr (localeCompare (op_createdAt left) (op_createdAt right))
           (localeCompare (op_id left) (op_id right))))"

type_synonym PendingWrites = "(string, PendingProgressWrite) jsMap"

text \<open>The progress of an operation that is accepted, \<open>None\<close> for one the loop skips.\<close>

definition acceptedProgress :: "SyncOperation \<Rightarrow> jsval option" where
  "acceptedProgress operation =
     (case normalizeProgressOperationPayload (op_payload operation) of
        None \<Rightarrow> None
      | Some progress \<Rightarrow>
          if op_entity operation \<noteq> ''progress'' \<or> op_operation operation \<noteq> ''upsert'' \<or>
             op_entityId operation \<noteq> rp_bookId (progressOf progress)
          then None else Some progress)"

definition coalesceOperation ::
  "(string \<Rightarrow> string \<Rightarrow> int) \<Rightarrow> PendingWrites \<times> nat \<Rightarrow> SyncOperation \<Rightarrow> PendingWrites \<times> nat" where
  "coalesceOperation localeCompare state operation =
     (case acceptedProgress operation of
        None \<Rightarrow> state
      | Some payload \<Rightarrow>
          (let progress = progressOf payload; normalized = operation\<lparr>op_payload := payload\<rparr>;
               path = progressPath progress; documents = fst state
           in (case map_of documents path of
                 None \<Rightarrow> mapSet path \<lparr>pw_progress = progress, pw_operationIds = [op_id operation], pw_latest = normalized\<rparr> documents
               | Some existing \<Rightarrow>
                   (let appended = existing\<lparr>pw_operationIds := pw_operationIds existing @ [op_id operation]\<rparr> in
                    mapSet path (if compareOperations localeCompare normalized (pw_latest existing) > 0
                      then appended\<lparr>pw_progress := progress, pw_latest := normalized\<rparr> else appended) documents),
               Suc (snd state))))"

definition coalesceProgressOperations ::
  "(string \<Rightarrow> string \<Rightarrow> int) \<Rightarrow> SyncOperation list \<Rightarrow> PendingWrites \<times> nat" where
  "coalesceProgressOperations localeCompare operations = foldl (coalesceOperation localeCompare) ([], 0) operations"

definition syntheticProgressOperation :: "ReadingProgress \<Rightarrow> SyncOperation" where
  "syntheticProgressOperation progress =
     \<lparr>op_id = ''snapshot:'' @ rp_bookId progress @ '':'' @ rp_deviceId progress, op_entity = ''progress'',
      op_entityId = rp_bookId progress, op_operation = ''upsert'', op_revision = 0,
      op_createdAt = rp_updatedAt progress, op_payload = progressVal progress\<rparr>"

definition mergeProgressSnapshot ::
  "(string \<Rightarrow> string \<Rightarrow> int) \<Rightarrow> PendingWrites \<Rightarrow> ReadingProgress \<Rightarrow> ProgressError + PendingWrites" where
  "mergeProgressSnapshot localeCompare documents progress =
     (if \<not> isReadingProgress (progressVal progress) then Inr documents
      else let path = progressPath progress in
        case map_of documents path of
          None \<Rightarrow> Inr (mapSet path \<lparr>pw_progress = progress, pw_operationIds = [],
            pw_latest = syntheticProgressOperation progress\<rparr> documents)
        | Some existing \<Rightarrow>
            andThen (mergeProgressDocument localeCompare (pw_progress existing) progress) (\<lambda>merged.
              Inr (mapSet path (existing\<lparr>pw_progress := merged\<rparr>) documents)))"

section \<open>The latest position and the furthest point\<close>

lemma compareProgress_comparator:
  assumes "collation lc"
  shows "comparator (compareProgress lc)"
proof -
  have "comparator (\<lambda>l r. lc (f r) (f l))" for f :: "ReadingProgress \<Rightarrow> string"
    using comparator_flip [OF collation.lc_key [OF assms, of f]] .
  then show ?thesis unfolding compareProgress_def by (intro comparator_cmpOr)
qed

lemma furthest_fold:
  assumes "\<forall>p \<in> set ps. isReadingProgress (progressVal p)" and "0 \<le> q" and "q \<le> 1"
  shows "\<exists>m. foldl (\<lambda>x p. mathMax x (rp_furthest p)) (Fin q) ps = Fin m \<and> q \<le> m \<and> m \<le> 1 \<and>
    (\<forall>p \<in> set ps. \<exists>r. rp_furthest p = Fin r \<and> r \<le> m) \<and> (m = q \<or> (\<exists>p \<in> set ps. rp_furthest p = Fin m))"
  using assms
proof (induction ps arbitrary: q)
  case (Cons p ps)
  obtain r where r: "rp_furthest p = Fin r" "0 \<le> r" "r \<le> 1"
    using Cons.prems(1) by (auto simp: isReadingProgress_iff)
  have "\<exists>m. foldl (\<lambda>x p. mathMax x (rp_furthest p)) (Fin (max q r)) ps = Fin m \<and> max q r \<le> m \<and> m \<le> 1 \<and>
      (\<forall>p \<in> set ps. \<exists>r. rp_furthest p = Fin r \<and> r \<le> m) \<and> (m = max q r \<or> (\<exists>p \<in> set ps. rp_furthest p = Fin m))"
    by (rule Cons.IH) (use Cons.prems r in auto)
  then obtain m where m: "foldl (\<lambda>x p. mathMax x (rp_furthest p)) (Fin (max q r)) ps = Fin m" "max q r \<le> m" "m \<le> 1"
    "\<forall>p \<in> set ps. \<exists>r. rp_furthest p = Fin r \<and> r \<le> m" "m = max q r \<or> (\<exists>p \<in> set ps. rp_furthest p = Fin m)"
    by blast
  show ?case
    by (rule exI [of _ m]) (use m r in \<open>auto simp: mathMax_Fin max_def split: if_splits\<close>)
qed simp

lemma mergeDeviceProgress_spec:
  assumes "collation lc"
  shows "let r = mergeDeviceProgress lc documents;
      valid = {p \<in> set documents. isReadingProgress (progressVal p)} in
    set (pm_documents r) = valid \<and>
    (pm_current r = None \<longleftrightarrow> valid = {}) \<and>
    (\<forall>c. pm_current r = Some c \<longrightarrow> c \<in> valid \<and>
       (\<forall>p \<in> valid. lc (rp_updatedAt p) (rp_updatedAt c) < 0 \<or>
          lc (rp_updatedAt p) (rp_updatedAt c) = 0 \<and> lc (rp_deviceId p) (rp_deviceId c) \<le> 0)) \<and>
    (\<exists>m. pm_furthest r = Fin m \<and> 0 \<le> m \<and> m \<le> 1 \<and>
       (\<forall>p \<in> valid. \<exists>q. rp_furthest p = Fin q \<and> q \<le> m) \<and> (m = 0 \<or> (\<exists>p \<in> valid. rp_furthest p = Fin m)))"
proof -
  define vs where "vs = filter (\<lambda>p. isReadingProgress (progressVal p)) documents"
  have set: "set vs = {p \<in> set documents. isReadingProgress (progressVal p)}" by (auto simp: vs_def)
  have cur: "pm_current (mergeDeviceProgress lc documents) = (if vs = [] then None else Some (hd (jsSort (compareProgress lc) vs)))"
    by (auto simp: mergeDeviceProgress_def Let_def vs_def [symmetric] split: list.splits)
  have best: "lc (rp_updatedAt p) (rp_updatedAt c) < 0 \<or>
      lc (rp_updatedAt p) (rp_updatedAt c) = 0 \<and> lc (rp_deviceId p) (rp_deviceId c) \<le> 0"
    if "p \<in> set vs" and "c = hd (jsSort (compareProgress lc) vs)" for p c
    using comparator.hd_jsSort_least [OF compareProgress_comparator [OF assms], of vs p] that
    by (cases "vs = []") (auto simp: compareProgress_def cmpOr_def split: if_splits)
  have mem: "hd (jsSort (compareProgress lc) vs) \<in> set vs" if "vs \<noteq> []"
    using that by (metis jsSort_empty_iff list.set_sel(1) set_jsSort)
  obtain m where "pm_furthest (mergeDeviceProgress lc documents) = Fin m" "0 \<le> m" "m \<le> 1"
    "\<forall>p \<in> set vs. \<exists>r. rp_furthest p = Fin r \<and> r \<le> m" "m = 0 \<or> (\<exists>p \<in> set vs. rp_furthest p = Fin m)"
    using furthest_fold [of vs 0] by (auto simp: mergeDeviceProgress_def Let_def vs_def)
  moreover have "set (pm_documents (mergeDeviceProgress lc documents)) = set vs"
    by (simp add: mergeDeviceProgress_def Let_def vs_def)
  ultimately show ?thesis
    unfolding Let_def set [symmetric] using cur best mem by auto
qed

text \<open>The position shown for a book is that of a valid document with the latest update, ties broken by
  device; the furthest point is the largest of the valid documents (zero if there is none) and stays
  between 0 and 1. Invalid documents have no influence.\<close>

theorem device_progress_merge:
  assumes "collation lc"
  shows "let r = mergeDeviceProgress lc documents;
      valid = {p \<in> set documents. isReadingProgress (progressVal p)} in
    set (pm_documents r) = valid \<and>
    (pm_current r = None \<longleftrightarrow> valid = {}) \<and>
    (\<forall>c. pm_current r = Some c \<longrightarrow> c \<in> valid \<and>
       (\<forall>p \<in> valid. lc (rp_updatedAt p) (rp_updatedAt c) < 0 \<or>
          lc (rp_updatedAt p) (rp_updatedAt c) = 0 \<and> lc (rp_deviceId p) (rp_deviceId c) \<le> 0)) \<and>
    (\<exists>m. pm_furthest r = Fin m \<and> 0 \<le> m \<and> m \<le> 1 \<and>
       (\<forall>p \<in> valid. \<exists>q. rp_furthest p = Fin q \<and> q \<le> m) \<and> (m = 0 \<or> (\<exists>p \<in> valid. rp_furthest p = Fin m)))"
  by (rule mergeDeviceProgress_spec [OF assms])

definition sampleProgress :: ReadingProgress where
  "sampleProgress = \<lparr>rp_bookId = ''sha256:'' @ sampleHash, rp_format = Epub, rp_deviceId = ''device-a'',
     rp_locator = \<lparr>href = ''text/chapter-1.xhtml'', loc_type = ''application/xhtml+xml'', loc_title = None,
       locations = None, loc_text = None\<rparr>,
     rp_furthest = Fin (1 / 4), rp_updatedAt = ''2024-05-02T10:00:00.000Z'', rp_appVersion = ''1.0.0''\<rparr>"

theorem device_progress_merge_witness:
  "\<exists>m. pm_furthest (mergeDeviceProgress codeUnitCompare
      [sampleProgress, sampleProgress\<lparr>rp_deviceId := ''device-b'', rp_furthest := Fin (1 / 2)\<rparr>]) = Fin m \<and> m \<le> 1"
  using device_progress_merge [OF ascii.collation_axioms,
      of "[sampleProgress, sampleProgress\<lparr>rp_deviceId := ''device-b'', rp_furthest := Fin (1 / 2)\<rparr>]"]
  unfolding Let_def by blast

section \<open>One document\<close>

lemma selectProgress_cases: "selectProgress lc l r = l \<or> selectProgress lc l r = r"
  by (simp add: selectProgress_def Let_def)

lemma mergeProgressDocument_ok:
  assumes "collation lc" and "isReadingProgress (progressVal l)" and "isReadingProgress (progressVal r)"
  shows "mergeProgressDocument lc l r = Inl DifferentDocuments \<and> progressPath l \<noteq> progressPath r \<or>
    (\<exists>m. mergeProgressDocument lc l r = Inr m \<and> progressPath m = progressPath l \<and> progressPath m = progressPath r \<and>
      isReadingProgress (progressVal m) \<and>
      numLe (rp_furthest l) (rp_furthest m) \<and> numLe (rp_furthest r) (rp_furthest m) \<and>
      lc (rp_updatedAt l) (rp_updatedAt m) \<le> 0 \<and> lc (rp_updatedAt r) (rp_updatedAt m) \<le> 0)"
proof (cases "progressPath l = progressPath r")
  case True
  obtain a b where ab: "rp_furthest l = Fin a" "0 \<le> a" "a \<le> 1" "rp_furthest r = Fin b" "0 \<le> b" "b \<le> 1"
    using assms(2,3) by (auto simp: isReadingProgress_iff)
  let ?s = "selectProgress lc l r"
  let ?m = "?s\<lparr>rp_furthest := mathMax (rp_furthest l) (rp_furthest r)\<rparr>"
  have later: "lc (rp_updatedAt l) (rp_updatedAt ?s) \<le> 0" "lc (rp_updatedAt r) (rp_updatedAt ?s) \<le> 0"
  proof -
    note c = assms(1) [unfolded collation_def]
    show "lc (rp_updatedAt l) (rp_updatedAt ?s) \<le> 0"
      using comparator.cmp_refl [OF c] by (auto simp: selectProgress_def Let_def)
    show "lc (rp_updatedAt r) (rp_updatedAt ?s) \<le> 0"
      using comparator.cmp_refl [OF c] comparator.cmp_le_iff [OF c, of "rp_updatedAt r" "rp_updatedAt l"]
      by (auto simp: selectProgress_def Let_def)
  qed
  have "isReadingProgress (progressVal ?m)"
    using assms(2,3) ab selectProgress_cases [of lc l r] by (auto simp: isReadingProgress_iff mathMax_Fin max_def)
  moreover have "progressPath ?m = progressPath l"
    using selectProgress_cases [of lc l r] True by auto
  ultimately show ?thesis
    using True later ab by (simp add: mergeProgressDocument_def mathMax_Fin)
qed (simp add: mergeProgressDocument_def)

text \<open>Merging two valid versions of a device's document keeps the later position and never moves the
  furthest point back; the result is again a valid version of the same document. Versions of different
  documents are refused.\<close>

theorem progress_document_merge:
  assumes "collation lc" and "isReadingProgress (progressVal l)" and "isReadingProgress (progressVal r)"
  shows "mergeProgressDocument lc l r = Inl DifferentDocuments \<and> progressPath l \<noteq> progressPath r \<or>
    (\<exists>m. mergeProgressDocument lc l r = Inr m \<and> progressPath m = progressPath l \<and> progressPath m = progressPath r \<and>
      isReadingProgress (progressVal m) \<and>
      numLe (rp_furthest l) (rp_furthest m) \<and> numLe (rp_furthest r) (rp_furthest m) \<and>
      lc (rp_updatedAt l) (rp_updatedAt m) \<le> 0 \<and> lc (rp_updatedAt r) (rp_updatedAt m) \<le> 0)"
  by (rule mergeProgressDocument_ok [OF assms])

lemma isReadingProgress_sample: "isReadingProgress (progressVal sampleProgress)"
  by code_simp

theorem progress_document_merge_witness:
  "\<exists>m. mergeProgressDocument codeUnitCompare sampleProgress sampleProgress = Inr m \<and> isReadingProgress (progressVal m)"
  using progress_document_merge [OF ascii.collation_axioms isReadingProgress_sample isReadingProgress_sample] by blast

section \<open>Coalescing the journal\<close>

definition writeIds :: "PendingWrites \<Rightarrow> string multiset" where
  "writeIds documents = mset (concat (map pw_operationIds (mapValues documents)))"

definition writesOk :: "PendingWrites \<Rightarrow> bool" where
  "writesOk documents \<longleftrightarrow> keyed (\<lambda>w. progressPath (pw_progress w)) documents"

lemma filter_length_full: "length xs - length (filter P xs) = 0 \<Longrightarrow> \<forall>x \<in> set xs. P x"
  using length_filter_less [of _ xs P] by fastforce

lemma writeIds_fresh:
  "path \<notin> fst ` set documents \<Longrightarrow> writeIds (mapSet path w documents) = writeIds documents + mset (pw_operationIds w)"
  by (simp add: mapSet_fresh writeIds_def mapValues_def)

lemma writeIds_append:
  "mapOk documents \<Longrightarrow> map_of documents path = Some w \<Longrightarrow> pw_operationIds w' = pw_operationIds w @ [i] \<Longrightarrow>
   writeIds (mapSet path w' documents) = add_mset i (writeIds documents)"
proof (induction documents)
  case (Cons d documents)
  then show ?case by (cases d) (auto simp: writeIds_def mapValues_def split: if_splits)
qed simp

lemma writeIds_same:
  "mapOk documents \<Longrightarrow> map_of documents path = Some w \<Longrightarrow> pw_operationIds w' = pw_operationIds w \<Longrightarrow>
   writeIds (mapSet path w' documents) = writeIds documents"
proof (induction documents)
  case (Cons d documents)
  then show ?case by (cases d) (auto simp: writeIds_def mapValues_def split: if_splits)
qed simp

lemma coalesceOperation_step:
  assumes "writesOk (fst s)"
  shows "writesOk (fst (coalesceOperation lc s operation)) \<and>
    writeIds (fst (coalesceOperation lc s operation)) =
      (if acceptedProgress operation = None then writeIds (fst s) else add_mset (op_id operation) (writeIds (fst s))) \<and>
    snd (coalesceOperation lc s operation) = snd s + (if acceptedProgress operation = None then 0 else 1)"
proof (cases "acceptedProgress operation")
  case (Some v)
  let ?p = "progressPath (progressOf v)"
  have ok: "mapOk (fst s)" using assms by (simp add: writesOk_def keyed_def)
  show ?thesis
  proof (cases "map_of (fst s) ?p")
    case None
    then have "?p \<notin> fst ` set (fst s)" by (simp add: map_of_eq_None_iff)
    then show ?thesis
      using assms Some None by (simp add: coalesceOperation_def Let_def writesOk_def keyed_mapSet writeIds_fresh)
  next
    case w: (Some w)
    have "progressPath (pw_progress w) = ?p"
      using assms w by (auto simp: writesOk_def keyed_def dest: map_of_SomeD)
    then show ?thesis
      using assms Some w writeIds_append [OF ok w]
      by (simp add: coalesceOperation_def Let_def writesOk_def keyed_mapSet)
  qed
qed (use assms in \<open>simp add: coalesceOperation_def\<close>)

lemma coalesce_accounts:
  "let (documents, accepted) = coalesceProgressOperations lc operations in
   writeIds documents = mset (map op_id (filter (\<lambda>o'. acceptedProgress o' \<noteq> None) operations)) \<and>
   accepted = length (filter (\<lambda>o'. acceptedProgress o' \<noteq> None) operations) \<and>
   mapOk documents \<and> (\<forall>(path, w) \<in> set documents. progressPath (pw_progress w) = path)"
proof -
  have loop: "writesOk (fst (foldl (coalesceOperation lc) s ops)) \<and>
      writeIds (fst (foldl (coalesceOperation lc) s ops)) =
        writeIds (fst s) + mset (map op_id (filter (\<lambda>o'. acceptedProgress o' \<noteq> None) ops)) \<and>
      snd (foldl (coalesceOperation lc) s ops) = snd s + length (filter (\<lambda>o'. acceptedProgress o' \<noteq> None) ops)"
    if "writesOk (fst s)" for s ops
    using that
  proof (induction ops arbitrary: s)
    case (Cons x xs)
    from coalesceOperation_step [OF Cons.prems, of lc x]
    show ?case using Cons.IH [of "coalesceOperation lc s x"] by auto
  qed simp
  show ?thesis
    using loop [of "([], 0)" operations]
    by (auto simp: coalesceProgressOperations_def writesOk_def keyed_def writeIds_def mapValues_def split_beta)
qed

text \<open>Coalescing the journal loses no operation and counts none twice: every accepted operation is
  acknowledged by exactly one pending write, namely together with the document at that write's path,
  and the number of accepted operations is the one reported.\<close>

theorem coalesce_accounts_operations:
  "let (documents, accepted) = coalesceProgressOperations lc operations in
   writeIds documents = mset (map op_id (filter (\<lambda>o'. acceptedProgress o' \<noteq> None) operations)) \<and>
   accepted = length (filter (\<lambda>o'. acceptedProgress o' \<noteq> None) operations) \<and>
   mapOk documents \<and> (\<forall>(path, w) \<in> set documents. progressPath (pw_progress w) = path)"
  by (rule coalesce_accounts)

theorem coalesce_accounts_operations_witness:
  "snd (coalesceProgressOperations codeUnitCompare [syntheticProgressOperation sampleProgress]) = 1"
proof -
  have "acceptedProgress (syntheticProgressOperation sampleProgress) \<noteq> None" by code_simp
  then show ?thesis
    using coalesce_accounts_operations [of codeUnitCompare "[syntheticProgressOperation sampleProgress]"]
    by (simp add: split_beta)
qed

end
