(* ===== verification/Progress_Sync.thy ===== *)
theory Progress_Sync
  imports Progress
begin

text \<open>
  The synchronization of reading progress: \<open>ProgressSyncService\<close> of
  \<open>libs/sync/core/src/lib/progress-sync-service.ts\<close>, running on the local library, the journal and a
  remote transport. The transport is an interface with several providers: its calls are parameters on a
  remote state \<open>'r\<close>, which other devices may change between the calls. The waiting between two attempts
  is left out, and \<open>synchronize\<close>, which shares a running synchronization between its callers, is
  \<open>runSynchronization\<close> here.
\<close>

section \<open>State\<close>

record RemoteDocument =
  rd_path :: string
  rd_content :: string
  rd_revision :: string

record 'r Transport =
  tr_list :: "'r \<Rightarrow> string \<Rightarrow> (ProgressError + RemoteDocument list) \<times> 'r"
  tr_read :: "'r \<Rightarrow> string \<Rightarrow> (ProgressError + RemoteDocument option) \<times> 'r"
  tr_write :: "'r \<Rightarrow> string \<Rightarrow> string \<Rightarrow> string option \<Rightarrow> (ProgressError + RemoteDocument) \<times> 'r"

record 'r SyncState =
  ss_remote :: 'r
  ss_known :: "(string, RemoteDocument) jsMap"
  ss_db :: LibraryDb
  ss_journal :: Journal

record PushResult =
  pu_pushed :: bool
  pu_conflicts :: nat
  pu_rejected :: nat

record ProgressSyncResult =
  sr_pulled :: nat
  sr_pushed :: nat
  sr_conflicts :: nat
  sr_rejected :: nat

section \<open>Documents\<close>

definition parseProgressFile :: "RemoteDocument \<Rightarrow> ReadingProgress option" where
  "parseProgressFile file =
     (case parseJson (rd_content file) of
        None \<Rightarrow> None
      | Some v \<Rightarrow> if isReadingProgress v then Some (progressOf v) else None)"

definition serializeProgress :: "ReadingProgress \<Rightarrow> string" where
  "serializeProgress progress = prettyAt 0 (progressVal progress) @ [CHR 0x0A]"

section \<open>Pushing a document\<close>

definition rememberDocument :: "string \<Rightarrow> RemoteDocument option \<Rightarrow> 'r SyncState \<Rightarrow> 'r SyncState" where
  "rememberDocument path current st = st\<lparr>ss_known := (case current of
     Some d \<Rightarrow> mapSet path d (ss_known st) | None \<Rightarrow> mapDelete path (ss_known st))\<rparr>"

text \<open>Storing the document locally, then acknowledging the operations it stands for.\<close>

definition finishPush ::
  "PendingProgressWrite \<Rightarrow> ReadingProgress \<Rightarrow> PushResult \<Rightarrow> 'r SyncState \<Rightarrow> (ProgressError + PushResult) \<times> 'r SyncState" where
  "finishPush pending progress result st =
     (case saveProgressDocument (ss_db st) progress of
        (Inl e, db) \<Rightarrow> (Inl (RepositoryFailure e), st\<lparr>ss_db := db\<rparr>)
      | (Inr _, db) \<Rightarrow> (Inr result, st\<lparr>ss_db := db, ss_journal := acknowledge (ss_journal st) (pw_operationIds pending)\<rparr>))"

text \<open>The document to write: the remote version merged with the pending one.\<close>

definition progressToWrite ::
  "(string \<Rightarrow> string \<Rightarrow> int) \<Rightarrow> ReadingProgress option \<Rightarrow> ReadingProgress \<Rightarrow> ProgressError + ReadingProgress" where
  "progressToWrite localeCompare remoteProgress pending =
     (case remoteProgress of Some r \<Rightarrow> mergeProgressDocument localeCompare r pending | None \<Rightarrow> Inr pending)"

text \<open>A remote document that is unreadable or belongs to another device or book is left alone.\<close>

definition foreignDocument :: "RemoteDocument option \<Rightarrow> ReadingProgress \<Rightarrow> bool" where
  "foreignDocument current pending =
     (case current of
        None \<Rightarrow> False
      | Some d \<Rightarrow>
          (case parseProgressFile d of
             None \<Rightarrow> True
           | Some r \<Rightarrow> rp_bookId r \<noteq> rp_bookId pending \<or> rp_deviceId r \<noteq> rp_deviceId pending))"

text \<open>
  The unbounded loop: the argument \<open>retries\<close> counts down from \<open>maxConflictRetries\<close> as \<open>attempt\<close> counts up.
  Only a conflict reported by the write is retried; every other error ends the push.
\<close>

fun pushAttempts ::
  "'r Transport \<Rightarrow> (string \<Rightarrow> string \<Rightarrow> int) \<Rightarrow> PendingProgressWrite \<Rightarrow> nat \<Rightarrow> nat \<Rightarrow> RemoteDocument option option \<Rightarrow>
     'r SyncState \<Rightarrow> (ProgressError + PushResult) \<times> 'r SyncState" where
  "pushAttempts transport localeCompare pending retries conflicts initialCurrent st0 =
     (let path = progressPath (pw_progress pending);
          (found, remote1) = (case initialCurrent of
            Some c \<Rightarrow> (Inr c, ss_remote st0) | None \<Rightarrow> tr_read transport (ss_remote st0) path)
      in case found of
           Inl e \<Rightarrow> (Inl e, st0\<lparr>ss_remote := remote1\<rparr>)
         | Inr current \<Rightarrow>
             (let st = rememberDocument path current (st0\<lparr>ss_remote := remote1\<rparr>) in
              if foreignDocument current (pw_progress pending)
              then (Inr \<lparr>pu_pushed = False, pu_conflicts = conflicts,
                      pu_rejected = max 1 (length (pw_operationIds pending))\<rparr>, st)
              else
                case progressToWrite localeCompare (Option.bind current parseProgressFile) (pw_progress pending) of
                  Inl e \<Rightarrow> (Inl e, st)
                | Inr progress \<Rightarrow>
                    (let content = serializeProgress progress in
                     if map_option rd_content current = Some content
                     then finishPush pending progress \<lparr>pu_pushed = False, pu_conflicts = conflicts, pu_rejected = 0\<rparr> st
                     else
                       let (outcome, remote2) = tr_write transport (ss_remote st) path content (map_option rd_revision current);
                           st' = st\<lparr>ss_remote := remote2\<rparr>
                       in case outcome of
                            Inr written \<Rightarrow>
                              finishPush pending progress \<lparr>pu_pushed = True, pu_conflicts = conflicts, pu_rejected = 0\<rparr>
                                (rememberDocument path (Some written) st')
                          | Inl e \<Rightarrow>
                              (case retries of
                                 0 \<Rightarrow> (Inl e, st')
                               | Suc retries' \<Rightarrow>
                                   if e \<noteq> SyncConflictError then (Inl e, st')
                                   else pushAttempts transport localeCompare pending retries' (Suc conflicts) None st'))))"

declare pushAttempts.simps [simp del]

definition pushProgress ::
  "'r Transport \<Rightarrow> (string \<Rightarrow> string \<Rightarrow> int) \<Rightarrow> nat \<Rightarrow> PendingProgressWrite \<Rightarrow> RemoteDocument option option \<Rightarrow>
     'r SyncState \<Rightarrow> (ProgressError + PushResult) \<times> 'r SyncState" where
  "pushProgress transport localeCompare maxConflictRetries pending initialCurrent st =
     pushAttempts transport localeCompare pending maxConflictRetries 0 initialCurrent st"

section \<open>Pushing the journal\<close>

text \<open>The loop over the pending writes; \<open>initial\<close> is the version the caller knows.\<close>

fun pushWrites ::
  "'r Transport \<Rightarrow> (string \<Rightarrow> string \<Rightarrow> int) \<Rightarrow> nat \<Rightarrow> ('r SyncState \<Rightarrow> string \<Rightarrow> RemoteDocument option option) \<Rightarrow>
     PendingProgressWrite list \<Rightarrow> ProgressSyncResult \<Rightarrow> 'r SyncState \<Rightarrow> (ProgressError + ProgressSyncResult) \<times> 'r SyncState" where
  "pushWrites transport localeCompare maxConflictRetries initial [] result st = (Inr result, st)"
| "pushWrites transport localeCompare maxConflictRetries initial (write # writes) result st =
     (case pushProgress transport localeCompare maxConflictRetries write
             (initial st (progressPath (pw_progress write))) st of
        (Inl e, st') \<Rightarrow> (Inl e, st')
      | (Inr r, st') \<Rightarrow> pushWrites transport localeCompare maxConflictRetries initial writes
          (result\<lparr>sr_pushed := sr_pushed result + (if pu_pushed r then 1 else 0),
                  sr_conflicts := sr_conflicts result + pu_conflicts r,
                  sr_rejected := sr_rejected result + pu_rejected r\<rparr>) st')"

fun mergeSnapshots ::
  "(string \<Rightarrow> string \<Rightarrow> int) \<Rightarrow> PendingWrites \<Rightarrow> ReadingProgress list \<Rightarrow> ProgressError + PendingWrites" where
  "mergeSnapshots localeCompare documents [] = Inr documents"
| "mergeSnapshots localeCompare documents (p # ps) =
     andThen (mergeProgressSnapshot localeCompare documents p) (\<lambda>documents. mergeSnapshots localeCompare documents ps)"

definition push ::
  "'r Transport \<Rightarrow> (string \<Rightarrow> string \<Rightarrow> int) \<Rightarrow> nat \<Rightarrow> (string, RemoteDocument) jsMap option \<Rightarrow> 'r SyncState \<Rightarrow>
     (ProgressError + ProgressSyncResult) \<times> 'r SyncState" where
  "push transport localeCompare maxConflictRetries knownDocuments st =
     (let progressOperations = filter (\<lambda>operation. op_entity operation = ''progress'') (pending_ops localeCompare (ss_journal st));
          (documents, acceptedCount) = coalesceProgressOperations localeCompare progressOperations;
          (stored, db1) = listProgressDocuments localeCompare (ss_db st) None;
          (shown, db2) = listProgress localeCompare db1;
          st = st\<lparr>ss_db := db2\<rparr>
      in case mergeSnapshots localeCompare documents (map progressOf stored @ map progressOf shown) of
           Inl e \<Rightarrow> (Inl e, st)
         | Inr writes \<Rightarrow>
             pushWrites transport localeCompare maxConflictRetries (\<lambda>_ path. map_option (\<lambda>known. map_of known path) knownDocuments)
               (mapValues writes)
               \<lparr>sr_pulled = 0, sr_pushed = 0, sr_conflicts = 0, sr_rejected = length progressOperations - acceptedCount\<rparr> st)"

definition synchronizePending ::
  "'r Transport \<Rightarrow> (string \<Rightarrow> string \<Rightarrow> int) \<Rightarrow> nat \<Rightarrow> SyncOperation list \<Rightarrow> 'r SyncState \<Rightarrow>
     (ProgressError + ProgressSyncResult) \<times> 'r SyncState" where
  "synchronizePending transport localeCompare maxConflictRetries operations st =
     (let progressOperations = filter (\<lambda>operation. op_entity operation = ''progress'') operations;
          (documents, acceptedCount) = coalesceProgressOperations localeCompare progressOperations;
          targetPaths = map fst documents;
          (stored, db1) = listProgressDocuments localeCompare (ss_db st) None;
          st = st\<lparr>ss_db := db1\<rparr>
      in case mergeSnapshots localeCompare documents (filter (\<lambda>p. progressPath p \<in> set targetPaths) (map progressOf stored)) of
           Inl e \<Rightarrow> (Inl e, st)
         | Inr writes \<Rightarrow>
             pushWrites transport localeCompare maxConflictRetries (\<lambda>st path. map_option Some (map_of (ss_known st) path))
               (mapValues writes)
               \<lparr>sr_pulled = 0, sr_pushed = 0, sr_conflicts = 0, sr_rejected = length progressOperations - acceptedCount\<rparr> st)"

section \<open>Pulling\<close>

record PullState =
  pl_known :: "(string, ReadingProgress) jsMap"
  pl_changed :: "(string, ReadingProgress) jsMap"
  pl_byBook :: "(string, ReadingProgress list) jsMap"
  pl_rejected :: nat
  pl_db :: LibraryDb

text \<open>\<open>const documents = map.get(key) ?? []; documents.push(value); map.set(key, documents)\<close>.\<close>

definition pushTo :: "'k \<Rightarrow> 'v \<Rightarrow> ('k, 'v list) jsMap \<Rightarrow> ('k, 'v list) jsMap" where
  "pushTo k v m = mapSet k ((case map_of m k of None \<Rightarrow> [] | Some vs \<Rightarrow> vs) @ [v]) m"

definition pullFile ::
  "(string \<Rightarrow> string \<Rightarrow> int) \<Rightarrow> RemoteDocument \<Rightarrow> PullState \<Rightarrow> ProgressError + PullState" where
  "pullFile localeCompare file s =
     (case parseProgressFile file of
        None \<Rightarrow> Inr (s\<lparr>pl_rejected := pl_rejected s + 1\<rparr>)
      | Some progress \<Rightarrow>
          if progressPath progress \<noteq> rd_path file then Inr (s\<lparr>pl_rejected := pl_rejected s + 1\<rparr>)
          else
            let (book, db) = getBook (pl_db s) (rp_bookId progress); s = s\<lparr>pl_db := db\<rparr> in
            case book of
              None \<Rightarrow> Inr s
            | Some b \<Rightarrow>
                if getProp b ''format'' \<noteq> formatVal (rp_format progress) then Inr (s\<lparr>pl_rejected := pl_rejected s + 1\<rparr>)
                else
                  let path = progressPath progress in
                  andThen (case map_of (pl_known s) path of
                      Some cached \<Rightarrow> mergeProgressDocument localeCompare cached progress | None \<Rightarrow> Inr progress)
                    (\<lambda>document. Inr (s\<lparr>pl_known := mapSet path document (pl_known s),
                       pl_changed := mapSet path document (pl_changed s),
                       pl_byBook := pushTo (rp_bookId progress) progress (pl_byBook s)\<rparr>)))"

fun pullFiles :: "(string \<Rightarrow> string \<Rightarrow> int) \<Rightarrow> RemoteDocument list \<Rightarrow> PullState \<Rightarrow> ProgressError + PullState" where
  "pullFiles localeCompare [] s = Inr s"
| "pullFiles localeCompare (file # files) s = andThen (pullFile localeCompare file s) (pullFiles localeCompare files)"

text \<open>The position of one book: the merge of the known documents with the local position.\<close>

definition pullBook ::
  "(string \<Rightarrow> string \<Rightarrow> int) \<Rightarrow> string \<Rightarrow> ReadingProgress list \<Rightarrow> LibraryDb \<Rightarrow> (RepositoryError + bool) \<times> LibraryDb" where
  "pullBook localeCompare bookId documents db =
     (let (found, db) = getProgress db bookId;
          local = map_option progressOf found;
          merged = mergeDeviceProgress localeCompare (case local of Some l \<Rightarrow> documents @ [l] | None \<Rightarrow> documents)
      in case pm_current merged of
           None \<Rightarrow> (Inr False, db)
         | Some current \<Rightarrow>
             let progress = current\<lparr>rp_furthest := pm_furthest merged\<rparr> in
             if map_option (\<lambda>l. stringify (progressVal l)) local \<noteq> Some (stringify (progressVal progress))
             then (case saveProgress db progress of (Inl e, db') \<Rightarrow> (Inl e, db') | (Inr _, db') \<Rightarrow> (Inr True, db'))
             else (Inr True, db))"

fun pullBooks ::
  "(string \<Rightarrow> string \<Rightarrow> int) \<Rightarrow> (string, ReadingProgress list) jsMap \<Rightarrow> (string \<times> ReadingProgress list) list \<Rightarrow> nat \<Rightarrow>
     LibraryDb \<Rightarrow> (RepositoryError + nat) \<times> LibraryDb" where
  "pullBooks localeCompare pulledByBook [] pulled db = (Inr pulled, db)"
| "pullBooks localeCompare pulledByBook ((bookId, documents) # rest) pulled db =
     (case pullBook localeCompare bookId documents db of
        (Inl e, db') \<Rightarrow> (Inl e, db')
      | (Inr counted, db') \<Rightarrow> pullBooks localeCompare pulledByBook rest
          (pulled + (if counted then (case map_of pulledByBook bookId of None \<Rightarrow> 0 | Some ps \<Rightarrow> length ps) else 0)) db')"

definition groupByBook :: "ReadingProgress list \<Rightarrow> (string, ReadingProgress list) jsMap" where
  "groupByBook ps = foldl (\<lambda>m p. pushTo (rp_bookId p) p m) [] ps"

definition pullDocuments ::
  "(string \<Rightarrow> string \<Rightarrow> int) \<Rightarrow> RemoteDocument list \<Rightarrow> LibraryDb \<Rightarrow> (ProgressError + ProgressSyncResult) \<times> LibraryDb" where
  "pullDocuments localeCompare remoteFiles db =
     (let (stored, db1) = listProgressDocuments localeCompare db None;
          known = mapBy progressPath (map progressOf stored)
      in case pullFiles localeCompare remoteFiles \<lparr>pl_known = known, pl_changed = [], pl_byBook = [], pl_rejected = 0, pl_db = db1\<rparr> of
           Inl e \<Rightarrow> (Inl e, db1)
         | Inr s \<Rightarrow>
             (case saveEach saveProgressDocument (pl_db s) (mapValues (pl_changed s)) of
                (Inl e, db2) \<Rightarrow> (Inl (RepositoryFailure e), db2)
              | (Inr _, db2) \<Rightarrow>
                  (case pullBooks localeCompare (pl_byBook s) (groupByBook (mapValues (pl_known s))) 0 db2 of
                     (Inl e, db3) \<Rightarrow> (Inl (RepositoryFailure e), db3)
                   | (Inr pulled, db3) \<Rightarrow>
                       (Inr \<lparr>sr_pulled = pulled, sr_pushed = 0, sr_conflicts = 0, sr_rejected = pl_rejected s\<rparr>, db3))))"

definition pull ::
  "'r Transport \<Rightarrow> (string \<Rightarrow> string \<Rightarrow> int) \<Rightarrow> RemoteDocument list option \<Rightarrow> 'r SyncState \<Rightarrow>
     (ProgressError + ProgressSyncResult) \<times> 'r SyncState" where
  "pull transport localeCompare files st =
     (case (case files of Some fs \<Rightarrow> (Inr fs, ss_remote st) | None \<Rightarrow> tr_list transport (ss_remote st) PROGRESS_ROOT) of
        (Inl e, remote) \<Rightarrow> (Inl e, st\<lparr>ss_remote := remote\<rparr>)
      | (Inr remoteFiles, remote) \<Rightarrow>
          (let (result, db) = pullDocuments localeCompare remoteFiles (ss_db st)
           in (result, st\<lparr>ss_remote := remote, ss_db := db\<rparr>)))"

section \<open>A whole synchronization\<close>

definition runSynchronization ::
  "'r Transport \<Rightarrow> (string \<Rightarrow> string \<Rightarrow> int) \<Rightarrow> nat \<Rightarrow> 'r SyncState \<Rightarrow> (ProgressError + ProgressSyncResult) \<times> 'r SyncState" where
  "runSynchronization transport localeCompare maxConflictRetries st =
     (case tr_list transport (ss_remote st) PROGRESS_ROOT of
        (Inl e, remote) \<Rightarrow> (Inl e, st\<lparr>ss_remote := remote\<rparr>)
      | (Inr files, remote) \<Rightarrow>
          (case pull transport localeCompare (Some files) (st\<lparr>ss_remote := remote, ss_known := mapBy rd_path files\<rparr>) of
             (Inl e, st1) \<Rightarrow> (Inl e, st1)
           | (Inr pulled, st1) \<Rightarrow>
               (case push transport localeCompare maxConflictRetries (Some (mapBy rd_path files)) st1 of
                  (Inl e, st2) \<Rightarrow> (Inl e, st2)
                | (Inr pushed, st2) \<Rightarrow>
                    (Inr \<lparr>sr_pulled = sr_pulled pulled, sr_pushed = sr_pushed pushed,
                          sr_conflicts = sr_conflicts pulled + sr_conflicts pushed,
                          sr_rejected = sr_rejected pulled + sr_rejected pushed\<rparr>, st2))))"

section \<open>What a push does\<close>

text \<open>How a push may end, seen from the journal and the local library.\<close>

definition pushOutcome ::
  "nat \<Rightarrow> PendingProgressWrite \<Rightarrow> 'r SyncState \<Rightarrow> (ProgressError + PushResult) \<times> 'r SyncState \<Rightarrow> bool" where
  "pushOutcome limit pending st out \<longleftrightarrow>
     (case fst out of
        Inl _ \<Rightarrow> ss_journal (snd out) = ss_journal st \<and> storedDocument (ss_db (snd out)) = storedDocument (ss_db st)
      | Inr r \<Rightarrow> pu_conflicts r \<le> limit \<and>
          (if pu_rejected r = 0
           then ss_journal (snd out) = acknowledge (ss_journal st) (pw_operationIds pending) \<and>
             (\<exists>p. storedDocument (ss_db (snd out)) =
                 (storedDocument (ss_db st))((rp_bookId (pw_progress pending), rp_deviceId (pw_progress pending)) \<mapsto> p) \<and>
               isReadingProgress (progressVal p) \<and> numLe (rp_furthest (pw_progress pending)) (rp_furthest p))
           else \<not> pu_pushed r \<and> ss_journal (snd out) = ss_journal st \<and>
             storedDocument (ss_db (snd out)) = storedDocument (ss_db st)))"

lemma progressToWrite_ok:
  assumes "collation lc" and "isReadingProgress (progressVal p)" and "\<not> foreignDocument current p"
  shows "\<exists>w. progressToWrite lc (Option.bind current parseProgressFile) p = Inr w \<and>
    rp_bookId w = rp_bookId p \<and> rp_deviceId w = rp_deviceId p \<and> isReadingProgress (progressVal w) \<and>
    numLe (rp_furthest p) (rp_furthest w)"
proof (cases current)
  case None
  then show ?thesis using assms(2) by (auto simp: progressToWrite_def isReadingProgress_iff)
next
  case (Some d)
  then obtain r where r: "parseProgressFile d = Some r" "rp_bookId r = rp_bookId p" "rp_deviceId r = rp_deviceId p"
    using assms(3) by (auto simp: foreignDocument_def split: option.splits)
  then have "isReadingProgress (progressVal r)"
    by (auto simp: parseProgressFile_def isReadingProgress_progressOf split: option.splits if_splits)
  from mergeProgressDocument_ok [OF assms(1) this assms(2)] obtain w where
    w: "mergeProgressDocument lc r p = Inr w" "isReadingProgress (progressVal w)" "numLe (rp_furthest p) (rp_furthest w)"
    using r by auto
  then have "rp_bookId w = rp_bookId p \<and> rp_deviceId w = rp_deviceId p"
    using r selectProgress_cases [of lc r p] by (auto simp: mergeProgressDocument_def split: if_splits)
  then show ?thesis using w r by (simp add: Some progressToWrite_def)
qed

lemma rememberDocument_simps [simp]:
  "ss_db (rememberDocument path d st) = ss_db st"
  "ss_journal (rememberDocument path d st) = ss_journal st"
  by (simp_all add: rememberDocument_def)

lemma finishPush_outcome:
  assumes "pu_conflicts r \<le> limit" and "pu_rejected r = 0"
    and "rp_bookId p = rp_bookId (pw_progress pending)" and "rp_deviceId p = rp_deviceId (pw_progress pending)"
    and "isReadingProgress (progressVal p)" and "numLe (rp_furthest (pw_progress pending)) (rp_furthest p)"
    and "ss_journal st = ss_journal st0" and "ss_db st = ss_db st0"
  shows "pushOutcome limit pending st0 (finishPush pending p r st)"
proof -
  obtain res db where sv: "saveProgressDocument (ss_db st0) p = (res, db)" by fastforce
  show ?thesis
  proof (cases res)
    case (Inl e)
    then have "storedDocument db = storedDocument (ss_db st0)"
      using documents.stored_error [of "ss_db st0" p e db] sv by auto
    then show ?thesis using assms sv Inl by (simp add: finishPush_def pushOutcome_def)
  next
    case (Inr u)
    then have "storedDocument db = (storedDocument (ss_db st0))((rp_bookId p, rp_deviceId p) \<mapsto> p)"
      using documents.stored_saved [of "ss_db st0" p db] sv by auto
    then show ?thesis using assms sv Inr by (auto simp: finishPush_def pushOutcome_def)
  qed
qed

text \<open>One attempt either ends in one of the described ways or goes on with one retry less.\<close>

lemma pushAttempts_step:
  fixes tr :: "'r Transport" and st :: "'r SyncState"
  assumes "collation lc" and "isReadingProgress (progressVal (pw_progress pending))"
    and again: "\<And>r' st'. retries = Suc r' \<Longrightarrow> ss_journal st' = ss_journal st \<Longrightarrow> ss_db st' = ss_db st \<Longrightarrow>
      pushOutcome (conflicts + retries) pending st (pushAttempts tr lc pending r' (Suc conflicts) None st')"
  shows "pushOutcome (conflicts + retries) pending st (pushAttempts tr lc pending retries conflicts initial st)"
proof -
  let ?path = "progressPath (pw_progress pending)"
  obtain found remote1 where rd: "(case initial of Some c \<Rightarrow> (Inr c, ss_remote st)
      | None \<Rightarrow> tr_read tr (ss_remote st) ?path) = (found, remote1)"
    by fastforce
  note step = pushAttempts.simps [of tr lc pending retries conflicts initial st, unfolded Let_def rd prod.case]
  show ?thesis
  proof (cases found)
    case (Inl e)
    then show ?thesis by (simp add: step pushOutcome_def)
  next
    case (Inr current)
    define st1 where "st1 = rememberDocument ?path current (st\<lparr>ss_remote := remote1\<rparr>)"
    have st1: "ss_journal st1 = ss_journal st" "ss_db st1 = ss_db st" by (simp_all add: st1_def)
    note step' = step [unfolded Inr sum.case, folded st1_def]
    show ?thesis
    proof (cases "foreignDocument current (pw_progress pending)")
      case True
      then show ?thesis using st1 by (simp add: step' pushOutcome_def)
    next
      case False
      from progressToWrite_ok [OF assms(1,2) False] obtain w where
        w: "progressToWrite lc (Option.bind current parseProgressFile) (pw_progress pending) = Inr w"
        "rp_bookId w = rp_bookId (pw_progress pending)" "rp_deviceId w = rp_deviceId (pw_progress pending)"
        "isReadingProgress (progressVal w)" "numLe (rp_furthest (pw_progress pending)) (rp_furthest w)"
        by blast
      obtain outcome remote2 where wr: "tr_write tr (ss_remote st1) ?path (serializeProgress w) (map_option rd_revision current) =
          (outcome, remote2)" by fastforce
      show ?thesis
      proof (cases "map_option rd_content current = Some (serializeProgress w)")
        case True
        then show ?thesis using False w st1 by (simp add: step' finishPush_outcome)
      next
        case changed: False
        show ?thesis
        proof (cases outcome)
          case (Inl e)
          let ?st2 = "st1\<lparr>ss_remote := remote2\<rparr>"
          have eq: "pushAttempts tr lc pending retries conflicts initial st = (case retries of 0 \<Rightarrow> (Inl e, ?st2)
              | Suc r \<Rightarrow> if e \<noteq> SyncConflictError then (Inl e, ?st2)
                  else pushAttempts tr lc pending r (Suc conflicts) None ?st2)"
            using False changed w(1) wr Inl by (simp add: step' del: map_option_eq_Some)
          have err: "pushOutcome n pending st (Inl e, ?st2)" for n
            by (simp add: pushOutcome_def st1)
          show ?thesis unfolding eq using err again [of _ ?st2] st1 by (auto split: nat.split)
        next
          case (Inr written)
          then show ?thesis
            using False changed w st1 wr by (simp add: step' finishPush_outcome del: map_option_eq_Some)
        qed
      qed
    qed
  qed
qed

lemma pushOutcome_cong:
  assumes "ss_journal st = ss_journal st0" and "ss_db st = ss_db st0"
  shows "pushOutcome n pending st out = pushOutcome n pending st0 out"
  unfolding pushOutcome_def assms ..

lemma pushAttempts_outcome:
  fixes tr :: "'r Transport" and st st0 :: "'r SyncState"
  assumes "collation lc" and "isReadingProgress (progressVal (pw_progress pending))"
  shows "ss_journal st = ss_journal st0 \<Longrightarrow> ss_db st = ss_db st0 \<Longrightarrow>
    pushOutcome (conflicts + retries) pending st0 (pushAttempts tr lc pending retries conflicts initial st)"
proof (induction retries arbitrary: conflicts initial st)
  case 0
  have "pushOutcome (conflicts + 0) pending st (pushAttempts tr lc pending 0 conflicts initial st)"
    by (rule pushAttempts_step [OF assms]) simp
  then show ?case by (simp only: pushOutcome_cong [OF 0])
next
  case (Suc retries)
  have "pushOutcome (conflicts + Suc retries) pending st (pushAttempts tr lc pending (Suc retries) conflicts initial st)"
  proof (rule pushAttempts_step [OF assms])
    fix r' :: nat and st' :: "'r SyncState"
    assume "Suc retries = Suc r'" "ss_journal st' = ss_journal st" "ss_db st' = ss_db st"
    then show "pushOutcome (conflicts + Suc retries) pending st (pushAttempts tr lc pending r' (Suc conflicts) None st')"
      using Suc.IH [of st' "Suc conflicts" None] Suc.prems by (simp add: pushOutcome_cong [OF Suc.prems])
  qed
  then show ?case by (simp only: pushOutcome_cong [OF Suc.prems])
qed

lemma pushProgress_outcome:
  assumes "collation lc" and "isReadingProgress (progressVal (pw_progress pending))"
  shows "pushOutcome maxConflictRetries pending st (pushProgress transport lc maxConflictRetries pending initialCurrent st)"
  using pushAttempts_outcome [OF assms, of st st 0] by (simp add: pushProgress_def)

text \<open>C2. Pushing a pending document ends after at most the configured number of conflict retries. If it
  reports success, the journal entries of the document are acknowledged, no others, and the local library
  holds a valid version of this document, not behind the pending one, its other documents unchanged.
  If it fails or finds a foreign remote document, nothing is acknowledged and nothing stored, whatever
  the transport and other devices do.\<close>

theorem push_progress_outcome:
  assumes "collation lc" and "isReadingProgress (progressVal (pw_progress pending))"
  shows "pushOutcome maxConflictRetries pending st
    (pushProgress transport lc maxConflictRetries pending initialCurrent st)"
  by (rule pushProgress_outcome [OF assms])

text \<open>A remote that reports one conflict and then accepts the write.\<close>

definition conflictingTransport :: "nat Transport" where
  "conflictingTransport = \<lparr>tr_list = (\<lambda>n prefix. (Inr [], n)), tr_read = (\<lambda>n path. (Inr None, n)),
     tr_write = (\<lambda>n path content revision. (if n = 0 then Inr \<lparr>rd_path = path, rd_content = content, rd_revision = ''1''\<rparr>
       else Inl SyncConflictError, n - 1))\<rparr>"

definition exampleState :: "nat SyncState" where
  "exampleState = \<lparr>ss_remote = 1, ss_known = [], ss_db = exampleDb, ss_journal = emptyJournal\<rparr>"

definition exampleWrite :: PendingProgressWrite where
  "exampleWrite = \<lparr>pw_progress = sampleProgress, pw_operationIds = [''op-1''],
     pw_latest = syntheticProgressOperation sampleProgress\<rparr>"

theorem push_progress_outcome_witness:
  "pushOutcome 2 exampleWrite exampleState (pushProgress conflictingTransport codeUnitCompare 2 exampleWrite None exampleState)"
  by (rule push_progress_outcome [OF ascii.collation_axioms]) (simp add: exampleWrite_def isReadingProgress_sample)

section \<open>The journal during a push\<close>

definition writesValid :: "PendingWrites \<Rightarrow> bool" where
  "writesValid documents \<longleftrightarrow> writesOk documents \<and> (\<forall>w \<in> set (mapValues documents). isReadingProgress (progressVal (pw_progress w)))"

lemma writesValid_mapSet:
  "writesValid documents \<Longrightarrow> progressPath (pw_progress w) = path \<Longrightarrow> isReadingProgress (progressVal (pw_progress w)) \<Longrightarrow>
   writesValid (mapSet path w documents)"
  using values_mapSet [of path w documents] by (auto simp: writesValid_def writesOk_def keyed_mapSet)

lemma acceptedProgress_valid: "acceptedProgress x = Some v \<Longrightarrow> isReadingProgress (progressVal (progressOf v))"
  by (auto simp: acceptedProgress_def normalizeProgressOperationPayload_def Let_def isReadingProgress_progressOf
      split: option.splits if_splits)

lemma coalesceOperation_valid:
  assumes "writesValid (fst s)"
  shows "writesValid (fst (coalesceOperation lc s x))"
proof (cases "acceptedProgress x")
  case (Some v)
  note valid = acceptedProgress_valid [OF Some]
  show ?thesis
  proof (cases "map_of (fst s) (progressPath (progressOf v))")
    case None
    then show ?thesis using assms Some valid
      by (auto simp: coalesceOperation_def Let_def intro!: writesValid_mapSet)
  next
    case w: (Some w)
    then have "w \<in> set (mapValues (fst s))" "progressPath (pw_progress w) = progressPath (progressOf v)"
      using assms by (auto simp: writesValid_def writesOk_def keyed_def mapValues_def dest!: map_of_SomeD intro: rev_image_eqI)
    then show ?thesis using assms Some valid w
      by (auto simp: coalesceOperation_def Let_def writesValid_def [of "fst s"] intro!: writesValid_mapSet)
  qed
qed (use assms in \<open>simp add: coalesceOperation_def\<close>)

lemma coalesce_valid: "writesValid (fst (coalesceProgressOperations lc xs))"
proof -
  have loop: "writesValid (fst (foldl (coalesceOperation lc) s xs))" if "writesValid (fst s)" for s
    using that
  proof (induction xs arbitrary: s)
    case (Cons x xs)
    then show ?case using Cons.IH [OF coalesceOperation_valid [OF Cons.prems]] by simp
  qed simp
  have "writesValid []" by (simp add: writesValid_def writesOk_def keyed_def mapValues_def)
  then show ?thesis using loop [of "([], 0)"] by (simp add: coalesceProgressOperations_def)
qed

lemma mergeProgressSnapshot_ok:
  assumes "collation lc" and "writesValid documents"
  obtains d where "mergeProgressSnapshot lc documents p = Inr d" "writesValid d" "writeIds d = writeIds documents"
proof (cases "isReadingProgress (progressVal p)")
  case valid: True
  show ?thesis
  proof (cases "map_of documents (progressPath p)")
    case None
    then have "progressPath p \<notin> fst ` set documents" by (simp add: map_of_eq_None_iff)
    then show ?thesis
      using None valid assms(2) that by (simp add: mergeProgressSnapshot_def writesValid_mapSet writeIds_fresh)
  next
    case (Some w)
    have w: "isReadingProgress (progressVal (pw_progress w))" "progressPath (pw_progress w) = progressPath p"
      using assms(2) Some
      by (auto simp: writesValid_def writesOk_def keyed_def mapValues_def dest!: map_of_SomeD intro: rev_image_eqI)
    from mergeProgressDocument_ok [OF assms(1) w(1) valid] w(2) obtain m where
      m: "mergeProgressDocument lc (pw_progress w) p = Inr m" "progressPath m = progressPath p" "isReadingProgress (progressVal m)"
      by auto
    have ok: "mapOk documents" using assms(2) by (simp add: writesValid_def writesOk_def keyed_def)
    have "writeIds (mapSet (progressPath p) (w\<lparr>pw_progress := m\<rparr>) documents) = writeIds documents"
      using writeIds_same [OF ok Some, of "w\<lparr>pw_progress := m\<rparr>"] by simp
    then show ?thesis
      using that m Some valid assms(2) by (simp add: mergeProgressSnapshot_def writesValid_mapSet)
  qed
qed (use that assms in \<open>simp add: mergeProgressSnapshot_def\<close>)

lemma mergeSnapshots_ok:
  assumes "collation lc" and "writesValid documents"
  shows "\<exists>d. mergeSnapshots lc documents ps = Inr d \<and> writesValid d \<and> writeIds d = writeIds documents"
  using assms(2)
proof (induction ps arbitrary: documents)
  case (Cons p ps)
  obtain d where "mergeProgressSnapshot lc documents p = Inr d" "writesValid d" "writeIds d = writeIds documents"
    by (rule mergeProgressSnapshot_ok [OF assms(1) Cons.prems])
  then show ?case using Cons.IH [of d] by simp
qed simp

definition allWriteIds :: "PendingProgressWrite list \<Rightarrow> string set" where
  "allWriteIds writes = (\<Union>w \<in> set writes. set (pw_operationIds w))"

lemma pushWrites_journal:
  assumes "collation lc" and "\<forall>w \<in> set writes. isReadingProgress (progressVal (pw_progress w))" and "journalOk (ss_journal st)"
    and "pushWrites tr lc n initial writes result st = (res, st')"
  shows "journalOk (ss_journal st') \<and> journalOps (ss_journal st') \<subseteq> journalOps (ss_journal st) \<and>
    (\<forall>x \<in> journalOps (ss_journal st). x \<notin> journalOps (ss_journal st') \<longrightarrow> op_id x \<in> allWriteIds writes) \<and>
    (\<forall>r. res = Inr r \<longrightarrow> sr_rejected result \<le> sr_rejected r \<and>
       (sr_rejected r = sr_rejected result \<longrightarrow> (\<forall>x \<in> journalOps (ss_journal st'). op_id x \<notin> allWriteIds writes)))"
  using assms(2-)
proof (induction writes arbitrary: result st)
  case Nil
  then show ?case by (auto simp: allWriteIds_def)
next
  case (Cons w writes)
  obtain out st1 where p: "pushProgress tr lc n w (initial st (progressPath (pw_progress w))) st = (out, st1)" by fastforce
  have oc: "pushOutcome n w st (out, st1)"
    using pushProgress_outcome [OF assms(1), of w n st tr "initial st (progressPath (pw_progress w))"] Cons.prems(1) p by simp
  show ?case
  proof (cases out)
    case (Inl e)
    then have "res = Inl e" "st' = st1" using Cons.prems(3) p by auto
    then show ?thesis using oc Inl Cons.prems(2) by (simp add: pushOutcome_def)
  next
    case (Inr r)
    let ?result = "result\<lparr>sr_pushed := sr_pushed result + (if pu_pushed r then 1 else 0),
                  sr_conflicts := sr_conflicts result + pu_conflicts r,
                  sr_rejected := sr_rejected result + pu_rejected r\<rparr>"
    have rest: "pushWrites tr lc n initial writes ?result st1 = (res, st')" using Cons.prems(3) p Inr by simp
    have j1: "ss_journal st1 = (if pu_rejected r = 0 then acknowledge (ss_journal st) (pw_operationIds w) else ss_journal st)"
      using oc Inr by (auto simp: pushOutcome_def split: if_splits)
    then have ok1: "journalOk (ss_journal st1)" using Cons.prems(2) by (simp add: journalOk_acknowledge)
    have ops1: "journalOps (ss_journal st1) =
        (if pu_rejected r = 0 then {x \<in> journalOps (ss_journal st). op_id x \<notin> set (pw_operationIds w)} else journalOps (ss_journal st))"
      using j1 journalOps_acknowledge [OF Cons.prems(2)] by simp
    have ids: "allWriteIds (w # writes) = set (pw_operationIds w) \<union> allWriteIds writes" by (simp add: allWriteIds_def)
    have rd: "sr_rejected ?result = sr_rejected result + pu_rejected r" by simp
    let ?j = "journalOps (ss_journal st)" and ?j1 = "journalOps (ss_journal st1)" and ?j' = "journalOps (ss_journal st')"
    have ih: "journalOk (ss_journal st')" "?j' \<subseteq> ?j1" "\<forall>x \<in> ?j1. x \<notin> ?j' \<longrightarrow> op_id x \<in> allWriteIds writes"
      "\<And>r'. res = Inr r' \<Longrightarrow> sr_rejected result + pu_rejected r \<le> sr_rejected r'"
      "\<And>r'. res = Inr r' \<Longrightarrow> sr_rejected r' = sr_rejected result + pu_rejected r \<Longrightarrow> \<forall>x \<in> ?j'. op_id x \<notin> allWriteIds writes"
      using Cons.IH [OF _ ok1 rest] Cons.prems(1) unfolding rd by auto
    have sub: "?j1 \<subseteq> ?j" and new: "\<forall>x \<in> ?j. x \<notin> ?j1 \<longrightarrow> op_id x \<in> set (pw_operationIds w)"
      and gone: "pu_rejected r = 0 \<Longrightarrow> \<forall>x \<in> ?j1. op_id x \<notin> set (pw_operationIds w)"
      using ops1 by auto
    have "\<forall>x \<in> ?j. x \<notin> ?j' \<longrightarrow> op_id x \<in> allWriteIds (w # writes)" using ih(3) new unfolding ids by blast
    moreover have "\<forall>r'. res = Inr r' \<longrightarrow> sr_rejected result \<le> sr_rejected r'" using ih(4) by fastforce
    moreover have "\<forall>x \<in> ?j'. op_id x \<notin> allWriteIds (w # writes)" if "res = Inr r'" "sr_rejected r' = sr_rejected result" for r'
    proof -
      have "pu_rejected r = 0" using ih(4) [OF that(1)] that(2) by simp
      then have "sr_rejected r' = sr_rejected result + pu_rejected r" using that(2) by simp
      from ih(5) [OF that(1) this] gone [OF \<open>pu_rejected r = 0\<close>] show ?thesis using ih(2) unfolding ids by blast
    qed
    ultimately show ?thesis using ih(1,2) sub by blast
  qed
qed

text \<open>C4. Pushing the journal only acknowledges progress operations that were accepted, and adds none. If
  the push reports nothing rejected, no progress operation is left in the journal. Operations of other
  kinds are never touched, also when the push fails half-way.\<close>

theorem push_journal_safety:
  assumes "collation lc" and "journalOk (ss_journal st)"
    and "push transport lc maxConflictRetries knownDocuments st = (res, st')"
  shows "journalOps (ss_journal st') \<subseteq> journalOps (ss_journal st) \<and>
    (\<forall>x \<in> journalOps (ss_journal st). x \<notin> journalOps (ss_journal st') \<longrightarrow>
       op_entity x = ''progress'' \<and> acceptedProgress x \<noteq> None) \<and>
    (\<forall>r. res = Inr r \<and> sr_rejected r = 0 \<longrightarrow> (\<forall>x \<in> journalOps (ss_journal st'). op_entity x \<noteq> ''progress''))"
proof -
  let ?pending = "filter (\<lambda>x. op_entity x = ''progress'') (pending_ops lc (ss_journal st))"
  let ?accepted = "filter (\<lambda>x. acceptedProgress x \<noteq> None) ?pending"
  obtain documents acceptedCount where co: "coalesceProgressOperations lc ?pending = (documents, acceptedCount)" by fastforce
  have ids: "writeIds documents = mset (map op_id ?accepted)" and count: "acceptedCount = length ?accepted"
    using coalesce_accounts [of lc ?pending] by (simp_all add: co)
  obtain stored db1 where l1: "listProgressDocuments lc (ss_db st) None = (stored, db1)" by fastforce
  obtain shown db where l2: "listProgress lc db1 = (shown, db)" by fastforce
  let ?ps = "map progressOf stored @ map progressOf shown"
  have eq: "push transport lc maxConflictRetries knownDocuments st =
      (case mergeSnapshots lc documents ?ps of Inl e \<Rightarrow> (Inl e, st\<lparr>ss_db := db\<rparr>)
       | Inr writes \<Rightarrow> pushWrites transport lc maxConflictRetries (\<lambda>_ path. map_option (\<lambda>known. map_of known path) knownDocuments)
           (mapValues writes) \<lparr>sr_pulled = 0, sr_pushed = 0, sr_conflicts = 0, sr_rejected = length ?pending - acceptedCount\<rparr>
           (st\<lparr>ss_db := db\<rparr>))"
    by (simp only: push_def Let_def co l1 l2 prod.case)
  have "writesValid documents" using coalesce_valid [of lc ?pending] by (simp add: co)
  from mergeSnapshots_ok [OF assms(1) this] obtain writes where
    w: "mergeSnapshots lc documents ?ps = Inr writes" "writesValid writes" "writeIds writes = writeIds documents" by blast
  have all: "allWriteIds (mapValues writes) = set (map op_id ?accepted)"
    using arg_cong [OF w(3) [unfolded ids], of set_mset] by (auto simp: writeIds_def allWriteIds_def)
  let ?j = "journalOps (ss_journal st)" and ?j' = "journalOps (ss_journal st')"
  let ?base = "length ?pending - acceptedCount"
  have pj: "?j' \<subseteq> ?j" "\<forall>x \<in> ?j. x \<notin> ?j' \<longrightarrow> op_id x \<in> set (map op_id ?accepted)"
    "\<forall>r. res = Inr r \<longrightarrow> ?base \<le> sr_rejected r \<and>
      (sr_rejected r = ?base \<longrightarrow> (\<forall>x \<in> ?j'. op_id x \<notin> set (map op_id ?accepted)))"
    using pushWrites_journal [OF assms(1) _ _ assms(3) [unfolded eq w(1) sum.case]] w(2) assms(2)
    unfolding all writesValid_def by simp_all
  note inj = inj_onD [OF journalOps_inj [OF assms(2)]]
  have full: "\<forall>x \<in> set ?pending. acceptedProgress x \<noteq> None" if "?base = 0"
    using that unfolding count by (rule filter_length_full)
  have "op_entity x = ''progress'' \<and> acceptedProgress x \<noteq> None" if x: "x \<in> ?j" "x \<notin> ?j'" for x
  proof -
    have "op_id x \<in> op_id ` set ?accepted" using pj(2) x unfolding set_map by blast
    then obtain y where "op_id x = op_id y" "y \<in> set ?accepted" by (rule imageE)
    then show ?thesis using inj [of x y] x(1) by simp
  qed
  moreover have "op_entity x \<noteq> ''progress''" if r: "res = Inr r" "sr_rejected r = 0" and x: "x \<in> ?j'" for r x
  proof
    assume prog: "op_entity x = ''progress''"
    have le: "?base \<le> sr_rejected r" using pj(3) r(1) by blast
    have base: "?base = 0" using le unfolding r(2) by (rule le_0_eq [THEN iffD1])
    have none: "\<forall>y \<in> ?j'. op_id y \<notin> set (map op_id ?accepted)" using pj(3) r(1) unfolding r(2) base by (metis r(2))
    have "x \<in> ?j" using x pj(1) by (rule subsetD [rotated])
    then have "x \<in> set ?pending" using prog by (simp only: set_filter set_pending_ops mem_Collect_eq simp_thms)
    then have "x \<in> set ?accepted" using full [OF base] by (simp only: set_filter mem_Collect_eq simp_thms)
    then have "op_id x \<in> set (map op_id ?accepted)" unfolding set_map by (rule imageI)
    with bspec [OF none x] show False by (rule notE)
  qed
  ultimately show ?thesis using pj(1) by blast
qed

theorem push_journal_safety_witness:
  "journalOps (ss_journal (snd (push conflictingTransport codeUnitCompare 2 None exampleState))) \<subseteq>
   journalOps (ss_journal exampleState)"
proof -
  have "journalOk (ss_journal exampleState)" by (simp add: exampleState_def journalOk_def emptyJournal_def)
  from push_journal_safety [OF ascii.collation_axioms this prod.collapse [symmetric]] show ?thesis by blast
qed

section \<open>What a pull does\<close>

text \<open>A position or document that replaces another one is valid, not older and not behind.\<close>

definition advances :: "(string \<Rightarrow> string \<Rightarrow> int) \<Rightarrow> ReadingProgress \<Rightarrow> ReadingProgress \<Rightarrow> bool" where
  "advances lc p p' \<longleftrightarrow> p' = p \<or>
     isReadingProgress (progressVal p) \<and> isReadingProgress (progressVal p') \<and>
     numLe (rp_furthest p) (rp_furthest p') \<and> lc (rp_updatedAt p) (rp_updatedAt p') \<le> 0"

text \<open>A position is held in the store or, when its book is gone or it is unreadable, in the quarantine.\<close>

definition heldPosition :: "LibraryDb \<Rightarrow> string \<Rightarrow> jsval \<Rightarrow> bool" where
  "heldPosition db b v \<longleftrightarrow> idbGet db PROGRESS_STORE [b] = Some v \<or> quarantinedIn db PROGRESS_STORE [b] v"

definition keepsPositions :: "(string \<Rightarrow> string \<Rightarrow> int) \<Rightarrow> LibraryDb \<Rightarrow> LibraryDb \<Rightarrow> bool" where
  "keepsPositions lc db db' \<longleftrightarrow>
     (\<forall>b v. heldPosition db b v \<longrightarrow> (\<exists>v'. heldPosition db' b v' \<and> advances lc (progressOf v) (progressOf v')))"

lemma advances_refl [simp]: "advances lc p p"
  by (simp add: advances_def)

lemma advances_trans:
  assumes "collation lc" and "advances lc p q" and "advances lc q r"
  shows "advances lc p r"
proof -
  have "numLe (rp_furthest p) (rp_furthest r)" if "p \<noteq> q" "q \<noteq> r"
    using assms(2,3) that by (auto simp: advances_def isReadingProgress_iff)
  moreover have "lc (rp_updatedAt p) (rp_updatedAt r) \<le> 0" if "p \<noteq> q" "q \<noteq> r"
    using assms that comparator.cmp_trans [of lc] by (auto simp: advances_def collation_def)
  ultimately show ?thesis using assms(2,3) by (auto simp: advances_def)
qed

lemma keepsPositions_trans:
  "collation lc \<Longrightarrow> keepsPositions lc db1 db2 \<Longrightarrow> keepsPositions lc db2 db3 \<Longrightarrow> keepsPositions lc db1 db3"
  unfolding keepsPositions_def by (meson advances_trans)

lemma keepsPositions_held: "(\<And>b v. heldPosition db b v \<Longrightarrow> heldPosition db' b v) \<Longrightarrow> keepsPositions lc db db'"
  unfolding keepsPositions_def by (meson advances_refl)

lemma keepsPositions_read: "onlyQuarantines db db' \<Longrightarrow> keepsPositions lc db db'"
proof (rule keepsPositions_held)
  fix b v assume q: "onlyQuarantines db db'" and "heldPosition db b v"
  moreover have "quarantinedIn db PROGRESS_STORE [b] v \<Longrightarrow> quarantinedIn db' PROGRESS_STORE [b] v"
    using q by (auto simp: onlyQuarantines_def quarantinedIn_def)
  moreover have "idbGet db' PROGRESS_STORE [b] = idbGet db PROGRESS_STORE [b] \<or>
      (\<exists>v. idbGet db PROGRESS_STORE [b] = Some v \<and> quarantinedIn db' PROGRESS_STORE [b] v)"
    using q unfolding onlyQuarantines_def by blast
  ultimately show "heldPosition db' b v" by (auto simp: heldPosition_def)
qed

lemma keepsPositions_refl [simp]: "keepsPositions lc db db"
  by (rule keepsPositions_read) simp

lemma keepsPositions_saveDocument: "keepsPositions lc db (snd (saveProgressDocument db p))"
proof (cases rule: saveChecked_cases [of db PROGRESS_DOCUMENTS_STORE isReadingProgress "progressVal p"])
  case (saved b db')
  have "heldPosition (idbWrite db' PROGRESS_DOCUMENTS_STORE (progressVal p)) c v = heldPosition db' c v" for c v
    by (simp add: heldPosition_def idbGet_idbWrite) (simp add: quarantinedIn_def idbWrite_def)
  then have "keepsPositions lc db (idbWrite db' PROGRESS_DOCUMENTS_STORE (progressVal p))"
    using keepsPositions_read [OF saved(2), of lc] by (simp add: keepsPositions_def)
  then show ?thesis using saved by (simp add: saveProgressDocument_def)
qed (simp add: saveProgressDocument_def keepsPositions_read)

lemma keepsPositions_saveEach:
  assumes "collation lc"
  shows "keepsPositions lc db (snd (saveEach saveProgressDocument db ps))"
proof (induction ps arbitrary: db)
  case (Cons p ps)
  obtain r db1 where r: "saveProgressDocument db p = (r, db1)" by fastforce
  have first: "keepsPositions lc db db1" using keepsPositions_saveDocument [of lc db p] by (simp add: r)
  show ?case
    using first keepsPositions_trans [OF assms first Cons.IH [of db1]] by (cases r) (simp_all add: r)
qed simp

lemma pullFiles_quarantine: "pullFiles lc files s = Inr s' \<Longrightarrow> onlyQuarantines (pl_db s) (pl_db s')"
proof (induction files arbitrary: s)
  case (Cons f files)
  then obtain s1 where s1: "pullFile lc f s = Inr s1" "pullFiles lc files s1 = Inr s'"
    by (cases "pullFile lc f s") auto
  have "onlyQuarantines (pl_db s) (pl_db s1)"
  proof (cases "parseProgressFile f")
    case (Some p)
    obtain book db where b: "getBook (pl_db s) (rp_bookId p) = (book, db)" by fastforce
    then have "onlyQuarantines (pl_db s) db" using onlyQuarantines_getBook [of "pl_db s" "rp_bookId p"] by simp
    moreover have "pl_db s1 = db \<or> pl_db s1 = pl_db s"
      using s1(1) b Some by (auto simp: pullFile_def Let_def andThen_Inr_iff split: if_splits option.splits)
    ultimately show ?thesis by auto
  qed (use s1 in \<open>auto simp: pullFile_def\<close>)
  then show ?case using Cons.IH [OF s1(2)] by (rule onlyQuarantines_trans)
qed simp

lemma mergedPosition_valid:
  assumes "collation lc" and "pm_current (mergeDeviceProgress lc ps) = Some c"
  defines "p \<equiv> c\<lparr>rp_furthest := pm_furthest (mergeDeviceProgress lc ps)\<rparr>"
  shows "c \<in> set ps" and "isReadingProgress (progressVal p)"
    and "q \<in> set ps \<Longrightarrow> isReadingProgress (progressVal q) \<Longrightarrow> advances lc q p"
proof -
  note spec = mergeDeviceProgress_spec [OF assms(1), of ps, unfolded Let_def]
  then have c: "c \<in> set ps" "isReadingProgress (progressVal c)"
    "\<And>q. q \<in> set ps \<Longrightarrow> isReadingProgress (progressVal q) \<Longrightarrow> lc (rp_updatedAt q) (rp_updatedAt c) \<le> 0"
    using assms(2) by (fastforce, fastforce, fastforce)
  from spec obtain m where m: "pm_furthest (mergeDeviceProgress lc ps) = Fin m" "0 \<le> m" "m \<le> 1"
    "\<And>q. q \<in> set ps \<Longrightarrow> isReadingProgress (progressVal q) \<Longrightarrow> \<exists>r. rp_furthest q = Fin r \<and> r \<le> m"
    by auto
  show "c \<in> set ps" by (rule c(1))
  show valid: "isReadingProgress (progressVal p)"
    using c(2) m(1-3) by (simp add: p_def isReadingProgress_iff)
  show "advances lc q p" if "q \<in> set ps" "isReadingProgress (progressVal q)"
    using valid c(3) [OF that] m(1) m(4) [OF that] that(2) by (auto simp: advances_def p_def)
qed

lemma getProgress_result:
  assumes "getProgress db b = (found, db')"
  shows "onlyQuarantines db db'" and "idbGet db' PROGRESS_STORE [b] = found"
    and "found = Some v \<Longrightarrow> isReadingProgress v \<and> getProp v ''bookId'' = JStr b"
proof -
  show "onlyQuarantines db db'" using onlyQuarantines_getProgress [of db b] by (simp add: assms)
  obtain book db1 where b: "getBook db b = (book, db1)" by fastforce
  show "idbGet db' PROGRESS_STORE [b] = found"
    using assms by (auto simp: getProgress_def b readValidated_def quarantineInvalidRecord_def idbGet_def delete_conv
        split: option.splits if_splits)
  show "found = Some v \<Longrightarrow> isReadingProgress v \<and> getProp v ''bookId'' = JStr b"
    using assms by (auto simp: getProgress_def b readValidated_def split: option.splits if_splits)
qed

lemma keepsPositions_saveProgress:
  assumes "\<And>v. idbGet db PROGRESS_STORE [rp_bookId p] = Some v \<Longrightarrow> advances lc (progressOf v) p"
  shows "keepsPositions lc db (snd (saveProgress db p))"
proof (cases rule: saveChecked_cases [of db PROGRESS_STORE isReadingProgress "progressVal p"])
  case (saved b db')
  have same: "db' = db" using saved(4) by (rule getBook_some(1))
  let ?db = "idbWrite db PROGRESS_STORE (progressVal p)"
  have get: "idbGet ?db PROGRESS_STORE k = (if k = [rp_bookId p] then Some (progressVal p) else idbGet db PROGRESS_STORE k)" for k
    by (simp add: idbGet_idbWrite recordKey_def keyPath_def strOf_def)
  have q: "quarantinedIn ?db s k v = quarantinedIn db s k v" for s k v
    by (simp add: quarantinedIn_def idbWrite_def)
  have "\<exists>v'. heldPosition ?db c v' \<and> advances lc (progressOf v) (progressOf v')" if v: "heldPosition db c v" for c v
  proof (cases "c = rp_bookId p \<and> idbGet db PROGRESS_STORE [c] = Some v")
    case True
    then have "heldPosition ?db c (progressVal p) \<and> advances lc (progressOf v) (progressOf (progressVal p))"
      using assms [of v] by (auto simp: heldPosition_def get)
    then show ?thesis by blast
  next
    case False
    then have "heldPosition ?db c v" using v by (auto simp: heldPosition_def get q)
    then show ?thesis by (meson advances_refl)
  qed
  then have "keepsPositions lc db ?db" by (simp add: keepsPositions_def)
  then show ?thesis using saved(1) same by (simp add: saveProgress_def)
qed (simp add: saveProgress_def keepsPositions_read)

lemma keepsPositions_pullBook:
  assumes "collation lc" and "\<forall>p \<in> set documents. rp_bookId p = b"
  shows "keepsPositions lc db (snd (pullBook lc b documents db))"
proof -
  obtain found db1 where g: "getProgress db b = (found, db1)" by fastforce
  note r = getProgress_result [OF g]
  have first: "keepsPositions lc db db1" using r(1) by (rule keepsPositions_read)
  let ?ps = "case map_option progressOf found of Some l \<Rightarrow> documents @ [l] | None \<Rightarrow> documents"
  let ?merged = "mergeDeviceProgress lc ?ps"
  have book: "\<forall>p \<in> set ?ps. rp_bookId p = b"
    using assms(2) r(3) by (auto simp: progressOf_def strOf_def split: option.splits)
  show ?thesis
  proof (cases "pm_current ?merged")
    case None
    then show ?thesis using first by (simp add: pullBook_def g Let_def)
  next
    case (Some c)
    let ?p = "c\<lparr>rp_furthest := pm_furthest ?merged\<rparr>"
    have bp: "rp_bookId ?p = b" using mergedPosition_valid(1) [OF assms(1) Some] book by simp
    have "advances lc (progressOf v) ?p" if v: "idbGet db1 PROGRESS_STORE [rp_bookId ?p] = Some v" for v
    proof -
      have f: "found = Some v" using v r(2) bp by simp
      then show ?thesis using r(3) [OF f]
        by (intro mergedPosition_valid(3) [OF assms(1) Some]) (simp_all add: isReadingProgress_progressOf)
    qed
    then have "keepsPositions lc db1 (snd (saveProgress db1 ?p))" by (rule keepsPositions_saveProgress)
    then have "keepsPositions lc db (snd (saveProgress db1 ?p))" by (rule keepsPositions_trans [OF assms(1) first])
    then show ?thesis using Some first
      by (auto simp: pullBook_def g Let_def split: prod.splits sum.splits)
  qed
qed

lemma keepsPositions_pullBooks:
  assumes "collation lc" and "\<forall>(b, ps) \<in> set books. \<forall>p \<in> set ps. rp_bookId p = b"
  shows "keepsPositions lc db (snd (pullBooks lc byBook books n db))"
  using assms(2)
proof (induction books arbitrary: n db)
  case (Cons e books)
  obtain b ps where e: "e = (b, ps)" by fastforce
  obtain r db1 where r: "pullBook lc b ps db = (r, db1)" by fastforce
  have first: "keepsPositions lc db db1"
    using keepsPositions_pullBook [OF assms(1), of ps b db] Cons.prems by (simp add: e r)
  show ?case
    using first keepsPositions_trans [OF assms(1) first Cons.IH] Cons.prems by (cases r) (simp_all add: e r)
qed simp

lemma groupByBook_key: "\<forall>(b, ps) \<in> set (groupByBook xs). \<forall>p \<in> set ps. rp_bookId p = b"
proof -
  have "\<forall>(b, ps) \<in> set (foldl (\<lambda>m p. pushTo (rp_bookId p) p m) m xs). \<forall>p \<in> set ps. rp_bookId p = b"
    if "\<forall>(b, ps) \<in> set m. \<forall>p \<in> set ps. rp_bookId p = b" for m
    using that
  proof (induction xs arbitrary: m)
    case (Cons x xs)
    let ?v = "(case map_of m (rp_bookId x) of None \<Rightarrow> [] | Some vs \<Rightarrow> vs) @ [x]"
    have v: "\<forall>p \<in> set ?v. rp_bookId p = rp_bookId x"
    proof (cases "map_of m (rp_bookId x)")
      case (Some vs)
      then show ?thesis using Cons.prems map_of_SomeD [OF Some] by auto
    qed simp
    have "\<forall>(b, ps) \<in> set (pushTo (rp_bookId x) x m). \<forall>p \<in> set ps. rp_bookId p = b"
      using set_mapSet_subset [of "rp_bookId x" ?v m] v Cons.prems unfolding pushTo_def by blast
    then show ?case using Cons.IH by simp
  qed simp
  from this [of "[]"] show ?thesis by (simp add: groupByBook_def)
qed

lemma keepsPositions_pullDocuments:
  assumes "collation lc"
  shows "keepsPositions lc db (snd (pullDocuments lc files db))"
proof -
  obtain stored db1 where l: "listProgressDocuments lc db None = (stored, db1)" by fastforce
  let ?s = "\<lparr>pl_known = mapBy progressPath (map progressOf stored), pl_changed = [], pl_byBook = [], pl_rejected = 0, pl_db = db1\<rparr>"
  have k1: "keepsPositions lc db db1"
    using onlyQuarantines_listProgressDocuments [of db lc None] by (simp add: l keepsPositions_read)
  show ?thesis
  proof (cases "pullFiles lc files ?s")
    case (Inl e)
    then show ?thesis using k1 by (simp add: pullDocuments_def l Let_def)
  next
    case (Inr s)
    have k2: "keepsPositions lc db (pl_db s)"
      using keepsPositions_trans [OF assms k1 keepsPositions_read] pullFiles_quarantine [OF Inr] by simp
    obtain r db2 where sv: "saveEach saveProgressDocument (pl_db s) (mapValues (pl_changed s)) = (r, db2)" by fastforce
    have k3: "keepsPositions lc db db2"
      using keepsPositions_trans [OF assms k2 keepsPositions_saveEach [OF assms, of "pl_db s" "mapValues (pl_changed s)"]]
      by (simp add: sv)
    obtain r' db3 where pb: "pullBooks lc (pl_byBook s) (groupByBook (mapValues (pl_known s))) 0 db2 = (r', db3)" by fastforce
    have "keepsPositions lc db db3"
      using keepsPositions_trans [OF assms k3 keepsPositions_pullBooks [OF assms groupByBook_key], of "pl_byBook s" "mapValues (pl_known s)" 0]
      by (simp add: pb)
    then show ?thesis using k3 by (simp add: pullDocuments_def l Let_def Inr sv pb split: sum.splits)
  qed
qed

text \<open>C3. Pulling progress never moves a reader back. Whatever the remote holds, and also when the pull fails
  half-way, every stored position is afterwards still the same or replaced by a valid one that is not
  older and whose furthest point is not smaller; a position that cannot be read is kept in the
  quarantine.\<close>

theorem pull_never_moves_back:
  assumes "collation lc" and "idbGet (ss_db st) PROGRESS_STORE [b] = Some v"
  shows "\<exists>v'. heldPosition (ss_db (snd (pull transport lc files st))) b v' \<and> advances lc (progressOf v) (progressOf v')"
proof -
  obtain found remote where l: "(case files of Some fs \<Rightarrow> (Inr fs, ss_remote st)
      | None \<Rightarrow> tr_list transport (ss_remote st) PROGRESS_ROOT) = (found, remote)" by fastforce
  have "keepsPositions lc (ss_db st) (ss_db (snd (pull transport lc files st)))"
    using keepsPositions_pullDocuments [OF assms(1), of "ss_db st"]
    by (cases found) (simp_all add: pull_def l split_beta)
  then show ?thesis using assms(2) by (simp add: keepsPositions_def heldPosition_def)
qed

definition readState :: "nat SyncState" where
  "readState = exampleState\<lparr>ss_db := snd (saveProgress exampleDb sampleProgress)\<rparr>"

theorem pull_never_moves_back_witness:
  "\<exists>v'. heldPosition (ss_db (snd (pull conflictingTransport codeUnitCompare None readState))) (rp_bookId sampleProgress) v' \<and>
     advances codeUnitCompare sampleProgress (progressOf v')"
proof -
  have "idbGet (ss_db readState) PROGRESS_STORE [rp_bookId sampleProgress] = Some (progressVal sampleProgress)"
    by code_simp
  from pull_never_moves_back [OF ascii.collation_axioms this] show ?thesis by simp
qed

end
