(* ===== verification/Preference_Sync.thy ===== *)
theory Preference_Sync
  imports Preference_Text Progress_Sync
begin

text \<open>
  \<open>ReaderPreferenceSyncService\<close> of \<open>libs/sync/core/src/lib/reader-preference-sync-service.ts\<close>: changes of
  preferences are relayed from the outbox to the journal, merged into the one remote state, verified by reading it
  back, and only then stored locally and acknowledged. The transport, the sync state and the result are those of
  the progress synchronization; random identifiers are arguments.
\<close>

section \<open>Operations and states\<close>

definition READER_PREFERENCE_SYNC_PATH :: string where
  "READER_PREFERENCE_SYNC_PATH = ''.omnia-reader/preferences/state.json''"

record PreferenceSyncOptions =
  po_destinationId :: string
  po_deviceId :: string
  po_createChangeId :: "PublicationFormat \<Rightarrow> string \<Rightarrow> string"
  po_maxConflictRetries :: nat

datatype PreferenceSyncError =
  RemoteError ProgressError | StoreError PreferenceStoreError | StateError PreferenceError | InvalidDestination

fun stateResult :: "PreferenceError + 'a \<Rightarrow> PreferenceSyncError + 'a" where
  "stateResult (Inl e) = Inl (StateError e)"
| "stateResult (Inr x) = Inr x"

definition EMPTY_STATE :: ReaderPreferenceSyncState where
  "EMPTY_STATE = \<lparr>st_epub = [], st_pdf = []\<rparr>"

definition isPreferenceOperation :: "SyncOperation \<Rightarrow> bool" where
  "isPreferenceOperation operation \<longleftrightarrow>
     op_entity operation = ''preference'' \<and> op_operation operation = ''upsert'' \<and>
     isReaderPreferenceChange (op_payload operation) \<and>
     op_entityId operation = reg_changeId (ch_register (preferenceChangeOf (op_payload operation)))"

definition uniqueChanges :: "SyncOperation list \<Rightarrow> ReaderPreferenceChange list" where
  "uniqueChanges operations =
     mapValues (foldl (\<lambda>changes operation. if isPreferenceOperation operation
         then mapSet (op_entityId operation) (preferenceChangeOf (op_payload operation)) changes else changes) [] operations)"

definition stateForSeed ::
  "PublicationFormat \<Rightarrow> string \<Rightarrow> jsval \<Rightarrow> string \<Rightarrow> string \<Rightarrow> int \<Rightarrow> ReaderPreferenceSyncState" where
  "stateForSeed format field v deviceId changeId revision =
     (let entry = [(field, \<lparr>reg_value = v, reg_revision = revision, reg_deviceId = deviceId, reg_changeId = changeId\<rparr>)]
      in \<lparr>st_epub = (if format = Epub then entry else []), st_pdf = (if format = Pdf then entry else [])\<rparr>)"

definition stateForChange :: "ReaderPreferenceChange \<Rightarrow> ReaderPreferenceSyncState" where
  "stateForChange change = stateForSeed (ch_format change) (ch_field change) (reg_value (ch_register change))
     (reg_deviceId (ch_register change)) (reg_changeId (ch_register change)) (reg_revision (ch_register change))"

definition parseRemoteState :: "RemoteDocument option \<Rightarrow> ReaderPreferenceSyncState option" where
  "parseRemoteState document =
     (case document of
        None \<Rightarrow> None
      | Some d \<Rightarrow>
          if rd_path d \<noteq> READER_PREFERENCE_SYNC_PATH then None
          else (case parseReaderPreferenceSyncState (rd_content d) of Inl _ \<Rightarrow> None | Inr state \<Rightarrow> Some state))"

section \<open>Relaying the outbox\<close>

fun relayChanges ::
  "(string \<Rightarrow> string) \<Rightarrow> string list \<Rightarrow> ReaderPreferenceChange list \<Rightarrow> 'r SyncState \<Rightarrow> (PreferenceSyncError + unit) \<times> 'r SyncState" where
  "relayChanges randomUUID relayed [] st = (Inr (), st)"
| "relayChanges randomUUID relayed (change # changes) st =
     (let changeId = reg_changeId (ch_register change);
          st1 = (if changeId \<in> set relayed then st
            else st\<lparr>ss_journal := snd (append_op (ss_journal st) \<lparr>new_entity = ''preference'', new_entityId = changeId,
              new_operation = ''upsert'', new_payload = preferenceChangeVal change\<rparr> (randomUUID changeId) (db_now (ss_db st)))\<rparr>)
      in case acknowledgePendingReaderPreferenceChanges (ss_db st1) [changeId] of
           (Inl e, db) \<Rightarrow> (Inl (StoreError e), st1\<lparr>ss_db := db\<rparr>)
         | (Inr _, db) \<Rightarrow> relayChanges randomUUID relayed changes (st1\<lparr>ss_db := db\<rparr>))"

definition relayOutbox ::
  "(string \<Rightarrow> string \<Rightarrow> int) \<Rightarrow> (string \<Rightarrow> string) \<Rightarrow> 'r SyncState \<Rightarrow> (PreferenceSyncError + unit) \<times> 'r SyncState" where
  "relayOutbox localeCompare randomUUID st =
     (case listPendingReaderPreferenceChanges (ss_db st) of
        Inl e \<Rightarrow> (Inl (StoreError e), st)
      | Inr outbox \<Rightarrow>
          relayChanges randomUUID
            (map op_entityId (filter isPreferenceOperation (pending_ops localeCompare (ss_journal st)))) outbox st)"

section \<open>Seeding a destination\<close>

text \<open>The fields that differ from their default, one register each.\<close>

fun seedFields ::
  "(string \<Rightarrow> string \<Rightarrow> int) \<Rightarrow> PreferenceSyncOptions \<Rightarrow> PublicationFormat \<Rightarrow> jsval \<Rightarrow> string list \<Rightarrow> ReaderPreferenceSyncState \<Rightarrow>
     PreferenceError + ReaderPreferenceSyncState" where
  "seedFields localeCompare options format preferences [] state = Inr state"
| "seedFields localeCompare options format preferences (field # rest) state =
     (let v = getProp preferences field in
      if v \<noteq> getProp (preferencesVal (defaultReaderPreferences format)) field then
        andThen (mergeReaderPreferenceSyncStates localeCompare state
            (stateForSeed format field v (po_deviceId options) (po_createChangeId options format field) 1))
          (seedFields localeCompare options format preferences rest)
      else seedFields localeCompare options format preferences rest state)"

definition seedFormat ::
  "(string \<Rightarrow> string \<Rightarrow> int) \<Rightarrow> PreferenceSyncOptions \<Rightarrow> PublicationFormat \<Rightarrow> jsval option \<Rightarrow> ReaderPreferenceSyncState \<Rightarrow>
     PreferenceError + ReaderPreferenceSyncState" where
  "seedFormat localeCompare options format stored state =
     (case stored of None \<Rightarrow> Inr state
      | Some v \<Rightarrow> seedFields localeCompare options format v (preferenceFields format) state)"

definition seedState ::
  "(string \<Rightarrow> string \<Rightarrow> int) \<Rightarrow> PreferenceSyncOptions \<Rightarrow> LibraryDb \<Rightarrow> (PreferenceError + ReaderPreferenceSyncState) \<times> LibraryDb" where
  "seedState localeCompare options db =
     (let (epub, db1) = getReaderPreferences db Epub in
      case seedFormat localeCompare options Epub epub EMPTY_STATE of
        Inl e \<Rightarrow> (Inl e, db1)
      | Inr state \<Rightarrow>
          (let (pdf, db2) = getReaderPreferences db1 Pdf in (seedFormat localeCompare options Pdf pdf state, db2)))"

section \<open>Synchronization\<close>

text \<open>The state the changes are merged into, and where it comes from.\<close>

definition baseState ::
  "(string \<Rightarrow> string \<Rightarrow> int) \<Rightarrow> PreferenceSyncOptions \<Rightarrow> ReaderPreferenceSyncMetadata option \<Rightarrow> ReaderPreferenceSyncState option \<Rightarrow>
     LibraryDb \<Rightarrow> (PreferenceError + ReaderPreferenceSyncState \<times> Baseline) \<times> LibraryDb" where
  "baseState localeCompare options metadata remoteState db =
     (case (metadata, remoteState) of
        (None, Some r) \<Rightarrow> (Inr (r, BaselineRemote), db)
      | (None, None) \<Rightarrow>
          (let (seeded, db') = seedState localeCompare options db in (andThen seeded (\<lambda>s. Inr (s, BaselineSeeded)), db'))
      | (Some m, Some r) \<Rightarrow>
          (andThen (mergeReaderPreferenceSyncStates localeCompare (md_state m) r) (\<lambda>s. Inr (s, md_baseline m)), db)
      | (Some m, None) \<Rightarrow> (Inr (md_state m, md_baseline m), db))"

fun mergeChanges ::
  "(string \<Rightarrow> string \<Rightarrow> int) \<Rightarrow> ReaderPreferenceChange list \<Rightarrow> ReaderPreferenceSyncState \<Rightarrow> PreferenceError + ReaderPreferenceSyncState" where
  "mergeChanges localeCompare [] state = Inr state"
| "mergeChanges localeCompare (change # changes) state =
     andThen (mergeReaderPreferenceSyncStates localeCompare state (stateForChange change)) (mergeChanges localeCompare changes)"

text \<open>The \<open>try\<close> block: write the state unless the remote has it, read it back, store it and acknowledge the
  operations. The number is \<open>pushed\<close>.\<close>

definition storeState ::
  "PreferenceSyncOptions \<Rightarrow> ReaderPreferenceSyncState \<Rightarrow> Baseline \<Rightarrow> string list \<Rightarrow> 'r SyncState \<Rightarrow> (PreferenceSyncError + unit) \<times> 'r SyncState" where
  "storeState options state baseline acceptedIds st =
     (case (readerPreferencesFromSyncState Epub state, readerPreferencesFromSyncState Pdf state) of
        (Inr epub, Inr pdf) \<Rightarrow>
          (case saveSynchronizedReaderPreferences (ss_db st) [epub, pdf]
              \<lparr>md_destinationId = po_destinationId options, md_baseline = baseline, md_state = state\<rparr> of
             (Inl e, db) \<Rightarrow> (Inl (StoreError e), st\<lparr>ss_db := db\<rparr>)
           | (Inr _, db) \<Rightarrow> (Inr (), st\<lparr>ss_db := db, ss_journal := acknowledge (ss_journal st) acceptedIds\<rparr>))
      | (Inl e, _) \<Rightarrow> (Inl (StateError e), st)
      | (_, Inl e) \<Rightarrow> (Inl (StateError e), st))"

definition verifyState ::
  "'r Transport \<Rightarrow> PreferenceSyncOptions \<Rightarrow> ReaderPreferenceSyncState \<Rightarrow> Baseline \<Rightarrow> string \<Rightarrow> string list \<Rightarrow> 'r SyncState \<Rightarrow>
     (PreferenceSyncError + unit) \<times> 'r SyncState" where
  "verifyState transport options state baseline content acceptedIds st0 =
     (let (found, remote) = tr_read transport (ss_remote st0) READER_PREFERENCE_SYNC_PATH; st = st0\<lparr>ss_remote := remote\<rparr> in
      case found of
        Inl e \<Rightarrow> (Inl (RemoteError e), st)
      | Inr document \<Rightarrow>
          (case parseRemoteState document of
             None \<Rightarrow> (Inl (RemoteError SyncConflictError), st)
           | Some verified \<Rightarrow>
               if serializeReaderPreferenceSyncState verified \<noteq> Inr content then (Inl (RemoteError SyncConflictError), st)
               else storeState options state baseline acceptedIds st))"

definition publishState ::
  "'r Transport \<Rightarrow> PreferenceSyncOptions \<Rightarrow> RemoteDocument option \<Rightarrow> ReaderPreferenceSyncState option \<Rightarrow> ReaderPreferenceSyncState \<Rightarrow>
     Baseline \<Rightarrow> string \<Rightarrow> string list \<Rightarrow> 'r SyncState \<Rightarrow> (PreferenceSyncError + nat) \<times> 'r SyncState" where
  "publishState transport options current remoteState state baseline content acceptedIds st =
     (if (case remoteState of None \<Rightarrow> True | Some r \<Rightarrow> serializeReaderPreferenceSyncState r \<noteq> Inr content) then
        (let (outcome, remote) = tr_write transport (ss_remote st) READER_PREFERENCE_SYNC_PATH content (map_option rd_revision current) in
         case outcome of
           Inl e \<Rightarrow> (Inl (RemoteError e), st\<lparr>ss_remote := remote\<rparr>)
         | Inr _ \<Rightarrow>
             (case verifyState transport options state baseline content acceptedIds (st\<lparr>ss_remote := remote\<rparr>) of
                (Inl e, st') \<Rightarrow> (Inl e, st') | (Inr _, st') \<Rightarrow> (Inr 1, st')))
      else
        (case verifyState transport options state baseline content acceptedIds st of
           (Inl e, st') \<Rightarrow> (Inl e, st') | (Inr _, st') \<Rightarrow> (Inr 0, st')))"

text \<open>The loop; \<open>retries\<close> counts down as \<open>attempt\<close> counts up. Only a conflict is tried again.\<close>

fun syncAttempts ::
  "'r Transport \<Rightarrow> (string \<Rightarrow> string \<Rightarrow> int) \<Rightarrow> PreferenceSyncOptions \<Rightarrow> ReaderPreferenceChange list \<Rightarrow> string list \<Rightarrow> nat \<Rightarrow>
     ReaderPreferenceSyncMetadata option \<Rightarrow> nat \<Rightarrow> nat \<Rightarrow> 'r SyncState \<Rightarrow> (PreferenceSyncError + ProgressSyncResult) \<times> 'r SyncState" where
  "syncAttempts transport localeCompare options changes acceptedIds rejectedOperations metadata retries conflicts st0 =
     (let (found, remote) = tr_read transport (ss_remote st0) READER_PREFERENCE_SYNC_PATH; st1 = st0\<lparr>ss_remote := remote\<rparr> in
      case found of
        Inl e \<Rightarrow> (Inl (RemoteError e), st1)
      | Inr current \<Rightarrow>
          (let remoteState = parseRemoteState current in
           if current \<noteq> None \<and> remoteState = None then
             (Inr \<lparr>sr_pulled = 0, sr_pushed = 0, sr_conflicts = conflicts, sr_rejected = rejectedOperations + 1\<rparr>, st1)
           else
             let (base, db) = baseState localeCompare options metadata remoteState (ss_db st1); st = st1\<lparr>ss_db := db\<rparr> in
             case base of
               Inl e \<Rightarrow> (Inl (StateError e), st)
             | Inr (state0, baseline) \<Rightarrow>
                 (case mergeChanges localeCompare changes state0 of
                    Inl e \<Rightarrow> (Inl (StateError e), st)
                  | Inr state \<Rightarrow>
                      (case serializeReaderPreferenceSyncState state of
                         Inl e \<Rightarrow> (Inl (StateError e), st)
                       | Inr content \<Rightarrow>
                           (case publishState transport options current remoteState state baseline content acceptedIds st of
                              (Inr pushed, st') \<Rightarrow>
                                (Inr \<lparr>sr_pulled = (if current \<noteq> None then 1 else 0), sr_pushed = pushed, sr_conflicts = conflicts,
                                   sr_rejected = rejectedOperations\<rparr>, st')
                            | (Inl e, st') \<Rightarrow>
                                if e \<noteq> RemoteError SyncConflictError then (Inl e, st')
                                else (case retries of
                                    0 \<Rightarrow> (Inl e, st')
                                  | Suc retries' \<Rightarrow> syncAttempts transport localeCompare options changes acceptedIds rejectedOperations
                                      metadata retries' (conflicts + 1) st'))))))"

declare syncAttempts.simps [simp del]

definition runPreferenceSync ::
  "'r Transport \<Rightarrow> (string \<Rightarrow> string \<Rightarrow> int) \<Rightarrow> (string \<Rightarrow> string) \<Rightarrow> PreferenceSyncOptions \<Rightarrow> 'r SyncState \<Rightarrow>
     (PreferenceSyncError + ProgressSyncResult) \<times> 'r SyncState" where
  "runPreferenceSync transport localeCompare randomUUID options st0 =
     (case relayOutbox localeCompare randomUUID st0 of
        (Inl e, st) \<Rightarrow> (Inl e, st)
      | (Inr _, st) \<Rightarrow>
          if po_destinationId options = [] \<or> length (po_destinationId options) > 256 then (Inl InvalidDestination, st)
          else
            let pending = pending_ops localeCompare (ss_journal st);
                accepted = filter isPreferenceOperation pending;
                rejectedOperations = length (filter (\<lambda>operation. op_entity operation = ''preference'') pending) - length accepted;
                changes = uniqueChanges accepted;
                (metadata, db) = getReaderPreferenceSyncMetadata (ss_db st) (po_destinationId options)
            in syncAttempts transport localeCompare options changes (map op_id accepted) rejectedOperations
                 (map_option metadataOf metadata) (po_maxConflictRetries options) 0 (st\<lparr>ss_db := db\<rparr>))"

section \<open>What a synchronization leaves\<close>

lemma merge_registers:
  assumes "mergeReaderPreferenceSyncStates lc a b = Inr m"
  shows "register m format field = preferredRegister lc (register a format field) (register b format field)"
proof -
  have ok: "stateOk a" "stateOk b" using assms by (auto simp: mergeReaderPreferenceSyncStates_def split: if_splits)
  show ?thesis using preference_merge_valid [OF ok, of lc] assms by auto
qed

lemma preferredRegister_ge:
  assumes "collation lc" and "preferredRegister lc a b = Some m"
  shows "a = Some x \<Longrightarrow> compareRegisters lc x m \<le> 0" "b = Some y \<Longrightarrow> compareRegisters lc y m \<le> 0"
proof -
  have c: "comparator (compareRegisters lc)" using register_lww [OF assms(1)] by (rule lww.axioms)
  note refl = comparator.cmp_refl [OF c] and anti = comparator.cmp_anti [OF c]
  show "a = Some x \<Longrightarrow> compareRegisters lc x m \<le> 0" using assms(2) by (cases b) (auto simp: refl anti less_imp_le)
  show "b = Some y \<Longrightarrow> compareRegisters lc y m \<le> 0" using assms(2) by (cases a) (auto simp: refl not_less)
qed

lemma preferredRegister_some: "a = Some x \<or> b = Some x \<Longrightarrow> \<exists>m. preferredRegister lc a b = Some m"
  by (cases a; cases b) auto

lemma register_stateForChange: "register (stateForChange c) (ch_format c) (ch_field c) = Some (ch_register c)"
  by (cases "ch_format c") (simp_all add: stateForChange_def stateForSeed_def register_def)

text \<open>Merging changes into a state leaves in every field a register that is at least the old one and at least
  the one of every change.\<close>

lemma mergeChanges_registers:
  assumes "collation lc" and "mergeChanges lc changes state = Inr m"
  shows "register state format field = Some reg \<Longrightarrow> \<exists>reg'. register m format field = Some reg' \<and> compareRegisters lc reg reg' \<le> 0"
    "c \<in> set changes \<Longrightarrow> \<exists>reg'. register m (ch_format c) (ch_field c) = Some reg' \<and> compareRegisters lc (ch_register c) reg' \<le> 0"
proof -
  have c: "comparator (compareRegisters lc)" using register_lww [OF assms(1)] by (rule lww.axioms)
  note trans = comparator.cmp_trans [OF c] and refl = comparator.cmp_refl [OF c]
  have keeps: "\<exists>reg'. register m format field = Some reg' \<and> compareRegisters lc reg reg' \<le> 0"
    if "mergeChanges lc changes state = Inr m" "register state format field = Some reg" for changes state reg format field
    using that
  proof (induction changes arbitrary: state reg)
    case Nil
    then show ?case by (simp add: refl)
  next
    case (Cons d ds)
    then obtain s' where s': "mergeReaderPreferenceSyncStates lc state (stateForChange d) = Inr s'" "mergeChanges lc ds s' = Inr m"
      by (auto simp: andThen_Inr_iff)
    obtain r1 where r1: "register s' format field = Some r1" "compareRegisters lc reg r1 \<le> 0"
      using merge_registers [OF s'(1)] Cons.prems(2) preferredRegister_some preferredRegister_ge(1) [OF assms(1)] by metis
    show ?case using Cons.IH [OF s'(2) r1(1)] r1(2) trans by blast
  qed
  then show "register state format field = Some reg \<Longrightarrow> \<exists>reg'. register m format field = Some reg' \<and> compareRegisters lc reg reg' \<le> 0"
    using assms(2) by blast
  show "c \<in> set changes \<Longrightarrow> \<exists>reg'. register m (ch_format c) (ch_field c) = Some reg' \<and> compareRegisters lc (ch_register c) reg' \<le> 0"
    using assms(2)
  proof (induction changes arbitrary: state)
    case (Cons d ds)
    then obtain s' where s': "mergeReaderPreferenceSyncStates lc state (stateForChange d) = Inr s'" "mergeChanges lc ds s' = Inr m"
      by (auto simp: andThen_Inr_iff)
    show ?case
    proof (cases "c = d")
      case True
      obtain r1 where "register s' (ch_format c) (ch_field c) = Some r1" "compareRegisters lc (ch_register c) r1 \<le> 0"
        using merge_registers [OF s'(1)] True register_stateForChange [of d] preferredRegister_some
          preferredRegister_ge(2) [OF assms(1)] by metis
      then show ?thesis using keeps [OF s'(2)] trans by blast
    next
      case False
      then show ?thesis using Cons.IH [OF _ s'(2)] Cons.prems(1) by simp
    qed
  qed simp
qed

text \<open>A synchronization stands or falls with \<open>storeState\<close>: before it the journal is untouched.\<close>

definition storedState :: "PreferenceSyncOptions \<Rightarrow> ReaderPreferenceSyncState \<Rightarrow> LibraryDb \<Rightarrow> bool" where
  "storedState options state db \<longleftrightarrow>
     (\<exists>baseline. idbGet db READER_PREFERENCE_SYNC_METADATA_STORE [po_destinationId options] =
        Some (metadataVal \<lparr>md_destinationId = po_destinationId options, md_baseline = baseline, md_state = state\<rparr>)) \<and>
     (\<forall>format v. readerPreferencesFromSyncState format state = Inr v \<longrightarrow> idbGet db PREFERENCES_STORE [formatString format] = Some v)"

lemma preferences_key:
  assumes "readerPreferencesFromSyncState format state = Inr v"
  shows "recordKey PREFERENCES_STORE v = [formatString format]"
proof -
  obtain kvs where kvs: "preferencesVal (defaultReaderPreferences format) = JObj kvs" "getProp (JObj kvs) ''format'' = JStr (formatString format)"
    by (cases format) (simp_all add: preferencesVal_def defaultReaderPreferences_def formatString_def)
  have "v = applyRegisters (if format = Epub then st_epub state else st_pdf state) (preferenceFields format) (JObj kvs)"
    using assms kvs by (cases format) (auto simp: readerPreferencesFromSyncState_def preferenceFields_def defaultReaderPreferences_def split: if_splits)
  moreover have "''format'' \<notin> set (preferenceFields format)" by (cases format) (simp_all add: preferenceFields_def EPUB_READER_PREFERENCE_FIELDS_def PDF_READER_PREFERENCE_FIELDS_def)
  ultimately have "getProp v ''format'' = JStr (formatString format)" using kvs(2) getProp_applyRegisters by simp
  then show ?thesis by (simp add: recordKey_def keyPath_def strOf_def)
qed

lemma storeState_outcome:
  assumes "storeState options state baseline ids st = (r, st')"
  shows "ss_remote st' = ss_remote st" "r = Inl e \<Longrightarrow> ss_journal st' = ss_journal st"
    "r = Inr x \<Longrightarrow> ss_journal st' = acknowledge (ss_journal st) ids \<and> storedState options state (ss_db st')"
proof -
  show "ss_remote st' = ss_remote st" "r = Inl e \<Longrightarrow> ss_journal st' = ss_journal st"
    using assms by (auto simp: storeState_def split: sum.splits prod.splits)
  let ?m = "\<lparr>md_destinationId = po_destinationId options, md_baseline = baseline, md_state = state\<rparr>"
  assume "r = Inr x"
  then obtain epub pdf db u where v: "readerPreferencesFromSyncState Epub state = Inr epub" "readerPreferencesFromSyncState Pdf state = Inr pdf"
    and save: "saveSynchronizedReaderPreferences (ss_db st) [epub, pdf] ?m = (Inr u, db)"
    and st': "st' = st\<lparr>ss_db := db, ss_journal := acknowledge (ss_journal st) ids\<rparr>"
    using assms by (auto simp: storeState_def split: sum.splits prod.splits)
  have db: "db = idbPut READER_PREFERENCE_SYNC_METADATA_STORE (metadataVal ?m) (idbPut PREFERENCES_STORE pdf (idbPut PREFERENCES_STORE epub (ss_db st)))"
    using save by (auto simp: saveSynchronizedReaderPreferences_def split: if_splits)
  have "idbGet db PREFERENCES_STORE [formatString format] = Some v'" if "readerPreferencesFromSyncState format state = Inr v'" for format v'
    using v that preferences_key [OF v(1)] preferences_key [OF v(2)]
    by (cases format) (auto simp: db idbGet_idbWrite formatString_def)
  moreover have "idbGet db READER_PREFERENCE_SYNC_METADATA_STORE [po_destinationId options] = Some (metadataVal ?m)"
    by (simp add: db idbGet_idbWrite)
  ultimately show "ss_journal st' = acknowledge (ss_journal st) ids \<and> storedState options state (ss_db st')"
    unfolding storedState_def st' by auto
qed

text \<open>The state was read back from the remote store, where it is the last thing that was read.\<close>

definition verifiedRemote :: "'r Transport \<Rightarrow> ReaderPreferenceSyncState \<Rightarrow> 'r \<Rightarrow> bool" where
  "verifiedRemote transport state remote \<longleftrightarrow>
     (\<exists>remote0 document verified. tr_read transport remote0 READER_PREFERENCE_SYNC_PATH = (Inr document, remote) \<and>
        parseRemoteState document = Some verified \<and>
        serializeReaderPreferenceSyncState verified = serializeReaderPreferenceSyncState state)"

lemma verifyState_outcome:
  assumes "verifyState transport options state baseline content ids st = (r, st')"
    and "serializeReaderPreferenceSyncState state = Inr content"
  shows "r = Inl e \<Longrightarrow> ss_journal st' = ss_journal st"
    "r = Inr x \<Longrightarrow> ss_journal st' = acknowledge (ss_journal st) ids \<and> storedState options state (ss_db st') \<and>
       verifiedRemote transport state (ss_remote st')"
proof -
  obtain found remote where rd: "tr_read transport (ss_remote st) READER_PREFERENCE_SYNC_PATH = (found, remote)" by fastforce
  note eq = assms(1) [unfolded verifyState_def rd prod.case Let_def]
  show "r = Inl e \<Longrightarrow> ss_journal st' = ss_journal st"
    using eq storeState_outcome(2) by (fastforce split: sum.splits option.splits if_splits)
  assume r: "r = Inr x"
  obtain document verified where d: "found = Inr document" "parseRemoteState document = Some verified"
      "serializeReaderPreferenceSyncState verified = Inr content" "storeState options state baseline ids (st\<lparr>ss_remote := remote\<rparr>) = (r, st')"
    using eq r by (auto split: sum.splits option.splits if_splits)
  have "ss_remote st' = remote" using storeState_outcome(1) [OF d(4)] by simp
  then have "verifiedRemote transport state (ss_remote st')" unfolding verifiedRemote_def using rd d assms(2) by auto
  then show "ss_journal st' = acknowledge (ss_journal st) ids \<and> storedState options state (ss_db st') \<and>
       verifiedRemote transport state (ss_remote st')"
    using storeState_outcome(3) [OF d(4) r] by simp
qed

lemma publishState_outcome:
  assumes "publishState transport options current remoteState state baseline content ids st = (r, st')"
    and "serializeReaderPreferenceSyncState state = Inr content"
  shows "r = Inl e \<Longrightarrow> ss_journal st' = ss_journal st"
    "r = Inr n \<Longrightarrow> ss_journal st' = acknowledge (ss_journal st) ids \<and> storedState options state (ss_db st') \<and>
       verifiedRemote transport state (ss_remote st')"
proof -
  let ?ok = "ss_journal st' = acknowledge (ss_journal st) ids \<and> storedState options state (ss_db st') \<and>
       verifiedRemote transport state (ss_remote st')"
  obtain outcome remote where wr: "tr_write transport (ss_remote st) READER_PREFERENCE_SYNC_PATH content (map_option rd_revision current) = (outcome, remote)"
    by fastforce
  consider (failed) f where "r = Inl f" "ss_journal st' = ss_journal st"
    | (verified) st0 r0 where "verifyState transport options state baseline content ids st0 = (r0, st')" "ss_journal st0 = ss_journal st"
        "\<And>x. r0 = Inr x \<longleftrightarrow> (\<exists>n. r = Inr n)" "\<And>e. r0 = Inl e \<longleftrightarrow> r = Inl e"
    using assms(1) wr
    by (auto simp: publishState_def Let_def split: if_splits sum.splits prod.splits)
  note cs = this
  show "ss_journal st' = ss_journal st" if "r = Inl e"
  proof (cases rule: cs)
    case (verified st0 r0)
    then show ?thesis using verifyState_outcome(1) [OF verified(1) assms(2)] that by metis
  qed simp
  show ?ok if "r = Inr n"
  proof (cases rule: cs)
    case (verified st0 r0)
    then have "r0 = Inr ()" using that by blast
    then show ?thesis using verifyState_outcome(2) [OF verified(1) assms(2)] verified(2) by simp
  qed (use that in simp)
qed

definition syncCompleted ::
  "'r Transport \<Rightarrow> (string \<Rightarrow> string \<Rightarrow> int) \<Rightarrow> PreferenceSyncOptions \<Rightarrow> ReaderPreferenceChange list \<Rightarrow> string list \<Rightarrow> Journal \<Rightarrow>
     'r SyncState \<Rightarrow> bool" where
  "syncCompleted transport lc options changes ids journal st' \<longleftrightarrow>
     (\<exists>state state0. ss_journal st' = acknowledge journal ids \<and> mergeChanges lc changes state0 = Inr state \<and>
        storedState options state (ss_db st') \<and> verifiedRemote transport state (ss_remote st'))"

text \<open>One attempt fails without touching the journal, or completes, or leads to the next.\<close>

lemma syncAttempts_step:
  assumes "syncAttempts transport lc options changes ids rejected metadata retries conflicts st = (r, st')"
  shows "ss_journal st' = ss_journal st \<or>
    (\<exists>result. r = Inr result \<and> syncCompleted transport lc options changes ids (ss_journal st) st') \<or>
    (\<exists>retries' st1. retries = Suc retries' \<and> ss_journal st1 = ss_journal st \<and>
       syncAttempts transport lc options changes ids rejected metadata retries' (conflicts + 1) st1 = (r, st'))"
proof -
  obtain found remote where rd: "tr_read transport (ss_remote st) READER_PREFERENCE_SYNC_PATH = (found, remote)" by fastforce
  note eq = assms [unfolded syncAttempts.simps [of transport lc options changes ids rejected metadata retries conflicts st] rd prod.case Let_def]
  show ?thesis
  proof (cases "ss_journal st' = ss_journal st")
    case False
    obtain current where c: "found = Inr current" using eq False by (cases found) auto
    let ?rs = "parseRemoteState current"
    have run: "\<not> (current \<noteq> None \<and> ?rs = None)"
    proof
      assume rej: "current \<noteq> None \<and> ?rs = None"
      show False using eq [unfolded c sum.case if_P [OF rej]] False by auto
    qed
    obtain base db where b: "baseState lc options metadata ?rs (ss_db (st\<lparr>ss_remote := remote\<rparr>)) = (base, db)" by fastforce
    note eq1 = eq [unfolded c sum.case if_not_P [OF run] b prod.case]
    obtain state0 baseline where s0: "base = Inr (state0, baseline)" using eq1 False by (cases base) auto
    obtain state where s: "mergeChanges lc changes state0 = Inr state" using eq1 False s0 by (auto split: sum.splits)
    obtain content where ct: "serializeReaderPreferenceSyncState state = Inr content" using eq1 False s0 s by (auto split: sum.splits)
    obtain pub st1 where p: "publishState transport options current ?rs state baseline content ids (st\<lparr>ss_remote := remote, ss_db := db\<rparr>) = (pub, st1)"
      by fastforce
    have p': "publishState transport options current ?rs state baseline content ids (st\<lparr>ss_remote := remote\<rparr>\<lparr>ss_db := db\<rparr>) = (pub, st1)"
      using p by simp
    note eq2 = eq1 [unfolded s0 sum.case prod.case s ct p']
    show ?thesis
    proof (cases pub)
      case (Inr n)
      then show ?thesis using eq2 publishState_outcome(2) [OF p ct Inr] s unfolding syncCompleted_def by auto
    next
      case (Inl e)
      then show ?thesis using eq2 publishState_outcome(1) [OF p ct Inl] False
        by (auto split: if_splits nat.splits)
    qed
  qed simp
qed

lemma syncAttempts_outcome:
  "syncAttempts transport lc options changes ids rejected metadata retries conflicts st = (r, st') \<Longrightarrow>
    ss_journal st' = ss_journal st \<or> (\<exists>result. r = Inr result \<and> syncCompleted transport lc options changes ids (ss_journal st) st')"
proof (induction retries arbitrary: conflicts st)
  case 0
  then show ?case using syncAttempts_step [OF 0] by blast
next
  case (Suc retries)
  from syncAttempts_step [OF Suc.prems] show ?case using Suc.IH by (metis nat.inject)
qed

text \<open>C27. A synchronization of preferences never loses a change. Either the journal still holds what it held after
  the outbox was relayed; or the remote state was read back, it is the state that is stored locally with the
  preferences it stands for, every change of the journal is in it unless a newer one won, and exactly
  the operations of these changes are acknowledged.\<close>

theorem preference_sync_outcome:
  assumes "collation lc" and "relayOutbox lc randomUUID st = (Inr (), st1)"
    and "runPreferenceSync transport lc randomUUID options st = (r, st')"
  shows "let accepted = filter isPreferenceOperation (pending_ops lc (ss_journal st1)) in
    ss_journal st' = ss_journal st1 \<or>
    (\<exists>result state. r = Inr result \<and> ss_journal st' = acknowledge (ss_journal st1) (map op_id accepted) \<and>
       verifiedRemote transport state (ss_remote st') \<and> storedState options state (ss_db st') \<and>
       (\<forall>c \<in> set (uniqueChanges accepted). \<exists>reg. register state (ch_format c) (ch_field c) = Some reg \<and>
          compareRegisters lc (ch_register c) reg \<le> 0))"
proof (cases "po_destinationId options = [] \<or> length (po_destinationId options) > 256")
  case True
  then show ?thesis using assms(2,3) by (simp add: runPreferenceSync_def Let_def)
next
  case False
  let ?acc = "filter isPreferenceOperation (pending_ops lc (ss_journal st1))"
  obtain metadata db where m: "getReaderPreferenceSyncMetadata (ss_db st1) (po_destinationId options) = (metadata, db)" by fastforce
  obtain rejected where a: "syncAttempts transport lc options (uniqueChanges ?acc) (map op_id ?acc) rejected (map_option metadataOf metadata)
      (po_maxConflictRetries options) 0 (st1\<lparr>ss_db := db\<rparr>) = (r, st')"
    using assms(2,3) False m by (auto simp: runPreferenceSync_def Let_def)
  from syncAttempts_outcome [OF a] show ?thesis
    using mergeChanges_registers(2) [OF assms(1)] unfolding syncCompleted_def Let_def by auto
qed


section \<open>A change that loses against an older one\<close>

lemma relay_single:
  assumes "db_stores (ss_db st) READER_PREFERENCE_CHANGE_OUTBOX_STORE = [([reg_changeId (ch_register c)], preferenceChangeVal c)]"
    and "relayOutbox lc randomUUID st = (Inr (), st2)"
  shows "db_stores (ss_db st2) READER_PREFERENCE_CHANGE_OUTBOX_STORE = []"
    "db_stores (ss_db st2) READER_PREFERENCE_SYNC_METADATA_STORE = db_stores (ss_db st) READER_PREFERENCE_SYNC_METADATA_STORE"
  using assms
  by (auto simp: relayOutbox_def listPendingReaderPreferenceChanges_def storeRecords_def acknowledgePendingReaderPreferenceChanges_def
      idbDelete_def Let_def split: if_splits sum.splits prod.splits)

lemma commit_single:
  assumes "commitReaderPreferenceUpdate db preferences [field] deviceId ids = (Inr changes, db')"
    and "db_stores db READER_PREFERENCE_CHANGE_OUTBOX_STORE = []"
  obtains c where "changes = [c]" "ch_field c = field" "reg_deviceId (ch_register c) = deviceId"
    "nextPreferenceRevision (ch_format c) field [] (map metadataOf (storeRecords db READER_PREFERENCE_SYNC_METADATA_STORE)) =
       Inr (reg_revision (ch_register c))"
    "isReaderPreferenceChange (preferenceChangeVal c)"
    "db_stores db' READER_PREFERENCE_CHANGE_OUTBOX_STORE = [([reg_changeId (ch_register c)], preferenceChangeVal c)]"
    "db_stores db' READER_PREFERENCE_SYNC_METADATA_STORE = db_stores db READER_PREFERENCE_SYNC_METADATA_STORE"
    "ch_format c = formatOf (getProp (preferencesVal preferences) ''format'')"
proof -
  note c = commit_changes [OF assms(1)]
  obtain x where x: "changes = [x]" using c(4) by (cases changes) auto
  have f: "ch_field x = field" using c(1) x by auto
  note r = preferenceUpdate_result [OF c(3) [of x, unfolded x, simplified]]
  have empty: "storeRecords db READER_PREFERENCE_CHANGE_OUTBOX_STORE = []" using assms(2) by (simp add: storeRecords_def)
  show ?thesis
    by (rule that [OF x f r(4) _ r(5) _ _ r(7)])
      (use r(1) f empty assms(2) in \<open>simp_all add: c(2) x idbWrite_def\<close>)
qed

text \<open>C40. Relaying a change takes it out of the outbox before the state of the destination knows it, and the next
  revision is counted from these two only. Until a synchronization completes, the next change of the same field
  on the same device therefore gets the same revision again, and when its random identifier compares lower the
  older change wins the merge: what the reader set last is lost.\<close>

theorem relayed_revision_reused:
  assumes "collation lc" and "db_stores (ss_db st) READER_PREFERENCE_CHANGE_OUTBOX_STORE = []"
    and "commitReaderPreferenceUpdate (ss_db st) first [field] deviceId ids1 = (Inr changes1, db1)"
    and "relayOutbox lc randomUUID (st\<lparr>ss_db := db1\<rparr>) = (Inr (), st2)"
    and "commitReaderPreferenceUpdate (ss_db st2) second [field] deviceId ids2 = (Inr changes2, db3)"
    and "getProp (preferencesVal first) ''format'' = getProp (preferencesVal second) ''format''"
    and "c1 \<in> set changes1" and "c2 \<in> set changes2"
  shows "reg_revision (ch_register c2) = reg_revision (ch_register c1) \<and>
    (0 < lc (reg_changeId (ch_register c1)) (reg_changeId (ch_register c2)) \<longrightarrow>
     (\<forall>state. mergeChanges lc [c1, c2] EMPTY_STATE = Inr state \<longrightarrow>
        register state (ch_format c1) field = Some (ch_register c1)))"
proof -
  obtain d1 where d1: "changes1 = [d1]" "ch_field d1 = field" "reg_deviceId (ch_register d1) = deviceId"
    "nextPreferenceRevision (ch_format d1) field [] (map metadataOf (storeRecords (ss_db st) READER_PREFERENCE_SYNC_METADATA_STORE)) =
       Inr (reg_revision (ch_register d1))"
    "db_stores db1 READER_PREFERENCE_CHANGE_OUTBOX_STORE = [([reg_changeId (ch_register d1)], preferenceChangeVal d1)]"
    "db_stores db1 READER_PREFERENCE_SYNC_METADATA_STORE = db_stores (ss_db st) READER_PREFERENCE_SYNC_METADATA_STORE"
    "ch_format d1 = formatOf (getProp (preferencesVal first) ''format'')"
    using commit_single [OF assms(3,2)] by metis
  have out: "db_stores (ss_db st2) READER_PREFERENCE_CHANGE_OUTBOX_STORE = []"
    and meta: "db_stores (ss_db st2) READER_PREFERENCE_SYNC_METADATA_STORE = db_stores (ss_db st) READER_PREFERENCE_SYNC_METADATA_STORE"
    using relay_single [OF _ assms(4), of d1] d1(5,6) by simp_all
  obtain d2 where d2: "changes2 = [d2]" "ch_field d2 = field" "reg_deviceId (ch_register d2) = deviceId"
    "nextPreferenceRevision (ch_format d2) field [] (map metadataOf (storeRecords (ss_db st2) READER_PREFERENCE_SYNC_METADATA_STORE)) =
       Inr (reg_revision (ch_register d2))"
    "ch_format d2 = formatOf (getProp (preferencesVal second) ''format'')"
    using commit_single [OF assms(5) out] by metis
  have c: "c1 = d1" "c2 = d2" using assms(7,8) d1(1) d2(1) by simp_all
  have rev: "reg_revision (ch_register d2) = reg_revision (ch_register d1)"
    using d1(4,7) d2(4,5) assms(6) meta by (simp add: storeRecords_def)
  have "register state (ch_format d1) field = Some (ch_register d1)"
    if lt: "0 < lc (reg_changeId (ch_register d1)) (reg_changeId (ch_register d2))"
      and m: "mergeChanges lc [d1, d2] EMPTY_STATE = Inr state" for state
  proof -
    obtain s1 where s1: "mergeReaderPreferenceSyncStates lc EMPTY_STATE (stateForChange d1) = Inr s1"
        "mergeReaderPreferenceSyncStates lc s1 (stateForChange d2) = Inr state"
      using m by (auto simp: andThen_Inr_iff)
    have "register s1 (ch_format d1) field = Some (ch_register d1)"
      using merge_registers [OF s1(1), of "ch_format d1" field] register_stateForChange [of d1] d1(2) by (simp add: register_def EMPTY_STATE_def)
    moreover have "register (stateForChange d2) (ch_format d1) field = Some (ch_register d2)"
      using register_stateForChange [of d2] d1(7) d2(2,5) assms(6) by simp
    moreover have "\<not> 0 < compareRegisters lc (ch_register d2) (ch_register d1)"
    proof -
      have lcc: "comparator lc" using assms(1) by (simp add: collation_def)
      have "compareRegisters lc (ch_register d2) (ch_register d1) = lc (reg_changeId (ch_register d2)) (reg_changeId (ch_register d1))"
        using rev d1(3) d2(3) comparator.cmp_refl [OF lcc] by (simp add: compareRegisters_def cmpOr_def)
      then show ?thesis using lt comparator.cmp_anti [OF lcc, of "reg_changeId (ch_register d1)" "reg_changeId (ch_register d2)"] by linarith
    qed
    ultimately show ?thesis using merge_registers [OF s1(2), of "ch_format d1" field] by simp
  qed
  then show ?thesis using rev c by blast
qed


section \<open>Examples\<close>

text \<open>A remote store that holds the one document and checks the expected revision.\<close>

definition oneDocumentTransport :: "RemoteDocument option Transport" where
  "oneDocumentTransport =
     \<lparr>tr_list = (\<lambda>remote _. (Inr (case remote of None \<Rightarrow> [] | Some d \<Rightarrow> [d]), remote)),
      tr_read = (\<lambda>remote _. (Inr remote, remote)),
      tr_write = (\<lambda>remote path content expected.
        if expected \<noteq> map_option rd_revision remote then (Inl SyncConflictError, remote)
        else let d = \<lparr>rd_path = path, rd_content = content, rd_revision = content\<rparr> in (Inr d, Some d))\<rparr>"

definition exampleOptions :: PreferenceSyncOptions where
  "exampleOptions = \<lparr>po_destinationId = ''destination'', po_deviceId = ''device-a'', po_createChangeId = (\<lambda>_ field. field),
     po_maxConflictRetries = 2\<rparr>"

definition darkState :: "RemoteDocument option SyncState" where
  "darkState = \<lparr>ss_remote = None, ss_known = [], ss_db = snd darkCommit, ss_journal = \<lparr>j_operations = [], j_revisions = []\<rparr>\<rparr>"

lemma darkState_relays: "fst (relayOutbox codeUnitCompare id darkState) = Inr ()"
  by code_simp

theorem preference_sync_outcome_witness:
  "let st1 = snd (relayOutbox codeUnitCompare id darkState);
       run = runPreferenceSync oneDocumentTransport codeUnitCompare id exampleOptions darkState
   in length (pending_ops codeUnitCompare (ss_journal st1)) = 1 \<and> pending_ops codeUnitCompare (ss_journal (snd run)) = [] \<and>
      (\<exists>state. verifiedRemote oneDocumentTransport state (ss_remote (snd run)) \<and> storedState exampleOptions state (ss_db (snd run)))"
proof -
  let ?r = "relayOutbox codeUnitCompare id darkState" and ?run = "runPreferenceSync oneDocumentTransport codeUnitCompare id exampleOptions darkState"
  have relay: "?r = (Inr (), snd ?r)" using darkState_relays by (metis prod.collapse)
  have run: "?run = (fst ?run, snd ?run)" by simp
  have one: "length (pending_ops codeUnitCompare (ss_journal (snd ?r))) = 1" by code_simp
  have none: "pending_ops codeUnitCompare (ss_journal (snd ?run)) = []" by code_simp
  then have "ss_journal (snd ?run) \<noteq> ss_journal (snd ?r)" using one by auto
  then show ?thesis using preference_sync_outcome [OF ascii.collation_axioms relay run] one none by (auto simp: Let_def)
qed

definition sepiaPreferences :: ReaderPreferences where
  "sepiaPreferences = EpubPrefs (DEFAULT_EPUB_READER_PREFERENCES\<lparr>theme := Sepia\<rparr>)"

definition sepiaCommit :: "(PreferenceStoreError + ReaderPreferenceChange list) \<times> LibraryDb" where
  "sepiaCommit = commitReaderPreferenceUpdate (ss_db (snd (relayOutbox codeUnitCompare id darkState))) sepiaPreferences [''theme'']
     ''device-a'' (\<lambda>_. ''change-a'')"

theorem relayed_revision_reused_witness:
  "\<exists>c1 c2 state. fst darkCommit = Inr [c1] \<and> fst sepiaCommit = Inr [c2] \<and>
     reg_revision (ch_register c2) = reg_revision (ch_register c1) \<and> mergeChanges codeUnitCompare [c1, c2] EMPTY_STATE = Inr state \<and>
     register state Epub ''theme'' = Some (ch_register c1)"
proof -
  let ?r = "relayOutbox codeUnitCompare id darkState"
  have "case (fst darkCommit, fst sepiaCommit) of
      (Inr [c1], Inr [c2]) \<Rightarrow> reg_changeId (ch_register c1) = ''change-b'' \<and> reg_changeId (ch_register c2) = ''change-a'' \<and>
        ch_format c1 = Epub \<and> (case mergeChanges codeUnitCompare [c1, c2] EMPTY_STATE of Inr _ \<Rightarrow> True | Inl _ \<Rightarrow> False)
    | _ \<Rightarrow> False" by code_simp
  then obtain c1 c2 state where c: "fst darkCommit = Inr [c1]" "fst sepiaCommit = Inr [c2]" "reg_changeId (ch_register c1) = ''change-b''"
    "reg_changeId (ch_register c2) = ''change-a''" "ch_format c1 = Epub" "mergeChanges codeUnitCompare [c1, c2] EMPTY_STATE = Inr state"
    by (auto split: sum.splits list.splits)
  have first: "commitReaderPreferenceUpdate (ss_db (darkState\<lparr>ss_db := exampleDb\<rparr>)) darkPreferences [''theme''] ''device-a'' (\<lambda>_. ''change-b'') =
      (Inr [c1], snd darkCommit)"
    using c(1) by (simp add: darkCommit_def prod_eq_iff)
  have relay: "relayOutbox codeUnitCompare id (darkState\<lparr>ss_db := exampleDb\<rparr>\<lparr>ss_db := snd darkCommit\<rparr>) = (Inr (), snd ?r)"
    using darkState_relays by (simp add: prod_eq_iff) (simp add: darkState_def)
  have second: "commitReaderPreferenceUpdate (ss_db (snd ?r)) sepiaPreferences [''theme''] ''device-a'' (\<lambda>_. ''change-a'') = (Inr [c2], snd sepiaCommit)"
    using c(2) by (simp add: sepiaCommit_def prod_eq_iff)
  have empty: "db_stores (ss_db (darkState\<lparr>ss_db := exampleDb\<rparr>)) READER_PREFERENCE_CHANGE_OUTBOX_STORE = []"
    by (simp add: exampleDb_def)
  have same: "getProp (preferencesVal darkPreferences) ''format'' = getProp (preferencesVal sepiaPreferences) ''format''" by code_simp
  have less: "0 < codeUnitCompare (reg_changeId (ch_register c1)) (reg_changeId (ch_register c2))" unfolding c(3,4) by code_simp
  from relayed_revision_reused [OF ascii.collation_axioms empty first relay second same, of c1 c2] less c show ?thesis by auto
qed

end
