(* ===== verification/Auto_Sync.thy ===== *)
theory Auto_Sync
  imports JS_Date
begin

text \<open>
  \<open>libs/sync/core/src/lib/auto-sync-scheduler.ts\<close>: when synchronization runs by itself. The scheduler holds at
  most one timer and one running synchronization; requests that arrive while one runs or while the
  device is offline are merged into one queued reason. The environment (clock, connectivity, visibility,
  selected provider, the two stores) is part of the state, and so is the promise of the running
  synchronization with the local variables of \<open>runAutomatic\<close>. Listeners only observe the status and are left out.
\<close>

section \<open>Time stamps\<close>

text \<open>\<open>new Date(t).toISOString()\<close>: the date of a day number in the proleptic Gregorian calendar, the year with at
  least four digits, six and a sign outside the years 0 to 9999.\<close>

definition padNumber :: "nat \<Rightarrow> int \<Rightarrow> string" where
  "padNumber n i = (let s = showInt i in replicate (n - length s) (CHR ''0'') @ s)"

definition civilDate :: "int \<Rightarrow> int \<times> int \<times> int" where
  "civilDate days =
     (let z = days + 719468; era = z div 146097; doe = z mod 146097;
          yoe = (doe - doe div 1460 + doe div 36524 - doe div 146096) div 365;
          doy = doe - (365 * yoe + yoe div 4 - yoe div 100);
          mp = (5 * doy + 2) div 153;
          d = doy - (153 * mp + 2) div 5 + 1;
          m = (if mp < 10 then mp + 3 else mp - 9)
      in (yoe + era * 400 + (if m \<le> 2 then 1 else 0), m, d))"

definition toISOString :: "int \<Rightarrow> string" where
  "toISOString t =
     (let (y, m, d) = civilDate (t div 86400000); ms = t mod 86400000;
          year = (if 0 \<le> y \<and> y \<le> 9999 then padNumber 4 y
            else (if y < 0 then ''-'' else ''+'') @ padNumber 6 \<bar>y\<bar>)
      in year @ ''-'' @ padNumber 2 m @ ''-'' @ padNumber 2 d @ ''T'' @ padNumber 2 (ms div 3600000) @ '':'' @
         padNumber 2 (ms div 60000 mod 60) @ '':'' @ padNumber 2 (ms div 1000 mod 60) @ ''.'' @ padNumber 3 (ms mod 1000) @ ''Z'')"

section \<open>Status and state\<close>

datatype SyncProviderKind = Git | Mega

datatype AutoSyncReason =
  Startup | BookChange | ReadingQuiet | Background | Online | DestinationSelected | RevisionCheck

datatype AutoSyncStatusReason = Automatic AutoSyncReason | Manual

datatype AutoSyncPhase = Idle | Scheduled | Syncing | Cancelling | Cancelled | Offline | ErrorPhase

record SyncWorkerResult =
  wr_pulled :: int
  wr_pushed :: int
  wr_conflicts :: int
  wr_rejected :: int
  wr_unchanged :: bool
  wr_maintenancePending :: bool

text \<open>Progress of a transfer is an opaque value. Time stamps of the status are texts.\<close>

record AutoSyncStatus =
  as_phase :: AutoSyncPhase
  as_reason :: "AutoSyncStatusReason option"
  as_scheduledFor :: "string option"
  as_lastAttemptAt :: "string option"
  as_lastSuccessAt :: "string option"
  as_lastResult :: "SyncWorkerResult option"
  as_transferProgress :: "jsval option"
  as_errorMessage :: "string option"

record AutoSyncHistory =
  hi_lastSuccessAt :: string
  hi_lastResult :: SyncWorkerResult

record AutoSyncOptions =
  op_quietIntervalMs :: int
  op_interactiveQuietIntervalMs :: int
  op_revisionCheckIntervalMs :: int

text \<open>A store that throws is one that does not persist: it reads nothing and keeps nothing.\<close>

record AutoSyncEnvironment =
  env_now :: int
  env_online :: bool
  env_background :: bool
  env_selected :: "SyncProviderKind option"
  env_persists :: bool
  env_retryAfter :: "SyncProviderKind \<Rightarrow> int option"
  env_history :: "SyncProviderKind \<Rightarrow> AutoSyncHistory option"

text \<open>The synchronization that runs: the locals of \<open>runAutomatic\<close> and whether its controller is aborted.\<close>

record ActiveSync =
  act_provider :: SyncProviderKind
  act_reason :: AutoSyncReason
  act_aborted :: bool

text \<open>A timer is the time it is due and what its callback captures.\<close>

record AutoSyncScheduler =
  sch_options :: AutoSyncOptions
  sch_env :: AutoSyncEnvironment
  sch_providerRetryAfterAt :: "SyncProviderKind \<Rightarrow> int option"
  sch_loadedProviderRetryAfter :: "SyncProviderKind set"
  sch_historyProvider :: "SyncProviderKind option"
  sch_status :: AutoSyncStatus
  sch_started :: bool
  sch_timer :: "(int \<times> AutoSyncReason) option"
  sch_revisionCheckTimer :: "int option"
  sch_scheduledReason :: "AutoSyncReason option"
  sch_queuedReason :: "AutoSyncReason option"
  sch_queuedQuietUntil :: "int option"
  sch_activeSync :: "ActiveSync option"

abbreviation now :: "AutoSyncScheduler \<Rightarrow> int" where
  "now s \<equiv> env_now (sch_env s)"

abbreviation isOnline :: "AutoSyncScheduler \<Rightarrow> bool" where
  "isOnline s \<equiv> env_online (sch_env s)"

abbreviation selected :: "AutoSyncScheduler \<Rightarrow> SyncProviderKind option" where
  "selected s \<equiv> env_selected (sch_env s)"

definition DEFAULT_QUIET_INTERVAL_MS :: int where
  "DEFAULT_QUIET_INTERVAL_MS = 750"

definition DEFAULT_INTERACTIVE_QUIET_INTERVAL_MS :: int where
  "DEFAULT_INTERACTIVE_QUIET_INTERVAL_MS = 50"

definition DEFAULT_REVISION_CHECK_INTERVAL_MS :: int where
  "DEFAULT_REVISION_CHECK_INTERVAL_MS = 10000"

definition DEFAULT_PROVIDER_RETRY_AFTER_MS :: int where
  "DEFAULT_PROVIDER_RETRY_AFTER_MS = 60000"

definition PROVIDER_RATE_LIMIT_MESSAGE :: string where
  "PROVIDER_RATE_LIMIT_MESSAGE =
     ''The synchronization provider is temporarily rate limiting requests. Local changes are safe and automatic synchronization will retry.''"

definition mergeReasons :: "AutoSyncReason option \<Rightarrow> AutoSyncReason \<Rightarrow> AutoSyncReason" where
  "mergeReasons current incoming =
     (case current of None \<Rightarrow> incoming | Some c \<Rightarrow> if c = ReadingQuiet then incoming else c)"

definition providerRetryAfterSeconds :: "jsval \<Rightarrow> int option" where
  "providerRetryAfterSeconds error =
     (if getProp error ''status'' \<noteq> JInt 429 then None
      else case getProp error ''retryAfterSeconds'' of
        JNum (Fin q) \<Rightarrow> if isSafeInteger (Fin q) \<and> 1 \<le> q \<and> q \<le> 86400 then Some \<lfloor>q\<rfloor> else Some (DEFAULT_PROVIDER_RETRY_AFTER_MS div 1000)
      | _ \<Rightarrow> Some (DEFAULT_PROVIDER_RETRY_AFTER_MS div 1000))"

section \<open>History and rate limits\<close>

abbreviation setStatus :: "(AutoSyncStatus \<Rightarrow> AutoSyncStatus) \<Rightarrow> AutoSyncScheduler \<Rightarrow> AutoSyncScheduler" where
  "setStatus \<equiv> sch_status_update"

definition activateHistory :: "SyncProviderKind \<Rightarrow> AutoSyncScheduler \<Rightarrow> AutoSyncScheduler" where
  "activateHistory provider s =
     (if sch_historyProvider s = Some provider then s
      else
        let history = (if env_persists (sch_env s) then env_history (sch_env s) provider else None) in
        setStatus (\<lambda>st. st\<lparr>as_lastAttemptAt := None, as_lastSuccessAt := map_option hi_lastSuccessAt history,
          as_lastResult := map_option hi_lastResult history\<rparr>) (s\<lparr>sch_historyProvider := Some provider\<rparr>))"

text \<open>What every public entry does first: show the history of the selected provider.\<close>

definition activateSelected :: "AutoSyncScheduler \<Rightarrow> AutoSyncScheduler" where
  "activateSelected s = (case selected s of None \<Rightarrow> s | Some provider \<Rightarrow> activateHistory provider s)"

definition writeRetryAfter :: "SyncProviderKind \<Rightarrow> int option \<Rightarrow> AutoSyncScheduler \<Rightarrow> AutoSyncScheduler" where
  "writeRetryAfter provider timestamp s =
     (if env_persists (sch_env s)
      then s\<lparr>sch_env := (sch_env s)\<lparr>env_retryAfter := (env_retryAfter (sch_env s))(provider := timestamp)\<rparr>\<rparr> else s)"

definition persistProviderRetryAfter :: "SyncProviderKind \<Rightarrow> int \<Rightarrow> AutoSyncScheduler \<Rightarrow> AutoSyncScheduler" where
  "persistProviderRetryAfter provider retryAfterAt s =
     writeRetryAfter provider (Some retryAfterAt)
       (s\<lparr>sch_loadedProviderRetryAfter := insert provider (sch_loadedProviderRetryAfter s),
          sch_providerRetryAfterAt := (sch_providerRetryAfterAt s)(provider := Some retryAfterAt)\<rparr>)"

definition clearProviderRetryAfter :: "SyncProviderKind \<Rightarrow> AutoSyncScheduler \<Rightarrow> AutoSyncScheduler" where
  "clearProviderRetryAfter provider s =
     writeRetryAfter provider None
       (s\<lparr>sch_loadedProviderRetryAfter := insert provider (sch_loadedProviderRetryAfter s),
          sch_providerRetryAfterAt := (sch_providerRetryAfterAt s)(provider := None)\<rparr>)"

definition loadProviderRetryAfter :: "SyncProviderKind \<Rightarrow> AutoSyncScheduler \<Rightarrow> AutoSyncScheduler" where
  "loadProviderRetryAfter provider s =
     (if provider \<in> sch_loadedProviderRetryAfter s then s
      else
        let s = s\<lparr>sch_loadedProviderRetryAfter := insert provider (sch_loadedProviderRetryAfter s)\<rparr> in
        case (if env_persists (sch_env s) then env_retryAfter (sch_env s) provider else None) of
          None \<Rightarrow> s
        | Some stored \<Rightarrow> s\<lparr>sch_providerRetryAfterAt := (sch_providerRetryAfterAt s)(provider := Some stored)\<rparr>)"

definition readProviderRetryDelay :: "SyncProviderKind \<Rightarrow> AutoSyncScheduler \<Rightarrow> int \<times> AutoSyncScheduler" where
  "readProviderRetryDelay provider s0 =
     (let s = loadProviderRetryAfter provider s0 in
      case sch_providerRetryAfterAt s provider of
        None \<Rightarrow> (0, s)
      | Some retryAfterAt \<Rightarrow>
          (let delay = retryAfterAt - now s in
           if delay > 0 then (delay, s) else (0, clearProviderRetryAfter provider s)))"

section \<open>Timers\<close>

definition clearScheduledTimer :: "AutoSyncScheduler \<Rightarrow> AutoSyncScheduler" where
  "clearScheduledTimer s = s\<lparr>sch_timer := None, sch_scheduledReason := None\<rparr>"

definition clearRevisionCheckTimer :: "AutoSyncScheduler \<Rightarrow> AutoSyncScheduler" where
  "clearRevisionCheckTimer s = s\<lparr>sch_revisionCheckTimer := None\<rparr>"

definition revisionPollingEnabled :: "AutoSyncScheduler \<Rightarrow> bool" where
  "revisionPollingEnabled s \<longleftrightarrow>
     sch_started s \<and>
     (selected s = Some Git \<or>
      (selected s = Some Mega \<and> (case as_lastResult (sch_status s) of None \<Rightarrow> False | Some r \<Rightarrow> wr_maintenancePending r))) \<and>
     isOnline s \<and> \<not> env_background (sch_env s)"

definition scheduleRevisionCheck :: "AutoSyncScheduler \<Rightarrow> AutoSyncScheduler" where
  "scheduleRevisionCheck s0 =
     (let s = clearRevisionCheckTimer s0 in
      if \<not> revisionPollingEnabled s then s
      else s\<lparr>sch_revisionCheckTimer := Some (now s + op_revisionCheckIntervalMs (sch_options s))\<rparr>)"

definition scheduleSync :: "AutoSyncReason \<Rightarrow> int \<Rightarrow> string option \<Rightarrow> AutoSyncScheduler \<Rightarrow> AutoSyncScheduler" where
  "scheduleSync reason delay errorMessage s =
     setStatus (\<lambda>st. st\<lparr>as_phase := Scheduled, as_reason := Some (Automatic reason),
         as_scheduledFor := Some (toISOString (now s + delay)), as_transferProgress := None, as_errorMessage := errorMessage\<rparr>)
       ((clearScheduledTimer s)\<lparr>sch_scheduledReason := Some reason, sch_timer := Some (now s + delay, reason)\<rparr>)"

section \<open>Requests\<close>

definition goOffline :: "AutoSyncReason \<Rightarrow> AutoSyncScheduler \<Rightarrow> AutoSyncScheduler" where
  "goOffline reason s =
     setStatus (\<lambda>st. st\<lparr>as_phase := Offline, as_reason := Some (Automatic reason), as_transferProgress := None\<rparr>) s"

definition requestImmediate :: "AutoSyncReason \<Rightarrow> AutoSyncScheduler \<Rightarrow> AutoSyncScheduler" where
  "requestImmediate reason s0 =
     (case selected s0 of
        None \<Rightarrow> s0
      | Some provider \<Rightarrow>
          if \<not> sch_started s0 then s0
          else
            let s = activateHistory provider s0 in
            if \<not> isOnline s then
              goOffline reason (clearScheduledTimer (s\<lparr>sch_queuedReason := Some (mergeReasons (sch_queuedReason s) reason)\<rparr>))
            else if sch_activeSync s \<noteq> None then s\<lparr>sch_queuedReason := Some (mergeReasons (sch_queuedReason s) reason)\<rparr>
            else
              let (retryDelay, s) = readProviderRetryDelay provider s in
              scheduleSync reason retryDelay (if retryDelay > 0 then Some PROVIDER_RATE_LIMIT_MESSAGE else None) s)"

definition requestQuiet :: "int \<Rightarrow> AutoSyncScheduler \<Rightarrow> AutoSyncScheduler" where
  "requestQuiet delay s0 =
     (case selected s0 of
        None \<Rightarrow> s0
      | Some provider \<Rightarrow>
          if \<not> sch_started s0 then s0
          else
            let s = activateHistory provider s0 in
            if \<not> isOnline s then
              goOffline ReadingQuiet
                (clearScheduledTimer (s\<lparr>sch_queuedReason := Some (mergeReasons (sch_queuedReason s) ReadingQuiet)\<rparr>))
            else if sch_activeSync s \<noteq> None then
              s\<lparr>sch_queuedReason := Some (mergeReasons (sch_queuedReason s) ReadingQuiet), sch_queuedQuietUntil := Some (now s + delay)\<rparr>
            else if sch_scheduledReason s \<noteq> None \<and> sch_scheduledReason s \<noteq> Some ReadingQuiet then s
            else
              let (providerRetryDelay, s) = readProviderRetryDelay provider s in
              scheduleSync ReadingQuiet (max delay providerRetryDelay)
                (if providerRetryDelay > 0 then Some PROVIDER_RATE_LIMIT_MESSAGE else None) s)"

definition recordSuccess ::
  "SyncProviderKind \<Rightarrow> SyncWorkerResult \<Rightarrow> int \<Rightarrow> AutoSyncStatusReason \<Rightarrow> AutoSyncScheduler \<Rightarrow> AutoSyncScheduler" where
  "recordSuccess provider result completedAt reason s0 =
     (let lastSuccessAt = toISOString completedAt;
          s1 = (if env_persists (sch_env s0)
            then s0\<lparr>sch_env := (sch_env s0)\<lparr>env_history := (env_history (sch_env s0))
              (provider := Some \<lparr>hi_lastSuccessAt = lastSuccessAt, hi_lastResult = result\<rparr>)\<rparr>\<rparr> else s0);
          s2 = setStatus (\<lambda>st. st\<lparr>as_phase := Idle, as_reason := Some reason, as_scheduledFor := None,
              as_lastAttemptAt := (if reason = Manual then Some lastSuccessAt else as_lastAttemptAt st),
              as_lastSuccessAt := Some lastSuccessAt, as_lastResult := Some result, as_transferProgress := None,
              as_errorMessage := None\<rparr>) s1
      in if provider = Mega then scheduleRevisionCheck s2 else s2)"

section \<open>Running a synchronization\<close>

text \<open>\<open>runAutomatic\<close> until it awaits the worker.\<close>

definition beginAutomatic :: "AutoSyncReason \<Rightarrow> AutoSyncScheduler \<Rightarrow> AutoSyncScheduler" where
  "beginAutomatic reason s =
     (case selected s of
        Some provider \<Rightarrow>
          if \<not> sch_started s then
            setStatus (\<lambda>st. st\<lparr>as_phase := Idle, as_reason := None, as_transferProgress := None\<rparr>) s
          else if \<not> isOnline s then
            goOffline reason (s\<lparr>sch_queuedReason := Some (mergeReasons (sch_queuedReason s) reason)\<rparr>)
          else if sch_activeSync s \<noteq> None then s\<lparr>sch_queuedReason := Some (mergeReasons (sch_queuedReason s) reason)\<rparr>
          else
            setStatus (\<lambda>st. st\<lparr>as_phase := Syncing, as_reason := Some (Automatic reason), as_scheduledFor := None,
                as_lastAttemptAt := Some (toISOString (now s)), as_transferProgress := None, as_errorMessage := None\<rparr>)
              (s\<lparr>sch_activeSync := Some \<lparr>act_provider = provider, act_reason = reason, act_aborted = False\<rparr>\<rparr>)
      | None \<Rightarrow> setStatus (\<lambda>st. st\<lparr>as_phase := Idle, as_reason := None, as_transferProgress := None\<rparr>) s)"

text \<open>How the worker ends: a result, or an error with its message when it is an instance of \<open>Error\<close>.\<close>

datatype WorkerOutcome = WorkerDone SyncWorkerResult | WorkerFailed jsval "string option"

text \<open>The \<open>try\<close> and \<open>catch\<close> blocks of \<open>runAutomatic\<close>; the number is \<open>providerRetryDelayMs\<close>.\<close>

definition settleAutomatic :: "ActiveSync \<Rightarrow> WorkerOutcome \<Rightarrow> AutoSyncScheduler \<Rightarrow> int option \<times> AutoSyncScheduler" where
  "settleAutomatic run outcome s =
     (if \<not> sch_started s then (None, s)
      else if act_aborted run then
        (None, setStatus (\<lambda>st. st\<lparr>as_phase := Cancelled, as_reason := Some (Automatic (act_reason run)),
          as_transferProgress := None, as_errorMessage := None\<rparr>) (s\<lparr>sch_queuedReason := None\<rparr>))
      else case outcome of
        WorkerDone result \<Rightarrow>
          (None, recordSuccess (act_provider run) result (now s) (Automatic (act_reason run))
             (clearProviderRetryAfter (act_provider run) s))
      | WorkerFailed error message \<Rightarrow>
          (case providerRetryAfterSeconds error of
             Some retryAfterSeconds \<Rightarrow>
               (Some (retryAfterSeconds * 1000),
                persistProviderRetryAfter (act_provider run) (now s + retryAfterSeconds * 1000) s)
           | None \<Rightarrow>
               (None, setStatus (\<lambda>st. st\<lparr>as_phase := ErrorPhase, as_reason := Some (Automatic (act_reason run)),
                  as_transferProgress := None,
                  as_errorMessage := Some (case message of Some m \<Rightarrow> m | None \<Rightarrow> ''Automatic library synchronization failed.'')\<rparr>) s)))"

text \<open>The rest of \<open>runAutomatic\<close> once the worker has ended, with its \<open>finally\<close> block.\<close>

definition finishAutomatic :: "WorkerOutcome \<Rightarrow> AutoSyncScheduler \<Rightarrow> AutoSyncScheduler" where
  "finishAutomatic outcome s0 =
     (case sch_activeSync s0 of
        None \<Rightarrow> s0
      | Some run \<Rightarrow>
          (let (providerRetryDelayMs, s1) = settleAutomatic run outcome s0;
               quietUntil = sch_queuedQuietUntil s1;
               s = s1\<lparr>sch_queuedQuietUntil := None, sch_activeSync := None\<rparr>;
               queuedReason = sch_queuedReason s
           in if \<not> sch_started s then s\<lparr>sch_queuedReason := None\<rparr>
              else if act_aborted run then s\<lparr>sch_queuedReason := None\<rparr>
              else case providerRetryDelayMs of
                Some delay \<Rightarrow>
                  scheduleSync (case queuedReason of None \<Rightarrow> act_reason run | Some q \<Rightarrow> mergeReasons (Some q) (act_reason run))
                    delay (Some PROVIDER_RATE_LIMIT_MESSAGE) (s\<lparr>sch_queuedReason := None\<rparr>)
              | None \<Rightarrow>
                  (case queuedReason of
                     None \<Rightarrow> s\<lparr>sch_queuedReason := None\<rparr>
                   | Some q \<Rightarrow>
                       if q = ReadingQuiet then
                         requestQuiet (case quietUntil of None \<Rightarrow> op_quietIntervalMs (sch_options s) | Some u \<Rightarrow> max 0 (u - now s))
                           (s\<lparr>sch_queuedReason := None\<rparr>)
                       else requestImmediate q (s\<lparr>sch_queuedReason := None\<rparr>))))"

text \<open>The callbacks of the two timers.\<close>

definition fireTimer :: "AutoSyncScheduler \<Rightarrow> AutoSyncScheduler" where
  "fireTimer s = (case sch_timer s of
     None \<Rightarrow> s
   | Some (_, reason) \<Rightarrow> beginAutomatic reason (s\<lparr>sch_timer := None, sch_scheduledReason := None\<rparr>))"

definition fireRevisionCheck :: "AutoSyncScheduler \<Rightarrow> AutoSyncScheduler" where
  "fireRevisionCheck s0 =
     (let s = s0\<lparr>sch_revisionCheckTimer := None\<rparr> in
      scheduleRevisionCheck
        (if revisionPollingEnabled s \<and> sch_timer s = None \<and> sch_activeSync s = None
         then requestImmediate RevisionCheck s else s))"

definition onTransferProgress :: "jsval \<Rightarrow> AutoSyncScheduler \<Rightarrow> AutoSyncScheduler" where
  "onTransferProgress progress s = (case sch_activeSync s of
     Some run \<Rightarrow> if sch_started s \<and> \<not> act_aborted run
       then setStatus (\<lambda>st. st\<lparr>as_transferProgress := Some progress\<rparr>) s else s
   | None \<Rightarrow> s)"

section \<open>Events\<close>

text \<open>An activity carries the entity of the operation that was recorded.\<close>

definition onActivity :: "string \<Rightarrow> AutoSyncScheduler \<Rightarrow> AutoSyncScheduler" where
  "onActivity kind s =
     (if \<not> sch_started s then s
      else if kind = ''book'' then requestImmediate BookChange s
      else if env_background (sch_env s) then requestImmediate Background s
      else if kind = ''annotation'' \<or> kind = ''bookmark''
      then requestQuiet (op_interactiveQuietIntervalMs (sch_options s)) s
      else requestQuiet (op_quietIntervalMs (sch_options s)) s)"

definition onOnlineEvent :: "AutoSyncScheduler \<Rightarrow> AutoSyncScheduler" where
  "onOnlineEvent s =
     (if \<not> sch_started s then s
      else scheduleRevisionCheck (requestImmediate
        (case sch_queuedReason s of Some q \<Rightarrow> if q \<noteq> ReadingQuiet then q else Online | None \<Rightarrow> Online)
        (s\<lparr>sch_queuedReason := None\<rparr>)))"

definition handleOffline :: "AutoSyncScheduler \<Rightarrow> AutoSyncScheduler" where
  "handleOffline s =
     (if \<not> sch_started s \<or> selected s = None then s
      else
        let s1 = (case sch_scheduledReason s of
              None \<Rightarrow> s | Some r \<Rightarrow> s\<lparr>sch_queuedReason := Some (mergeReasons (sch_queuedReason s) r)\<rparr>);
            s2 = clearScheduledTimer s1
        in setStatus (\<lambda>st. st\<lparr>as_phase := Offline, as_reason := map_option Automatic (sch_queuedReason s2),
             as_scheduledFor := None, as_transferProgress := None\<rparr>) s2)"

definition onOfflineEvent :: "AutoSyncScheduler \<Rightarrow> AutoSyncScheduler" where
  "onOfflineEvent s = (if \<not> sch_started s then s else handleOffline (clearRevisionCheckTimer s))"

definition onVisibilityEvent :: "AutoSyncScheduler \<Rightarrow> AutoSyncScheduler" where
  "onVisibilityEvent s =
     (if \<not> sch_started s then s
      else if env_background (sch_env s) then clearRevisionCheckTimer s
      else scheduleRevisionCheck (if selected s = Some Git then requestImmediate RevisionCheck s else s))"

definition onSelectionEvent :: "AutoSyncScheduler \<Rightarrow> AutoSyncScheduler" where
  "onSelectionEvent s = (if \<not> sch_started s then s else scheduleRevisionCheck s)"

definition start :: "AutoSyncScheduler \<Rightarrow> AutoSyncScheduler" where
  "start s =
     (if sch_started s then s
      else
        let s1 = activateSelected (s\<lparr>sch_started := True\<rparr>) in
        scheduleRevisionCheck (if selected s1 \<noteq> None then requestImmediate Startup s1 else s1))"

definition abortActive :: "AutoSyncScheduler \<Rightarrow> AutoSyncScheduler" where
  "abortActive s = s\<lparr>sch_activeSync := map_option (\<lambda>run. run\<lparr>act_aborted := True\<rparr>) (sch_activeSync s)\<rparr>"

definition stop :: "AutoSyncScheduler \<Rightarrow> AutoSyncScheduler" where
  "stop s =
     (if \<not> sch_started s then s
      else
        setStatus (\<lambda>st. st\<lparr>as_phase := Idle, as_reason := None, as_scheduledFor := None, as_transferProgress := None,
            as_errorMessage := None\<rparr>)
          (abortActive ((clearRevisionCheckTimer (clearScheduledTimer (s\<lparr>sch_started := False\<rparr>)))
            \<lparr>sch_queuedReason := None, sch_queuedQuietUntil := None\<rparr>)))"

definition cancelActive :: "AutoSyncScheduler \<Rightarrow> bool \<times> AutoSyncScheduler" where
  "cancelActive s =
     (case sch_activeSync s of
        None \<Rightarrow> (False, s)
      | Some run \<Rightarrow>
          if act_aborted run then (False, s)
          else (True, setStatus (\<lambda>st. st\<lparr>as_phase := Cancelling, as_scheduledFor := None, as_transferProgress := None,
              as_errorMessage := None\<rparr>)
            (abortActive (s\<lparr>sch_queuedReason := None, sch_queuedQuietUntil := None\<rparr>))))"

definition recordManualSuccess :: "SyncWorkerResult \<Rightarrow> int \<Rightarrow> AutoSyncScheduler \<Rightarrow> AutoSyncScheduler" where
  "recordManualSuccess result completedAt s =
     (case selected s of
        None \<Rightarrow> s
      | Some provider \<Rightarrow>
          recordSuccess provider result completedAt Manual
            ((clearScheduledTimer (activateHistory provider s))\<lparr>sch_queuedReason := None\<rparr>))"

definition clearHistory :: "SyncProviderKind \<Rightarrow> AutoSyncScheduler \<Rightarrow> AutoSyncScheduler" where
  "clearHistory provider s0 =
     (let s = (if env_persists (sch_env s0)
          then s0\<lparr>sch_env := (sch_env s0)\<lparr>env_history := (env_history (sch_env s0))(provider := None)\<rparr>\<rparr> else s0)
      in if sch_historyProvider s = Some provider
         then setStatus (\<lambda>st. st\<lparr>as_lastAttemptAt := None, as_lastSuccessAt := None, as_lastResult := None\<rparr>) s
         else s)"

definition status :: "AutoSyncScheduler \<Rightarrow> AutoSyncStatus \<times> AutoSyncScheduler" where
  "status s0 = (let s = activateSelected s0 in (sch_status s, s))"

definition createScheduler :: "int option \<Rightarrow> int option \<Rightarrow> int option \<Rightarrow> AutoSyncEnvironment \<Rightarrow> AutoSyncScheduler option" where
  "createScheduler quietIntervalMs interactiveQuietIntervalMs revisionCheckIntervalMs environment =
     (let options = \<lparr>
        op_quietIntervalMs = (case quietIntervalMs of None \<Rightarrow> DEFAULT_QUIET_INTERVAL_MS | Some n \<Rightarrow> n),
        op_interactiveQuietIntervalMs =
          (case interactiveQuietIntervalMs of None \<Rightarrow> DEFAULT_INTERACTIVE_QUIET_INTERVAL_MS | Some n \<Rightarrow> n),
        op_revisionCheckIntervalMs =
          (case revisionCheckIntervalMs of None \<Rightarrow> DEFAULT_REVISION_CHECK_INTERVAL_MS | Some n \<Rightarrow> n)\<rparr>
      in if op_revisionCheckIntervalMs options < 5000 \<or> op_revisionCheckIntervalMs options > 5 * 60000 then None
         else Some (activateSelected
           \<lparr>sch_options = options, sch_env = environment, sch_providerRetryAfterAt = (\<lambda>_. None),
            sch_loadedProviderRetryAfter = {}, sch_historyProvider = None,
            sch_status = \<lparr>as_phase = Idle, as_reason = None, as_scheduledFor = None, as_lastAttemptAt = None,
              as_lastSuccessAt = None, as_lastResult = None, as_transferProgress = None, as_errorMessage = None\<rparr>,
            sch_started = False, sch_timer = None, sch_revisionCheckTimer = None, sch_scheduledReason = None,
            sch_queuedReason = None, sch_queuedQuietUntil = None, sch_activeSync = None\<rparr>))"

end
