(* ===== verification/Auto_Sync_Safety.thy ===== *)
theory Auto_Sync_Safety
  imports Auto_Sync
begin

text \<open>
  The scheduler as a state machine: what can happen to it, in which order, and what holds after any number of
  steps. No request is forgotten while the scheduler runs, a rate limit is kept, and a request leads to a
  synchronization; and the three ways a request or a limit is lost.
\<close>

section \<open>The state machine\<close>

datatype SchedulerEvent =
    Tick int | Visibility bool | TimerDue | RevisionDue | WorkerEnds WorkerOutcome | Progress jsval
  | ActivityRecorded string | VisibilityChanged | SelectionChanged | Start | Stop | Cancel
  | ManualSuccess SyncWorkerResult int | ForgetHistory SyncProviderKind | AskStatus
  | Request AutoSyncReason | RequestQuietly int

definition enabled :: "SchedulerEvent \<Rightarrow> AutoSyncScheduler \<Rightarrow> bool" where
  "enabled e s = (case e of
     Tick d \<Rightarrow> 0 \<le> d
   | TimerDue \<Rightarrow> (case sch_timer s of None \<Rightarrow> False | Some (due, _) \<Rightarrow> due \<le> now s)
   | RevisionDue \<Rightarrow> (case sch_revisionCheckTimer s of None \<Rightarrow> False | Some due \<Rightarrow> due \<le> now s)
   | Request reason \<Rightarrow> reason \<noteq> ReadingQuiet
   | _ \<Rightarrow> True)"

abbreviation changeEnv :: "(AutoSyncEnvironment \<Rightarrow> AutoSyncEnvironment) \<Rightarrow> AutoSyncScheduler \<Rightarrow> AutoSyncScheduler" where
  "changeEnv \<equiv> sch_env_update"

definition handleEvent :: "SchedulerEvent \<Rightarrow> AutoSyncScheduler \<Rightarrow> AutoSyncScheduler" where
  "handleEvent e = (case e of
     Tick d \<Rightarrow> changeEnv (\<lambda>env. env\<lparr>env_now := env_now env + d\<rparr>)
   | Visibility hidden \<Rightarrow> changeEnv (\<lambda>env. env\<lparr>env_background := hidden\<rparr>)
   | TimerDue \<Rightarrow> fireTimer | RevisionDue \<Rightarrow> fireRevisionCheck
   | WorkerEnds outcome \<Rightarrow> finishAutomatic outcome | Progress progress \<Rightarrow> onTransferProgress progress
   | ActivityRecorded kind \<Rightarrow> onActivity kind | VisibilityChanged \<Rightarrow> onVisibilityEvent
   | SelectionChanged \<Rightarrow> onSelectionEvent | Start \<Rightarrow> start | Stop \<Rightarrow> stop | Cancel \<Rightarrow> (\<lambda>s. snd (cancelActive s))
   | ManualSuccess result completedAt \<Rightarrow> recordManualSuccess result completedAt
   | ForgetHistory provider \<Rightarrow> clearHistory provider | AskStatus \<Rightarrow> (\<lambda>s. snd (status s))
   | Request reason \<Rightarrow> requestImmediate reason | RequestQuietly delay \<Rightarrow> requestQuiet delay)"

definition connectivityEvent :: "bool \<Rightarrow> AutoSyncScheduler \<Rightarrow> AutoSyncScheduler" where
  "connectivityEvent online = (if online then onOnlineEvent else onOfflineEvent)"

text \<open>The connection changes before the event that says so is delivered; the list holds the events that are not
  yet delivered. The selected provider changes within a given set.\<close>

inductive schedulerStep ::
  "SyncProviderKind option set \<Rightarrow> AutoSyncScheduler \<times> bool list \<Rightarrow> AutoSyncScheduler \<times> bool list \<Rightarrow> bool"
  for providers where
  handled: "enabled e s \<Longrightarrow> schedulerStep providers (s, events) (handleEvent e s, events)"
| connection: "schedulerStep providers (s, events) (changeEnv (\<lambda>env. env\<lparr>env_online := online\<rparr>) s, events @ [online])"
| delivered: "schedulerStep providers (s, online # events) (connectivityEvent online s, events)"
| selects: "p \<in> providers \<Longrightarrow> schedulerStep providers (s, events) (changeEnv (\<lambda>env. env\<lparr>env_selected := p\<rparr>) s, events)"

inductive schedulerReaches ::
  "SyncProviderKind option set \<Rightarrow> AutoSyncScheduler \<Rightarrow> AutoSyncScheduler \<times> bool list \<Rightarrow> bool"
  for providers initial where
  created: "schedulerReaches providers initial (initial, [])"
| steps: "schedulerReaches providers initial c \<Longrightarrow> schedulerStep providers c c' \<Longrightarrow> schedulerReaches providers initial c'"

inductive_cases schedulerStepE: "schedulerStep providers (s, events) (s', events')"

section \<open>Invariant\<close>

text \<open>The part of the invariant that does not depend on the connection.\<close>

definition timerOk :: "AutoSyncScheduler \<Rightarrow> bool" where
  "timerOk s \<longleftrightarrow>
     sch_scheduledReason s = map_option snd (sch_timer s) \<and>
     (sch_activeSync s \<noteq> None \<longrightarrow> sch_timer s = None) \<and>
     (as_phase (sch_status s) = Scheduled \<longrightarrow> sch_timer s \<noteq> None) \<and>
     (as_phase (sch_status s) = Syncing \<longrightarrow> sch_activeSync s \<noteq> None) \<and>
     (\<not> sch_started s \<longrightarrow> sch_timer s = None \<and> sch_revisionCheckTimer s = None \<and> sch_queuedReason s = None \<and>
        as_phase (sch_status s) \<noteq> Syncing \<and>
        (\<forall>run. sch_activeSync s = Some run \<longrightarrow> act_aborted run))"

text \<open>A queued request waits for something that will happen: the end of the running synchronization, the
  return of the connection, or the event that announces it.\<close>

definition queueOk :: "bool \<Rightarrow> AutoSyncScheduler \<Rightarrow> bool" where
  "queueOk awaited s \<longleftrightarrow> (sch_queuedReason s \<noteq> None \<longrightarrow> sch_activeSync s \<noteq> None \<or> \<not> isOnline s \<or> awaited)"

definition eventsOk :: "AutoSyncScheduler \<times> bool list \<Rightarrow> bool" where
  "eventsOk c \<longleftrightarrow> snd c \<noteq> [] \<longrightarrow> last (snd c) = isOnline (fst c)"

lemmas scheduler_defs = activateHistory_def activateSelected_def writeRetryAfter_def persistProviderRetryAfter_def
  clearProviderRetryAfter_def loadProviderRetryAfter_def readProviderRetryDelay_def clearScheduledTimer_def
  clearRevisionCheckTimer_def scheduleRevisionCheck_def scheduleSync_def goOffline_def recordSuccess_def Let_def

text \<open>What the helpers leave alone.\<close>

definition sameWork :: "AutoSyncScheduler \<Rightarrow> AutoSyncScheduler \<Rightarrow> bool" where
  "sameWork s s' \<longleftrightarrow> sch_started s' = sch_started s \<and> sch_timer s' = sch_timer s \<and> sch_scheduledReason s' = sch_scheduledReason s \<and>
     sch_queuedReason s' = sch_queuedReason s \<and> sch_queuedQuietUntil s' = sch_queuedQuietUntil s \<and>
     sch_activeSync s' = sch_activeSync s \<and> as_phase (sch_status s') = as_phase (sch_status s) \<and>
     sch_options s' = sch_options s \<and> isOnline s' = isOnline s \<and> selected s' = selected s \<and> now s' = now s"

lemma sameWork_activateHistory: "sameWork s (activateHistory p s)"
  by (simp add: sameWork_def activateHistory_def Let_def)

lemma revisionTimer_activateHistory [simp]: "sch_revisionCheckTimer (activateHistory p s) = sch_revisionCheckTimer s"
  by (simp add: activateHistory_def Let_def)

lemma retry_activateHistory [simp]:
  "sch_providerRetryAfterAt (activateHistory p s) = sch_providerRetryAfterAt s"
  "sch_loadedProviderRetryAfter (activateHistory p s) = sch_loadedProviderRetryAfter s"
  "env_retryAfter (sch_env (activateHistory p s)) = env_retryAfter (sch_env s)"
  "env_persists (sch_env (activateHistory p s)) = env_persists (sch_env s)"
  by (simp_all add: activateHistory_def Let_def)

lemma sameWork_readDelay: "readProviderRetryDelay p s = (d, s') \<Longrightarrow>
    sameWork s s' \<and> sch_revisionCheckTimer s' = sch_revisionCheckTimer s"
  by (auto simp: sameWork_def readProviderRetryDelay_def loadProviderRetryAfter_def clearProviderRetryAfter_def writeRetryAfter_def
      Let_def split: if_splits option.splits)

lemma timerOk_helpers:
  "sameWork s s' \<Longrightarrow> sch_revisionCheckTimer s' = sch_revisionCheckTimer s \<Longrightarrow> timerOk s' = timerOk s"
  "sameWork s s' \<Longrightarrow> queueOk b s' = queueOk b s"
  by (auto simp: sameWork_def timerOk_def queueOk_def)


lemma scheduleSync_fields [simp]:
  "sch_timer (scheduleSync r d m s) = Some (now s + d, r)" "sch_scheduledReason (scheduleSync r d m s) = Some r"
  "sch_activeSync (scheduleSync r d m s) = sch_activeSync s" "sch_started (scheduleSync r d m s) = sch_started s"
  "sch_queuedReason (scheduleSync r d m s) = sch_queuedReason s" "sch_env (scheduleSync r d m s) = sch_env s"
  "as_phase (sch_status (scheduleSync r d m s)) = Scheduled" "sch_revisionCheckTimer (scheduleSync r d m s) = sch_revisionCheckTimer s"
  "sch_providerRetryAfterAt (scheduleSync r d m s) = sch_providerRetryAfterAt s"
  "sch_loadedProviderRetryAfter (scheduleSync r d m s) = sch_loadedProviderRetryAfter s"
  by (simp_all add: scheduleSync_def clearScheduledTimer_def)

text \<open>What a request does: nothing without a provider or before the start; queue it while offline or while a
  synchronization runs; else set the timer.\<close>

lemma requestImmediate_cases [consumes 0, case_names ignored offline running scheduled]:
  obtains
    "requestImmediate r s = s" "selected s = None \<or> \<not> sch_started s"
  | p where "selected s = Some p" "sch_started s" "\<not> isOnline s"
      "requestImmediate r s = goOffline r (clearScheduledTimer
         ((activateHistory p s)\<lparr>sch_queuedReason := Some (mergeReasons (sch_queuedReason s) r)\<rparr>))"
  | p where "selected s = Some p" "sch_started s" "isOnline s" "sch_activeSync s \<noteq> None"
      "requestImmediate r s = (activateHistory p s)\<lparr>sch_queuedReason := Some (mergeReasons (sch_queuedReason s) r)\<rparr>"
  | p d m s' where "selected s = Some p" "sch_started s" "isOnline s" "sch_activeSync s = None"
      "readProviderRetryDelay p (activateHistory p s) = (d, s')" "sameWork s s'"
      "sch_revisionCheckTimer s' = sch_revisionCheckTimer s" "requestImmediate r s = scheduleSync r d m s'"
proof -
  consider "selected s = None \<or> \<not> sch_started s" | p where "selected s = Some p" "sch_started s"
    by (cases "selected s") auto
  then show thesis
  proof cases
    case 1
    then show ?thesis using that(1) by (auto simp: requestImmediate_def split: option.splits)
  next
    case 2
    let ?a = "activateHistory p s"
    have a: "sameWork s ?a" by (rule sameWork_activateHistory)
    obtain d s' where r: "readProviderRetryDelay p ?a = (d, s')" by fastforce
    have s': "sameWork s s'" "sch_revisionCheckTimer s' = sch_revisionCheckTimer s"
      using sameWork_readDelay [OF r] a by (auto simp: sameWork_def)
    have env: "isOnline ?a = isOnline s" "sch_activeSync ?a = sch_activeSync s" "sch_queuedReason ?a = sch_queuedReason s"
      using a by (auto simp: sameWork_def)
    consider "\<not> isOnline s" | "isOnline s" "sch_activeSync s \<noteq> None" | "isOnline s" "sch_activeSync s = None" by auto
    then show ?thesis
    proof cases
      case 1
      then show ?thesis using that(2) [OF 2 1] 2 by (simp add: requestImmediate_def Let_def env)
    next
      case r2: 2
      then show ?thesis using that(3) [OF 2 r2] 2 by (simp add: requestImmediate_def Let_def env)
    next
      case 3
      show ?thesis by (rule that(4) [OF 2 3 r s']) (use 2 3 in \<open>simp add: requestImmediate_def Let_def env r\<close>)
    qed
  qed
qed

lemma requestQuiet_cases [consumes 0, case_names ignored offline running scheduled]:
  obtains
    "requestQuiet delay s = s \<or> (\<exists>p. requestQuiet delay s = activateHistory p s)"
  | p where "selected s = Some p" "sch_started s" "\<not> isOnline s"
      "requestQuiet delay s = goOffline ReadingQuiet (clearScheduledTimer
         ((activateHistory p s)\<lparr>sch_queuedReason := Some (mergeReasons (sch_queuedReason s) ReadingQuiet)\<rparr>))"
  | p where "selected s = Some p" "sch_started s" "isOnline s" "sch_activeSync s \<noteq> None"
      "requestQuiet delay s = (activateHistory p s)\<lparr>sch_queuedReason := Some (mergeReasons (sch_queuedReason s) ReadingQuiet),
         sch_queuedQuietUntil := Some (now s + delay)\<rparr>"
  | p d m s' where "selected s = Some p" "sch_started s" "isOnline s" "sch_activeSync s = None"
      "readProviderRetryDelay p (activateHistory p s) = (d, s')" "sameWork s s'"
      "sch_revisionCheckTimer s' = sch_revisionCheckTimer s" "requestQuiet delay s = scheduleSync ReadingQuiet (max delay d) m s'"
proof -
  consider "selected s = None \<or> \<not> sch_started s" | p where "selected s = Some p" "sch_started s"
    by (cases "selected s") auto
  then show thesis
  proof cases
    case 1
    then show ?thesis using that(1) by (auto simp: requestQuiet_def split: option.splits)
  next
    case 2
    let ?a = "activateHistory p s"
    have a: "sameWork s ?a" by (rule sameWork_activateHistory)
    obtain d s' where r: "readProviderRetryDelay p ?a = (d, s')" by fastforce
    have s': "sameWork s s'" "sch_revisionCheckTimer s' = sch_revisionCheckTimer s"
      using sameWork_readDelay [OF r] a by (auto simp: sameWork_def)
    have env: "isOnline ?a = isOnline s" "sch_activeSync ?a = sch_activeSync s" "sch_queuedReason ?a = sch_queuedReason s"
      "now ?a = now s" using a by (auto simp: sameWork_def)
    consider "\<not> isOnline s" | "isOnline s" "sch_activeSync s \<noteq> None" | "isOnline s" "sch_activeSync s = None"
        "sch_scheduledReason ?a \<noteq> None \<and> sch_scheduledReason ?a \<noteq> Some ReadingQuiet"
      | "isOnline s" "sch_activeSync s = None" "\<not> (sch_scheduledReason ?a \<noteq> None \<and> sch_scheduledReason ?a \<noteq> Some ReadingQuiet)"
      by blast
    then show ?thesis
    proof cases
      case 1
      then show ?thesis using that(2) [OF 2 1] 2 by (simp add: requestQuiet_def Let_def env)
    next
      case r2: 2
      then show ?thesis using that(3) [OF 2 r2] 2 by (simp add: requestQuiet_def Let_def env)
    next
      case 3
      then have "requestQuiet delay s = ?a" using 2 by (simp add: requestQuiet_def Let_def env)
      then show ?thesis using that(1) by blast
    next
      case 4
      show ?thesis
        by (rule that(4) [OF 2 4(1,2) r s']) (use 2 4 in \<open>simp only: requestQuiet_def Let_def env r option.case prod.case if_False not_not, simp add: env r\<close>)
    qed
  qed
qed


lemma activateHistory_fields [simp]:
  "sch_started (activateHistory p s) = sch_started s" "sch_timer (activateHistory p s) = sch_timer s"
  "sch_scheduledReason (activateHistory p s) = sch_scheduledReason s" "sch_queuedReason (activateHistory p s) = sch_queuedReason s"
  "sch_activeSync (activateHistory p s) = sch_activeSync s" "as_phase (sch_status (activateHistory p s)) = as_phase (sch_status s)"
  "isOnline (activateHistory p s) = isOnline s" "selected (activateHistory p s) = selected s" "now (activateHistory p s) = now s"
  using sameWork_activateHistory [of s p] by (simp_all add: sameWork_def)

lemma scheduleRevisionCheck_fields [simp]:
  "sch_started (scheduleRevisionCheck s) = sch_started s" "sch_timer (scheduleRevisionCheck s) = sch_timer s"
  "sch_scheduledReason (scheduleRevisionCheck s) = sch_scheduledReason s" "sch_queuedReason (scheduleRevisionCheck s) = sch_queuedReason s"
  "sch_activeSync (scheduleRevisionCheck s) = sch_activeSync s" "sch_status (scheduleRevisionCheck s) = sch_status s"
  "sch_env (scheduleRevisionCheck s) = sch_env s" "sch_providerRetryAfterAt (scheduleRevisionCheck s) = sch_providerRetryAfterAt s"
  "sch_loadedProviderRetryAfter (scheduleRevisionCheck s) = sch_loadedProviderRetryAfter s"
  by (simp_all add: scheduleRevisionCheck_def clearRevisionCheckTimer_def Let_def)

lemma scheduleRevisionCheck_stopped: "\<not> sch_started s \<Longrightarrow> sch_revisionCheckTimer (scheduleRevisionCheck s) = None"
  by (simp add: scheduleRevisionCheck_def clearRevisionCheckTimer_def revisionPollingEnabled_def Let_def)

lemma timerOk_scheduleRevisionCheck [simp]: "timerOk s \<Longrightarrow> timerOk (scheduleRevisionCheck s)"
  by (auto simp: timerOk_def scheduleRevisionCheck_stopped)

lemma queueOk_scheduleRevisionCheck [simp]: "queueOk b (scheduleRevisionCheck s) = queueOk b s"
  by (simp add: queueOk_def)

lemma timerOk_scheduleSync: "sch_activeSync s = None \<Longrightarrow> sch_started s \<Longrightarrow> timerOk (scheduleSync r d m s)"
  by (simp add: timerOk_def)

lemma timerOk_requestImmediate [simp]: "timerOk s \<Longrightarrow> timerOk (requestImmediate r s)"
proof (cases rule: requestImmediate_cases [of r s])
  case (scheduled p d m s')
  then show ?thesis by (simp add: timerOk_scheduleSync sameWork_def)
qed (auto simp: timerOk_def goOffline_def clearScheduledTimer_def)

lemma timerOk_requestQuiet [simp]: "timerOk s \<Longrightarrow> timerOk (requestQuiet delay s)"
proof (cases rule: requestQuiet_cases [of delay s])
  case ignored
  assume "timerOk s"
  with ignored show ?thesis using timerOk_helpers(1) [OF sameWork_activateHistory] by auto
next
  case (scheduled p d m s')
  then show ?thesis by (simp add: timerOk_scheduleSync sameWork_def)
qed (auto simp: timerOk_def goOffline_def clearScheduledTimer_def)

text \<open>After a request nothing waits in vain, whatever waited before.\<close>

lemma queueOk_requestImmediate [simp]: "queueOk b s \<Longrightarrow> queueOk b (requestImmediate r s)"
proof (cases rule: requestImmediate_cases [of r s])
  case (scheduled p d m s')
  assume "queueOk b s"
  with scheduled show ?thesis by (auto simp: queueOk_def sameWork_def)
qed (simp_all add: queueOk_def goOffline_def clearScheduledTimer_def)

lemma queueOk_requestQuiet [simp]: "queueOk b s \<Longrightarrow> queueOk b (requestQuiet delay s)"
proof (cases rule: requestQuiet_cases [of delay s])
  case ignored
  assume "queueOk b s"
  with ignored show ?thesis using timerOk_helpers(2) [OF sameWork_activateHistory] by auto
next
  case (scheduled p d m s')
  assume "queueOk b s"
  with scheduled show ?thesis by (auto simp: queueOk_def sameWork_def)
qed (simp_all add: queueOk_def goOffline_def clearScheduledTimer_def)

lemma recordSuccess_fields [simp]:
  "sch_started (recordSuccess p r t reason s) = sch_started s" "sch_timer (recordSuccess p r t reason s) = sch_timer s"
  "sch_scheduledReason (recordSuccess p r t reason s) = sch_scheduledReason s"
  "sch_queuedReason (recordSuccess p r t reason s) = sch_queuedReason s" "sch_activeSync (recordSuccess p r t reason s) = sch_activeSync s"
  "sch_queuedQuietUntil (recordSuccess p r t reason s) = sch_queuedQuietUntil s"
  "as_phase (sch_status (recordSuccess p r t reason s)) = Idle" "isOnline (recordSuccess p r t reason s) = isOnline s"
  "selected (recordSuccess p r t reason s) = selected s" "now (recordSuccess p r t reason s) = now s"
  "sch_providerRetryAfterAt (recordSuccess p r t reason s) = sch_providerRetryAfterAt s"
  "sch_loadedProviderRetryAfter (recordSuccess p r t reason s) = sch_loadedProviderRetryAfter s"
  by (simp_all add: recordSuccess_def Let_def scheduleRevisionCheck_def clearRevisionCheckTimer_def)

lemma recordSuccess_stopped:
  "\<not> sch_started s \<Longrightarrow> sch_revisionCheckTimer s = None \<Longrightarrow> sch_revisionCheckTimer (recordSuccess p r t reason s) = None"
  by (simp add: recordSuccess_def Let_def scheduleRevisionCheck_stopped)

lemma retryAfter_fields [simp]:
  "sameWork s (clearProviderRetryAfter p s)" "sameWork s (persistProviderRetryAfter p t s)"
  by (simp_all add: clearProviderRetryAfter_def persistProviderRetryAfter_def writeRetryAfter_def sameWork_def)

lemma settleAutomatic_fields:
  assumes "settleAutomatic run outcome s = (d, s')"
  shows "sch_started s' = sch_started s" "sch_timer s' = sch_timer s" "sch_scheduledReason s' = sch_scheduledReason s"
    "sch_activeSync s' = sch_activeSync s" "isOnline s' = isOnline s" "selected s' = selected s" "now s' = now s"
    "\<not> sch_started s \<Longrightarrow> s' = s" "sch_started s \<Longrightarrow> d = None \<Longrightarrow> as_phase (sch_status s') \<notin> {Syncing, Scheduled}"
    "act_aborted run \<or> \<not> sch_started s \<or> sch_queuedReason s' = sch_queuedReason s"
  using assms retryAfter_fields [of s "act_provider run"]
  by (auto simp: settleAutomatic_def sameWork_def split: if_splits WorkerOutcome.splits option.splits)

lemma timerOk_finishAutomatic: "timerOk s \<Longrightarrow> timerOk (finishAutomatic outcome s)"
proof -
  assume ok: "timerOk s"
  show ?thesis
  proof (cases "sch_activeSync s")
    case None
    then show ?thesis using ok by (simp add: finishAutomatic_def)
  next
    case (Some run)
    obtain d s1 where g: "settleAutomatic run outcome s = (d, s1)" by fastforce
    note f = settleAutomatic_fields [OF g]
    define s2 where "s2 = s1\<lparr>sch_queuedQuietUntil := None, sch_activeSync := None, sch_queuedReason := None\<rparr>"
    have eq: "s1\<lparr>sch_queuedQuietUntil := None, sch_activeSync := None\<rparr>\<lparr>sch_queuedReason := None\<rparr> = s2" by (simp add: s2_def)
    have none: "sch_timer s1 = None" "sch_scheduledReason s1 = None" using ok Some f by (simp_all add: timerOk_def)
    have s2: "timerOk s2" if "d = None \<or> \<not> sch_started s"
      using that ok none f(1) f(8,9) by (cases "sch_started s") (auto simp: timerOk_def s2_def)
    have s2': "sch_activeSync s2 = None" "sch_started s2 = sch_started s" using f by (simp_all add: s2_def)
    show ?thesis
    proof (cases "sch_started s")
      case False
      then show ?thesis using s2 by (simp add: finishAutomatic_def Some g f(1) eq Let_def)
    next
      case True
      have aborted: "act_aborted run \<Longrightarrow> d = None" using g True by (auto simp: settleAutomatic_def)
      show ?thesis
      proof (cases d)
        case None
        then show ?thesis using s2 True
          by (auto simp: finishAutomatic_def Some g f(1) eq Let_def split: option.splits)
      next
        case (Some delay)
        then show ?thesis using \<open>sch_activeSync s = Some run\<close> g f(1) aborted True s2'
          by (auto simp: finishAutomatic_def eq Let_def intro: timerOk_scheduleSync)
      qed
    qed
  qed
qed

lemma queueOk_None [simp]: "sch_queuedReason s = None \<Longrightarrow> queueOk b s"
  by (simp add: queueOk_def)

lemma queueOk_finishAutomatic: "queueOk b s \<Longrightarrow> queueOk b (finishAutomatic outcome s)"
proof -
  assume ok: "queueOk b s"
  show ?thesis
  proof (cases "sch_activeSync s")
    case None
    then show ?thesis using ok by (simp add: finishAutomatic_def)
  next
    case (Some run)
    obtain d s1 where g: "settleAutomatic run outcome s = (d, s1)" by fastforce
    show ?thesis
      by (auto simp: finishAutomatic_def Some g Let_def split: option.splits)
  qed
qed


lemma timerOk_fireTimer: "timerOk s \<Longrightarrow> timerOk (fireTimer s)"
  by (auto simp: fireTimer_def beginAutomatic_def goOffline_def timerOk_def split: option.splits)

lemma queueOk_fireTimer: "queueOk b s \<Longrightarrow> queueOk b (fireTimer s)"
  by (auto simp: fireTimer_def beginAutomatic_def goOffline_def queueOk_def split: option.splits)

lemma timerOk_fireRevisionCheck: "timerOk s \<Longrightarrow> timerOk (fireRevisionCheck s)"
proof -
  assume "timerOk s"
  then have "timerOk (s\<lparr>sch_revisionCheckTimer := None\<rparr>)" by (simp add: timerOk_def)
  then show ?thesis by (simp add: fireRevisionCheck_def Let_def)
qed

lemma queueOk_fireRevisionCheck: "queueOk b s \<Longrightarrow> queueOk b (fireRevisionCheck s)"
proof -
  assume "queueOk b s"
  then have "queueOk b (s\<lparr>sch_revisionCheckTimer := None\<rparr>)" by (simp add: queueOk_def)
  then show ?thesis by (simp add: fireRevisionCheck_def Let_def)
qed

lemma activateSelected_ok [simp]:
  "timerOk (activateSelected s) = timerOk s" "queueOk b (activateSelected s) = queueOk b s"
  "sch_started (activateSelected s) = sch_started s" "sch_env (activateSelected s) = sch_env s"
  by (auto simp: activateSelected_def timerOk_helpers [OF sameWork_activateHistory] activateHistory_def Let_def
      timerOk_def queueOk_def split: option.splits)

lemma timerOk_start: "timerOk s \<Longrightarrow> timerOk (start s)"
proof (cases "sch_started s")
  case False
  assume "timerOk s"
  then have "timerOk (s\<lparr>sch_started := True\<rparr>)" using False by (auto simp: timerOk_def)
  then show ?thesis using False by (simp add: start_def Let_def)
qed (simp add: start_def)

lemma queueOk_start: "queueOk b s \<Longrightarrow> queueOk b (start s)"
proof -
  assume "queueOk b s"
  then have "queueOk b (s\<lparr>sch_started := True\<rparr>)" by (simp add: queueOk_def)
  then show ?thesis using \<open>queueOk b s\<close> by (simp add: start_def Let_def)
qed

lemma stop_ok: "timerOk s \<Longrightarrow> timerOk (stop s)" "queueOk b s \<Longrightarrow> queueOk b (stop s)"
  by (auto simp: stop_def abortActive_def clearRevisionCheckTimer_def clearScheduledTimer_def timerOk_def queueOk_def)

lemma cancelActive_ok: "timerOk s \<Longrightarrow> timerOk (snd (cancelActive s))" "queueOk b s \<Longrightarrow> queueOk b (snd (cancelActive s))"
  by (auto simp: cancelActive_def abortActive_def timerOk_def queueOk_def split: option.splits)

lemma recordManualSuccess_ok: "timerOk s \<Longrightarrow> timerOk (recordManualSuccess result t s)"
  "queueOk b s \<Longrightarrow> queueOk b (recordManualSuccess result t s)"
  by (auto simp: recordManualSuccess_def clearScheduledTimer_def timerOk_def queueOk_def recordSuccess_stopped split: option.splits)

lemma quiet_events_ok:
  "timerOk s \<Longrightarrow> timerOk (onActivity kind s)" "queueOk b s \<Longrightarrow> queueOk b (onActivity kind s)"
  "timerOk s \<Longrightarrow> timerOk (onVisibilityEvent s)" "queueOk b s \<Longrightarrow> queueOk b (onVisibilityEvent s)"
  "timerOk s \<Longrightarrow> timerOk (onSelectionEvent s)" "queueOk b s \<Longrightarrow> queueOk b (onSelectionEvent s)"
  "timerOk s \<Longrightarrow> timerOk (onTransferProgress x s)" "queueOk b s \<Longrightarrow> queueOk b (onTransferProgress x s)"
  "timerOk s \<Longrightarrow> timerOk (clearHistory p s)" "queueOk b s \<Longrightarrow> queueOk b (clearHistory p s)"
proof -
  have clear: "timerOk s \<Longrightarrow> timerOk (clearRevisionCheckTimer s)" "queueOk b s \<Longrightarrow> queueOk b (clearRevisionCheckTimer s)"
    by (auto simp: clearRevisionCheckTimer_def timerOk_def queueOk_def)
  show "timerOk s \<Longrightarrow> timerOk (onActivity kind s)" "queueOk b s \<Longrightarrow> queueOk b (onActivity kind s)"
    "timerOk s \<Longrightarrow> timerOk (onSelectionEvent s)" "queueOk b s \<Longrightarrow> queueOk b (onSelectionEvent s)"
    by (simp_all add: onActivity_def onSelectionEvent_def)
  show "timerOk s \<Longrightarrow> timerOk (onVisibilityEvent s)" "queueOk b s \<Longrightarrow> queueOk b (onVisibilityEvent s)"
    using clear by (simp_all add: onVisibilityEvent_def)
  show "timerOk s \<Longrightarrow> timerOk (onTransferProgress x s)" "queueOk b s \<Longrightarrow> queueOk b (onTransferProgress x s)"
    "timerOk s \<Longrightarrow> timerOk (clearHistory p s)" "queueOk b s \<Longrightarrow> queueOk b (clearHistory p s)"
    by (auto simp: onTransferProgress_def clearHistory_def timerOk_def queueOk_def Let_def split: option.splits)
qed

lemmas event_ok = timerOk_fireTimer queueOk_fireTimer timerOk_fireRevisionCheck queueOk_fireRevisionCheck
  timerOk_finishAutomatic queueOk_finishAutomatic timerOk_start queueOk_start stop_ok cancelActive_ok recordManualSuccess_ok
  quiet_events_ok

lemma handleEvent_ok: "timerOk s \<Longrightarrow> timerOk (handleEvent e s)" "queueOk b s \<Longrightarrow> queueOk b (handleEvent e s)"
proof -
  have env: "timerOk s \<Longrightarrow> timerOk (changeEnv (\<lambda>env. env\<lparr>env_now := f env\<rparr>) s)"
    "timerOk s \<Longrightarrow> timerOk (changeEnv (\<lambda>env. env\<lparr>env_background := h\<rparr>) s)"
    "queueOk b s \<Longrightarrow> queueOk b (changeEnv (\<lambda>env. env\<lparr>env_now := f env\<rparr>) s)"
    "queueOk b s \<Longrightarrow> queueOk b (changeEnv (\<lambda>env. env\<lparr>env_background := h\<rparr>) s)" for f h
    by (auto simp: timerOk_def queueOk_def)
  show "timerOk s \<Longrightarrow> timerOk (handleEvent e s)"
    by (cases e) (simp_all add: handleEvent_def status_def Let_def env event_ok)
  show "queueOk b s \<Longrightarrow> queueOk b (handleEvent e s)"
    by (cases e) (simp_all add: handleEvent_def status_def Let_def env event_ok)
qed

lemma connectivityEvent_timerOk: "timerOk s \<Longrightarrow> timerOk (connectivityEvent online s)"
proof -
  assume ok: "timerOk s"
  then have "sch_started s \<Longrightarrow> timerOk (s\<lparr>sch_queuedReason := None\<rparr>)" by (simp add: timerOk_def)
  then have "timerOk (onOnlineEvent s)" using ok by (simp add: onOnlineEvent_def)
  moreover have "timerOk (onOfflineEvent s)"
    using ok by (auto simp: onOfflineEvent_def handleOffline_def clearRevisionCheckTimer_def clearScheduledTimer_def timerOk_def Let_def
        split: option.splits)
  ultimately show ?thesis by (simp add: connectivityEvent_def)
qed

text \<open>No operation changes the connection, the selected provider or the clock.\<close>

definition outside :: "AutoSyncScheduler \<Rightarrow> bool \<times> SyncProviderKind option \<times> int" where
  "outside s = (isOnline s, selected s, now s)"

lemma outside_simps [simp]:
  "outside (activateHistory p s) = outside s" "outside (scheduleRevisionCheck s) = outside s" "outside (scheduleSync r d m s) = outside s"
  "outside (recordSuccess p res t reason s) = outside s" "outside (goOffline r s) = outside s"
  "outside (clearScheduledTimer s) = outside s" "outside (clearRevisionCheckTimer s) = outside s"
  "outside (activateSelected s) = outside s" "outside (abortActive s) = outside s"
  "outside (s\<lparr>sch_queuedReason := q\<rparr>) = outside s" "outside (s\<lparr>sch_queuedQuietUntil := u\<rparr>) = outside s"
  "outside (s\<lparr>sch_activeSync := x\<rparr>) = outside s" "outside (s\<lparr>sch_started := b\<rparr>) = outside s" "outside (setStatus f s) = outside s"
  "outside (s\<lparr>sch_timer := i\<rparr>) = outside s" "outside (s\<lparr>sch_scheduledReason := q\<rparr>) = outside s" "outside (s\<lparr>sch_revisionCheckTimer := v\<rparr>) = outside s"
  by (simp_all add: outside_def goOffline_def clearScheduledTimer_def clearRevisionCheckTimer_def abortActive_def)

lemma outside_sameWork: "sameWork s s' \<Longrightarrow> outside s' = outside s"
  by (simp add: outside_def sameWork_def)

lemma outside_request [simp]: "outside (requestImmediate r s) = outside s" "outside (requestQuiet delay s) = outside s"
proof -
  show "outside (requestImmediate r s) = outside s"
    by (cases rule: requestImmediate_cases [of r s]) (simp_all add: outside_sameWork)
  show "outside (requestQuiet delay s) = outside s"
    by (cases rule: requestQuiet_cases [of delay s]) (auto simp: outside_sameWork)
qed

lemma outside_finishAutomatic [simp]: "outside (finishAutomatic outcome s) = outside s"
proof (cases "sch_activeSync s")
  case None
  then show ?thesis by (simp add: finishAutomatic_def)
next
  case (Some run)
  obtain d s1 where g: "settleAutomatic run outcome s = (d, s1)" by fastforce
  have "outside s1 = outside s" using settleAutomatic_fields(5-7) [OF g] by (simp add: outside_def)
  then show ?thesis by (auto simp: finishAutomatic_def Some g Let_def split: option.splits)
qed

lemma outside_events [simp]:
  "outside (fireTimer s) = outside s" "outside (fireRevisionCheck s) = outside s" "outside (onTransferProgress x s) = outside s"
  "outside (onActivity kind s) = outside s" "outside (onVisibilityEvent s) = outside s" "outside (onSelectionEvent s) = outside s"
  "outside (start s) = outside s" "outside (stop s) = outside s" "outside (snd (cancelActive s)) = outside s"
  "outside (recordManualSuccess result t s) = outside s" "outside (clearHistory p s) = outside s" "outside (snd (status s)) = outside s"
  "outside (onOnlineEvent s) = outside s" "outside (onOfflineEvent s) = outside s"
  by (simp_all add: fireTimer_def beginAutomatic_def fireRevisionCheck_def onTransferProgress_def onActivity_def onVisibilityEvent_def
      onSelectionEvent_def start_def stop_def cancelActive_def recordManualSuccess_def status_def onOnlineEvent_def
      onOfflineEvent_def handleOffline_def Let_def split: option.splits)
    (simp_all add: outside_def clearHistory_def Let_def)

lemma outside_handleEvent:
  "isOnline (handleEvent e s) = isOnline s" "selected (handleEvent e s) = selected s" "enabled e s \<Longrightarrow> now s \<le> now (handleEvent e s)"
proof -
  have o: "isOnline s' = fst (outside s')" "selected s' = fst (snd (outside s'))" "now s' = snd (snd (outside s'))" for s'
    by (simp_all add: outside_def)
  show "isOnline (handleEvent e s) = isOnline s" by (cases e; simp add: handleEvent_def o; simp add: outside_def)
  show "selected (handleEvent e s) = selected s" by (cases e; simp add: handleEvent_def o; simp add: outside_def)
  show "enabled e s \<Longrightarrow> now s \<le> now (handleEvent e s)"
    by (cases e; simp add: handleEvent_def enabled_def o; simp add: outside_def)
qed

lemma isOnline_connectivityEvent: "isOnline (connectivityEvent online s) = isOnline s" "selected (connectivityEvent online s) = selected s"
  using outside_events(13,14) [of s] by (auto simp: connectivityEvent_def outside_def)

section \<open>No request is forgotten\<close>

text \<open>The last event that was not delivered says what the connection is, so an undelivered event while online
  includes one that says so.\<close>

definition schedulerOk :: "AutoSyncScheduler \<times> bool list \<Rightarrow> bool" where
  "schedulerOk c \<longleftrightarrow> timerOk (fst c) \<and> queueOk (snd c \<noteq> []) (fst c) \<and> eventsOk c"

lemma queueOk_onlineEvent: "queueOk b (onOnlineEvent s)" if "sch_started s \<or> sch_queuedReason s = None"
proof -
  have "queueOk b (s\<lparr>sch_queuedReason := None\<rparr>)" by (simp add: queueOk_def)
  then show ?thesis using that by (auto simp: onOnlineEvent_def)
qed

lemma queueOk_offlineEvent: "queueOk True (onOfflineEvent s)"
  by (simp add: queueOk_def)

lemma schedulerOk_step:
  assumes "schedulerStep providers c c'" and "schedulerOk c"
  shows "schedulerOk c'"
  using assms
proof cases
  case (handled e s events)
  then show ?thesis using assms(2) by (auto simp: schedulerOk_def handleEvent_ok eventsOk_def outside_handleEvent)
next
  case (connection s events online)
  have "timerOk (changeEnv (\<lambda>env. env\<lparr>env_online := online\<rparr>) s)" using assms(2) connection by (simp add: schedulerOk_def timerOk_def)
  then show ?thesis using connection by (simp add: schedulerOk_def queueOk_def eventsOk_def)
next
  case (delivered s online events)
  have ok: "timerOk s" "eventsOk (s, online # events)" using assms(2) delivered by (simp_all add: schedulerOk_def)
  have started: "sch_started s \<or> sch_queuedReason s = None" using ok by (auto simp: timerOk_def)
  have "queueOk (events \<noteq> []) (connectivityEvent online s)"
  proof (cases online)
    case True
    then show ?thesis using queueOk_onlineEvent [OF started] by (simp add: connectivityEvent_def)
  next
    case False
    show ?thesis
    proof (cases "events = []")
      case True
      then have "\<not> isOnline s" using ok(2) False by (simp add: eventsOk_def)
      then show ?thesis using isOnline_connectivityEvent(1) [of online s] by (simp add: queueOk_def)
    qed (simp add: queueOk_def)
  qed
  then show ?thesis using ok delivered
    by (auto simp: schedulerOk_def connectivityEvent_timerOk eventsOk_def isOnline_connectivityEvent split: if_splits)
next
  case (selects p s events)
  have "timerOk (changeEnv (\<lambda>env. env\<lparr>env_selected := p\<rparr>) s)" using assms(2) selects by (simp add: schedulerOk_def timerOk_def)
  then show ?thesis using selects assms(2) by (simp add: schedulerOk_def queueOk_def eventsOk_def)
qed

lemma createScheduler_ok: "createScheduler q i v env = Some s \<Longrightarrow> schedulerOk (s, [])"
  by (auto simp: createScheduler_def Let_def schedulerOk_def timerOk_def queueOk_def eventsOk_def activateSelected_def
      split: if_splits option.splits)

lemma schedulerReaches_ok: "schedulerReaches providers s c \<Longrightarrow> schedulerOk (s, []) \<Longrightarrow> schedulerOk c"
  by (induction rule: schedulerReaches.induct) (auto intro: schedulerOk_step)

text \<open>C28. Whatever happens to the scheduler, in any order: a timer is set exactly when a reason is scheduled and
  never while a synchronization runs; the status says \<open>scheduled\<close> only with a timer and \<open>syncing\<close> only with a
  synchronization; a stopped scheduler has no timer and nothing queued; and a queued request waits for the end of
  the running synchronization, for the connection, or for the event that announces the connection.\<close>

theorem scheduler_forgets_nothing:
  assumes "createScheduler quiet interactive check env = Some initial" and "schedulerReaches providers initial (s, events)"
  shows "sch_scheduledReason s = map_option snd (sch_timer s) \<and> (sch_activeSync s = None \<or> sch_timer s = None) \<and>
    (as_phase (sch_status s) = Scheduled \<longrightarrow> sch_timer s \<noteq> None) \<and>
    (as_phase (sch_status s) = Syncing \<longrightarrow> sch_activeSync s \<noteq> None) \<and>
    (sch_started s \<or> (sch_timer s = None \<and> sch_revisionCheckTimer s = None \<and> sch_queuedReason s = None)) \<and>
    (sch_queuedReason s \<noteq> None \<longrightarrow> sch_activeSync s \<noteq> None \<or> \<not> isOnline s \<or> (events \<noteq> [] \<and> last events))"
  using schedulerReaches_ok [OF assms(2) createScheduler_ok [OF assms(1)]]
  by (auto simp: schedulerOk_def timerOk_def queueOk_def eventsOk_def)


section \<open>Rate limits\<close>

text \<open>The time before which the provider must not be asked again: what the store holds, or memory without one.\<close>

definition deadline :: "AutoSyncScheduler \<Rightarrow> SyncProviderKind \<Rightarrow> int option" where
  "deadline s p = (if env_persists (sch_env s) then env_retryAfter (sch_env s) p else sch_providerRetryAfterAt s p)"

definition memoryOk :: "SyncProviderKind \<Rightarrow> AutoSyncScheduler \<Rightarrow> bool" where
  "memoryOk p s \<longleftrightarrow> (if p \<in> sch_loadedProviderRetryAfter s then sch_providerRetryAfterAt s p = deadline s p
     else sch_providerRetryAfterAt s p = None)"

definition limitOk :: "SyncProviderKind \<Rightarrow> AutoSyncScheduler \<Rightarrow> bool" where
  "limitOk p s \<longleftrightarrow> memoryOk p s \<and> (\<forall>run. sch_activeSync s = Some run \<longrightarrow> act_provider run = p) \<and>
     (\<forall>due r. sch_timer s = Some (due, r) \<longrightarrow> p \<in> sch_loadedProviderRetryAfter s \<and> (\<forall>t. deadline s p = Some t \<longrightarrow> t \<le> due))"

text \<open>Everything about limits is in these fields.\<close>

definition limits :: "AutoSyncScheduler \<Rightarrow> _" where
  "limits s = (env_persists (sch_env s), env_retryAfter (sch_env s), sch_providerRetryAfterAt s, sch_loadedProviderRetryAfter s)"

lemma limits_simps [simp]:
  "limits (activateHistory p s) = limits s" "limits (scheduleRevisionCheck s) = limits s" "limits (scheduleSync r d m s) = limits s"
  "limits (goOffline r s) = limits s" "limits (clearScheduledTimer s) = limits s" "limits (clearRevisionCheckTimer s) = limits s"
  "limits (activateSelected s) = limits s" "limits (abortActive s) = limits s" "limits (recordSuccess p res t reason s) = limits s"
  "limits (s\<lparr>sch_queuedReason := q\<rparr>) = limits s" "limits (s\<lparr>sch_queuedQuietUntil := u\<rparr>) = limits s"
  "limits (s\<lparr>sch_activeSync := x\<rparr>) = limits s" "limits (s\<lparr>sch_started := b\<rparr>) = limits s" "limits (setStatus f s) = limits s"
  "limits (s\<lparr>sch_timer := i\<rparr>) = limits s" "limits (s\<lparr>sch_scheduledReason := q\<rparr>) = limits s" "limits (s\<lparr>sch_revisionCheckTimer := v\<rparr>) = limits s"
  by (simp_all add: limits_def goOffline_def clearScheduledTimer_def clearRevisionCheckTimer_def abortActive_def activateSelected_def
      recordSuccess_def scheduleRevisionCheck_def Let_def split: option.splits)

lemma limits_iff:
  assumes "limits s' = limits s"
  shows "deadline s' p = deadline s p" "memoryOk p s' = memoryOk p s" "sch_loadedProviderRetryAfter s' = sch_loadedProviderRetryAfter s"
  using assms by (auto simp: limits_def deadline_def memoryOk_def)

lemma limitOk_same:
  assumes "limits s' = limits s" and "sch_activeSync s' = sch_activeSync s" and "sch_timer s' = None \<or> sch_timer s' = sch_timer s"
    and "limitOk p s"
  shows "limitOk p s'"
  using assms(2-4) by (auto simp: limitOk_def limits_iff [OF assms(1)])

lemma loadProviderRetryAfter_limits:
  assumes "memoryOk p s"
  shows "p \<in> sch_loadedProviderRetryAfter (loadProviderRetryAfter p s)"
    "sch_providerRetryAfterAt (loadProviderRetryAfter p s) p = deadline s p"
    "deadline (loadProviderRetryAfter p s) p = deadline s p" "now (loadProviderRetryAfter p s) = now s"
proof -
  let ?l = "loadProviderRetryAfter p s"
  have "p \<in> sch_loadedProviderRetryAfter ?l \<and> sch_providerRetryAfterAt ?l p = deadline s p \<and> deadline ?l p = deadline s p \<and> now ?l = now s"
  proof (cases "p \<in> sch_loadedProviderRetryAfter s")
    case True
    then show ?thesis using assms by (simp add: loadProviderRetryAfter_def memoryOk_def)
  next
    case False
    then have "sch_providerRetryAfterAt s p = None" using assms by (simp add: memoryOk_def)
    then show ?thesis using False by (simp add: loadProviderRetryAfter_def deadline_def Let_def split: option.split)
  qed
  then show "p \<in> sch_loadedProviderRetryAfter ?l" "sch_providerRetryAfterAt ?l p = deadline s p" "deadline ?l p = deadline s p"
    "now ?l = now s" by simp_all
qed

lemma clearProviderRetryAfter_limits [simp]:
  "deadline (clearProviderRetryAfter p s) p = None" "sch_providerRetryAfterAt (clearProviderRetryAfter p s) p = None"
  "p \<in> sch_loadedProviderRetryAfter (clearProviderRetryAfter p s)"
  by (simp_all add: clearProviderRetryAfter_def writeRetryAfter_def deadline_def)

lemma persistProviderRetryAfter_limits [simp]:
  "deadline (persistProviderRetryAfter p t s) p = Some t" "sch_providerRetryAfterAt (persistProviderRetryAfter p t s) p = Some t"
  "p \<in> sch_loadedProviderRetryAfter (persistProviderRetryAfter p t s)"
  by (simp_all add: persistProviderRetryAfter_def writeRetryAfter_def deadline_def)

lemma readProviderRetryDelay_limits:
  assumes "readProviderRetryDelay p s = (d, s')" and "memoryOk p s"
  shows "memoryOk p s'" "p \<in> sch_loadedProviderRetryAfter s'" "deadline s' p = Some t \<Longrightarrow> t \<le> now s' + d" "0 \<le> d"
    "0 < d \<Longrightarrow> deadline s p = Some (now s + d)"
proof -
  let ?l = "loadProviderRetryAfter p s"
  note l = loadProviderRetryAfter_limits [OF assms(2)]
  have "memoryOk p s' \<and> p \<in> sch_loadedProviderRetryAfter s' \<and> (deadline s' p = Some t \<longrightarrow> t \<le> now s' + d) \<and> 0 \<le> d \<and>
    (0 < d \<longrightarrow> deadline s p = Some (now s + d))"
  proof (cases "deadline s p")
    case None
    then show ?thesis using assms(1) l by (auto simp: readProviderRetryDelay_def Let_def memoryOk_def)
  next
    case (Some a)
    then show ?thesis using assms(1) l by (auto simp: readProviderRetryDelay_def Let_def memoryOk_def split: if_splits)
  qed
  then show "memoryOk p s'" "p \<in> sch_loadedProviderRetryAfter s'" "deadline s' p = Some t \<Longrightarrow> t \<le> now s' + d" "0 \<le> d"
    "0 < d \<Longrightarrow> deadline s p = Some (now s + d)" by simp_all
qed

lemma limitOk_requestImmediate [simp]: "selected s = Some p \<Longrightarrow> limitOk p s \<Longrightarrow> limitOk p (requestImmediate r s)"
proof (cases rule: requestImmediate_cases [of r s])
  case (scheduled q d m s')
  assume "selected s = Some p" and ok: "limitOk p s"
  then have q: "q = p" using scheduled(1) by simp
  have "memoryOk p (activateHistory p s)" using ok by (simp add: limitOk_def limits_iff [OF limits_simps(1)])
  note rd = readProviderRetryDelay_limits [OF scheduled(5) [unfolded q] this]
  show ?thesis using rd scheduled(4,6) unfolding scheduled(8)
    by (auto simp: limitOk_def limits_iff [OF limits_simps(3)] sameWork_def)
qed (auto intro: limitOk_same simp: clearScheduledTimer_def goOffline_def)

lemma limitOk_requestQuiet [simp]: "selected s = Some p \<Longrightarrow> limitOk p s \<Longrightarrow> limitOk p (requestQuiet delay s)"
proof (cases rule: requestQuiet_cases [of delay s])
  case ignored
  assume "limitOk p s"
  then show ?thesis using ignored by (auto intro: limitOk_same)
next
  case (scheduled q d m s')
  assume "selected s = Some p" and ok: "limitOk p s"
  then have q: "q = p" using scheduled(1) by simp
  have "memoryOk p (activateHistory p s)" using ok by (simp add: limitOk_def limits_iff [OF limits_simps(1)])
  note rd = readProviderRetryDelay_limits [OF scheduled(5) [unfolded q] this]
  show ?thesis using rd scheduled(4,6) unfolding scheduled(8)
    by (auto simp: limitOk_def limits_iff [OF limits_simps(3)] sameWork_def max_def)
qed (auto intro: limitOk_same simp: clearScheduledTimer_def goOffline_def)


lemma providerRetryAfterSeconds_bounds: "providerRetryAfterSeconds e = Some n \<Longrightarrow> 1 \<le> n \<and> n \<le> 86400"
  by (auto simp: providerRetryAfterSeconds_def DEFAULT_PROVIDER_RETRY_AFTER_MS_def le_floor_iff floor_le_iff
      split: if_splits jsval.splits jsnum.splits)

lemma settleAutomatic_limits:
  assumes "settleAutomatic run outcome s = (d, s')" and "limitOk (act_provider run) s" and "sch_timer s = None"
  shows "limitOk (act_provider run) s'"
    "d = Some delay \<Longrightarrow> deadline s' (act_provider run) = Some (now s + delay) \<and> act_provider run \<in> sch_loadedProviderRetryAfter s' \<and>
       1000 \<le> delay \<and> delay \<le> 86400000 \<and> sch_started s \<and> \<not> act_aborted run"
    "d = None \<Longrightarrow> deadline s' (act_provider run) = Some t \<Longrightarrow> deadline s (act_provider run) = Some t"
proof -
  let ?p = "act_provider run"
  note f = settleAutomatic_fields(2,4) [OF assms(1)]
  consider (kept) "limits s' = limits s" "d = None"
    | (cleared) "limits s' = limits (clearProviderRetryAfter ?p s)" "d = None"
    | (limited) n e where "s' = persistProviderRetryAfter ?p (now s + n * 1000) s" "d = Some (n * 1000)"
        "providerRetryAfterSeconds e = Some n" "sch_started s" "\<not> act_aborted run"
    using assms(1) by (auto simp: settleAutomatic_def split: if_splits WorkerOutcome.splits option.splits)
  note cs = this
  have "\<forall>r. sch_activeSync s' = Some r \<longrightarrow> act_provider r = ?p" unfolding f(2) using assms(2) unfolding limitOk_def by blast
  then have ok: "memoryOk ?p s' \<Longrightarrow> limitOk ?p s'" unfolding limitOk_def f(1) assms(3) by blast
  show "limitOk ?p s'"
  proof (cases rule: cs)
    case kept
    then show ?thesis using assms(2) f by (intro limitOk_same [OF kept(1)]) auto
  next
    case cleared
    have "memoryOk ?p (clearProviderRetryAfter ?p s)" by (simp add: memoryOk_def)
    then have "memoryOk ?p s'" by (simp only: limits_iff(2) [OF cleared(1)])
    then show ?thesis by (rule ok)
  next
    case (limited n e)
    have "memoryOk ?p s'" by (simp add: limited(1) memoryOk_def)
    then show ?thesis by (rule ok)
  qed
  show "d = Some delay \<Longrightarrow> deadline s' ?p = Some (now s + delay) \<and> ?p \<in> sch_loadedProviderRetryAfter s' \<and>
       1000 \<le> delay \<and> delay \<le> 86400000 \<and> sch_started s \<and> \<not> act_aborted run"
  proof (cases rule: cs)
    case (limited n e)
    then show "d = Some delay \<Longrightarrow> ?thesis" using providerRetryAfterSeconds_bounds [OF limited(3)] by auto
  qed simp_all
  show "d = None \<Longrightarrow> deadline s' ?p = Some t \<Longrightarrow> deadline s ?p = Some t"
  proof (cases rule: cs)
    case kept
    then show "deadline s' ?p = Some t \<Longrightarrow> ?thesis" unfolding limits_iff(1) [OF kept(1)] by simp
  next
    case cleared
    then show "deadline s' ?p = Some t \<Longrightarrow> ?thesis" unfolding limits_iff(1) [OF cleared(1)] by simp
  qed simp
qed

lemma limitOk_finishAutomatic:
  assumes "timerOk s" and "selected s = Some p" and "limitOk p s"
  shows "limitOk p (finishAutomatic outcome s)"
proof (cases "sch_activeSync s")
  case None
  then show ?thesis using assms by (simp add: finishAutomatic_def)
next
  case (Some run)
  have p: "act_provider run = p" using assms(3) Some by (simp add: limitOk_def)
  have tm: "sch_timer s = None" using assms(1) Some by (simp add: timerOk_def)
  obtain d s1 where g: "settleAutomatic run outcome s = (d, s1)" by fastforce
  note f = settleAutomatic_fields [OF g] and lim = settleAutomatic_limits [OF g, unfolded p, OF assms(3) tm]
  define s2 where "s2 = s1\<lparr>sch_queuedQuietUntil := None, sch_activeSync := None, sch_queuedReason := None\<rparr>"
  have eq: "s1\<lparr>sch_queuedQuietUntil := None, sch_activeSync := None\<rparr>\<lparr>sch_queuedReason := None\<rparr> = s2" by (simp add: s2_def)
  have l2: "limits s2 = limits s1" by (simp add: s2_def)
  have ok: "limitOk p s2" using lim(1) by (auto simp: limitOk_def limits_iff [OF l2]) (simp_all add: s2_def)
  have sel: "selected s2 = Some p" using f(6) assms(2) by (simp add: s2_def)
  have sched: "limitOk p (scheduleSync r delay m s2)" if "d = Some delay" for r delay m
    using lim(2) [OF that] ok f(7)
    by (simp add: limitOk_def limits_iff [OF limits_simps(3)] limits_iff [OF l2]) (simp add: s2_def)
  show ?thesis using ok sel sched by (auto simp: finishAutomatic_def Some g Let_def eq split: option.splits)
qed

lemma limitOk_events:
  assumes "selected s = Some p" and "limitOk p s"
  shows "limitOk p (fireTimer s)" "limitOk p (fireRevisionCheck s)" "limitOk p (onActivity kind s)" "limitOk p (onVisibilityEvent s)"
    "limitOk p (onSelectionEvent s)" "limitOk p (start s)" "limitOk p (stop s)" "limitOk p (snd (cancelActive s))"
    "limitOk p (recordManualSuccess result t s)" "limitOk p (clearHistory q s)" "limitOk p (onTransferProgress x s)"
    "limitOk p (snd (status s))" "limitOk p (onOnlineEvent s)" "limitOk p (onOfflineEvent s)"
proof -
  have started: "limitOk p (s\<lparr>sch_started := True\<rparr>)" "limitOk p (s\<lparr>sch_revisionCheckTimer := None\<rparr>)"
    "limitOk p (s\<lparr>sch_queuedReason := None\<rparr>)" "limitOk p (clearRevisionCheckTimer s)"
    using assms(2) by (auto intro: limitOk_same simp: clearRevisionCheckTimer_def)
  have rev: "limitOk q s' \<Longrightarrow> limitOk q (scheduleRevisionCheck s')" for q s' by (rule limitOk_same) simp_all
  have act: "limitOk p s' \<Longrightarrow> limitOk p (activateSelected s')" for s'
    by (rule limitOk_same) (simp_all add: activateSelected_def split: option.splits)
  have sel: "selected (activateSelected s') = selected s'" for s' by simp
  have fl: "limits (fireTimer s) = limits s" and ft: "sch_timer (fireTimer s) = None"
    by (simp_all add: fireTimer_def beginAutomatic_def goOffline_def split: option.split)
  have "sch_activeSync (fireTimer s) = Some run \<Longrightarrow> act_provider run = p" for run
    using assms by (auto simp: fireTimer_def beginAutomatic_def goOffline_def limitOk_def split: option.splits if_splits)
  then show "limitOk p (fireTimer s)" using assms(2) ft by (simp add: limitOk_def limits_iff [OF fl])
  show "limitOk p (fireRevisionCheck s)" "limitOk p (onActivity kind s)" "limitOk p (onVisibilityEvent s)"
    "limitOk p (onSelectionEvent s)" "limitOk p (start s)" "limitOk p (onOnlineEvent s)" "limitOk p (snd (status s))"
    using assms started
    by (auto simp: fireRevisionCheck_def onActivity_def onVisibilityEvent_def onSelectionEvent_def start_def onOnlineEvent_def
        status_def Let_def intro!: rev limitOk_requestImmediate act)
  show "limitOk p (onTransferProgress x s)" using assms(2) by (auto simp: onTransferProgress_def intro: limitOk_same split: option.splits)
  show "limitOk p (clearHistory q s)" using assms(2)
    by (rule limitOk_same [rotated -1]) (auto simp: clearHistory_def limits_def Let_def)
  show "limitOk p (recordManualSuccess result t s)" using assms(2)
    by (rule limitOk_same [rotated -1]) (auto simp: recordManualSuccess_def clearScheduledTimer_def split: option.splits)
  show "limitOk p (onOfflineEvent s)" using assms(2)
    by (rule limitOk_same [rotated -1]) (auto simp: onOfflineEvent_def handleOffline_def clearScheduledTimer_def
        clearRevisionCheckTimer_def limits_def Let_def split: option.splits)
  have abort: "limitOk p s'" if "limitOk p s0" "limits s' = limits s0" "sch_timer s' = None \<or> sch_timer s' = sch_timer s0"
    "sch_activeSync s' = map_option (\<lambda>run. run\<lparr>act_aborted := True\<rparr>) (sch_activeSync s0)" for s0 s'
  proof -
    have "act_provider run = p" if run: "sch_activeSync s' = Some run" for run
    proof -
      obtain run0 where "sch_activeSync s0 = Some run0" "run = run0\<lparr>act_aborted := True\<rparr>"
        using run [unfolded \<open>sch_activeSync s' = map_option _ _\<close>] by blast
      then show ?thesis using \<open>limitOk p s0\<close> by (simp add: limitOk_def)
    qed
    then show ?thesis using that(1,3) unfolding limitOk_def limits_iff [OF that(2)] by auto
  qed
  show "limitOk p (stop s)" using assms(2) abort [OF assms(2)]
    by (auto simp: stop_def) (simp add: clearScheduledTimer_def clearRevisionCheckTimer_def abortActive_def)
  show "limitOk p (snd (cancelActive s))" using assms(2)
    by (auto simp: cancelActive_def abortActive_def intro!: abort [OF assms(2)] split: option.splits)
qed

lemma limitOk_handleEvent:
  assumes "timerOk s" and "selected s = Some p" and "limitOk p s"
  shows "limitOk p (handleEvent e s)"
proof -
  have env: "limitOk p (changeEnv (\<lambda>env. env\<lparr>env_now := f env\<rparr>) s)" "limitOk p (changeEnv (\<lambda>env. env\<lparr>env_background := h\<rparr>) s)" for f h
    using assms(3) by (auto intro!: limitOk_same [OF _ _ _ assms(3)] simp: limits_def)
  show ?thesis using assms
    by (cases e) (simp_all add: handleEvent_def env limitOk_events limitOk_finishAutomatic)
qed

lemma limitOk_step:
  assumes "schedulerStep {Some p} c c'" and "schedulerOk c" and "selected (fst c) = Some p" and "limitOk p (fst c)"
  shows "selected (fst c') = Some p \<and> limitOk p (fst c')"
  using assms(1)
proof cases
  case (handled e s events)
  then show ?thesis using assms(2-4) by (simp add: outside_handleEvent limitOk_handleEvent schedulerOk_def)
next
  case (connection s events online)
  then show ?thesis using assms(3,4) by (auto intro!: limitOk_same [OF _ _ _ assms(4)] simp: limits_def)
next
  case (delivered s online events)
  then show ?thesis using assms(3,4) limitOk_events(13,14)
    by (auto simp: isOnline_connectivityEvent connectivityEvent_def split: if_splits) (metis isOnline_connectivityEvent(2) connectivityEvent_def)+
next
  case (selects q s events)
  then show ?thesis using assms(3,4) by (auto intro!: limitOk_same [OF _ _ _ assms(4)] simp: limits_def)
qed

lemma limitOk_created: "createScheduler q i v env = Some s \<Longrightarrow> limitOk p s \<and> selected s = env_selected env"
  by (auto simp: createScheduler_def Let_def limitOk_def memoryOk_def activateSelected_def split: if_splits option.splits)

lemma schedulerReaches_limitOk:
  assumes "schedulerReaches {Some p} initial c" and "createScheduler q i v env = Some initial" and "env_selected env = Some p"
  shows "schedulerOk c \<and> selected (fst c) = Some p \<and> limitOk p (fst c)"
  using assms(1)
proof (induction rule: schedulerReaches.induct)
  case created
  show ?case using createScheduler_ok [OF assms(2)] limitOk_created [OF assms(2), of p] assms(3) by simp
next
  case (steps c c')
  then show ?case using schedulerOk_step limitOk_step by blast
qed

text \<open>A synchronization that ends with a rate limit is scheduled again for the end of the limit.\<close>

lemma finish_limited:
  assumes "sch_started s" and "sch_activeSync s = Some run" and "\<not> act_aborted run" and "providerRetryAfterSeconds e = Some n"
  shows "\<exists>r. sch_timer (finishAutomatic (WorkerFailed e m) s) = Some (now s + n * 1000, r)"
    "deadline (finishAutomatic (WorkerFailed e m) s) (act_provider run) = Some (now s + n * 1000)"
proof -
  let ?s1 = "persistProviderRetryAfter (act_provider run) (now s + n * 1000) s"
  let ?s2 = "?s1\<lparr>sch_queuedQuietUntil := None, sch_activeSync := None, sch_queuedReason := None\<rparr>"
  have st: "sch_started ?s1" "now ?s1 = now s" using retryAfter_fields(2) [of s] assms(1) by (auto simp: sameWork_def)
  have "\<exists>r. finishAutomatic (WorkerFailed e m) s = scheduleSync r (n * 1000) (Some PROVIDER_RATE_LIMIT_MESSAGE) ?s2"
    using assms st by (simp add: finishAutomatic_def settleAutomatic_def Let_def) blast
  then obtain r where r: "finishAutomatic (WorkerFailed e m) s = scheduleSync r (n * 1000) (Some PROVIDER_RATE_LIMIT_MESSAGE) ?s2" ..
  show "\<exists>r. sch_timer (finishAutomatic (WorkerFailed e m) s) = Some (now s + n * 1000, r)" using st by (simp add: r)
  have "limits (finishAutomatic (WorkerFailed e m) s) = limits ?s1" by (simp add: r)
  then show "deadline (finishAutomatic (WorkerFailed e m) s) (act_provider run) = Some (now s + n * 1000)" by (simp add: limits_iff(1))
qed

text \<open>C30. While the selected provider stays the same, the scheduler never starts a synchronization before the time
  at which the provider wants to be asked again. An answer with a limit sets that time between a second and a
  day ahead and schedules the next attempt exactly then.\<close>

theorem rate_limit_kept:
  assumes "createScheduler quiet interactive check env = Some initial" and "env_selected env = Some p"
    and "schedulerReaches {Some p} initial (s, events)"
  shows "(enabled TimerDue s \<longrightarrow> (\<forall>t. deadline s p = Some t \<longrightarrow> t \<le> now s)) \<and>
    (\<forall>run e n m. sch_started s \<and> sch_activeSync s = Some run \<and> \<not> act_aborted run \<and> providerRetryAfterSeconds e = Some n \<longrightarrow>
      1 \<le> n \<and> n \<le> 86400 \<and> deadline (finishAutomatic (WorkerFailed e m) s) p = Some (now s + n * 1000) \<and>
      (\<exists>r. sch_timer (finishAutomatic (WorkerFailed e m) s) = Some (now s + n * 1000, r)))"
proof -
  have ok: "limitOk p s" using schedulerReaches_limitOk [OF assms(3,1,2)] by simp
  have "t \<le> now s" if "enabled TimerDue s" "deadline s p = Some t" for t
    using that ok by (fastforce simp: enabled_def limitOk_def split: option.splits)
  moreover have "act_provider run = p" if "sch_activeSync s = Some run" for run
    using that ok unfolding limitOk_def by blast
  ultimately show ?thesis using finish_limited providerRetryAfterSeconds_bounds by blast
qed

section \<open>Requests lead to synchronizations\<close>

lemma fireTimer_starts:
  assumes "sch_timer s = Some (due, r)" and "sch_started s" and "selected s = Some p" and "isOnline s" and "sch_activeSync s = None"
  shows "sch_activeSync (fireTimer s) = Some \<lparr>act_provider = p, act_reason = r, act_aborted = False\<rparr>"
  using assms by (simp add: fireTimer_def beginAutomatic_def)

lemma request_schedules:
  assumes "sch_started s" and "selected s = Some p" and "isOnline s" and "sch_activeSync s = None" and "memoryOk p s"
    and "\<forall>t. deadline s p = Some t \<longrightarrow> t \<le> now s + bound" and "0 \<le> bound"
  shows "\<exists>due. sch_timer (requestImmediate r s) = Some (due, r) \<and> due \<le> now s + bound \<and> sch_activeSync (requestImmediate r s) = None \<and>
    sch_started (requestImmediate r s)"
proof (cases rule: requestImmediate_cases [of r s])
  case (scheduled q d m s')
  have q: "q = p" using scheduled(1) assms(2) by simp
  have mem: "memoryOk p (activateHistory p s)" using assms(5) by (simp add: limits_iff(2) [OF limits_simps(1)])
  have "d \<le> bound"
    using readProviderRetryDelay_limits(4,5) [OF scheduled(5) [unfolded q] mem] assms(6,7)
    by (cases "0 < d") (auto simp: limits_iff(1) [OF limits_simps(1)])
  then show ?thesis using scheduled(6,8) assms(1,4) by (simp add: sameWork_def)
qed (use assms in auto)


lemma mergeReasons_immediate: "r \<noteq> ReadingQuiet \<Longrightarrow> mergeReasons q r \<noteq> ReadingQuiet"
  by (auto simp: mergeReasons_def split: option.splits)

text \<open>The end of a synchronization schedules what was queued meanwhile.\<close>

lemma finish_schedules:
  assumes "timerOk s" and "limitOk p s" and "sch_started s" and "selected s = Some p" and "isOnline s"
    and "sch_activeSync s = Some run" and "\<not> act_aborted run" and "sch_queuedReason s = Some q" and "q \<noteq> ReadingQuiet"
    and "\<forall>t. deadline s p = Some t \<longrightarrow> t \<le> now s + 86400000"
  shows "\<exists>due r. sch_timer (finishAutomatic outcome s) = Some (due, r) \<and> due \<le> now s + 86400000 \<and>
    sch_activeSync (finishAutomatic outcome s) = None \<and> sch_started (finishAutomatic outcome s)"
proof -
  have p: "act_provider run = p" using assms(2,6) unfolding limitOk_def by blast
  have tm: "sch_timer s = None" using assms(1,6) by (simp add: timerOk_def)
  obtain d s1 where g: "settleAutomatic run outcome s = (d, s1)" by fastforce
  note f = settleAutomatic_fields [OF g] and lim = settleAutomatic_limits [OF g, unfolded p, OF assms(2) tm]
  let ?s2 = "s1\<lparr>sch_queuedQuietUntil := None, sch_activeSync := None, sch_queuedReason := None\<rparr>"
  have q: "sch_queuedReason s1 = Some q" using f(10) assms(3,7,8) by auto
  have l2: "limits ?s2 = limits s1" by simp
  show ?thesis
  proof (cases d)
    case (Some delay)
    then show ?thesis using lim(2) [OF Some] assms(3,6,7) q f(1,7) by (auto simp: finishAutomatic_def g Let_def)
  next
    case None
    have "memoryOk p s1" using lim(1) by (simp add: limitOk_def)
    then have "memoryOk p ?s2" by (simp only: limits_iff(2) [OF l2])
    moreover have "\<forall>t. deadline ?s2 p = Some t \<longrightarrow> t \<le> now s1 + 86400000"
      using lim(3) [OF None] assms(10) unfolding limits_iff(1) [OF l2] f(7) by blast
    ultimately have "\<exists>due. sch_timer (requestImmediate q ?s2) = Some (due, q) \<and> due \<le> now s1 + 86400000 \<and>
        sch_activeSync (requestImmediate q ?s2) = None \<and> sch_started (requestImmediate q ?s2)"
      using request_schedules [of ?s2 p 86400000 q] f(1,5,6) assms(3,4,5) by simp
    moreover have "finishAutomatic outcome s = requestImmediate q ?s2"
      using None q assms(3,6,7,9) f(1) by (simp add: finishAutomatic_def g Let_def)
    ultimately show ?thesis unfolding f(7) by auto
  qed
qed



section \<open>Requests and limits that are lost\<close>

text \<open>A manual synchronization forgets what was requested while it ran: recording its success clears the
  timer and the queue, also for a change that was made after the manual synchronization read the journal. With
  a provider that is not polled nothing is left that would start a synchronization.\<close>

theorem manual_success_forgets_requests:
  assumes "selected s = Some Mega" and "\<not> wr_maintenancePending result"
  shows "let s' = recordManualSuccess result completedAt s in
    sch_timer s' = None \<and> sch_revisionCheckTimer s' = None \<and> sch_queuedReason s' = None \<and>
    as_phase (sch_status s') = Idle \<and> sch_activeSync s' = sch_activeSync s"
  using assms
  by (simp add: recordManualSuccess_def recordSuccess_def scheduleRevisionCheck_def clearRevisionCheckTimer_def clearScheduledTimer_def
      revisionPollingEnabled_def Let_def)

text \<open>A scheduler that is stopped and started again while a synchronization runs drops the request of the new
  start: when the aborted synchronization ends, the queue is cleared.\<close>

theorem restart_forgets_startup:
  assumes "sch_started s" and "selected s = Some p" and "isOnline s" and "sch_activeSync s = Some run"
  shows "let s' = finishAutomatic outcome (start (stop s)) in
    sch_started s' \<and> sch_timer s' = None \<and> sch_queuedReason s' = None \<and> sch_activeSync s' = None"
proof -
  let ?r = "run\<lparr>act_aborted := True\<rparr>"
  have "sch_activeSync (stop s) = Some ?r" "sch_timer (stop s) = None" "\<not> sch_started (stop s)" "selected (stop s) = Some p"
    "isOnline (stop s)"
    using assms by (simp_all add: stop_def abortActive_def clearScheduledTimer_def clearRevisionCheckTimer_def)
  then have "sch_started (start (stop s))" "sch_activeSync (start (stop s)) = Some ?r" "sch_timer (start (stop s)) = None"
    by (simp_all add: start_def requestImmediate_def activateSelected_def Let_def)
  then show ?thesis by (simp add: finishAutomatic_def settleAutomatic_def Let_def)
qed

text \<open>A timer that was set for one provider starts a synchronization of another one that was selected in the
  meantime, also when that provider asked to wait: \<open>runAutomatic\<close> does not look at the limit again.\<close>

theorem provider_switch_ignores_limit:
  assumes "sch_timer s = Some (due, r)" and "sch_started s" and "isOnline s" and "sch_activeSync s = None"
    and "deadline s q = Some t" and "now s < t"
  shows "let s' = changeEnv (\<lambda>env. env\<lparr>env_selected := Some q\<rparr>) s in
    deadline s' q = Some t \<and> now s' < t \<and>
    sch_activeSync (fireTimer s') = Some \<lparr>act_provider = q, act_reason = r, act_aborted = False\<rparr>"
  using assms by (auto simp: fireTimer_starts deadline_def)

section \<open>Examples\<close>

definition exampleEnv :: AutoSyncEnvironment where
  "exampleEnv = \<lparr>env_now = 1714730400000, env_online = True, env_background = False, env_selected = Some Git,
     env_persists = True, env_retryAfter = (\<lambda>p. if p = Mega then Some 1714730460000 else None), env_history = (\<lambda>_. None)\<rparr>"

definition exampleScheduler :: AutoSyncScheduler where
  "exampleScheduler = the (createScheduler None None None exampleEnv)"

lemma exampleScheduler_created: "createScheduler None None None exampleEnv = Some exampleScheduler"
  by (simp add: exampleScheduler_def createScheduler_def DEFAULT_REVISION_CHECK_INTERVAL_MS_def Let_def)

lemma exampleScheduler_started: "schedulerReaches {Some Git} exampleScheduler (start exampleScheduler, [])"
proof -
  have "schedulerStep {Some Git} (exampleScheduler, []) (handleEvent Start exampleScheduler, [])"
    by (rule schedulerStep.handled) (simp add: enabled_def)
  then show ?thesis using schedulerReaches.steps [OF schedulerReaches.created] by (simp add: handleEvent_def)
qed

theorem scheduler_forgets_nothing_witness:
  "sch_scheduledReason (start exampleScheduler) = Some Startup \<and> sch_timer (start exampleScheduler) = Some (1714730400000, Startup)"
proof -
  have "sch_timer (start exampleScheduler) = Some (1714730400000, Startup)" by code_simp
  then show ?thesis using scheduler_forgets_nothing [OF exampleScheduler_created exampleScheduler_started] by simp
qed

lemma exampleScheduler_syncing: "schedulerReaches {Some Git} exampleScheduler (fireTimer (start exampleScheduler), [])"
proof -
  have "enabled TimerDue (start exampleScheduler)" by code_simp
  then have "schedulerStep {Some Git} (start exampleScheduler, []) (handleEvent TimerDue (start exampleScheduler), [])"
    by (rule schedulerStep.handled)
  then show ?thesis using schedulerReaches.steps [OF exampleScheduler_started] by (simp add: handleEvent_def)
qed

theorem rate_limit_kept_witness:
  "let s = fireTimer (start exampleScheduler);
       answer = WorkerFailed (JObj [(''status'', JInt 429), (''retryAfterSeconds'', JInt 30)]) None
   in enabled TimerDue (start exampleScheduler) \<and> deadline (finishAutomatic answer s) Git = Some (1714730400000 + 30000)"
proof -
  let ?s = "fireTimer (start exampleScheduler)" and ?e = "JObj [(''status'', JInt 429), (''retryAfterSeconds'', JInt 30)]"
  have st: "enabled TimerDue (start exampleScheduler)" "sch_started ?s" "now ?s = 1714730400000"
    "sch_activeSync ?s = Some \<lparr>act_provider = Git, act_reason = Startup, act_aborted = False\<rparr>" "providerRetryAfterSeconds ?e = Some 30"
    by code_simp+
  moreover have "env_selected exampleEnv = Some Git" by (simp add: exampleEnv_def)
  ultimately show ?thesis
    using rate_limit_kept [OF exampleScheduler_created _ exampleScheduler_syncing] by (simp add: Let_def)
qed


theorem manual_success_forgets_requests_witness:
  "let s = changeEnv (\<lambda>env. env\<lparr>env_selected := Some Mega\<rparr>) (start exampleScheduler);
       s' = recordManualSuccess \<lparr>wr_pulled = 0, wr_pushed = 1, wr_conflicts = 0, wr_rejected = 0, wr_unchanged = False,
         wr_maintenancePending = False\<rparr> 1714730400000 s
   in sch_timer s \<noteq> None \<and> sch_timer s' = None \<and> sch_revisionCheckTimer s' = None \<and> sch_queuedReason s' = None"
proof -
  have "sch_timer (start exampleScheduler) \<noteq> None" by code_simp
  then show ?thesis using manual_success_forgets_requests [of "changeEnv (\<lambda>env. env\<lparr>env_selected := Some Mega\<rparr>) (start exampleScheduler)"]
    by (simp add: Let_def)
qed

end
