(* ===== verification/JSON_Roundtrip.thy ===== *)
theory JSON_Roundtrip
  imports JSON_Text
begin

text \<open>
  \<open>JSON.parse\<close> undoes \<open>JSON.stringify\<close> on plain values: objects without repeated keys, arrays, strings, truth
  values, \<open>null\<close> and numbers that are read back as they are written, which every integer below \<open>10\<^sup>2\<^sup>1\<close> is.
\<close>

section \<open>Strings\<close>

lemma radixDigit_hexDigit: "d < 16 \<Longrightarrow> radixDigit 16 (hexDigit d) = Some d"
  by (simp add: radixDigit_def hexDigit_def Let_def)

lemma parseChars_escape:
  "e \<noteq> CHR ''u'' \<Longrightarrow> jsonEscape e = Some c \<Longrightarrow>
   parseChars (CHR 0x5C # e # t) = map_option (\<lambda>(x, r). (c # x, r)) (parseChars t)"
  by simp

lemma parseChars_unicode:
  assumes "n < 256" and "of_char c = n"
  shows "parseChars (CHR 0x5C # CHR ''u'' # CHR ''0'' # CHR ''0'' # hexDigit (n div 16) # hexDigit (n mod 16) # t) =
    map_option (\<lambda>(x, r). (c # x, r)) (parseChars t)"
proof -
  have zero: "radixDigit 16 (CHR ''0'') = Some 0" by code_simp
  have digits: "radixDigit 16 (hexDigit (n div 16)) = Some (n div 16)" "radixDigit 16 (hexDigit (n mod 16)) = Some (n mod 16)"
    using assms(1) by (simp_all add: radixDigit_hexDigit)
  have "char_of (16 * (n div 16) + n mod 16) = c" using assms(2) by (simp flip: assms(2))
  then show ?thesis by (simp add: zero digits)
qed

lemma parseChars_plain:
  "c \<noteq> CHR 0x22 \<Longrightarrow> c \<noteq> CHR 0x5C \<Longrightarrow> 32 \<le> (of_char c :: int) \<Longrightarrow>
   parseChars (c # t) = map_option (\<lambda>(x, r). (c # x, r)) (parseChars t)"
  by simp

lemma of_char_eq: "(of_char c :: nat) = n \<Longrightarrow> c = char_of n"
  by auto

lemma parseChars_quoteChar: "parseChars (quoteChar c @ t) = map_option (\<lambda>(x, r). (c # x, r)) (parseChars t)"
proof -
  define n where "n = (of_char c :: nat)"
  have named: "char_of (34::nat) = CHR 0x22" "char_of (92::nat) = CHR 0x5C" "char_of (8::nat) = CHR 0x08" "char_of (9::nat) = CHR 0x09"
    "char_of (10::nat) = CHR 0x0A" "char_of (12::nat) = CHR 0x0C" "char_of (13::nat) = CHR 0x0D"
    by code_simp+
  have special: "jsonEscape (CHR 0x22) = Some (CHR 0x22)" "jsonEscape (CHR 0x5C) = Some (CHR 0x5C)"
    "jsonEscape (CHR ''b'') = Some (CHR 0x08)" "jsonEscape (CHR ''t'') = Some (CHR 0x09)" "jsonEscape (CHR ''n'') = Some (CHR 0x0A)"
    "jsonEscape (CHR ''f'') = Some (CHR 0x0C)" "jsonEscape (CHR ''r'') = Some (CHR 0x0D)"
    by code_simp+
  have u: "CHR 0x22 \<noteq> CHR ''u''" "CHR 0x5C \<noteq> CHR ''u''" by simp_all
  consider "n \<in> {34, 92, 8, 9, 10, 12, 13}" | "n < 32" "n \<notin> {8, 9, 10, 12, 13}" | "32 \<le> n" "n \<noteq> 34" "n \<noteq> 92" by fastforce
  then show ?thesis
  proof cases
    case 1
    have c: "c = char_of n" using of_char_eq [of c n] by (simp add: n_def)
    from 1 show ?thesis
      unfolding quoteChar_def n_def [symmetric] Let_def
      by (elim insertE emptyE) (simp_all add: c named special u parseChars_escape del: parseChars.simps)
  next
    case 2
    then have q: "quoteChar c = [CHR 0x5C, CHR ''u'', CHR ''0'', CHR ''0'', hexDigit (n div 16), hexDigit (n mod 16)]"
      by (simp add: quoteChar_def n_def [symmetric] Let_def)
    show ?thesis unfolding q append.simps using 2 by (intro parseChars_unicode) (simp_all add: n_def)
  next
    case 3
    then have q: "quoteChar c = [c]" by (simp add: quoteChar_def n_def [symmetric] Let_def)
    have "32 \<le> (of_char c :: int)" using 3(1) by (metis n_def of_nat_le_iff of_nat_numeral of_nat_of_char)
    then show ?thesis unfolding q append.simps
      using 3 by (intro parseChars_plain) (auto simp: n_def)
  qed
qed

lemma parseChars_quote: "parseChars (concat (map quoteChar s) @ CHR 0x22 # r) = Some (s, r)"
  by (induction s) (simp_all add: parseChars_quoteChar del: parseChars.simps(2), simp)

section \<open>Numbers\<close>

text \<open>The written number reads back to itself: a computable test.\<close>

definition numberReadable :: "jsnum \<Rightarrow> bool" where
  "numberReadable x \<longleftrightarrow> isFinite x \<and> (\<forall>c \<in> set (numToString x). isNumberChar c) \<and> jsonNumber (numToString x) = Some x"

lemma isDigit_digitChar: "0 \<le> d \<Longrightarrow> d < 10 \<Longrightarrow> isDigit (digitChar d)"
  by (simp add: isDigit_def digitChar_def Let_def)

lemma digitsVal_snoc: "digitsVal (ds @ [c]) = 10 * digitsVal ds + (of_char c - 48)"
  by (simp add: digitsVal_def)

lemma digitsVal_showInt: "0 \<le> n \<Longrightarrow> digitsVal (showInt n) = n"
proof (induction n rule: showInt.induct)
  case (1 n)
  have "digitsVal [digitChar d] = d" if "0 \<le> d" "d < 10" for d
    using that by (simp add: digitsVal_def digitChar_def)
  moreover have "of_char (digitChar (n mod 10)) - 48 = n mod 10"
    by (simp add: digitChar_def)
  ultimately show ?case
    using 1 by (cases "n < 10") (simp_all add: showInt.simps [of n] digitsVal_snoc)
qed

lemma isDigit_showInt: "0 \<le> n \<Longrightarrow> c \<in> set (showInt n) \<Longrightarrow> isDigit c"
proof (induction n rule: showInt.induct)
  case (1 n)
  then show ?case
    by (cases "n < 10") (auto simp: showInt.simps [of n] isDigit_digitChar)
qed

lemma showInt_nonempty: "showInt n \<noteq> []"
  by (simp add: showInt.simps)

text \<open>No leading zero but in the number zero itself.\<close>

lemma showInt_leading: "0 < n \<Longrightarrow> hd (showInt n) \<noteq> CHR ''0''"
proof (induction n rule: showInt.induct)
  case (1 n)
  have "digitChar n \<noteq> CHR ''0''" if "n < 10"
  proof
    assume "digitChar n = CHR ''0''"
    then have "(of_char (digitChar n) :: int) = of_char (CHR ''0'')" by simp
    then show False using that 1(2) by (simp add: digitChar_def)
  qed
  then show ?case using 1 by (cases "n < 10") (simp_all add: showInt.simps [of n] showInt_nonempty)
qed

lemma length_showInt: "0 \<le> n \<Longrightarrow> n < 10 ^ k \<Longrightarrow> 0 < k \<Longrightarrow> length (showInt n) \<le> k"
proof (induction n arbitrary: k rule: showInt.induct)
  case (1 n)
  show ?case
  proof (cases "n < 10")
    case True
    then show ?thesis using 1(4) by (simp add: showInt.simps [of n])
  next
    case False
    obtain m where m: "k = Suc m" using 1(4) by (cases k) simp_all
    have "m \<noteq> 0" using False 1(3) m by (intro notI) simp
    then have k: "k = Suc m" "0 < m" using m by simp_all
    have "n div 10 < 10 ^ m" using 1(3) k(1) by (simp add: div_less_iff_less_mult mult.commute)
    then have "length (showInt (n div 10)) \<le> m" using 1(1) [OF False] 1(2) k(2) by simp
    then show ?thesis using False k by (simp add: showInt.simps [of n])
  qed
qed

lemma strip_zeros: "rev (dropWhile (\<lambda>c. c = z) (rev s)) @ replicate (length s - length (rev (dropWhile (\<lambda>c. c = z) (rev s)))) z = s"
proof (induction s rule: rev_induct)
  case (snoc x xs)
  have "length (dropWhile (\<lambda>c. c = z) (rev xs)) \<le> length xs"
    using length_dropWhile_le [of "\<lambda>c. c = z" "rev xs"] by simp
  then have "Suc (length xs) - length (dropWhile (\<lambda>c. c = z) (rev xs)) = Suc (length xs - length (dropWhile (\<lambda>c. c = z) (rev xs)))"
    by simp
  then show ?case using snoc.IH
    by (auto simp: replicate_append_same [symmetric] simp flip: append_assoc)
qed simp

lemma showRat_pos_int:
  assumes "0 < n" and "n < 10 ^ 21"
  shows "showRat (of_int n) = showInt n"
proof -
  let ?ds = "showInt n"
  let ?s = "rev (dropWhile (\<lambda>c. c = CHR ''0'') (rev ?ds))"
  have "length ?s \<le> length ?ds" using length_dropWhile_le [of "\<lambda>c. c = CHR ''0''" "rev ?ds"] by simp
  moreover have "length ?ds \<le> 21" using assms by (intro length_showInt) simp_all
  ultimately have "showDecimal ?s (int (length ?ds)) = ?ds"
    using strip_zeros [where s = ?ds and z = "CHR ''0''"] by (simp add: showDecimal_def Let_def nat_diff_distrib)
  moreover have "quotient_of \<bar>of_int n\<bar> = (n, 1)"
    using assms(1) by (simp add: Fract_of_int_eq [symmetric] quotient_of_Fract)
  ultimately show ?thesis using assms(1) by (simp add: showRat_def decScale.simps Let_def)
qed

lemma showRat_neg: "0 < q \<Longrightarrow> showRat (- q) = CHR ''-'' # showRat q"
  by (simp add: showRat_def Let_def split: prod.splits)

lemma readDecimal_digits:
  assumes "ds \<noteq> []" and "\<forall>c \<in> set ds. isDigit c"
  shows "readDecimal ds = Some (of_int (digitsVal ds))"
proof -
  have tw: "takeWhile isDigit ds = ds" "dropWhile isDigit ds = []" using assms(2) by simp_all
  show ?thesis using assms(1) by (simp add: readDecimal_def Let_def Fract_of_int_eq tw)
qed

lemma jsonNumber_digits:
  assumes "ds \<noteq> []" and "\<forall>c \<in> set ds. isDigit c" and "length ds = 1 \<or> hd ds \<noteq> CHR ''0''"
    and "rat_of_int (digitsVal ds) < overflowLimit"
  shows "jsonNumber ds = Some (Fin (of_int (digitsVal ds)))"
    and "jsonNumber (CHR ''-'' # ds) = Some (Fin (- of_int (digitsVal ds)))"
proof -
  have tw: "takeWhile isDigit ds = ds" "dropWhile isDigit ds = []" using assms(2) by simp_all
  have "isDigit (hd ds)" using assms(1,2) by simp
  moreover have "\<not> isDigit (CHR ''-'')" by code_simp
  ultimately have "hd ds \<noteq> CHR ''-''" by metis
  then show "jsonNumber ds = Some (Fin (of_int (digitsVal ds)))"
    using assms by (auto simp: jsonNumber_def Let_def tw readDecimal_digits)
  show "jsonNumber (CHR ''-'' # ds) = Some (Fin (- of_int (digitsVal ds)))"
    using assms by (auto simp: jsonNumber_def Let_def tw readDecimal_digits)
qed

lemma digits_below_overflow: "n < 10 ^ 21 \<Longrightarrow> rat_of_int n < overflowLimit"
proof -
  assume "n < 10 ^ 21"
  then have "rat_of_int n < rat_of_int (10 ^ 21)" by (simp only: of_int_less_iff)
  also have "\<dots> < overflowLimit" by (simp add: overflowLimit_def)
  finally show ?thesis .
qed

lemma numberReadable_pos:
  assumes "0 < n" and "n < 10 ^ 21"
  shows "numberReadable (Fin (of_int n))" and "numberReadable (Fin (of_int (- n)))"
proof -
  have digit: "\<forall>c \<in> set (showInt n). isDigit c" using isDigit_showInt [of n] assms(1) by simp
  have num: "\<forall>c \<in> set (CHR ''-'' # showInt n). isNumberChar c" using digit by (simp add: isNumberChar_def)
  note dj = jsonNumber_digits [OF showInt_nonempty digit, unfolded digitsVal_showInt [OF less_imp_le [OF assms(1)]]]
  have reads: "jsonNumber (showInt n) = Some (Fin (of_int n))" "jsonNumber (CHR ''-'' # showInt n) = Some (Fin (- of_int n))"
    using dj showInt_leading [OF assms(1)] digits_below_overflow [OF assms(2)] by simp_all
  show "numberReadable (Fin (of_int n))"
    using num reads(1) by (simp add: numberReadable_def isFinite_def numToString_def showRat_pos_int [OF assms])
  have "showRat (- of_int n) = CHR ''-'' # showInt n"
    using assms showRat_neg [of "of_int n"] by (simp add: showRat_pos_int)
  then show "numberReadable (Fin (of_int (- n)))"
    using num reads(2) by (simp add: numberReadable_def isFinite_def numToString_def)
qed

lemma numberReadable_int: "\<bar>n\<bar> < 10 ^ 21 \<Longrightarrow> numberReadable (Fin (of_int n))"
proof -
  assume n: "\<bar>n\<bar> < 10 ^ 21"
  have zero: "numberReadable (Fin 0)" by code_simp
  consider "n = 0" | "0 < n" | "0 < - n" by linarith
  then show ?thesis
  proof cases
    case 1
    then show ?thesis using zero by simp
  next
    case 2
    then show ?thesis using n numberReadable_pos(1) [of n] by simp
  next
    case 3
    then show ?thesis using n numberReadable_pos(2) [of "- n"] by simp
  qed
qed

section \<open>Values\<close>

fun plainJson :: "jsval \<Rightarrow> bool" where
  "plainJson JNull = True"
| "plainJson (JBool b) = True"
| "plainJson (JNum x) = numberReadable x"
| "plainJson (JStr s) = True"
| "plainJson (JArr vs) = (\<forall>v \<in> set vs. plainJson v)"
| "plainJson (JObj kvs) = (distinct (map fst kvs) \<and> (\<forall>v \<in> snd ` set kvs. plainJson v))"
| "plainJson _ = False"

text \<open>The first character of a text decides what the reader does.\<close>

lemma numToString_nonempty: "numberReadable x \<Longrightarrow> numToString x \<noteq> []"
  by (auto simp: numberReadable_def jsonNumber_def)

lemma stringify_first:
  assumes "plainJson v"
  shows "\<exists>c t. stringify v = c # t \<and> \<not> isJsonSpace c \<and> c \<noteq> CHR '']'' \<and> c \<noteq> CHR ''}''"
proof (cases v)
  case (JNum x)
  then have x: "numberReadable x" using assms by simp
  then obtain c t where t: "numToString x = c # t" using numToString_nonempty by (cases "numToString x") auto
  then have "isNumberChar c" using x by (simp add: numberReadable_def)
  moreover have "\<not> isNumberChar d" if "isJsonSpace d \<or> d = CHR '']'' \<or> d = CHR ''}''" for d
  proof -
    have "\<not> isNumberChar (CHR '' '')" "\<not> isNumberChar (CHR 0x09)" "\<not> isNumberChar (CHR 0x0A)" "\<not> isNumberChar (CHR 0x0D)"
      "\<not> isNumberChar (CHR '']'')" "\<not> isNumberChar (CHR ''}'')" by code_simp+
    then show ?thesis using that by (auto simp: isJsonSpace_def)
  qed
  ultimately show ?thesis using JNum t x by (auto simp: numberReadable_def)
qed (use assms in \<open>auto simp: quoteString_def isJsonSpace_def\<close>)

lemma skipSpace_stringify: "plainJson v \<Longrightarrow> skipSpace (stringify v @ r) = stringify v @ r"
  using stringify_first [of v] by (auto simp: skipSpace_def)

lemma takeWhile_dropWhile_number:
  assumes "\<forall>c \<in> set s. isNumberChar c" and "r = [] \<or> \<not> isNumberChar (hd r)"
  shows "takeWhile isNumberChar (s @ r) = s" and "dropWhile isNumberChar (s @ r) = r"
  using assms by (cases r; simp add: takeWhile_append dropWhile_append)+

lemma parseValue_number:
  assumes "numberReadable x" and "r = [] \<or> \<not> isNumberChar (hd r)"
  shows "parseValue (Suc n) (numToString x @ r) = Some (JNum x, r)"
proof -
  obtain c t where t: "numToString x = c # t" using numToString_nonempty [OF assms(1)] by (cases "numToString x") auto
  have c: "isNumberChar c" using assms(1) t by (simp add: numberReadable_def)
  have no: "\<not> isNumberChar (CHR 0x22)" "\<not> isNumberChar (CHR ''['')" "\<not> isNumberChar (CHR ''{'')" "\<not> isNumberChar (CHR ''n'')"
    "\<not> isNumberChar (CHR ''t'')" "\<not> isNumberChar (CHR ''f'')" by code_simp+
  have first: "c \<noteq> CHR 0x22" "c \<noteq> CHR ''[''" "c \<noteq> CHR ''{''" "c \<noteq> CHR ''n''" "c \<noteq> CHR ''t''" "c \<noteq> CHR ''f''"
    using c no by metis+
  have skip: "skipSpace (numToString x @ r) = c # t @ r"
    using skipSpace_stringify [of "JNum x" r] assms(1) t by (simp add: numberReadable_def)
  have tw: "takeWhile isNumberChar (c # t @ r) = c # t" "dropWhile isNumberChar (c # t @ r) = r"
    using takeWhile_dropWhile_number [of "c # t" r] assms t by (simp_all add: numberReadable_def)
  have "jsonNumber (c # t) = Some x" using assms(1) t by (simp add: numberReadable_def)
  then show ?thesis
    unfolding parseValue.simps(2) skip list.case
    using first tw by (simp add: startsWith_def)
qed

lemma skipSpace_cons: "\<not> isJsonSpace c \<Longrightarrow> skipSpace (c # t) = c # t"
  by (simp add: skipSpace_def)

lemma not_space: "\<not> isJsonSpace (CHR 0x22)" "\<not> isJsonSpace (CHR '','')" "\<not> isJsonSpace (CHR '':'')"
  "\<not> isJsonSpace (CHR '']'')" "\<not> isJsonSpace (CHR ''}'')" "\<not> isJsonSpace (CHR ''['')" "\<not> isJsonSpace (CHR ''{'')"
  "\<not> isJsonSpace (CHR ''n'')" "\<not> isJsonSpace (CHR ''t'')" "\<not> isJsonSpace (CHR ''f'')"
  by code_simp+

lemma not_number: "\<not> isNumberChar (CHR '','')" "\<not> isNumberChar (CHR '']'')" "\<not> isNumberChar (CHR ''}'')"
  by code_simp+

text \<open>A text stands for a value when the reader returns the value, whatever follows the text.\<close>

definition reads :: "nat \<Rightarrow> string \<Rightarrow> jsval \<Rightarrow> bool" where
  "reads n t v \<longleftrightarrow> (\<forall>r. (r = [] \<or> \<not> isNumberChar (hd r)) \<longrightarrow> parseValue n (t @ r) = Some (v, r))"

lemma readsD: "reads n t v \<Longrightarrow> r = [] \<or> \<not> isNumberChar (hd r) \<Longrightarrow> parseValue n (t @ r) = Some (v, r)"
  unfolding reads_def by blast

text \<open>White space is skipped before a value, an element and a member; \<open>sp\<close> is white space in what follows.\<close>

abbreviation spaces :: "string \<Rightarrow> bool" where
  "spaces sp \<equiv> (\<forall>c \<in> set sp. isJsonSpace c)"

lemma skipSpace_spaces: "spaces sp \<Longrightarrow> skipSpace (sp @ s) = skipSpace s"
  by (simp add: skipSpace_def dropWhile_append2)

lemma parse_spaces:
  assumes "spaces sp"
  shows "parseValue n (sp @ s) = parseValue n s" and "parseElements n (sp @ s) = parseElements n s"
    and "parseMembers n acc (sp @ s) = parseMembers n acc s"
proof -
  show v: "parseValue n (sp @ s) = parseValue n s" for n using assms by (cases n) (simp_all add: skipSpace_spaces)
  show "parseElements n (sp @ s) = parseElements n s" by (cases n) (simp_all add: v)
  show "parseMembers n acc (sp @ s) = parseMembers n acc s" using assms by (cases n) (simp_all add: skipSpace_spaces)
qed

lemma not_number_space: "isJsonSpace c \<Longrightarrow> \<not> isNumberChar c"
proof -
  have "\<not> isNumberChar (CHR '' '')" "\<not> isNumberChar (CHR 0x09)" "\<not> isNumberChar (CHR 0x0A)" "\<not> isNumberChar (CHR 0x0D)"
    by code_simp+
  then show "isJsonSpace c \<Longrightarrow> ?thesis" by (auto simp: isJsonSpace_def)
qed

lemma hd_after: "spaces sp \<Longrightarrow> c \<in> {CHR '','', CHR '']'', CHR ''}''} \<Longrightarrow> \<not> isNumberChar (hd (sp @ c # r))"
  by (cases sp) (auto simp: not_number not_number_space)

lemma joinWith_Cons: "ys \<noteq> [] \<Longrightarrow> joinWith sep (x # ys) = x @ sep @ joinWith sep ys"
  by (cases ys) simp_all

lemma joinWith_first: "xs \<noteq> [] \<Longrightarrow> hd xs = c # t \<Longrightarrow> \<exists>u. joinWith sep xs = c # u"
  by (cases xs; cases "tl xs") auto

lemma parseElements_join:
  assumes "tvs \<noteq> []" and "spaces sp" and "spaces sp'" and "length (joinWith (CHR '','' # sp) (map fst tvs)) + 1 < n"
    and "\<And>t v m. (t, v) \<in> set tvs \<Longrightarrow> length t < m \<Longrightarrow> reads m t v"
  shows "parseElements n (joinWith (CHR '','' # sp) (map fst tvs) @ sp' @ CHR '']'' # r) = Some (map snd tvs, r)"
  using assms
proof (induction tvs arbitrary: n)
  case (Cons tv tvs)
  obtain t v where tv: "tv = (t, v)" by fastforce
  obtain m where n: "n = Suc m" using Cons.prems(4) by (cases n) simp_all
  show ?case
  proof (cases "tvs = []")
    case True
    have "parseValue m (t @ sp' @ CHR '']'' # r) = Some (v, sp' @ CHR '']'' # r)"
      using Cons.prems(3-5) n True tv hd_after by (intro readsD) simp_all
    then show ?thesis using True n tv Cons.prems(3) by (simp add: skipSpace_spaces skipSpace_cons not_space)
  next
    case False
    let ?rest = "joinWith (CHR '','' # sp) (map fst tvs) @ sp' @ CHR '']'' # r"
    have len: "length t + length (joinWith (CHR '','' # sp) (map fst tvs)) + 1 < m"
      using Cons.prems(4) n False tv by (simp add: joinWith_Cons)
    have "parseValue m (t @ CHR '','' # sp @ ?rest) = Some (v, CHR '','' # sp @ ?rest)"
      using Cons.prems(5) [of t v m] tv len by (intro readsD) (simp_all add: not_number)
    moreover have "parseElements m ?rest = Some (map snd tvs, r)"
      using Cons.prems False len by (intro Cons.IH) auto
    ultimately show ?thesis
      using n False tv Cons.prems(2) by (simp add: skipSpace_cons not_space joinWith_Cons parse_spaces)
  qed
qed simp

lemma parseMembers_step:
  assumes "reads m t v" and "c \<in> {CHR '','', CHR ''}''}" and "spaces sp" and "spaces sp'"
  shows "parseMembers (Suc m) acc (quoteString k @ CHR '':'' # sp @ t @ sp' @ c # w) =
    (if c = CHR ''}'' then Some (mapSet k v acc, w) else parseMembers m (mapSet k v acc) w)"
proof -
  have "parseValue m (sp @ t @ sp' @ c # w) = Some (v, sp' @ c # w)"
    using assms hd_after [of sp' c w] readsD [OF assms(1), of "sp' @ c # w"] by (auto simp: parse_spaces)
  moreover have "skipSpace (quoteString k @ CHR '':'' # sp @ t @ sp' @ c # w) =
      CHR 0x22 # concat (map quoteChar k) @ CHR 0x22 # CHR '':'' # sp @ t @ sp' @ c # w"
    by (simp add: quoteString_def skipSpace_cons not_space)
  moreover have "skipSpace (sp' @ c # w) = c # w"
    using assms(2,4) by (auto simp: skipSpace_spaces skipSpace_cons not_space)
  ultimately show ?thesis
    using assms(2) by (auto simp: parseChars_quote skipSpace_cons not_space)
qed

abbreviation memberText :: "string \<Rightarrow> string \<times> string \<Rightarrow> string" where
  "memberText sp \<equiv> \<lambda>(k, t). quoteString k @ CHR '':'' # sp @ t"

lemma parseMembers_join:
  assumes "kts \<noteq> []" and "spaces sp" and "spaces sp'" and "spaces sp2"
    and "length (joinWith (CHR '','' # sp) (map (memberText sp2) kts)) + 1 < n"
    and "list_all2 (\<lambda>(k, t) (k', v). k = k' \<and> (\<forall>m. length t < m \<longrightarrow> reads m t v)) kts kvs"
    and "distinct (map fst (acc @ kvs))"
  shows "parseMembers n acc (joinWith (CHR '','' # sp) (map (memberText sp2) kts) @ sp' @ CHR ''}'' # r) = Some (acc @ kvs, r)"
  using assms
proof (induction kts arbitrary: n acc kvs)
  case (Cons kt kts)
  obtain k t v kvs' where kv: "kt = (k, t)" "kvs = (k, v) # kvs'" and v: "\<And>m. length t < m \<Longrightarrow> reads m t v"
    and rest: "list_all2 (\<lambda>(k, t) (k', v). k = k' \<and> (\<forall>m. length t < m \<longrightarrow> reads m t v)) kts kvs'"
    using Cons.prems(6) by (cases kt; cases kvs) auto
  obtain m where n: "n = Suc m" using Cons.prems(5) by (cases n) simp_all
  have fresh: "mapSet k v acc = acc @ [(k, v)]" using Cons.prems(7) kv by (intro mapSet_fresh) auto
  show ?case
  proof (cases "kts = []")
    case True
    have "reads m t v" using Cons.prems(5) v n True kv by simp
    then show ?thesis
      using parseMembers_step [of m t v "CHR ''}''" sp2 sp' acc k r] True n kv fresh rest Cons.prems(3,4) by simp
  next
    case False
    have len: "length t + length (joinWith (CHR '','' # sp) (map (memberText sp2) kts)) + 1 < m"
      using Cons.prems(5) n False kv by (simp add: joinWith_Cons)
    have "parseMembers m (acc @ [(k, v)]) (joinWith (CHR '','' # sp) (map (memberText sp2) kts) @ sp' @ CHR ''}'' # r) =
        Some ((acc @ [(k, v)]) @ kvs', r)"
      using Cons.prems False len n kv rest by (intro Cons.IH) auto
    moreover have "reads m t v" using v len by simp
    ultimately show ?thesis
      using parseMembers_step [of m t v "CHR '',''" sp2 "[]" acc k] False n kv fresh Cons.prems(2,4)
      by (simp add: joinWith_Cons parse_spaces)
  qed
qed simp

section \<open>Whole documents\<close>

lemma reads_array:
  assumes "\<And>v. v \<in> set vs \<Longrightarrow> plainJson v \<and> (\<exists>c u. f v = c # u \<and> \<not> isJsonSpace c \<and> c \<noteq> CHR '']'')"
    and "\<And>v m. v \<in> set vs \<Longrightarrow> length (f v) < m \<Longrightarrow> reads m (f v) v"
    and "spaces sp0" and "spaces sp" and "spaces sp'" and "vs \<noteq> []"
    and "length (joinWith (CHR '','' # sp) (map f vs)) + 2 < n"
  shows "reads n (CHR ''['' # sp0 @ joinWith (CHR '','' # sp) (map f vs) @ sp' @ '']'') (JArr vs)"
proof -
  obtain m where n: "n = Suc m" using assms(7) by (cases n) simp_all
  have elements: "parseElements m (joinWith (CHR '','' # sp) (map f vs) @ sp' @ CHR '']'' # r) = Some (vs, r)" for r
    using parseElements_join [of "map (\<lambda>v. (f v, v)) vs" sp sp' m r] assms n by (auto simp: comp_def)
  obtain c t where c: "hd (map f vs) = c # t" "\<not> isJsonSpace c" "c \<noteq> CHR '']''"
    using assms(1) [of "hd vs"] assms(6) by (auto simp: hd_map)
  then obtain u where cu: "joinWith (CHR '','' # sp) (map f vs) = c # u" "\<not> isJsonSpace c" "c \<noteq> CHR '']''"
    using joinWith_first [OF _ c(1)] assms(6) by auto
  show ?thesis
    unfolding reads_def n using elements assms(3) cu
    by (auto simp: skipSpace_cons not_space startsWith_def parse_spaces skipSpace_spaces)
qed

lemma reads_object:
  assumes "\<And>v m. v \<in> snd ` set kvs \<Longrightarrow> length (f v) < m \<Longrightarrow> reads m (f v) v"
    and "spaces sp0" and "spaces sp" and "spaces sp'" and "spaces sp2" and "kvs \<noteq> []" and "distinct (map fst kvs)"
    and "length (joinWith (CHR '','' # sp) (map (memberText sp2) (map (\<lambda>(k, v). (k, f v)) kvs))) + 2 < n"
  shows "reads n (CHR ''{'' # sp0 @ joinWith (CHR '','' # sp) (map (memberText sp2) (map (\<lambda>(k, v). (k, f v)) kvs)) @ sp' @ ''}'')
    (JObj kvs)"
proof -
  let ?kts = "map (\<lambda>(k, v). (k, f v)) kvs"
  obtain m where n: "n = Suc m" using assms(8) by (cases n) simp_all
  have "list_all2 (\<lambda>(k, t) (k', v). k = k' \<and> (\<forall>m. length t < m \<longrightarrow> reads m t v)) ?kts kvs"
    using assms(1) by (auto simp: list_all2_map1 list_all2_same image_iff split: prod.splits) force
  then have members: "parseMembers m [] (joinWith (CHR '','' # sp) (map (memberText sp2) ?kts) @ sp' @ CHR ''}'' # r) = Some (kvs, r)" for r
    using parseMembers_join [of ?kts sp sp' sp2 m kvs "[]" r] assms n by simp
  obtain u where u: "joinWith (CHR '','' # sp) (map (memberText sp2) ?kts) = CHR 0x22 # u"
    using joinWith_first [of "map (memberText sp2) ?kts" "CHR 0x22"] assms(6)
    by (cases kvs) (auto simp: quoteString_def split: prod.splits simp del: joinWith.simps)
  show ?thesis
    unfolding reads_def n using members assms(2) u
    by (auto simp: skipSpace_cons not_space startsWith_def parse_spaces skipSpace_spaces)
qed

lemma reads_empty: "reads (Suc n) ''[]'' (JArr [])" "reads (Suc n) ''{}'' (JObj [])"
  by (simp_all add: reads_def skipSpace_cons not_space startsWith_def)

lemma reads_atom:
  assumes "plainJson v" and "\<nexists>vs. v = JArr vs" and "\<nexists>kvs. v = JObj kvs"
  shows "reads (Suc n) (stringify v) v"
proof (cases v)
  case (JNum x)
  then have "stringify v = numToString x" "numberReadable x" using assms(1) by (simp_all add: numberReadable_def)
  then show ?thesis unfolding reads_def JNum using parseValue_number [of x] by metis
qed (use assms in \<open>auto simp: reads_def quoteString_def skipSpace_cons not_space parseChars_quote startsWith_def\<close>)

lemma stringify_nonempty: "plainJson v \<Longrightarrow> stringify v \<noteq> []"
  using stringify_first by fastforce

lemma stringify_plain_array: "plainJson (JArr vs) \<Longrightarrow> stringify (JArr vs) = ''['' @ joinWith '','' (map stringify vs) @ '']''"
proof -
  assume "plainJson (JArr vs)"
  then have "map (\<lambda>v. if v = JUndef then ''null'' else stringify v) vs = map stringify vs" by auto
  then show ?thesis by (simp only: stringify.simps)
qed

lemma filter_texts:
  "(\<And>v. v \<in> snd ` set kvs \<Longrightarrow> f v \<noteq> []) \<Longrightarrow> filter (\<lambda>(k, t). t \<noteq> []) (map (\<lambda>(k, v). (k, f v)) kvs) = map (\<lambda>(k, v). (k, f v)) kvs"
  by (induction kvs) auto

lemma reads_stringify: "plainJson v \<Longrightarrow> length (stringify v) < n \<Longrightarrow> reads n (stringify v) v"
proof (induction v arbitrary: n)
  case (JArr vs)
  show ?case
  proof (cases "vs = []")
    case True
    then show ?thesis using JArr.prems(2) reads_empty(1) by (cases n) simp_all
  next
    case False
    have first: "\<exists>c u. stringify v = c # u \<and> \<not> isJsonSpace c \<and> c \<noteq> CHR '']''" if "v \<in> set vs" for v
      using stringify_first [of v] JArr.prems(1) that by auto
    have written: "stringify (JArr vs) = CHR ''['' # [] @ joinWith (CHR '','' # []) (map stringify vs) @ [] @ '']''"
      using stringify_plain_array [OF JArr.prems(1)] by simp
    have "length (joinWith (CHR '','' # []) (map stringify vs)) + 2 < n" using JArr.prems(2) unfolding written by simp
    then show ?thesis
      unfolding written using False JArr.IH JArr.prems(1) first by (intro reads_array) simp_all
  qed
next
  case (JObj kvs)
  show ?case
  proof (cases "kvs = []")
    case True
    then show ?thesis using JObj.prems(2) reads_empty(2) by (cases n) simp_all
  next
    case False
    have member: "reads m (stringify v) v" if v: "v \<in> snd ` set kvs" "length (stringify v) < m" for v m
    proof -
      obtain k where k: "(k, v) \<in> set kvs" using v(1) by force
      show ?thesis by (rule JObj.IH [of "(k, v)" v]) (use k v JObj.prems(1) in auto)
    qed
    have "filter (\<lambda>(k, t). t \<noteq> []) (map (\<lambda>(k, v). (k, stringify v)) kvs) = map (\<lambda>(k, v). (k, stringify v)) kvs"
      using JObj.prems(1) stringify_nonempty by (intro filter_texts) auto
    then have written: "stringify (JObj kvs) =
        CHR ''{'' # [] @ joinWith (CHR '','' # []) (map (memberText []) (map (\<lambda>(k, v). (k, stringify v)) kvs)) @ [] @ ''}''"
      by simp
    have "length (joinWith (CHR '','' # []) (map (memberText []) (map (\<lambda>(k, v). (k, stringify v)) kvs))) + 2 < n"
      using JObj.prems(2) unfolding written by simp
    then show ?thesis
      unfolding written using member JObj.prems(1) False by (intro reads_object) simp_all
  qed
next
  case (JNum x)
  then show ?case using reads_atom [of "JNum x"] by (cases n) simp_all
next
  case (JStr s)
  then show ?case using reads_atom [of "JStr s"] by (cases n) simp_all
next
  case JNull
  then show ?case using reads_atom [of JNull] by (cases n) simp_all
next
  case (JBool b)
  then show ?case using reads_atom [of "JBool b"] by (cases n) simp_all
qed simp_all

theorem parseJson_stringify: "plainJson v \<Longrightarrow> parseJson (stringify v) = Some v"
  using readsD [OF reads_stringify [of v "length (stringify v) + 1"], of "[]"]
  by (simp add: parseJson_def skipSpace_def)

text \<open>The indented form, which the documents of the remote store have.\<close>

lemma spaces_newline: "spaces (newlineAt k)"
  by (simp add: newlineAt_def isJsonSpace_def)

lemma pretty_array:
  assumes "plainJson (JArr vs)" and "vs \<noteq> []"
  shows "prettyAt k (JArr vs) = CHR ''['' # newlineAt (k + 2) @
    joinWith (CHR '','' # newlineAt (k + 2)) (map (prettyAt (k + 2)) vs) @ newlineAt k @ '']''"
proof -
  have "map (\<lambda>v. if v = JUndef then ''null'' else prettyAt (k + 2) v) vs = map (prettyAt (k + 2)) vs"
    using assms(1) by auto
  then show ?thesis using assms(2) by (simp only: prettyAt.simps if_False append.simps)
qed

lemma pretty_first:
  assumes "plainJson v"
  shows "\<exists>c t. prettyAt k v = c # t \<and> \<not> isJsonSpace c \<and> c \<noteq> CHR '']'' \<and> c \<noteq> CHR ''}''"
proof (cases v)
  case (JArr vs)
  then show ?thesis by (simp add: isJsonSpace_def)
next
  case (JObj kvs)
  then show ?thesis by (simp add: isJsonSpace_def Let_def)
qed (use stringify_first [OF assms] assms in auto)

lemma pretty_object:
  assumes "plainJson (JObj kvs)" and "kvs \<noteq> []"
  shows "prettyAt k (JObj kvs) = CHR ''{'' # newlineAt (k + 2) @
    joinWith (CHR '','' # newlineAt (k + 2)) (map (memberText '' '') (map (\<lambda>(q, v). (q, prettyAt (k + 2) v)) kvs)) @ newlineAt k @ ''}''"
proof -
  have "prettyAt (k + 2) v \<noteq> []" if "v \<in> snd ` set kvs" for v
    using pretty_first [of v "k + 2"] assms(1) that by auto
  then have "filter (\<lambda>(q, t). t \<noteq> []) (map (\<lambda>(q, v). (q, prettyAt (k + 2) v)) kvs) = map (\<lambda>(q, v). (q, prettyAt (k + 2) v)) kvs"
    by (rule filter_texts)
  then show ?thesis using assms(2) by (simp only: prettyAt.simps Let_def) simp
qed

lemma reads_pretty: "plainJson v \<Longrightarrow> length (prettyAt k v) < n \<Longrightarrow> reads n (prettyAt k v) v"
proof (induction v arbitrary: n k)
  case (JArr vs)
  show ?case
  proof (cases "vs = []")
    case True
    then show ?thesis using JArr.prems(2) reads_empty(1) by (cases n) simp_all
  next
    case False
    note written = pretty_array [OF JArr.prems(1) False]
    have first: "\<exists>c u. prettyAt (k + 2) v = c # u \<and> \<not> isJsonSpace c \<and> c \<noteq> CHR '']''" if "v \<in> set vs" for v
      using pretty_first [of v "k + 2"] JArr.prems(1) that by auto
    have "length (joinWith (CHR '','' # newlineAt (k + 2)) (map (prettyAt (k + 2)) vs)) + 2 < n"
      using JArr.prems(2) unfolding written by simp
    then show ?thesis
      unfolding written using False JArr.IH JArr.prems(1) first spaces_newline by (intro reads_array) simp_all
  qed
next
  case (JObj kvs)
  show ?case
  proof (cases "kvs = []")
    case True
    then show ?thesis using JObj.prems(2) reads_empty(2) by (cases n) simp_all
  next
    case False
    note written = pretty_object [OF JObj.prems(1) False]
    have member: "reads m (prettyAt (k + 2) v) v" if v: "v \<in> snd ` set kvs" "length (prettyAt (k + 2) v) < m" for v m
    proof -
      obtain q where q: "(q, v) \<in> set kvs" using v(1) by force
      show ?thesis by (rule JObj.IH [of "(q, v)" v]) (use q v JObj.prems(1) in auto)
    qed
    have "length (joinWith (CHR '','' # newlineAt (k + 2)) (map (memberText '' '') (map (\<lambda>(q, v). (q, prettyAt (k + 2) v)) kvs))) + 2 < n"
      using JObj.prems(2) unfolding written by simp
    then show ?thesis
      unfolding written using member JObj.prems(1) False spaces_newline
      by (intro reads_object) (simp_all add: isJsonSpace_def)
  qed
next
  case (JNum x)
  then show ?case using reads_atom [of "JNum x"] by (cases n) simp_all
next
  case (JStr s)
  then show ?case using reads_atom [of "JStr s"] by (cases n) simp_all
next
  case JNull
  then show ?case using reads_atom [of JNull] by (cases n) simp_all
next
  case (JBool b)
  then show ?case using reads_atom [of "JBool b"] by (cases n) simp_all
qed simp_all

theorem parseJson_pretty: "plainJson v \<Longrightarrow> spaces sp \<Longrightarrow> parseJson (prettyAt k v @ sp) = Some v"
proof -
  assume v: "plainJson v" and sp: "spaces sp"
  have "sp = [] \<or> \<not> isNumberChar (hd sp)" using sp by (cases sp) (auto simp: not_number_space)
  then have "parseValue (length (prettyAt k v @ sp) + 1) (prettyAt k v @ sp) = Some (v, sp)"
    using reads_pretty [OF v] by (intro readsD) simp_all
  then show ?thesis using skipSpace_spaces [OF sp, of "[]"] by (simp add: parseJson_def skipSpace_def)
qed

end
