(* ===== verification/Sync_Worker.thy ===== *)
theory Sync_Worker
  imports Auto_Sync JSON_Roundtrip Operation_Journal
begin

text \<open>
  The workers between the scheduler and the synchronization services:
  \<open>libs/sync/core/src/lib/change-aware-sync-worker.ts\<close>, which skips a synchronization when neither the journal nor
  the remote store changed since a checkpoint, and \<open>libs/sync/core/src/lib/library-sync-coordinator.ts\<close>, which
  runs the services in their order. The services, the journal, the selected provider and the remote store are interfaces: their calls are
  parameters on a world \<open>'w\<close> that they, other devices and the reader may change between two calls. The signal
  that aborts a synchronization is a function of the world. A worker that is already running is shared by its
  callers; the model has the one run. Of \<open>Promise.all\<close> all calls run, in the order of the list, and the first
  failure of the list is reported.
\<close>

section \<open>Calls on the world\<close>

text \<open>Why a synchronization fails: it is aborted, a targeted one gets an operation that is not of the reading
  state, or one of the parameters fails.\<close>

datatype SyncFailure = AbortError | NotReadingState | Failure string

type_synonym ('s, 'a) call = "'s \<Rightarrow> (SyncFailure + 'a) \<times> 's"

definition thenCall :: "('s, 'a) call \<Rightarrow> ('a \<Rightarrow> ('s, 'b) call) \<Rightarrow> ('s, 'b) call" where
  "thenCall m f s = (case m s of (Inl e, s') \<Rightarrow> (Inl e, s') | (Inr a, s') \<Rightarrow> f a s')"

lemma thenCall_Inr_iff:
  "thenCall m f s = (Inr b, s2) \<longleftrightarrow> (\<exists>a s1. m s = (Inr a, s1) \<and> f a s1 = (Inr b, s2))"
  by (auto simp: thenCall_def split: prod.splits sum.splits)

lemma thenCall_eq: "m s = (Inr a, s') \<Longrightarrow> thenCall m f s = f a s'" "m s = (Inl e, s') \<Longrightarrow> thenCall m f s = (Inl e, s')"
  by (simp_all add: thenCall_def)

record 'w SyncWorkerOptions =
  so_fullReconciliation :: bool
  so_aborted :: "'w \<Rightarrow> bool"

definition throwIfSyncAborted :: "'w SyncWorkerOptions \<Rightarrow> ('w, unit) call" where
  "throwIfSyncAborted options w = ((if so_aborted options w then Inl AbortError else Inr ()), w)"

lemma throwIfSyncAborted_Inr: "throwIfSyncAborted options w = (Inr u, w') \<longleftrightarrow> w' = w \<and> \<not> so_aborted options w"
  by (auto simp: throwIfSyncAborted_def)

type_synonym 'w worker = "'w SyncWorkerOptions \<Rightarrow> ('w, SyncWorkerResult) call"
type_synonym 'w pendingWorker = "SyncOperation list \<Rightarrow> 'w SyncWorkerOptions \<Rightarrow> ('w, SyncWorkerResult) call"

section \<open>The coordinator\<close>

definition EMPTY_SYNC_RESULT :: SyncWorkerResult where
  "EMPTY_SYNC_RESULT = \<lparr>wr_pulled = 0, wr_pushed = 0, wr_conflicts = 0, wr_rejected = 0,
     wr_unchanged = False, wr_maintenancePending = False\<rparr>"

record 'w LibrarySyncWorkers =
  lw_preflight :: "'w worker option"
  lw_schema :: "'w worker"
  lw_logicalBooks :: "'w worker option"
  lw_books :: "'w worker"
  lw_progress :: "'w worker"
  lw_bookmarks :: "'w worker option"
  lw_annotations :: "'w worker option"
  lw_preferences :: "'w worker option"
  lw_cleanup :: "'w worker option"

record LibrarySyncResult =
  lr_total :: SyncWorkerResult
  lr_schema :: SyncWorkerResult
  lr_books :: SyncWorkerResult
  lr_logicalBooks :: SyncWorkerResult
  lr_progress :: SyncWorkerResult
  lr_bookmarks :: SyncWorkerResult
  lr_annotations :: SyncWorkerResult
  lr_preferences :: SyncWorkerResult

definition optionalWorker :: "'w worker option \<Rightarrow> 'w worker" where
  "optionalWorker worker options w =
     (case worker of Some run \<Rightarrow> run options w | None \<Rightarrow> (Inr EMPTY_SYNC_RESULT, w))"

text \<open>\<open>Promise.all\<close> of calls: every call runs.\<close>

fun promiseAll :: "('w, 'a) call list \<Rightarrow> ('w, 'a list) call" where
  "promiseAll [] w = (Inr [], w)"
| "promiseAll (m # ms) w =
     (let (first, w1) = m w; (rest, w2) = promiseAll ms w1
      in ((case first of Inl e \<Rightarrow> Inl e | Inr a \<Rightarrow> (case rest of Inl e \<Rightarrow> Inl e | Inr as \<Rightarrow> Inr (a # as))), w2))"

text \<open>The total of the coordinator: the sum over the services; maintenance is asked for by the logical books only.\<close>

definition totalOf :: "SyncWorkerResult list \<Rightarrow> bool \<Rightarrow> SyncWorkerResult" where
  "totalOf results maintenance =
     \<lparr>wr_pulled = sum_list (map wr_pulled results), wr_pushed = sum_list (map wr_pushed results),
      wr_conflicts = sum_list (map wr_conflicts results), wr_rejected = sum_list (map wr_rejected results),
      wr_unchanged = False, wr_maintenancePending = maintenance\<rparr>"

definition LibrarySyncCoordinator_run :: "'w LibrarySyncWorkers \<Rightarrow> 'w SyncWorkerOptions \<Rightarrow> ('w, LibrarySyncResult) call" where
  "LibrarySyncCoordinator_run workers options =
     thenCall (throwIfSyncAborted options) (\<lambda>_.
     thenCall (optionalWorker (lw_preflight workers) options) (\<lambda>preflight.
     thenCall (throwIfSyncAborted options) (\<lambda>_.
     thenCall (lw_schema workers options) (\<lambda>schema.
     thenCall (throwIfSyncAborted options) (\<lambda>_.
     thenCall (lw_books workers options) (\<lambda>books.
     thenCall (throwIfSyncAborted options) (\<lambda>_.
     thenCall (optionalWorker (lw_logicalBooks workers) options) (\<lambda>logicalBooks.
     thenCall (throwIfSyncAborted options) (\<lambda>_.
     thenCall (promiseAll [lw_progress workers options, optionalWorker (lw_bookmarks workers) options,
       optionalWorker (lw_annotations workers) options, optionalWorker (lw_preferences workers) options]) (\<lambda>results.
     thenCall (throwIfSyncAborted options) (\<lambda>_.
     thenCall (optionalWorker (lw_cleanup workers) options) (\<lambda>cleanup.
     thenCall (throwIfSyncAborted options) (\<lambda>_ w.
       (Inr \<lparr>lr_total = totalOf ([preflight, schema, logicalBooks, books] @ results @ [cleanup]) (wr_maintenancePending logicalBooks),
             lr_schema = schema, lr_books = books, lr_logicalBooks = logicalBooks, lr_progress = results ! 0,
             lr_bookmarks = results ! 1, lr_annotations = results ! 2, lr_preferences = results ! 3\<rparr>, w))))))))))))))"

text \<open>The coordinator as the worker the change-aware worker drives.\<close>

definition coordinatorWorker :: "'w LibrarySyncWorkers \<Rightarrow> 'w worker" where
  "coordinatorWorker workers options = thenCall (LibrarySyncCoordinator_run workers options) (\<lambda>result w. (Inr (lr_total result), w))"

section \<open>Synchronizing the reading state only\<close>

record 'w ReadingStateSyncWorkers =
  rw_progress :: "'w pendingWorker"
  rw_bookmarks :: "'w pendingWorker option"
  rw_annotations :: "'w pendingWorker option"

definition isReadingStateEntity :: "string \<Rightarrow> bool" where
  "isReadingStateEntity entity = (entity = ''progress'' \<or> entity = ''bookmark'' \<or> entity = ''annotation'')"

definition combineWorkerResults :: "SyncWorkerResult list \<Rightarrow> SyncWorkerResult" where
  "combineWorkerResults results = foldl (\<lambda>combined result.
     \<lparr>wr_pulled = wr_pulled combined + wr_pulled result, wr_pushed = wr_pushed combined + wr_pushed result,
      wr_conflicts = wr_conflicts combined + wr_conflicts result, wr_rejected = wr_rejected combined + wr_rejected result,
      wr_unchanged = False, wr_maintenancePending = False\<rparr>) EMPTY_SYNC_RESULT results"

definition emptyCall :: "('w, SyncWorkerResult) call" where
  "emptyCall w = (Inr EMPTY_SYNC_RESULT, w)"

definition ReadingStateSyncCoordinator_run ::
  "'w ReadingStateSyncWorkers \<Rightarrow> SyncOperation list \<Rightarrow> 'w SyncWorkerOptions \<Rightarrow> ('w, SyncWorkerResult) call" where
  "ReadingStateSyncCoordinator_run workers operations options =
     thenCall (throwIfSyncAborted options) (\<lambda>_.
       let entities = jsUnique (map op_entity operations) in
       if \<exists>entity \<in> set entities. \<not> isReadingStateEntity entity then (\<lambda>w. (Inl NotReadingState, w))
       else
         thenCall (promiseAll [
           (if ''progress'' \<in> set entities then rw_progress workers operations options else emptyCall),
           (case rw_bookmarks workers of
              Some run \<Rightarrow> if ''bookmark'' \<in> set entities then run operations options else emptyCall | None \<Rightarrow> emptyCall),
           (case rw_annotations workers of
              Some run \<Rightarrow> if ''annotation'' \<in> set entities then run operations options else emptyCall | None \<Rightarrow> emptyCall)])
         (\<lambda>results. thenCall (throwIfSyncAborted options) (\<lambda>_ w. (Inr (combineWorkerResults results), w))))"

section \<open>The checkpoint store\<close>

definition MAX_STORED_CHECKPOINT_LENGTH :: nat where
  "MAX_STORED_CHECKPOINT_LENGTH = 2048"

definition MAX_REVISION_LENGTH :: nat where
  "MAX_REVISION_LENGTH = 1024"

definition providerKey :: "SyncProviderKind \<Rightarrow> string" where
  "providerKey provider = (case provider of Git \<Rightarrow> ''git'' | Mega \<Rightarrow> ''mega'')"

definition validRevision :: "jsval \<Rightarrow> bool" where
  "validRevision value = (case value of
     JStr s \<Rightarrow> 0 < length s \<and> length s \<le> MAX_REVISION_LENGTH \<and> CHR 0x00 \<notin> set s | _ \<Rightarrow> False)"

definition isStoredSyncCheckpoint :: "jsval \<Rightarrow> bool" where
  "isStoredSyncCheckpoint value =
     (case value of
        JObj _ \<Rightarrow> getProp value ''schemaVersion'' = JInt 6 \<and>
          (getProp value ''git'' = JUndef \<or> validRevision (getProp value ''git'')) \<and>
          (getProp value ''mega'' = JUndef \<or> validRevision (getProp value ''mega''))
      | _ \<Rightarrow> False)"

text \<open>
  What \<open>localStorage\<close> holds under the key of the checkpoint. A missing storage, or one that throws when it is
  read, is \<open>None\<close>; \<open>accepts\<close> tells whether \<open>setItem\<close> takes a text or throws, because the quota is used up.
\<close>

type_synonym storage = "string option option"

definition readCheckpointText :: "storage \<Rightarrow> jsval option" where
  "readCheckpointText storage =
     (case storage of
        Some (Some serialized) \<Rightarrow>
          if serialized = [] \<or> MAX_STORED_CHECKPOINT_LENGTH < length serialized then None
          else Option.bind (parseJson serialized) (\<lambda>value. if isStoredSyncCheckpoint value then Some value else None)
      | _ \<Rightarrow> None)"

definition checkpoint_read :: "storage \<Rightarrow> SyncProviderKind \<Rightarrow> string option" where
  "checkpoint_read storage provider =
     (case readCheckpointText storage of
        None \<Rightarrow> None
      | Some value \<Rightarrow> (case getProp value (providerKey provider) of JStr s \<Rightarrow> Some s | _ \<Rightarrow> None))"

text \<open>\<open>readStored\<close>; \<open>None\<close> when \<open>JSON.parse\<close> throws.\<close>

definition readStored :: "storage \<Rightarrow> (string \<times> jsval) list option" where
  "readStored storage =
     (case storage of
        Some (Some serialized) \<Rightarrow>
          if serialized = [] \<or> MAX_STORED_CHECKPOINT_LENGTH < length serialized then Some [(''schemaVersion'', JInt 6)]
          else (case parseJson serialized of
                  None \<Rightarrow> None
                | Some (JObj kvs) \<Rightarrow> Some (if isStoredSyncCheckpoint (JObj kvs) then kvs else [(''schemaVersion'', JInt 6)])
                | Some _ \<Rightarrow> Some [(''schemaVersion'', JInt 6)])
      | _ \<Rightarrow> Some [(''schemaVersion'', JInt 6)])"

definition updateCheckpoint :: "SyncProviderKind \<Rightarrow> string option \<Rightarrow> (string \<times> jsval) list \<Rightarrow> (string \<times> jsval) list" where
  "updateCheckpoint provider revision current =
     (case revision of
        None \<Rightarrow> mapDelete (providerKey provider) current
      | Some r \<Rightarrow>
          if validRevision (JStr r) then mapSet (providerKey provider) (JStr r) current
          else mapDelete (providerKey provider) current)"

definition checkpoint_write :: "(string \<Rightarrow> bool) \<Rightarrow> storage \<Rightarrow> SyncProviderKind \<Rightarrow> string option \<Rightarrow> storage" where
  "checkpoint_write accepts storage provider revision =
     (case readStored storage of
        None \<Rightarrow> storage
      | Some current \<Rightarrow>
          let serialized = stringify (JObj (updateCheckpoint provider revision current)) in
          (case storage of
             None \<Rightarrow> None
           | Some old \<Rightarrow>
               if MAX_STORED_CHECKPOINT_LENGTH < length serialized then Some None
               else if accepts serialized then Some (Some serialized) else Some old))"

text \<open>The wrappers of the worker; the store never throws here, its methods catch everything themselves.\<close>

definition safeCheckpointRead :: "storage \<Rightarrow> SyncProviderKind \<Rightarrow> string option" where
  "safeCheckpointRead storage provider =
     (case checkpoint_read storage provider of
        Some revision \<Rightarrow> if validRevision (JStr revision) then Some revision else None | None \<Rightarrow> None)"

section \<open>The change-aware worker\<close>

text \<open>What the worker is constructed with, and its state: the world, the checkpoint storage, and
  \<open>readingStateContinuationScope\<close>. The method \<open>destinationRevision\<close> may be missing.\<close>

record 'w WorkerParts =
  wp_delegate :: "'w worker"
  wp_destinationRevision :: "('w, string option) call option"
  wp_pending :: "('w, SyncOperation list) call"
  wp_current :: "'w \<Rightarrow> SyncProviderKind option"
  wp_readingStateWorker :: "'w pendingWorker option"
  wp_accepts :: "string \<Rightarrow> bool"

record 'w WorkerState =
  ws_world :: 'w
  ws_storage :: storage
  ws_scope :: "string option"

definition onWorld :: "('w, 'a) call \<Rightarrow> ('w WorkerState, 'a) call" where
  "onWorld m s = (let (r, w) = m (ws_world s) in (r, s\<lparr>ws_world := w\<rparr>))"

text \<open>A call on the world followed by the test of the signal, which is how every call but those of the delegate ends.\<close>

definition checkedCall :: "'w SyncWorkerOptions \<Rightarrow> ('w, 'a) call \<Rightarrow> ('w WorkerState, 'a) call" where
  "checkedCall options m =
     onWorld (thenCall m (\<lambda>a. thenCall (throwIfSyncAborted options) (\<lambda>_ w. (Inr a, w))))"

definition setScope :: "string option \<Rightarrow> 'w WorkerState \<Rightarrow> 'w WorkerState" where
  "setScope scope s = s\<lparr>ws_scope := scope\<rparr>"

definition safeCheckpointWrite :: "'w WorkerParts \<Rightarrow> SyncProviderKind \<Rightarrow> string option \<Rightarrow> 'w WorkerState \<Rightarrow> 'w WorkerState" where
  "safeCheckpointWrite parts provider revision s =
     s\<lparr>ws_storage := checkpoint_write (wp_accepts parts) (ws_storage s) provider revision\<rparr>"

definition isReadingStateOnly :: "SyncOperation list \<Rightarrow> bool" where
  "isReadingStateOnly operations =
     (operations \<noteq> [] \<and> (\<forall>operation \<in> set operations. isReadingStateEntity (op_entity operation)))"

text \<open>The text before the last colon, if there is one after the first character.\<close>

definition revisionScope :: "string \<Rightarrow> string option" where
  "revisionScope revision =
     (let rest = dropWhile (\<lambda>c. c \<noteq> CHR '':'') (rev revision)
      in if length rest \<le> 1 then None else Some (rev (tl rest)))"

definition combineResults :: "SyncWorkerResult \<Rightarrow> SyncWorkerResult \<Rightarrow> SyncWorkerResult" where
  "combineResults initial verification = initial\<lparr>
     wr_maintenancePending := wr_maintenancePending verification,
     wr_pulled := wr_pulled initial + wr_pulled verification,
     wr_pushed := wr_pushed initial + wr_pushed verification,
     wr_conflicts := wr_conflicts initial + wr_conflicts verification,
     wr_rejected := wr_rejected initial + wr_rejected verification\<rparr>"

definition UNCHANGED_RESULT :: SyncWorkerResult where
  "UNCHANGED_RESULT = EMPTY_SYNC_RESULT\<lparr>wr_unchanged := True\<rparr>"

text \<open>Nothing was left over by a pass.\<close>

definition settled :: "SyncWorkerResult \<Rightarrow> bool" where
  "settled result = (wr_conflicts result = 0 \<and> wr_rejected result = 0 \<and> \<not> wr_maintenancePending result)"

text \<open>The targeted synchronization of the reading state.\<close>

definition runReadingState ::
  "'w WorkerParts \<Rightarrow> 'w pendingWorker \<Rightarrow> 'w SyncWorkerOptions \<Rightarrow> SyncProviderKind \<Rightarrow> SyncOperation list \<Rightarrow> string \<Rightarrow>
     ('w WorkerState, SyncWorkerResult) call" where
  "runReadingState parts worker options provider pendingBefore revisionBefore s =
     (case onWorld (worker pendingBefore options) s of
        (Inl e, s1) \<Rightarrow> (Inl e, setScope None s1)
      | (Inr result, s1) \<Rightarrow>
          thenCall (onWorld (throwIfSyncAborted options)) (\<lambda>_.
          thenCall (checkedCall options (wp_pending parts)) (\<lambda>pendingAfter s2.
            let s3 = setScope (if settled result then revisionScope revisionBefore else None) s2 in
            (Inr result,
             if 0 < wr_pushed result \<or> \<not> settled result \<or> pendingAfter \<noteq> []
             then safeCheckpointWrite parts provider None s3 else s3))) s1)"

text \<open>A pass of the delegate and what is observed after it: the pending operations and the remote revision.\<close>

definition observedPass ::
  "'w WorkerParts \<Rightarrow> ('w, string option) call \<Rightarrow> 'w SyncWorkerOptions \<Rightarrow>
     ('w WorkerState, SyncWorkerResult \<times> SyncOperation list \<times> string option) call" where
  "observedPass parts destinationRevision options =
     thenCall (checkedCall options (wp_delegate parts options)) (\<lambda>result.
     thenCall (checkedCall options (wp_pending parts)) (\<lambda>pendingAfter.
     thenCall (checkedCall options destinationRevision) (\<lambda>revisionAfter s.
       (Inr (result, pendingAfter, revisionAfter), s))))"

text \<open>A pass that pushed nothing, left nothing over and found the revision that was read before it.\<close>

definition stablePass :: "string option \<Rightarrow> SyncWorkerResult \<times> SyncOperation list \<times> string option \<Rightarrow> bool" where
  "stablePass revisionBefore observed =
     (case observed of (result, pendingAfter, revisionAfter) \<Rightarrow>
        revisionAfter \<noteq> None \<and> revisionBefore = revisionAfter \<and> pendingAfter = [] \<and> wr_pushed result = 0 \<and> settled result)"

definition runDelegate ::
  "'w WorkerParts \<Rightarrow> ('w, string option) call \<Rightarrow> 'w SyncWorkerOptions \<Rightarrow> SyncProviderKind \<Rightarrow> string \<Rightarrow>
     ('w WorkerState, SyncWorkerResult) call" where
  "runDelegate parts destinationRevision options provider revisionBefore =
     thenCall (observedPass parts destinationRevision options) (\<lambda>(result, pendingAfter, revisionAfter).
       if revisionAfter \<noteq> None \<and> pendingAfter = [] \<and> settled result \<and>
          (0 < wr_pushed result \<or> Some revisionBefore \<noteq> revisionAfter)
       then thenCall (observedPass parts destinationRevision options) (\<lambda>verified s.
         (Inr (combineResults result (fst verified)),
          safeCheckpointWrite parts provider (if stablePass revisionAfter verified then snd (snd verified) else None) s))
       else (\<lambda>s. (Inr result,
          safeCheckpointWrite parts provider
            (if stablePass (Some revisionBefore) (result, pendingAfter, revisionAfter) then revisionAfter else None) s)))"

text \<open>The second look at the journal before the shortcut is taken.\<close>

definition shortcutTaken ::
  "'w WorkerParts \<Rightarrow> 'w SyncWorkerOptions \<Rightarrow> bool \<Rightarrow> ('w WorkerState, bool) call" where
  "shortcutTaken parts options candidate =
     (if candidate then thenCall (checkedCall options (wp_pending parts)) (\<lambda>pendingAfterProbe s. (Inr (pendingAfterProbe = []), s))
      else (\<lambda>s. (Inr False, s)))"

text \<open>The run once the remote revision is known.\<close>

definition runKnownRevision ::
  "'w WorkerParts \<Rightarrow> ('w, string option) call \<Rightarrow> 'w SyncWorkerOptions \<Rightarrow> SyncOperation list \<Rightarrow> string \<Rightarrow>
     ('w WorkerState, SyncWorkerResult) call" where
  "runKnownRevision parts destinationRevision options pendingBefore revisionBefore s1 =
     (let trustedCheckpoint = safeCheckpointRead (ws_storage s1) Git in
      thenCall (shortcutTaken parts options
        (\<not> so_fullReconciliation options \<and> pendingBefore = [] \<and> trustedCheckpoint = Some revisionBefore))
      (\<lambda>skip s2.
        if skip then (Inr UNCHANGED_RESULT, s2)
        else case wp_readingStateWorker parts of
            Some worker \<Rightarrow>
              if \<not> so_fullReconciliation options \<and>
                 (trustedCheckpoint = Some revisionBefore \<or> ws_scope s2 = revisionScope revisionBefore) \<and>
                 isReadingStateOnly pendingBefore
              then runReadingState parts worker options Git pendingBefore revisionBefore s2
              else runDelegate parts destinationRevision options Git revisionBefore (setScope None s2)
          | None \<Rightarrow> runDelegate parts destinationRevision options Git revisionBefore (setScope None s2)) s1)"

definition ChangeAware_run :: "'w WorkerParts \<Rightarrow> 'w SyncWorkerOptions \<Rightarrow> ('w WorkerState, SyncWorkerResult) call" where
  "ChangeAware_run parts options =
     thenCall (onWorld (throwIfSyncAborted options)) (\<lambda>_ s.
       case (wp_current parts (ws_world s), wp_destinationRevision parts) of
         (Some Git, Some destinationRevision) \<Rightarrow>
           thenCall (checkedCall options (wp_pending parts)) (\<lambda>pendingBefore.
           thenCall (checkedCall options destinationRevision) (\<lambda>revision s1.
             case revision of
               None \<Rightarrow> onWorld (wp_delegate parts options) s1
             | Some revisionBefore \<Rightarrow> runKnownRevision parts destinationRevision options pendingBefore revisionBefore s1)) s
       | _ \<Rightarrow> onWorld (wp_delegate parts options) (setScope None s))"

end
