(* ===== verification/Sync_Worker_Safety.thy ===== *)
theory Sync_Worker_Safety
  imports Sync_Worker
begin

text \<open>
  The checkpoint of the change-aware worker is evidence: the store returns what was written or nothing, a checkpoint
  is written only after a pass that found nothing to do at a revision that did not move, and a synchronization is
  skipped only when the journal is empty and the remote revision has such a pass behind it.
\<close>

section \<open>The checkpoint store\<close>

text \<open>The texts the store writes: checkpoints that read back.\<close>

definition checkpointOk :: "storage \<Rightarrow> bool" where
  "checkpointOk storage \<longleftrightarrow> (\<forall>serialized. storage = Some (Some serialized) \<longrightarrow>
     (\<exists>kvs. serialized = stringify (JObj kvs) \<and> plainJson (JObj kvs) \<and> isStoredSyncCheckpoint (JObj kvs)))"

lemma stringify_object_nonempty: "stringify (JObj kvs) \<noteq> []"
  by simp

lemma storedCheckpoint_read:
  assumes "plainJson (JObj kvs)" and "isStoredSyncCheckpoint (JObj kvs)"
    and "length (stringify (JObj kvs)) \<le> MAX_STORED_CHECKPOINT_LENGTH"
  shows "readCheckpointText (Some (Some (stringify (JObj kvs)))) = Some (JObj kvs)"
    and "readStored (Some (Some (stringify (JObj kvs)))) = Some kvs"
  using assms parseJson_stringify [OF assms(1)] stringify_object_nonempty [of kvs]
  by (simp_all add: readCheckpointText_def readStored_def del: stringify.simps)

lemma initial_checkpoint:
  "plainJson (JObj [(''schemaVersion'', JInt 6)])" "isStoredSyncCheckpoint (JObj [(''schemaVersion'', JInt 6)])"
proof -
  show "plainJson (JObj [(''schemaVersion'', JInt 6)])" using numberReadable_int [of 6] by simp
  show "isStoredSyncCheckpoint (JObj [(''schemaVersion'', JInt 6)])" by (simp add: isStoredSyncCheckpoint_def)
qed

text \<open>What the store starts a write from is a checkpoint again.\<close>

lemma readStored_ok:
  assumes "checkpointOk storage"
  shows "\<exists>kvs. readStored storage = Some kvs \<and> plainJson (JObj kvs) \<and> isStoredSyncCheckpoint (JObj kvs)"
proof (cases "\<exists>serialized. storage = Some (Some serialized) \<and> length serialized \<le> MAX_STORED_CHECKPOINT_LENGTH")
  case True
  then obtain kvs where kvs: "storage = Some (Some (stringify (JObj kvs)))" "plainJson (JObj kvs)" "isStoredSyncCheckpoint (JObj kvs)"
      "length (stringify (JObj kvs)) \<le> MAX_STORED_CHECKPOINT_LENGTH"
    using assms unfolding checkpointOk_def by blast
  then show ?thesis using storedCheckpoint_read(2) [OF kvs(2-4)] by blast
next
  case False
  then have "readStored storage = Some [(''schemaVersion'', JInt 6)]"
    by (auto simp: readStored_def split: option.splits)
  then show ?thesis using initial_checkpoint by blast
qed

lemma providerKey_simps [simp]:
  "providerKey p \<noteq> ''schemaVersion''" "providerKey p = ''git'' \<longleftrightarrow> p = Git" "providerKey p = ''mega'' \<longleftrightarrow> p = Mega"
  "''schemaVersion'' \<noteq> providerKey p" "providerKey p = providerKey q \<longleftrightarrow> p = q"
  by (cases p; cases q; simp add: providerKey_def)+

lemma getProp_update:
  "getProp (JObj (mapSet k v kvs)) k' = (if k' = k then v else getProp (JObj kvs) k')"
  "getProp (JObj (mapDelete k kvs)) k' = (if k' = k then JUndef else getProp (JObj kvs) k')"
  by (simp_all add: getProp.simps(1) js_simps)

lemma getProp_updateCheckpoint:
  "getProp (JObj (updateCheckpoint p revision kvs)) k =
     (if k = providerKey p
      then (case revision of Some r \<Rightarrow> if validRevision (JStr r) then JStr r else JUndef | None \<Rightarrow> JUndef)
      else getProp (JObj kvs) k)"
  by (auto simp: updateCheckpoint_def getProp_update split: option.split)

lemma updateCheckpoint_ok:
  assumes "plainJson (JObj kvs)" and "isStoredSyncCheckpoint (JObj kvs)"
  shows "plainJson (JObj (updateCheckpoint p revision kvs))" and "isStoredSyncCheckpoint (JObj (updateCheckpoint p revision kvs))"
proof -
  have "plainJson (JObj (mapSet k (JStr r) kvs))" "plainJson (JObj (mapDelete k kvs))" for k r
    using assms(1) set_mapSet_subset [of k "JStr r" kvs] set_mapDelete_subset [of k kvs] by fastforce+
  then show "plainJson (JObj (updateCheckpoint p revision kvs))"
    by (auto simp: updateCheckpoint_def split: option.split simp del: plainJson.simps)
  show "isStoredSyncCheckpoint (JObj (updateCheckpoint p revision kvs))"
    using assms(2) by (cases p) (auto simp: isStoredSyncCheckpoint_def getProp_updateCheckpoint split: option.split)
qed

text \<open>What a write leaves: the updated checkpoint, nothing when it is too long, or what was there when the storage refuses.\<close>

lemma checkpoint_write_cases:
  assumes "checkpointOk storage"
  obtains (written) kvs where "readStored storage = Some kvs" and "plainJson (JObj (updateCheckpoint p revision kvs))"
      and "isStoredSyncCheckpoint (JObj (updateCheckpoint p revision kvs))"
      and "length (stringify (JObj (updateCheckpoint p revision kvs))) \<le> MAX_STORED_CHECKPOINT_LENGTH"
      and "checkpoint_write accepts storage p revision = Some (Some (stringify (JObj (updateCheckpoint p revision kvs))))"
  | (dropped) "checkpoint_write accepts storage p revision \<in> {None, Some None}"
  | (refused) t where "checkpoint_write accepts storage p revision = storage" and "\<not> accepts t"
proof -
  obtain kvs where kvs: "readStored storage = Some kvs" "plainJson (JObj kvs)" "isStoredSyncCheckpoint (JObj kvs)"
    using readStored_ok [OF assms] by blast
  note ok = updateCheckpoint_ok [OF kvs(2,3), of p revision]
  let ?t = "stringify (JObj (updateCheckpoint p revision kvs))"
  consider "storage = None \<or> MAX_STORED_CHECKPOINT_LENGTH < length ?t"
    | "storage \<noteq> None" "length ?t \<le> MAX_STORED_CHECKPOINT_LENGTH" "accepts ?t"
    | "storage \<noteq> None" "length ?t \<le> MAX_STORED_CHECKPOINT_LENGTH" "\<not> accepts ?t"
    by linarith
  then show ?thesis
  proof cases
    case 1
    then have "checkpoint_write accepts storage p revision \<in> {None, Some None}"
      by (auto simp: checkpoint_write_def Let_def kvs(1) split: option.split simp del: stringify.simps)
    then show ?thesis by (rule dropped)
  next
    case 2
    then have "checkpoint_write accepts storage p revision = Some (Some ?t)"
      by (auto simp: checkpoint_write_def Let_def kvs(1) simp del: stringify.simps)
    then show ?thesis using written [OF kvs(1) ok 2(2)] by blast
  next
    case 3
    then have "checkpoint_write accepts storage p revision = storage"
      by (auto simp: checkpoint_write_def Let_def kvs(1) simp del: stringify.simps)
    then show ?thesis using refused 3(3) by blast
  qed
qed

lemma checkpointOk_write: "checkpointOk storage \<Longrightarrow> checkpointOk (checkpoint_write accepts storage p revision)"
  by (rule checkpoint_write_cases [where p = p and revision = revision and accepts = accepts], assumption)
    (auto simp: checkpointOk_def simp del: stringify.simps plainJson.simps)

lemma checkpoint_read_stored:
  assumes "plainJson (JObj kvs)" and "isStoredSyncCheckpoint (JObj kvs)"
    and "length (stringify (JObj kvs)) \<le> MAX_STORED_CHECKPOINT_LENGTH"
  shows "checkpoint_read (Some (Some (stringify (JObj kvs)))) p =
    (case getProp (JObj kvs) (providerKey p) of JStr s \<Rightarrow> Some s | _ \<Rightarrow> None)"
  unfolding checkpoint_read_def storedCheckpoint_read(1) [OF assms] by simp

lemma checkpoint_read_none: "checkpoint_read None p = None" "checkpoint_read (Some None) p = None"
  by (simp_all add: checkpoint_read_def readCheckpointText_def)

lemma checkpoint_read_readStored:
  assumes "checkpointOk storage" and "readStored storage = Some kvs"
  shows "checkpoint_read storage p = (case getProp (JObj kvs) (providerKey p) of JStr s \<Rightarrow> Some s | _ \<Rightarrow> None)"
proof (cases "\<exists>serialized. storage = Some (Some serialized) \<and> length serialized \<le> MAX_STORED_CHECKPOINT_LENGTH")
  case True
  then obtain kvs' where kvs: "storage = Some (Some (stringify (JObj kvs')))" "plainJson (JObj kvs')" "isStoredSyncCheckpoint (JObj kvs')"
      "length (stringify (JObj kvs')) \<le> MAX_STORED_CHECKPOINT_LENGTH"
    using assms(1) unfolding checkpointOk_def by blast
  then have "kvs' = kvs" using storedCheckpoint_read(2) [OF kvs(2-4)] assms(2) by simp
  then show ?thesis using checkpoint_read_stored [OF kvs(2-4)] kvs(1) by simp
next
  case False
  then have "readStored storage = Some [(''schemaVersion'', JInt 6)]" "checkpoint_read storage p = None"
    by (auto simp: readStored_def checkpoint_read_def readCheckpointText_def split: option.splits)
  then show ?thesis using assms(2) by (simp add: getProp_Cons)
qed

lemma checkpoint_read_write:
  assumes "checkpointOk storage"
  shows "checkpoint_read (checkpoint_write accepts storage p revision) q \<in>
    {None, if q = p then revision else checkpoint_read storage q} \<or> checkpoint_write accepts storage p revision = storage \<and> (\<exists>t. \<not> accepts t)"
  using assms
proof (cases rule: checkpoint_write_cases [where p = p and revision = revision and accepts = accepts])
  case (written kvs)
  then show ?thesis
    using checkpoint_read_stored [OF written(2-4), of q] checkpoint_read_readStored [OF assms written(1), of q]
    by (auto simp: getProp_updateCheckpoint split: option.splits if_splits)
qed (auto simp: checkpoint_read_none)

section \<open>The coordinator\<close>

lemma coordinator_never_unchanged:
  "coordinatorWorker workers options w = (Inr r, w') \<Longrightarrow> \<not> wr_unchanged r"
  by (auto simp: coordinatorWorker_def LibrarySyncCoordinator_run_def thenCall_Inr_iff totalOf_def)

lemma combineWorkerResults_unchanged: "\<not> wr_unchanged (combineWorkerResults results)"
  unfolding combineWorkerResults_def by (rule foldl_inv) (simp_all add: EMPTY_SYNC_RESULT_def)

lemma readingState_never_unchanged:
  "ReadingStateSyncCoordinator_run workers operations options w = (Inr r, w') \<Longrightarrow> \<not> wr_unchanged r"
  by (auto simp: ReadingStateSyncCoordinator_run_def thenCall_Inr_iff Let_def combineWorkerResults_unchanged split: if_splits)

section \<open>What a run of the worker does with the checkpoint\<close>

lemma onWorld_storage: "onWorld m s = (r, s') \<Longrightarrow> ws_storage s' = ws_storage s \<and> ws_scope s' = ws_scope s"
  by (auto simp: onWorld_def split: prod.splits)

lemma checkedCall_storage: "checkedCall options m s = (r, s') \<Longrightarrow> ws_storage s' = ws_storage s \<and> ws_scope s' = ws_scope s"
  unfolding checkedCall_def by (rule onWorld_storage)

lemma checkedCall_Inr:
  "checkedCall options m s = (Inr a, s') \<longleftrightarrow> (\<exists>w. m (ws_world s) = (Inr a, w) \<and> s' = s\<lparr>ws_world := w\<rparr> \<and> \<not> so_aborted options w)"
  by (auto simp: checkedCall_def onWorld_def thenCall_def throwIfSyncAborted_def split: prod.splits sum.splits if_splits)

text \<open>A pass that is evidence for a revision: the revision was read before it, the delegate pushed nothing and left
  nothing over, the journal was empty after it, and the same revision was read after it.\<close>

definition evidence :: "'w WorkerParts \<Rightarrow> ('w, string option) call \<Rightarrow> 'w SyncWorkerOptions \<Rightarrow> string \<Rightarrow> 'w \<Rightarrow> bool" where
  "evidence parts destinationRevision options revision final \<longleftrightarrow>
     (\<exists>w w0 w1 w2 w3 result.
        destinationRevision w = (Inr (Some revision), w0) \<and> (w1 = w0 \<or> (\<exists>ops. wp_pending parts w0 = (Inr ops, w1))) \<and>
        wp_delegate parts options w1 = (Inr result, w2) \<and> wr_pushed result = 0 \<and> settled result \<and>
        wp_pending parts w2 = (Inr [], w3) \<and> destinationRevision w3 = (Inr (Some revision), final))"

lemma observedPass_Inr:
  assumes "observedPass parts dr options s = (Inr (result, pendingAfter, revision), s')"
  shows "\<exists>w1 w2. wp_delegate parts options (ws_world s) = (Inr result, w1) \<and> wp_pending parts w1 = (Inr pendingAfter, w2) \<and>
    dr w2 = (Inr revision, ws_world s')"
  using assms by (auto simp: observedPass_def thenCall_Inr_iff checkedCall_Inr)

lemma thenCall_cases:
  assumes "thenCall m f s = (r, s')"
  obtains (fails) e where "m s = (Inl e, s')" and "r = Inl e" | (goes) a s1 where "m s = (Inr a, s1)" and "f a s1 = (r, s')"
  using assms by (auto simp: thenCall_def split: prod.splits sum.splits)

lemma observedPass_storage: "observedPass parts dr options s = (r, s') \<Longrightarrow> ws_storage s' = ws_storage s \<and> ws_scope s' = ws_scope s"
  unfolding observedPass_def
  by (elim thenCall_cases) (auto dest!: checkedCall_storage)

text \<open>How the storage may differ after a run.\<close>

definition storageStep :: "'w WorkerParts \<Rightarrow> ('w, string option) call \<Rightarrow> 'w SyncWorkerOptions \<Rightarrow> 'w WorkerState \<Rightarrow> 'w WorkerState \<Rightarrow> bool" where
  "storageStep parts dr options s s' \<longleftrightarrow> ws_storage s' = ws_storage s \<or>
     (\<exists>revision. ws_storage s' = checkpoint_write (wp_accepts parts) (ws_storage s) Git revision \<and>
        (\<forall>r. revision = Some r \<longrightarrow> evidence parts dr options r (ws_world s')))"

lemma storageStep_same: "ws_storage s' = ws_storage s \<Longrightarrow> storageStep parts dr options s s'"
  by (simp add: storageStep_def)

lemma runReadingState_storage:
  assumes "runReadingState parts worker options Git pendingBefore revisionBefore s = (r, s')"
  shows "storageStep parts dr options s s'"
proof -
  obtain x s1 where x: "onWorld (worker pendingBefore options) s = (x, s1)" by fastforce
  note st = onWorld_storage [OF x]
  show ?thesis
  proof (cases x)
    case (Inl e)
    then show ?thesis using assms x st by (auto simp: runReadingState_def setScope_def intro!: storageStep_same)
  next
    case (Inr result)
    then show ?thesis
      using assms x st unfolding runReadingState_def
      by (auto elim!: thenCall_cases dest!: onWorld_storage checkedCall_storage
          simp: Let_def setScope_def safeCheckpointWrite_def storageStep_def split: if_splits)
  qed
qed

lemma runDelegate_storage:
  assumes before: "dr w = (Inr (Some revisionBefore), w0)" "ws_world s = w0 \<or> (\<exists>ops. wp_pending parts w0 = (Inr ops, ws_world s))"
    and run: "runDelegate parts dr options Git revisionBefore s = (r, s')"
  shows "storageStep parts dr options s s'"
  using run unfolding runDelegate_def
proof (cases rule: thenCall_cases)
  case (fails e)
  then show ?thesis by (auto intro!: storageStep_same dest!: observedPass_storage)
next
  case (goes a s1)
  obtain result pendingAfter revisionAfter where a: "a = (result, pendingAfter, revisionAfter)" by (cases a)
  note first = observedPass_Inr [OF goes(1) [unfolded a]] observedPass_storage [OF goes(1)]
  let ?again = "revisionAfter \<noteq> None \<and> pendingAfter = [] \<and> settled result \<and> (0 < wr_pushed result \<or> Some revisionBefore \<noteq> revisionAfter)"
  show ?thesis
  proof (cases ?again)
    case True
    then obtain rev where rev: "revisionAfter = Some rev" by auto
    from goes(2) True show ?thesis unfolding a prod.case if_P [OF True]
    proof (cases rule: thenCall_cases)
      case (fails e)
      then show ?thesis using first(2) by (auto intro!: storageStep_same dest!: observedPass_storage)
    next
      case second: (goes b s2)
      obtain res2 pend2 rev2 where b: "b = (res2, pend2, rev2)" by (cases b)
      have s': "s' = safeCheckpointWrite parts Git (if stablePass revisionAfter b then rev2 else None) s2"
        using second(2) b by auto
      have "evidence parts dr options x (ws_world s')" if "stablePass revisionAfter b" "rev2 = Some x" for x
        using that first(1) observedPass_Inr [OF second(1) [unfolded b]] s'
        unfolding evidence_def stablePass_def b rev safeCheckpointWrite_def by fastforce
      then show ?thesis
        using s' first(2) observedPass_storage [OF second(1)] by (auto simp: storageStep_def safeCheckpointWrite_def)
    qed
  next
    case False
    have s': "s' = safeCheckpointWrite parts Git (if stablePass (Some revisionBefore) a then revisionAfter else None) s1"
      using goes(2) unfolding a prod.case if_not_P [OF False] by simp
    have "evidence parts dr options x (ws_world s')" if "stablePass (Some revisionBefore) a" "revisionAfter = Some x" for x
      using that first(1) before s' unfolding evidence_def stablePass_def a safeCheckpointWrite_def by fastforce
    then show ?thesis using s' first(2) by (auto simp: storageStep_def safeCheckpointWrite_def)
  qed
qed

text \<open>The three ways a run goes on once the remote revision is known.\<close>

lemma runKnownRevision_cases:
  assumes "runKnownRevision parts dr options pendingBefore rb s1 = (r, s')"
  obtains (fails) e where "r = Inl e" and "ws_storage s' = ws_storage s1"
  | (unchanged) "pendingBefore = []" and "wp_pending parts (ws_world s1) = (Inr [], ws_world s')"
      and "safeCheckpointRead (ws_storage s1) Git = Some rb" and "\<not> so_fullReconciliation options"
      and "ws_storage s' = ws_storage s1" and "r = Inr UNCHANGED_RESULT"
  | (reading) worker s2 where "wp_readingStateWorker parts = Some worker" and "ws_storage s2 = ws_storage s1"
      and "runReadingState parts worker options Git pendingBefore rb s2 = (r, s')"
  | (full) s2 where "ws_world s2 = ws_world s1 \<or> (\<exists>ops. wp_pending parts (ws_world s1) = (Inr ops, ws_world s2))"
      and "ws_storage s2 = ws_storage s1" and "runDelegate parts dr options Git rb s2 = (r, s')"
proof -
  let ?candidate = "\<not> so_fullReconciliation options \<and> pendingBefore = [] \<and> safeCheckpointRead (ws_storage s1) Git = Some rb"
  show ?thesis
    using assms unfolding runKnownRevision_def Let_def
  proof (cases rule: thenCall_cases)
    case (fails e)
    then show ?thesis
      using that(1) by (auto simp: shortcutTaken_def elim!: thenCall_cases dest!: checkedCall_storage split: if_splits)
  next
    case (goes skip s2)
    have s2: "ws_storage s2 = ws_storage s1" "ws_world s2 = ws_world s1 \<or> (\<exists>ops. wp_pending parts (ws_world s1) = (Inr ops, ws_world s2))"
      "skip \<Longrightarrow> ?candidate \<and> wp_pending parts (ws_world s1) = (Inr [], ws_world s2)"
      using goes(1) by (auto simp: shortcutTaken_def thenCall_Inr_iff checkedCall_Inr split: if_splits)
    consider "skip" "s' = s2" "r = Inr UNCHANGED_RESULT"
      | worker where "wp_readingStateWorker parts = Some worker" "runReadingState parts worker options Git pendingBefore rb s2 = (r, s')"
      | "runDelegate parts dr options Git rb (setScope None s2) = (r, s')"
    proof (cases skip)
      case True
      then show ?thesis using goes(2) that(1) by simp
    next
      case False
      then show ?thesis using goes(2) that(2,3) by (cases "wp_readingStateWorker parts") (simp_all split: if_splits)
    qed
    then show ?thesis
    proof cases
      case 1
      then show ?thesis using s2 that(2) by blast
    next
      case 2
      then show ?thesis using s2 that(3) by blast
    next
      case 3
      then show ?thesis using s2 that(4) [of "setScope None s2"] by (simp add: setScope_def)
    qed
  qed
qed

text \<open>What is done before: the signal, the provider, the journal and the remote revision.\<close>

lemma ChangeAware_run_cases:
  assumes "ChangeAware_run parts options s = (r, s')"
  obtains (early) "ws_storage s' = ws_storage s" and "\<And>x. r = Inr x \<Longrightarrow> \<exists>w w'. wp_delegate parts options w = (Inr x, w')"
  | (known) dr w1 pendingBefore rb s1 where "wp_current parts (ws_world s) = Some Git" and "wp_destinationRevision parts = Some dr"
      and "wp_pending parts (ws_world s) = (Inr pendingBefore, w1)" and "dr w1 = (Inr (Some rb), ws_world s1)"
      and "ws_storage s1 = ws_storage s" and "runKnownRevision parts dr options pendingBefore rb s1 = (r, s')"
proof -
  show ?thesis
    using assms unfolding ChangeAware_run_def
  proof (cases rule: thenCall_cases)
    case (fails e)
    then show ?thesis using early onWorld_storage by blast
  next
    case (goes u s1)
    then have s1: "s1 = s" by (auto simp: onWorld_def throwIfSyncAborted_def split: if_splits)
    show ?thesis
    proof (cases "wp_current parts (ws_world s) = Some Git \<and> wp_destinationRevision parts \<noteq> None")
      case False
      then have "onWorld (wp_delegate parts options) (setScope None s) = (r, s')"
        using goes(2) s1 by (auto split: option.splits SyncProviderKind.splits)
      then have "wp_delegate parts options (ws_world s) = (r, ws_world s')" "ws_storage s' = ws_storage s"
        by (auto simp: onWorld_def setScope_def split: prod.splits)
      then show ?thesis using early by blast
    next
      case True
      then obtain dr where dr: "wp_destinationRevision parts = Some dr" and git: "wp_current parts (ws_world s) = Some Git" by auto
      from goes(2) [unfolded s1 dr git prod.case option.case SyncProviderKind.case] show ?thesis
      proof (cases rule: thenCall_cases)
        case (fails e)
        then show ?thesis using early checkedCall_storage by blast
      next
        case pend: (goes pendingBefore s2)
        from pend(2) show ?thesis
        proof (cases rule: thenCall_cases)
          case (fails e)
          then show ?thesis using early checkedCall_storage pend(1) by (metis Inl_Inr_False)
        next
          case rv: (goes revision s3)
          show ?thesis
          proof (cases revision)
            case None
            then have "wp_delegate parts options (ws_world s3) = (r, ws_world s')" "ws_storage s' = ws_storage s3"
              using rv(2) by (auto simp: onWorld_def split: prod.splits)
            then show ?thesis
              using early checkedCall_storage [OF rv(1)] checkedCall_storage [OF pend(1)] by metis
          next
            case (Some rb)
            have "wp_pending parts (ws_world s) = (Inr pendingBefore, ws_world s2)" "dr (ws_world s2) = (Inr (Some rb), ws_world s3)"
              using pend(1) rv(1) Some by (auto simp: checkedCall_Inr)
            moreover have "ws_storage s3 = ws_storage s" using checkedCall_storage [OF pend(1)] checkedCall_storage [OF rv(1)] by simp
            ultimately show ?thesis using known [OF git dr, of pendingBefore "ws_world s2" rb s3] rv(2) Some by simp
          qed
        qed
      qed
    qed
  qed
qed

lemma ChangeAware_run_storage:
  assumes "ChangeAware_run parts options s = (r, s')"
  shows "ws_storage s' = ws_storage s \<or> (\<exists>dr. wp_destinationRevision parts = Some dr \<and> storageStep parts dr options s s')"
  using assms
proof (cases rule: ChangeAware_run_cases)
  case (known dr w1 pendingBefore rb s1)
  have "storageStep parts dr options s1 s'"
    using known(6)
  proof (cases rule: runKnownRevision_cases)
    case (reading worker s2)
    then show ?thesis using runReadingState_storage [OF reading(3), of dr] by (simp add: storageStep_def)
  next
    case (full s2)
    then show ?thesis using runDelegate_storage [OF known(4) full(1,3)] by (simp add: storageStep_def)
  qed (auto simp: storageStep_def)
  then show ?thesis using known(2,5) by (auto simp: storageStep_def)
qed simp

section \<open>The life of a worker\<close>

text \<open>The states of a worker, with the revisions there is evidence for: it starts without a checkpoint, runs, and the
  world changes between the runs; a restart forgets the continuation scope. Storage accepts what it is given.\<close>

inductive workerHistory :: "'w WorkerParts \<Rightarrow> ('w, string option) call \<Rightarrow> 'w WorkerState \<Rightarrow> string set \<Rightarrow> bool"
  for parts dr where
  worker_start: "st \<in> {None, Some None} \<Longrightarrow> workerHistory parts dr \<lparr>ws_world = w, ws_storage = st, ws_scope = None\<rparr> {}"
| worker_run: "workerHistory parts dr s known \<Longrightarrow> ChangeAware_run parts options s = (r, s') \<Longrightarrow>
    workerHistory parts dr s' (known \<union> {revision. evidence parts dr options revision (ws_world s')})"
| worker_world: "workerHistory parts dr s known \<Longrightarrow> workerHistory parts dr (s\<lparr>ws_world := w\<rparr>) known"
| worker_restart: "workerHistory parts dr s known \<Longrightarrow> workerHistory parts dr (s\<lparr>ws_scope := None\<rparr>) known"

inductive_cases workerHistoryE: "workerHistory parts dr s known"

lemma workerHistory_checkpoint:
  assumes "workerHistory parts dr s known" and "wp_destinationRevision parts = Some dr" and "\<forall>t. wp_accepts parts t"
  shows "checkpointOk (ws_storage s) \<and> (\<forall>revision. checkpoint_read (ws_storage s) Git = Some revision \<longrightarrow> revision \<in> known)"
  using assms
proof (induction rule: workerHistory.induct)
  case (worker_start st w)
  then show ?case by (auto simp: checkpointOk_def checkpoint_read_none)
next
  case (worker_run s known options r s')
  note ih = worker_run.IH [OF worker_run.prems]
  from ChangeAware_run_storage [OF worker_run.hyps(2)] consider "ws_storage s' = ws_storage s" | "storageStep parts dr options s s'"
    using worker_run.prems(1) by auto
  then show ?case
  proof cases
    case 1
    then show ?thesis using ih by auto
  next
    case 2
    show ?thesis
    proof (cases "ws_storage s' = ws_storage s")
      case True
      then show ?thesis using ih by auto
    next
      case False
      then obtain revision where w: "ws_storage s' = checkpoint_write (wp_accepts parts) (ws_storage s) Git revision"
          "\<forall>x. revision = Some x \<longrightarrow> evidence parts dr options x (ws_world s')"
        using 2 by (auto simp: storageStep_def)
      have "checkpoint_read (ws_storage s') Git \<in> {None, revision}"
        using checkpoint_read_write [of "ws_storage s" "wp_accepts parts" Git revision Git] ih worker_run.prems(2) w(1) by auto
      then show ?thesis using ih w checkpointOk_write by (metis (mono_tags, lifting) UnCI insertE mem_Collect_eq option.discI singletonD)
    qed
  qed
qed simp_all

lemma safeCheckpointRead_read: "safeCheckpointRead storage p = Some revision \<Longrightarrow> checkpoint_read storage p = Some revision"
  by (auto simp: safeCheckpointRead_def split: option.splits if_splits)

lemma runReadingState_result:
  "runReadingState parts worker options Git pendingBefore rb s = (Inr x, s') \<Longrightarrow> \<exists>w w'. worker pendingBefore options w = (Inr x, w')"
  by (auto simp: runReadingState_def thenCall_Inr_iff onWorld_def Let_def split: prod.splits sum.splits)

lemma runDelegate_result:
  "runDelegate parts dr options Git rb s = (Inr x, s') \<Longrightarrow>
     \<exists>w w' y. wp_delegate parts options w = (Inr y, w') \<and> wr_unchanged x = wr_unchanged y"
  unfolding runDelegate_def thenCall_Inr_iff
  by (auto dest!: observedPass_Inr simp: thenCall_Inr_iff combineResults_def split: if_splits) blast+

text \<open>C17. In every state the worker can reach, a synchronization is reported as unchanged only if the selected provider is Git, no full
  reconciliation was asked for, the journal was read as empty before and after the remote revision was read, and a
  pass of the coordinator is evidence for this revision: it pushed nothing, left nothing over, found the journal
  empty and the revision unmoved.\<close>

theorem unchanged_has_evidence:
  assumes "workerHistory parts dr s known" and "wp_destinationRevision parts = Some dr" and "\<forall>t. wp_accepts parts t"
    and "wp_delegate parts = coordinatorWorker workers"
    and "wp_readingStateWorker parts = map_option ReadingStateSyncCoordinator_run readingState"
    and "ChangeAware_run parts options s = (Inr r, s')" and "wr_unchanged r"
  shows "\<exists>revision w1 w2. revision \<in> known \<and> wp_current parts (ws_world s) = Some Git \<and> \<not> so_fullReconciliation options \<and>
    wp_pending parts (ws_world s) = (Inr [], w1) \<and> dr w1 = (Inr (Some revision), w2) \<and>
    wp_pending parts w2 = (Inr [], ws_world s') \<and> ws_storage s' = ws_storage s"
  using assms(6)
proof (cases rule: ChangeAware_run_cases)
  case early
  then show ?thesis using assms(4,7) coordinator_never_unchanged by fastforce
next
  case (known dr' w1 pendingBefore rb s1)
  then have dr: "dr' = dr" using assms(2) by simp
  from known(6) show ?thesis
  proof (cases rule: runKnownRevision_cases)
    case unchanged
    then have "rb \<in> known"
      using workerHistory_checkpoint [OF assms(1-3)] safeCheckpointRead_read known(5) by metis
    then show ?thesis using unchanged known dr by auto
  next
    case (reading worker s2)
    then show ?thesis
      using runReadingState_result [OF reading(3)] assms(5,7) readingState_never_unchanged by fastforce
  next
    case (full s2)
    then show ?thesis using runDelegate_result [OF full(3)] assms(4,7) coordinator_never_unchanged by fastforce
  qed simp
qed

text \<open>A library with nothing to do: the first run writes the checkpoint, the second one is skipped.\<close>

definition idleWorkers :: "unit LibrarySyncWorkers" where
  "idleWorkers = \<lparr>lw_preflight = None, lw_schema = (\<lambda>_ w. (Inr EMPTY_SYNC_RESULT, w)), lw_logicalBooks = None,
     lw_books = (\<lambda>_ w. (Inr EMPTY_SYNC_RESULT, w)), lw_progress = (\<lambda>_ w. (Inr EMPTY_SYNC_RESULT, w)), lw_bookmarks = None,
     lw_annotations = None, lw_preferences = None, lw_cleanup = None\<rparr>"

definition idleRevision :: "(unit, string option) call" where
  "idleRevision w = (Inr (Some ''1:main:a''), w)"

definition idleParts :: "unit WorkerParts" where
  "idleParts = \<lparr>wp_delegate = coordinatorWorker idleWorkers, wp_destinationRevision = Some idleRevision,
     wp_pending = (\<lambda>w. (Inr [], w)), wp_current = (\<lambda>_. Some Git),
     wp_readingStateWorker = map_option ReadingStateSyncCoordinator_run None, wp_accepts = (\<lambda>_. True)\<rparr>"

definition idleOptions :: "unit SyncWorkerOptions" where
  "idleOptions = \<lparr>so_fullReconciliation = False, so_aborted = (\<lambda>_. False)\<rparr>"

definition idleStart :: "unit WorkerState" where
  "idleStart = \<lparr>ws_world = (), ws_storage = Some None, ws_scope = None\<rparr>"

definition idleNext :: "unit WorkerState" where
  "idleNext = snd (ChangeAware_run idleParts idleOptions idleStart)"

theorem unchanged_has_evidence_witness:
  "\<exists>revision w1 w2. evidence idleParts idleRevision idleOptions revision () \<and>
     wp_pending idleParts (ws_world idleNext) = (Inr [], w1) \<and> idleRevision w1 = (Inr (Some revision), w2)"
proof -
  have start: "workerHistory idleParts idleRevision idleStart {}" unfolding idleStart_def by (rule worker_start) simp
  have "ChangeAware_run idleParts idleOptions idleStart = (fst (ChangeAware_run idleParts idleOptions idleStart), idleNext)"
    by (simp add: idleNext_def)
  note history = worker_run [OF start this]
  have second: "ChangeAware_run idleParts idleOptions idleNext = (Inr UNCHANGED_RESULT, idleNext)" by code_simp
  have parts: "wp_destinationRevision idleParts = Some idleRevision" "\<forall>t. wp_accepts idleParts t"
    "wp_delegate idleParts = coordinatorWorker idleWorkers"
    "wp_readingStateWorker idleParts = map_option ReadingStateSyncCoordinator_run None"
    by (simp_all add: idleParts_def)
  show ?thesis
    using unchanged_has_evidence [OF history parts second] by (auto simp: UNCHANGED_RESULT_def)
qed

section \<open>A revision without a scope\<close>

text \<open>\<open>revisionScope\<close> is \<open>null\<close> for a revision without a colon, and so is the continuation scope of a worker that has
  not synchronized anything yet: a fresh worker then takes the targeted way, which presumes a trusted checkpoint, with
  whatever the storage holds.\<close>

theorem scopeless_revision_trusted:
  assumes "wp_current parts (ws_world s) = Some Git" and "wp_destinationRevision parts = Some dr"
    and "wp_readingStateWorker parts = Some worker"
    and "wp_pending parts (ws_world s) = (Inr operations, w1)" and "isReadingStateOnly operations"
    and "dr w1 = (Inr (Some revision), w2)" and "revisionScope revision = None" and "ws_scope s = None"
    and "\<not> so_fullReconciliation options" and "\<forall>w. \<not> so_aborted options w"
  shows "ChangeAware_run parts options s = runReadingState parts worker options Git operations revision (s\<lparr>ws_world := w2\<rparr>)"
proof -
  have checked: "checkedCall options m t = (let (r, w) = m (ws_world t) in (r, t\<lparr>ws_world := w\<rparr>))" for m :: "('a, 'b) call" and t
    using assms(10) by (auto simp: checkedCall_def onWorld_def thenCall_def throwIfSyncAborted_def split: prod.splits sum.splits)
  have "onWorld (throwIfSyncAborted options) s = (Inr (), s)"
    using assms(10) by (simp add: onWorld_def throwIfSyncAborted_def)
  moreover have "checkedCall options (wp_pending parts) s = (Inr operations, s\<lparr>ws_world := w1\<rparr>)"
    "checkedCall options dr (s\<lparr>ws_world := w1\<rparr>) = (Inr (Some revision), s\<lparr>ws_world := w2\<rparr>)"
    using assms(4,6,10) by (auto simp: checkedCall_Inr)
  moreover have "operations \<noteq> []" using assms(5) by (simp add: isReadingStateOnly_def)
  ultimately show ?thesis
    using assms by (simp add: ChangeAware_run_def thenCall_eq runKnownRevision_def shortcutTaken_def Let_def)
qed

definition scopelessOperation :: SyncOperation where
  "scopelessOperation = \<lparr>op_id = ''1'', op_entity = ''progress'', op_entityId = ''b'', op_operation = ''upsert'', op_revision = 1,
     op_createdAt = ''2026-01-01T00:00:00.000Z'', op_payload = JNull\<rparr>"

definition scopelessParts :: "string list WorkerParts" where
  "scopelessParts = \<lparr>wp_delegate = (\<lambda>_ w. (Inr EMPTY_SYNC_RESULT, w @ [''delegate''])),
     wp_destinationRevision = Some (\<lambda>w. (Inr (Some ''a1b2''), w)),
     wp_pending = (\<lambda>w. (Inr [scopelessOperation], w)), wp_current = (\<lambda>_. Some Git),
     wp_readingStateWorker = Some (\<lambda>_ _ w. (Inr EMPTY_SYNC_RESULT, w @ [''reading state''])), wp_accepts = (\<lambda>_. True)\<rparr>"

theorem scopeless_revision_trusted_witness:
  "ws_world (snd (ChangeAware_run scopelessParts \<lparr>so_fullReconciliation = False, so_aborted = (\<lambda>_. False)\<rparr>
     \<lparr>ws_world = [], ws_storage = Some None, ws_scope = None\<rparr>)) = [''reading state'']"
proof -
  have only: "isReadingStateOnly [scopelessOperation]" "revisionScope ''a1b2'' = None" by code_simp+
  show ?thesis
    by (subst scopeless_revision_trusted [where dr = "\<lambda>w. (Inr (Some ''a1b2''), w)" and operations = "[scopelessOperation]"
          and worker = "\<lambda>_ _ w. (Inr EMPTY_SYNC_RESULT, w @ [''reading state''])" and revision = "''a1b2''" and ?w1.0 = "[]" and ?w2.0 = "[]"])
      (use only in \<open>simp_all add: scopelessParts_def runReadingState_def onWorld_def thenCall_def throwIfSyncAborted_def
        checkedCall_def EMPTY_SYNC_RESULT_def settled_def Let_def setScope_def safeCheckpointWrite_def\<close>)
qed

end
