(* ===== verification/Document_Text.thy ===== *)
theory Document_Text
  imports JSON_Roundtrip Library_Catalog Logical_Replay Progress_Sync
begin

text \<open>
  The documents of the remote store as texts: \<open>parseLogicalBookChange\<close> and \<open>parseLogicalBookState\<close> of
  \<open>libs/sync/core/src/lib/logical-book-change.ts\<close> and \<open>logical-book-state.ts\<close>, and the round trips of the texts that
  are written. The format table of a logical book is an object and has each key once, which the lemmas ask for.
\<close>

section \<open>Plain values\<close>

lemma numberReadable_safe: "isSafeInteger x \<Longrightarrow> numberReadable x"
proof -
  assume s: "isSafeInteger x"
  then obtain q where q: "x = Fin q" "isIntegral q" "\<bar>\<lfloor>q\<rfloor>\<bar> \<le> MAX_SAFE_INTEGER"
    by (auto simp: isSafeInteger_def split: jsnum.splits)
  from q(2) have "of_int \<lfloor>q\<rfloor> = q" unfolding isIntegral_def .
  then have "x = Fin (of_int \<lfloor>q\<rfloor>)" using q(1) by metis
  moreover have "\<bar>\<lfloor>q\<rfloor>\<bar> < 10 ^ 21" using q(3) by (simp add: MAX_SAFE_INTEGER_def)
  ultimately show ?thesis using numberReadable_int by simp
qed

lemma plain_int: "\<bar>n\<bar> \<le> MAX_SAFE_INTEGER \<Longrightarrow> plainJson (JInt n)"
  using numberReadable_int [of n] by (simp add: MAX_SAFE_INTEGER_def)

lemma numberReadable_one [simp]: "numberReadable (Fin 1)"
  using numberReadable_int [of 1] by simp

lemma plain_strings [simp]: "plainJson (stringsVal xs)"
  by (auto simp: stringsVal_def)

lemma plain_bookVal: "isBookRecord (bookVal b) \<Longrightarrow> plainJson (bookVal b)"
proof -
  assume "isBookRecord (bookVal b)"
  then obtain n where n: "br_size b = Fin (of_int n)" "1 \<le> n" "n \<le> MAX_SAFE_INTEGER" by (auto simp: isBookRecord_iff)
  then have "numberReadable (br_size b)" by (auto intro!: numberReadable_safe)
  then show ?thesis by (auto simp: bookVal_def optional_def split: option.splits)
qed

lemma inj_formatString: "inj formatString"
  by (simp add: inj_def)

lemma plain_variantsVal: "mapOk vs \<Longrightarrow> plainJson (variantsVal vs)"
proof -
  assume "mapOk vs"
  then have "distinct (map formatString (map fst vs))"
    using inj_formatString by (metis distinct_map inj_on_subset subset_UNIV)
  moreover have "map fst (map (\<lambda>(f, i). (formatString f, JStr i)) vs) = map formatString (map fst vs)" by (induction vs) auto
  ultimately have "distinct (map fst (map (\<lambda>(f, i). (formatString f, JStr i)) vs))" by metis
  then show ?thesis unfolding variantsVal_def plainJson.simps by auto
qed

lemma plain_logicalBookVal: "mapOk (lb_variants b) \<Longrightarrow> plainJson (logicalBookVal b)"
  by (auto simp: logicalBookVal_def optional_def plain_variantsVal split: option.splits)

lemma plain_formatPreferenceVal: "plainJson (formatPreferenceVal p)"
  by (simp add: formatPreferenceVal_def)

lemma plain_membershipVal: "plainJson (membershipVal m)"
  by (simp add: membershipVal_def)

lemma plain_reconciliationVal: "plainJson (reconciliationVal r)"
  by (auto simp: reconciliationVal_def optional_def plain_membershipVal split: option.splits)

lemma plain_clockVal: "plainJson (clockVal c)"
  by (simp add: clockVal_def)

lemmas plain_simps = plain_logicalBookVal plain_formatPreferenceVal plain_reconciliationVal plain_clockVal

section \<open>Reading a change\<close>

definition changeKindOf :: "jsval \<Rightarrow> LogicalBookChangeKind" where
  "changeKindOf v =
     (if v = JStr ''bootstrap'' then Bootstrap else if v = JStr ''add-variant'' then AddVariant
      else if v = JStr ''associate'' then Associate else if v = JStr ''detach'' then Detach
      else if v = JStr ''delete-variant'' then DeleteVariantKind else if v = JStr ''delete-book'' then DeleteBook
      else if v = JStr ''metadata'' then MetadataKind else if v = JStr ''preference'' then PreferenceKind else ReconcileMembership)"

definition variantEffectOf :: "jsval \<Rightarrow> LogicalVariantEffect" where
  "variantEffectOf v =
     (if getProp v ''operation'' = JStr ''delete''
      then DeleteVariant (strOf (getProp v ''variantId'')) (formatOf (getProp v ''format''))
      else UpsertVariant (bookOf (getProp v ''variant'')) (strOf (getProp v ''objectPath'')))"

definition preferenceOrNullOf :: "jsval \<Rightarrow> LogicalBookFormatPreference option" where
  "preferenceOrNullOf v = (if v = JNull then None else Some (formatPreferenceOf v))"

definition preferenceEffectOf :: "jsval \<Rightarrow> LogicalPreferenceEffect" where
  "preferenceEffectOf v = \<lparr>pe_logicalBookId = strOf (getProp v ''logicalBookId''),
     pe_preference = preferenceOrNullOf (getProp v ''preference'')\<rparr>"

definition changeOf :: "jsval \<Rightarrow> LogicalBookChange" where
  "changeOf v =
     \<lparr>chg_changeId = strOf (getProp v ''changeId''), chg_kind = changeKindOf (getProp v ''kind''),
      chg_parents = map strOf (arrOf (getProp v ''parents'')),
      chg_resultingBooks = map logicalBookOf (arrOf (getProp v ''resultingBooks'')),
      chg_removedLogicalBookIds = map strOf (arrOf (getProp v ''removedLogicalBookIds'')),
      chg_variantEffects = optOf (\<lambda>a. map variantEffectOf (arrOf a)) (getProp v ''variantEffects''),
      chg_preferenceEffects = optOf (\<lambda>a. map preferenceEffectOf (arrOf a)) (getProp v ''preferenceEffects''),
      chg_resolvesConflictIds = optOf (\<lambda>a. map strOf (arrOf a)) (getProp v ''resolvesConflictIds''),
      chg_createdAt = strOf (getProp v ''createdAt''), chg_deviceId = strOf (getProp v ''deviceId''),
      chg_appVersion = strOf (getProp v ''appVersion'')\<rparr>"

datatype DocumentError = NotJson | SchemaInvalid | DocumentTooLarge

definition parseLogicalBookChange :: "(string \<Rightarrow> string) \<Rightarrow> string \<Rightarrow> DocumentError + LogicalBookChange" where
  "parseLogicalBookChange nfkc content =
     (case parseJson content of
        None \<Rightarrow> Inl NotJson
      | Some value \<Rightarrow> if \<not> isSynchronizedLogicalBookChange nfkc value then Inl SchemaInvalid else Inr (changeOf value))"

lemma changeKindOf_string [simp]: "changeKindOf (JStr (kindString k)) = k"
  by (cases k) (simp_all add: changeKindOf_def kindString_def)

lemma variantEffectOf_val [simp]: "variantEffectOf (variantEffectVal e) = e"
  by (cases e) (simp_all add: variantEffectOf_def variantEffectVal_def)

lemma map_strOf_stringsVal [simp]: "map strOf (arrOf (stringsVal xs)) = xs"
  by (simp add: stringsVal_def)

lemma stringsVal_neq: "stringsVal xs \<noteq> JUndef"
  by (simp add: stringsVal_def)

lemma formatPreferenceOf_val [simp]: "formatPreferenceOf (formatPreferenceVal p) = p"
  by (cases p) (simp add: formatPreferenceOf_def formatPreferenceVal_def)

lemma preferenceOrNullOf_val [simp]: "preferenceOrNullOf (withDefault JNull formatPreferenceVal p) = p"
  by (cases p) (simp_all add: preferenceOrNullOf_def, simp add: formatPreferenceVal_def)

lemma preferenceEffectOf_val [simp]: "preferenceEffectOf (preferenceEffectVal e) = e"
  by (cases e) (simp add: preferenceEffectOf_def preferenceEffectVal_def)

lemma logicalCoverOf_string [simp]: "logicalCoverOf (JStr (logicalCoverString c)) = c"
  by (cases c) (simp_all add: logicalCoverOf_def logicalCoverString_def)

lemma getProp_variantsVal_key: "mapOk vs \<Longrightarrow> (f, i) \<in> set vs \<Longrightarrow> getProp (variantsVal vs) (formatString f) = JStr i"
proof (induction vs)
  case (Cons fi vs)
  then show ?case using inj_formatString by (cases fi) (force simp: variantsVal_def inj_eq)
qed simp

lemma variantsOf_val: "mapOk vs \<Longrightarrow> variantsOf (variantsVal vs) = vs"
proof -
  assume ok: "mapOk vs"
  have keys: "objectKeys (variantsVal vs) = map (formatString \<circ> fst) vs"
    by (simp add: variantsVal_def comp_def case_prod_beta)
  have "distinct (map (formatString \<circ> fst) vs)"
    using ok inj_formatString by (metis distinct_map inj_on_subset map_map subset_UNIV)
  then have u: "jsUnique (objectKeys (variantsVal vs)) = map (formatString \<circ> fst) vs"
    unfolding keys by (rule jsUnique_distinct)
  have each: "List.map_filter (\<lambda>k. case getProp (variantsVal vs) k of JStr s \<Rightarrow> Some (formatOf (JStr k), s) | _ \<Rightarrow> None)
      (map (formatString \<circ> fst) ws) = ws" if "set ws \<subseteq> set vs" for ws
    using that getProp_variantsVal_key [OF ok]
    by (induction ws) (auto simp: List.map_filter_def)
  show ?thesis unfolding variantsOf_def u by (rule each) simp
qed

lemma logicalBookOf_val: "mapOk (lb_variants b) \<Longrightarrow> logicalBookOf (logicalBookVal b) = b"
  by (cases b) (simp add: logicalBookOf_def logicalBookVal_def variantsOf_val)

definition booksOk :: "LogicalBookRecord list \<Rightarrow> bool" where
  "booksOk books \<longleftrightarrow> (\<forall>b \<in> set books. mapOk (lb_variants b))"

lemma map_logicalBookOf: "booksOk books \<Longrightarrow> map (logicalBookOf \<circ> logicalBookVal) books = books"
  by (induction books) (simp_all add: booksOk_def logicalBookOf_val)

lemma map_id_on: "(\<And>x. f (g x) = x) \<Longrightarrow> map (f \<circ> g) xs = xs"
  by (induction xs) auto

lemma changeOf_val: "booksOk (chg_resultingBooks c) \<Longrightarrow> changeOf (changeVal c) = c"
  by (cases c) (simp add: changeOf_def map_logicalBookOf map_id_on stringsVal_neq)

lemma plain_changeVal:
  assumes "isSynchronizedLogicalBookChange nfkc (changeVal c)" and "booksOk (chg_resultingBooks c)"
  shows "plainJson (changeVal c)"
proof -
  have "plainJson (variantEffectVal e)" if "e \<in> set (orEmpty (chg_variantEffects c))" for e
  proof -
    have "isVariantEffect nfkc (variantEffectVal e)" using assms(1) that by (simp add: isSynchronized_iff)
    then show ?thesis
      by (cases e) (auto simp: isVariantEffect_def variantEffectVal_def plain_bookVal split: if_splits)
  qed
  moreover have "plainJson (preferenceEffectVal e)" for e
    by (cases "pe_preference e") (simp_all add: preferenceEffectVal_def plain_formatPreferenceVal)
  moreover have "\<forall>b \<in> set (chg_resultingBooks c). plainJson (logicalBookVal b)"
    using assms(2) by (simp add: booksOk_def plain_logicalBookVal)
  ultimately show ?thesis
    by (auto simp: changeVal_def optional_def orEmpty_def split: option.splits)
qed

lemma booksOk_canonical: "booksOk (chg_resultingBooks c) \<Longrightarrow> booksOk (chg_resultingBooks (canonicalChange lc c))"
  by (simp add: booksOk_def canonicalChange_def)

lemma spaces_final: "spaces [CHR 0x0A]"
  by (simp add: isJsonSpace_def)

text \<open>C21. The text of a valid change parses to the change in its canonical form: publishing a change and reading it
  on another device loses nothing but the order of its lists.\<close>

theorem change_text_roundtrip:
  assumes "isSynchronizedLogicalBookChange nfkc (changeVal c)" and "booksOk (chg_resultingBooks c)"
  shows "\<exists>content. serializeLogicalBookChange nfkc lc c = Inr content \<and>
    parseLogicalBookChange nfkc content = Inr (canonicalChange lc c)"
proof -
  note valid = isSynchronized_canonical [OF assms(1), of lc] and books = booksOk_canonical [OF assms(2), of lc]
  have "parseJson (prettyAt 0 (changeVal (canonicalChange lc c)) @ [CHR 0x0A]) = Some (changeVal (canonicalChange lc c))"
    by (rule parseJson_pretty [OF plain_changeVal [OF valid books] spaces_final])
  then show ?thesis
    using assms(1) valid changeOf_val [OF books] by (simp add: serializeLogicalBookChange_def parseLogicalBookChange_def)
qed

theorem change_text_roundtrip_witness:
  "\<exists>content. serializeLogicalBookChange id codeUnitCompare sampleChange = Inr content \<and>
    parseLogicalBookChange id content = Inr (canonicalChange codeUnitCompare sampleChange)"
  using change_text_roundtrip [OF isSynchronized_sample, of codeUnitCompare]
  by (simp add: booksOk_def sampleChange_def sampleLogicalBook_def)

section \<open>Reading a state\<close>

definition clockOfVal :: "jsval \<Rightarrow> LogicalBookStateClock" where
  "clockOfVal v = \<lparr>ck_changeId = strOf (getProp v ''changeId''), ck_createdAt = strOf (getProp v ''createdAt''),
     ck_deviceId = strOf (getProp v ''deviceId'')\<rparr>"

definition entryClock :: "jsval \<Rightarrow> LogicalBookStateClock" where
  "entryClock e = clockOfVal (getProp e ''clock'')"

definition stateOf :: "jsval \<Rightarrow> LogicalBookStateDocument" where
  "stateOf v =
     \<lparr>sd_heads = map strOf (arrOf (getProp v ''heads'')),
      sd_books = map (\<lambda>e. \<lparr>be_book = logicalBookOf (getProp e ''book''), be_clock = entryClock e\<rparr>) (arrOf (getProp v ''books'')),
      sd_removedBooks = map (\<lambda>e. \<lparr>rb_logicalBookId = strOf (getProp e ''logicalBookId''), rb_clock = entryClock e\<rparr>)
        (arrOf (getProp v ''removedBooks'')),
      sd_variants = map (\<lambda>e. \<lparr>ve_variant = bookOf (getProp e ''variant''), ve_objectPath = strOf (getProp e ''objectPath''),
        ve_clock = entryClock e\<rparr>) (arrOf (getProp v ''variants'')),
      sd_removedVariants = map (\<lambda>e. \<lparr>rv_variantId = strOf (getProp e ''variantId''), rv_format = formatOf (getProp e ''format''),
        rv_clock = entryClock e\<rparr>) (arrOf (getProp v ''removedVariants'')),
      sd_preferences = map (\<lambda>e. \<lparr>pr_logicalBookId = strOf (getProp e ''logicalBookId''),
        pr_preference = preferenceOrNullOf (getProp e ''preference''), pr_clock = entryClock e\<rparr>) (arrOf (getProp v ''preferences'')),
      sd_reconciliations = map (\<lambda>e. \<lparr>rc_reconciliation = reconciliationOf (getProp e ''reconciliation''), rc_clock = entryClock e\<rparr>)
        (arrOf (getProp v ''reconciliations''))\<rparr>"

definition parseLogicalBookState ::
  "(string \<Rightarrow> string) \<Rightarrow> (string \<Rightarrow> string \<Rightarrow> int) \<Rightarrow> string \<Rightarrow> DocumentError + LogicalBookStateDocument" where
  "parseLogicalBookState nfkc localeCompare content =
     (if byteLength content > LOGICAL_BOOK_STATE_MAX_BYTES then Inl DocumentTooLarge
      else case parseJson content of
             None \<Rightarrow> Inl NotJson
           | Some value \<Rightarrow>
               if \<not> isLogicalBookStateDocument nfkc localeCompare value then Inl SchemaInvalid
               else Inr (canonicalizeLogicalBookState localeCompare (stateOf value)))"

lemma clockOfVal_val [simp]: "clockOfVal (clockVal c) = c"
  by (cases c) (simp add: clockOfVal_def clockVal_def)

lemma membershipOf_val [simp]: "membershipOf (membershipVal m) = m"
  by (cases m) (simp add: membershipOf_def membershipVal_def)

lemma reconciliationOf_val [simp]: "reconciliationOf (reconciliationVal r) = r"
proof (cases r)
  case (fields conflictId status conflicting affected accepted rejected resolvedBy detectedAt)
  have "(if statusString status = ''resolved'' then ReconciliationResolved else ReconciliationOpen) = status"
    by (cases status) (simp_all add: statusString_def)
  then show ?thesis using fields by (simp add: reconciliationOf_def reconciliationVal_def map_id_on)
qed

lemma map_on_set: "(\<And>x. x \<in> set xs \<Longrightarrow> f (g x) = x) \<Longrightarrow> map (f \<circ> g) xs = xs"
  by (induction xs) auto

lemma stateOf_val: "booksOk (map be_book (sd_books s)) \<Longrightarrow> stateOf (stateVal s) = s"
proof -
  assume "booksOk (map be_book (sd_books s))"
  then have "e \<in> set (sd_books s) \<Longrightarrow> logicalBookOf (logicalBookVal (be_book e)) = be_book e" for e
    by (simp add: booksOk_def logicalBookOf_val)
  then show ?thesis
    by (cases s) (simp add: stateOf_def stateVal_def entryClock_def map_on_set comp_def map_idI)
qed

lemma plain_stateVal:
  assumes "isLogicalBookStateDocument nfkc lc (stateVal s)" and "booksOk (map be_book (sd_books s))"
  shows "plainJson (stateVal s)"
proof -
  have "isBookRecord (bookVal (ve_variant e))" if "e \<in> set (sd_variants s)" for e
    using assms(1) that by (auto simp: isLogicalBookStateDocument_def stateVal_def stringsVal_def isVariantEntry_def split: if_splits)
  then have "plainJson (bookVal (ve_variant e))" if "e \<in> set (sd_variants s)" for e
    using that plain_bookVal by blast
  moreover have "plainJson (withDefault JNull formatPreferenceVal p)" for p
    by (cases p) (simp_all add: plain_formatPreferenceVal)
  ultimately show ?thesis
    using assms(2) by (auto simp: stateVal_def plain_simps booksOk_def)
qed

lemma booksOk_canonicalize: "booksOk (map be_book (sd_books s)) \<Longrightarrow> booksOk (map be_book (sd_books (canonicalizeLogicalBookState lc s)))"
  by (simp add: booksOk_def canonicalizeLogicalBookState_def Let_def)

text \<open>C20. Whenever a state document is written, the text that is written can be read again, and reading it gives the
  state in its canonical form; writing that state gives the same text.\<close>

theorem state_text_roundtrip:
  assumes "collation lc" and "booksOk (map be_book (sd_books s))" and "serializeLogicalBookState nfkc lc s = Inr content"
  shows "parseLogicalBookState nfkc lc content = Inr (canonicalizeLogicalBookState lc s) \<and>
    serializeLogicalBookState nfkc lc (canonicalizeLogicalBookState lc s) = Inr content"
proof -
  let ?c = "canonicalizeLogicalBookState lc s"
  have idem: "canonicalizeLogicalBookState lc ?c = ?c" by (rule canonicalize_idem [OF assms(1)])
  have valid: "isLogicalBookStateDocument nfkc lc (stateVal ?c)" and small: "byteLength content \<le> LOGICAL_BOOK_STATE_MAX_BYTES"
    and content: "content = prettyAt 0 (stateVal ?c) @ [CHR 0x0A]"
    using assms(3) by (auto simp: serializeLogicalBookState_def Let_def split: if_splits)
  note books = booksOk_canonicalize [OF assms(2), of lc]
  have "parseJson content = Some (stateVal ?c)"
    unfolding content by (rule parseJson_pretty [OF plain_stateVal [OF valid books] spaces_final])
  then show ?thesis
    using valid small stateOf_val [OF books] idem assms(3)
    by (simp add: parseLogicalBookState_def serializeLogicalBookState_def Let_def)
qed

lemma byteLength_bound: "byteLength s \<le> 2 * length s"
  by (induction s) (simp_all add: byteLength_def)

theorem state_text_roundtrip_witness:
  "\<exists>content. serializeLogicalBookState id codeUnitCompare deletedState = Inr content \<and>
    parseLogicalBookState id codeUnitCompare content = Inr (canonicalizeLogicalBookState codeUnitCompare deletedState)"
proof -
  let ?text = "prettyAt 0 (stateVal deletedState) @ [CHR 0x0A]"
  have canonical: "canonicalizeLogicalBookState codeUnitCompare deletedState = deletedState" by code_simp
  have "length ?text \<le> 2500" by code_simp
  then have "byteLength ?text \<le> LOGICAL_BOOK_STATE_MAX_BYTES"
    using byteLength_bound [of ?text] by (simp add: LOGICAL_BOOK_STATE_MAX_BYTES_def del: prettyAt.simps)
  then obtain content where content: "serializeLogicalBookState id codeUnitCompare deletedState = Inr content"
    using example_states_valid(2) by (simp add: serializeLogicalBookState_def canonical Let_def del: prettyAt.simps)
  have "booksOk (map be_book (sd_books deletedState))" by code_simp
  from state_text_roundtrip [OF ascii.collation_axioms this content] content show ?thesis by blast
qed

section \<open>Progress documents\<close>

text \<open>A progress document that is pushed is read back as it was by every device, when the numbers of its position are
  read back as they are written.\<close>

theorem progress_text_roundtrip:
  assumes "isReadingProgress (progressVal p)" and "plainJson (progressVal p)"
  shows "parseProgressFile \<lparr>rd_path = progressPath p, rd_content = serializeProgress p, rd_revision = revision\<rparr> = Some p"
  using assms parseJson_pretty [OF assms(2) spaces_final, of 0]
  by (simp add: parseProgressFile_def serializeProgress_def)

theorem progress_text_roundtrip_witness:
  "parseProgressFile \<lparr>rd_path = progressPath sampleProgress, rd_content = serializeProgress sampleProgress, rd_revision = ''1''\<rparr> =
    Some sampleProgress"
proof -
  have "plainJson (progressVal sampleProgress)" by code_simp
  then show ?thesis using progress_text_roundtrip [OF isReadingProgress_sample] by simp
qed

end
