(* ===== verification/Catalog_Refinement.thy ===== *)
theory Catalog_Refinement
  imports Catalog_Safety
begin

text \<open>
  The catalog of logical books refines a relation between books, formats and publications. The abstract
  operations move, split, drop and add tuples of the relation under their guards; the operations of the repository, with all
  their reads, quarantines and writes to several stores, change the relation of the stored records in exactly
  these ways, and not at all when they are refused.
\<close>

section \<open>The abstract catalog\<close>

type_synonym membership = "(string \<times> PublicationFormat \<times> string) set"

datatype catalogOp =
    OpAssociate string string
  | OpDetach string string
  | OpDelete string "string option"
  | OpAdd string BookRecord BookSource string "(string \<times> string) option"

definition membersOf :: "membership \<Rightarrow> string \<Rightarrow> string set" where
  "membersOf R x = {i. \<exists>f. (x, f, i) \<in> R}"

definition deleteTargets :: "membership \<Rightarrow> string \<Rightarrow> string option \<Rightarrow> string set" where
  "deleteTargets R x t = (case t of None \<Rightarrow> membersOf R x | Some i \<Rightarrow> {i})"

inductive catalogSpec :: "catalogOp \<Rightarrow> membership \<Rightarrow> membership \<Rightarrow> bool" where
  spec_associate: "d \<noteq> s \<Longrightarrow> membersOf R d \<noteq> {} \<Longrightarrow> membersOf R s \<noteq> {} \<Longrightarrow> (\<And>f i j. (d, f, i) \<in> R \<Longrightarrow> (s, f, j) \<notin> R) \<Longrightarrow>
    R' = {(x, f, i) \<in> R. x \<noteq> s} \<union> {(x, f, i). x = d \<and> (s, f, i) \<in> R} \<Longrightarrow> catalogSpec (OpAssociate d s) R R'"
| spec_detach: "(x, f, i) \<in> R \<Longrightarrow> (x, g, j) \<in> R \<Longrightarrow> f \<noteq> g \<Longrightarrow> membersOf R n = {} \<Longrightarrow>
    R' = R - {(x, f, i)} \<union> {(n, f, i)} \<Longrightarrow> catalogSpec (OpDetach x i) R R'"
| spec_delete: "membersOf R x \<noteq> {} \<Longrightarrow> deleteTargets R x t \<subseteq> membersOf R x \<Longrightarrow>
    R' = {(y, f, i) \<in> R. y = x \<longrightarrow> i \<notin> deleteTargets R x t} \<Longrightarrow> catalogSpec (OpDelete x t) R R'"
| spec_add: "membersOf R x \<noteq> {} \<Longrightarrow> (\<And>y f. (y, f, br_id variant) \<notin> R) \<Longrightarrow> (\<And>i. (x, br_format variant, i) \<notin> R) \<Longrightarrow>
    R' = R \<union> {(x, br_format variant, br_id variant)} \<Longrightarrow> catalogSpec (OpAdd x variant source path cover) R R'"

inductive_cases catalogSpecE: "catalogSpec op R R'"

text \<open>What the specification promises: a publication in at most one book, a format at most once in a book.\<close>

definition membershipOk :: "membership \<Rightarrow> bool" where
  "membershipOk R \<longleftrightarrow>
     (\<forall>x y f g i. (x, f, i) \<in> R \<longrightarrow> (y, g, i) \<in> R \<longrightarrow> x = y \<and> f = g) \<and>
     (\<forall>x f i j. (x, f, i) \<in> R \<longrightarrow> (x, f, j) \<in> R \<longrightarrow> i = j)"

lemma catalogSpec_ok: "catalogSpec op R R' \<Longrightarrow> membershipOk R \<Longrightarrow> membershipOk R'"
proof (induction rule: catalogSpec.induct)
  case (spec_associate d s R R')
  then show ?case unfolding membershipOk_def by blast
next
  case (spec_detach x f i R g j n R')
  then show ?case unfolding membershipOk_def membersOf_def by blast
next
  case (spec_delete R x t R')
  then show ?case unfolding membershipOk_def by blast
next
  case (spec_add R x variant R' source path cover)
  then show ?case unfolding membershipOk_def by blast
qed

section \<open>The relation of the stored records\<close>

definition catalogRel :: "LibraryDb \<Rightarrow> membership" where
  "catalogRel db = {(x, f, i). \<exists>v. idbGet db LOGICAL_BOOKS_STORE [x] = Some v \<and> isLogicalBookRecord v \<and>
     (f, i) \<in> set (lb_variants (logicalBookOf v))}"

definition sameBooks :: "LibraryDb \<Rightarrow> LibraryDb \<Rightarrow> bool" where
  "sameBooks db db' \<longleftrightarrow>
     (\<forall>k v. isLogicalBookRecord v \<longrightarrow> idbGet db' LOGICAL_BOOKS_STORE k = Some v \<longleftrightarrow> idbGet db LOGICAL_BOOKS_STORE k = Some v)"

lemma sameBooks_refl [simp]: "sameBooks db db"
  by (simp add: sameBooks_def)

lemma sameBooks_trans: "sameBooks db1 db2 \<Longrightarrow> sameBooks db2 db3 \<Longrightarrow> sameBooks db1 db3"
  by (simp add: sameBooks_def)

lemma sameBooks_eq: "(\<And>k. idbGet db' LOGICAL_BOOKS_STORE k = idbGet db LOGICAL_BOOKS_STORE k) \<Longrightarrow> sameBooks db db'"
  by (simp add: sameBooks_def)

lemma catalogRel_same: "sameBooks db db' \<Longrightarrow> catalogRel db' = catalogRel db"
  unfolding catalogRel_def sameBooks_def by blast

text \<open>Reads put aside records that are no logical books; the others stay.\<close>

lemma quarantine_other: "s \<noteq> s' \<Longrightarrow> idbGet (quarantineInvalidRecord db s k validator reason) s' k' = idbGet db s' k'"
  by (auto simp: quarantineInvalidRecord_def idbGet_def split: option.splits)

lemma sameBooks_quarantine:
  assumes "s = LOGICAL_BOOKS_STORE \<Longrightarrow> (\<And>v. idbGet db s k = Some v \<Longrightarrow> isLogicalBookRecord v \<Longrightarrow> validator v)"
  shows "sameBooks db (quarantineInvalidRecord db s k validator reason)"
proof (cases "s = LOGICAL_BOOKS_STORE")
  case True
  then show ?thesis
    using assms by (auto simp: sameBooks_def quarantineInvalidRecord_def idbGet_def delete_conv split: option.splits)
next
  case False
  then show ?thesis by (intro sameBooks_eq quarantine_other)
qed

lemma sameBooks_readValidated:
  "(s = LOGICAL_BOOKS_STORE \<Longrightarrow> (\<And>v. idbGet db s k = Some v \<Longrightarrow> isLogicalBookRecord v \<Longrightarrow> validator v)) \<Longrightarrow>
   sameBooks db (snd (readValidated db s k validator reason))"
  using sameBooks_quarantine [of s db k validator reason] by (auto simp: readValidated_def split: option.splits)

lemma sameBooks_entries:
  assumes "s = LOGICAL_BOOKS_STORE \<Longrightarrow> (\<And>v. isLogicalBookRecord v \<Longrightarrow> validator v)"
  shows "sameBooks db (snd (validatedEntries db s entries validator reason))"
proof -
  have "sameBooks db (snd (foldl (\<lambda>(valid, db) (k, v).
         if validator v then (valid @ [v], db) else (valid, quarantineInvalidRecord db s k validator reason)) (vs, d) es))"
    if "sameBooks db d" for vs d es
    using that
  proof (induction es arbitrary: vs d)
    case (Cons e es)
    have "sameBooks d (quarantineInvalidRecord d s k validator reason)" for k
      using assms by (intro sameBooks_quarantine) blast
    then show ?case using Cons sameBooks_trans by (auto split: prod.splits)
  qed simp
  then show ?thesis unfolding validatedEntries_def by simp
qed

lemma sameBooks_index:
  "(s = LOGICAL_BOOKS_STORE \<Longrightarrow> (\<And>v. isLogicalBookRecord v \<Longrightarrow> validator v)) \<Longrightarrow>
   sameBooks db (snd (readAllByIndexValidated db s index i validator reason))"
  "(s = LOGICAL_BOOKS_STORE \<Longrightarrow> (\<And>v. isLogicalBookRecord v \<Longrightarrow> validator v)) \<Longrightarrow>
   sameBooks db (snd (readAllValidated db s validator reason))"
  unfolding readAllByIndexValidated_def readAllValidated_def by (rule sameBooks_entries, blast)+

lemma sameBooks_other:
  "s \<noteq> LOGICAL_BOOKS_STORE \<Longrightarrow> sameBooks db (snd (readAllByIndexValidated db s index i validator reason))"
  "s \<noteq> LOGICAL_BOOKS_STORE \<Longrightarrow> sameBooks db (snd (readAllValidated db s validator reason))"
  by (rule sameBooks_index, blast)+

lemma sameBooks_getLogicalBook: "dbOk db \<Longrightarrow> sameBooks db (snd (getLogicalBook db i))"
  unfolding getLogicalBook_def
proof (rule sameBooks_readValidated)
  fix v assume "dbOk db" "idbGet db LOGICAL_BOOKS_STORE [i] = Some v" "isLogicalBookRecord v"
  then have "strOf (getProp v ''id'') = i" "isLogicalBookId (getProp v ''id'')"
    using dbOk_key by (fastforce simp: recordKey_logicalBook logicalBookOf_def, auto simp: isLogicalBookRecord_def Let_def split: if_splits)
  then show "isLogicalBookRecord v \<and> getProp v ''id'' = JStr i"
    using \<open>isLogicalBookRecord v\<close> by (auto simp: isLogicalBookId_def strOf_def split: jsval.splits)
qed

lemma sameBooks_getters:
  "sameBooks db (snd (getBook db i))" "sameBooks db (snd (getLogicalBookFormatPreference db i))"
  "sameBooks db (snd (getBookCover db i))" "sameBooks db (snd (getStoredBinary db i))"
  "sameBooks db (snd (findLogicalBookByVariant db i))" "sameBooks db (snd (saveBinary fs db request))"
  "sameBooks db (removeBinary fs stored db)"
proof -
  show "sameBooks db (snd (findLogicalBookByVariant db i))"
  proof -
    let ?read = "\<lambda>d f. readAllByIndexValidated d LOGICAL_BOOKS_STORE (\<lambda>v. getProp (getProp v ''variants'') (formatString f)) i
      isLogicalBookRecord ''Logical book failed membership or schema validation''"
    have read: "sameBooks d (snd (?read d f))" for d f by (rule sameBooks_index(1))
    then have "sameBooks db (snd (?read (snd (?read db Epub)) Pdf))" using sameBooks_trans by blast
    then show ?thesis using read [of db Epub] by (auto simp: findLogicalBookByVariant_def Let_def split_beta split: list.splits)
  qed
  show "sameBooks db (snd (saveBinary fs db request))" by (intro sameBooks_eq saveBinary_idbGet)
  show "sameBooks db (removeBinary fs stored db)" by (intro sameBooks_eq) simp
qed (auto simp: getBook_def getLogicalBookFormatPreference_def getBookCover_def getStoredBinary_def split_beta
    intro: sameBooks_readValidated sameBooks_quarantine split: option.splits)

section \<open>The written records are logical books\<close>

lemma bounded_strOf: "isBoundedString v n \<Longrightarrow> strOf v \<noteq> [] \<and> length (strOf v) \<le> n"
  by (cases v) (simp_all add: isBoundedString_def)

lemma bounded_optOf: "isOptionalBoundedString v n \<Longrightarrow> l \<in> set_option (optOf strOf v) \<Longrightarrow> l \<noteq> [] \<and> length l \<le> n"
  using bounded_strOf [of v n] by (auto simp: isOptionalBoundedString_def optOf_def split: if_splits)

lemma authors_arrOf: "isAuthors v \<Longrightarrow> length (arrOf v) \<le> 64 \<and> (\<forall>a \<in> set (map strOf (arrOf v)). a \<noteq> [] \<and> length a \<le> 512)"
  using bounded_strOf by (cases v) (auto simp: isAuthors_def isBoundedArray_def)

lemma logicalBookOf_valid:
  assumes "isLogicalBookRecord v" and "isIsoString now" and "\<And>f i. map_of vs f = Some i \<Longrightarrow> matchesSha256 ''sha256:'' i" and "vs \<noteq> []"
    and "map_of vs Epub = None \<or> map_of vs Epub \<noteq> map_of vs Pdf"
  shows "isLogicalBookRecord (logicalBookVal ((logicalBookOf v)\<lparr>lb_variants := vs, lb_updatedAt := now\<rparr>))"
proof -
  have v: "isLogicalBookId (getProp v ''id'')" "isBoundedString (getProp v ''title'') 1024" "isAuthors (getProp v ''authors'')"
    "isOptionalBoundedString (getProp v ''language'') 128" "isOptionalBoundedString (getProp v ''publisher'') 1024"
    "isOptionalBoundedString (getProp v ''identifier'') 1024" "isCanonicalTimestamp (getProp v ''importedAt'')"
    using assms(1) by (simp_all add: isLogicalBookRecord_def Let_def split: if_splits)
  have "matchesSha256 ''logical:sha256:'' (strOf (getProp v ''id''))"
    using v(1) by (cases "getProp v ''id''") (simp_all add: isLogicalBookId_def)
  moreover have "isIsoString (strOf (getProp v ''importedAt''))"
    using v(7) by (cases "getProp v ''importedAt''") (simp_all add: isCanonicalTimestamp_def)
  moreover have "\<forall>f. \<forall>i \<in> set_option (map_of vs f). matchesSha256 ''sha256:'' i" using assms(3) by auto
  ultimately show ?thesis
    unfolding isLogicalBookRecord_iff logicalBookOf_def LogicalBookRecord.simps
    using assms(2,4,5) bounded_strOf [OF v(2)] authors_arrOf [OF v(3)] bounded_optOf [OF v(4)] bounded_optOf [OF v(5)] bounded_optOf [OF v(6)]
    by simp
qed

lemma distinct_map_filter_fst:
  "distinct ks \<Longrightarrow> inj_on h (set ks) \<Longrightarrow> (\<And>k y. g k = Some y \<Longrightarrow> fst y = h k) \<Longrightarrow> distinct (map fst (List.map_filter g ks))"
proof (induction ks)
  case (Cons k ks)
  have "fst y \<noteq> h k" if y: "y \<in> set (List.map_filter g ks)" for y
  proof -
    obtain j where j: "j \<in> set ks" "g j = Some y" using y by (auto simp: mem_map_filter)
    then show ?thesis using Cons.prems by (metis inj_onD distinct.simps(2) list.set_intros(1,2))
  qed
  then show ?case using Cons by (auto split: option.splits) (metis fst_conv)
qed simp

lemma validMembers:
  assumes "isLogicalBookRecord v"
  shows "(f, i) \<in> set (lb_variants (logicalBookOf v)) \<Longrightarrow> matchesSha256 ''sha256:'' i"
    and "(f, i) \<in> set (lb_variants (logicalBookOf v)) \<Longrightarrow> (g, i) \<in> set (lb_variants (logicalBookOf v)) \<Longrightarrow> f = g"
    and "mapOk (lb_variants (logicalBookOf v))"
    and "lb_variants (logicalBookOf v) \<noteq> []"
proof -
  let ?vs = "lb_variants (logicalBookOf v)" and ?w = "getProp v ''variants''"
  have w: "getProp ?w ''epub'' = JUndef \<or> isVariantId (getProp ?w ''epub'')" "getProp ?w ''pdf'' = JUndef \<or> isVariantId (getProp ?w ''pdf'')"
    "getProp ?w ''epub'' \<noteq> JUndef \<or> getProp ?w ''pdf'' \<noteq> JUndef"
    "getProp ?w ''epub'' = JUndef \<or> getProp ?w ''pdf'' = JUndef \<or> getProp ?w ''epub'' \<noteq> getProp ?w ''pdf''"
    "\<forall>key \<in> set (objectKeys ?w). key = ''epub'' \<or> key = ''pdf''"
    using assms by (auto simp: isLogicalBookRecord_def Let_def split: if_splits)
  show "(f, i) \<in> set ?vs \<Longrightarrow> matchesSha256 ''sha256:'' i"
    using w(1,2) by (cases f) (auto simp: mem_variantsOf [OF assms] formatString_def)
  show "(f, i) \<in> set ?vs \<Longrightarrow> (g, i) \<in> set ?vs \<Longrightarrow> f = g"
    using w(4) by (cases f; cases g) (auto simp: mem_variantsOf [OF assms] formatString_def)
  have "formatString Epub = ''epub''" "formatString Pdf = ''pdf''" by (simp_all add: formatString_def)
  then obtain f where "getProp ?w (formatString f) \<noteq> JUndef" using w(3) by metis
  then obtain i where "getProp ?w (formatString f) = JStr i"
    using w(1,2) by (cases f) (auto simp: formatString_def isVariantId_def split: jsval.splits)
  then show "?vs \<noteq> []" using mem_variantsOf [OF assms, of f i] by auto
  have "inj_on (\<lambda>k. formatOf (JStr k)) {''epub'', ''pdf''}" by (auto simp: inj_on_def formatOf_def)
  then have inj: "inj_on (\<lambda>k. formatOf (JStr k)) (set (jsUnique (objectKeys ?w)))"
    by (rule inj_on_subset) (use w(5) in auto)
  show "mapOk ?vs"
    unfolding logicalBookOf_def variantsOf_def LogicalBookRecord.simps
    by (rule distinct_map_filter_fst [OF _ inj]) (auto split: jsval.splits)
qed

lemma validMembers_some: "isLogicalBookRecord v \<Longrightarrow> \<exists>f i. map_of (lb_variants (logicalBookOf v)) f = Some i"
  using validMembers(4) [of v] by (metis list.exhaust map_of_Cons_code(2) prod.exhaust)

lemma catalogRel_put:
  assumes "isLogicalBookRecord (logicalBookVal b)"
  shows "catalogRel (idbPut LOGICAL_BOOKS_STORE (logicalBookVal b) db) =
    {(x, f, i) \<in> catalogRel db. x \<noteq> lb_id b} \<union> {(x, f, i). x = lb_id b \<and> map_of (lb_variants b) f = Some i}"
proof -
  have "(f, i) \<in> set (lb_variants (logicalBookOf (logicalBookVal b))) \<longleftrightarrow> map_of (lb_variants b) f = Some i" for f i
    unfolding mem_variantsOf [OF assms] by (cases "map_of (lb_variants b) f") simp_all
  then show ?thesis using assms by (auto simp: catalogRel_def idbGet_idbWrite split: if_splits)
qed

lemma catalogRel_delete: "catalogRel (idbDelete LOGICAL_BOOKS_STORE [y] db) = {(x, f, i) \<in> catalogRel db. x \<noteq> y}"
  by (auto simp: catalogRel_def idbGet_idbDelete split: if_splits)

lemma catalogRel_cong:
  "(\<And>k. idbGet db' LOGICAL_BOOKS_STORE k = idbGet db LOGICAL_BOOKS_STORE k) \<Longrightarrow> catalogRel db' = catalogRel db"
  by (simp add: catalogRel_def)

lemma catalogRel_book:
  assumes "idbGet db LOGICAL_BOOKS_STORE [x] = Some v" and "isLogicalBookRecord v"
  shows "(x, f, i) \<in> catalogRel db \<longleftrightarrow> map_of (lb_variants (logicalBookOf v)) f = Some i"
  using assms validMembers(3) [OF assms(2)] by (simp add: catalogRel_def map_of_eq_Some_iff)

lemma catalogRel_ok:
  assumes "exclusiveCatalog db"
  shows "membershipOk (catalogRel db)"
proof -
  have "x = y \<and> f = g" if xy: "(x, f, i) \<in> catalogRel db" "(y, g, i) \<in> catalogRel db" for x y f g i
  proof -
    obtain v w where v: "idbGet db LOGICAL_BOOKS_STORE [x] = Some v" "isLogicalBookRecord v" "(f, i) \<in> set (lb_variants (logicalBookOf v))"
      and w: "idbGet db LOGICAL_BOOKS_STORE [y] = Some w" "isLogicalBookRecord w" "(g, i) \<in> set (lb_variants (logicalBookOf w))"
      using xy unfolding catalogRel_def by blast
    then have "i \<in> memberIds v \<inter> memberIds w" by (force simp: memberIds_iff)
    then have "[x] = [y]" using assms v(1) w(1) unfolding exclusiveCatalog_def by blast
    then show ?thesis using v w validMembers(2) [OF v(2)] by auto
  qed
  moreover have "i = j" if xf: "(x, f, i) \<in> catalogRel db" "(x, f, j) \<in> catalogRel db" for x f i j
  proof -
    obtain v where v: "idbGet db LOGICAL_BOOKS_STORE [x] = Some v" "isLogicalBookRecord v" using xf(1) by (auto simp: catalogRel_def)
    then show ?thesis using xf catalogRel_book [OF v] by simp
  qed
  ultimately show ?thesis unfolding membershipOk_def by blast
qed

section \<open>Association\<close>

text \<open>The committed association with the guard the code checks.\<close>

lemma associate_steps:
  assumes "dbOk db" and "associate (\<lambda>d. d) db x y identity = (r, db')"
  obtains (refused) e where "r = Inl e" and "sameBooks db db'"
  | (committed) d s m where "r = Inr m" and "x \<noteq> y" and "idbGet db LOGICAL_BOOKS_STORE [x] = Some d" and "isLogicalBookRecord d"
      and "idbGet db LOGICAL_BOOKS_STORE [y] = Some s" and "isLogicalBookRecord s"
      and "\<forall>f. map_of (lb_variants (logicalBookOf d)) f = None \<or> map_of (lb_variants (logicalBookOf s)) f = None"
      and "lb_id (logicalBookOf d) = x"
      and "\<And>k. idbGet db' LOGICAL_BOOKS_STORE k = idbGet (idbPut LOGICAL_BOOKS_STORE (logicalBookVal ((logicalBookOf d)
          \<lparr>lb_variants := spread (lb_variants (logicalBookOf d)) (lb_variants (logicalBookOf s)), lb_updatedAt := mi_createdAt identity\<rparr>))
          (idbDelete LOGICAL_BOOKS_STORE [y] db)) LOGICAL_BOOKS_STORE k"
proof -
  obtain dv db1 where g1: "getLogicalBook db x = (dv, db1)" by fastforce
  obtain sv db2 where g2: "getLogicalBook db1 y = (sv, db2)" by fastforce
  note r1 = getLogicalBook_result [OF g1] and r2 = getLogicalBook_result [OF g2]
  have "dbOk db1" using dbOk_reads(2) [OF assms(1), of x] by (simp add: g1)
  then have same: "sameBooks db db2"
    using sameBooks_getLogicalBook [OF assms(1), of x] sameBooks_getLogicalBook [of db1 y] sameBooks_trans by (simp add: g1 g2)
  note eq = assms(2) [unfolded associate_def Let_def g1 g2 prod.case]
  show ?thesis
  proof (cases "x = y \<or> dv = None \<or> sv = None")
    case True
    then have "(r, db') = (Inl SelfAssociation, db) \<or> (r, db') = (Inl LogicalBookNotFound, db2)"
      using eq by (cases dv; cases sv) (auto split: if_splits)
    then show ?thesis using same refused by auto
  next
    case False
    then obtain d s where ds: "dv = Some d" "sv = Some s" "x \<noteq> y" by (cases dv; cases sv) auto
    let ?d = "logicalBookOf d" and ?s = "logicalBookOf s"
    have d: "idbGet db LOGICAL_BOOKS_STORE [x] = Some d" "isLogicalBookRecord d" "lb_id ?d = x" "db1 = db" using r1(2) [OF ds(1)] by auto
    have s: "idbGet db LOGICAL_BOOKS_STORE [y] = Some s" "isLogicalBookRecord s" "db2 = db" using r2(2) [OF ds(2)] d(4) by auto
    define clash where "clash = filter (\<lambda>f. map_of (lb_variants ?d) f \<noteq> None \<and> map_of (lb_variants ?s) f \<noteq> None) [Epub, Pdf]"
    note eq' = eq [unfolded ds(1,2) prod.case option.case s(3), folded clash_def]
    show ?thesis
    proof (cases clash)
      case (Cons f fs)
      then show ?thesis using eq' ds(3) refused by auto
    next
      case Nil
      then have "map_of (lb_variants ?d) f = None \<or> map_of (lb_variants ?s) f = None" for f
        by (cases f) (auto simp: clash_def split: if_splits)
      then show ?thesis
        using eq' ds(3) Nil d s committed [of _ d s] by (auto simp: idbGet_idbWrite idbGet_idbDelete)
    qed
  qed
qed

lemma map_of_spread: "mapOk m' \<Longrightarrow> map_of (spread m m') f = (case map_of m' f of None \<Rightarrow> map_of m f | Some i \<Rightarrow> Some i)"
proof (induction m' arbitrary: m)
  case (Cons e es)
  have "spread m (e # es) = spread (mapSet (fst e) (snd e) m) es" by (simp add: spread_def split_beta)
  then show ?case
    using Cons by (auto simp: mapGet_mapSet split: option.splits dest: map_of_SomeD) (metis fst_conv image_eqI map_of_SomeD)
qed (simp add: spread_def)

lemma associate_refines:
  assumes ok: "dbOk db" "exclusiveCatalog db" "isIsoString (mi_createdAt identity)"
    and run: "associate (\<lambda>d. d) db x y identity = (r, db')"
  shows "if isl r then catalogRel db' = catalogRel db else catalogSpec (OpAssociate x y) (catalogRel db) (catalogRel db')"
  using ok(1) run
proof (cases rule: associate_steps)
  case (refused e)
  then show ?thesis by (simp add: catalogRel_same)
next
  case (committed d s m)
  let ?R = "catalogRel db" and ?d = "lb_variants (logicalBookOf d)" and ?s = "lb_variants (logicalBookOf s)"
  note dx = catalogRel_book [OF committed(3,4)] and sy = catalogRel_book [OF committed(5,6)]
  have spread: "map_of (spread ?d ?s) f = (case map_of ?s f of None \<Rightarrow> map_of ?d f | Some i \<Rightarrow> Some i)" for f
    by (rule map_of_spread [OF validMembers(3) [OF committed(6)]])
  have valid: "isLogicalBookRecord (logicalBookVal ((logicalBookOf d)\<lparr>lb_variants := spread ?d ?s, lb_updatedAt := mi_createdAt identity\<rparr>))"
  proof (rule logicalBookOf_valid [OF committed(4) ok(3)])
    show "map_of (spread ?d ?s) f = Some i \<Longrightarrow> matchesSha256 ''sha256:'' i" for f i
      using validMembers(1) [OF committed(4), of f i] validMembers(1) [OF committed(6), of f i]
      by (auto simp: spread split: option.splits dest: map_of_SomeD)
    obtain f i where "map_of ?d f = Some i" using validMembers_some [OF committed(4)] by blast
    then have "map_of (spread ?d ?s) f \<noteq> None" by (auto simp: spread split: option.split)
    then show "spread ?d ?s \<noteq> []" by auto
    have "x \<noteq> y" "membershipOk ?R" using committed(2) catalogRel_ok [OF ok(2)] by auto
    then show "map_of (spread ?d ?s) Epub = None \<or> map_of (spread ?d ?s) Epub \<noteq> map_of (spread ?d ?s) Pdf"
      using dx sy unfolding spread membershipOk_def
      by (auto split: option.splits) (metis PublicationFormat.distinct(1))+
  qed
  have either: "map_of (spread ?d ?s) f = Some i \<longleftrightarrow> (x, f, i) \<in> ?R \<or> (y, f, i) \<in> ?R" for f i
    using committed(7) [rule_format, of f] by (auto simp: spread dx sy split: option.splits)
  have "catalogRel db' = {(u, f, i) \<in> ?R. u \<noteq> y} \<union> {(u, f, i). u = x \<and> (y, f, i) \<in> ?R}"
    unfolding catalogRel_cong [OF committed(9)] catalogRel_put [OF valid] catalogRel_delete
    using committed(2,8) by (auto simp: either)
  moreover have "membersOf ?R x \<noteq> {}" "membersOf ?R y \<noteq> {}"
    using validMembers_some [OF committed(4)] validMembers_some [OF committed(6)] dx sy by (auto simp: membersOf_def)
  moreover have "(x, f, i) \<in> ?R \<Longrightarrow> (y, f, j) \<notin> ?R" for f i j using committed(7) dx sy by (metis option.distinct(1))
  ultimately have "catalogSpec (OpAssociate x y) ?R (catalogRel db')"
    using committed(2) by (intro spec_associate) auto
  then show ?thesis using committed(1) by simp
qed

section \<open>Deletion\<close>

lemma sameBooks_lists:
  "sameBooks db (snd (listBooks lc db))" "sameBooks db (snd (listProgressDocuments lc db i))"
  "sameBooks db (snd (listBookmarks lc db i d))" "sameBooks db (snd (listAnnotations lc db i d))"
proof -
  show books: "sameBooks db (snd (listBooks lc db))" for db
    by (simp add: listBooks_def split_beta sameBooks_other(2))
  have marks: "sameBooks db (snd (listMarks lc db s isMark reason i d))" if "s \<noteq> LOGICAL_BOOKS_STORE" for s isMark reason
    using sameBooks_trans [OF books sameBooks_other(1) [OF that]] sameBooks_trans [OF books sameBooks_other(2) [OF that]]
    by (simp add: listMarks_def split_beta Let_def split: option.split)
  show "sameBooks db (snd (listBookmarks lc db i d))" "sameBooks db (snd (listAnnotations lc db i d))"
    by (simp_all add: listBookmarks_def listAnnotations_def marks)
  have other: "PROGRESS_DOCUMENTS_STORE \<noteq> LOGICAL_BOOKS_STORE" by simp
  show "sameBooks db (snd (listProgressDocuments lc db i))"
    using sameBooks_trans [OF books sameBooks_other(1) [OF other]] sameBooks_trans [OF books sameBooks_other(2) [OF other]]
    by (simp add: listProgressDocuments_def split_beta Let_def split: option.split)
qed

lemma sameBooks_cleanup: "sameBooks (snd st) (snd (foldl (collectCleanup lc) st ts))"
proof (induction ts arbitrary: st)
  case (Cons t ts)
  have "sameBooks (snd st) (snd (collectCleanup lc st t))"
    unfolding collectCleanup_def Let_def split_beta snd_conv
    using sameBooks_getters(4) sameBooks_lists sameBooks_trans by (metis (no_types, lifting))
  then show ?case using Cons.IH [of "collectCleanup lc st t"] sameBooks_trans by simp
qed simp

lemma books_deleteItems: "idbGet (fold deleteItem items db) LOGICAL_BOOKS_STORE k = idbGet db LOGICAL_BOOKS_STORE k"
  by (simp add: idbGet_deleteItems itemKeys_def itemRecords_def variantStores_def)

lemma deleteVariant_steps:
  assumes "dbOk db" and "deleteVariant fs lc (\<lambda>d. d) db x t identity = (r, db')"
  obtains (refused) e where "r = Inl e" and "sameBooks db db'"
  | (committed) b targets remaining db3 where "\<not> isl r" and "idbGet db LOGICAL_BOOKS_STORE [x] = Some b" and "isLogicalBookRecord b"
      and "lb_id (logicalBookOf b) = x" and "sameBooks db db3"
      and "targets = (case t of None \<Rightarrow> mapValues (lb_variants (logicalBookOf b)) | Some i \<Rightarrow> [i])"
      and "set targets \<subseteq> set (mapValues (lb_variants (logicalBookOf b)))"
      and "remaining = filter (\<lambda>(f, i). i \<notin> set targets) (lb_variants (logicalBookOf b))"
      and "\<And>k. idbGet db' LOGICAL_BOOKS_STORE k =
        idbGet (if remaining = [] then idbDelete LOGICAL_BOOKS_STORE [x] db3
          else idbPut LOGICAL_BOOKS_STORE (logicalBookVal ((logicalBookOf b)\<lparr>lb_variants := remaining, lb_updatedAt := mi_createdAt identity\<rparr>)) db3)
          LOGICAL_BOOKS_STORE k"
proof -
  obtain bv db1 where g: "getLogicalBook db x = (bv, db1)" by fastforce
  note r = getLogicalBook_result [OF g]
  have same1: "sameBooks db db1" using sameBooks_getLogicalBook [OF assms(1), of x] by (simp add: g)
  show ?thesis
  proof (cases bv)
    case None
    then show ?thesis using same1 assms refused by (auto simp: deleteVariant_def g)
  next
    case (Some b)
    have b: "idbGet db LOGICAL_BOOKS_STORE [x] = Some b" "isLogicalBookRecord b" "lb_id (logicalBookOf b) = x" "db1 = db"
      using r(2) [OF Some] by auto
    define targets where "targets = (case t of None \<Rightarrow> mapValues (lb_variants (logicalBookOf b)) | Some j \<Rightarrow> [j])"
    define remaining where "remaining = filter (\<lambda>(f, j). j \<notin> set targets) (lb_variants (logicalBookOf b))"
    obtain cleanup db2 where c: "foldl (collectCleanup lc) ([], db) targets = (cleanup, db2)" by fastforce
    obtain p db3 where p: "getLogicalBookFormatPreference db2 x = (p, db3)" by fastforce
    have same3: "sameBooks db db3"
      using sameBooks_cleanup [of "([], db)" lc targets] sameBooks_getters(2) [of db2 x] sameBooks_trans by (simp add: c p)
    note eq = assms(2) [unfolded deleteVariant_def Let_def g prod.case Some option.case b(4), folded targets_def,
        unfolded c prod.case p, folded remaining_def]
    show ?thesis
    proof (cases "\<exists>i \<in> set targets. i \<notin> set (mapValues (lb_variants (logicalBookOf b)))")
      case True
      then show ?thesis using eq b(4) refused by auto
    next
      case False
      then have sub: "set targets \<subseteq> set (mapValues (lb_variants (logicalBookOf b)))" by auto
      show ?thesis
        by (rule committed [OF _ b(1-3) same3 targets_def sub remaining_def]; use eq False in
            \<open>auto simp: idbGet_idbWrite idbGet_idbDelete books_deleteItems split: list.splits option.splits if_splits\<close>)
    qed
  qed
qed

lemma map_of_filter_values: "mapOk m \<Longrightarrow> map_of (filter (\<lambda>(f, i). P i) m) f = (case map_of m f of Some i \<Rightarrow> if P i then Some i else None | None \<Rightarrow> None)"
  by (induction m) (auto split: option.splits dest: map_of_SomeD, metis fst_conv image_eqI)

lemma delete_refines:
  assumes ok: "dbOk db" "isIsoString (mi_createdAt identity)"
    and run: "deleteVariant fs lc (\<lambda>d. d) db x t identity = (r, db')"
  shows "if isl r then catalogRel db' = catalogRel db else catalogSpec (OpDelete x t) (catalogRel db) (catalogRel db')"
  using ok(1) run
proof (cases rule: deleteVariant_steps)
  case (refused e)
  then show ?thesis by (simp add: catalogRel_same)
next
  case (committed b targets remaining db3)
  let ?R = "catalogRel db" and ?b = "lb_variants (logicalBookOf b)"
  note bx = catalogRel_book [OF committed(2,3)] and mok = validMembers(3) [OF committed(3)]
  have members: "membersOf ?R x = set (mapValues ?b)"
    using mok by (auto simp: membersOf_def bx mapValues_iff)
  have targets: "deleteTargets ?R x t = set targets"
    unfolding committed(6) by (cases t) (simp_all add: deleteTargets_def members)
  have rem: "map_of remaining f = Some i \<longleftrightarrow> (x, f, i) \<in> ?R \<and> i \<notin> set targets" for f i
    unfolding committed(8) map_of_filter_values [OF mok] bx by (auto split: option.splits if_splits)
  have same: "catalogRel db3 = ?R" by (rule catalogRel_same [OF committed(5)])
  have "catalogRel db' = {(y, f, i) \<in> ?R. y = x \<longrightarrow> i \<notin> set targets}"
  proof (cases "remaining = []")
    case True
    then have "(x, f, i) \<in> ?R \<Longrightarrow> i \<in> set targets" for f i using rem [of f i] by auto
    then show ?thesis
      using catalogRel_cong [OF committed(9)] True by (auto simp: catalogRel_delete same)
  next
    case False
    have valid: "isLogicalBookRecord (logicalBookVal ((logicalBookOf b)\<lparr>lb_variants := remaining, lb_updatedAt := mi_createdAt identity\<rparr>))"
    proof (rule logicalBookOf_valid [OF committed(3) ok(2) _ False])
      show "map_of remaining f = Some i \<Longrightarrow> matchesSha256 ''sha256:'' i" for f i
        using rem [of f i] bx validMembers(1) [OF committed(3), of f i] by (auto dest: map_of_SomeD)
      show "map_of remaining Epub = None \<or> map_of remaining Epub \<noteq> map_of remaining Pdf"
        using rem bx validMembers(2) [OF committed(3), of Epub _ Pdf] by (metis PublicationFormat.distinct(1) map_of_SomeD not_None_eq)
    qed
    show ?thesis
      unfolding catalogRel_cong [OF committed(9)] if_not_P [OF False] catalogRel_put [OF valid] same
      using committed(4) by (auto simp: rem)
  qed
  moreover have "membersOf ?R x \<noteq> {}" using validMembers_some [OF committed(3)] bx by (auto simp: membersOf_def)
  ultimately have "catalogSpec (OpDelete x t) ?R (catalogRel db')"
    using committed(7) by (intro spec_delete) (simp_all add: members targets)
  then show ?thesis using committed(1) by simp
qed

section \<open>Detaching a format\<close>

lemma detachVariant_steps:
  assumes "dbOk db" and "detachVariant sha (\<lambda>d. d) db x i identity = (r, db')"
  obtains (refused) e where "r = Inl e" and "sameBooks db db'"
  | (committed) b v j fresh n db5 where "\<not> isl r" and "idbGet db LOGICAL_BOOKS_STORE [x] = Some b" and "isLogicalBookRecord b"
      and "lb_id (logicalBookOf b) = x" and "isBookRecord v" and "br_id (bookOf v) = i" and "sameBooks db db5"
      and "map_of (lb_variants (logicalBookOf b)) (br_format (bookOf v)) = Some i"
      and "map_of (lb_variants (logicalBookOf b)) (otherFormat (br_format (bookOf v))) = Some j"
      and "logicalBookFromVariant (bookOf v) (mi_createdAt identity) = Inr fresh"
      and "n = lb_id fresh \<or> n = derivedLogicalBookId sha i (mi_changeId identity)"
      and "n \<noteq> x" and "idbGet db5 LOGICAL_BOOKS_STORE [n] = None"
      and "\<And>k. idbGet db' LOGICAL_BOOKS_STORE k = idbGet (idbPut LOGICAL_BOOKS_STORE (logicalBookVal (fresh\<lparr>lb_id := n\<rparr>))
        (idbPut LOGICAL_BOOKS_STORE (logicalBookVal ((logicalBookOf b)\<lparr>lb_variants := [(otherFormat (br_format (bookOf v)), j)],
          lb_updatedAt := mi_createdAt identity\<rparr>)) db5)) LOGICAL_BOOKS_STORE k"
proof -
  obtain bv db1 where g1: "getLogicalBook db x = (bv, db1)" by fastforce
  obtain vv db2 where g2: "getBook db1 i = (vv, db2)" by fastforce
  obtain p db3 where g3: "getLogicalBookFormatPreference db2 x = (p, db3)" by fastforce
  obtain c db4 where g4: "getBookCover db3 i = (c, db4)" by fastforce
  have ok4: "dbOk db4" using dbOk_reads [OF assms(1)] dbOk_reads [of db1] dbOk_reads [of db2] dbOk_reads [of db3] g1 g2 g3 g4 by (metis snd_conv)
  have same4: "sameBooks db db4"
    using sameBooks_getLogicalBook [OF assms(1), of x] sameBooks_getters(1) [of db1 i] sameBooks_getters(2) [of db2 x] sameBooks_getters(3) [of db3 i]
    unfolding g1 g2 g3 g4 snd_conv by (meson sameBooks_trans)
  note eq = assms(2) [unfolded detachVariant_def g1 g2 g3 g4 Let_def prod.case]
  show ?thesis
  proof (cases "bv = None \<or> vv = None")
    case True
    then have "db' = db4 \<and> isl r" using eq by (cases bv; cases vv) auto
    then show ?thesis using refused same4 by (auto simp: isl_def)
  next
    case False
    then obtain b v where bv: "bv = Some b" "vv = Some v" by auto
    let ?b = "logicalBookOf b" and ?v = "bookOf v"
    have b: "idbGet db LOGICAL_BOOKS_STORE [x] = Some b" "isLogicalBookRecord b" "lb_id ?b = x" and v: "isBookRecord v" "br_id ?v = i"
      using getLogicalBook_result(2) [OF g1 bv(1)] getBook_id [OF g2 [unfolded bv]] by auto
    let ?f = "br_format ?v" and ?g = "otherFormat (br_format ?v)"
    show ?thesis
    proof (cases "length (lb_variants ?b) \<noteq> 2 \<or> map_of (lb_variants ?b) ?f \<noteq> Some i \<or> map_of (lb_variants ?b) ?g = None \<or>
        isl (singletonLogicalBookId i)")
      case True
      then have "db' = db4 \<and> isl r" using eq unfolding bv prod.case option.case by (auto split: if_splits option.splits sum.splits)
      then show ?thesis using refused same4 by (auto simp: isl_def)
    next
      case False
      then obtain j canonical where ok: "length (lb_variants ?b) = 2" "map_of (lb_variants ?b) ?f = Some i"
        "map_of (lb_variants ?b) ?g = Some j" "singletonLogicalBookId i = Inr canonical"
        by (cases "singletonLogicalBookId i") auto
      obtain o5 db5 where g5: "getLogicalBook db4 canonical = (o5, db5)" by fastforce
      have same5: "sameBooks db db5" using sameBooks_trans [OF same4 sameBooks_getLogicalBook [OF ok4, of canonical]] by (simp add: g5)
      note eq5 = eq [unfolded bv prod.case option.case ok g5 sum.case, simplified]
      show ?thesis
      proof (cases "logicalBookFromVariant ?v (mi_createdAt identity)")
        case (Inl e)
        then show ?thesis using eq5 same5 refused [of "VariantIdentity e"] by simp
      next
        case (Inr fresh)
        define n where "n = (if canonical \<noteq> x \<and> o5 = None then canonical else derivedLogicalBookId sha i (mi_changeId identity))"
        define up where "up = ?b\<lparr>lb_variants := [(?g, j)], lb_updatedAt := mi_createdAt identity\<rparr>"
        note eq6 = eq5 [unfolded Inr sum.case, folded n_def up_def]
        have id: "lb_id fresh = canonical" using Inr ok(4) v(2) by (auto simp: logicalBookFromVariant_def)
        show ?thesis
        proof (cases "idbOccupied LOGICAL_BOOKS_STORE (logicalBookVal (fresh\<lparr>lb_id := n\<rparr>)) (idbPut LOGICAL_BOOKS_STORE (logicalBookVal up) db5)")
          case True
          then show ?thesis using eq6 same5 refused [of ConstraintError] by simp
        next
          case False
          then have free: "n \<noteq> x" "idbGet db5 LOGICAL_BOOKS_STORE [n] = None"
            using b(3) by (auto simp: idbOccupied_def idbGet_idbWrite up_def split: if_splits)
          show ?thesis
            by (rule committed [OF _ b v same5 ok(2,3) Inr _ free]; use eq6 False in
                \<open>auto simp: n_def id up_def idbGet_idbWrite split: option.splits\<close>)
        qed
      qed
    qed
  qed
qed

lemma otherFormat_neq: "otherFormat f \<noteq> f"
  by (cases f) (simp_all add: otherFormat_def)

lemma fresh_valid:
  assumes "isBookRecord v" and "logicalBookFromVariant (bookOf v) now = Inr fresh" and "isIsoString now"
    and "matchesSha256 ''logical:sha256:'' n"
  shows "isLogicalBookRecord (logicalBookVal (fresh\<lparr>lb_id := n\<rparr>))"
proof -
  have v: "isBoundedString (getProp v ''title'') 1024"
    "arrayLength (getProp v ''authors'') \<le> 64 \<and> isArrayOf (\<lambda>author. isBoundedString author 512) (getProp v ''authors'')"
    "isOptionalBoundedString (getProp v ''language'') 128" "isOptionalBoundedString (getProp v ''publisher'') 1024"
    "isOptionalBoundedString (getProp v ''identifier'') 1024" "isCanonicalTimestamp (getProp v ''importedAt'')"
    using assms(1) by (simp_all add: isBookRecord_def split: if_splits)
  have authors: "length (arrOf (getProp v ''authors'')) \<le> 64 \<and>
      (\<forall>a \<in> set (map strOf (arrOf (getProp v ''authors''))). a \<noteq> [] \<and> length a \<le> 512)"
    using v(2) bounded_strOf by (cases "getProp v ''authors''") (auto simp: isArrayOf_def arrayLength_def)
  have id: "matchesSha256 ''sha256:'' (br_id (bookOf v))"
    using assms(2) by (auto simp: logicalBookFromVariant_def singletonLogicalBookId_def split: if_splits)
  have iso: "isIsoString (strOf (getProp v ''importedAt''))"
    using v(6) by (cases "getProp v ''importedAt''") (simp_all add: isCanonicalTimestamp_def)
  have truthy: "l \<in> set_option (truthy y) \<Longrightarrow> l \<in> set_option y" for l y by (auto simp: truthy_def split: option.splits if_splits)
  have fields: "lb_title fresh = strOf (getProp v ''title'')" "lb_authors fresh = map strOf (arrOf (getProp v ''authors''))"
    "lb_language fresh = truthy (optOf strOf (getProp v ''language''))" "lb_publisher fresh = truthy (optOf strOf (getProp v ''publisher''))"
    "lb_identifier fresh = truthy (optOf strOf (getProp v ''identifier''))" "lb_importedAt fresh = strOf (getProp v ''importedAt'')"
    "lb_updatedAt fresh = now" "lb_variants fresh = [(br_format (bookOf v), br_id (bookOf v))]"
    using assms(2) by (auto simp: logicalBookFromVariant_def andThen_Inr_iff bookOf_def)
  have "\<forall>f. \<forall>i \<in> set_option (map_of (lb_variants fresh) f). matchesSha256 ''sha256:'' i"
    using id by (simp add: fields)
  then show ?thesis
    using assms(3,4) iso bounded_strOf [OF v(1)] authors bounded_optOf [OF v(3)] bounded_optOf [OF v(4)] bounded_optOf [OF v(5)] truthy
    unfolding isLogicalBookRecord_iff by (simp add: fields)
qed

lemma detach_refines:
  assumes ok: "dbOk db" "isIsoString (mi_createdAt identity)" "\<And>t. matchesSha256 ''logical:sha256:'' (''logical:sha256:'' @ sha t)"
    and run: "detachVariant sha (\<lambda>d. d) db x i identity = (r, db')"
  shows "if isl r then catalogRel db' = catalogRel db else catalogSpec (OpDetach x i) (catalogRel db) (catalogRel db')"
  using ok(1) run
proof (cases rule: detachVariant_steps)
  case (refused e)
  then show ?thesis by (simp add: catalogRel_same)
next
  case (committed b v j fresh n db5)
  let ?R = "catalogRel db" and ?f = "br_format (bookOf v)" and ?g = "otherFormat (br_format (bookOf v))"
  let ?up = "(logicalBookOf b)\<lparr>lb_variants := [(?g, j)], lb_updatedAt := mi_createdAt identity\<rparr>" and ?det = "fresh\<lparr>lb_id := n\<rparr>"
  note bx = catalogRel_book [OF committed(2,3)]
  have same: "catalogRel db5 = ?R" by (rule catalogRel_same [OF committed(7)])
  have "isLogicalBookRecord (logicalBookVal ?up)"
    using validMembers(1) [OF committed(3)] committed(9) otherFormat_neq
    by (intro logicalBookOf_valid [OF committed(3) ok(2)]) (auto dest: map_of_SomeD split: if_splits)
  note up = catalogRel_put [OF this]
  have fresh: "lb_variants fresh = [(?f, i)]" using fromVariant_variants [OF committed(10)] committed(6) by simp
  have "matchesSha256 ''logical:sha256:'' n"
  proof -
    have "matchesSha256 ''logical:sha256:'' (lb_id fresh)"
      using committed(10) by (auto simp: logicalBookFromVariant_def singletonLogicalBookId_def matchesSha256_def startsWith_def split: if_splits)
    then show ?thesis using committed(11) ok(3) by (auto simp: derivedLogicalBookId_def)
  qed
  then have "isLogicalBookRecord (logicalBookVal ?det)" by (rule fresh_valid [OF committed(5,10) ok(2)])
  note det = catalogRel_put [OF this]
  have all: "(x, h, k) \<in> ?R \<longleftrightarrow> h = ?f \<and> k = i \<or> h = ?g \<and> k = j" for h k
    using bx [of h k] committed(8,9) by (cases h; cases "br_format (bookOf v)") (auto simp: otherFormat_def)
  have n: "(n, h, k) \<notin> ?R" for h k using committed(13) unfolding same [symmetric] by (simp add: catalogRel_def)
  have "catalogRel db' = ?R - {(x, ?f, i)} \<union> {(n, ?f, i)}"
    unfolding catalogRel_cong [OF committed(14)] det up same
    using committed(12) n otherFormat_neq [of ?f] by (auto simp: committed(4) all fresh split: if_splits)
  moreover have "membersOf ?R n = {}" using n by (simp add: membersOf_def)
  ultimately have "catalogSpec (OpDetach x i) ?R (catalogRel db')"
    using all otherFormat_neq [of ?f] by (intro spec_detach [of x ?f i ?R ?g j]) auto
  then show ?thesis using committed(1) by simp
qed

section \<open>Adding a format\<close>

text \<open>The result of an addition that is not one of the three refusals without an error.\<close>

definition added :: "MutationError + AddLogicalBookVariantResult \<Rightarrow> bool" where
  "added r = (case r of Inr (Added _) \<Rightarrow> True | _ \<Rightarrow> False)"

lemma addVariant_steps:
  assumes "dbOk db" and "addVariant fp fs (\<lambda>d. d) db x variant source path identity cover = (r, db')"
  obtains (refused) "\<not> added r" and "sameBooks db db'"
  | (committed) d db3 where "added r" and "idbGet db LOGICAL_BOOKS_STORE [x] = Some d" and "isLogicalBookRecord d"
      and "lb_id (logicalBookOf d) = x" and "isBookRecord (bookVal variant)" and "sameBooks db db3"
      and "\<And>k v. idbGet db3 LOGICAL_BOOKS_STORE k = Some v \<Longrightarrow> br_id variant \<notin> memberIds v"
      and "map_of (lb_variants (logicalBookOf d)) (br_format variant) = None"
      and "\<And>k. idbGet db' LOGICAL_BOOKS_STORE k = idbGet (idbPut LOGICAL_BOOKS_STORE (logicalBookVal ((logicalBookOf d)
          \<lparr>lb_variants := mapSet (br_format variant) (br_id variant) (lb_variants (logicalBookOf d)), lb_updatedAt := mi_createdAt identity\<rparr>)) db3)
          LOGICAL_BOOKS_STORE k"
proof -
  obtain dv db1 where g1: "getLogicalBook db x = (dv, db1)" by fastforce
  obtain w db2 where g2: "findLogicalBookByVariant db1 (br_id variant) = (w, db2)" by fastforce
  let ?req = "writeRequest variant (src_content source) (br_fileName variant) (br_mediaType variant)"
  obtain st db3 where g3: "saveBinary fs db2 ?req = (st, db3)" by fastforce
  have ok1: "dbOk db1" using dbOk_reads(2) [OF assms(1), of x] by (simp add: g1)
  have same: "sameBooks db db1" "sameBooks db db2" "sameBooks db db3"
    using sameBooks_getLogicalBook [OF assms(1), of x] sameBooks_getters(5) [of db1 "br_id variant"] sameBooks_getters(6) [of db2 fs ?req]
    unfolding g1 g2 g3 snd_conv by (meson sameBooks_trans)+
  have get3: "idbGet db3 s k = idbGet db2 s k" for s k using saveBinary_idbGet [of fs db2 ?req s k] by (simp add: g3)
  have drop: "sameBooks db (removeBinary fs b db3)" for b using sameBooks_trans [OF same(3) sameBooks_getters(7)] .
  note eq = assms(2) [unfolded addVariant_def g1 Let_def prod.case]
  show ?thesis
  proof (cases "added r")
    case False
    then have "db' \<in> {db, db1, db2, db3} \<or> (\<exists>b. db' = removeBinary fs b db3)"
      using eq by (cases dv; cases w; cases st) (auto simp: g2 g3 added_def split: if_splits option.splits)
    then show ?thesis using refused False same drop by auto
  next
    case True
    then obtain d where d: "dv = Some d" using eq by (cases dv) (auto simp: added_def split: if_splits)
    note eq2 = eq [unfolded d option.case g2 prod.case]
    have w: "w = None" using eq2 True by (cases w) (auto simp: added_def split: if_splits)
    note eq3 = eq2 [unfolded w option.case g3 prod.case]
    have none: "br_id variant \<notin> memberIds v" if "idbGet db3 LOGICAL_BOOKS_STORE k = Some v" for k v
      by (rule findLogicalBook_none [OF ok1 g2 [unfolded w]]) (use that get3 in simp)
    have guard: "isBookRecord (bookVal variant)" "map_of (lb_variants (logicalBookOf d)) (br_format variant) = None"
      using eq3 True by (auto simp: added_def split: if_splits option.splits)
    have d': "idbGet db LOGICAL_BOOKS_STORE [x] = Some d" "isLogicalBookRecord d" "lb_id (logicalBookOf d) = x"
      using getLogicalBook_result(2) [OF g1 d] by auto
    show ?thesis
      by (rule committed [OF True d' guard(1) same(3) none guard(2)]; use eq3 True guard in
          \<open>auto simp: added_def idbGet_idbWrite split: if_splits option.splits sum.splits\<close>)
  qed
qed

lemma add_refines:
  assumes ok: "dbOk db" "isIsoString (mi_createdAt identity)"
    and run: "addVariant fp fs (\<lambda>d. d) db x variant source path identity cover = (r, db')"
  shows "if added r then catalogSpec (OpAdd x variant source path cover) (catalogRel db) (catalogRel db') else catalogRel db' = catalogRel db"
  using ok(1) run
proof (cases rule: addVariant_steps)
  case refused
  then show ?thesis by (simp add: catalogRel_same)
next
  case (committed d db3)
  let ?R = "catalogRel db" and ?vs = "mapSet (br_format variant) (br_id variant) (lb_variants (logicalBookOf d))"
  note dx = catalogRel_book [OF committed(2,3)]
  have same: "catalogRel db3 = ?R" by (rule catalogRel_same [OF committed(6)])
  have none: "(y, f, br_id variant) \<notin> ?R" for y f
    unfolding same [symmetric] using committed(7) by (force simp: catalogRel_def memberIds_iff)
  have vs: "map_of ?vs f = Some i \<longleftrightarrow> (x, f, i) \<in> ?R \<or> f = br_format variant \<and> i = br_id variant" for f i
    using committed(8) by (auto simp: dx js_simps)
  have "matchesSha256 ''sha256:'' (br_id variant)" using committed(5) by (simp add: isBookRecord_iff)
  then have "isLogicalBookRecord (logicalBookVal ((logicalBookOf d)\<lparr>lb_variants := ?vs, lb_updatedAt := mi_createdAt identity\<rparr>))"
  proof (intro logicalBookOf_valid [OF committed(3) ok(2)])
    assume "matchesSha256 ''sha256:'' (br_id variant)"
    then show "map_of ?vs f = Some i \<Longrightarrow> matchesSha256 ''sha256:'' i" for f i
      using validMembers(1) [OF committed(3), of f i] by (auto simp: vs dx dest: map_of_SomeD)
    have "map_of ?vs (br_format variant) = Some (br_id variant)" by (simp add: vs)
    then show "?vs \<noteq> []" by (cases ?vs) auto
    have "(x, Epub, i) \<in> ?R \<Longrightarrow> (x, Pdf, i) \<notin> ?R" for i
      unfolding dx using validMembers(2) [OF committed(3), of Epub i Pdf] by (auto dest: map_of_SomeD)
    then have "map_of ?vs Epub = Some i \<Longrightarrow> map_of ?vs Pdf \<noteq> Some i" for i
      unfolding vs using none by (metis PublicationFormat.distinct(1))
    then show "map_of ?vs Epub = None \<or> map_of ?vs Epub \<noteq> map_of ?vs Pdf" by (metis option.exhaust)
  qed
  note put = catalogRel_put [OF this]
  have "catalogRel db' = ?R \<union> {(x, br_format variant, br_id variant)}"
    unfolding catalogRel_cong [OF committed(9)] put same using committed(4) by (auto simp: vs)
  moreover have "membersOf ?R x \<noteq> {}" using validMembers_some [OF committed(3)] dx by (auto simp: membersOf_def)
  moreover have "(x, br_format variant, i) \<notin> ?R" for i using committed(8) dx by simp
  ultimately have "catalogSpec (OpAdd x variant source path cover) ?R (catalogRel db')"
    using none by (intro spec_add) auto
  then show ?thesis using committed(1) by simp
qed

section \<open>The refinement\<close>

definition runOp ::
  "(string \<Rightarrow> string) \<Rightarrow> FileSystem \<Rightarrow> (string \<Rightarrow> string) \<Rightarrow> (string \<Rightarrow> string \<Rightarrow> int) \<Rightarrow> LogicalMutationIdentity \<Rightarrow> catalogOp \<Rightarrow> LibraryDb \<Rightarrow>
     bool \<times> LibraryDb" where
  "runOp fp fs sha lc identity op db =
     (case op of
        OpAssociate d s \<Rightarrow> (let (r, db') = associate (\<lambda>d. d) db d s identity in (\<not> isl r, db'))
      | OpDetach x i \<Rightarrow> (let (r, db') = detachVariant sha (\<lambda>d. d) db x i identity in (\<not> isl r, db'))
      | OpDelete x t \<Rightarrow> (let (r, db') = deleteVariant fs lc (\<lambda>d. d) db x t identity in (\<not> isl r, db'))
      | OpAdd x variant source path cover \<Rightarrow>
          (let (r, db') = addVariant fp fs (\<lambda>d. d) db x variant source path identity cover in (added r, db')))"

lemma runOp_refines:
  assumes ok: "dbOk db" "exclusiveCatalog db" "isIsoString (mi_createdAt identity)"
      "\<And>t. matchesSha256 ''logical:sha256:'' (''logical:sha256:'' @ sha t)"
    and run: "runOp fp fs sha lc identity op db = (done, db')"
  shows "(if done then catalogSpec op (catalogRel db) (catalogRel db') else catalogRel db' = catalogRel db) \<and>
    dbOk db' \<and> exclusiveCatalog db'"
proof -
  have "catalogStep fs fp sha lc db db'"
  proof (cases op)
    case (OpAssociate d s)
    then show ?thesis using run step_associate [of fs fp sha lc db d s identity] by (auto simp: runOp_def split: prod.splits)
  next
    case (OpDetach x i)
    then show ?thesis using run step_detach [of fs fp sha lc db x i identity] by (auto simp: runOp_def split: prod.splits)
  next
    case (OpDelete x t)
    then show ?thesis using run step_delete [of fs fp sha lc db x t identity] by (auto simp: runOp_def split: prod.splits)
  next
    case (OpAdd x variant source path cover)
    then show ?thesis using run step_add [of fs fp sha lc db x variant source path identity cover] by (auto simp: runOp_def split: prod.splits)
  qed
  then have safe: "dbOk db' \<and> exclusiveCatalog db'" using catalogStep_safe ok(1,2) by blast
  have "if done then catalogSpec op (catalogRel db) (catalogRel db') else catalogRel db' = catalogRel db"
  proof (cases op)
    case (OpAssociate d s)
    then show ?thesis using run associate_refines [OF ok(1-3), of d s] by (auto simp: runOp_def split: prod.splits)
  next
    case (OpDetach x i)
    then show ?thesis using run detach_refines [where sha = sha and x = x and i = i, OF ok(1,3,4)] by (auto simp: runOp_def split: prod.splits)
  next
    case (OpDelete x t)
    then show ?thesis using run delete_refines [OF ok(1,3), of fs lc x t] by (auto simp: runOp_def split: prod.splits)
  next
    case (OpAdd x variant source path cover)
    then show ?thesis using run add_refines [OF ok(1,3), of fp fs x variant source path cover] by (auto simp: runOp_def split: prod.splits)
  qed
  then show ?thesis using safe by simp
qed

text \<open>A session: the operations in their order, each with its own identity; the operations that were refused do nothing.\<close>

fun runOps ::
  "(string \<Rightarrow> string) \<Rightarrow> FileSystem \<Rightarrow> (string \<Rightarrow> string) \<Rightarrow> (string \<Rightarrow> string \<Rightarrow> int) \<Rightarrow> (LogicalMutationIdentity \<times> catalogOp) list \<Rightarrow> LibraryDb \<Rightarrow>
     catalogOp list \<times> LibraryDb" where
  "runOps fp fs sha lc [] db = ([], db)"
| "runOps fp fs sha lc ((identity, op) # ops) db =
     (let (done, db1) = runOp fp fs sha lc identity op db; (performed, db2) = runOps fp fs sha lc ops db1
      in ((if done then [op] else []) @ performed, db2))"

fun catalogTrace :: "catalogOp list \<Rightarrow> membership \<Rightarrow> membership \<Rightarrow> bool" where
  "catalogTrace [] R R' = (R' = R)"
| "catalogTrace (op # ops) R R' = (\<exists>R1. catalogSpec op R R1 \<and> catalogTrace ops R1 R')"

text \<open>C16. The repository refines the abstract catalog: for every sequence of associations, detachments, deletions and
  additions, the operations that succeed form a run of the specification from the relation of the stored records before to
  the relation after, and the operations that are refused leave the relation as it was.\<close>

theorem catalog_refines_spec:
  assumes "dbOk db" and "exclusiveCatalog db" and "\<forall>t. matchesSha256 ''logical:sha256:'' (''logical:sha256:'' @ sha t)"
    and "\<forall>(identity, op) \<in> set ops. isIsoString (mi_createdAt identity)"
    and "runOps fp fs sha lc ops db = (performed, db')"
  shows "catalogTrace performed (catalogRel db) (catalogRel db')"
  using assms
proof (induction fp fs sha lc ops db arbitrary: performed db' rule: runOps.induct)
  case (2 fp fs sha lc identity op ops db)
  obtain finished db1 where one: "runOp fp fs sha lc identity op db = (finished, db1)" by fastforce
  obtain later db2 where rest: "runOps fp fs sha lc ops db1 = (later, db2)" by fastforce
  have step: "if finished then catalogSpec op (catalogRel db) (catalogRel db1) else catalogRel db1 = catalogRel db"
    and ok1: "dbOk db1" "exclusiveCatalog db1"
    using runOp_refines [OF 2(2,3) _ _ one] 2(4,5) by auto
  have "catalogTrace later (catalogRel db1) (catalogRel db2)"
    using 2(1) [OF refl, of finished db1 later db2] ok1 2(4,5) one rest by auto
  then show ?case using 2(6) one rest step by (auto split: if_splits)
qed simp

lemma exampleSha: "matchesSha256 ''logical:sha256:'' (''logical:sha256:'' @ replicate 64 (CHR ''d''))"
  by code_simp

theorem catalog_refines_spec_witness:
  "let run = runOps id noFiles (\<lambda>t. replicate 64 (CHR ''d'')) codeUnitCompare
       [(exampleIdentity, OpAssociate (lb_id epubBook) (lb_id pdfBook2))] twoBooksDb
   in fst run = [OpAssociate (lb_id epubBook) (lb_id pdfBook2)] \<and>
      catalogTrace (fst run) (catalogRel twoBooksDb) (catalogRel (snd run))"
proof -
  let ?sha = "\<lambda>t :: string. replicate 64 (CHR ''d'')" and ?ops = "[(exampleIdentity, OpAssociate (lb_id epubBook) (lb_id pdfBook2))]"
  let ?run = "runOps id noFiles ?sha codeUnitCompare ?ops twoBooksDb"
  have "\<not> isl (fst (associate (\<lambda>d. d) twoBooksDb (lb_id epubBook) (lb_id pdfBook2) exampleIdentity))" by code_simp
  then have performed: "fst ?run = [OpAssociate (lb_id epubBook) (lb_id pdfBook2)]" by (simp add: runOp_def split_beta Let_def)
  have "isIsoString (mi_createdAt exampleIdentity)" by code_simp
  then have "catalogTrace (fst ?run) (catalogRel twoBooksDb) (catalogRel (snd ?run))"
    using exampleSha by (intro catalog_refines_spec [OF dbOk_twoBooksDb exclusiveCatalog_twoBooksDb, of ?sha ?ops id noFiles codeUnitCompare]) simp_all
  then show ?thesis using performed by (simp only: Let_def)
qed

end
