(* ===== verification/Mark_Sync.thy ===== *)
theory Mark_Sync
  imports Progress_Sync
begin

text \<open>
  The synchronization of bookmarks and annotations: \<open>BookmarkSyncService\<close> and \<open>AnnotationSyncService\<close> of
  \<open>libs/sync/core/src/lib/bookmark-sync-service.ts\<close> and \<open>annotation-sync-service.ts\<close>. The two files are the same
  program over two record types: the program is written here once over a description of the type, \<open>MarkKind\<close>, and each
  service is an instance of it. The remote transport is the one of the progress service. The field \<open>latestOperation\<close> of a
  pending bookmark, which is written and never read, is left out.
\<close>

section \<open>The two kinds of marks\<close>

record 'm MarkKind =
  mk_entity :: string
  mk_root :: string
  mk_val :: "'m \<Rightarrow> jsval"
  mk_of :: "jsval \<Rightarrow> 'm"
  mk_guard :: "jsval \<Rightarrow> bool"
  mk_compare :: "(string \<Rightarrow> string \<Rightarrow> int) \<Rightarrow> 'm \<Rightarrow> 'm \<Rightarrow> int"
  mk_id :: "'m \<Rightarrow> string"
  mk_bookId :: "'m \<Rightarrow> string"
  mk_format :: "'m \<Rightarrow> PublicationFormat"
  mk_get :: "LibraryDb \<Rightarrow> string \<Rightarrow> jsval option \<times> LibraryDb"
  mk_list :: "(string \<Rightarrow> string \<Rightarrow> int) \<Rightarrow> LibraryDb \<Rightarrow> jsval list \<times> LibraryDb"
  mk_save :: "LibraryDb \<Rightarrow> 'm \<Rightarrow> (RepositoryError + unit) \<times> LibraryDb"

definition styleOf :: "jsval \<Rightarrow> PublicationAnnotationStyle" where
  "styleOf v = (if v = JStr (styleString Underline) then Underline else if v = JStr (styleString Strikethrough) then Strikethrough
     else Highlight)"

definition decorationOf :: "jsval \<Rightarrow> PublicationAnnotationDecoration" where
  "decorationOf v = \<lparr>dec_style = styleOf (getProp v ''style''), dec_color = strOf (getProp v ''color'')\<rparr>"

definition annotationOf :: "jsval \<Rightarrow> PublicationAnnotation" where
  "annotationOf v =
     \<lparr>an_id = strOf (getProp v ''id''), an_bookId = strOf (getProp v ''bookId''), an_format = formatOf (getProp v ''format''),
      an_deviceId = strOf (getProp v ''deviceId''), an_locator = locatorOf (getProp v ''locator''),
      an_color = strOf (getProp v ''color''), an_style = optOf styleOf (getProp v ''style''),
      an_decorations = optOf (\<lambda>ds. map decorationOf (arrOf ds)) (getProp v ''decorations''),
      an_note = optOf strOf (getProp v ''note''), an_createdAt = strOf (getProp v ''createdAt''),
      an_updatedAt = strOf (getProp v ''updatedAt''), an_deletedAt = optOf strOf (getProp v ''deletedAt'')\<rparr>"

definition BOOKMARKS_ROOT :: string where "BOOKMARKS_ROOT = SYNC_ROOT @ ''/bookmarks''"

definition ANNOTATIONS_ROOT :: string where "ANNOTATIONS_ROOT = SYNC_ROOT @ ''/annotations''"

definition bookmarkKind :: "PublicationBookmark MarkKind" where
  "bookmarkKind = \<lparr>mk_entity = ''bookmark'', mk_root = BOOKMARKS_ROOT, mk_val = bookmarkVal, mk_of = bookmarkOf,
     mk_guard = isPublicationBookmark, mk_compare = compareBookmarks, mk_id = bm_id, mk_bookId = bm_bookId,
     mk_format = bm_format, mk_get = getBookmark, mk_list = (\<lambda>lc db. listBookmarks lc db None True), mk_save = saveBookmark\<rparr>"

definition annotationKind :: "PublicationAnnotation MarkKind" where
  "annotationKind = \<lparr>mk_entity = ''annotation'', mk_root = ANNOTATIONS_ROOT, mk_val = annotationVal, mk_of = annotationOf,
     mk_guard = isPublicationAnnotation, mk_compare = compareAnnotations, mk_id = an_id, mk_bookId = an_bookId,
     mk_format = an_format, mk_get = getAnnotation, mk_list = (\<lambda>lc db. listAnnotations lc db None True), mk_save = saveAnnotation\<rparr>"

text \<open>
  \<open>preferredBookmark(local, incoming) === incoming\<close> compares references: it holds when the rule returns its second
  argument, not when it returns an equal first one.
\<close>

definition incomingWins :: "'m MarkKind \<Rightarrow> (string \<Rightarrow> string \<Rightarrow> int) \<Rightarrow> 'm option \<Rightarrow> 'm \<Rightarrow> bool" where
  "incomingWins kind localeCompare local incoming =
     (case local of None \<Rightarrow> True | Some l \<Rightarrow> mk_compare kind localeCompare incoming l > 0)"

section \<open>Documents\<close>

definition markDocumentPath :: "'m MarkKind \<Rightarrow> 'm \<Rightarrow> string" where
  "markDocumentPath kind mark =
     mk_root kind @ ''/'' @ pathSegment (mk_bookId kind mark) @ ''/'' @ pathSegment (mk_id kind mark) @ ''.json''"

definition parseMarkDocument :: "'m MarkKind \<Rightarrow> RemoteDocument \<Rightarrow> 'm option" where
  "parseMarkDocument kind document =
     (case parseJson (rd_content document) of
        None \<Rightarrow> None
      | Some v \<Rightarrow> if mk_guard kind v then Some (mk_of kind v) else None)"

definition serializeMark :: "'m MarkKind \<Rightarrow> 'm \<Rightarrow> string" where
  "serializeMark kind mark = prettyAt 0 (mk_val kind mark) @ [CHR 0x0A]"

section \<open>Pending writes\<close>

record 'm PendingMarkWrite =
  mw_mark :: 'm
  mw_operationIds :: "string list"
  mw_createCandidate :: bool

type_synonym 'm markWrites = "(string, 'm PendingMarkWrite) jsMap"

definition acceptsMarkOperation :: "'m MarkKind \<Rightarrow> SyncOperation \<Rightarrow> bool" where
  "acceptsMarkOperation kind operation =
     (op_entity operation = mk_entity kind \<and> op_operation operation = ''upsert'' \<and> mk_guard kind (op_payload operation) \<and>
      op_entityId operation = mk_id kind (mk_of kind (op_payload operation)))"

definition coalesceMarkOperation ::
  "'m MarkKind \<Rightarrow> (string \<Rightarrow> string \<Rightarrow> int) \<Rightarrow> 'm markWrites \<times> nat \<Rightarrow> SyncOperation \<Rightarrow> 'm markWrites \<times> nat" where
  "coalesceMarkOperation kind localeCompare state operation =
     (if \<not> acceptsMarkOperation kind operation then state
      else
        let payload = mk_of kind (op_payload operation); path = markDocumentPath kind payload; documents = fst state in
        (case map_of documents path of
           None \<Rightarrow> mapSet path \<lparr>mw_mark = payload, mw_operationIds = [op_id operation],
             mw_createCandidate = (op_revision operation = 1)\<rparr> documents
         | Some existing \<Rightarrow>
             let appended = existing\<lparr>mw_operationIds := mw_operationIds existing @ [op_id operation],
                   mw_createCandidate := (mw_createCandidate existing \<or> op_revision operation = 1)\<rparr>
             in mapSet path (if incomingWins kind localeCompare (Some (mw_mark existing)) payload
                  then appended\<lparr>mw_mark := payload\<rparr> else appended) documents,
         Suc (snd state)))"

definition coalesceMarkOperations ::
  "'m MarkKind \<Rightarrow> (string \<Rightarrow> string \<Rightarrow> int) \<Rightarrow> SyncOperation list \<Rightarrow> 'm markWrites \<times> nat" where
  "coalesceMarkOperations kind localeCompare operations = foldl (coalesceMarkOperation kind localeCompare) ([], 0) operations"

definition mergeMarkSnapshot :: "'m MarkKind \<Rightarrow> (string \<Rightarrow> string \<Rightarrow> int) \<Rightarrow> 'm markWrites \<Rightarrow> 'm \<Rightarrow> 'm markWrites" where
  "mergeMarkSnapshot kind localeCompare documents mark =
     (let path = markDocumentPath kind mark in
      case map_of documents path of
        None \<Rightarrow> mapSet path \<lparr>mw_mark = mark, mw_operationIds = [], mw_createCandidate = False\<rparr> documents
      | Some existing \<Rightarrow>
          if incomingWins kind localeCompare (Some (mw_mark existing)) mark
          then mapSet path (existing\<lparr>mw_mark := mark\<rparr>) documents else documents)"

section \<open>Pushing a mark\<close>

record 'r MarkState =
  ms_remote :: 'r
  ms_db :: LibraryDb
  ms_journal :: Journal

definition foreignMark :: "'m MarkKind \<Rightarrow> RemoteDocument option \<Rightarrow> 'm \<Rightarrow> bool" where
  "foreignMark kind current pending =
     (case current of
        None \<Rightarrow> False
      | Some d \<Rightarrow>
          (case parseMarkDocument kind d of
             None \<Rightarrow> True
           | Some r \<Rightarrow> mk_id kind r \<noteq> mk_id kind pending \<or> mk_bookId kind r \<noteq> mk_bookId kind pending))"

text \<open>The version to publish; the remote one is stored locally first when it is kept.\<close>

definition chooseMark ::
  "'m MarkKind \<Rightarrow> (string \<Rightarrow> string \<Rightarrow> int) \<Rightarrow> 'm option \<Rightarrow> 'm \<Rightarrow> LibraryDb \<Rightarrow> (RepositoryError + 'm) \<times> LibraryDb" where
  "chooseMark kind localeCompare remoteMark pending db =
     (case remoteMark of
        None \<Rightarrow> (Inr pending, db)
      | Some r \<Rightarrow>
          if incomingWins kind localeCompare (Some r) pending then (Inr pending, db)
          else (case mk_save kind db r of (Inl e, db') \<Rightarrow> (Inl e, db') | (Inr _, db') \<Rightarrow> (Inr r, db')))"

definition acknowledgeMark :: "'m PendingMarkWrite \<Rightarrow> 'r MarkState \<Rightarrow> 'r MarkState" where
  "acknowledgeMark pending st = st\<lparr>ms_journal := acknowledge (ms_journal st) (mw_operationIds pending)\<rparr>"

text \<open>The unbounded loop: \<open>retries\<close> counts down from \<open>maxConflictRetries\<close> as \<open>attempt\<close> counts up.\<close>

fun pushMarkAttempts ::
  "'r Transport \<Rightarrow> 'm MarkKind \<Rightarrow> (string \<Rightarrow> string \<Rightarrow> int) \<Rightarrow> 'm PendingMarkWrite \<Rightarrow> nat \<Rightarrow> nat \<Rightarrow>
     RemoteDocument option option \<Rightarrow> 'r MarkState \<Rightarrow> (ProgressError + PushResult) \<times> 'r MarkState" where
  "pushMarkAttempts transport kind localeCompare pending retries conflicts initialCurrent st0 =
     (let path = markDocumentPath kind (mw_mark pending);
          (found, remote1) = (case initialCurrent of
            Some c \<Rightarrow> (Inr c, ms_remote st0) | None \<Rightarrow> tr_read transport (ms_remote st0) path);
          st = st0\<lparr>ms_remote := remote1\<rparr>
      in case found of
           Inl e \<Rightarrow> (Inl e, st)
         | Inr current \<Rightarrow>
             if foreignMark kind current (mw_mark pending)
             then (Inr \<lparr>pu_pushed = False, pu_conflicts = conflicts, pu_rejected = length (mw_operationIds pending)\<rparr>, st)
             else
               (case chooseMark kind localeCompare (Option.bind current (parseMarkDocument kind)) (mw_mark pending) (ms_db st) of
                  (Inl e, db) \<Rightarrow> (Inl (RepositoryFailure e), st\<lparr>ms_db := db\<rparr>)
                | (Inr mark, db) \<Rightarrow>
                    (let content = serializeMark kind mark; st = st\<lparr>ms_db := db\<rparr> in
                     if map_option rd_content current = Some content
                     then (Inr \<lparr>pu_pushed = False, pu_conflicts = conflicts, pu_rejected = 0\<rparr>, acknowledgeMark pending st)
                     else
                       let (outcome, remote2) = tr_write transport (ms_remote st) path content (map_option rd_revision current);
                           st' = st\<lparr>ms_remote := remote2\<rparr>
                       in case outcome of
                            Inr written \<Rightarrow>
                              (Inr \<lparr>pu_pushed = True, pu_conflicts = conflicts, pu_rejected = 0\<rparr>, acknowledgeMark pending st')
                          | Inl e \<Rightarrow>
                              (case retries of
                                 0 \<Rightarrow> (Inl e, st')
                               | Suc retries' \<Rightarrow>
                                   if e \<noteq> SyncConflictError then (Inl e, st')
                                   else pushMarkAttempts transport kind localeCompare pending retries' (Suc conflicts) None st'))))"

declare pushMarkAttempts.simps [simp del]

definition pushMark ::
  "'r Transport \<Rightarrow> 'm MarkKind \<Rightarrow> (string \<Rightarrow> string \<Rightarrow> int) \<Rightarrow> nat \<Rightarrow> 'm PendingMarkWrite \<Rightarrow> RemoteDocument option option \<Rightarrow>
     'r MarkState \<Rightarrow> (ProgressError + PushResult) \<times> 'r MarkState" where
  "pushMark transport kind localeCompare maxConflictRetries pending initialCurrent st =
     pushMarkAttempts transport kind localeCompare pending maxConflictRetries 0 initialCurrent st"

fun pushMarks ::
  "'r Transport \<Rightarrow> 'm MarkKind \<Rightarrow> (string \<Rightarrow> string \<Rightarrow> int) \<Rightarrow> nat \<Rightarrow> ('m PendingMarkWrite \<Rightarrow> RemoteDocument option option) \<Rightarrow>
     'm PendingMarkWrite list \<Rightarrow> ProgressSyncResult \<Rightarrow> 'r MarkState \<Rightarrow> (ProgressError + ProgressSyncResult) \<times> 'r MarkState" where
  "pushMarks transport kind localeCompare maxConflictRetries initial [] result st = (Inr result, st)"
| "pushMarks transport kind localeCompare maxConflictRetries initial (write # writes) result st =
     (case pushMark transport kind localeCompare maxConflictRetries write (initial write) st of
        (Inl e, st') \<Rightarrow> (Inl e, st')
      | (Inr r, st') \<Rightarrow> pushMarks transport kind localeCompare maxConflictRetries initial writes
          (result\<lparr>sr_pushed := sr_pushed result + (if pu_pushed r then 1 else 0),
                  sr_conflicts := sr_conflicts result + pu_conflicts r,
                  sr_rejected := sr_rejected result + pu_rejected r\<rparr>) st')"

section \<open>The services\<close>

definition pushedResult :: "nat \<Rightarrow> ProgressSyncResult" where
  "pushedResult rejected = \<lparr>sr_pulled = 0, sr_pushed = 0, sr_conflicts = 0, sr_rejected = rejected\<rparr>"

definition pushAllMarks ::
  "'r Transport \<Rightarrow> 'm MarkKind \<Rightarrow> (string \<Rightarrow> string \<Rightarrow> int) \<Rightarrow> nat \<Rightarrow> (string, RemoteDocument) jsMap option \<Rightarrow> 'r MarkState \<Rightarrow>
     (ProgressError + ProgressSyncResult) \<times> 'r MarkState" where
  "pushAllMarks transport kind localeCompare maxConflictRetries knownDocuments st =
     (let markOperations = filter (\<lambda>operation. op_entity operation = mk_entity kind) (pending_ops localeCompare (ms_journal st));
          (documents, acceptedCount) = coalesceMarkOperations kind localeCompare markOperations;
          (stored, db) = mk_list kind localeCompare (ms_db st);
          writes = foldl (mergeMarkSnapshot kind localeCompare) documents (map (mk_of kind) (filter (mk_guard kind) stored))
      in pushMarks transport kind localeCompare maxConflictRetries
           (\<lambda>write. map_option (\<lambda>known. map_of known (markDocumentPath kind (mw_mark write))) knownDocuments)
           (mapValues writes) (pushedResult (length markOperations - acceptedCount)) (st\<lparr>ms_db := db\<rparr>))"

text \<open>
  The loop of \<open>synchronizePending\<close> over the pending writes, which adds to the map it iterates over: an entry that is added
  is visited too. \<open>fuel\<close> bounds the visits; an entry that was added adds no other, so twice the number of entries is enough.
\<close>

fun mergeCurrentMarks ::
  "nat \<Rightarrow> 'm MarkKind \<Rightarrow> (string \<Rightarrow> string \<Rightarrow> int) \<Rightarrow> nat \<Rightarrow> 'm markWrites \<times> LibraryDb \<Rightarrow> 'm markWrites \<times> LibraryDb" where
  "mergeCurrentMarks 0 kind localeCompare i state = state"
| "mergeCurrentMarks (Suc fuel) kind localeCompare i (documents, db) =
     (if i < length documents then
        let (current, db') = mk_get kind db (mk_id kind (mw_mark (snd (documents ! i)))) in
        mergeCurrentMarks fuel kind localeCompare (Suc i)
          (case current of None \<Rightarrow> documents | Some v \<Rightarrow> mergeMarkSnapshot kind localeCompare documents (mk_of kind v), db')
      else (documents, db))"

definition synchronizePendingMarks ::
  "'r Transport \<Rightarrow> 'm MarkKind \<Rightarrow> (string \<Rightarrow> string \<Rightarrow> int) \<Rightarrow> nat \<Rightarrow> SyncOperation list \<Rightarrow> 'r MarkState \<Rightarrow>
     (ProgressError + ProgressSyncResult) \<times> 'r MarkState" where
  "synchronizePendingMarks transport kind localeCompare maxConflictRetries operations st =
     (let markOperations = filter (\<lambda>operation. op_entity operation = mk_entity kind) operations;
          (documents, acceptedCount) = coalesceMarkOperations kind localeCompare markOperations;
          (writes, db) = mergeCurrentMarks (2 * length documents) kind localeCompare 0 (documents, ms_db st)
      in pushMarks transport kind localeCompare maxConflictRetries
           (\<lambda>write. if mw_createCandidate write then Some None else None)
           (mapValues writes) (pushedResult (length markOperations - acceptedCount)) (st\<lparr>ms_db := db\<rparr>))"

definition pullMark ::
  "'m MarkKind \<Rightarrow> (string \<Rightarrow> string \<Rightarrow> int) \<Rightarrow> RemoteDocument \<Rightarrow> LibraryDb \<Rightarrow> (RepositoryError + bool) \<times> LibraryDb" where
  "pullMark kind localeCompare document db =
     (case parseMarkDocument kind document of
        None \<Rightarrow> (Inr False, db)
      | Some incoming \<Rightarrow>
          if markDocumentPath kind incoming \<noteq> rd_path document then (Inr False, db)
          else
            let (book, db1) = getBook db (mk_bookId kind incoming) in
            if (case book of None \<Rightarrow> True | Some b \<Rightarrow> getProp b ''format'' \<noteq> formatVal (mk_format kind incoming)) then (Inr False, db1)
            else
              let (current, db2) = mk_get kind db1 (mk_id kind incoming) in
              if incomingWins kind localeCompare (map_option (mk_of kind) current) incoming
              then (case mk_save kind db2 incoming of (Inl e, db3) \<Rightarrow> (Inl e, db3) | (Inr _, db3) \<Rightarrow> (Inr True, db3))
              else (Inr True, db2))"

fun pullMarks ::
  "'m MarkKind \<Rightarrow> (string \<Rightarrow> string \<Rightarrow> int) \<Rightarrow> RemoteDocument list \<Rightarrow> ProgressSyncResult \<Rightarrow> LibraryDb \<Rightarrow>
     (ProgressError + ProgressSyncResult) \<times> LibraryDb" where
  "pullMarks kind localeCompare [] result db = (Inr result, db)"
| "pullMarks kind localeCompare (document # documents) result db =
     (case pullMark kind localeCompare document db of
        (Inl e, db') \<Rightarrow> (Inl (RepositoryFailure e), db')
      | (Inr accepted, db') \<Rightarrow> pullMarks kind localeCompare documents
          (if accepted then result\<lparr>sr_pulled := sr_pulled result + 1\<rparr> else result\<lparr>sr_rejected := sr_rejected result + 1\<rparr>) db')"

definition pullAllMarks ::
  "'r Transport \<Rightarrow> 'm MarkKind \<Rightarrow> (string \<Rightarrow> string \<Rightarrow> int) \<Rightarrow> RemoteDocument list option \<Rightarrow> 'r MarkState \<Rightarrow>
     (ProgressError + ProgressSyncResult) \<times> 'r MarkState" where
  "pullAllMarks transport kind localeCompare documents st =
     (case (case documents of Some ds \<Rightarrow> (Inr ds, ms_remote st) | None \<Rightarrow> tr_list transport (ms_remote st) (mk_root kind)) of
        (Inl e, remote) \<Rightarrow> (Inl e, st\<lparr>ms_remote := remote\<rparr>)
      | (Inr remoteDocuments, remote) \<Rightarrow>
          (let (result, db) = pullMarks kind localeCompare remoteDocuments (pushedResult 0) (ms_db st)
           in (result, st\<lparr>ms_remote := remote, ms_db := db\<rparr>)))"

definition runMarkSynchronization ::
  "'r Transport \<Rightarrow> 'm MarkKind \<Rightarrow> (string \<Rightarrow> string \<Rightarrow> int) \<Rightarrow> nat \<Rightarrow> 'r MarkState \<Rightarrow> (ProgressError + ProgressSyncResult) \<times> 'r MarkState" where
  "runMarkSynchronization transport kind localeCompare maxConflictRetries st =
     (case tr_list transport (ms_remote st) (mk_root kind) of
        (Inl e, remote) \<Rightarrow> (Inl e, st\<lparr>ms_remote := remote\<rparr>)
      | (Inr documents, remote) \<Rightarrow>
          (case pullAllMarks transport kind localeCompare (Some documents) (st\<lparr>ms_remote := remote\<rparr>) of
             (Inl e, st1) \<Rightarrow> (Inl e, st1)
           | (Inr pulled, st1) \<Rightarrow>
               (case pushAllMarks transport kind localeCompare maxConflictRetries (Some (mapBy rd_path documents)) st1 of
                  (Inl e, st2) \<Rightarrow> (Inl e, st2)
                | (Inr pushed, st2) \<Rightarrow>
                    (Inr \<lparr>sr_pulled = sr_pulled pulled, sr_pushed = sr_pushed pushed,
                          sr_conflicts = sr_conflicts pulled + sr_conflicts pushed,
                          sr_rejected = sr_rejected pulled + sr_rejected pushed\<rparr>, st2))))"

section \<open>Bookmarks\<close>

definition bookmarkDocumentPath :: "PublicationBookmark \<Rightarrow> string" where
  "bookmarkDocumentPath = markDocumentPath bookmarkKind"

definition parseBookmarkDocument :: "RemoteDocument \<Rightarrow> PublicationBookmark option" where
  "parseBookmarkDocument = parseMarkDocument bookmarkKind"

definition serializeBookmark :: "PublicationBookmark \<Rightarrow> string" where
  "serializeBookmark = serializeMark bookmarkKind"

definition coalesceBookmarkOperations :: "(string \<Rightarrow> string \<Rightarrow> int) \<Rightarrow> SyncOperation list \<Rightarrow> PublicationBookmark markWrites \<times> nat" where
  "coalesceBookmarkOperations = coalesceMarkOperations bookmarkKind"

definition mergeBookmarkSnapshot :: "(string \<Rightarrow> string \<Rightarrow> int) \<Rightarrow> PublicationBookmark markWrites \<Rightarrow> PublicationBookmark \<Rightarrow> PublicationBookmark markWrites" where
  "mergeBookmarkSnapshot = mergeMarkSnapshot bookmarkKind"

definition pushBookmark ::
  "'r Transport \<Rightarrow> (string \<Rightarrow> string \<Rightarrow> int) \<Rightarrow> nat \<Rightarrow> PublicationBookmark PendingMarkWrite \<Rightarrow> RemoteDocument option option \<Rightarrow>
     'r MarkState \<Rightarrow> (ProgressError + PushResult) \<times> 'r MarkState" where
  "pushBookmark transport = pushMark transport bookmarkKind"

definition pushBookmarks ::
  "'r Transport \<Rightarrow> (string \<Rightarrow> string \<Rightarrow> int) \<Rightarrow> nat \<Rightarrow> (string, RemoteDocument) jsMap option \<Rightarrow> 'r MarkState \<Rightarrow>
     (ProgressError + ProgressSyncResult) \<times> 'r MarkState" where
  "pushBookmarks transport = pushAllMarks transport bookmarkKind"

definition pullBookmarks ::
  "'r Transport \<Rightarrow> (string \<Rightarrow> string \<Rightarrow> int) \<Rightarrow> RemoteDocument list option \<Rightarrow> 'r MarkState \<Rightarrow>
     (ProgressError + ProgressSyncResult) \<times> 'r MarkState" where
  "pullBookmarks transport = pullAllMarks transport bookmarkKind"

definition synchronizePendingBookmarks ::
  "'r Transport \<Rightarrow> (string \<Rightarrow> string \<Rightarrow> int) \<Rightarrow> nat \<Rightarrow> SyncOperation list \<Rightarrow> 'r MarkState \<Rightarrow>
     (ProgressError + ProgressSyncResult) \<times> 'r MarkState" where
  "synchronizePendingBookmarks transport = synchronizePendingMarks transport bookmarkKind"

definition synchronizeBookmarks ::
  "'r Transport \<Rightarrow> (string \<Rightarrow> string \<Rightarrow> int) \<Rightarrow> nat \<Rightarrow> 'r MarkState \<Rightarrow> (ProgressError + ProgressSyncResult) \<times> 'r MarkState" where
  "synchronizeBookmarks transport = runMarkSynchronization transport bookmarkKind"

section \<open>Annotations\<close>

definition annotationDocumentPath :: "PublicationAnnotation \<Rightarrow> string" where
  "annotationDocumentPath = markDocumentPath annotationKind"

definition parseAnnotationDocument :: "RemoteDocument \<Rightarrow> PublicationAnnotation option" where
  "parseAnnotationDocument = parseMarkDocument annotationKind"

definition serializeAnnotation :: "PublicationAnnotation \<Rightarrow> string" where
  "serializeAnnotation = serializeMark annotationKind"

definition coalesceAnnotationOperations :: "(string \<Rightarrow> string \<Rightarrow> int) \<Rightarrow> SyncOperation list \<Rightarrow> PublicationAnnotation markWrites \<times> nat" where
  "coalesceAnnotationOperations = coalesceMarkOperations annotationKind"

definition mergeAnnotationSnapshot :: "(string \<Rightarrow> string \<Rightarrow> int) \<Rightarrow> PublicationAnnotation markWrites \<Rightarrow> PublicationAnnotation \<Rightarrow> PublicationAnnotation markWrites" where
  "mergeAnnotationSnapshot = mergeMarkSnapshot annotationKind"

definition pushAnnotation ::
  "'r Transport \<Rightarrow> (string \<Rightarrow> string \<Rightarrow> int) \<Rightarrow> nat \<Rightarrow> PublicationAnnotation PendingMarkWrite \<Rightarrow> RemoteDocument option option \<Rightarrow>
     'r MarkState \<Rightarrow> (ProgressError + PushResult) \<times> 'r MarkState" where
  "pushAnnotation transport = pushMark transport annotationKind"

definition pushAnnotations ::
  "'r Transport \<Rightarrow> (string \<Rightarrow> string \<Rightarrow> int) \<Rightarrow> nat \<Rightarrow> (string, RemoteDocument) jsMap option \<Rightarrow> 'r MarkState \<Rightarrow>
     (ProgressError + ProgressSyncResult) \<times> 'r MarkState" where
  "pushAnnotations transport = pushAllMarks transport annotationKind"

definition pullAnnotations ::
  "'r Transport \<Rightarrow> (string \<Rightarrow> string \<Rightarrow> int) \<Rightarrow> RemoteDocument list option \<Rightarrow> 'r MarkState \<Rightarrow>
     (ProgressError + ProgressSyncResult) \<times> 'r MarkState" where
  "pullAnnotations transport = pullAllMarks transport annotationKind"

definition synchronizePendingAnnotations ::
  "'r Transport \<Rightarrow> (string \<Rightarrow> string \<Rightarrow> int) \<Rightarrow> nat \<Rightarrow> SyncOperation list \<Rightarrow> 'r MarkState \<Rightarrow>
     (ProgressError + ProgressSyncResult) \<times> 'r MarkState" where
  "synchronizePendingAnnotations transport = synchronizePendingMarks transport annotationKind"

definition synchronizeAnnotations ::
  "'r Transport \<Rightarrow> (string \<Rightarrow> string \<Rightarrow> int) \<Rightarrow> nat \<Rightarrow> 'r MarkState \<Rightarrow> (ProgressError + ProgressSyncResult) \<times> 'r MarkState" where
  "synchronizeAnnotations transport = runMarkSynchronization transport annotationKind"

end
