(* ===== verification/Mark_Sync_Safety.thy ===== *)
theory Mark_Sync_Safety
  imports Mark_Sync
begin

text \<open>
  What the synchronization of bookmarks and annotations guarantees. The laws of the two kinds are the interface
  \<open>mark_kind\<close>; the lemmas are proved in it once and interpreted on \<open>bookmarkKind\<close> and \<open>annotationKind\<close>. An operation is
  acknowledged only when the remote document holds a version that is not older, and no mark of the local library is lost
  or replaced by an older version.
\<close>

section \<open>The interface\<close>

text \<open>A mark is held in its store or, when it is unreadable or its publication is gone, in the quarantine.\<close>

definition heldMark :: "ActiveLibraryStore \<Rightarrow> LibraryDb \<Rightarrow> string \<Rightarrow> jsval \<Rightarrow> bool" where
  "heldMark s db i v \<longleftrightarrow> idbGet db s [i] = Some v \<or> quarantinedIn db s [i] v"

definition keepsMarks :: "'m MarkKind \<Rightarrow> ActiveLibraryStore \<Rightarrow> (string \<Rightarrow> string \<Rightarrow> int) \<Rightarrow> LibraryDb \<Rightarrow> LibraryDb \<Rightarrow> bool" where
  "keepsMarks kind s lc db db' \<longleftrightarrow>
     (\<forall>i v. heldMark s db i v \<longrightarrow> (\<exists>v'. heldMark s db' i v' \<and> mk_compare kind lc (mk_of kind v) (mk_of kind v') \<le> 0))"

text \<open>What is published for a pending mark, and how: the content was accepted by a write, or it is what was read.\<close>

definition publishedMark ::
  "'r Transport \<Rightarrow> 'm MarkKind \<Rightarrow> 'm PendingMarkWrite \<Rightarrow> RemoteDocument option option \<Rightarrow> bool \<Rightarrow> 'm \<Rightarrow> 'r \<Rightarrow> bool" where
  "publishedMark tr kind pending initial pushed mark remote' \<longleftrightarrow>
     (let path = markDocumentPath kind (mw_mark pending); content = serializeMark kind mark in
      if pushed then \<exists>remote revision d. tr_write tr remote path content revision = (Inr d, remote')
      else \<exists>d. rd_content d = content \<and> (initial = Some (Some d) \<or> (\<exists>remote. tr_read tr remote path = (Inr (Some d), remote'))))"

definition markPushOutcome ::
  "'r Transport \<Rightarrow> 'm MarkKind \<Rightarrow> (string \<Rightarrow> string \<Rightarrow> int) \<Rightarrow> nat \<Rightarrow> 'm PendingMarkWrite \<Rightarrow> RemoteDocument option option \<Rightarrow>
     'r MarkState \<Rightarrow> (ProgressError + PushResult) \<times> 'r MarkState \<Rightarrow> bool" where
  "markPushOutcome tr kind lc limit pending initial st out \<longleftrightarrow>
     (case fst out of
        Inl _ \<Rightarrow> ms_journal (snd out) = ms_journal st
      | Inr r \<Rightarrow> pu_conflicts r \<le> limit \<and>
          (ms_journal (snd out) = ms_journal st \<and> \<not> pu_pushed r \<and> pu_rejected r = length (mw_operationIds pending) \<or>
           ms_journal (snd out) = acknowledge (ms_journal st) (mw_operationIds pending) \<and> pu_rejected r = 0 \<and>
             (\<exists>mark. mk_compare kind lc (mw_mark pending) mark \<le> 0 \<and> mk_id kind mark = mk_id kind (mw_mark pending) \<and>
                publishedMark tr kind pending initial (pu_pushed r) mark (ms_remote (snd out)))))"

lemma quarantinedIn_idbWrite [simp]: "quarantinedIn (idbWrite db s v) s' k w = quarantinedIn db s' k w"
  by (simp add: quarantinedIn_def idbWrite_def)

lemma markPushOutcome_cong:
  "ms_journal st' = ms_journal st \<Longrightarrow> markPushOutcome tr kind lc n pending initial st' out = markPushOutcome tr kind lc n pending initial st out"
  by (cases "fst out") (simp_all add: markPushOutcome_def)

lemma markPushOutcome_initial:
  "markPushOutcome tr kind lc n pending None st out \<Longrightarrow> markPushOutcome tr kind lc n pending initial st out"
proof -
  have "publishedMark tr kind pending None pushed mark remote' \<Longrightarrow> publishedMark tr kind pending initial pushed mark remote'" for pushed mark remote'
    by (auto simp: publishedMark_def Let_def split: if_splits)
  then show "markPushOutcome tr kind lc n pending None st out \<Longrightarrow> markPushOutcome tr kind lc n pending initial st out"
    by (cases "fst out") (auto simp: markPushOutcome_def)
qed

lemma mapSet_append: "map_of xs k = None \<Longrightarrow> mapSet k v xs = xs @ [(k, v)]"
  by (rule mapSet_fresh) (simp add: map_of_eq_None_iff)

lemma length_mapSet: "map_of xs k = Some w \<Longrightarrow> length (mapSet k v xs) = length xs"
  by (induction xs) auto

lemma nth_mapSet: "j < length (mapSet k v xs) \<Longrightarrow> map_of xs k = Some w \<Longrightarrow> mapSet k v xs ! j = xs ! j \<or> mapSet k v xs ! j = (k, v)"
proof (induction xs arbitrary: j)
  case (Cons x xs)
  then show ?case by (cases x; cases j) (auto split: if_splits)
qed simp

locale mark_kind =
  fixes kind :: "'m MarkKind" and s :: ActiveLibraryStore
  assumes compare: "collation lc \<Longrightarrow> comparator (mk_compare kind lc)"
    and of_val: "mk_of kind (mk_val kind m) = m"
    and get_reads: "onlyQuarantines db (snd (mk_get kind db i))"
    and get_none: "mk_get kind db i = (None, db') \<Longrightarrow> idbGet db' s [i] = None"
    and get_some: "mk_get kind db i = (Some v, db') \<Longrightarrow> idbGet db' s [i] = Some v \<and> mk_guard kind v \<and> mk_id kind (mk_of kind v) = i"
    and save_error: "mk_save kind db m = (Inl e, db') \<Longrightarrow> onlyQuarantines db db'"
    and save_done: "mk_save kind db m = (Inr u, db') \<Longrightarrow>
      db' = idbWrite db s (mk_val kind m) \<and>
      recordKey s (mk_val kind m) = [mk_id kind m]"
begin

section \<open>Marks are kept\<close>

lemma keepsMarks_read: "collation lc \<Longrightarrow> onlyQuarantines db db' \<Longrightarrow> keepsMarks kind s lc db db'"
proof -
  assume lc: "collation lc" and q: "onlyQuarantines db db'"
  have "heldMark s db' i v" if "heldMark s db i v" for i v
    using q that unfolding onlyQuarantines_def heldMark_def quarantinedIn_def by (metis option.inject subsetD)
  then show ?thesis
    unfolding keepsMarks_def using comparator.cmp_refl [OF compare [OF lc]] by (metis order_refl)
qed

lemma keepsMarks_trans:
  "collation lc \<Longrightarrow> keepsMarks kind s lc db1 db2 \<Longrightarrow> keepsMarks kind s lc db2 db3 \<Longrightarrow> keepsMarks kind s lc db1 db3"
  unfolding keepsMarks_def using comparator.cmp_trans [OF compare] by meson

lemma keepsMarks_refl: "collation lc \<Longrightarrow> keepsMarks kind s lc db db"
  by (rule keepsMarks_read) simp_all

text \<open>A mark that is saved over the stored one must not be older.\<close>

lemma keepsMarks_save:
  assumes lc: "collation lc" and save: "mk_save kind db m = (r, db')"
    and newer: "\<And>v. idbGet db s [mk_id kind m] = Some v \<Longrightarrow> mk_compare kind lc (mk_of kind v) m \<le> 0"
  shows "keepsMarks kind s lc db db'"
proof (cases r)
  case (Inl e)
  then show ?thesis using save save_error keepsMarks_read [OF lc] by blast
next
  case (Inr u)
  then have db': "db' = idbWrite db s (mk_val kind m)" and key: "recordKey s (mk_val kind m) = [mk_id kind m]"
    using save save_done by blast+
  have "\<exists>v'. heldMark s db' i v' \<and> mk_compare kind lc (mk_of kind v) (mk_of kind v') \<le> 0" if held: "heldMark s db i v" for i v
  proof (cases "i = mk_id kind m \<and> idbGet db s [i] = Some v")
    case True
    then show ?thesis
      using newer [of v] by (intro exI [of _ "mk_val kind m"]) (auto simp: heldMark_def db' idbGet_idbWrite key of_val)
  next
    case False
    then have "heldMark s db' i v"
      using held by (auto simp: heldMark_def db' idbGet_idbWrite key)
    then show ?thesis using comparator.cmp_refl [OF compare [OF lc]] by (metis order_refl)
  qed
  then show ?thesis by (simp add: keepsMarks_def)
qed

lemma pullMark_keeps:
  assumes lc: "collation lc"
  shows "keepsMarks kind s lc db (snd (pullMark kind lc d db))"
proof (cases "parseMarkDocument kind d")
  case None
  then show ?thesis by (simp add: pullMark_def keepsMarks_refl lc)
next
  case (Some m)
  obtain b db1 where b: "getBook db (mk_bookId kind m) = (b, db1)" by fastforce
  obtain c db2 where c: "mk_get kind db1 (mk_id kind m) = (c, db2)" by fastforce
  obtain r db3 where sv: "mk_save kind db2 m = (r, db3)" by fastforce
  have k1: "keepsMarks kind s lc db db1" using onlyQuarantines_getBook [of db "mk_bookId kind m"] b keepsMarks_read [OF lc] by simp
  have "keepsMarks kind s lc db1 db2" using get_reads [of db1 "mk_id kind m"] c keepsMarks_read [OF lc] by simp
  then have k2: "keepsMarks kind s lc db db2" by (rule keepsMarks_trans [OF lc k1])
  have k3: "keepsMarks kind s lc db db3" if wins: "incomingWins kind lc (map_option (mk_of kind) c) m"
  proof (rule keepsMarks_trans [OF lc k2 keepsMarks_save [OF lc sv]])
    fix v assume v: "idbGet db2 s [mk_id kind m] = Some v"
    then have "c = Some v" using get_none get_some c by (cases c) fastforce+
    then show "mk_compare kind lc (mk_of kind v) m \<le> 0"
      using wins comparator.cmp_le_iff [OF compare [OF lc], of "mk_of kind v" m] by (simp add: incomingWins_def)
  qed
  show ?thesis
    using Some b c sv k1 k2 k3 keepsMarks_refl [OF lc]
    by (auto simp: pullMark_def Let_def split: option.splits sum.splits)
qed

lemma pullMarks_keeps: "collation lc \<Longrightarrow> keepsMarks kind s lc db (snd (pullMarks kind lc ds result db))"
proof (induction ds arbitrary: result db)
  case (Cons d ds)
  obtain r db1 where one: "pullMark kind lc d db = (r, db1)" by fastforce
  then have "keepsMarks kind s lc db db1" using pullMark_keeps [OF Cons.prems, of db d] by simp
  then show ?case
    using one Cons keepsMarks_trans [OF Cons.prems] by (auto split: sum.splits)
qed (simp add: keepsMarks_refl)

section \<open>Pushing a mark\<close>

lemma chooseMark_cases:
  assumes lc: "collation lc" and choose: "chooseMark kind lc remoteMark pending db = (r, db')"
  obtains (failed) e where "r = Inl e" "onlyQuarantines db db'"
  | (pending) "r = Inr pending" "db' = db"
  | (remote) m where "r = Inr m" "remoteMark = Some m" "mk_compare kind lc pending m \<le> 0" "mk_save kind db m = (Inr (), db')"
proof (cases remoteMark)
  case None
  then show ?thesis using choose that(2) by (simp add: chooseMark_def)
next
  case (Some m)
  show ?thesis
  proof (cases "incomingWins kind lc (Some m) pending")
    case True
    then show ?thesis using choose Some that(2) by (simp add: chooseMark_def)
  next
    case False
    then have le: "mk_compare kind lc pending m \<le> 0" by (simp add: incomingWins_def)
    obtain q db1 where q: "mk_save kind db m = (q, db1)" by fastforce
    then show ?thesis
      using choose Some False le that(1,3) save_error [of db m] by (cases q) (auto simp: chooseMark_def)
  qed
qed

lemma pushMarkAttempts_step:
  fixes tr :: "'r Transport" and st :: "'r MarkState"
  assumes lc: "collation lc"
    and again: "\<And>r' st'. retries = Suc r' \<Longrightarrow> ms_journal st' = ms_journal st \<Longrightarrow>
      markPushOutcome tr kind lc (conflicts + retries) pending None st (pushMarkAttempts tr kind lc pending r' (Suc conflicts) None st')"
  shows "markPushOutcome tr kind lc (conflicts + retries) pending initial st (pushMarkAttempts tr kind lc pending retries conflicts initial st)"
proof -
  let ?path = "markDocumentPath kind (mw_mark pending)"
  obtain found remote1 where rd: "(case initial of Some c \<Rightarrow> (Inr c, ms_remote st)
      | None \<Rightarrow> tr_read tr (ms_remote st) ?path) = (found, remote1)"
    by fastforce
  note step = pushMarkAttempts.simps [of tr kind lc pending retries conflicts initial st, unfolded Let_def rd prod.case]
  show ?thesis
  proof (cases found)
    case (Inl e)
    then show ?thesis by (simp add: step markPushOutcome_def)
  next
    case (Inr current)
    note step' = step [unfolded Inr sum.case]
    show ?thesis
    proof (cases "foreignMark kind current (mw_mark pending)")
      case True
      then show ?thesis by (simp add: step' markPushOutcome_def)
    next
      case False
      obtain choice db where choice: "chooseMark kind lc (Option.bind current (parseMarkDocument kind)) (mw_mark pending) (ms_db st) = (choice, db)"
        by fastforce
      show ?thesis
      proof (cases choice)
        case (Inl e)
        then show ?thesis using False choice by (simp add: step' markPushOutcome_def)
      next
        case mark: (Inr mark)
        have ok: "mk_compare kind lc (mw_mark pending) mark \<le> 0 \<and> mk_id kind mark = mk_id kind (mw_mark pending)"
          using chooseMark_cases [OF lc choice] mark False comparator.cmp_refl [OF compare [OF lc]]
          by cases (auto simp: foreignMark_def bind_eq_Some_conv)
        obtain outcome remote2 where wr: "tr_write tr remote1 ?path (serializeMark kind mark) (map_option rd_revision current) =
            (outcome, remote2)" by fastforce
        let ?st = "st\<lparr>ms_remote := remote1, ms_db := db\<rparr>"
        have known: "pushMarkAttempts tr kind lc pending retries conflicts initial st =
            (if map_option rd_content current = Some (serializeMark kind mark)
             then (Inr \<lparr>pu_pushed = False, pu_conflicts = conflicts, pu_rejected = 0\<rparr>, acknowledgeMark pending ?st)
             else case outcome of
                 Inr d \<Rightarrow> (Inr \<lparr>pu_pushed = True, pu_conflicts = conflicts, pu_rejected = 0\<rparr>, acknowledgeMark pending (?st\<lparr>ms_remote := remote2\<rparr>))
               | Inl e \<Rightarrow> (case retries of 0 \<Rightarrow> (Inl e, ?st\<lparr>ms_remote := remote2\<rparr>)
                   | Suc r \<Rightarrow> if e \<noteq> SyncConflictError then (Inl e, ?st\<lparr>ms_remote := remote2\<rparr>)
                       else pushMarkAttempts tr kind lc pending r (Suc conflicts) None (?st\<lparr>ms_remote := remote2\<rparr>)))"
          using False choice mark wr by (simp add: step' del: map_option_eq_Some)
        show ?thesis
        proof (cases "map_option rd_content current = Some (serializeMark kind mark)")
          case True
          then obtain d where "current = Some d" "rd_content d = serializeMark kind mark" by auto
          then have "publishedMark tr kind pending initial False mark remote1"
            using rd Inr by (cases initial) (auto simp: publishedMark_def)
          then show ?thesis using ok True by (auto simp: known markPushOutcome_def acknowledgeMark_def)
        next
          case changed: False
          show ?thesis
          proof (cases outcome)
            case (Inr d)
            then have "publishedMark tr kind pending initial True mark remote2"
              using wr by (auto simp: publishedMark_def Let_def)
            then show ?thesis using ok changed wr Inr by (auto simp: known markPushOutcome_def acknowledgeMark_def)
          next
            case (Inl e)
            show ?thesis
            proof (cases "\<exists>r. retries = Suc r \<and> e = SyncConflictError")
              case True
              then obtain r where r: "retries = Suc r" "e = SyncConflictError" by blast
              have "markPushOutcome tr kind lc (conflicts + retries) pending None st (pushMarkAttempts tr kind lc pending r (Suc conflicts) None (?st\<lparr>ms_remote := remote2\<rparr>))"
                by (rule again) (simp_all add: r)
              then show ?thesis using changed Inl known r by (simp add: markPushOutcome_initial del: map_option_eq_Some)
            next
              case False
              then show ?thesis using changed Inl by (auto simp: known markPushOutcome_def split: nat.splits)
            qed
          qed
        qed
      qed
    qed
  qed
qed

lemma pushMarkAttempts_outcome:
  fixes tr :: "'r Transport"
  assumes lc: "collation lc"
  shows "markPushOutcome tr kind lc (conflicts + retries) pending initial st (pushMarkAttempts tr kind lc pending retries conflicts initial st)"
proof (induction retries arbitrary: conflicts initial st)
  case 0
  show ?case by (rule pushMarkAttempts_step [OF lc]) simp
next
  case (Suc retries)
  show ?case
  proof (rule pushMarkAttempts_step [OF lc])
    fix r' and st' :: "'r MarkState" assume "Suc retries = Suc r'" "ms_journal st' = ms_journal st"
    then show "markPushOutcome tr kind lc (conflicts + Suc retries) pending None st
        (pushMarkAttempts tr kind lc pending r' (Suc conflicts) None st')"
      using Suc.IH [of "Suc conflicts" None st'] by (simp add: markPushOutcome_cong [of st' st])
  qed
qed

lemma pushMark_outcome:
  "collation lc \<Longrightarrow> markPushOutcome tr kind lc n pending initial st (pushMark tr kind lc n pending initial st)"
  using pushMarkAttempts_outcome [of lc tr 0 n] by (simp add: pushMark_def)

lemma pull_keeps:
  assumes "collation lc"
  shows "keepsMarks kind s lc (ms_db st) (ms_db (snd (pullAllMarks tr kind lc documents st)))"
proof -
  obtain listed remote where l: "(case documents of Some ds \<Rightarrow> (Inr ds, ms_remote st)
      | None \<Rightarrow> tr_list tr (ms_remote st) (mk_root kind)) = (listed, remote)" by fastforce
  show ?thesis
    using pullMarks_keeps [OF assms, of "ms_db st"] keepsMarks_refl [OF assms]
    by (cases listed) (auto simp: pullAllMarks_def l split_beta)
qed

section \<open>The loop that grows its map\<close>

text \<open>Entries after the first \<open>n\<close> were added for a stored mark: visiting one adds no other.\<close>

definition addedKnown :: "nat \<Rightarrow> 'm markWrites \<Rightarrow> LibraryDb \<Rightarrow> bool" where
  "addedKnown n documents db \<longleftrightarrow> (\<forall>j < length documents. n \<le> j \<longrightarrow>
     (\<forall>v. idbGet db s [mk_id kind (mw_mark (snd (documents ! j)))] = Some v \<longrightarrow>
        markDocumentPath kind (mk_of kind v) \<in> fst ` set documents))"

lemma mergeMarkSnapshot_visit:
  fixes lc :: "string \<Rightarrow> string \<Rightarrow> int"
  assumes known: "addedKnown n documents db" and q: "onlyQuarantines db db'" and v: "idbGet db' s [mk_id kind (mk_of kind v)] = Some v"
  defines "documents' \<equiv> mergeMarkSnapshot kind lc documents (mk_of kind v)"
  shows "addedKnown n documents' db' \<and> length documents' \<le> Suc (length documents) \<and>
    (markDocumentPath kind (mk_of kind v) \<in> fst ` set documents \<longrightarrow> length documents' = length documents)"
proof -
  let ?path = "markDocumentPath kind (mk_of kind v)"
  have keys: "insert ?path (fst ` set documents) = fst ` set documents'"
    by (auto simp: documents'_def mergeMarkSnapshot_def Let_def keys_mapSet map_of_eq_None_iff split: option.splits
        dest: map_of_SomeD intro: rev_image_eqI)
  have stored: "idbGet db s [i] = Some w" if "idbGet db' s [i] = Some w" for i w
    using q that unfolding onlyQuarantines_def by (metis option.distinct(1))
  have entry: "j < length documents \<and> mw_mark (snd (documents' ! j)) = mw_mark (snd (documents ! j)) \<or>
      mw_mark (snd (documents' ! j)) = mk_of kind v" if "j < length documents'" for j
  proof (cases "map_of documents ?path")
    case None
    then show ?thesis using that by (auto simp: documents'_def mergeMarkSnapshot_def mapSet_append nth_append)
  next
    case (Some w)
    then show ?thesis
      using that nth_mapSet [OF _ Some, of j "w\<lparr>mw_mark := mk_of kind v\<rparr>"] length_mapSet [OF Some]
      by (auto simp: documents'_def mergeMarkSnapshot_def Let_def split: if_splits)
  qed
  have "addedKnown n documents' db'"
    unfolding addedKnown_def
  proof (intro allI impI)
    fix j w assume j: "j < length documents'" "n \<le> j"
      and w: "idbGet db' s [mk_id kind (mw_mark (snd (documents' ! j)))] = Some w"
    from entry [OF j(1)] show "markDocumentPath kind (mk_of kind w) \<in> fst ` set documents'"
    proof (elim disjE conjE)
      assume "j < length documents" "mw_mark (snd (documents' ! j)) = mw_mark (snd (documents ! j))"
      then show ?thesis using known stored j w keys by (auto simp: addedKnown_def)
    next
      assume "mw_mark (snd (documents' ! j)) = mk_of kind v"
      then show ?thesis using v w keys by auto
    qed
  qed
  moreover have "length documents' \<le> Suc (length documents) \<and> (?path \<in> fst ` set documents \<longrightarrow> length documents' = length documents)"
    by (cases "map_of documents ?path")
      (auto simp: documents'_def mergeMarkSnapshot_def Let_def mapSet_append length_mapSet dest: weak_map_of_SomeI)
  ultimately show ?thesis by blast
qed

lemma addedKnown_read: "addedKnown n documents db \<Longrightarrow> onlyQuarantines db db' \<Longrightarrow> addedKnown n documents db'"
  unfolding addedKnown_def onlyQuarantines_def by (metis option.distinct(1))

lemma mergeCurrentMarks_enough:
  assumes "addedKnown n documents db" and "(length documents - i) + (n - i) \<le> fuel"
  shows "mergeCurrentMarks (fuel + k) kind lc i (documents, db) = mergeCurrentMarks fuel kind lc i (documents, db)"
  using assms
proof (induction fuel arbitrary: i documents db)
  case 0
  then show ?case by (cases k) simp_all
next
  case (Suc fuel)
  show ?case
  proof (cases "i < length documents")
    case True
    let ?i = "mk_id kind (mw_mark (snd (documents ! i)))"
    obtain current db' where get: "mk_get kind db ?i = (current, db')" by fastforce
    have q: "onlyQuarantines db db'" using get_reads [of db ?i] get by simp
    let ?next = "case current of None \<Rightarrow> documents | Some v \<Rightarrow> mergeMarkSnapshot kind lc documents (mk_of kind v)"
    have "addedKnown n ?next db' \<and> length ?next \<le> Suc (length documents) \<and> (n \<le> i \<longrightarrow> length ?next = length documents)"
    proof (cases current)
      case None
      then show ?thesis using addedKnown_read [OF Suc.prems(1) q] by simp
    next
      case (Some v)
      then have v: "idbGet db' s [?i] = Some v" "mk_id kind (mk_of kind v) = ?i" using get_some get by blast+
      then have "idbGet db s [?i] = Some v" using q unfolding onlyQuarantines_def by (metis option.distinct(1))
      then have "n \<le> i \<longrightarrow> markDocumentPath kind (mk_of kind v) \<in> fst ` set documents"
        using Suc.prems(1) True by (auto simp: addedKnown_def)
      then show ?thesis using mergeMarkSnapshot_visit [OF Suc.prems(1) q, of v lc] v Some by auto
    qed
    then have "mergeCurrentMarks (fuel + k) kind lc (Suc i) (?next, db') = mergeCurrentMarks fuel kind lc (Suc i) (?next, db')"
      using Suc.prems(2) True by (intro Suc.IH) auto
    then show ?thesis using True get by simp
  qed simp
qed

text \<open>Twice the number of pending writes is enough fuel.\<close>

lemma pending_fuel_enough:
  "mergeCurrentMarks (2 * length documents + k) kind lc 0 (documents, db) = mergeCurrentMarks (2 * length documents) kind lc 0 (documents, db)"
  by (rule mergeCurrentMarks_enough [of "length documents"]) (simp_all add: addedKnown_def)

end

section \<open>Bookmarks and annotations\<close>

lemma getMark_none:
  assumes "getMark db s isMark reason mismatch i = (None, db')" and "s \<noteq> BOOKS_STORE"
    and "\<And>v. isMark v \<Longrightarrow> isStr (getProp v ''bookId'')"
  shows "idbGet db' s [i] = None"
proof -
  obtain m db1 where m: "readValidated db s [i] (\<lambda>v. isMark v \<and> getProp v ''id'' = JStr i) reason = (m, db1)" by fastforce
  show ?thesis
  proof (cases m)
    case None
    then show ?thesis
      using assms(1) m by (auto simp: getMark_def readValidated_def quarantineInvalidRecord_def idbGet_def delete_conv
          split: option.splits if_splits)
  next
    case (Some v)
    then have v: "idbGet db s [i] = Some v" "db1 = db" "isMark v"
      using m by (auto simp: readValidated_def split: option.splits if_splits)
    obtain b db2 where b: "getBook db (strOf (getProp v ''bookId'')) = (b, db2)" by fastforce
    have stored: "idbGet db2 s [i] = Some v" using idbGet_getBook [OF assms(2), of db "strOf (getProp v ''bookId'')"] b v by simp
    have "db' = quarantineInvalidRecord db2 s [i] (\<lambda>v. isMark v \<and> getProp v ''id'' = JStr i \<and>
        (case b of None \<Rightarrow> False | Some b \<Rightarrow> getProp v ''bookId'' = getProp b ''id'' \<and> getProp v ''format'' = getProp b ''format'')) mismatch"
      and no: "\<not> (case b of None \<Rightarrow> False | Some b \<Rightarrow> getProp b ''format'' = getProp v ''format'')"
      using assms(1) m Some b v(2) by (auto simp: getMark_def split: if_splits)
    then show ?thesis
      using stored by (auto simp: quarantineInvalidRecord_def idbGet_def delete_conv split: option.splits)
  qed
qed

lemma getMark_some:
  assumes "getMark db s isMark reason mismatch i = (Some v, db')" and "s \<noteq> BOOKS_STORE"
  shows "idbGet db' s [i] = Some v \<and> isMark v \<and> getProp v ''id'' = JStr i"
proof -
  obtain m db1 where m: "readValidated db s [i] (\<lambda>v. isMark v \<and> getProp v ''id'' = JStr i) reason = (m, db1)" by fastforce
  then have "m = Some v" using assms(1) by (auto simp: getMark_def split: option.splits prod.splits if_splits)
  then have v: "idbGet db s [i] = Some v" "db1 = db" "isMark v" "getProp v ''id'' = JStr i"
    using m by (auto simp: readValidated_def split: option.splits if_splits)
  then show ?thesis
    using assms m \<open>m = Some v\<close> idbGet_getBook [OF assms(2), of db "strOf (getProp v ''bookId'')" "[i]"]
    by (auto simp: getMark_def split: prod.splits if_splits)
qed

lemma guard_strings:
  "isPublicationBookmark v \<Longrightarrow> isStr (getProp v ''id'') \<and> isStr (getProp v ''bookId'')"
  "isPublicationAnnotation v \<Longrightarrow> isStr (getProp v ''id'') \<and> isStr (getProp v ''bookId'')"
  by (simp_all add: isPublicationBookmark_def isPublicationAnnotation_def Let_def)

lemma styleOf_string [simp]: "styleOf (JStr (styleString x)) = x"
  by (cases x) (simp_all add: styleOf_def styleString_def)

lemma annotationOf_annotationVal [simp]: "annotationOf (annotationVal a) = a"
proof -
  have "map (\<lambda>x. decorationOf (decorationVal x)) ds = ds" for ds
    by (rule map_idI) (simp add: decorationOf_def decorationVal_def)
  then show ?thesis
    by (cases a) (simp add: annotationOf_def annotationVal_def comp_def)
qed

interpretation bookmark: mark_kind bookmarkKind BOOKMARKS_STORE
proof (rule mark_kind.intro)
  show "collation lc \<Longrightarrow> comparator (mk_compare bookmarkKind lc)" for lc
    using bookmark_lww [of lc] by (simp add: bookmarkKind_def lww_def)
  show "onlyQuarantines db (snd (mk_get bookmarkKind db i))" for db i
    using libraryRead_onlyQuarantines [OF read_bookmark] by (simp add: bookmarkKind_def)
  show "idbGet db' BOOKMARKS_STORE [i] = None" if "mk_get bookmarkKind db i = (None, db')" for db i db'
    using that by (auto simp: bookmarkKind_def getBookmark_def intro: getMark_none dest: guard_strings)
  show "idbGet db' BOOKMARKS_STORE [i] = Some v \<and> mk_guard bookmarkKind v \<and> mk_id bookmarkKind (mk_of bookmarkKind v) = i"
    if "mk_get bookmarkKind db i = (Some v, db')" for db i v db'
    using that getMark_some [of db BOOKMARKS_STORE isPublicationBookmark _ _ i v db']
    by (auto simp: bookmarkKind_def getBookmark_def bookmarkOf_def)
  show "onlyQuarantines db db'" if "mk_save bookmarkKind db m = (Inl e, db')" for db m e db'
    using that by (cases rule: saveChecked_cases [of db BOOKMARKS_STORE isPublicationBookmark "bookmarkVal m"])
      (auto simp: bookmarkKind_def saveBookmark_def)
  show "db' = idbWrite db BOOKMARKS_STORE (mk_val bookmarkKind m) \<and>
      recordKey BOOKMARKS_STORE (mk_val bookmarkKind m) = [mk_id bookmarkKind m]"
    if "mk_save bookmarkKind db m = (Inr u, db')" for db m u db'
    using that saveChecked_saved [of db BOOKMARKS_STORE isPublicationBookmark "bookmarkVal m" db']
    by (auto simp: bookmarkKind_def saveBookmark_def recordKey_def keyPath_def)
qed (simp add: bookmarkKind_def)

interpretation annotation: mark_kind annotationKind ANNOTATIONS_STORE
proof (rule mark_kind.intro)
  show "collation lc \<Longrightarrow> comparator (mk_compare annotationKind lc)" for lc
    using annotation_lww [of lc] by (simp add: annotationKind_def lww_def)
  show "onlyQuarantines db (snd (mk_get annotationKind db i))" for db i
    using libraryRead_onlyQuarantines [OF read_annotation] by (simp add: annotationKind_def)
  show "idbGet db' ANNOTATIONS_STORE [i] = None" if "mk_get annotationKind db i = (None, db')" for db i db'
    using that by (auto simp: annotationKind_def getAnnotation_def intro: getMark_none dest: guard_strings)
  show "idbGet db' ANNOTATIONS_STORE [i] = Some v \<and> mk_guard annotationKind v \<and> mk_id annotationKind (mk_of annotationKind v) = i"
    if "mk_get annotationKind db i = (Some v, db')" for db i v db'
    using that getMark_some [of db ANNOTATIONS_STORE isPublicationAnnotation _ _ i v db']
    by (auto simp: annotationKind_def getAnnotation_def annotationOf_def)
  show "onlyQuarantines db db'" if "mk_save annotationKind db m = (Inl e, db')" for db m e db'
    using that by (cases rule: saveChecked_cases [of db ANNOTATIONS_STORE isPublicationAnnotation "annotationVal m"])
      (auto simp: annotationKind_def saveAnnotation_def)
  show "db' = idbWrite db ANNOTATIONS_STORE (mk_val annotationKind m) \<and>
      recordKey ANNOTATIONS_STORE (mk_val annotationKind m) = [mk_id annotationKind m]"
    if "mk_save annotationKind db m = (Inr u, db')" for db m u db'
    using that saveChecked_saved [of db ANNOTATIONS_STORE isPublicationAnnotation "annotationVal m" db']
    by (auto simp: annotationKind_def saveAnnotation_def recordKey_def keyPath_def annotationVal_def)
qed (simp add: annotationKind_def)

text \<open>C9. Pushing a pending bookmark or annotation ends after at most the configured number of conflict retries. Its
  operations are acknowledged only when the remote document of the mark holds a version that is not older than the
  pending one: the last call of the transport accepted the text of this version, or the text was read. When the push
  fails or finds a foreign document, the journal stays as it was, whatever the transport and other devices do.\<close>

theorem mark_push_outcome:
  assumes "collation lc"
  shows "markPushOutcome tr bookmarkKind lc n b initial st (pushBookmark tr lc n b initial st) \<and>
    markPushOutcome tr annotationKind lc n a initial st (pushAnnotation tr lc n a initial st)"
  by (simp add: pushBookmark_def pushAnnotation_def bookmark.pushMark_outcome annotation.pushMark_outcome assms)

definition exampleMarkWrite :: "PublicationBookmark PendingMarkWrite" where
  "exampleMarkWrite = \<lparr>mw_mark = exampleBookmark, mw_operationIds = [''op-1''], mw_createCandidate = True\<rparr>"

definition exampleMarkState :: "nat MarkState" where
  "exampleMarkState = \<lparr>ms_remote = 1, ms_db = exampleDb, ms_journal = emptyJournal\<rparr>"

theorem mark_push_outcome_witness:
  "markPushOutcome conflictingTransport bookmarkKind codeUnitCompare 2 exampleMarkWrite None exampleMarkState
     (pushBookmark conflictingTransport codeUnitCompare 2 exampleMarkWrite None exampleMarkState)"
  using mark_push_outcome [OF ascii.collation_axioms] by blast

text \<open>C10. A pull of bookmarks or annotations loses nothing: every mark that was stored is still held, in the store or in
  the quarantine, in the same or a newer version, whatever documents the remote lists.\<close>

theorem mark_pull_keeps:
  assumes "collation lc"
  shows "keepsMarks bookmarkKind BOOKMARKS_STORE lc (ms_db st) (ms_db (snd (pullBookmarks tr lc documents st))) \<and>
    keepsMarks annotationKind ANNOTATIONS_STORE lc (ms_db st) (ms_db (snd (pullAnnotations tr lc documents st)))"
  by (simp add: pullBookmarks_def pullAnnotations_def bookmark.pull_keeps annotation.pull_keeps assms)

theorem mark_pull_keeps_witness:
  "keepsMarks bookmarkKind BOOKMARKS_STORE codeUnitCompare exampleDb
     (ms_db (snd (pullBookmarks conflictingTransport codeUnitCompare None exampleMarkState)))"
  using mark_pull_keeps [OF ascii.collation_axioms, of exampleMarkState] by (simp add: exampleMarkState_def)

end
