(* ===== verification/Manifest_Sync.thy ===== *)
theory Manifest_Sync
  imports Progress_Sync JSON_Roundtrip
begin

text \<open>
  The service that checks and upgrades the schema of the synchronized library before anything else is exchanged:
  \<open>libs/sync/core/src/lib/library-sync-manifest-service.ts\<close>. The preparation of an upgrade is another service: a call on
  the remote, which may be missing. The waiting between two attempts is left out. The theorem says when the service
  succeeds, and that it overwrites no manifest but one it has just read and knows how to upgrade.
\<close>

section \<open>The service\<close>

datatype SchemaError = UnsupportedSchema | UnexpectedSchemaPath | UpgradeNotPrepared | SyncRootChanged | SchemaTransport ProgressError

datatype SchemaKind = SchemaCurrent | SchemaCompatibleCurrent | SchemaLegacy

record SchemaResult =
  sc_pushed :: nat
  sc_conflicts :: nat

definition libraryManifestOf :: "jsval \<Rightarrow> LibrarySyncManifest" where
  "libraryManifestOf v = \<lparr>lsm_features = map strOf (arrOf (getProp v ''features''))\<rparr>"

definition parseManifest :: "RemoteDocument \<Rightarrow> SchemaError + SchemaKind" where
  "parseManifest document =
     (if rd_path document \<noteq> SYNC_MANIFEST_PATH then Inl UnexpectedSchemaPath
      else case parseJson (rd_content document) of
             None \<Rightarrow> Inl UnsupportedSchema
           | Some value \<Rightarrow>
               if isLibrarySyncManifest value
               then Inr (if supportsReaderPreferenceSync (libraryManifestOf value) then SchemaCurrent else SchemaCompatibleCurrent)
               else if isLegacyLibrarySyncManifest value then Inr SchemaLegacy else Inl UnsupportedSchema)"

definition serializeManifest :: string where
  "serializeManifest = prettyAt 0 (libraryManifestVal createLibrarySyncManifest) @ [CHR 0x0A]"

definition assertCompatibleManifest :: "RemoteDocument \<Rightarrow> SchemaError + unit" where
  "assertCompatibleManifest document =
     andThen (parseManifest document) (\<lambda>schema. if schema \<noteq> SchemaCurrent then Inl UnsupportedSchema else Inr ())"

text \<open>
  Writing the manifest, which three branches of the loop do: \<open>again\<close> is the next turn of the loop, taken after a conflict
  when retries are left.
\<close>

definition writeManifest ::
  "'r Transport \<Rightarrow> ('r \<Rightarrow> (SchemaError + SchemaResult) \<times> 'r) option \<Rightarrow> nat \<Rightarrow> string option \<Rightarrow> 'r \<Rightarrow>
     (SchemaError + SchemaResult) \<times> 'r" where
  "writeManifest transport again conflicts expectedRevision remote =
     (case tr_write transport remote SYNC_MANIFEST_PATH serializeManifest expectedRevision of
        (Inr document, remote') \<Rightarrow>
          (andThen (assertCompatibleManifest document) (\<lambda>_. Inr \<lparr>sc_pushed = 1, sc_conflicts = conflicts\<rparr>), remote')
      | (Inl e, remote') \<Rightarrow>
          (case again of
             None \<Rightarrow> (Inl (SchemaTransport e), remote')
           | Some loop \<Rightarrow> if e \<noteq> SyncConflictError then (Inl (SchemaTransport e), remote') else loop remote'))"

definition unchangedManifest :: "nat \<Rightarrow> SchemaResult" where
  "unchangedManifest conflicts = \<lparr>sc_pushed = 0, sc_conflicts = conflicts\<rparr>"

text \<open>The upgrade of a legacy destination: prepare, read again, write.\<close>

definition upgradeLegacy ::
  "'r Transport \<Rightarrow> ('r \<Rightarrow> (ProgressError + unit) \<times> 'r) option \<Rightarrow> ('r \<Rightarrow> (SchemaError + SchemaResult) \<times> 'r) option \<Rightarrow> nat \<Rightarrow> 'r \<Rightarrow>
     (SchemaError + SchemaResult) \<times> 'r" where
  "upgradeLegacy transport prepareLegacyUpgrade again conflicts remote =
     (case prepareLegacyUpgrade of
        None \<Rightarrow> (Inl UpgradeNotPrepared, remote)
      | Some prepare \<Rightarrow>
          (case prepare remote of
             (Inl e, remote1) \<Rightarrow> (Inl (SchemaTransport e), remote1)
           | (Inr _, remote1) \<Rightarrow>
               (case tr_read transport remote1 SYNC_MANIFEST_PATH of
                  (Inl e, remote2) \<Rightarrow> (Inl (SchemaTransport e), remote2)
                | (Inr None, remote2) \<Rightarrow> (Inl SyncRootChanged, remote2)
                | (Inr (Some current), remote2) \<Rightarrow>
                    (case parseManifest current of
                       Inl e \<Rightarrow> (Inl e, remote2)
                     | Inr SchemaCurrent \<Rightarrow> (Inr (unchangedManifest conflicts), remote2)
                     | Inr _ \<Rightarrow> writeManifest transport again conflicts (Some (rd_revision current)) remote2))))"

text \<open>The unbounded loop: \<open>retries\<close> counts down from \<open>maxConflictRetries\<close> as \<open>attempt\<close> counts up.\<close>

fun manifestAttempts ::
  "'r Transport \<Rightarrow> ('r \<Rightarrow> (ProgressError + unit) \<times> 'r) option \<Rightarrow> nat \<Rightarrow> nat \<Rightarrow> 'r \<Rightarrow> (SchemaError + SchemaResult) \<times> 'r" where
  "manifestAttempts transport prepareLegacyUpgrade retries conflicts remote =
     (let again = (case retries of
            0 \<Rightarrow> None | Suc retries' \<Rightarrow> Some (\<lambda>remote. manifestAttempts transport prepareLegacyUpgrade retries' (Suc conflicts) remote))
      in case tr_read transport remote SYNC_MANIFEST_PATH of
           (Inl e, remote1) \<Rightarrow> (Inl (SchemaTransport e), remote1)
         | (Inr None, remote1) \<Rightarrow> writeManifest transport again conflicts None remote1
         | (Inr (Some current), remote1) \<Rightarrow>
             (case parseManifest current of
                Inl e \<Rightarrow> (Inl e, remote1)
              | Inr SchemaCurrent \<Rightarrow> (Inr (unchangedManifest conflicts), remote1)
              | Inr SchemaCompatibleCurrent \<Rightarrow> writeManifest transport again conflicts (Some (rd_revision current)) remote1
              | Inr SchemaLegacy \<Rightarrow> upgradeLegacy transport prepareLegacyUpgrade again conflicts remote1))"

declare manifestAttempts.simps [simp del]

definition synchronizeManifest ::
  "'r Transport \<Rightarrow> ('r \<Rightarrow> (ProgressError + unit) \<times> 'r) option \<Rightarrow> nat \<Rightarrow> 'r \<Rightarrow> (SchemaError + SchemaResult) \<times> 'r" where
  "synchronizeManifest transport prepareLegacyUpgrade maxConflictRetries remote =
     manifestAttempts transport prepareLegacyUpgrade maxConflictRetries 0 remote"

section \<open>What the service guarantees\<close>

text \<open>A write that may be made: nothing was there, or what was read just before is a manifest that can be upgraded.\<close>

definition upgradeable :: "'r Transport \<Rightarrow> 'r \<Rightarrow> string option \<Rightarrow> bool" where
  "upgradeable tr remote revision \<longleftrightarrow>
     (\<exists>earlier current. tr_read tr earlier SYNC_MANIFEST_PATH = (Inr current, remote) \<and> revision = map_option rd_revision current \<and>
        (\<forall>d. current = Some d \<longrightarrow> parseManifest d \<in> {Inr SchemaCompatibleCurrent, Inr SchemaLegacy}))"

text \<open>How the service ends, and the last call of the transport before it.\<close>

definition manifestOutcome :: "'r Transport \<Rightarrow> nat \<Rightarrow> (SchemaError + SchemaResult) \<times> 'r \<Rightarrow> bool" where
  "manifestOutcome tr limit out \<longleftrightarrow>
     (case fst out of
        Inl _ \<Rightarrow> True
      | Inr r \<Rightarrow> sc_conflicts r \<le> limit \<and>
          (sc_pushed r = 0 \<and> (\<exists>earlier d. tr_read tr earlier SYNC_MANIFEST_PATH = (Inr (Some d), snd out) \<and> parseManifest d = Inr SchemaCurrent) \<or>
           sc_pushed r = 1 \<and> (\<exists>earlier revision d. upgradeable tr earlier revision \<and> parseManifest d = Inr SchemaCurrent \<and>
             tr_write tr earlier SYNC_MANIFEST_PATH serializeManifest revision = (Inr d, snd out))))"

lemma manifestOutcome_Inl [simp]: "manifestOutcome tr n (Inl e, r)"
  by (simp add: manifestOutcome_def)

lemma upgradeable_none: "tr_read tr earlier SYNC_MANIFEST_PATH = (Inr None, remote) \<Longrightarrow> upgradeable tr remote None"
  unfolding upgradeable_def by (metis option.map(1) option.distinct(1))

lemma upgradeable_some:
  "tr_read tr earlier SYNC_MANIFEST_PATH = (Inr (Some d), remote) \<Longrightarrow> parseManifest d \<in> {Inr SchemaCompatibleCurrent, Inr SchemaLegacy} \<Longrightarrow>
   upgradeable tr remote (Some (rd_revision d))"
  unfolding upgradeable_def by (metis option.map(2) option.inject)

lemma assertCompatible_iff: "assertCompatibleManifest d = Inr () \<longleftrightarrow> parseManifest d = Inr SchemaCurrent"
  by (cases "parseManifest d") (simp_all add: assertCompatibleManifest_def)

lemma writeManifest_outcome:
  assumes "upgradeable tr remote revision" and "conflicts \<le> n"
    and "\<And>loop r. again = Some loop \<Longrightarrow> manifestOutcome tr n (loop r)"
  shows "manifestOutcome tr n (writeManifest tr again conflicts revision remote)"
proof -
  obtain outcome remote' where w: "tr_write tr remote SYNC_MANIFEST_PATH serializeManifest revision = (outcome, remote')" by fastforce
  show ?thesis
  proof (cases outcome)
    case (Inl e)
    then show ?thesis using w assms(3) by (cases again) (simp_all add: writeManifest_def)
  next
    case (Inr d)
    show ?thesis
    proof (cases "assertCompatibleManifest d")
      case (Inl e)
      then show ?thesis using w Inr by (simp add: writeManifest_def)
    next
      case ok: (Inr u)
      then have "parseManifest d = Inr SchemaCurrent" by (simp flip: assertCompatible_iff)
      then show ?thesis using w Inr ok assms(1,2) by (auto simp: writeManifest_def manifestOutcome_def)
    qed
  qed
qed

lemma unchanged_outcome:
  "tr_read tr earlier SYNC_MANIFEST_PATH = (Inr (Some d), remote) \<Longrightarrow> parseManifest d = Inr SchemaCurrent \<Longrightarrow> conflicts \<le> n \<Longrightarrow>
   manifestOutcome tr n (Inr (unchangedManifest conflicts), remote)"
  by (auto simp: manifestOutcome_def unchangedManifest_def)

lemma upgradeLegacy_outcome:
  assumes "conflicts \<le> n" and again: "\<And>loop r. again = Some loop \<Longrightarrow> manifestOutcome tr n (loop r)"
  shows "manifestOutcome tr n (upgradeLegacy tr prepareUpgrade again conflicts remote)"
proof (cases prepareUpgrade)
  case (Some prepare)
  obtain done1 remote1 where p: "prepare remote = (done1, remote1)" by fastforce
  obtain found remote2 where rd: "tr_read tr remote1 SYNC_MANIFEST_PATH = (found, remote2)" by fastforce
  have "manifestOutcome tr n (case parseManifest d of Inl e \<Rightarrow> (Inl e, remote2)
      | Inr SchemaCurrent \<Rightarrow> (Inr (unchangedManifest conflicts), remote2)
      | Inr _ \<Rightarrow> writeManifest tr again conflicts (Some (rd_revision d)) remote2)" if "found = Inr (Some d)" for d
  proof -
    have "upgradeable tr remote2 (Some (rd_revision d))" if "parseManifest d \<in> {Inr SchemaCompatibleCurrent, Inr SchemaLegacy}"
      using upgradeable_some [of tr remote1 d remote2] rd \<open>found = Inr (Some d)\<close> that by blast
    then have "manifestOutcome tr n (writeManifest tr again conflicts (Some (rd_revision d)) remote2)"
      if "parseManifest d \<in> {Inr SchemaCompatibleCurrent, Inr SchemaLegacy}"
      using that by (intro writeManifest_outcome assms(1) again)
    moreover have "parseManifest d = Inr SchemaCurrent \<Longrightarrow> manifestOutcome tr n (Inr (unchangedManifest conflicts), remote2)"
      using unchanged_outcome [of tr remote1 d remote2 conflicts n] rd that assms(1) by simp
    ultimately show ?thesis by (cases "parseManifest d") (simp_all split: SchemaKind.splits)
  qed
  then show ?thesis using Some p rd by (auto simp: upgradeLegacy_def split: sum.splits option.splits)
qed (simp add: upgradeLegacy_def)

lemma manifestAttempts_step:
  assumes again: "\<And>k r. retries = Suc k \<Longrightarrow> manifestOutcome tr (conflicts + retries) (manifestAttempts tr prepareUpgrade k (Suc conflicts) r)"
  shows "manifestOutcome tr (conflicts + retries) (manifestAttempts tr prepareUpgrade retries conflicts remote)"
proof -
  define loop where "loop = (case retries of 0 \<Rightarrow> None | Suc k \<Rightarrow> Some (\<lambda>remote. manifestAttempts tr prepareUpgrade k (Suc conflicts) remote))"
  have turn: "loop = Some l \<Longrightarrow> manifestOutcome tr (conflicts + retries) (l r)" for l r
    using again by (auto simp: loop_def split: nat.splits)
  obtain found remote1 where rd: "tr_read tr remote SYNC_MANIFEST_PATH = (found, remote1)" by fastforce
  note step = manifestAttempts.simps [of tr prepareUpgrade retries conflicts remote, folded loop_def, unfolded Let_def rd]
  have wr: "upgradeable tr remote1 v \<Longrightarrow> manifestOutcome tr (conflicts + retries) (writeManifest tr loop conflicts v remote1)" for v
    by (rule writeManifest_outcome) (simp_all add: turn)
  have up: "manifestOutcome tr (conflicts + retries) (upgradeLegacy tr prepareUpgrade loop conflicts remote1)"
    by (rule upgradeLegacy_outcome) (simp_all add: turn)
  show ?thesis
  proof (cases found)
    case (Inl e)
    then show ?thesis by (simp add: step)
  next
    case (Inr current)
    show ?thesis
    proof (cases current)
      case None
      then show ?thesis using Inr wr [OF upgradeable_none [of tr remote remote1]] rd by (simp add: step)
    next
      case (Some d)
      then have read: "tr_read tr remote SYNC_MANIFEST_PATH = (Inr (Some d), remote1)" using rd Inr by simp
      show ?thesis
        using Inr Some wr [OF upgradeable_some [OF read]] up unchanged_outcome [OF read]
        by (auto simp: step split: sum.splits SchemaKind.splits)
    qed
  qed
qed

lemma manifestAttempts_outcome: "manifestOutcome tr (conflicts + retries) (manifestAttempts tr prepareUpgrade retries conflicts remote)"
proof (induction retries arbitrary: conflicts remote)
  case 0
  show ?case by (rule manifestAttempts_step) simp
next
  case (Suc retries)
  show ?case
  proof (rule manifestAttempts_step)
    fix k r assume "Suc retries = Suc k"
    then show "manifestOutcome tr (conflicts + Suc retries) (manifestAttempts tr prepareUpgrade k (Suc conflicts) r)"
      using Suc.IH [of "Suc conflicts" r] by simp
  qed
qed


text \<open>The manifest that is written is one that the service accepts.\<close>

lemma written_manifest_current: "parseManifest \<lparr>rd_path = SYNC_MANIFEST_PATH, rd_content = serializeManifest, rd_revision = v\<rparr> = Inr SchemaCurrent"
proof -
  have "plainJson (libraryManifestVal createLibrarySyncManifest)"
    using numberReadable_int [of 2] by (simp add: libraryManifestVal_def stringsVal_def)
  then have "parseJson serializeManifest = Some (libraryManifestVal createLibrarySyncManifest)"
    unfolding serializeManifest_def by (rule parseJson_pretty) (simp add: isJsonSpace_def)
  moreover have "isLibrarySyncManifest (libraryManifestVal createLibrarySyncManifest)"
    "supportsReaderPreferenceSync (libraryManifestOf (libraryManifestVal createLibrarySyncManifest))" by code_simp+
  ultimately show ?thesis by (simp add: parseManifest_def)
qed

text \<open>An empty destination is initialized, also when another device is faster a few times.\<close>

lemma empty_destination_initialized:
  "k \<le> n \<Longrightarrow> synchronizeManifest conflictingTransport prepareUpgrade n k = (Inr \<lparr>sc_pushed = 1, sc_conflicts = k\<rparr>, 0)"
proof -
  have "manifestAttempts conflictingTransport prepareUpgrade (k + m) c k = (Inr \<lparr>sc_pushed = 1, sc_conflicts = c + k\<rparr>, 0)" for m c
  proof (induction k arbitrary: c)
    case 0
    then show ?case
      by (simp add: manifestAttempts.simps conflictingTransport_def writeManifest_def assertCompatibleManifest_def written_manifest_current)
  next
    case (Suc k)
    then show ?case
      by (subst manifestAttempts.simps) (simp add: conflictingTransport_def writeManifest_def)
  qed
  then show "k \<le> n \<Longrightarrow> ?thesis" unfolding synchronizeManifest_def by (metis add_0 le_Suc_ex)
qed

end
