(* ===== verification/Outbox_Journal.thy ===== *)
theory Outbox_Journal
  imports Library_Catalog Operation_Journal Logical_Change
begin

text \<open>
  The journal as the synchronization sees it: \<open>libs/sync/core/src/lib/logical-book-outbox-journal.ts\<close>. Changes of the
  catalog are committed to an outbox in the transaction that makes them; this journal shows them next to the operations
  of the journal proper and routes acknowledgements to where an operation came from.
\<close>

record OutboxJournal =
  oj_journal :: Journal
  oj_db :: LibraryDb

definition OUTBOX_OPERATION_PREFIX :: string where
  "OUTBOX_OPERATION_PREFIX = ''logical-book-outbox:''"

definition outboxOperation :: "jsval \<Rightarrow> SyncOperation" where
  "outboxOperation change =
     \<lparr>op_id = OUTBOX_OPERATION_PREFIX @ strOf (getProp change ''changeId''), op_entity = ''logical-book-change'',
      op_entityId = strOf (getProp change ''changeId''), op_operation = ''upsert'', op_revision = 1,
      op_createdAt = strOf (getProp change ''createdAt''), op_payload = change\<rparr>"

definition outbox_append :: "OutboxJournal \<Rightarrow> NewSyncOperation \<Rightarrow> string \<Rightarrow> string \<Rightarrow> SyncOperation \<times> OutboxJournal" where
  "outbox_append oj input randomUUID now =
     (let (operation, journal) = append_op (oj_journal oj) input randomUUID now;
          oj = oj\<lparr>oj_journal := journal\<rparr>
      in (operation,
          if new_entity input = ''logical-book-change'' \<and> isLogicalBookChange (new_payload input) \<and>
             getProp (new_payload input) ''changeId'' = JStr (new_entityId input)
          then oj\<lparr>oj_db := acknowledgePendingLogicalBookChanges (oj_db oj) [new_entityId input]\<rparr> else oj))"

definition outbox_pending :: "(string \<Rightarrow> string \<Rightarrow> int) \<Rightarrow> OutboxJournal \<Rightarrow> SyncOperation list \<times> OutboxJournal" where
  "outbox_pending localeCompare oj =
     (let pending = pending_ops localeCompare (oj_journal oj);
          (logicalChanges, db) = listPendingLogicalBookChanges localeCompare (oj_db oj)
      in (jsSort (\<lambda>left right. cmpOr (localeCompare (op_createdAt left) (op_createdAt right)) (localeCompare (op_id left) (op_id right)))
            (pending @ map outboxOperation logicalChanges), oj\<lparr>oj_db := db\<rparr>))"

definition fromOutbox :: "string \<Rightarrow> bool" where
  "fromOutbox operationId = (take (length OUTBOX_OPERATION_PREFIX) operationId = OUTBOX_OPERATION_PREFIX)"

definition outbox_acknowledge :: "OutboxJournal \<Rightarrow> string list \<Rightarrow> OutboxJournal" where
  "outbox_acknowledge oj operationIds =
     (let outboxChangeIds = map (drop (length OUTBOX_OPERATION_PREFIX)) (filter fromOutbox operationIds);
          delegateIds = filter (\<lambda>operationId. \<not> fromOutbox operationId) operationIds
      in oj\<lparr>oj_journal := acknowledge (oj_journal oj) delegateIds,
            oj_db := acknowledgePendingLogicalBookChanges (oj_db oj) outboxChangeIds\<rparr>)"

section \<open>What is pending\<close>

text \<open>The identifiers of the journal proper are random: none of them has the prefix of the outbox.\<close>

definition outboxOk :: "OutboxJournal \<Rightarrow> bool" where
  "outboxOk oj \<longleftrightarrow> journalOk (oj_journal oj) \<and> dbOk (oj_db oj) \<and> (\<forall>x \<in> journalOps (oj_journal oj). \<not> fromOutbox (op_id x))"

definition outboxChanges :: "LibraryDb \<Rightarrow> jsval set" where
  "outboxChanges db = {v. \<exists>k. idbGet db LOGICAL_BOOK_CHANGE_OUTBOX_STORE k = Some v \<and> isLogicalBookChange v}"

lemma fromOutbox_operation [simp]: "fromOutbox (op_id (outboxOperation v))"
  by (simp add: fromOutbox_def outboxOperation_def)

lemma set_readAllValidated:
  assumes "dbOk db"
  shows "set (fst (readAllValidated db s validator reason)) = {v. \<exists>k. idbGet db s k = Some v \<and> validator v}"
proof -
  have "set (fst (readAllValidated db s validator reason)) = {v \<in> snd ` set (db_stores db s). validator v}"
    using validated_read_partitions [OF assms, of s validator reason] by (auto simp: split_beta)
  moreover have "snd ` set (db_stores db s) = {v. \<exists>k. idbGet db s k = Some v}"
    using assms by (auto simp: dbOk_def idbGet_def storeOk_distinct dest: map_of_SomeD) (force simp: storeOk_distinct)+
  ultimately show ?thesis by auto
qed

lemma set_outbox_pending:
  "dbOk (oj_db oj) \<Longrightarrow>
   set (fst (outbox_pending lc oj)) = journalOps (oj_journal oj) \<union> outboxOperation ` outboxChanges (oj_db oj)"
  by (simp add: outbox_pending_def listPendingLogicalBookChanges_def split_beta Let_def set_readAllValidated outboxChanges_def)

lemma idbGet_delete: "idbGet (idbDelete s k db) s' k' = (if s' = s \<and> k' = k then None else idbGet db s' k')"
  by (simp add: idbGet_def idbDelete_def delete_conv)

lemma idbGet_acknowledge:
  "idbGet (acknowledgePendingLogicalBookChanges db ids) LOGICAL_BOOK_CHANGE_OUTBOX_STORE [i] =
     (if i \<in> set ids then None else idbGet db LOGICAL_BOOK_CHANGE_OUTBOX_STORE [i])"
proof -
  have "idbGet (fold (\<lambda>i. idbDelete LOGICAL_BOOK_CHANGE_OUTBOX_STORE [i]) js db) LOGICAL_BOOK_CHANGE_OUTBOX_STORE [i] =
      (if i \<in> set js then None else idbGet db LOGICAL_BOOK_CHANGE_OUTBOX_STORE [i])" for js
    by (induction js arbitrary: db) (simp_all add: idbGet_delete)
  then show ?thesis by (simp add: acknowledgePendingLogicalBookChanges_def)
qed

lemma dbOk_acknowledge: "dbOk db \<Longrightarrow> dbOk (acknowledgePendingLogicalBookChanges db ids)"
proof -
  have "dbOk db \<Longrightarrow> dbOk (fold (\<lambda>i. idbDelete LOGICAL_BOOK_CHANGE_OUTBOX_STORE [i]) js db)" for js
  proof (induction js arbitrary: db)
    case (Cons j js)
    have "dbOk (idbDelete LOGICAL_BOOK_CHANGE_OUTBOX_STORE [j] db)"
      using Cons.prems set_mapDelete_subset [of "[j]" "db_stores db LOGICAL_BOOK_CHANGE_OUTBOX_STORE"]
      by (auto simp: dbOk_def idbDelete_def storeOk_delete)
    then show ?case using Cons.IH by simp
  qed simp
  then show "dbOk db \<Longrightarrow> dbOk (acknowledgePendingLogicalBookChanges db ids)"
    by (simp add: acknowledgePendingLogicalBookChanges_def)
qed

lemma outboxChanges_key:
  assumes "dbOk db"
  shows "v \<in> outboxChanges db \<longleftrightarrow>
    idbGet db LOGICAL_BOOK_CHANGE_OUTBOX_STORE [strOf (getProp v ''changeId'')] = Some v \<and> isLogicalBookChange v"
proof -
  have "k = [strOf (getProp v ''changeId'')]" if "idbGet db LOGICAL_BOOK_CHANGE_OUTBOX_STORE k = Some v" for k
    using dbOk_key [OF assms that] by (simp add: recordKey_def keyPath_def)
  then show ?thesis by (auto simp: outboxChanges_def)
qed

lemma outboxChanges_acknowledge:
  "dbOk db \<Longrightarrow> outboxChanges (acknowledgePendingLogicalBookChanges db ids) =
     {v \<in> outboxChanges db. strOf (getProp v ''changeId'') \<notin> set ids}"
  by (auto simp: outboxChanges_key dbOk_acknowledge idbGet_acknowledge split: if_splits)

lemma drop_prefix_mem: "x \<in> set (map (drop (length OUTBOX_OPERATION_PREFIX)) (filter fromOutbox ids)) \<longleftrightarrow> OUTBOX_OPERATION_PREFIX @ x \<in> set ids"
proof -
  have "fromOutbox i \<Longrightarrow> OUTBOX_OPERATION_PREFIX @ drop (length OUTBOX_OPERATION_PREFIX) i = i" for i
    by (metis append_take_drop_id fromOutbox_def)
  then show ?thesis by (force simp: fromOutbox_def image_iff)
qed


text \<open>An empty journal and an outbox with one change.\<close>

definition exampleOutbox :: OutboxJournal where
  "exampleOutbox = \<lparr>oj_journal = emptyJournal,
     oj_db = idbWrite exampleDb LOGICAL_BOOK_CHANGE_OUTBOX_STORE (changeVal sampleChange)\<rparr>"


end
