(* ===== verification/Sync_Provider.thy ===== *)
theory Sync_Provider
  imports Sync_Worker Progress_Sync
begin

text \<open>
  The selected provider and the books that are not synchronized: \<open>sync-provider-selection.ts\<close>,
  \<open>library-sync-transport.ts\<close> and \<open>book-sync-exclusions.ts\<close> of \<open>libs/sync/core/src/lib\<close>. Both small stores keep a
  value in memory and in the storage of the browser, which may be missing, refuse a text or hold anything. Listeners are
  names; a change returns the calls that are made.
\<close>

section \<open>The selected provider\<close>

record ProviderSelection =
  sel_selected :: "SyncProviderKind option"
  sel_loaded :: bool
  sel_storage :: storage
  sel_listeners :: "string list"

type_synonym notification = "string \<times> SyncProviderKind option"

definition storedProvider :: "storage \<Rightarrow> SyncProviderKind option" where
  "storedProvider storage =
     (case storage of
        Some (Some value) \<Rightarrow> if value = ''git'' then Some Git else if value = ''mega'' then Some Mega else None
      | _ \<Rightarrow> None)"

definition selection_current :: "ProviderSelection \<Rightarrow> SyncProviderKind option \<times> ProviderSelection" where
  "selection_current s =
     (let s' = (if sel_loaded s then s else s\<lparr>sel_loaded := True, sel_selected := storedProvider (sel_storage s)\<rparr>)
      in (sel_selected s', s'))"

definition selection_notify :: "ProviderSelection \<Rightarrow> SyncProviderKind option \<Rightarrow> notification list" where
  "selection_notify s provider = map (\<lambda>listener. (listener, provider)) (sel_listeners s)"

definition selection_select ::
  "(string \<Rightarrow> bool) \<Rightarrow> SyncProviderKind \<Rightarrow> ProviderSelection \<Rightarrow> notification list \<times> ProviderSelection" where
  "selection_select accepts provider s =
     (let s' = s\<lparr>sel_loaded := True, sel_selected := Some provider,
            sel_storage := (if sel_storage s \<noteq> None \<and> accepts (providerKey provider) then Some (Some (providerKey provider)) else sel_storage s)\<rparr>
      in (selection_notify s' (Some provider), s'))"

definition selection_clear :: "ProviderSelection \<Rightarrow> notification list \<times> ProviderSelection" where
  "selection_clear s =
     (let s' = s\<lparr>sel_loaded := True, sel_selected := None, sel_storage := map_option (\<lambda>_. None) (sel_storage s)\<rparr>
      in (selection_notify s' None, s'))"

definition selection_subscribe :: "string \<Rightarrow> ProviderSelection \<Rightarrow> notification list \<times> ProviderSelection" where
  "selection_subscribe listener s =
     (let s' = s\<lparr>sel_listeners := (if listener \<in> set (sel_listeners s) then sel_listeners s else sel_listeners s @ [listener])\<rparr>;
          (provider, s'') = selection_current s'
      in ([(listener, provider)], s''))"

definition selection_unsubscribe :: "string \<Rightarrow> ProviderSelection \<Rightarrow> ProviderSelection" where
  "selection_unsubscribe listener s = s\<lparr>sel_listeners := filter (\<lambda>l. l \<noteq> listener) (sel_listeners s)\<rparr>"

text \<open>A session that starts on a storage.\<close>

definition newSelection :: "storage \<Rightarrow> ProviderSelection" where
  "newSelection storage = \<lparr>sel_selected = None, sel_loaded = False, sel_storage = storage, sel_listeners = []\<rparr>"

section \<open>The transport of the selected provider\<close>

record RemoteObject =
  ro_path :: string
  ro_revision :: string
  ro_size :: jsnum
  ro_sha256 :: string

datatype SyncEntryKind = DocumentEntry | ObjectEntry

record RemoteSyncEntry =
  re_path :: string
  re_revision :: string
  re_kind :: SyncEntryKind

record RemoteSyncEntryDeleteRequest =
  ed_path :: string
  ed_expectedRevision :: string

record ObjectUploadRequest =
  up_path :: string
  up_content :: string
  up_size :: jsnum
  up_sha256 :: string
  up_mediaType :: string

type_synonym ('r, 'a) remoteCall = "'r \<Rightarrow> (ProgressError + 'a) \<times> 'r"

text \<open>The methods the interface marks as optional may be missing.\<close>

record 'r LibraryTransport = "'r Transport" +
  tr_destinationRevision :: "('r, string option) remoteCall option"
  tr_listEntries :: "(string \<Rightarrow> ('r, RemoteSyncEntry list) remoteCall) option"
  tr_deleteEntries :: "(RemoteSyncEntryDeleteRequest list \<Rightarrow> ('r, unit) remoteCall) option"
  tr_deleteEntry :: "(RemoteSyncEntryDeleteRequest \<Rightarrow> ('r, unit) remoteCall) option"
  tr_deleteDocument :: "(string \<Rightarrow> string option \<Rightarrow> ('r, unit) remoteCall) option"
  tr_headObject :: "string \<Rightarrow> ('r, RemoteObject option) remoteCall"
  tr_downloadObject :: "string \<Rightarrow> ('r, string) remoteCall"
  tr_uploadObject :: "ObjectUploadRequest \<Rightarrow> ('r, RemoteObject) remoteCall"
  tr_deleteObject :: "(string \<Rightarrow> string option \<Rightarrow> ('r, unit) remoteCall) option"

datatype ProviderError = SyncProviderNotSelected | CannotInventory | CannotDeleteEntries | CannotDeleteDocuments | CannotDeletePublications
  | ProviderFailure ProgressError

record 'r SelectedTransport =
  st_selection :: ProviderSelection
  st_remote :: 'r

type_synonym 'r providers = "SyncProviderKind \<Rightarrow> 'r LibraryTransport"

type_synonym ('r, 'a) selectedCall = "'r SelectedTransport \<Rightarrow> (ProviderError + 'a) \<times> 'r SelectedTransport"

definition activeTransport :: "'r providers \<Rightarrow> ('r, 'r LibraryTransport) selectedCall" where
  "activeTransport providers st =
     (let (provider, selection) = selection_current (st_selection st); st' = st\<lparr>st_selection := selection\<rparr> in
      case provider of None \<Rightarrow> (Inl SyncProviderNotSelected, st') | Some p \<Rightarrow> (Inr (providers p), st'))"

definition onRemote :: "('r, 'a) remoteCall \<Rightarrow> ('r, 'a) selectedCall" where
  "onRemote m st = (case m (st_remote st) of
     (Inl e, remote) \<Rightarrow> (Inl (ProviderFailure e), st\<lparr>st_remote := remote\<rparr>) | (Inr a, remote) \<Rightarrow> (Inr a, st\<lparr>st_remote := remote\<rparr>))"

text \<open>A method of the selected provider, which \<open>method\<close> takes from it, or the error for a missing one.\<close>

definition delegated :: "'r providers \<Rightarrow> ('r LibraryTransport \<Rightarrow> ProviderError + ('r, 'a) remoteCall) \<Rightarrow> ('r, 'a) selectedCall" where
  "delegated providers m st =
     (case activeTransport providers st of
        (Inl e, st') \<Rightarrow> (Inl e, st')
      | (Inr active, st') \<Rightarrow> (case m active of Inl e \<Rightarrow> (Inl e, st') | Inr run \<Rightarrow> onRemote run st'))"

definition orMissing :: "ProviderError \<Rightarrow> 'a option \<Rightarrow> ProviderError + 'a" where
  "orMissing e m = (case m of None \<Rightarrow> Inl e | Some a \<Rightarrow> Inr a)"

definition selected_destinationRevision :: "'r providers \<Rightarrow> ('r, string option) selectedCall" where
  "selected_destinationRevision providers =
     delegated providers (\<lambda>active. Inr (case tr_destinationRevision active of None \<Rightarrow> (\<lambda>r. (Inr None, r)) | Some run \<Rightarrow> run))"

definition selected_list :: "'r providers \<Rightarrow> string \<Rightarrow> ('r, RemoteDocument list) selectedCall" where
  "selected_list providers prefix = delegated providers (\<lambda>active. Inr (\<lambda>r. tr_list active r prefix))"

definition selected_listEntries :: "'r providers \<Rightarrow> string \<Rightarrow> ('r, RemoteSyncEntry list) selectedCall" where
  "selected_listEntries providers prefix =
     delegated providers (\<lambda>active. andThen (orMissing CannotInventory (tr_listEntries active)) (\<lambda>run. Inr (run prefix)))"

fun deleteEach :: "(RemoteSyncEntryDeleteRequest \<Rightarrow> ('r, unit) remoteCall) \<Rightarrow> RemoteSyncEntryDeleteRequest list \<Rightarrow> ('r, unit) remoteCall" where
  "deleteEach run [] r = (Inr (), r)"
| "deleteEach run (request # requests) r =
     (case run request r of (Inl e, r') \<Rightarrow> (Inl e, r') | (Inr _, r') \<Rightarrow> deleteEach run requests r')"

definition selected_deleteEntries :: "'r providers \<Rightarrow> RemoteSyncEntryDeleteRequest list \<Rightarrow> ('r, unit) selectedCall" where
  "selected_deleteEntries providers requests =
     delegated providers (\<lambda>active. case tr_deleteEntries active of
         Some run \<Rightarrow> Inr (run requests)
       | None \<Rightarrow> andThen (orMissing CannotDeleteEntries (tr_deleteEntry active)) (\<lambda>run. Inr (deleteEach run requests)))"

definition selected_deleteEntry :: "'r providers \<Rightarrow> RemoteSyncEntryDeleteRequest \<Rightarrow> ('r, unit) selectedCall" where
  "selected_deleteEntry providers request =
     delegated providers (\<lambda>active. andThen (orMissing CannotDeleteEntries (tr_deleteEntry active)) (\<lambda>run. Inr (run request)))"

definition selected_read :: "'r providers \<Rightarrow> string \<Rightarrow> ('r, RemoteDocument option) selectedCall" where
  "selected_read providers path = delegated providers (\<lambda>active. Inr (\<lambda>r. tr_read active r path))"

definition selected_write :: "'r providers \<Rightarrow> string \<Rightarrow> string \<Rightarrow> string option \<Rightarrow> ('r, RemoteDocument) selectedCall" where
  "selected_write providers path content expectedRevision =
     delegated providers (\<lambda>active. Inr (\<lambda>r. tr_write active r path content expectedRevision))"

definition selected_deleteDocument :: "'r providers \<Rightarrow> string \<Rightarrow> string option \<Rightarrow> ('r, unit) selectedCall" where
  "selected_deleteDocument providers path expectedRevision =
     delegated providers (\<lambda>active. andThen (orMissing CannotDeleteDocuments (tr_deleteDocument active)) (\<lambda>run. Inr (run path expectedRevision)))"

definition selected_headObject :: "'r providers \<Rightarrow> string \<Rightarrow> ('r, RemoteObject option) selectedCall" where
  "selected_headObject providers path = delegated providers (\<lambda>active. Inr (tr_headObject active path))"

definition selected_downloadObject :: "'r providers \<Rightarrow> string \<Rightarrow> ('r, string) selectedCall" where
  "selected_downloadObject providers path = delegated providers (\<lambda>active. Inr (tr_downloadObject active path))"

definition selected_uploadObject :: "'r providers \<Rightarrow> ObjectUploadRequest \<Rightarrow> ('r, RemoteObject) selectedCall" where
  "selected_uploadObject providers request = delegated providers (\<lambda>active. Inr (tr_uploadObject active request))"

definition selected_deleteObject :: "'r providers \<Rightarrow> string \<Rightarrow> string option \<Rightarrow> ('r, unit) selectedCall" where
  "selected_deleteObject providers path expectedRevision =
     delegated providers (\<lambda>active. andThen (orMissing CannotDeletePublications (tr_deleteObject active)) (\<lambda>run. Inr (run path expectedRevision)))"

section \<open>Books that are not synchronized\<close>

definition MAX_EXCLUDED_BOOKS :: nat where "MAX_EXCLUDED_BOOKS = 10000"

record BookSyncExclusions =
  ex_memory :: "string list"
  ex_loaded :: bool
  ex_storage :: storage

definition isStoredBookSyncExclusions :: "jsval \<Rightarrow> bool" where
  "isStoredBookSyncExclusions value =
     (case value of
        JObj _ \<Rightarrow> ''schemaVersion'' \<in> set (objectKeys value) \<and> ''bookIds'' \<in> set (objectKeys value) \<and>
          getProp value ''schemaVersion'' = JInt 1 \<and>
          (case getProp value ''bookIds'' of
             JArr bookIds \<Rightarrow> length bookIds \<le> MAX_EXCLUDED_BOOKS \<and>
               (\<forall>bookId \<in> set bookIds. isStr bookId \<and> matchesSha256 ''sha256:'' (strOf bookId))
           | _ \<Rightarrow> False)
      | _ \<Rightarrow> False)"

definition storedExclusions :: "storage \<Rightarrow> string list" where
  "storedExclusions storage =
     (case storage of
        Some (Some value) \<Rightarrow>
          if value = [] then []
          else (case parseJson value of
                  None \<Rightarrow> []
                | Some parsed \<Rightarrow> if isStoredBookSyncExclusions parsed then map strOf (arrOf (getProp parsed ''bookIds'')) else [])
      | _ \<Rightarrow> [])"

text \<open>\<open>load\<close>: adds the stored identifiers to the set in memory, once.\<close>

definition loadExclusions :: "BookSyncExclusions \<Rightarrow> BookSyncExclusions" where
  "loadExclusions s =
     (if ex_loaded s then s
      else s\<lparr>ex_loaded := True, ex_memory := jsUnique (ex_memory s @ storedExclusions (ex_storage s))\<rparr>)"

definition exclusionsText :: "string list \<Rightarrow> string" where
  "exclusionsText exclusions =
     stringify (JObj [(''schemaVersion'', JInt 1), (''bookIds'', JArr (map JStr (jsSort codeUnitCompare exclusions)))])"

definition persistExclusions :: "(string \<Rightarrow> bool) \<Rightarrow> string list \<Rightarrow> BookSyncExclusions \<Rightarrow> BookSyncExclusions" where
  "persistExclusions accepts exclusions s =
     s\<lparr>ex_memory := exclusions,
       ex_storage := (if ex_storage s \<noteq> None \<and> accepts (exclusionsText exclusions) then Some (Some (exclusionsText exclusions)) else ex_storage s)\<rparr>"

definition isExcluded :: "string \<Rightarrow> BookSyncExclusions \<Rightarrow> bool \<times> BookSyncExclusions" where
  "isExcluded bookId s = (let s' = loadExclusions s in (bookId \<in> set (ex_memory s'), s'))"

datatype ExclusionError = NotABookId

definition exclude_book :: "(string \<Rightarrow> bool) \<Rightarrow> string \<Rightarrow> BookSyncExclusions \<Rightarrow> (ExclusionError + unit) \<times> BookSyncExclusions" where
  "exclude_book accepts bookId s =
     (if \<not> matchesSha256 ''sha256:'' bookId then (Inl NotABookId, s)
      else let s' = loadExclusions s in
        (Inr (), persistExclusions accepts (if bookId \<in> set (ex_memory s') then ex_memory s' else ex_memory s' @ [bookId]) s'))"

definition include_book :: "(string \<Rightarrow> bool) \<Rightarrow> string \<Rightarrow> BookSyncExclusions \<Rightarrow> (ExclusionError + unit) \<times> BookSyncExclusions" where
  "include_book accepts bookId s =
     (if \<not> matchesSha256 ''sha256:'' bookId then (Inl NotABookId, s)
      else let s' = loadExclusions s in
        (Inr (), persistExclusions accepts (filter (\<lambda>i. i \<noteq> bookId) (ex_memory s')) s'))"

definition newExclusions :: "storage \<Rightarrow> BookSyncExclusions" where
  "newExclusions storage = \<lparr>ex_memory = [], ex_loaded = False, ex_storage = storage\<rparr>"

section \<open>The selection outlives the session\<close>

inductive selectionStep :: "(string \<Rightarrow> bool) \<Rightarrow> ProviderSelection \<Rightarrow> ProviderSelection \<Rightarrow> bool" for accepts where
  sel_current: "selectionStep accepts s (snd (selection_current s))"
| sel_select: "selectionStep accepts s (snd (selection_select accepts p s))"
| sel_clear: "selectionStep accepts s (snd (selection_clear s))"
| sel_subscribe: "selectionStep accepts s (snd (selection_subscribe l s))"
| sel_unsubscribe: "selectionStep accepts s (selection_unsubscribe l s)"

lemma storedProvider_key [simp]: "storedProvider (Some (Some (providerKey p))) = Some p"
  by (cases p) (simp_all add: storedProvider_def providerKey_def)

text \<open>With a storage that takes what is written, the session and the storage agree, whatever is done.\<close>

lemma selection_agrees:
  assumes "(selectionStep accepts)\<^sup>*\<^sup>* (newSelection (Some stored)) s" and "\<And>t. accepts t"
  shows "sel_storage s \<noteq> None \<and> (sel_loaded s \<longrightarrow> sel_selected s = storedProvider (sel_storage s))"
  using assms(1)
proof (induction rule: rtranclp_induct)
  case (step s s')
  from step.hyps(2) step.IH assms(2) show ?case
    by cases (auto simp: selection_current_def selection_select_def selection_clear_def selection_subscribe_def
        selection_unsubscribe_def storedProvider_def [of "Some None"] Let_def)
qed (simp add: newSelection_def)

lemma selection_restart:
  assumes "(selectionStep accepts)\<^sup>*\<^sup>* (newSelection (Some stored)) s" and "\<And>t. accepts t"
  shows "fst (selection_current (newSelection (sel_storage s))) = fst (selection_current s)"
  using selection_agrees [OF assms] by (simp add: selection_current_def newSelection_def)

text \<open>Without a selected provider nothing reaches a remote.\<close>

lemma delegated_not_selected:
  "fst (selection_current (st_selection st)) = None \<Longrightarrow>
   \<exists>st'. delegated providers m st = (Inl SyncProviderNotSelected, st') \<and> st_remote st' = st_remote st"
  by (auto simp: delegated_def activeTransport_def Let_def split: prod.splits option.splits)

section \<open>The exclusions outlive the session\<close>

definition validIds :: "string list \<Rightarrow> bool" where
  "validIds ids \<longleftrightarrow> distinct ids \<and> (\<forall>i \<in> set ids. matchesSha256 ''sha256:'' i)"

lemma storedExclusions_text:
  assumes "validIds ids"
  shows "storedExclusions (Some (Some (exclusionsText ids))) = (if length ids \<le> MAX_EXCLUDED_BOOKS then jsSort codeUnitCompare ids else [])"
proof -
  let ?v = "JObj [(''schemaVersion'', JInt 1), (''bookIds'', JArr (map JStr (jsSort codeUnitCompare ids)))]"
  have "plainJson ?v" using numberReadable_int [of 1] by (auto simp: list_all_iff)
  then have "parseJson (exclusionsText ids) = Some ?v" unfolding exclusionsText_def by (rule parseJson_stringify)
  moreover have "exclusionsText ids \<noteq> []" by (simp add: exclusionsText_def)
  moreover have "isStoredBookSyncExclusions ?v \<longleftrightarrow> length ids \<le> MAX_EXCLUDED_BOOKS"
    using assms by (auto simp: isStoredBookSyncExclusions_def validIds_def)
  ultimately show ?thesis by (simp add: storedExclusions_def comp_def)
qed

lemma isStored_ids: "isStoredBookSyncExclusions v \<Longrightarrow> b \<in> set (arrOf (getProp v ''bookIds'')) \<Longrightarrow> matchesSha256 ''sha256:'' (strOf b)"
  by (cases v; cases "getProp v ''bookIds''") (simp_all add: isStoredBookSyncExclusions_def)

lemma storedExclusions_valid: "i \<in> set (storedExclusions storage) \<Longrightarrow> matchesSha256 ''sha256:'' i"
  by (auto simp: storedExclusions_def isStored_ids split: option.splits if_splits)

inductive exclusionStep :: "BookSyncExclusions \<Rightarrow> BookSyncExclusions \<Rightarrow> bool" where
  ex_query: "exclusionStep s (snd (isExcluded i s))"
| ex_exclude: "exclusionStep s (snd (exclude_book (\<lambda>_. True) i s))"
| ex_include: "exclusionStep s (snd (include_book (\<lambda>_. True) i s))"

definition exclusionsOk :: "BookSyncExclusions \<Rightarrow> bool" where
  "exclusionsOk s \<longleftrightarrow> ex_storage s \<noteq> None \<and>
     (if ex_loaded s then validIds (ex_memory s) \<and>
        (ex_storage s = Some (Some (exclusionsText (ex_memory s))) \<or> set (storedExclusions (ex_storage s)) = set (ex_memory s))
      else ex_memory s = [])"

lemma exclusionsOk_load: "exclusionsOk s \<Longrightarrow> exclusionsOk (loadExclusions s) \<and> ex_loaded (loadExclusions s) \<and> ex_storage (loadExclusions s) = ex_storage s"
  by (auto simp: exclusionsOk_def loadExclusions_def validIds_def distinct_jsUnique storedExclusions_valid)

lemma exclusionsOk_persist:
  "exclusionsOk s \<Longrightarrow> ex_loaded s \<Longrightarrow> validIds ids \<Longrightarrow> exclusionsOk (persistExclusions (\<lambda>_. True) ids s)"
  by (simp add: exclusionsOk_def persistExclusions_def)

lemma exclusionsOk_step: "exclusionStep s s' \<Longrightarrow> exclusionsOk s \<Longrightarrow> exclusionsOk s'"
proof (induction rule: exclusionStep.induct)
  case (ex_query s i)
  then show ?case by (simp add: isExcluded_def Let_def exclusionsOk_load)
next
  case (ex_exclude s i)
  then have "validIds (ex_memory (loadExclusions s))" using exclusionsOk_load by (auto simp: exclusionsOk_def)
  then show ?case
    using exclusionsOk_load [OF ex_exclude] ex_exclude
    by (auto simp: exclude_book_def Let_def validIds_def intro!: exclusionsOk_persist)
next
  case (ex_include s i)
  then have "validIds (ex_memory (loadExclusions s))" using exclusionsOk_load by (auto simp: exclusionsOk_def)
  then show ?case
    using exclusionsOk_load [OF ex_include] ex_include
    by (auto simp: include_book_def Let_def validIds_def intro!: exclusionsOk_persist)
qed

lemma exclusionsOk_session: "exclusionStep\<^sup>*\<^sup>* (newExclusions (Some stored)) s \<Longrightarrow> exclusionsOk s"
proof (induction rule: rtranclp_induct)
  case base
  then show ?case by (simp add: newExclusions_def exclusionsOk_def)
qed (rule exclusionsOk_step)

text \<open>Up to the limit of the stored document, the books that are excluded are those that the session excluded.\<close>

theorem exclusions_survive_restart:
  assumes "exclusionStep\<^sup>*\<^sup>* (newExclusions (Some stored)) s" and "length (ex_memory s) \<le> MAX_EXCLUDED_BOOKS"
  shows "fst (isExcluded i (newExclusions (ex_storage s))) = fst (isExcluded i s)"
proof (cases "ex_loaded s")
  case True
  then have "set (storedExclusions (ex_storage s)) = set (ex_memory s)"
    using exclusionsOk_session [OF assms(1)] assms(2) by (auto simp: exclusionsOk_def storedExclusions_text)
  then show ?thesis using True by (simp add: isExcluded_def loadExclusions_def newExclusions_def)
next
  case False
  then show ?thesis
    using exclusionsOk_session [OF assms(1)] by (simp add: isExcluded_def loadExclusions_def newExclusions_def exclusionsOk_def)
qed

text \<open>Beyond the limit the document is written and not accepted any more: excluding one book more than the limit
  makes the next session forget all exclusions.\<close>

theorem exclusion_limit_forgets:
  assumes "validIds ids" and "length ids = MAX_EXCLUDED_BOOKS" and "matchesSha256 ''sha256:'' i" and "i \<notin> set ids"
  shows "let s = snd (exclude_book (\<lambda>_. True) i \<lparr>ex_memory = ids, ex_loaded = True, ex_storage = Some (Some (exclusionsText ids))\<rparr>)
    in fst (isExcluded i s) \<and> \<not> fst (isExcluded i (newExclusions (ex_storage s))) \<and>
       (\<forall>j. \<not> fst (isExcluded j (newExclusions (ex_storage s))))"
proof -
  have "validIds (ids @ [i])" using assms by (auto simp: validIds_def)
  from storedExclusions_text [OF this] assms show ?thesis
    by (simp add: exclude_book_def loadExclusions_def persistExclusions_def isExcluded_def newExclusions_def)
qed

end
