(* ===== verification/Sync_Catalog.thy ===== *)
theory Sync_Catalog
  imports Sync_Provider
begin

text \<open>
  The readable catalog of the synchronized library: \<open>libs/sync/core/src/lib/book-sync-catalog.ts\<close>, a Markdown page that
  is computed from the manifests of the remote library. The waiting between two attempts is left out.
\<close>

section \<open>Documents of publications\<close>

definition manifestOf :: "jsval \<Rightarrow> BookSyncManifest" where
  "manifestOf v =
     \<lparr>bsm_bookId = strOf (getProp v ''bookId''), bsm_format = formatOf (getProp v ''format''),
      bsm_fileName = strOf (getProp v ''fileName''), bsm_mediaType = strOf (getProp v ''mediaType''),
      bsm_size = numOf (getProp v ''size''), bsm_sha256 = strOf (getProp v ''sha256''),
      bsm_objectPath = strOf (getProp v ''objectPath''), bsm_title = strOf (getProp v ''title''),
      bsm_authors = map strOf (arrOf (getProp v ''authors'')), bsm_language = optOf strOf (getProp v ''language''),
      bsm_publisher = optOf strOf (getProp v ''publisher''), bsm_identifier = optOf strOf (getProp v ''identifier''),
      bsm_importedAt = strOf (getProp v ''importedAt''), bsm_updatedAt = strOf (getProp v ''updatedAt''),
      bsm_appVersion = strOf (getProp v ''appVersion'')\<rparr>"

definition manifestPathOf :: "(string \<Rightarrow> string) \<Rightarrow> BookSyncManifest \<Rightarrow> ManifestError + string" where
  "manifestPathOf nfkc m = bookManifestPath nfkc (bsm_bookId m) (bsm_format m) (bsm_fileName m)"

definition parseCatalogManifest :: "(string \<Rightarrow> string) \<Rightarrow> string \<Rightarrow> BookSyncManifest option" where
  "parseCatalogManifest nfkc content =
     (case parseJson content of
        None \<Rightarrow> None | Some v \<Rightarrow> if isBookSyncManifest nfkc v then Some (manifestOf v) else None)"

section \<open>The page\<close>

definition markdownText :: "string \<Rightarrow> string" where
  "markdownText v =
     (let escape = (\<lambda>c. concat \<circ> map (\<lambda>d. if d = c then [CHR 0x5C, c] else [d]))
      in replaceRuns isWhite (CHR '' '') (escape (CHR ''|'') (escape (CHR 0x5C) v)))"

fun splitOn :: "char \<Rightarrow> string \<Rightarrow> string list" where
  "splitOn d [] = [[]]"
| "splitOn d (c # cs) = (if c = d then [] # splitOn d cs
     else case splitOn d cs of segment # rest \<Rightarrow> (c # segment) # rest | [] \<Rightarrow> [[c]])"

definition markdownPath :: "string \<Rightarrow> string" where
  "markdownPath path =
     (let relative = (if startsWith path (SYNC_ROOT @ ''/'') then drop (length SYNC_ROOT + 1) path else path)
      in joinWith ''/'' (map encodeURIComponent (splitOn (CHR ''/'') relative)))"

text \<open>\<open>toFixed(1)\<close> of a number that is not negative: the nearest tenth, and the larger one of two.\<close>

definition toFixedOne :: "rat \<Rightarrow> string" where
  "toFixedOne x = (let tenths = \<lfloor>x * 10 + 1 / 2\<rfloor> in showInt (tenths div 10) @ ''.'' @ showInt (tenths mod 10))"

definition formatBytes :: "jsnum \<Rightarrow> string" where
  "formatBytes bytes =
     (case bytes of
        Fin n \<Rightarrow>
          if n < 1024 then numToString bytes @ '' B''
          else if n < 1024 * 1024 then toFixedOne (n / 1024) @ '' KB''
          else toFixedOne (n / (1024 * 1024)) @ '' MB''
      | _ \<Rightarrow> numToString bytes @ '' MB'')"

definition compareCatalogBooks :: "(string \<Rightarrow> string \<Rightarrow> int) \<Rightarrow> BookSyncManifest \<Rightarrow> BookSyncManifest \<Rightarrow> int" where
  "compareCatalogBooks localeCompare left right =
     cmpOr (localeCompare (bsm_title left) (bsm_title right))
       (cmpOr (localeCompare (bsm_fileName left) (bsm_fileName right)) (localeCompare (bsm_bookId left) (bsm_bookId right)))"

definition catalogRow :: "BookSyncManifest \<Rightarrow> string" where
  "catalogRow book =
     (let authors = (if bsm_authors book \<noteq> [] then joinWith '', '' (map markdownText (bsm_authors book)) else ''Unknown'')
      in ''| ['' @ markdownText (bsm_title book) @ '']('' @ markdownPath (bsm_objectPath book) @ '') | '' @ authors @ '' | '' @
         (if bsm_format book = Epub then ''EPUB'' else ''PDF'') @ '' | '' @ formatBytes (bsm_size book) @ '' |'')"

definition serializeBookSyncCatalog :: "(string \<Rightarrow> string \<Rightarrow> int) \<Rightarrow> BookSyncManifest list \<Rightarrow> string" where
  "serializeBookSyncCatalog localeCompare manifests =
     (let books = jsSort (compareCatalogBooks localeCompare) manifests;
          header = [''# Omnia Reader library'', [],
            ''This catalog is maintained automatically by Omnia Reader. Publication files remain identified and verified by their SHA-256 digest.'', []];
          body = (if books = [] then [''_No books are currently available in this synchronized library._'']
            else [''| Book | Authors | Format | Size |'', ''| --- | --- | --- | ---: |''] @ map catalogRow books)
      in joinWith [CHR 0x0A] (header @ body @ [[]]))"

section \<open>The manifests of the remote library\<close>

text \<open>Accepted manifests all have schema version 2, so that \<open>manifest.schemaVersion > existing.schemaVersion\<close> is false.\<close>

definition addActiveManifest :: "(string \<Rightarrow> string) \<Rightarrow> (string, BookSyncManifest) jsMap \<Rightarrow> RemoteDocument \<Rightarrow> (string, BookSyncManifest) jsMap" where
  "addActiveManifest nfkc byBookId document =
     (if \<not> endsWith (rd_path document) ''/book.json'' then byBookId
      else case parseCatalogManifest nfkc (rd_content document) of
             None \<Rightarrow> byBookId
           | Some manifest \<Rightarrow>
               if manifestPathOf nfkc manifest \<noteq> Inr (rd_path document) then byBookId
               else (case map_of byBookId (bsm_bookId manifest) of
                       None \<Rightarrow> mapSet (bsm_bookId manifest) manifest byBookId
                     | Some existing \<Rightarrow>
                         if codeUnitCompare (bsm_updatedAt manifest) (bsm_updatedAt existing) > 0
                         then mapSet (bsm_bookId manifest) manifest byBookId else byBookId))"

definition activeRemoteManifests :: "(string \<Rightarrow> string) \<Rightarrow> RemoteDocument list \<Rightarrow> BookSyncManifest list" where
  "activeRemoteManifests nfkc remoteDocuments = mapValues (foldl (addActiveManifest nfkc) [] remoteDocuments)"

definition BOOK_CATALOG_PATH :: string where "BOOK_CATALOG_PATH = SYNC_ROOT @ ''/README.md''"

fun catalogAttempts :: "'r LibraryTransport \<Rightarrow> string \<Rightarrow> nat \<Rightarrow> ('r, unit) remoteCall" where
  "catalogAttempts transport content retries remote =
     (case tr_read transport remote BOOK_CATALOG_PATH of
        (Inl e, remote1) \<Rightarrow> (Inl e, remote1)
      | (Inr current, remote1) \<Rightarrow>
          if map_option rd_content current = Some content then (Inr (), remote1)
          else (case tr_write transport remote1 BOOK_CATALOG_PATH content (map_option rd_revision current) of
                  (Inr _, remote2) \<Rightarrow> (Inr (), remote2)
                | (Inl e, remote2) \<Rightarrow>
                    (case retries of
                       0 \<Rightarrow> (Inl e, remote2)
                     | Suc retries' \<Rightarrow>
                         if e \<noteq> SyncConflictError then (Inl e, remote2) else catalogAttempts transport content retries' remote2)))"

declare catalogAttempts.simps [simp del]

definition updateBookSyncCatalog ::
  "(string \<Rightarrow> string) \<Rightarrow> (string \<Rightarrow> string \<Rightarrow> int) \<Rightarrow> 'r LibraryTransport \<Rightarrow> nat \<Rightarrow> RemoteDocument list option \<Rightarrow> ('r, unit) remoteCall" where
  "updateBookSyncCatalog nfkc localeCompare transport maxConflictRetries remoteDocuments remote =
     (case (case remoteDocuments of Some ds \<Rightarrow> (Inr ds, remote) | None \<Rightarrow> tr_list transport remote BOOKS_ROOT) of
        (Inl e, remote1) \<Rightarrow> (Inl e, remote1)
      | (Inr documents, remote1) \<Rightarrow>
          catalogAttempts transport (serializeBookSyncCatalog localeCompare (activeRemoteManifests nfkc documents)) maxConflictRetries remote1)"

section \<open>The page is determined by the library\<close>

lemma compareCatalogBooks_comparator: "collation lc \<Longrightarrow> comparator (compareCatalogBooks lc)"
  unfolding compareCatalogBooks_def by (intro cmp_intros collation.lc_key)

text \<open>Two devices that see the same manifests write the same page, in whatever order the remote lists them.\<close>

lemma catalog_page_stable:
  assumes "strict_collation lc" and "mset ms = mset ms'" and "inj_on bsm_bookId (set ms)"
  shows "serializeBookSyncCatalog lc ms = serializeBookSyncCatalog lc ms'"
proof -
  have "jsSort (compareCatalogBooks lc) ms = jsSort (compareCatalogBooks lc) ms'"
  proof (rule comparator.jsSort_perm [OF compareCatalogBooks_comparator assms(2)])
    show "collation lc" using assms(1) by (rule strict_collation_collation)
    fix x y assume "x \<in> set ms" "y \<in> set ms" "compareCatalogBooks lc x y = 0"
    then show "x = y"
      using assms(3) by (simp add: compareCatalogBooks_def cmpOr_zero_iff strict_collation_eq_iff [OF assms(1)] inj_on_def)
  qed
  then show ?thesis by (simp add: serializeBookSyncCatalog_def)
qed

lemma active_manifests_by_id: "keyed bsm_bookId (foldl (addActiveManifest nfkc) [] ds)"
proof -
  have "keyed bsm_bookId m \<Longrightarrow> keyed bsm_bookId (foldl (addActiveManifest nfkc) m ds)" for m
  proof (induction ds arbitrary: m)
    case (Cons d ds)
    then have "keyed bsm_bookId (addActiveManifest nfkc m d)" by (simp add: addActiveManifest_def keyed_mapSet split: option.splits)
    then show ?case using Cons.IH by simp
  qed simp
  moreover have "keyed bsm_bookId []" by (simp add: keyed_def)
  ultimately show ?thesis by blast
qed

end
