(* ===== verification/Book_Sync.thy ===== *)
theory Book_Sync
  imports Sync_Catalog Library_Import Operation_Journal
begin

text \<open>
  The synchronization of publications: \<open>BookSyncService\<close> of \<open>libs/sync/core/src/lib/book-sync-service.ts\<close>. A publication is
  a manifest and an object with its bytes; a deletion is a tombstone at a path of its own. The service runs on the remote
  transport, the local library, the journal and the exclusions; the digest of a blob, the clock, the abort signal and the
  environment of the library are parameters. Waiting between two attempts is left out, and \<open>synchronize\<close>, which shares a running
  synchronization between its callers, is \<open>runBookSynchronization\<close> here.

  Calls that fail are values: \<open>bindB\<close> sequences calls, \<open>catchConflict\<close> is the \<open>try\<close> block that retries after a conflict, and
  \<open>retrying\<close> the loop around it, with one turn more than the configured number of retries.
\<close>

section \<open>Calls\<close>

text \<open>The errors of the services for publications, for their remote copies and for logical books.\<close>

datatype BookSyncError =
    BookAborted | BookRemote ProgressError | BookLibrary ImportError | BookStorage StorageError | BookPath ManifestError
  | CannotDeleteRemoteDocuments | InvalidExclusion | BackupProtocolError | CannotDeleteRemotePublications | InvalidLogicalDocument
  | ConflictingChanges | DescriptorIntegrity | CannotInventoryState | CannotRetireLegacy | RecordUnavailable | SourceUnavailable
  | StateVerificationFailed | ReplaceFailed ReplaceError

record 'r BookState =
  bk_remote :: 'r
  bk_db :: LibraryDb
  bk_journal :: Journal
  bk_exclusions :: BookSyncExclusions
  bk_mutated :: bool

text \<open>\<open>bk_mutated\<close> is a local variable that keeps its value when a turn of a loop fails, \<open>mutated\<close> of \<open>pushDeletion\<close> for one.\<close>

type_synonym ('r, 'a) bookCall = "'r BookState \<Rightarrow> (BookSyncError + 'a) \<times> 'r BookState"

record 'r BookEnv =
  env_transport :: "'r LibraryTransport"
  env_localeCompare :: "string \<Rightarrow> string \<Rightarrow> int"
  env_nfkc :: "string \<Rightarrow> string"
  env_sha256 :: "string \<Rightarrow> string"
  env_fingerprinter :: "string \<Rightarrow> string"
  env_fs :: FileSystem
  env_accepts :: "string \<Rightarrow> bool"
  env_now :: string
  env_aborted :: "'r BookState \<Rightarrow> bool"
  env_maxConflictRetries :: nat

definition returnB :: "'a \<Rightarrow> ('r, 'a) bookCall" where "returnB a st = (Inr a, st)"

definition failB :: "BookSyncError \<Rightarrow> ('r, 'a) bookCall" where "failB e st = (Inl e, st)"

definition bindB :: "('r, 'a) bookCall \<Rightarrow> ('a \<Rightarrow> ('r, 'b) bookCall) \<Rightarrow> ('r, 'b) bookCall" where
  "bindB m f st = (case m st of (Inl e, st') \<Rightarrow> (Inl e, st') | (Inr a, st') \<Rightarrow> f a st')"

definition thenB :: "('r, 'a) bookCall \<Rightarrow> ('r, 'b) bookCall \<Rightarrow> ('r, 'b) bookCall" where
  "thenB m n = bindB m (\<lambda>_. n)"

definition liftRemote :: "('r, 'a) remoteCall \<Rightarrow> ('r, 'a) bookCall" where
  "liftRemote m st = (case m (bk_remote st) of
     (Inl e, remote) \<Rightarrow> (Inl (BookRemote e), st\<lparr>bk_remote := remote\<rparr>) | (Inr a, remote) \<Rightarrow> (Inr a, st\<lparr>bk_remote := remote\<rparr>))"

definition liftPath :: "ManifestError + 'a \<Rightarrow> ('r, 'a) bookCall" where
  "liftPath r = (case r of Inl e \<Rightarrow> failB (BookPath e) | Inr a \<Rightarrow> returnB a)"

definition checkAbort :: "'r BookEnv \<Rightarrow> ('r, unit) bookCall" where
  "checkAbort env st = (if env_aborted env st then Inl BookAborted else Inr (), st)"

text \<open>\<open>Promise.all\<close>: every call runs, the first failure is reported.\<close>

fun allB :: "('r, 'a) bookCall list \<Rightarrow> ('r, 'a list) bookCall" where
  "allB [] st = (Inr [], st)"
| "allB (m # ms) st =
     (let (r, st1) = m st; (rs, st2) = allB ms st1
      in (case r of Inl e \<Rightarrow> Inl e | Inr a \<Rightarrow> (case rs of Inl e \<Rightarrow> Inl e | Inr as \<Rightarrow> Inr (a # as)), st2))"

definition catchConflict :: "('r, 'a) bookCall option \<Rightarrow> ('r, 'a) bookCall \<Rightarrow> ('r, 'a) bookCall" where
  "catchConflict again m st =
     (case m st of
        (Inl e, st') \<Rightarrow>
          (case again of None \<Rightarrow> (Inl e, st') | Some loop \<Rightarrow> if e \<noteq> BookRemote SyncConflictError then (Inl e, st') else loop st')
      | (Inr a, st') \<Rightarrow> (Inr a, st'))"

fun retrying :: "(nat \<Rightarrow> ('r, 'a) bookCall option \<Rightarrow> ('r, 'a) bookCall) \<Rightarrow> nat \<Rightarrow> nat \<Rightarrow> ('r, 'a) bookCall" where
  "retrying turn 0 conflicts = turn conflicts None"
| "retrying turn (Suc retries) conflicts = turn conflicts (Some (retrying turn retries (Suc conflicts)))"

definition readDocument :: "'r BookEnv \<Rightarrow> string \<Rightarrow> ('r, RemoteDocument option) bookCall" where
  "readDocument env path = liftRemote (\<lambda>r. tr_read (env_transport env) r path)"

definition acknowledgeB :: "string list \<Rightarrow> ('r, unit) bookCall" where
  "acknowledgeB ids st = (Inr (), st\<lparr>bk_journal := acknowledge (bk_journal st) ids\<rparr>)"

definition isExcludedB :: "string \<Rightarrow> ('r, bool) bookCall" where
  "isExcludedB bookId st = (let (r, ex) = isExcluded bookId (bk_exclusions st) in (Inr r, st\<lparr>bk_exclusions := ex\<rparr>))"

definition excludeB :: "'r BookEnv \<Rightarrow> string \<Rightarrow> ('r, unit) bookCall" where
  "excludeB env bookId st =
     (case exclude_book (env_accepts env) bookId (bk_exclusions st) of
        (Inl _, ex) \<Rightarrow> (Inl InvalidExclusion, st\<lparr>bk_exclusions := ex\<rparr>) | (Inr _, ex) \<Rightarrow> (Inr (), st\<lparr>bk_exclusions := ex\<rparr>))"

definition includeB :: "'r BookEnv \<Rightarrow> string \<Rightarrow> ('r, unit) bookCall" where
  "includeB env bookId st =
     (case include_book (env_accepts env) bookId (bk_exclusions st) of
        (Inl _, ex) \<Rightarrow> (Inl InvalidExclusion, st\<lparr>bk_exclusions := ex\<rparr>) | (Inr _, ex) \<Rightarrow> (Inr (), st\<lparr>bk_exclusions := ex\<rparr>))"

section \<open>Documents\<close>

text \<open>
  A document that was read is kept as its value: the guards of manifests and tombstones do not exclude each other, and the
  code asks for one or the other first in different places.
\<close>

definition parseBookSyncDocument :: "(string \<Rightarrow> string) \<Rightarrow> RemoteDocument \<Rightarrow> jsval option" where
  "parseBookSyncDocument nfkc document =
     (case parseJson (rd_content document) of None \<Rightarrow> None | Some v \<Rightarrow> if isBookSyncDocument nfkc v then Some v else None)"

definition tombstoneOf :: "jsval \<Rightarrow> BookSyncDeletionTombstone" where
  "tombstoneOf v =
     \<lparr>bdt_bookId = strOf (getProp v ''bookId''), bdt_format = formatOf (getProp v ''format''),
      bdt_fileName = strOf (getProp v ''fileName''), bdt_objectPath = strOf (getProp v ''objectPath''),
      bdt_deletedAt = strOf (getProp v ''deletedAt''), bdt_appVersion = strOf (getProp v ''appVersion'')\<rparr>"

definition asTombstone :: "(string \<Rightarrow> string) \<Rightarrow> jsval option \<Rightarrow> BookSyncDeletionTombstone option" where
  "asTombstone nfkc v = (case v of None \<Rightarrow> None | Some d \<Rightarrow> if isBookSyncDeletionTombstone nfkc d then Some (tombstoneOf d) else None)"

definition asManifest :: "(string \<Rightarrow> string) \<Rightarrow> jsval option \<Rightarrow> BookSyncManifest option" where
  "asManifest nfkc v = (case v of None \<Rightarrow> None | Some d \<Rightarrow> if isBookSyncManifest nfkc d then Some (manifestOf d) else None)"

definition documentBookId :: "jsval \<Rightarrow> string" where "documentBookId d = strOf (getProp d ''bookId'')"

definition documentObjectPath :: "jsval \<Rightarrow> string" where "documentObjectPath d = strOf (getProp d ''objectPath'')"

definition serializeBookManifest :: "BookSyncManifest \<Rightarrow> string" where
  "serializeBookManifest manifest = prettyAt 0 (manifestVal manifest) @ [CHR 0x0A]"

definition serializeTombstone :: "BookSyncDeletionTombstone \<Rightarrow> string" where
  "serializeTombstone tombstone = prettyAt 0 (tombstoneVal tombstone) @ [CHR 0x0A]"

definition tombstoneManifestPath :: "(string \<Rightarrow> string) \<Rightarrow> BookSyncDeletionTombstone \<Rightarrow> ManifestError + string" where
  "tombstoneManifestPath nfkc t = bookManifestPath nfkc (bdt_bookId t) (bdt_format t) (bdt_fileName t)"

definition matchesManifest :: "'r BookEnv \<Rightarrow> string \<Rightarrow> BookSyncManifest \<Rightarrow> ('r, bool) bookCall" where
  "matchesManifest env blob manifest =
     (if blobSize blob \<noteq> bsm_size manifest then returnB False
      else thenB (checkAbort env) (thenB (checkAbort env) (returnB (env_sha256 env blob = bsm_sha256 manifest))))"

section \<open>Pending changes\<close>

record PendingBookWrite =
  bw_manifest :: BookSyncManifest
  bw_operationIds :: "string list"
  bw_latest :: SyncOperation

record PendingBookDeletion =
  bd_tombstone :: BookSyncDeletionTombstone
  bd_operationIds :: "string list"
  bd_latest :: SyncOperation

datatype PendingBookChange = Upsert PendingBookWrite | Delete PendingBookDeletion

fun changeIds :: "PendingBookChange \<Rightarrow> string list" where
  "changeIds (Upsert w) = bw_operationIds w"
| "changeIds (Delete d) = bd_operationIds d"

fun changeLatest :: "PendingBookChange \<Rightarrow> SyncOperation" where
  "changeLatest (Upsert w) = bw_latest w"
| "changeLatest (Delete d) = bd_latest d"

definition acceptsBookOperation :: "(string \<Rightarrow> string) \<Rightarrow> SyncOperation \<Rightarrow> bool" where
  "acceptsBookOperation nfkc operation =
     (let payload = op_payload operation; manifest = isBookSyncManifest nfkc payload; tombstone = isBookSyncDeletionTombstone nfkc payload in
      op_entity operation = ''book'' \<and> (manifest \<or> tombstone) \<and> op_entityId operation = documentBookId payload \<and>
      (if op_operation operation = ''upsert'' then manifest else if op_operation operation = ''delete'' then tombstone else False))"

definition pendingChange :: "(string \<Rightarrow> string) \<Rightarrow> SyncOperation \<Rightarrow> string list \<Rightarrow> PendingBookChange" where
  "pendingChange nfkc operation ids =
     (if isBookSyncManifest nfkc (op_payload operation)
      then Upsert \<lparr>bw_manifest = manifestOf (op_payload operation), bw_operationIds = ids, bw_latest = operation\<rparr>
      else Delete \<lparr>bd_tombstone = tombstoneOf (op_payload operation), bd_operationIds = ids, bd_latest = operation\<rparr>)"

definition compareBookOperations :: "(string \<Rightarrow> string \<Rightarrow> int) \<Rightarrow> SyncOperation \<Rightarrow> SyncOperation \<Rightarrow> int" where
  "compareBookOperations localeCompare left right =
     cmpOr (op_revision left - op_revision right) (localeCompare (op_id left) (op_id right))"

fun withIds :: "string list \<Rightarrow> PendingBookChange \<Rightarrow> PendingBookChange" where
  "withIds ids (Upsert w) = Upsert (w\<lparr>bw_operationIds := ids\<rparr>)"
| "withIds ids (Delete d) = Delete (d\<lparr>bd_operationIds := ids\<rparr>)"

definition coalesceBookOperation ::
  "(string \<Rightarrow> string) \<Rightarrow> (string \<Rightarrow> string \<Rightarrow> int) \<Rightarrow> (string, PendingBookChange) jsMap \<times> nat \<Rightarrow> SyncOperation \<Rightarrow>
     (string, PendingBookChange) jsMap \<times> nat" where
  "coalesceBookOperation nfkc localeCompare state operation =
     (if \<not> acceptsBookOperation nfkc operation then state
      else
        let bookId = documentBookId (op_payload operation); changes = fst state in
        (case map_of changes bookId of
           None \<Rightarrow> mapSet bookId (pendingChange nfkc operation [op_id operation]) changes
         | Some existing \<Rightarrow>
             let ids = changeIds existing @ [op_id operation] in
             mapSet bookId (if compareBookOperations localeCompare operation (changeLatest existing) > 0
               then pendingChange nfkc operation ids else withIds ids existing) changes,
         Suc (snd state)))"

definition coalesceBookOperations ::
  "(string \<Rightarrow> string) \<Rightarrow> (string \<Rightarrow> string \<Rightarrow> int) \<Rightarrow> SyncOperation list \<Rightarrow> (string, PendingBookChange) jsMap \<times> nat" where
  "coalesceBookOperations nfkc localeCompare operations = foldl (coalesceBookOperation nfkc localeCompare) ([], 0) operations"

definition isNewerThanDeletion :: "PendingBookWrite \<Rightarrow> BookSyncDeletionTombstone \<Rightarrow> bool" where
  "isNewerThanDeletion pending tombstone =
     (codeUnitCompare (op_createdAt (bw_latest pending)) (bdt_deletedAt tombstone) > 0 \<and>
      codeUnitCompare (bsm_updatedAt (bw_manifest pending)) (bdt_deletedAt tombstone) > 0)"

definition syntheticBookOperation :: "BookSyncManifest \<Rightarrow> SyncOperation" where
  "syntheticBookOperation manifest =
     \<lparr>op_id = ''snapshot:'' @ bsm_bookId manifest, op_entity = ''book'', op_entityId = bsm_bookId manifest, op_operation = ''upsert'',
      op_revision = 0, op_createdAt = bsm_updatedAt manifest, op_payload = manifestVal manifest\<rparr>"

definition syntheticBookDeletion :: "BookSyncDeletionTombstone \<Rightarrow> SyncOperation" where
  "syntheticBookDeletion tombstone =
     \<lparr>op_id = ''snapshot-delete:'' @ bdt_bookId tombstone, op_entity = ''book'', op_entityId = bdt_bookId tombstone, op_operation = ''delete'',
      op_revision = 0, op_createdAt = bdt_deletedAt tombstone, op_payload = tombstoneVal tombstone\<rparr>"

section \<open>Removing what was deleted\<close>

definition discardDeletedObject :: "'r BookEnv \<Rightarrow> string \<Rightarrow> ('r, bool) bookCall" where
  "discardDeletedObject env path =
     (case tr_deleteObject (env_transport env) of
        None \<Rightarrow> returnB False
      | Some deleteObject \<Rightarrow>
          bindB (liftRemote (tr_headObject (env_transport env) path)) (\<lambda>object.
            case object of
              None \<Rightarrow> returnB False
            | Some found \<Rightarrow> thenB (liftRemote (deleteObject path (Some (ro_revision found)))) (returnB True)))"

definition discardDeletedObjects :: "'r BookEnv \<Rightarrow> BookSyncDeletionTombstone \<Rightarrow> string option \<Rightarrow> ('r, bool) bookCall" where
  "discardDeletedObjects env tombstone remoteObjectPath =
     bindB (liftPath (bookObjectPath (env_nfkc env) (bdt_bookId tombstone) (bdt_format tombstone) (bdt_fileName tombstone))) (\<lambda>path.
       let paths = jsUnique ([bdt_objectPath tombstone, path, legacyBookObjectPath (bdt_bookId tombstone) (bdt_format tombstone)] @
             (case remoteObjectPath of None \<Rightarrow> [] | Some p \<Rightarrow> [p]))
       in bindB (allB (map (discardDeletedObject env) paths)) (\<lambda>deleted. returnB (True \<in> set deleted)))"

definition deleteRemoteDocument :: "'r BookEnv \<Rightarrow> string \<Rightarrow> string \<Rightarrow> ('r, unit) bookCall" where
  "deleteRemoteDocument env path revision =
     (case tr_deleteDocument (env_transport env) of
        None \<Rightarrow> failB CannotDeleteRemoteDocuments | Some deleteDocument \<Rightarrow> liftRemote (deleteDocument path (Some revision)))"

section \<open>Pushing a publication\<close>

definition pushedBook :: "bool \<Rightarrow> nat \<Rightarrow> ('r, PushResult) bookCall" where
  "pushedBook pushed conflicts = returnB \<lparr>pu_pushed = pushed, pu_conflicts = conflicts, pu_rejected = 0\<rparr>"

definition rejectedBook :: "string list \<Rightarrow> nat \<Rightarrow> ('r, PushResult) bookCall" where
  "rejectedBook ids conflicts = returnB \<lparr>pu_pushed = False, pu_conflicts = conflicts, pu_rejected = length ids\<rparr>"

text \<open>The deletion of another device wins: the publication is excluded here and its objects are removed.\<close>

definition honorDeletion :: "'r BookEnv \<Rightarrow> PendingBookWrite \<Rightarrow> BookSyncDeletionTombstone \<Rightarrow> nat \<Rightarrow> ('r, PushResult) bookCall" where
  "honorDeletion env pending tombstone conflicts =
     thenB (excludeB env (bsm_bookId (bw_manifest pending)))
     (bindB (discardDeletedObjects env tombstone (Some (bsm_objectPath (bw_manifest pending)))) (\<lambda>mutated.
      thenB (acknowledgeB (bw_operationIds pending)) (pushedBook mutated conflicts)))"

definition discardManifestIfDeleted :: "'r BookEnv \<Rightarrow> PendingBookWrite \<Rightarrow> RemoteDocument \<Rightarrow> ('r, bool) bookCall" where
  "discardManifestIfDeleted env pending manifest =
     bindB (liftPath (bookDeletionPath (bsm_bookId (bw_manifest pending)))) (\<lambda>path.
     bindB (readDocument env path) (\<lambda>document.
       case asTombstone (env_nfkc env) (Option.bind document (parseBookSyncDocument (env_nfkc env))) of
         None \<Rightarrow> returnB False
       | Some deletion \<Rightarrow>
           if isNewerThanDeletion pending deletion then returnB False
           else
             thenB (excludeB env (bsm_bookId (bw_manifest pending)))
             (thenB (deleteRemoteDocument env (rd_path manifest) (rd_revision manifest))
             (thenB (discardDeletedObjects env deletion (Some (bsm_objectPath (bw_manifest pending))))
             (thenB (acknowledgeB (bw_operationIds pending)) (returnB True))))))"

definition writeBookManifest ::
  "'r BookEnv \<Rightarrow> PendingBookWrite \<Rightarrow> string \<Rightarrow> string option \<Rightarrow> nat \<Rightarrow> ('r, PushResult) bookCall option \<Rightarrow> ('r, PushResult) bookCall" where
  "writeBookManifest env pending path expectedRevision conflicts again =
     catchConflict again
       (thenB (checkAbort env)
       (bindB (liftRemote (\<lambda>r. tr_write (env_transport env) r path (serializeBookManifest (bw_manifest pending)) expectedRevision)) (\<lambda>written.
        thenB (checkAbort env)
       (bindB (discardManifestIfDeleted env pending written) (\<lambda>discarded.
          if discarded then pushedBook False conflicts
          else thenB (acknowledgeB (bw_operationIds pending)) (pushedBook True conflicts))))))"

definition pushManifestTurn ::
  "'r BookEnv \<Rightarrow> PendingBookWrite \<Rightarrow> nat \<Rightarrow> ('r, PushResult) bookCall option \<Rightarrow> ('r, PushResult) bookCall" where
  "pushManifestTurn env pending conflicts again =
     bindB (liftPath (manifestPathOf (env_nfkc env) (bw_manifest pending))) (\<lambda>path.
     thenB (checkAbort env)
     (bindB (readDocument env path) (\<lambda>current.
        case current of
          None \<Rightarrow> writeBookManifest env pending path None conflicts again
        | Some document \<Rightarrow>
            if rd_content document = serializeBookManifest (bw_manifest pending) then
              bindB (discardManifestIfDeleted env pending document) (\<lambda>discarded.
                if discarded then pushedBook True conflicts
                else thenB (acknowledgeB (bw_operationIds pending)) (pushedBook False conflicts))
            else
              let currentBook = parseBookSyncDocument (env_nfkc env) document;
                  rewrite = writeBookManifest env pending path (Some (rd_revision document)) conflicts again;
                  others = (if currentBook = None then rejectedBook (bw_operationIds pending) conflicts
                    else case asManifest (env_nfkc env) currentBook of
                        None \<Rightarrow> rewrite
                      | Some m \<Rightarrow>
                          if bsm_bookId m \<noteq> bsm_bookId (bw_manifest pending) \<or> bsm_sha256 m \<noteq> bsm_sha256 (bw_manifest pending)
                          then rejectedBook (bw_operationIds pending) conflicts else rewrite)
              in case asTombstone (env_nfkc env) currentBook of
                   None \<Rightarrow> others
                 | Some t \<Rightarrow> if \<not> isNewerThanDeletion pending t then honorDeletion env pending t conflicts else others)))"

definition pushManifest :: "'r BookEnv \<Rightarrow> PendingBookWrite \<Rightarrow> ('r, PushResult) bookCall" where
  "pushManifest env pending = retrying (pushManifestTurn env pending) (env_maxConflictRetries env) 0"

definition getBookSourceB :: "'r BookEnv \<Rightarrow> string \<Rightarrow> ('r, string option) bookCall" where
  "getBookSourceB env bookId st =
     (case getBookSource (env_fs env) (bk_db st) bookId of
        (Inl e, db) \<Rightarrow> (Inl (BookStorage e), st\<lparr>bk_db := db\<rparr>)
      | (Inr source, db) \<Rightarrow> (Inr (map_option (\<lambda>(name, mediaType, content). content) source), st\<lparr>bk_db := db\<rparr>))"

definition sameObject :: "RemoteObject \<Rightarrow> BookSyncManifest \<Rightarrow> bool" where
  "sameObject object manifest = (ro_size object = bsm_size manifest \<and> ro_sha256 object = bsm_sha256 manifest)"

text \<open>The object is there with the right bytes, or it is uploaded; \<open>None\<close> when it is another one.\<close>

definition ensureObject :: "'r BookEnv \<Rightarrow> BookSyncManifest \<Rightarrow> string \<Rightarrow> ('r, bool option) bookCall" where
  "ensureObject env manifest blob =
     bindB (liftRemote (tr_headObject (env_transport env) (bsm_objectPath manifest))) (\<lambda>existing.
       case existing of
         Some object \<Rightarrow> returnB (if sameObject object manifest then Some False else None)
       | None \<Rightarrow>
           bindB (liftRemote (tr_uploadObject (env_transport env) \<lparr>up_path = bsm_objectPath manifest, up_content = blob,
               up_size = bsm_size manifest, up_sha256 = bsm_sha256 manifest, up_mediaType = bsm_mediaType manifest\<rparr>)) (\<lambda>uploaded.
           thenB (checkAbort env)
             (returnB (if ro_path uploaded = bsm_objectPath manifest \<and> sameObject uploaded manifest then Some True else None))))"

text \<open>What is pushed once no deletion stands against it.\<close>

definition pushBookContent :: "'r BookEnv \<Rightarrow> PendingBookWrite \<Rightarrow> RemoteDocument option \<Rightarrow> ('r, PushResult) bookCall" where
  "pushBookContent env pending deletion =
     (let manifest = bw_manifest pending; rejected = rejectedBook (bw_operationIds pending) 0 in
      bindB (getBookSourceB env (bsm_bookId manifest)) (\<lambda>source.
        case source of
          None \<Rightarrow> rejected
        | Some blob \<Rightarrow>
            thenB (checkAbort env)
            (bindB (matchesManifest env blob manifest) (\<lambda>matching.
              if \<not> matching then rejected
              else bindB (ensureObject env manifest blob) (\<lambda>mutated.
                case mutated of
                  None \<Rightarrow> rejected
                | Some uploaded \<Rightarrow>
                    bindB (pushManifest env pending) (\<lambda>result.
                    thenB (case deletion of
                        Some d \<Rightarrow> if pu_pushed result
                          then thenB (deleteRemoteDocument env (rd_path d) (rd_revision d)) (includeB env (bsm_bookId manifest)) else returnB ()
                      | None \<Rightarrow> returnB ())
                    (returnB (result\<lparr>pu_pushed := uploaded \<or> pu_pushed result\<rparr>))))))))"

definition pushBook :: "'r BookEnv \<Rightarrow> PendingBookWrite \<Rightarrow> ('r, PushResult) bookCall" where
  "pushBook env pending =
     (let nfkc = env_nfkc env;
          blocks = (\<lambda>document. case asTombstone nfkc (Option.bind document (parseBookSyncDocument nfkc)) of
            None \<Rightarrow> None | Some t \<Rightarrow> if \<not> isNewerThanDeletion pending t then Some t else None)
      in thenB (checkAbort env)
         (bindB (liftPath (bookDeletionPath (bsm_bookId (bw_manifest pending)))) (\<lambda>deletionPath.
          bindB (readDocument env deletionPath) (\<lambda>deletion.
            case blocks deletion of
              Some t \<Rightarrow> honorDeletion env pending t 0
            | None \<Rightarrow>
                bindB (liftPath (manifestPathOf nfkc (bw_manifest pending))) (\<lambda>path.
                bindB (readDocument env path) (\<lambda>current.
                  case blocks current of
                    Some t \<Rightarrow> honorDeletion env pending t 0
                  | None \<Rightarrow> pushBookContent env pending deletion))))))"

section \<open>Pushing a deletion\<close>

definition setMutated :: "bool \<Rightarrow> ('r, unit) bookCall" where
  "setMutated b st = (Inr (), st\<lparr>bk_mutated := b\<rparr>)"

definition finishDeletion ::
  "'r BookEnv \<Rightarrow> PendingBookDeletion \<Rightarrow> BookSyncDeletionTombstone \<Rightarrow> string option \<Rightarrow> nat \<Rightarrow> ('r, PushResult) bookCall" where
  "finishDeletion env pending tombstone remoteObjectPath conflicts =
     bindB (discardDeletedObjects env tombstone remoteObjectPath) (\<lambda>discarded.
     thenB (acknowledgeB (bd_operationIds pending)) (\<lambda>st. pushedBook (discarded \<or> bk_mutated st) conflicts st))"

definition pushDeletionTurn ::
  "'r BookEnv \<Rightarrow> PendingBookDeletion \<Rightarrow> nat \<Rightarrow> ('r, PushResult) bookCall option \<Rightarrow> ('r, PushResult) bookCall" where
  "pushDeletionTurn env pending conflicts again =
     (let nfkc = env_nfkc env; bookId = bdt_bookId (bd_tombstone pending); rejected = rejectedBook (bd_operationIds pending) conflicts in
      bindB (liftPath (bookDeletionPath bookId)) (\<lambda>path.
      thenB (checkAbort env)
      (bindB (readDocument env path) (\<lambda>current.
        let remoteBook = Option.bind current (parseBookSyncDocument nfkc) in
        if current \<noteq> None \<and> (case remoteBook of None \<Rightarrow> True | Some d \<Rightarrow> documentBookId d \<noteq> bookId) then rejected
        else
          let tombstone = (case asTombstone nfkc remoteBook of
                None \<Rightarrow> bd_tombstone pending
              | Some r \<Rightarrow> if codeUnitCompare (bdt_deletedAt r) (bdt_deletedAt (bd_tombstone pending)) > 0 then r else bd_tombstone pending);
              finish = finishDeletion env pending tombstone (map_option documentObjectPath remoteBook) conflicts
          in catchConflict again
            (thenB (if map_option rd_content current = Some (serializeTombstone tombstone) then returnB ()
                else thenB (liftRemote (\<lambda>r. tr_write (env_transport env) r path (serializeTombstone tombstone) (map_option rd_revision current)))
                  (setMutated True))
            (bindB (liftPath (tombstoneManifestPath nfkc tombstone)) (\<lambda>manifestPath.
             bindB (readDocument env manifestPath) (\<lambda>manifest.
               case manifest of
                 None \<Rightarrow> finish
               | Some document \<Rightarrow>
                   (case asManifest nfkc (parseBookSyncDocument nfkc document) of
                      None \<Rightarrow> rejected
                    | Some active \<Rightarrow>
                        if bsm_bookId active \<noteq> bdt_bookId tombstone then rejected
                        else thenB (deleteRemoteDocument env manifestPath (rd_revision document)) (thenB (setMutated True) finish))))))))))"

definition pushDeletion :: "'r BookEnv \<Rightarrow> PendingBookDeletion \<Rightarrow> ('r, PushResult) bookCall" where
  "pushDeletion env pending =
     thenB (setMutated False) (retrying (pushDeletionTurn env pending) (env_maxConflictRetries env) 0)"

section \<open>Pulling\<close>

fun foldB :: "('b \<Rightarrow> 'a \<Rightarrow> ('r, 'b) bookCall) \<Rightarrow> 'b \<Rightarrow> 'a list \<Rightarrow> ('r, 'b) bookCall" where
  "foldB f b [] = returnB b"
| "foldB f b (x # xs) = bindB (f b x) (\<lambda>b. foldB f b xs)"

definition getBookB :: "string \<Rightarrow> ('r, jsval option) bookCall" where
  "getBookB bookId st = (let (book, db) = getBook (bk_db st) bookId in (Inr book, st\<lparr>bk_db := db\<rparr>))"

definition storeSyncedBookB :: "'r BookEnv \<Rightarrow> BookSyncManifest \<Rightarrow> string \<Rightarrow> ('r, unit) bookCall" where
  "storeSyncedBookB env manifest blob st =
     (case storeSyncedBook (env_fingerprinter env) (env_fs env) (bk_db st) (manifestBookRecord manifest)
         \<lparr>src_name = bsm_fileName manifest, src_mediaType = bsm_mediaType manifest, src_size = blobSize blob,
           src_content = blob\<rparr> of
        (Inl e, db) \<Rightarrow> (Inl (BookLibrary e), st\<lparr>bk_db := db\<rparr>) | (Inr _, db) \<Rightarrow> (Inr (), st\<lparr>bk_db := db\<rparr>))"

datatype PullOutcome = Pulled | Skipped | Rejected

definition pullTombstone ::
  "'r BookEnv \<Rightarrow> (string, PendingBookChange) jsMap \<Rightarrow> BookSyncDeletionTombstone \<Rightarrow> ('r, PullOutcome) bookCall" where
  "pullTombstone env localIntents tombstone =
     (let keeps = (case map_of localIntents (bdt_bookId tombstone) of
          Some (Upsert pending) \<Rightarrow> isNewerThanDeletion pending tombstone | _ \<Rightarrow> False)
      in if keeps then returnB Skipped
         else bindB (isExcludedB (bdt_bookId tombstone)) (\<lambda>wasExcluded.
           thenB (excludeB env (bdt_bookId tombstone))
           (thenB (discardDeletedObjects env tombstone (Some (bdt_objectPath tombstone)))
             (returnB (if wasExcluded then Skipped else Pulled)))))"

definition pullManifest :: "'r BookEnv \<Rightarrow> BookSyncManifest \<Rightarrow> ('r, PullOutcome) bookCall" where
  "pullManifest env manifest =
     bindB (isExcludedB (bsm_bookId manifest)) (\<lambda>excluded.
       if excluded then returnB Skipped
       else bindB (getBookB (bsm_bookId manifest)) (\<lambda>book.
         if book \<noteq> None then returnB Skipped
         else bindB (liftRemote (tr_headObject (env_transport env) (bsm_objectPath manifest))) (\<lambda>remoteObject.
           if (case remoteObject of None \<Rightarrow> True | Some found \<Rightarrow> ro_path found \<noteq> bsm_objectPath manifest \<or> \<not> sameObject found manifest) then returnB Rejected
           else bindB (liftRemote (tr_downloadObject (env_transport env) (bsm_objectPath manifest))) (\<lambda>blob.
             thenB (checkAbort env)
             (bindB (matchesManifest env blob manifest) (\<lambda>matching.
               if \<not> matching then returnB Rejected
               else thenB (checkAbort env)
                 (bindB (isExcludedB (bsm_bookId manifest)) (\<lambda>excludedNow.
                   if excludedNow then returnB Skipped
                   else thenB (storeSyncedBookB env manifest blob) (returnB Pulled)))))))))"

definition pullDocument ::
  "'r BookEnv \<Rightarrow> (string, PendingBookChange) jsMap \<Rightarrow> RemoteDocument \<Rightarrow> ('r, PullOutcome) bookCall" where
  "pullDocument env localIntents document =
     (let nfkc = env_nfkc env in
      thenB (checkAbort env)
      (case parseBookSyncDocument nfkc document of
         None \<Rightarrow> returnB Rejected
       | Some remoteBook \<Rightarrow>
           (case asTombstone nfkc (Some remoteBook) of
              Some tombstone \<Rightarrow>
                bindB (liftPath (bookDeletionPath (bdt_bookId tombstone))) (\<lambda>path.
                  if rd_path document \<noteq> path then returnB Rejected else pullTombstone env localIntents tombstone)
            | None \<Rightarrow>
                (let manifest = manifestOf remoteBook in
                 bindB (liftPath (manifestPathOf nfkc manifest)) (\<lambda>path.
                   if rd_path document \<noteq> path then returnB Rejected else pullManifest env manifest)))))"

definition countOutcome :: "ProgressSyncResult \<Rightarrow> PullOutcome \<Rightarrow> ProgressSyncResult" where
  "countOutcome result outcome = (case outcome of
     Pulled \<Rightarrow> result\<lparr>sr_pulled := sr_pulled result + 1\<rparr> | Skipped \<Rightarrow> result | Rejected \<Rightarrow> result\<lparr>sr_rejected := sr_rejected result + 1\<rparr>)"

definition bookResult :: "nat \<Rightarrow> ProgressSyncResult" where
  "bookResult rejected = \<lparr>sr_pulled = 0, sr_pushed = 0, sr_conflicts = 0, sr_rejected = rejected\<rparr>"

definition pullFromSnapshot ::
  "'r BookEnv \<Rightarrow> RemoteDocument list \<Rightarrow> RemoteDocument list \<Rightarrow> SyncOperation list \<Rightarrow> ('r, ProgressSyncResult) bookCall" where
  "pullFromSnapshot env deletions books pending =
     (let localIntents = fst (coalesceBookOperations (env_nfkc env) (env_localeCompare env) pending) in
      foldB (\<lambda>result document. bindB (pullDocument env localIntents document) (\<lambda>outcome. returnB (countOutcome result outcome)))
        (bookResult 0) (deletions @ books))"

section \<open>Pushing everything\<close>

record RemoteBooks =
  rbk_excluded :: "(string, BookSyncManifest) jsMap"
  rbk_paths :: "string list"

definition scanRemoteBook :: "'r BookEnv \<Rightarrow> RemoteBooks \<Rightarrow> RemoteDocument \<Rightarrow> ('r, RemoteBooks) bookCall" where
  "scanRemoteBook env found document =
     (if \<not> endsWith (rd_path document) ''/book.json'' then returnB found
      else case asManifest (env_nfkc env) (parseBookSyncDocument (env_nfkc env) document) of
             None \<Rightarrow> returnB found
           | Some manifest \<Rightarrow>
               bindB (liftPath (manifestPathOf (env_nfkc env) manifest)) (\<lambda>path.
                 if rd_path document \<noteq> path then returnB found
                 else
                   let found = found\<lparr>rbk_paths := rbk_paths found @ [path]\<rparr> in
                   bindB (isExcludedB (bsm_bookId manifest)) (\<lambda>excluded.
                     returnB (if excluded then found\<lparr>rbk_excluded := mapSet (bsm_bookId manifest) manifest (rbk_excluded found)\<rparr> else found))))"

definition tombstoneFor :: "'r BookEnv \<Rightarrow> BookSyncManifest \<Rightarrow> string \<Rightarrow> ManifestError + BookSyncDeletionTombstone" where
  "tombstoneFor env remoteBook deletedAt =
     createBookSyncDeletionTombstone (env_nfkc env) (bsm_bookId remoteBook) (bsm_format remoteBook) (bsm_fileName remoteBook) deletedAt ''0.0.0''"

text \<open>The uploads of excluded books become deletions when the book is there remotely, and are dropped otherwise.\<close>

definition convertExcluded ::
  "'r BookEnv \<Rightarrow> RemoteBooks \<Rightarrow> (string, PendingBookChange) jsMap \<times> string list \<Rightarrow> string \<times> PendingBookChange \<Rightarrow>
     ('r, (string, PendingBookChange) jsMap \<times> string list) bookCall" where
  "convertExcluded env found state entry =
     (case entry of (bookId, change) \<Rightarrow>
        bindB (isExcludedB bookId) (\<lambda>excluded.
          case change of
            Delete _ \<Rightarrow> returnB state
          | Upsert pending \<Rightarrow>
              if \<not> excluded then returnB state
              else (case map_of (rbk_excluded found) bookId of
                      None \<Rightarrow> returnB (mapDelete bookId (fst state), snd state @ bw_operationIds pending)
                    | Some remoteBook \<Rightarrow>
                        bindB (liftPath (tombstoneFor env remoteBook (op_createdAt (bw_latest pending)))) (\<lambda>tombstone.
                          returnB (mapSet bookId (Delete \<lparr>bd_tombstone = tombstone, bd_operationIds = bw_operationIds pending, bd_latest = bw_latest pending\<rparr>)
                            (fst state), snd state)))))"

definition deleteExcluded ::
  "'r BookEnv \<Rightarrow> (string, PendingBookChange) jsMap \<Rightarrow> string \<times> BookSyncManifest \<Rightarrow> ('r, (string, PendingBookChange) jsMap) bookCall" where
  "deleteExcluded env changes entry =
     (case entry of (bookId, remoteBook) \<Rightarrow>
        if map_of changes bookId \<noteq> None then returnB changes
        else bindB (liftPath (tombstoneFor env remoteBook (env_now env))) (\<lambda>tombstone.
          returnB (mapSet bookId (Delete \<lparr>bd_tombstone = tombstone, bd_operationIds = [], bd_latest = syntheticBookDeletion tombstone\<rparr>) changes)))"

definition addLocalBook ::
  "'r BookEnv \<Rightarrow> RemoteBooks \<Rightarrow> (string, PendingBookChange) jsMap \<Rightarrow> BookRecord \<Rightarrow> ('r, (string, PendingBookChange) jsMap) bookCall" where
  "addLocalBook env found changes book =
     thenB (checkAbort env)
     (bindB (isExcludedB (br_id book)) (\<lambda>excluded.
        if excluded \<or> map_of changes (br_id book) \<noteq> None then returnB changes
        else bindB (liftPath (bookManifestPath (env_nfkc env) (br_id book) (br_format book) (br_fileName book))) (\<lambda>path.
          if path \<in> set (rbk_paths found) then returnB changes
          else bindB (liftPath (createBookSyncManifest (env_nfkc env) book (manifestUpdatedAt book) ''0.0.0'')) (\<lambda>manifest.
            returnB (mapSet (br_id book)
              (Upsert \<lparr>bw_manifest = manifest, bw_operationIds = [], bw_latest = syntheticBookOperation manifest\<rparr>) changes)))))"

definition listBooksB :: "'r BookEnv \<Rightarrow> ('r, BookRecord list) bookCall" where
  "listBooksB env st = (let (books, db) = listBooks (env_localeCompare env) (bk_db st) in (Inr (map bookOf books), st\<lparr>bk_db := db\<rparr>))"

definition collectChanges ::
  "'r BookEnv \<Rightarrow> RemoteDocument list \<Rightarrow> (string, PendingBookChange) jsMap \<Rightarrow> ('r, (string, PendingBookChange) jsMap) bookCall" where
  "collectChanges env remoteDocuments changes =
     bindB (foldB (scanRemoteBook env) \<lparr>rbk_excluded = [], rbk_paths = []\<rparr> remoteDocuments) (\<lambda>found.
     bindB (foldB (convertExcluded env found) (changes, []) changes) (\<lambda>(changes, discardedOperationIds).
     bindB (foldB (deleteExcluded env) changes (rbk_excluded found)) (\<lambda>changes.
     thenB (acknowledgeB discardedOperationIds)
     (bindB (listBooksB env) (\<lambda>books. foldB (addLocalBook env found) changes books)))))"

definition pushChange :: "'r BookEnv \<Rightarrow> ProgressSyncResult \<Rightarrow> PendingBookChange \<Rightarrow> ('r, ProgressSyncResult) bookCall" where
  "pushChange env result change =
     thenB (checkAbort env)
     (bindB (case change of Upsert pending \<Rightarrow> pushBook env pending | Delete pending \<Rightarrow> pushDeletion env pending) (\<lambda>r.
        returnB (result\<lparr>sr_pushed := sr_pushed result + (if pu_pushed r then 1 else 0),
                        sr_conflicts := sr_conflicts result + pu_conflicts r, sr_rejected := sr_rejected result + pu_rejected r\<rparr>)))"

definition pushFromSnapshot ::
  "'r BookEnv \<Rightarrow> SyncOperation list \<Rightarrow> RemoteDocument list \<Rightarrow> ('r, ProgressSyncResult) bookCall" where
  "pushFromSnapshot env pending remoteDocuments =
     (let (changes, accepted) = coalesceBookOperations (env_nfkc env) (env_localeCompare env) pending in
      bindB (collectChanges env remoteDocuments changes) (\<lambda>changes.
        foldB (pushChange env) (bookResult (length (filter (\<lambda>operation. op_entity operation = ''book'') pending) - accepted))
          (mapValues changes)))"

section \<open>A whole synchronization\<close>

definition listDocuments :: "'r BookEnv \<Rightarrow> string \<Rightarrow> ('r, RemoteDocument list) bookCall" where
  "listDocuments env folder = liftRemote (\<lambda>r. tr_list (env_transport env) r folder)"

definition pendingB :: "'r BookEnv \<Rightarrow> ('r, SyncOperation list) bookCall" where
  "pendingB env st = (Inr (pending_ops (env_localeCompare env) (bk_journal st)), st)"

text \<open>The two listings and the journal are read together.\<close>

definition readSnapshot :: "'r BookEnv \<Rightarrow> ('r, RemoteDocument list \<times> RemoteDocument list \<times> SyncOperation list) bookCall" where
  "readSnapshot env =
     bindB (allB [listDocuments env BOOK_DELETIONS_ROOT, listDocuments env BOOKS_ROOT]) (\<lambda>lists.
     bindB (pendingB env) (\<lambda>pending. returnB (lists ! 0, lists ! 1, pending)))"

definition pullBooks_service :: "'r BookEnv \<Rightarrow> ('r, ProgressSyncResult) bookCall" where
  "pullBooks_service env =
     thenB (checkAbort env) (bindB (readSnapshot env) (\<lambda>(deletions, books, pending). pullFromSnapshot env deletions books pending))"

definition pushBooks_service :: "'r BookEnv \<Rightarrow> ('r, ProgressSyncResult) bookCall" where
  "pushBooks_service env =
     thenB (checkAbort env)
     (bindB (listDocuments env BOOKS_ROOT) (\<lambda>remoteDocuments.
      bindB (pendingB env) (\<lambda>pending. pushFromSnapshot env pending remoteDocuments)))"

definition runBookSynchronization :: "'r BookEnv \<Rightarrow> ('r, ProgressSyncResult) bookCall" where
  "runBookSynchronization env =
     thenB (checkAbort env)
     (bindB (readSnapshot env) (\<lambda>(deletions, books, pending).
      bindB (pullFromSnapshot env deletions books pending) (\<lambda>pulled.
      thenB (checkAbort env)
      (bindB (pushFromSnapshot env pending books) (\<lambda>pushed.
       thenB (liftRemote (updateBookSyncCatalog (env_nfkc env) (env_localeCompare env) (env_transport env) (env_maxConflictRetries env)
           (if sr_pushed pushed = 0 then Some books else None)))
       (returnB \<lparr>sr_pulled = sr_pulled pulled, sr_pushed = sr_pushed pushed,
          sr_conflicts = sr_conflicts pulled + sr_conflicts pushed, sr_rejected = sr_rejected pulled + sr_rejected pushed\<rparr>))))))"

end
