(* ===== verification/Book_Sync_Safety.thy ===== *)
theory Book_Sync_Safety
  imports Book_Sync Catalog_Safety Document_Text
begin

text \<open>
  What the synchronization of publications guarantees: a pull adds a publication to the library only for a manifest at its
  own path and with bytes that have the digest of the manifest. And what it does not: a publication that is restored while
  the tombstone cannot be removed is forgotten.
\<close>

section \<open>What calls keep\<close>

text \<open>A relation between the states before and after a call.\<close>

definition callKeeps :: "('r BookState \<Rightarrow> 'r BookState \<Rightarrow> bool) \<Rightarrow> ('r, 'a) bookCall \<Rightarrow> bool" where
  "callKeeps R m \<longleftrightarrow> (\<forall>st. R st (snd (m st)))"

text \<open>A preorder on states is kept by a program when it is kept by its calls.\<close>

locale call_relation =
  fixes R :: "'r BookState \<Rightarrow> 'r BookState \<Rightarrow> bool"
  assumes R_refl: "R st st" and R_trans: "R st st' \<Longrightarrow> R st' st'' \<Longrightarrow> R st st''"
begin

lemma keeps_pure: "callKeeps R (returnB a)" "callKeeps R (failB e)" "callKeeps R (liftPath r)" "callKeeps R (checkAbort env)" "callKeeps R (pendingB env)"
  by (auto simp: callKeeps_def returnB_def failB_def liftPath_def checkAbort_def pendingB_def R_refl split: sum.splits)

lemma keeps_bind:
  assumes "callKeeps R m" and "\<And>a st st'. m st = (Inr a, st') \<Longrightarrow> callKeeps R (f a)"
  shows "callKeeps R (bindB m f)"
  unfolding callKeeps_def
proof
  fix st
  obtain r st' where r: "m st = (r, st')" by fastforce
  have 1: "R st st'" using assms(1) r unfolding callKeeps_def by (metis snd_conv)
  show "R st (snd (bindB m f st))"
  proof (cases r)
    case (Inr a)
    then have "callKeeps R (f a)" using assms(2) r by blast
    then have "R st' (snd (f a st'))" by (simp add: callKeeps_def)
    then show ?thesis using R_trans [OF 1] r Inr by (simp add: bindB_def)
  qed (use 1 r in \<open>simp add: bindB_def\<close>)
qed

lemma keeps_then: "callKeeps R m \<Longrightarrow> callKeeps R n \<Longrightarrow> callKeeps R (thenB m n)"
  unfolding thenB_def by (rule keeps_bind)

lemma keeps_all: "(\<And>m. m \<in> set ms \<Longrightarrow> callKeeps R m) \<Longrightarrow> callKeeps R (allB ms)"
proof (induction ms)
  case (Cons m ms)
  then have "callKeeps R m" "callKeeps R (allB ms)" by simp_all
  then show ?case unfolding callKeeps_def by (auto simp: split_beta Let_def intro: R_trans)
qed (simp add: callKeeps_def R_refl)

lemma keeps_fold: "(\<And>b x. x \<in> set xs \<Longrightarrow> callKeeps R (f b x)) \<Longrightarrow> callKeeps R (foldB f b xs)"
proof (induction xs arbitrary: b)
  case Nil
  then show ?case by (simp add: keeps_pure)
next
  case (Cons x xs)
  then show ?case by (auto intro!: keeps_bind)
qed

lemma keeps_catch: "callKeeps R m \<Longrightarrow> (\<And>loop. again = Some loop \<Longrightarrow> callKeeps R loop) \<Longrightarrow> callKeeps R (catchConflict again m)"
  unfolding callKeeps_def catchConflict_def
  by (auto split: prod.splits sum.splits option.splits) (metis R_trans snd_conv)+

lemma keeps_retrying:
  "(\<And>n again. (\<And>loop. again = Some loop \<Longrightarrow> callKeeps R loop) \<Longrightarrow> callKeeps R (turn n again)) \<Longrightarrow> callKeeps R (retrying turn retries conflicts)"
proof (induction retries arbitrary: conflicts)
  case (Suc retries)
  show ?case unfolding retrying.simps by (rule Suc.prems) (use Suc in auto)
qed auto

end

section \<open>Publications that are added\<close>

text \<open>What a call may add to the publications of the library.\<close>

definition addsBooks :: "(string \<Rightarrow> jsval \<Rightarrow> bool) \<Rightarrow> LibraryDb \<Rightarrow> LibraryDb \<Rightarrow> bool" where
  "addsBooks Q db db' \<longleftrightarrow> (\<forall>i v. idbGet db' BOOKS_STORE [i] = Some v \<longrightarrow> idbGet db BOOKS_STORE [i] = Some v \<or> Q i v)"

lemma addsBooks_refl [simp]: "addsBooks Q db db"
  by (simp add: addsBooks_def)

lemma addsBooks_trans: "addsBooks Q db1 db2 \<Longrightarrow> addsBooks Q db2 db3 \<Longrightarrow> addsBooks Q db1 db3"
  by (auto simp: addsBooks_def)

lemma addsBooks_read: "onlyQuarantines db db' \<Longrightarrow> addsBooks Q db db'"
  unfolding addsBooks_def onlyQuarantines_def by (metis option.distinct(1))

lemma addsBooks_same: "(\<And>k. idbGet db' BOOKS_STORE k = idbGet db BOOKS_STORE k) \<Longrightarrow> addsBooks Q db db'"
  by (simp add: addsBooks_def)

lemma addsBooks_other: "s \<noteq> BOOKS_STORE \<Longrightarrow> addsBooks Q db (idbWrite db s v)"
  by (rule addsBooks_same) (simp add: idbGet_idbWrite)

lemma addsBooks_migrate: "addsBooks Q db (snd (migrateBinary fs db stored format))"
  by (rule addsBooks_same) (auto simp: migrateBinary_def writeOpfs_def idbGet_def Let_def split: StoredPublicationBinary.splits sum.splits option.splits)

lemma addsBooks_stored: "addsBooks Q db (snd (getStoredBinary db i))"
  by (rule addsBooks_read [OF onlyQuarantines_getStoredBinary])

lemma addsBooks_source: "addsBooks Q db (snd (getBookSource fs db i))"
proof -
  obtain stored db1 where s: "getStoredBinary db i = (stored, db1)" by fastforce
  obtain b db2 where b: "getBook db1 i = (b, db2)" by fastforce
  have "addsBooks Q db db1" using addsBooks_stored [of Q db i] s by simp
  moreover have "addsBooks Q db1 db2" using addsBooks_read [OF onlyQuarantines_getBook [of db1 i]] b by simp
  ultimately have 2: "addsBooks Q db db2" by (rule addsBooks_trans)
  show ?thesis
  proof (cases "stored = None \<or> b = None")
    case True
    then show ?thesis using s b 2 by (auto simp: getBookSource_def split: option.splits)
  next
    case False
    then obtain x y where xy: "stored = Some x" "b = Some y" by auto
    obtain m db3 where m: "migrateBinary fs db2 x (br_format (bookOf y)) = (m, db3)" by fastforce
    have 3: "addsBooks Q db db3" using addsBooks_trans [OF 2 addsBooks_migrate [of Q db2 fs x "br_format (bookOf y)"]] m by simp
    then show ?thesis
      using s b xy m addsBooks_trans [OF 3 addsBooks_other [of BINARIES_STORE]]
      by (auto simp: getBookSource_def Let_def split: sum.splits)
  qed
qed

lemma addsBooks_hasSource: "addsBooks Q db (snd (hasSource fs db i))"
  using addsBooks_source [of Q db fs i] by (auto simp: hasSource_def split: prod.splits sum.splits)

lemma addsBooks_saveBinary: "addsBooks Q db (snd (saveBinary fs db request))"
  by (rule addsBooks_same) (rule saveBinary_idbGet)

lemma addsBooks_put: "(\<And>i. recordKey BOOKS_STORE v = [i] \<Longrightarrow> Q i v) \<Longrightarrow> addsBooks Q db (idbPut BOOKS_STORE v db)"
  by (auto simp: addsBooks_def idbGet_idbWrite)

text \<open>The only publication that a synchronized one adds is itself, and only when its bytes have its identity.\<close>

lemma addsBooks_storeSynced:
  "addsBooks (\<lambda>i v. i = br_id book \<and> v = bookVal book \<and> fp (src_content source) = i) db (snd (storeSyncedBook fp fs db book source))"
  (is "addsBooks ?Q db (snd ?run)")
proof -
  let ?i = "br_id book"
  obtain ex db1 where g1: "getBook db ?i = (ex, db1)" by fastforce
  obtain rd db2 where g2: "(if ex = None then (False, db1) else hasSource fs db1 ?i) = (rd, db2)" by fastforce
  let ?req = "writeRequest book (src_content source) (br_fileName book) (br_mediaType book)"
  obtain st db3 where g3: "saveBinary fs db2 ?req = (st, db3)" by fastforce
  have 1: "addsBooks ?Q db db1" using addsBooks_read [OF onlyQuarantines_getBook [of db ?i]] by (simp add: g1)
  have 2: "addsBooks ?Q db db2" using g2 addsBooks_trans [OF 1 addsBooks_hasSource [of ?Q db1 fs ?i]] 1 by (auto split: if_splits)
  have 3: "addsBooks ?Q db db3" using addsBooks_trans [OF 2 addsBooks_saveBinary [of ?Q db2 fs ?req]] by (simp add: g3)
  note eq = storeSyncedBook_def [of fp fs db book source, unfolded Let_def g1 prod.case g2 g3]
  have get3: "idbGet db3 BOOKS_STORE [i] = Some v \<Longrightarrow> idbGet db BOOKS_STORE [i] = Some v \<or> ?Q i v" for i v
    using 3 by (simp add: addsBooks_def)
  have key: "recordKey BOOKS_STORE (bookVal book) = [?i]" by (simp add: recordKey_def keyPath_def strOf_def)
  show ?thesis
    using 2 get3 unfolding eq
    by (cases st) (auto simp: addsBooks_def idbGet_idbWrite key split: sum.splits if_splits)
qed

section \<open>What a pull adds\<close>

abbreviation addsB :: "(string \<Rightarrow> jsval \<Rightarrow> bool) \<Rightarrow> ('r, 'a) bookCall \<Rightarrow> bool" where
  "addsB Q m \<equiv> callKeeps (\<lambda>st st'. addsBooks Q (bk_db st) (bk_db st')) m"

interpretation books: call_relation "\<lambda>st st'. addsBooks Q (bk_db st) (bk_db st')" for Q
  by unfold_locales (auto intro: addsBooks_trans)

lemma addsB_primitives:
  "addsB Q (liftRemote call)" "addsB Q (isExcludedB i)" "addsB Q (excludeB env i)" "addsB Q (includeB env i)" "addsB Q (getBookB i)"
  unfolding callKeeps_def
  using addsBooks_read [OF onlyQuarantines_getBook]
  by (auto simp: liftRemote_def isExcludedB_def excludeB_def includeB_def getBookB_def split_beta split: sum.splits prod.splits)

lemmas addsB_intros = books.keeps_bind books.keeps_then books.keeps_pure addsB_primitives

lemma addsB_discard: "addsB Q (discardDeletedObject env path)" "addsB Q (discardDeletedObjects env t p)"
proof -
  show 1: "addsB Q (discardDeletedObject env path)" for path
    unfolding discardDeletedObject_def by (auto intro!: addsB_intros split: option.splits)
  show "addsB Q (discardDeletedObjects env t p)"
    unfolding discardDeletedObjects_def Let_def by (auto intro!: addsB_intros books.keeps_all 1)
qed

lemma addsB_pullTombstone: "addsB Q (pullTombstone env intents t)"
  unfolding pullTombstone_def Let_def by (auto intro!: addsB_intros addsB_discard)

lemma matchesManifest_true:
  "matchesManifest env blob m st = (Inr True, st') \<Longrightarrow> blobSize blob = bsm_size m \<and> env_sha256 env blob = bsm_sha256 m"
  by (auto simp: matchesManifest_def thenB_def bindB_def returnB_def checkAbort_def split: if_splits)

lemma addsB_matches: "addsB Q (matchesManifest env blob m)"
  unfolding matchesManifest_def by (auto intro!: addsB_intros)

text \<open>A record whose bytes were downloaded from the place the manifest names, and are those the manifest describes.\<close>

definition verifiedBook :: "'r BookEnv \<Rightarrow> BookSyncManifest \<Rightarrow> string \<Rightarrow> jsval \<Rightarrow> bool" where
  "verifiedBook env m i v \<longleftrightarrow>
     i = bsm_bookId m \<and> v = bookVal (manifestBookRecord m) \<and>
     (\<exists>blob r r'. tr_downloadObject (env_transport env) (bsm_objectPath m) r = (Inr blob, r') \<and>
        blobSize blob = bsm_size m \<and> env_sha256 env blob = bsm_sha256 m \<and> env_fingerprinter env blob = i)"

lemma addsB_store:
  assumes "liftRemote (tr_downloadObject (env_transport env) (bsm_objectPath m)) st = (Inr blob, st')"
    and "matchesManifest env blob m st1 = (Inr True, st1')"
  shows "addsB (verifiedBook env m) (storeSyncedBookB env m blob)"
  unfolding callKeeps_def
proof
  fix s :: "'a BookState"
  let ?src = "\<lparr>src_name = bsm_fileName m, src_mediaType = bsm_mediaType m, src_size = blobSize blob, src_content = blob\<rparr>"
  let ?run = "storeSyncedBook (env_fingerprinter env) (env_fs env) (bk_db s) (manifestBookRecord m) ?src"
  have db: "bk_db (snd (storeSyncedBookB env m blob s)) = snd ?run"
    by (simp add: storeSyncedBookB_def split: prod.splits sum.splits)
  obtain r r' where "tr_downloadObject (env_transport env) (bsm_objectPath m) r = (Inr blob, r')"
    using assms(1) by (auto simp: liftRemote_def split: prod.splits sum.splits)
  then have "verifiedBook env m i v" if "i = br_id (manifestBookRecord m) \<and> v = bookVal (manifestBookRecord m) \<and> env_fingerprinter env blob = i" for i v
    using that matchesManifest_true [OF assms(2)] by (auto simp: verifiedBook_def manifestBookRecord_def)
  then show "addsBooks (verifiedBook env m) (bk_db s) (bk_db (snd (storeSyncedBookB env m blob s)))"
    using addsBooks_storeSynced [of "manifestBookRecord m" "env_fingerprinter env" ?src "bk_db s" "env_fs env"]
    unfolding db by (fastforce simp: addsBooks_def)
qed

lemma addsB_pullManifest: "addsB (verifiedBook env m) (pullManifest env m)"
  unfolding pullManifest_def
  by (intro addsB_intros addsB_matches)
    (auto intro!: addsB_intros addsB_matches, rule addsB_store, assumption+)

text \<open>The publications of the library after a call that were not there before.\<close>

definition newBooks :: "LibraryDb \<Rightarrow> LibraryDb \<Rightarrow> (string \<times> jsval) set" where
  "newBooks db db' = {(i, v). idbGet db' BOOKS_STORE [i] = Some v \<and> idbGet db BOOKS_STORE [i] \<noteq> Some v}"

lemma addsB_newBooks: "addsB Q m \<Longrightarrow> newBooks (bk_db st) (bk_db (snd (m st))) \<subseteq> {(i, v). Q i v}"
  by (auto simp: callKeeps_def addsBooks_def newBooks_def)

lemma addsB_mono: "addsB Q m \<Longrightarrow> (\<And>i v. Q i v \<Longrightarrow> R i v) \<Longrightarrow> addsB R m"
  unfolding callKeeps_def addsBooks_def by blast

definition fromManifest :: "'r BookEnv \<Rightarrow> RemoteDocument \<Rightarrow> string \<Rightarrow> jsval \<Rightarrow> bool" where
  "fromManifest env document i v \<longleftrightarrow>
     (\<exists>d. parseJson (rd_content document) = Some d \<and> isBookSyncManifest (env_nfkc env) d \<and>
        manifestPathOf (env_nfkc env) (manifestOf d) = Inr (rd_path document) \<and> verifiedBook env (manifestOf d) i v)"

lemma liftPath_ok: "liftPath r st = (Inr a, st') \<Longrightarrow> r = Inr a"
  by (auto simp: liftPath_def failB_def returnB_def split: sum.splits)

lemma addsB_pullDocument: "addsB (fromManifest env document) (pullDocument env intents document)"
proof (cases "parseBookSyncDocument (env_nfkc env) document")
  case None
  then show ?thesis unfolding pullDocument_def Let_def by (auto intro!: addsB_intros)
next
  case (Some d)
  then have d: "parseJson (rd_content document) = Some d" "isBookSyncDocument (env_nfkc env) d"
    by (auto simp: parseBookSyncDocument_def split: option.splits if_splits)
  show ?thesis
  proof (cases "asTombstone (env_nfkc env) (Some d)")
    case None
    then have man: "isBookSyncManifest (env_nfkc env) d" using d(2) by (auto simp: asTombstone_def isBookSyncDocument_def split: if_splits)
    have store: "addsB (fromManifest env document) (pullManifest env (manifestOf d))"
      if "manifestPathOf (env_nfkc env) (manifestOf d) = Inr (rd_path document)"
      using addsB_pullManifest by (rule addsB_mono) (use d(1) man that in \<open>auto simp: fromManifest_def\<close>)
    show ?thesis unfolding pullDocument_def Let_def Some None option.case
      by (intro addsB_intros) (auto dest!: liftPath_ok intro: store books.keeps_pure)
  next
    case (Some t)
    show ?thesis unfolding pullDocument_def Let_def Some \<open>parseBookSyncDocument _ _ = _\<close> option.case
      by (auto intro!: addsB_intros addsB_pullTombstone)
  qed
qed

text \<open>C5. A pull adds a publication to the library only for a listed document that is a valid manifest stored at the path of that
  manifest, only with the metadata of the manifest and under its identifier, and only after bytes were downloaded from the
  object path of the manifest that have its size and its digest and whose fingerprint is the identifier. Whatever the destination
  holds, no other publication appears.\<close>

theorem pulled_books_verified:
  "newBooks (bk_db st) (bk_db (snd (pullFromSnapshot env deletions books pending st))) \<subseteq>
     {(i, v). \<exists>document \<in> set (deletions @ books). \<exists>d.
        parseJson (rd_content document) = Some d \<and> isBookSyncManifest (env_nfkc env) d \<and>
        manifestPathOf (env_nfkc env) (manifestOf d) = Inr (rd_path document) \<and>
        i = bsm_bookId (manifestOf d) \<and> v = bookVal (manifestBookRecord (manifestOf d)) \<and>
        (\<exists>blob r r'. tr_downloadObject (env_transport env) (bsm_objectPath (manifestOf d)) r = (Inr blob, r') \<and>
           blobSize blob = bsm_size (manifestOf d) \<and> env_sha256 env blob = bsm_sha256 (manifestOf d) \<and>
           env_fingerprinter env blob = i)}"
proof -
  let ?Q = "\<lambda>i v. \<exists>document \<in> set (deletions @ books). fromManifest env document i v"
  have "addsB ?Q (pullFromSnapshot env deletions books pending)"
    unfolding pullFromSnapshot_def Let_def
    by (intro books.keeps_fold addsB_intros addsB_mono [OF addsB_pullDocument]) blast
  from addsB_newBooks [OF this, of st] show ?thesis unfolding fromManifest_def verifiedBook_def by blast
qed

section \<open>From one device to another\<close>

lemma manifestOf_manifestVal [simp]: "manifestOf (manifestVal m) = m"
proof -
  have o: "optOf strOf (withDefault JUndef JStr x) = x" for x by (cases x) (simp_all add: optOf_def strOf_def)
  have f: "formatOf (formatVal f) = f" for f by (cases f) (simp_all add: formatOf_def formatString_def)
  show ?thesis by (cases m) (simp add: manifestOf_def o f strOf_def numOf_def arrOf_def stringsVal_def o_def)
qed

lemma manifestVal_not_tombstone [simp]: "\<not> isBookSyncDeletionTombstone nfkc (manifestVal m)"
  by (simp add: isBookSyncDeletionTombstone_def manifestVal_def)

lemma plain_manifestVal: "numberReadable (bsm_size m) \<Longrightarrow> plainJson (manifestVal m)"
  using plain_int [of 2] by (auto simp: manifestVal_def optional_def MAX_SAFE_INTEGER_def split: option.splits)

lemma published_parsed:
  assumes "rd_content document = serializeBookManifest m" and "isBookSyncManifest nfkc (manifestVal m)" and "numberReadable (bsm_size m)"
  shows "parseBookSyncDocument nfkc document = Some (manifestVal m)"
proof -
  have "spaces [CHR 0x0A]" by (simp add: isJsonSpace_def)
  then have "parseJson (rd_content document) = Some (manifestVal m)"
    unfolding assms(1) serializeBookManifest_def by (rule parseJson_pretty [OF plain_manifestVal [OF assms(3)]])
  then show ?thesis using assms(2) by (simp add: parseBookSyncDocument_def isBookSyncDocument_def)
qed

lemma saveBinary_valid: "matchesSha256 ''sha256:'' (pw_bookId request) \<Longrightarrow> \<exists>binary db'. saveBinary fs db request = (Inr binary, db')"
  by (simp add: saveBinary_def writeOpfs_def publicationFileName_def digestOf_def split: sum.splits option.splits)

text \<open>A new publication with the right bytes is stored.\<close>

lemma storeSynced_new:
  assumes "isBookRecord (bookVal book)" and "idbGet db BOOKS_STORE [br_id book] = None"
    and "fp (src_content source) = br_id book" and "blobSize (src_content source) = br_size book"
    and "detectPublicationFormat (br_fileName book) (br_mediaType book) = Some (br_format book)"
  shows "\<exists>db'. storeSyncedBook fp fs db book source = (Inr (), db') \<and> getBook db' (br_id book) = (Some (bookVal book), db')"
proof -
  have id: "matchesSha256 ''sha256:'' (br_id book)" using assms(1) by (simp add: isBookRecord_iff)
  have miss: "getBook db (br_id book) = (None, db)" using assms(2) by (simp add: getBook_def readValidated_def)
  let ?req = "writeRequest book (src_content source) (br_fileName book) (br_mediaType book)"
  obtain binary db3 where save: "saveBinary fs db ?req = (Inr binary, db3)"
    using saveBinary_valid [of ?req fs db] id by (auto simp: writeRequest_def)
  obtain b where b: "logicalBookFromVariant book (br_importedAt book) = Inr b"
    using id by (auto simp: logicalBookFromVariant_def singletonLogicalBookId_def)
  define db' where "db' = idbPut BINARIES_STORE (binaryVal binary) (idbPut LOGICAL_BOOKS_STORE (logicalBookVal b) (idbPut BOOKS_STORE (bookVal book) db3))"
  have key: "recordKey BOOKS_STORE (bookVal book) = [br_id book]" by (simp add: recordKey_def keyPath_def strOf_def)
  have "storeSyncedBook fp fs db book source = (Inr (), db')"
    using assms by (simp add: storeSyncedBook_def miss save b db'_def)
  moreover have "getBook db' (br_id book) = (Some (bookVal book), db')"
    by (rule getBook_unchanged) (use assms(1) in \<open>simp_all add: db'_def idbGet_idbWrite key\<close>)
  ultimately show ?thesis by blast
qed

lemma loadExclusions_twice [simp]: "loadExclusions (loadExclusions s) = loadExclusions s"
  by (simp add: loadExclusions_def)

text \<open>C11. What one device publishes another one receives: for a valid publication whose file name and media type belong to its format,
  when the destination holds the manifest the publishing device creates for it, as that device serializes it and at the path of
  the manifest, and an object with bytes that have the size and digest of the publication, a device that has neither the
  publication nor excluded it pulls it when it reads this document, and then has the same record, less the two fields
  that are local to a device.\<close>

theorem published_book_pulled:
  assumes book: "isBookRecord (bookVal b)" "br_mediaType b = expectedMediaType (br_format b)"
      "detectPublicationFormat (br_fileName b) (br_mediaType b) = Some (br_format b)"
    and created: "createBookSyncManifest (env_nfkc env) b updatedAt appVersion = Inr m" "isIsoString updatedAt" "appVersion \<noteq> []" "length appVersion \<le> 1024"
    and document: "manifestPathOf (env_nfkc env) m = Inr (rd_path document)" "rd_content document = serializeBookManifest m"
    and object: "\<And>r. tr_headObject (env_transport env) (bsm_objectPath m) r = (Inr (Some \<lparr>ro_path = bsm_objectPath m, ro_revision = rev', ro_size = bsm_size m, ro_sha256 = bsm_sha256 m\<rparr>), r)"
      "\<And>r. tr_downloadObject (env_transport env) (bsm_objectPath m) r = (Inr blob, r)"
    and bytes: "blobSize blob = br_size b" "env_sha256 env blob = bsm_sha256 m" "env_fingerprinter env blob = br_id b"
    and local: "\<And>s. \<not> env_aborted env s" "idbGet (bk_db st) BOOKS_STORE [br_id b] = None" "\<not> fst (isExcluded (br_id b) (bk_exclusions st))"
  shows "\<exists>st'. pullDocument env intents document st = (Inr Pulled, st') \<and>
    fst (getBook (bk_db st') (br_id b)) = Some (bookVal (b\<lparr>br_lastOpenedAt := None, br_coverState := None\<rparr>))"
proof -
  let ?b = "b\<lparr>br_lastOpenedAt := None, br_coverState := None\<rparr>"
  have m: "isBookSyncManifest (env_nfkc env) (manifestVal m)" "manifestBookRecord m = ?b"
    using manifest_roundtrip [OF book(1,2) created(2-4), of "env_nfkc env"] created(1) by auto
  have f: "bsm_bookId m = br_id b" "bsm_size m = br_size b"
    using arg_cong [OF m(2), of br_id] arg_cong [OF m(2), of br_size] by (simp_all add: manifestBookRecord_def)
  have valid: "isBookRecord (bookVal ?b)" using book(1) by (simp add: isBookRecord_iff)
  then have "numberReadable (bsm_size m)" unfolding f(2) by (auto simp: isBookRecord_iff intro!: numberReadable_safe)
  then have parsed: "parseBookSyncDocument (env_nfkc env) document = Some (manifestVal m)"
    by (rule published_parsed [OF document(2) m(1)])
  let ?src = "\<lparr>src_name = bsm_fileName m, src_mediaType = bsm_mediaType m, src_size = br_size b, src_content = blob\<rparr>"
  obtain db' where store: "storeSyncedBook (env_fingerprinter env) (env_fs env) (bk_db st) ?b ?src = (Inr (), db')"
    "getBook db' (br_id b) = (Some (bookVal ?b), db')"
    using storeSynced_new [of ?b "bk_db st" "env_fingerprinter env" ?src "env_fs env"] valid local(2) bytes book(3) by auto
  have miss: "getBook (bk_db st) (br_id b) = (None, bk_db st)" using local(2) by (simp add: getBook_def readValidated_def)
  have "br_id b \<notin> set (ex_memory (loadExclusions (bk_exclusions st)))" using local(3) by (simp add: isExcluded_def Let_def)
  note steps = thenB_def bindB_def returnB_def liftRemote_def liftPath_def checkAbort_def isExcludedB_def isExcluded_def getBookB_def matchesManifest_def
    storeSyncedBookB_def
  have "pullDocument env intents document st = (Inr Pulled, st\<lparr>bk_exclusions := loadExclusions (bk_exclusions st), bk_db := db'\<rparr>)"
    using \<open>_ \<notin> _\<close> by (simp add: pullDocument_def pullManifest_def steps parsed asTombstone_def document f m(2) object bytes local(1) miss store(1) sameObject_def Let_def)
  then show ?thesis using store(2) by simp
qed

definition smallBook :: BookRecord where
  "smallBook = sampleBook\<lparr>br_size := Fin 3\<rparr>"

definition smallManifest :: BookSyncManifest where
  "smallManifest = (case createBookSyncManifest id smallBook ''2024-05-02T10:00:00.000Z'' ''1.0.0'' of Inr m \<Rightarrow> m)"

text \<open>A destination that always gives the same answers.\<close>

definition fixedRemote :: "(string \<Rightarrow> RemoteDocument option) \<Rightarrow> unit LibraryTransport" where
  "fixedRemote documents = \<lparr>tr_list = (\<lambda>r _. (Inr [], r)), tr_read = (\<lambda>r path. (Inr (documents path), r)),
     tr_write = (\<lambda>r path content _. (Inr \<lparr>rd_path = path, rd_content = content, rd_revision = ''2''\<rparr>, r)),
     tr_destinationRevision = None, tr_listEntries = None, tr_deleteEntries = None, tr_deleteEntry = None,
     tr_deleteDocument = Some (\<lambda>_ _ r. (Inl TransportFailure, r)),
     tr_headObject = (\<lambda>path r. (Inr (Some \<lparr>ro_path = path, ro_revision = ''1'', ro_size = Fin 3, ro_sha256 = sampleHash\<rparr>), r)),
     tr_downloadObject = (\<lambda>_ r. (Inr ''abc'', r)), tr_uploadObject = (\<lambda>_ r. (Inl TransportFailure, r)), tr_deleteObject = None\<rparr>"

definition fixedEnv :: "(string \<Rightarrow> RemoteDocument option) \<Rightarrow> unit BookEnv" where
  "fixedEnv documents = \<lparr>env_transport = fixedRemote documents, env_localeCompare = codeUnitCompare, env_nfkc = id, env_sha256 = (\<lambda>_. sampleHash),
     env_fingerprinter = (\<lambda>_. ''sha256:'' @ sampleHash), env_fs = \<lparr>fs_directory = False, fs_written = (\<lambda>_ _. None), fs_readable = (\<lambda>_. False)\<rparr>,
     env_accepts = (\<lambda>_. True), env_now = ''2024-05-05T10:00:00.000Z'', env_aborted = (\<lambda>_. False), env_maxConflictRetries = 3\<rparr>"

definition emptyBookState :: "unit BookState" where
  "emptyBookState = \<lparr>bk_remote = (), bk_db = \<lparr>db_stores = (\<lambda>_. []), db_quarantine = [], db_files = [], db_now = ''2024-05-05T10:00:00.000Z''\<rparr>,
     bk_journal = \<lparr>j_operations = [], j_revisions = []\<rparr>, bk_exclusions = newExclusions (Some None), bk_mutated = False\<rparr>"

lemma small_created: "createBookSyncManifest id smallBook ''2024-05-02T10:00:00.000Z'' ''1.0.0'' = Inr smallManifest"
proof -
  have "\<not> isl (createBookSyncManifest id smallBook ''2024-05-02T10:00:00.000Z'' ''1.0.0'')" by code_simp
  then show ?thesis by (auto simp: smallManifest_def split: sum.splits)
qed

theorem published_book_pulled_witness:
  "\<exists>path st'. pullDocument (fixedEnv (\<lambda>_. None)) [] \<lparr>rd_path = path, rd_content = serializeBookManifest smallManifest, rd_revision = ''1''\<rparr> emptyBookState =
     (Inr Pulled, st') \<and> fst (getBook (bk_db st') (br_id smallBook)) = Some (bookVal smallBook)"
proof -
  have book: "isBookRecord (bookVal smallBook)" "br_mediaType smallBook = expectedMediaType (br_format smallBook)"
    "detectPublicationFormat (br_fileName smallBook) (br_mediaType smallBook) = Some (br_format smallBook)" "isIsoString ''2024-05-02T10:00:00.000Z''"
    by code_simp+
  have "\<not> isl (manifestPathOf id smallManifest)" by code_simp
  then obtain path where path: "manifestPathOf id smallManifest = Inr path" by (cases "manifestPathOf id smallManifest") auto
  have m: "bsm_size smallManifest = Fin 3" "bsm_sha256 smallManifest = sampleHash" by code_simp+
  have env: "env_nfkc (fixedEnv d) = id" "env_transport (fixedEnv d) = fixedRemote d" "env_sha256 (fixedEnv d) x = sampleHash"
    "env_fingerprinter (fixedEnv d) x = ''sha256:'' @ sampleHash" "\<not> env_aborted (fixedEnv d) s" for d x s by (simp_all add: fixedEnv_def)
  have local: "idbGet (bk_db emptyBookState) BOOKS_STORE [br_id smallBook] = None" "\<not> fst (isExcluded (br_id smallBook) (bk_exclusions emptyBookState))"
    by code_simp+
  have small: "br_size smallBook = Fin 3" "br_id smallBook = ''sha256:'' @ sampleHash" by (simp_all add: smallBook_def sampleBook_def)
  have same: "smallBook\<lparr>br_lastOpenedAt := None, br_coverState := None\<rparr> = smallBook" by (simp add: smallBook_def sampleBook_def)
  have "\<exists>st'. pullDocument (fixedEnv (\<lambda>_. None)) [] \<lparr>rd_path = path, rd_content = serializeBookManifest smallManifest, rd_revision = ''1''\<rparr> emptyBookState =
     (Inr Pulled, st') \<and> fst (getBook (bk_db st') (br_id smallBook)) = Some (bookVal (smallBook\<lparr>br_lastOpenedAt := None, br_coverState := None\<rparr>))"
    by (rule published_book_pulled [where updatedAt = "''2024-05-02T10:00:00.000Z''" and appVersion = "''1.0.0''" and m = smallManifest and blob = "''abc''" and rev' = "''1''"])
      (rule book local | simp add: env small_created path fixedRemote_def m blobSize_def small)+
  then show ?thesis unfolding same by blast
qed

section \<open>A restored publication\<close>

interpretation exclusions: call_relation "\<lambda>st st'. bk_exclusions st' = bk_exclusions st"
  by unfold_locales simp_all

lemma keeps_exclusions: "callKeeps (\<lambda>st st'. bk_exclusions st' = bk_exclusions st) (liftRemote call)"
  by (simp add: callKeeps_def liftRemote_def split: prod.splits sum.splits)

lemma discard_keeps_exclusions: "bk_exclusions (snd (discardDeletedObjects env t p st)) = bk_exclusions st"
proof -
  note intros = exclusions.keeps_bind exclusions.keeps_then exclusions.keeps_pure exclusions.keeps_all keeps_exclusions
  have "callKeeps (\<lambda>st st'. bk_exclusions st' = bk_exclusions st) (discardDeletedObject env path)" for path
    unfolding discardDeletedObject_def by (auto intro!: intros split: option.splits)
  then have "callKeeps (\<lambda>st st'. bk_exclusions st' = bk_exclusions st) (discardDeletedObjects env t p)"
    unfolding discardDeletedObjects_def Let_def by (auto intro!: intros)
  then show ?thesis by (simp add: callKeeps_def)
qed

lemma excludes_after:
  assumes "matchesSha256 ''sha256:'' (bdt_bookId t)" and "map_of intents (bdt_bookId t) = None"
  shows "fst (isExcluded (bdt_bookId t) (bk_exclusions (snd (pullTombstone env intents t st))))"
proof -
  obtain st1 where ex: "excludeB env (bdt_bookId t) (st\<lparr>bk_exclusions := loadExclusions (bk_exclusions st)\<rparr>) = (Inr (), st1)"
    "fst (isExcluded (bdt_bookId t) (bk_exclusions st1))"
    using assms(1) by (auto simp: excludeB_def exclude_book_def isExcluded_def Let_def persistExclusions_def loadExclusions_def)
  obtain r st2 where d: "discardDeletedObjects env t (Some (bdt_objectPath t)) st1 = (r, st2)" by fastforce
  have "bk_exclusions st2 = bk_exclusions st1" using discard_keeps_exclusions [of env t "Some (bdt_objectPath t)" st1] d by simp
  moreover have "bk_exclusions (snd (pullTombstone env intents t st)) = bk_exclusions st2"
    using assms(2) ex(1) d by (cases r) (simp_all add: pullTombstone_def thenB_def bindB_def isExcludedB_def isExcluded_def returnB_def Let_def)
  ultimately show ?thesis using ex(2) by simp
qed

text \<open>C39. The restoration of a publication is forgotten when the tombstone cannot be removed: with a tombstone older than the pending
  upload, the object in place and the manifest written, the operation is acknowledged before the tombstone is deleted; when that
  deletion fails the push fails, but the operation has left the journal, and whenever the unchanged tombstone is pulled again,
  with no pending upload for the publication any more, the publication is excluded from synchronization.\<close>

theorem failed_restore_forgotten:
  assumes env: "\<And>s. \<not> env_aborted env s" and tr: "tr = env_transport env" and m: "m = bw_manifest pending"
    and paths: "bookDeletionPath (bsm_bookId m) = Inr (rd_path gone)" "manifestPathOf (env_nfkc env) m = Inr path"
    and tombstone: "\<And>r. tr_read tr r (rd_path gone) = (Inr (Some gone), r)"
      "asTombstone (env_nfkc env) (parseBookSyncDocument (env_nfkc env) gone) = Some t" "bdt_bookId t = bsm_bookId m" "isNewerThanDeletion pending t"
    and remote: "\<And>r. tr_read tr r path = (Inr None, r)"
      "\<And>r. tr_headObject tr (bsm_objectPath m) r = (Inr (Some object), r)" "sameObject object m"
      "\<And>r. tr_write tr r path (serializeBookManifest m) None = (Inr written, r)"
      "tr_deleteDocument tr = Some delete" "\<And>r. delete (rd_path gone) (Some (rd_revision gone)) r = (Inl e, r)"
    and local: "getBookSource (env_fs env) (bk_db st) (bsm_bookId m) = (Inr (Some (name, mediaType, blob)), db')"
      "blobSize blob = bsm_size m" "env_sha256 env blob = bsm_sha256 m"
  shows "\<exists>st'. pushBook env pending st = (Inl (BookRemote e), st') \<and>
    bk_journal st' = acknowledge (bk_journal st) (bw_operationIds pending) \<and>
    (\<forall>intents later. map_of intents (bsm_bookId m) = None \<longrightarrow>
       fst (isExcluded (bsm_bookId m) (bk_exclusions (snd (pullDocument env intents gone later)))))"
proof -
  note steps = thenB_def bindB_def returnB_def liftRemote_def liftPath_def checkAbort_def
  note read = readDocument_def steps tr [symmetric] remote(1) tombstone(1)
  let ?st = "st\<lparr>bk_db := db'\<rparr>"
  let ?done = "?st\<lparr>bk_journal := acknowledge (bk_journal st) (bw_operationIds pending)\<rparr>"
  have keep: "discardManifestIfDeleted env pending w s = (Inr False, s)" for w s
    by (simp add: discardManifestIfDeleted_def m [symmetric] paths read tombstone)
  have turn: "pushManifestTurn env pending 0 again ?st = (Inr \<lparr>pu_pushed = True, pu_conflicts = 0, pu_rejected = 0\<rparr>, ?done)" for again
    using env by (simp add: pushManifestTurn_def m [symmetric] paths read writeBookManifest_def catchConflict_def remote(4) keep acknowledgeB_def pushedBook_def)
  then have man: "pushManifest env pending ?st = (Inr \<lparr>pu_pushed = True, pu_conflicts = 0, pu_rejected = 0\<rparr>, ?done)"
    unfolding pushManifest_def by (cases "env_maxConflictRetries env") simp_all
  have content: "pushBookContent env pending (Some gone) st = (Inl (BookRemote e), ?done)"
    using env by (simp add: pushBookContent_def Let_def steps getBookSourceB_def m [symmetric] local matchesManifest_def ensureObject_def tr [symmetric]
        remote man deleteRemoteDocument_def)
  have none: "asTombstone nfkc None = None" for nfkc by (simp add: asTombstone_def)
  have "pushBook env pending st = (Inl (BookRemote e), ?done)"
    using env content by (simp add: pushBook_def Let_def read m [symmetric] paths tombstone none)
  moreover have "fst (isExcluded (bsm_bookId m) (bk_exclusions (snd (pullDocument env intents gone later))))"
    if "map_of intents (bsm_bookId m) = None" for intents later
  proof -
    obtain d where d: "parseBookSyncDocument (env_nfkc env) gone = Some d" "asTombstone (env_nfkc env) (Some d) = Some t"
      using tombstone(2) by (cases "parseBookSyncDocument (env_nfkc env) gone") (auto simp: asTombstone_def)
    have id: "matchesSha256 ''sha256:'' (bdt_bookId t)"
      using paths(1) tombstone(3) by (auto simp: bookDeletionPath_def bookIdSha256_def split: option.splits if_splits)
    have "pullDocument env intents gone later = pullTombstone env intents t later"
      using env d paths(1) tombstone(3) by (simp add: pullDocument_def steps)
    then show ?thesis using excludes_after [OF id, of intents env later] that tombstone(3) by simp
  qed
  ultimately show ?thesis by auto
qed

lemma tombstone_parsed:
  assumes "isBookSyncDeletionTombstone nfkc (tombstoneVal t)" and "rd_content document = serializeTombstone t"
  shows "asTombstone nfkc (parseBookSyncDocument nfkc document) = Some t"
proof -
  have "plainJson (tombstoneVal t)" using plain_int [of 2] by (auto simp: tombstoneVal_def MAX_SAFE_INTEGER_def)
  moreover have "spaces [CHR 0x0A]" by (simp add: isJsonSpace_def)
  ultimately have "parseJson (rd_content document) = Some (tombstoneVal t)"
    unfolding assms(2) serializeTombstone_def by (rule parseJson_pretty)
  moreover have f: "formatOf (formatVal f) = f" for f by (cases f) (simp_all add: formatOf_def formatString_def)
  ultimately show ?thesis using assms(1)
    by (cases t) (simp add: parseBookSyncDocument_def isBookSyncDocument_def asTombstone_def tombstoneOf_def tombstoneVal_def strOf_def)
qed

definition smallTombstone :: BookSyncDeletionTombstone where
  "smallTombstone = \<lparr>bdt_bookId = br_id smallBook, bdt_format = Epub, bdt_fileName = br_fileName smallBook, bdt_objectPath = bsm_objectPath smallManifest,
     bdt_deletedAt = ''2024-05-01T10:00:00.000Z'', bdt_appVersion = ''1.0.0''\<rparr>"

definition smallWrite :: PendingBookWrite where
  "smallWrite = \<lparr>bw_manifest = smallManifest, bw_operationIds = [''operation-1''],
     bw_latest = (syntheticBookOperation smallManifest)\<lparr>op_id := ''operation-1''\<rparr>\<rparr>"

definition smallDocument :: "string \<Rightarrow> RemoteDocument" where
  "smallDocument path = \<lparr>rd_path = path, rd_content = serializeTombstone smallTombstone, rd_revision = ''1''\<rparr>"

definition smallState :: "unit BookState" where
  "smallState = emptyBookState\<lparr>bk_db := idbPut BINARIES_STORE (binaryVal (IndexedDbBytes \<lparr>sb_bookId = br_id smallBook, sb_fileName = br_fileName smallBook,
      sb_mediaType = br_mediaType smallBook, sb_size = Fin 3\<rparr> ''abc'')) (idbPut BOOKS_STORE (bookVal smallBook) (bk_db emptyBookState))\<rparr>"

definition smallDocuments :: "string \<Rightarrow> string \<Rightarrow> RemoteDocument option" where
  "smallDocuments path p = (if p = path then Some (smallDocument path) else None)"

lemma small_tombstone: "isBookSyncDeletionTombstone id (tombstoneVal smallTombstone)" "isNewerThanDeletion smallWrite smallTombstone"
  by code_simp+

lemma small_source:
  "fst (getBookSource \<lparr>fs_directory = False, fs_written = (\<lambda>_ _. None), fs_readable = (\<lambda>_. False)\<rparr> (bk_db smallState) (bsm_bookId smallManifest)) =
     Inr (Some (br_fileName smallBook, br_mediaType smallBook, ''abc''))"
  by code_simp

theorem failed_restore_forgotten_witness:
  "\<exists>path st'. pushBook (fixedEnv (smallDocuments path)) smallWrite smallState = (Inl (BookRemote TransportFailure), st') \<and>
     bk_journal st' = acknowledge (bk_journal smallState) [''operation-1''] \<and>
     fst (isExcluded (br_id smallBook) (bk_exclusions (snd (pullDocument (fixedEnv (smallDocuments path)) [] (smallDocument path) st'))))"
proof -
  have "\<not> isl (bookDeletionPath (bsm_bookId smallManifest))" "\<not> isl (manifestPathOf id smallManifest)"
    "bookDeletionPath (bsm_bookId smallManifest) \<noteq> Inr (projr (manifestPathOf id smallManifest))" by code_simp+
  then obtain path mpath where p: "bookDeletionPath (bsm_bookId smallManifest) = Inr path" "manifestPathOf id smallManifest = Inr mpath" "mpath \<noteq> path"
    by (cases "bookDeletionPath (bsm_bookId smallManifest)"; cases "manifestPathOf id smallManifest") auto
  let ?env = "fixedEnv (smallDocuments path)" and ?tr = "fixedRemote (smallDocuments path)"
  have m: "bsm_size smallManifest = Fin 3" "bsm_sha256 smallManifest = sampleHash" "bsm_bookId smallManifest = br_id smallBook" by code_simp+
  have env: "env_nfkc ?env = id" "env_transport ?env = ?tr" "env_sha256 ?env x = sampleHash" "\<not> env_aborted ?env s"
    "env_fs ?env = \<lparr>fs_directory = False, fs_written = (\<lambda>_ _. None), fs_readable = (\<lambda>_. False)\<rparr>" for x s by (simp_all add: fixedEnv_def)
  obtain db' where src: "getBookSource (env_fs ?env) (bk_db smallState) (bsm_bookId smallManifest) = (Inr (Some (br_fileName smallBook, br_mediaType smallBook, ''abc'')), db')"
    using small_source unfolding env(5) by (metis prod.collapse)
  have t: "asTombstone id (parseBookSyncDocument id (smallDocument path)) = Some smallTombstone"
    by (rule tombstone_parsed [OF small_tombstone(1)]) (simp add: smallDocument_def)
  have w: "bw_manifest smallWrite = smallManifest" by (simp add: smallWrite_def)
  let ?object = "\<lparr>ro_path = bsm_objectPath smallManifest, ro_revision = ''1'', ro_size = Fin 3, ro_sha256 = sampleHash\<rparr>"
  let ?written = "\<lparr>rd_path = mpath, rd_content = serializeBookManifest smallManifest, rd_revision = ''2''\<rparr>"
  have "\<exists>st'. pushBook ?env smallWrite smallState = (Inl (BookRemote TransportFailure), st') \<and>
    bk_journal st' = acknowledge (bk_journal smallState) (bw_operationIds smallWrite) \<and>
    (\<forall>intents later. map_of intents (bsm_bookId smallManifest) = None \<longrightarrow>
       fst (isExcluded (bsm_bookId smallManifest) (bk_exclusions (snd (pullDocument ?env intents (smallDocument path) later)))))"
    by (rule failed_restore_forgotten [where tr = ?tr and t = smallTombstone and path = mpath and object = ?object and written = ?written
          and delete = "\<lambda>_ _ r. (Inl TransportFailure, r)", OF env(4) env(2) [symmetric] w [symmetric] _ _ _ _ _ small_tombstone(2) _ _ _ _ _ _ src])
      (use p t m in \<open>simp_all add: env fixedRemote_def smallDocuments_def smallDocument_def sameObject_def smallTombstone_def blobSize_def\<close>)
  moreover have "bw_operationIds smallWrite = [''operation-1'']" by (simp add: smallWrite_def)
  ultimately show ?thesis unfolding m(3) by (metis map_of.simps(1))
qed

end
