(* ===== verification/Book_Backup.thy ===== *)
theory Book_Backup
  imports Book_Sync Document_Text
begin

text \<open>
  The remote copies of publications: \<open>RemoteBookBackupService\<close> of \<open>libs/sync/core/src/lib/remote-book-backup-service.ts\<close>, on the
  calls of \<open>Book_Sync\<close>. The service lists the copies at the destination, deletes the copies of a publication and leaves a tombstone,
  and removes the copies that belong to no logical book after they were seen unchanged for a grace period. The observations of
  that period are a state of their own; the time in milliseconds is a parameter.
\<close>

section \<open>Listing\<close>

record RemoteBookBackup =
  rbb_manifest :: BookSyncManifest
  rbb_revision :: string

abbreviation backupId :: "RemoteBookBackup \<Rightarrow> string" where
  "backupId backup \<equiv> bsm_bookId (rbb_manifest backup)"

abbreviation backupPath :: "'r BookEnv \<Rightarrow> RemoteBookBackup \<Rightarrow> ManifestError + string" where
  "backupPath env backup \<equiv> manifestPathOf (env_nfkc env) (rbb_manifest backup)"

definition documentManifestPath :: "(string \<Rightarrow> string) \<Rightarrow> jsval \<Rightarrow> ManifestError + string" where
  "documentManifestPath nfkc d = bookManifestPath nfkc (documentBookId d) (formatOf (getProp d ''format'')) (strOf (getProp d ''fileName''))"

definition addBackup :: "'r BookEnv \<Rightarrow> RemoteBookBackup list \<Rightarrow> RemoteDocument \<Rightarrow> ('r, RemoteBookBackup list) bookCall" where
  "addBackup env backups document =
     (if \<not> endsWith (rd_path document) ''/book.json'' then returnB backups
      else case parseBookSyncDocument (env_nfkc env) document of
             None \<Rightarrow> failB BackupProtocolError
           | Some r \<Rightarrow>
               bindB (liftPath (documentManifestPath (env_nfkc env) r)) (\<lambda>path.
                 if rd_path document \<noteq> path then failB BackupProtocolError
                 else returnB (case asManifest (env_nfkc env) (Some r) of
                     None \<Rightarrow> backups | Some m \<Rightarrow> backups @ [\<lparr>rbb_manifest = m, rbb_revision = rd_revision document\<rparr>])))"

definition listBackups :: "'r BookEnv \<Rightarrow> ('r, RemoteBookBackup list) bookCall" where
  "listBackups env =
     bindB (listDocuments env BOOKS_ROOT) (\<lambda>documents.
     bindB (foldB (addBackup env) [] documents) (\<lambda>backups.
       returnB (jsSort (\<lambda>left right. env_localeCompare env (bsm_title (rbb_manifest left)) (bsm_title (rbb_manifest right))) backups)))"

section \<open>Copies that belong to no logical book\<close>

definition LOGICAL_BOOK_STATE_PATH :: string where
  "LOGICAL_BOOK_STATE_PATH = SYNC_ROOT @ ''/logical-books/state.json''"

text \<open>The publications a pending operation protects.\<close>

definition protectedBy :: "(string \<Rightarrow> string) \<Rightarrow> SyncOperation \<Rightarrow> string list" where
  "protectedBy nfkc operation =
     (if op_entity operation = ''book'' \<and> op_operation operation = ''upsert'' then [op_entityId operation] else []) @
     (if op_entity operation = ''logical-book-change'' \<and> isSynchronizedLogicalBookChange nfkc (op_payload operation)
      then let change = changeOf (op_payload operation) in
        filter (\<lambda>i. i \<noteq> []) (concat (map (\<lambda>book. mapValues (lb_variants book)) (chg_resultingBooks change))) @
        concat (map (\<lambda>effect. case effect of UpsertVariant variant _ \<Rightarrow> [br_id variant] | DeleteVariant _ _ \<Rightarrow> []) (orEmpty (chg_variantEffects change)))
      else [])"

definition protectedIds :: "(string \<Rightarrow> string) \<Rightarrow> LogicalBookStateDocument \<Rightarrow> SyncOperation list \<Rightarrow> string list" where
  "protectedIds nfkc state pending = map (\<lambda>entry. br_id (ve_variant entry)) (sd_variants state) @ concat (map (protectedBy nfkc) pending)"

definition listOrphaned :: "'r BookEnv \<Rightarrow> ('r, RemoteBookBackup list) bookCall" where
  "listOrphaned env =
     bindB (readDocument env LOGICAL_BOOK_STATE_PATH) (\<lambda>document.
       case document of
         None \<Rightarrow> returnB []
       | Some d \<Rightarrow>
           (case parseLogicalBookState (env_nfkc env) (env_localeCompare env) (rd_content d) of
              Inl _ \<Rightarrow> failB InvalidLogicalDocument
            | Inr state \<Rightarrow>
                bindB (pendingB env) (\<lambda>pending.
                bindB (listBackups env) (\<lambda>backups.
                  returnB (filter (\<lambda>backup. backupId backup \<notin> set (protectedIds (env_nfkc env) state pending)) backups)))))"

section \<open>Deleting the copies of a publication\<close>

definition acknowledgePendingBookWrites :: "'r BookEnv \<Rightarrow> string \<Rightarrow> ('r, unit) bookCall" where
  "acknowledgePendingBookWrites env bookId =
     bindB (pendingB env) (\<lambda>pending.
       acknowledgeB (map op_id (filter (\<lambda>operation. op_entity operation = ''book'' \<and> op_entityId operation = bookId) pending)))"

definition refreshCatalog :: "'r BookEnv \<Rightarrow> ('r, unit) bookCall" where
  "refreshCatalog env = liftRemote (updateBookSyncCatalog (env_nfkc env) (env_localeCompare env) (env_transport env) (env_maxConflictRetries env) None)"

type_synonym 'r deleteCall = "string \<Rightarrow> string option \<Rightarrow> ('r, unit) remoteCall"

text \<open>The bytes go before the manifest that leads to them.\<close>

definition removeCopy :: "'r BookEnv \<Rightarrow> 'r deleteCall \<Rightarrow> 'r deleteCall \<Rightarrow> string \<Rightarrow> string \<Rightarrow> BookSyncManifest \<Rightarrow> ('r, unit) bookCall" where
  "removeCopy env deleteObject deleteDocument path revision m =
     bindB (liftRemote (tr_headObject (env_transport env) (bsm_objectPath m))) (\<lambda>object.
     thenB (case object of None \<Rightarrow> returnB () | Some found \<Rightarrow> liftRemote (deleteObject (ro_path found) (Some (ro_revision found))))
       (liftRemote (deleteDocument path (Some revision))))"

definition ownManifest :: "'r BookEnv \<Rightarrow> string \<Rightarrow> RemoteDocument \<Rightarrow> ('r, BookSyncManifest) bookCall" where
  "ownManifest env bookId document =
     (case asManifest (env_nfkc env) (parseBookSyncDocument (env_nfkc env) document) of
        None \<Rightarrow> failB BackupProtocolError
      | Some m \<Rightarrow> if bsm_bookId m \<noteq> bookId then failB BackupProtocolError else returnB m)"

definition ownTombstone :: "'r BookEnv \<Rightarrow> string \<Rightarrow> RemoteDocument \<Rightarrow> ('r, BookSyncDeletionTombstone) bookCall" where
  "ownTombstone env bookId document =
     (case asTombstone (env_nfkc env) (parseBookSyncDocument (env_nfkc env) document) of
        None \<Rightarrow> failB BackupProtocolError
      | Some t \<Rightarrow> if bdt_bookId t \<noteq> bookId then failB BackupProtocolError else returnB t)"

definition removeExtra :: "'r BookEnv \<Rightarrow> 'r deleteCall \<Rightarrow> 'r deleteCall \<Rightarrow> string \<Rightarrow> unit \<Rightarrow> RemoteBookBackup \<Rightarrow> ('r, unit) bookCall" where
  "removeExtra env deleteObject deleteDocument bookId _ extra =
     bindB (liftPath (backupPath env extra)) (\<lambda>path.
     bindB (readDocument env path) (\<lambda>current.
       case current of
         None \<Rightarrow> returnB ()
       | Some document \<Rightarrow>
           bindB (ownManifest env bookId document) (\<lambda>m. removeCopy env deleteObject deleteDocument path (rd_revision document) m)))"

text \<open>The tombstone is written when it is not there, or there with another text.\<close>

definition commitTombstone :: "'r BookEnv \<Rightarrow> string \<Rightarrow> BookSyncDeletionTombstone \<Rightarrow> ('r, unit) bookCall" where
  "commitTombstone env bookId tombstone =
     bindB (liftPath (bookDeletionPath bookId)) (\<lambda>path.
     bindB (readDocument env path) (\<lambda>current.
     thenB (case current of None \<Rightarrow> returnB () | Some document \<Rightarrow> thenB (ownTombstone env bookId document) (returnB ()))
     (thenB (if map_option rd_content current = Some (serializeTombstone tombstone) then returnB ()
        else thenB (liftRemote (\<lambda>r. tr_write (env_transport env) r path (serializeTombstone tombstone) (map_option rd_revision current))) (returnB ()))
       (setMutated True))))"

definition deleteBackupTurn ::
  "'r BookEnv \<Rightarrow> 'r deleteCall \<Rightarrow> 'r deleteCall \<Rightarrow> string \<Rightarrow> RemoteBookBackup list \<Rightarrow> BookSyncDeletionTombstone \<Rightarrow> nat \<Rightarrow>
     ('r, unit) bookCall option \<Rightarrow> ('r, unit) bookCall" where
  "deleteBackupTurn env deleteObject deleteDocument bookId matching tombstone _ again =
     bindB (liftPath (case matching of [] \<Rightarrow> tombstoneManifestPath (env_nfkc env) tombstone | backup # _ \<Rightarrow> backupPath env backup)) (\<lambda>manifestPath.
     bindB (readDocument env manifestPath) (\<lambda>current.
     bindB (case current of None \<Rightarrow> returnB None | Some document \<Rightarrow>
         bindB (ownManifest env bookId document) (\<lambda>m. returnB (Some (m, rd_revision document)))) (\<lambda>found.
       catchConflict again
         (thenB (commitTombstone env bookId tombstone)
         (thenB (foldB (removeExtra env deleteObject deleteDocument bookId) () (tl matching))
         (thenB (case found of None \<Rightarrow> returnB () | Some (m, revision) \<Rightarrow> removeCopy env deleteObject deleteDocument manifestPath revision m)
         (bindB (liftRemote (tr_headObject (env_transport env) (bdt_objectPath tombstone))) (\<lambda>object.
            case object of
              None \<Rightarrow> returnB ()
            | Some bytes \<Rightarrow> liftRemote (deleteObject (bdt_objectPath tombstone) (Some (ro_revision bytes)))))))))))"

text \<open>
  When it fails before the tombstone is at the destination, the exclusion is taken back. \<open>bk_mutated\<close> is the local variable
  \<open>tombstoneCommitted\<close> here.
\<close>

definition restoringExclusion :: "'r BookEnv \<Rightarrow> string \<Rightarrow> bool \<Rightarrow> ('r, 'a) bookCall \<Rightarrow> ('r, 'a) bookCall" where
  "restoringExclusion env bookId wasExcluded m st =
     (case m st of
        (Inl e, st') \<Rightarrow> if \<not> wasExcluded \<and> \<not> bk_mutated st' then thenB (includeB env bookId) (failB e) st' else (Inl e, st')
      | (Inr a, st') \<Rightarrow> (Inr a, st'))"

definition deleteMatching ::
  "'r BookEnv \<Rightarrow> 'r deleteCall \<Rightarrow> 'r deleteCall \<Rightarrow> string \<Rightarrow> RemoteBookBackup list \<Rightarrow> bool \<Rightarrow> ('r, BookSyncDeletionTombstone option) bookCall" where
  "deleteMatching env deleteObject deleteDocument bookId matching refresh =
     bindB (liftPath (bookDeletionPath bookId)) (\<lambda>deletionPath.
     bindB (readDocument env deletionPath) (\<lambda>existing.
     bindB (case existing of None \<Rightarrow> returnB None | Some document \<Rightarrow> bindB (ownTombstone env bookId document) (\<lambda>t. returnB (Some t))) (\<lambda>existingTombstone.
       if matching = [] \<and> existingTombstone = None then thenB (acknowledgePendingBookWrites env bookId) (returnB None)
       else
         bindB (case existingTombstone of Some t \<Rightarrow> returnB t | None \<Rightarrow> liftPath (tombstoneFor env (rbb_manifest (hd matching)) (env_now env))) (\<lambda>tombstone.
         thenB (retrying (deleteBackupTurn env deleteObject deleteDocument bookId matching tombstone) (env_maxConflictRetries env) 0)
         (thenB (acknowledgePendingBookWrites env bookId)
         (thenB (if refresh then refreshCatalog env else returnB ()) (returnB (Some tombstone))))))))"

definition deleteBackupFromInventory ::
  "'r BookEnv \<Rightarrow> string \<Rightarrow> RemoteBookBackup list \<Rightarrow> bool \<Rightarrow> ('r, BookSyncDeletionTombstone option) bookCall" where
  "deleteBackupFromInventory env bookId backups refresh =
     (case (tr_deleteObject (env_transport env), tr_deleteDocument (env_transport env)) of
        (Some deleteObject, Some deleteDocument) \<Rightarrow>
          bindB (isExcludedB bookId) (\<lambda>wasExcluded.
          thenB (excludeB env bookId)
          (thenB (setMutated False)
            (restoringExclusion env bookId wasExcluded
              (deleteMatching env deleteObject deleteDocument bookId (filter (\<lambda>backup. backupId backup = bookId) backups) refresh))))
      | _ \<Rightarrow> failB CannotDeleteRemotePublications)"

definition deleteBackups :: "'r BookEnv \<Rightarrow> string list \<Rightarrow> ('r, unit) bookCall" where
  "deleteBackups env bookIds =
     bindB (listBackups env) (\<lambda>backups.
     bindB (foldB (\<lambda>hasDeletions bookId.
         bindB (deleteBackupFromInventory env bookId backups False) (\<lambda>t. returnB (hasDeletions \<or> t \<noteq> None))) False (jsUnique bookIds)) (\<lambda>hasDeletions.
       if hasDeletions then refreshCatalog env else returnB ()))"

definition deleteBackup :: "'r BookEnv \<Rightarrow> string \<Rightarrow> ('r, BookSyncDeletionTombstone option) bookCall" where
  "deleteBackup env bookId = bindB (listBackups env) (\<lambda>backups. deleteBackupFromInventory env bookId backups True)"

section \<open>Cleaning up\<close>

definition sameBackups :: "'r BookEnv \<Rightarrow> RemoteBookBackup list \<Rightarrow> RemoteBookBackup list \<Rightarrow> bool" where
  "sameBackups env current expected \<longleftrightarrow>
     length current = length expected \<and>
     (\<forall>backup \<in> set current. \<exists>candidate \<in> set expected.
        rbb_revision candidate = rbb_revision backup \<and> backupPath env candidate = backupPath env backup)"

definition deleteOrphaned :: "'r BookEnv \<Rightarrow> RemoteBookBackup list \<Rightarrow> ('r, unit) bookCall" where
  "deleteOrphaned env approved =
     foldB (\<lambda>_ bookId.
       bindB (listOrphaned env) (\<lambda>orphaned.
         let current = filter (\<lambda>backup. backupId backup = bookId) orphaned in
         if \<not> sameBackups env current (filter (\<lambda>backup. backupId backup = bookId) approved) then failB (BookRemote SyncConflictError)
         else thenB (deleteBackupFromInventory env bookId current True) (returnB ()))) () (jsUnique (map backupId approved))"

record OrphanObservation =
  ob_fingerprint :: string
  ob_since :: int

record OrphanState =
  os_scope :: "string option"
  os_observations :: "(string, OrphanObservation) jsMap"

record OrphanClock =
  oc_now :: int
  oc_graceMs :: int

text \<open>The sort of an array of pairs compares the texts of the pairs.\<close>

definition orphanFingerprint :: "'r BookEnv \<Rightarrow> RemoteBookBackup list \<Rightarrow> string" where
  "orphanFingerprint env backups =
     (let pairs = map (\<lambda>backup. (case backupPath env backup of Inl _ \<Rightarrow> [] | Inr path \<Rightarrow> path, rbb_revision backup)) backups;
          sorted = jsSort (\<lambda>left right. codeUnitCompare (fst left @ '','' @ snd left) (fst right @ '','' @ snd right)) pairs
      in stringify (JArr (map (\<lambda>(path, revision). JArr [JStr path, JStr revision]) sorted)))"

definition reconcileOrphan ::
  "'r BookEnv \<Rightarrow> OrphanClock \<Rightarrow> RemoteBookBackup list \<Rightarrow> string \<Rightarrow> OrphanState \<Rightarrow> 'r BookState \<Rightarrow>
     (BookSyncError + nat) \<times> OrphanState \<times> 'r BookState" where
  "reconcileOrphan env clock candidates bookId os st =
     (let backups = filter (\<lambda>backup. backupId backup = bookId) candidates;
          fingerprint = orphanFingerprint env backups;
          seen = os\<lparr>os_observations := mapSet bookId \<lparr>ob_fingerprint = fingerprint, ob_since = oc_now clock\<rparr> (os_observations os)\<rparr>;
          forgotten = os\<lparr>os_observations := mapDelete bookId (os_observations os)\<rparr>
      in case map_of (os_observations os) bookId of
           None \<Rightarrow> (Inr 0, seen, st)
         | Some previous \<Rightarrow>
             if ob_fingerprint previous \<noteq> fingerprint \<or> oc_now clock < ob_since previous then (Inr 0, seen, st)
             else if oc_now clock - ob_since previous < oc_graceMs clock then (Inr 0, os, st)
             else case deleteOrphaned env backups st of
                    (Inr _, st') \<Rightarrow> (Inr 1, forgotten, st')
                  | (Inl e, st') \<Rightarrow> if e \<noteq> BookRemote SyncConflictError then (Inl e, os, st') else (Inr 0, forgotten, st'))"

fun reconcileOrphans ::
  "'r BookEnv \<Rightarrow> OrphanClock \<Rightarrow> RemoteBookBackup list \<Rightarrow> string list \<Rightarrow> nat \<Rightarrow> OrphanState \<Rightarrow> 'r BookState \<Rightarrow>
     (BookSyncError + nat) \<times> OrphanState \<times> 'r BookState" where
  "reconcileOrphans env clock candidates [] deleted os st = (Inr deleted, os, st)"
| "reconcileOrphans env clock candidates (bookId # ids) deleted os st =
     (case reconcileOrphan env clock candidates bookId os st of
        (Inl e, os', st') \<Rightarrow> (Inl e, os', st')
      | (Inr n, os', st') \<Rightarrow> reconcileOrphans env clock candidates ids (deleted + n) os' st')"

text \<open>The number of copies that were deleted, and whether some are left for a later cleanup.\<close>

definition reconcileOrphaned ::
  "'r BookEnv \<Rightarrow> OrphanClock \<Rightarrow> string \<Rightarrow> OrphanState \<Rightarrow> 'r BookState \<Rightarrow> (BookSyncError + nat \<times> bool) \<times> OrphanState \<times> 'r BookState" where
  "reconcileOrphaned env clock scope os0 st =
     (let os1 = (if os_scope os0 \<noteq> Some scope then \<lparr>os_scope = Some scope, os_observations = []\<rparr> else os0) in
      case listOrphaned env st of
        (Inl e, st') \<Rightarrow> (Inl e, os1, st')
      | (Inr candidates, st') \<Rightarrow>
          (let ids = jsUnique (map backupId candidates);
               os2 = os1\<lparr>os_observations := filter (\<lambda>(i, _). i \<in> set ids) (os_observations os1)\<rparr>
           in case reconcileOrphans env clock candidates ids 0 os2 st' of
                (Inl e, os3, st'') \<Rightarrow> (Inl e, os3, st'')
              | (Inr deleted, os3, st'') \<Rightarrow> (Inr (deleted, os_observations os3 \<noteq> [] \<or> deleted < length ids), os3, st'')))"

end
