(* ===== verification/Logical_Sync.thy ===== *)
theory Logical_Sync
  imports Book_Backup Auto_Sync
begin

text \<open>
  The synchronization of logical books: \<open>LogicalBookSyncService\<close> of \<open>libs/sync/core/src/lib/logical-book-sync-service.ts\<close>, on the
  calls of \<open>Book_Sync\<close>. The changes of the journal and of an older layout of the destination are merged into the canonical state
  document, the publications of that state are exchanged, the document is written and verified, the local catalog is replaced by
  it, and only then are the copies of removed publications deleted, the older layout retired and the operations acknowledged.
  The sort of the engine, what others do to the database during the replacement, the scope of the destination and the time are
  parameters; the sharing of a running synchronization is left out.
\<close>

section \<open>Parts\<close>

definition LOGICAL_STATE_WRITE_ATTEMPTS :: nat where "LOGICAL_STATE_WRITE_ATTEMPTS = 3"

definition LOGICAL_BOOKS_ROOT :: string where "LOGICAL_BOOKS_ROOT = SYNC_ROOT @ ''/logical-books''"

definition LEGACY_CHANGES_ROOT :: string where "LEGACY_CHANGES_ROOT = SYNC_ROOT @ ''/logical-books/changes''"

text \<open>Two calls that are awaited together: both run, the first failure is reported.\<close>

definition bothB :: "('r, 'a) bookCall \<Rightarrow> ('r, 'b) bookCall \<Rightarrow> ('r, 'a \<times> 'b) bookCall" where
  "bothB m n st =
     (let (r, st1) = m st; (s, st2) = n st1
      in (case r of Inl e \<Rightarrow> Inl e | Inr a \<Rightarrow> (case s of Inl e \<Rightarrow> Inl e | Inr b \<Rightarrow> Inr (a, b)), st2))"

definition liftDocument :: "'e + 'a \<Rightarrow> ('r, 'a) bookCall" where
  "liftDocument r = (case r of Inl _ \<Rightarrow> failB InvalidLogicalDocument | Inr a \<Rightarrow> returnB a)"

definition uniqueChange ::
  "'r BookEnv \<Rightarrow> (string, LogicalBookChange) jsMap \<Rightarrow> LogicalBookChange \<Rightarrow> ('r, (string, LogicalBookChange) jsMap) bookCall" where
  "uniqueChange env unique change =
     (case map_of unique (chg_changeId change) of
        None \<Rightarrow> returnB (mapSet (chg_changeId change) change unique)
      | Some current \<Rightarrow>
          bindB (liftDocument (serializeLogicalBookChange (env_nfkc env) (env_localeCompare env) current)) (\<lambda>left.
          bindB (liftDocument (serializeLogicalBookChange (env_nfkc env) (env_localeCompare env) change)) (\<lambda>right.
            if left \<noteq> right then failB ConflictingChanges else returnB (mapSet (chg_changeId change) change unique))))"

definition uniqueChanges :: "'r BookEnv \<Rightarrow> LogicalBookChange list \<Rightarrow> ('r, LogicalBookChange list) bookCall" where
  "uniqueChanges env changes = bindB (foldB (uniqueChange env) [] changes) (\<lambda>unique. returnB (mapValues unique))"

definition variantHash :: "BookRecord \<Rightarrow> string" where
  "variantHash variant = drop (length ''sha256:'') (br_id variant)"

definition validateRemoteVariant :: "BookRecord \<Rightarrow> RemoteObject \<Rightarrow> ('r, unit) bookCall" where
  "validateRemoteVariant variant descriptor =
     (if ro_size descriptor \<noteq> br_size variant \<or> ro_sha256 descriptor \<noteq> variantHash variant then failB DescriptorIntegrity else returnB ())"

definition listLogicalEntries :: "'r BookEnv \<Rightarrow> ('r, RemoteSyncEntry list) bookCall" where
  "listLogicalEntries env =
     (case tr_listEntries (env_transport env) of
        None \<Rightarrow> failB CannotInventoryState | Some listEntries \<Rightarrow> liftRemote (listEntries LOGICAL_BOOKS_ROOT))"

definition deleteLegacyLogicalEntries :: "'r BookEnv \<Rightarrow> RemoteSyncEntry list \<Rightarrow> ('r, unit) bookCall" where
  "deleteLegacyLogicalEntries env entries =
     (let legacy = filter (\<lambda>entry. re_path entry \<noteq> LOGICAL_BOOK_STATE_PATH) entries in
      if legacy = [] then returnB ()
      else case tr_deleteEntries (env_transport env) of
             None \<Rightarrow> failB CannotRetireLegacy
           | Some deleteEntries \<Rightarrow>
               liftRemote (deleteEntries (map (\<lambda>entry. \<lparr>ed_path = re_path entry, ed_expectedRevision = re_revision entry\<rparr>) legacy)))"

section \<open>The state of a library that was never synchronized\<close>

definition bootstrapVariant ::
  "'r BookEnv \<Rightarrow> LogicalBookStateClock \<Rightarrow> (string, VariantEntry) jsMap \<Rightarrow> string \<Rightarrow> ('r, (string, VariantEntry) jsMap) bookCall" where
  "bootstrapVariant env clock variants variantId =
     (if variantId = [] \<or> map_of variants variantId \<noteq> None then returnB variants
      else bindB (getBookB variantId) (\<lambda>book.
        case book of
          None \<Rightarrow> failB RecordUnavailable
        | Some v \<Rightarrow>
            let variant = bookOf v in
            bindB (liftPath (bookObjectPath (env_nfkc env) (br_id variant) (br_format variant) (br_fileName variant))) (\<lambda>path.
              returnB (mapSet variantId \<lparr>ve_variant = variant, ve_objectPath = path, ve_clock = clock\<rparr> variants))))"

definition bootstrapClock :: "LogicalBookRecord \<Rightarrow> LogicalBookStateClock" where
  "bootstrapClock book =
     \<lparr>ck_changeId = ''change:bootstrap:'' @ drop (length ''logical:sha256:'') (lb_id book), ck_createdAt = lb_importedAt book,
      ck_deviceId = ''schema-v2-bootstrap''\<rparr>"

definition bootstrapPreference :: "LogicalBookFormatPreference \<Rightarrow> PreferenceEntry" where
  "bootstrapPreference preference =
     \<lparr>pr_logicalBookId = fp_logicalBookId preference, pr_preference = Some preference,
      pr_clock = \<lparr>ck_changeId = fp_winningChangeId preference, ck_createdAt = fp_updatedAt preference, ck_deviceId = fp_deviceId preference\<rparr>\<rparr>"

definition bootstrapReconciliation :: "MembershipReconciliation \<Rightarrow> ReconciliationEntry" where
  "bootstrapReconciliation r =
     \<lparr>rc_reconciliation = r,
      rc_clock = \<lparr>ck_changeId = (case mr_resolvedByChangeId r of
          Some i \<Rightarrow> i | None \<Rightarrow> if mr_conflictingChangeIds r = [] then mr_conflictId r else last (mr_conflictingChangeIds r)),
        ck_createdAt = mr_detectedAt r, ck_deviceId = ''schema-v2-bootstrap''\<rparr>\<rparr>"

definition snapshotB :: "'r BookEnv \<Rightarrow> ('r, LogicalLibrarySnapshot) bookCall" where
  "snapshotB env st = (Inr (getLogicalLibrarySnapshot (env_localeCompare env) (bk_db st)), st)"

definition localStateSnapshot :: "'r BookEnv \<Rightarrow> ('r, LogicalBookStateDocument) bookCall" where
  "localStateSnapshot env =
     bindB (snapshotB env) (\<lambda>snapshot.
       let books = map logicalBookOf (snap_logicalBooks snapshot) in
       bindB (foldB (\<lambda>variants book. foldB (bootstrapVariant env (bootstrapClock book)) variants (mapValues (lb_variants book))) [] books) (\<lambda>variants.
       bindB (liftDocument (serializeLogicalBookState (env_nfkc env) (env_localeCompare env)
           \<lparr>sd_heads = [], sd_books = map (\<lambda>book. \<lparr>be_book = book, be_clock = bootstrapClock book\<rparr>) books, sd_removedBooks = [],
            sd_variants = mapValues variants, sd_removedVariants = [],
            sd_preferences = map (\<lambda>p. bootstrapPreference (formatPreferenceOf p)) (snap_preferences snapshot),
            sd_reconciliations = map (\<lambda>r. bootstrapReconciliation (reconciliationOf r)) (snap_reconciliations snapshot)\<rparr>)) (\<lambda>content.
         liftDocument (parseLogicalBookState (env_nfkc env) (env_localeCompare env) content))))"

section \<open>The publications of the state\<close>

definition storeVariantB :: "'r BookEnv \<Rightarrow> BookRecord \<Rightarrow> string \<Rightarrow> ('r, unit) bookCall" where
  "storeVariantB env variant blob st =
     (case storeSyncedBook (env_fingerprinter env) (env_fs env) (bk_db st) variant
         \<lparr>src_name = br_fileName variant, src_mediaType = br_mediaType variant, src_size = blobSize blob, src_content = blob\<rparr> of
        (Inl e, db) \<Rightarrow> (Inl (BookLibrary e), st\<lparr>bk_db := db\<rparr>) | (Inr _, db) \<Rightarrow> (Inr (), st\<lparr>bk_db := db\<rparr>))"

definition downloadVariant :: "'r BookEnv \<Rightarrow> BookRecord \<Rightarrow> string \<Rightarrow> ('r, unit) bookCall" where
  "downloadVariant env variant path =
     bindB (liftRemote (tr_downloadObject (env_transport env) path)) (\<lambda>blob. storeVariantB env variant blob)"

text \<open>A publication that is neither here nor in its place may be in the place an older change names.\<close>

definition recoverLegacy :: "'r BookEnv \<Rightarrow> (string, string) jsMap \<Rightarrow> BookRecord \<Rightarrow> ('r, bool) bookCall" where
  "recoverLegacy env legacyVariantPaths variant =
     (case map_of legacyVariantPaths (br_id variant) of
        None \<Rightarrow> returnB False
      | Some legacyPath \<Rightarrow>
          if legacyPath = [] then returnB False
          else bindB (liftRemote (tr_headObject (env_transport env) legacyPath)) (\<lambda>legacyDescriptor.
            case legacyDescriptor of
              None \<Rightarrow> returnB False
            | Some descriptor \<Rightarrow>
                thenB (validateRemoteVariant variant descriptor) (thenB (downloadVariant env variant legacyPath) (returnB True))))"

definition uploadVariant :: "'r BookEnv \<Rightarrow> VariantEntry \<Rightarrow> ('r, unit) bookCall" where
  "uploadVariant env entry =
     (let variant = ve_variant entry in
      bindB (getBookSourceB env (br_id variant)) (\<lambda>source.
        case source of
          None \<Rightarrow> failB SourceUnavailable
        | Some blob \<Rightarrow>
            bindB (liftRemote (tr_uploadObject (env_transport env) \<lparr>up_path = ve_objectPath entry, up_content = blob, up_size = br_size variant,
                up_sha256 = variantHash variant, up_mediaType = br_mediaType variant\<rparr>)) (\<lambda>descriptor.
              validateRemoteVariant variant descriptor)))"

definition reconcileVariant :: "'r BookEnv \<Rightarrow> (string, string) jsMap \<Rightarrow> unit \<Rightarrow> VariantEntry \<Rightarrow> ('r, unit) bookCall" where
  "reconcileVariant env legacyVariantPaths _ entry =
     (let variant = ve_variant entry in
      bindB (isExcludedB (br_id variant)) (\<lambda>excluded.
        if excluded then returnB ()
        else
          bindB (getBookB (br_id variant)) (\<lambda>book.
          bindB (liftRemote (tr_headObject (env_transport env) (ve_objectPath entry))) (\<lambda>descriptor.
          thenB (case descriptor of None \<Rightarrow> returnB () | Some d \<Rightarrow> validateRemoteVariant variant d)
          (bindB (if book = None \<and> descriptor = None then recoverLegacy env legacyVariantPaths variant else returnB (book \<noteq> None)) (\<lambda>local.
           thenB (if \<not> local \<and> descriptor \<noteq> None then downloadVariant env variant (ve_objectPath entry) else returnB ())
             (if descriptor = None then uploadVariant env entry else returnB ())))))))"

definition reconcileActiveVariants :: "'r BookEnv \<Rightarrow> LogicalBookStateDocument \<Rightarrow> (string, string) jsMap \<Rightarrow> ('r, unit) bookCall" where
  "reconcileActiveVariants env state legacyVariantPaths = foldB (reconcileVariant env legacyVariantPaths) () (sd_variants state)"

section \<open>Writing the state\<close>

definition recoveryChange :: "string \<Rightarrow> string" where
  "recoveryChange variantId = ''change:backup-recovery:'' @ drop 7 variantId"

definition recoveryIds :: "LogicalBookStateDocument \<Rightarrow> string list" where
  "recoveryIds state =
     map (\<lambda>entry. br_id (ve_variant entry))
       (filter (\<lambda>entry. ck_deviceId (ve_clock entry) = ''backup-recovery'' \<and> ck_changeId (ve_clock entry) = recoveryChange (br_id (ve_variant entry)))
         (sd_variants state))"

definition recoveredBook :: "string list \<Rightarrow> BookEntry \<Rightarrow> bool" where
  "recoveredBook ids entry =
     (let members = mapValues (lb_variants (be_book entry)) in
      ck_deviceId (be_clock entry) = ''backup-recovery'' \<and> (\<forall>i \<in> set members. i \<noteq> [] \<and> i \<in> set ids) \<and>
      (\<exists>i \<in> set members. ck_changeId (be_clock entry) = recoveryChange i))"

text \<open>The books and publications that an earlier version recovered without being asked are taken back, unless something else holds them.\<close>

definition retractRecovery :: "LogicalBookStateDocument \<Rightarrow> LogicalBookStateDocument" where
  "retractRecovery state =
     (let ids = recoveryIds state;
          books = filter (\<lambda>entry. \<not> recoveredBook ids entry) (sd_books state);
          retained = concat (map (\<lambda>entry. mapValues (lb_variants (be_book entry))) books)
      in state\<lparr>sd_books := books,
           sd_variants := filter (\<lambda>entry. br_id (ve_variant entry) \<notin> set ids \<or> br_id (ve_variant entry) \<in> set retained) (sd_variants state)\<rparr>)"

definition publishState ::
  "'r BookEnv \<Rightarrow> RemoteDocument option \<Rightarrow> string \<Rightarrow> ('r, LogicalBookStateDocument \<times> nat) bookCall" where
  "publishState env current content =
     bindB (if map_option rd_content current = Some content then returnB (current, 0)
       else bindB (liftRemote (\<lambda>r. tr_write (env_transport env) r LOGICAL_BOOK_STATE_PATH content (map_option rd_revision current))) (\<lambda>written.
         returnB (Some written, 1))) (\<lambda>(current, pushed).
     bindB (readDocument env LOGICAL_BOOK_STATE_PATH) (\<lambda>verified.
       case verified of
         None \<Rightarrow> failB (BookRemote SyncConflictError)
       | Some v \<Rightarrow>
           if rd_content v \<noteq> content \<or> Some (rd_revision v) \<noteq> map_option rd_revision current then failB (BookRemote SyncConflictError)
           else
             bindB (liftDocument (parseLogicalBookState (env_nfkc env) (env_localeCompare env) (rd_content v))) (\<lambda>parsed.
             bindB (liftDocument (serializeLogicalBookState (env_nfkc env) (env_localeCompare env) parsed)) (\<lambda>again.
               if again \<noteq> content then failB StateVerificationFailed else returnB (parsed, pushed)))))"

type_synonym changeSort = "(LogicalBookChange \<Rightarrow> LogicalBookChange \<Rightarrow> int) \<Rightarrow> LogicalBookChange list \<Rightarrow> LogicalBookChange list"

fun writeStateAttempts ::
  "changeSort \<Rightarrow> 'r BookEnv \<Rightarrow> LogicalBookStateDocument \<Rightarrow> LogicalBookChange list \<Rightarrow> (string, string) jsMap \<Rightarrow> nat \<Rightarrow> RemoteDocument option \<Rightarrow>
     ('r, LogicalBookStateDocument \<times> nat) bookCall" where
  "writeStateAttempts sortBy env localSeed changes legacyVariantPaths 0 current = failB (BookRemote SyncConflictError)"
| "writeStateAttempts sortBy env localSeed changes legacyVariantPaths (Suc attempts) current =
     bindB (case current of
         Some document \<Rightarrow> liftDocument (parseLogicalBookState (env_nfkc env) (env_localeCompare env) (rd_content document))
       | None \<Rightarrow> returnB localSeed) (\<lambda>base.
     bindB (liftDocument (mergeLogicalBookChangesIntoState sortBy (env_nfkc env) (env_localeCompare env) base changes)) (\<lambda>merged.
       let state = retractRecovery merged in
       thenB (reconcileActiveVariants env state legacyVariantPaths)
       (bindB (liftDocument (serializeLogicalBookState (env_nfkc env) (env_localeCompare env) state)) (\<lambda>content.
          catchConflict
            (if attempts = 0 then None
             else Some (bindB (readDocument env LOGICAL_BOOK_STATE_PATH) (\<lambda>current.
               writeStateAttempts sortBy env localSeed changes legacyVariantPaths attempts current)))
            (publishState env current content)))))"

definition writeMergedState ::
  "changeSort \<Rightarrow> 'r BookEnv \<Rightarrow> RemoteDocument option \<Rightarrow> LogicalBookStateDocument \<Rightarrow> LogicalBookChange list \<Rightarrow> (string, string) jsMap \<Rightarrow>
     ('r, LogicalBookStateDocument \<times> nat) bookCall" where
  "writeMergedState sortBy env initialDocument localSeed changes legacyVariantPaths =
     writeStateAttempts sortBy env localSeed changes legacyVariantPaths LOGICAL_STATE_WRITE_ATTEMPTS initialDocument"

section \<open>A whole synchronization\<close>

definition legacyEntry :: "RemoteSyncEntry \<Rightarrow> bool" where
  "legacyEntry entry = (re_path entry = LEGACY_CHANGES_ROOT \<or> startsWith (re_path entry) (LEGACY_CHANGES_ROOT @ ''/''))"

definition legacyPaths :: "LogicalBookChange list \<Rightarrow> (string, string) jsMap" where
  "legacyPaths changes =
     foldl (\<lambda>paths effect. case effect of UpsertVariant variant path \<Rightarrow> mapSet (br_id variant) path paths | DeleteVariant _ _ \<Rightarrow> paths) []
       (concat (map (\<lambda>change. orEmpty (chg_variantEffects change)) changes))"

definition isLogicalOperation :: "'r BookEnv \<Rightarrow> SyncOperation \<Rightarrow> bool" where
  "isLogicalOperation env operation =
     (op_entity operation = ''logical-book-change'' \<and> isSynchronizedLogicalBookChange (env_nfkc env) (op_payload operation))"

definition replaceStateB ::
  "(LibraryDb \<Rightarrow> LibraryDb) \<Rightarrow> LogicalBookRecord list \<times> LogicalBookFormatPreference list \<times> MembershipReconciliation list \<Rightarrow> ('r, unit) bookCall" where
  "replaceStateB between view st =
     (case view of (books, preferences, reconciliations) \<Rightarrow>
        (case replaceLogicalBookState between (bk_db st) books preferences reconciliations None of
           (Inl e, db) \<Rightarrow> (Inl (ReplaceFailed e), st\<lparr>bk_db := db\<rparr>) | (Inr _, db) \<Rightarrow> (Inr (), st\<lparr>bk_db := db\<rparr>)))"

record LogicalRun =
  lr_state :: LogicalBookStateDocument
  lr_pushed :: nat
  lr_pulled :: nat

text \<open>The service for the remote copies is created with the default number of retries.\<close>

definition backupEnv :: "'r BookEnv \<Rightarrow> 'r BookEnv" where
  "backupEnv env = env\<lparr>env_maxConflictRetries := 3\<rparr>"

definition finishRun :: "'r BookEnv \<Rightarrow> LogicalBookStateDocument \<Rightarrow> RemoteSyncEntry list \<Rightarrow> SyncOperation list \<Rightarrow> ('r, unit) bookCall" where
  "finishRun env state logicalEntries pendingOperations =
     thenB (if sd_removedVariants state \<noteq> [] then deleteBackups (backupEnv env) (jsUnique (map rv_variantId (sd_removedVariants state))) else returnB ())
     (thenB (deleteLegacyLogicalEntries env logicalEntries)
       (acknowledgeB (map op_id pendingOperations)))"

definition runLogical :: "changeSort \<Rightarrow> (LibraryDb \<Rightarrow> LibraryDb) \<Rightarrow> 'r BookEnv \<Rightarrow> ('r, LogicalRun) bookCall" where
  "runLogical sortBy between env =
     bindB (bothB (listLogicalEntries env) (bothB (pendingB env) (readDocument env LOGICAL_BOOK_STATE_PATH))) (\<lambda>(logicalEntries, pending, initial).
     bindB (if \<exists>entry \<in> set logicalEntries. legacyEntry entry then listDocuments env LEGACY_CHANGES_ROOT else returnB []) (\<lambda>legacyDocuments.
     bindB (foldB (\<lambda>changes document. bindB (liftDocument (parseLogicalBookChange (env_nfkc env) (rd_content document))) (\<lambda>change.
         returnB (changes @ [change]))) [] legacyDocuments) (\<lambda>remoteChanges.
       let pendingOperations = filter (isLogicalOperation env) pending in
       bindB (if initial = None \<and> legacyDocuments = [] then localStateSnapshot env else returnB emptyLogicalBookState) (\<lambda>localSeed.
       bindB (uniqueChanges env (remoteChanges @ map (\<lambda>operation. changeOf (op_payload operation)) pendingOperations)) (\<lambda>allChanges.
       bindB (writeMergedState sortBy env initial localSeed allChanges (legacyPaths remoteChanges)) (\<lambda>(state, pushed).
       thenB (replaceStateB between (logicalBookStateView state))
       (thenB (finishRun env state logicalEntries pendingOperations)
         (returnB \<lparr>lr_state = state, lr_pushed = pushed, lr_pulled = length remoteChanges + (if initial = None then 0 else 1)\<rparr>))))))))"

definition synchronizeLogicalBooks ::
  "changeSort \<Rightarrow> (LibraryDb \<Rightarrow> LibraryDb) \<Rightarrow> 'r BookEnv \<Rightarrow> string \<Rightarrow> int \<Rightarrow> OrphanState \<Rightarrow> 'r BookState \<Rightarrow>
     (BookSyncError + SyncWorkerResult) \<times> OrphanState \<times> 'r BookState" where
  "synchronizeLogicalBooks sortBy between env scope nowMs os st =
     (case runLogical sortBy between env st of
        (Inl e, st') \<Rightarrow> (Inl e, os, st')
      | (Inr run, st') \<Rightarrow>
          (case reconcileOrphaned (backupEnv env) \<lparr>oc_now = nowMs, oc_graceMs = 5 * 60000\<rparr> scope os st' of
             (Inl e, os', st'') \<Rightarrow> (Inl e, os', st'')
           | (Inr (deleted, left), os', st'') \<Rightarrow>
               (Inr \<lparr>wr_pulled = int (lr_pulled run), wr_pushed = int (lr_pushed run + deleted),
                  wr_conflicts = int (length (filter (\<lambda>r. mr_status r = ReconciliationOpen) (snd (snd (logicalBookStateView (lr_state run)))))),
                  wr_rejected = 0, wr_unchanged = False, wr_maintenancePending = left\<rparr>, os', st'')))"

end
