(* ===== verification/Logical_Sync_Safety.thy ===== *)
theory Logical_Sync_Safety
  imports Logical_Sync Book_Sync_Safety
begin

text \<open>
  What the synchronization of logical books guarantees: a run that fails forgets no change of the journal, a run that succeeds
  has every pending change in the document at the destination and the catalog of that document in the library; and the remote
  copies are cleaned up only after they were observed for the grace period.
\<close>

section \<open>More calls\<close>

context call_relation
begin

lemma keeps_both: "callKeeps R m \<Longrightarrow> callKeeps R n \<Longrightarrow> callKeeps R (bothB m n)"
  unfolding callKeeps_def by (auto simp: bothB_def split_beta Let_def intro: R_trans)

lemma keeps_document: "callKeeps R (liftDocument r)"
  by (auto simp: liftDocument_def intro: keeps_pure split: sum.splits)

lemma keeps_restoring:
  assumes "callKeeps R m" and "callKeeps R (includeB env bookId)"
  shows "callKeeps R (restoringExclusion env bookId was m)"
  unfolding callKeeps_def
proof
  fix st
  obtain r st' where r: "m st = (r, st')" by fastforce
  have 1: "R st st'" using assms(1) r unfolding callKeeps_def by (metis snd_conv)
  have "R st' (snd (thenB (includeB env bookId) (failB e) st'))" for e
    using keeps_then [OF assms(2) keeps_pure(2) [of e]] by (auto simp: callKeeps_def)
  then show "R st (snd (restoringExclusion env bookId was m st))"
    using 1 R_trans by (cases r) (auto simp: restoringExclusion_def r)
qed

end

section \<open>Calls that keep the journal\<close>

text \<open>Operations on entities other than publications stay in the journal.\<close>

definition keepsOperations :: "'r BookState \<Rightarrow> 'r BookState \<Rightarrow> bool" where
  "keepsOperations st st' \<longleftrightarrow>
     (journalOk (bk_journal st) \<longrightarrow>
        journalOk (bk_journal st') \<and> {x \<in> journalOps (bk_journal st). op_entity x \<noteq> ''book''} \<subseteq> journalOps (bk_journal st'))"

lemma keepsOperations_same: "bk_journal st' = bk_journal st \<Longrightarrow> keepsOperations st st'"
  by (auto simp: keepsOperations_def)

lemma acknowledge_other:
  fixes st :: "'r BookState"
  assumes "\<And>x. x \<in> journalOps (bk_journal st) \<Longrightarrow> op_entity x \<noteq> ''book'' \<Longrightarrow> op_id x \<notin> set ids"
  shows "keepsOperations st (st\<lparr>bk_journal := acknowledge (bk_journal st) ids\<rparr>)"
  using assms journalOps_acknowledge [of "bk_journal st" ids] journalOk_acknowledge [of "bk_journal st" ids]
  by (auto simp: keepsOperations_def)

lemma journal_writes: "callKeeps keepsOperations (acknowledgePendingBookWrites env bookId)"
  unfolding callKeeps_def
proof
  fix st :: "'a BookState"
  let ?ids = "map op_id (filter (\<lambda>operation. op_entity operation = ''book'' \<and> op_entityId operation = bookId)
      (pending_ops (env_localeCompare env) (bk_journal st)))"
  have "keepsOperations st (st\<lparr>bk_journal := acknowledge (bk_journal st) ?ids\<rparr>)"
  proof (cases "journalOk (bk_journal st)")
    case True
    have "op_id x \<notin> set ?ids" if x: "x \<in> journalOps (bk_journal st)" "op_entity x \<noteq> ''book''" for x
    proof
      assume "op_id x \<in> set ?ids"
      then obtain y where "y \<in> journalOps (bk_journal st)" "op_entity y = ''book''" "op_id x = op_id y" by auto
      then show False using inj_onD [OF journalOps_inj [OF True] _ x(1)] x(2) by metis
    qed
    then show ?thesis by (rule acknowledge_other)
  qed (simp add: keepsOperations_def)
  then show "keepsOperations st (snd (acknowledgePendingBookWrites env bookId st))"
    by (simp add: acknowledgePendingBookWrites_def bindB_def pendingB_def acknowledgeB_def)
qed

section \<open>Deleting remote copies\<close>

text \<open>The deletion of remote copies changes the destination, the exclusions and the operations on publications.\<close>

locale backup_relation = call_relation +
  assumes R_remote: "R st (st\<lparr>bk_remote := r\<rparr>)" and R_exclusions: "R st (st\<lparr>bk_exclusions := ex\<rparr>)"
    and R_mutated: "R st (st\<lparr>bk_mutated := b\<rparr>)" and R_writes: "callKeeps R (acknowledgePendingBookWrites env bookId)"
begin

lemma keeps_primitives: "callKeeps R (liftRemote call)" "callKeeps R (isExcludedB i)" "callKeeps R (excludeB env i)" "callKeeps R (includeB env i)"
  "callKeeps R (setMutated b)"
  unfolding callKeeps_def
  by (auto simp: liftRemote_def isExcludedB_def excludeB_def includeB_def setMutated_def split_beta R_remote R_exclusions R_mutated
      split: sum.splits prod.splits)

lemmas keeps_intros = keeps_bind keeps_then keeps_pure keeps_both keeps_document keeps_primitives R_writes

lemma keeps_documents: "callKeeps R (readDocument env path)" "callKeeps R (listDocuments env path)" "callKeeps R (listLogicalEntries env)"
  "callKeeps R (refreshCatalog env)" "callKeeps R (deleteLegacyLogicalEntries env entries)"
  by (auto simp: readDocument_def listDocuments_def listLogicalEntries_def refreshCatalog_def deleteLegacyLogicalEntries_def Let_def
      intro: keeps_intros split: option.splits)

lemma keeps_listBackups: "callKeeps R (listBackups env)"
  unfolding listBackups_def addBackup_def by (auto intro!: keeps_intros keeps_fold keeps_documents split: option.splits)

lemma keeps_own: "callKeeps R (ownManifest env i d)" "callKeeps R (ownTombstone env i d)"
  by (auto simp: ownManifest_def ownTombstone_def intro: keeps_intros split: option.splits)

lemma keeps_removeCopy: "callKeeps R (removeCopy env del doc path revision m)"
  unfolding removeCopy_def by (auto intro!: keeps_intros split: option.splits)

lemma keeps_turn:
  assumes "\<And>loop. again = Some loop \<Longrightarrow> callKeeps R loop"
  shows "callKeeps R (deleteBackupTurn env del doc i matching t n again)"
proof -
  have "callKeeps R (removeExtra env del doc i u extra)" for u extra
    unfolding removeExtra_def by (auto intro!: keeps_intros keeps_documents keeps_own keeps_removeCopy split: option.splits)
  moreover have "callKeeps R (commitTombstone env i t)"
    unfolding commitTombstone_def by (auto intro!: keeps_intros keeps_documents keeps_own split: option.splits)
  ultimately show ?thesis
    unfolding deleteBackupTurn_def
    by (auto intro!: keeps_intros keeps_documents keeps_own keeps_removeCopy keeps_catch keeps_fold intro: assms split: option.splits)
qed

lemma keeps_deleteBackup: "callKeeps R (deleteBackupFromInventory env i backups refresh)"
proof -
  have "callKeeps R (deleteMatching env del doc i matching refresh)" for del doc matching
    unfolding deleteMatching_def by (auto intro!: keeps_intros keeps_documents keeps_own keeps_retrying keeps_turn split: option.splits)
  then show ?thesis
    unfolding deleteBackupFromInventory_def by (auto intro!: keeps_intros keeps_restoring split: option.splits)
qed

lemma keeps_deleteBackups: "callKeeps R (deleteBackups env ids)"
  unfolding deleteBackups_def by (auto intro!: keeps_intros keeps_fold keeps_listBackups keeps_deleteBackup keeps_documents)

end

interpretation journal: backup_relation keepsOperations
  by unfold_locales (auto simp: keepsOperations_def intro: journal_writes)

interpretation database: backup_relation "\<lambda>st st'. bk_db st' = bk_db st"
  by unfold_locales (simp_all add: callKeeps_def acknowledgePendingBookWrites_def bindB_def pendingB_def acknowledgeB_def)

lemma journal_database: "callKeeps keepsOperations (getBookB i)" "callKeeps keepsOperations (getBookSourceB env i)"
  "callKeeps keepsOperations (storeVariantB env v blob)" "callKeeps keepsOperations (snapshotB env)" "callKeeps keepsOperations (replaceStateB between view)"
  unfolding callKeeps_def
  by (auto intro!: keepsOperations_same simp: getBookB_def getBookSourceB_def storeVariantB_def snapshotB_def replaceStateB_def split_beta
      split: sum.splits prod.splits)

lemmas journal_intros = journal.keeps_intros journal.keeps_documents journal_database

section \<open>A run that fails\<close>

definition failKeeps :: "('r BookState \<Rightarrow> 'r BookState \<Rightarrow> bool) \<Rightarrow> ('r, 'a) bookCall \<Rightarrow> bool" where
  "failKeeps R m \<longleftrightarrow> (\<forall>st e st'. m st = (Inl e, st') \<longrightarrow> R st st')"

context call_relation
begin

lemma fail_keeps: "callKeeps R m \<Longrightarrow> failKeeps R m"
  unfolding callKeeps_def failKeeps_def by (metis snd_conv)

lemma fail_bind:
  assumes "callKeeps R m" and "\<And>a. failKeeps R (f a)"
  shows "failKeeps R (bindB m f)"
  unfolding failKeeps_def
proof (intro allI impI)
  fix st e st'
  assume run: "bindB m f st = (Inl e, st')"
  obtain r st1 where r: "m st = (r, st1)" by fastforce
  have 1: "R st st1" using assms(1) r unfolding callKeeps_def by (metis snd_conv)
  show "R st st'"
  proof (cases r)
    case (Inr a)
    then have "R st1 st'" using assms(2) [of a] run r by (simp add: bindB_def failKeeps_def)
    then show ?thesis using R_trans 1 by blast
  qed (use 1 run r in \<open>simp add: bindB_def\<close>)
qed

lemma fail_then: "callKeeps R m \<Longrightarrow> failKeeps R n \<Longrightarrow> failKeeps R (thenB m n)"
  unfolding thenB_def by (rule fail_bind)

end

lemma fail_return: "failKeeps R m \<Longrightarrow> failKeeps R (thenB m (returnB a))"
  by (auto simp: failKeeps_def thenB_def bindB_def returnB_def split: prod.splits sum.splits)

lemma fail_acknowledge: "failKeeps R (acknowledgeB ids)"
  by (simp add: failKeeps_def acknowledgeB_def)

lemma journal_reconcile: "callKeeps keepsOperations (reconcileActiveVariants env state paths)"
proof -
  have "callKeeps keepsOperations (validateRemoteVariant v d)" for v d by (auto simp: validateRemoteVariant_def intro: journal_intros)
  then have "callKeeps keepsOperations (reconcileVariant env paths u entry)" for u entry
    unfolding reconcileVariant_def recoverLegacy_def downloadVariant_def uploadVariant_def Let_def
    by (auto intro!: journal_intros split: option.splits)
  then show ?thesis unfolding reconcileActiveVariants_def by (auto intro: journal.keeps_fold)
qed

lemma journal_publish: "callKeeps keepsOperations (publishState env current content)"
  unfolding publishState_def by (auto intro!: journal_intros split: option.splits)

lemma journal_write: "callKeeps keepsOperations (writeStateAttempts sortBy env seed changes paths attempts current)"
proof (induction attempts arbitrary: current)
  case (Suc attempts)
  then show ?case unfolding writeStateAttempts.simps Let_def
    by (auto intro!: journal_intros journal_reconcile journal_publish journal.keeps_catch split: option.splits if_splits)
qed (simp add: journal_intros)

lemma journal_snapshot: "callKeeps keepsOperations (localStateSnapshot env)"
  unfolding localStateSnapshot_def bootstrapVariant_def Let_def
  by (auto intro!: journal_intros journal.keeps_fold split: option.splits)

lemma journal_unique: "callKeeps keepsOperations (uniqueChanges env changes)"
  unfolding uniqueChanges_def uniqueChange_def by (auto intro!: journal_intros journal.keeps_fold split: option.splits)

lemma finishRun_fails: "failKeeps keepsOperations (finishRun env state entries operations)"
  unfolding finishRun_def
  by (auto intro!: journal.fail_then fail_acknowledge journal_intros journal.keeps_deleteBackups)


definition changedState :: "unit BookState" where
  "changedState = emptyBookState\<lparr>bk_journal := snd (append_op emptyJournal exampleInput ''uuid-1'' ''2024-05-01T10:00:00.000Z'')\<rparr>"


section \<open>A run that succeeds\<close>

definition resultIs :: "('a \<Rightarrow> bool) \<Rightarrow> ('r, 'a) bookCall \<Rightarrow> bool" where
  "resultIs P m \<longleftrightarrow> (\<forall>st a st'. m st = (Inr a, st') \<longrightarrow> P a)"

lemma resultIs_bind: "(\<And>a st st'. m st = (Inr a, st') \<Longrightarrow> resultIs P (f a)) \<Longrightarrow> resultIs P (bindB m f)"
  unfolding resultIs_def bindB_def by (auto split: prod.splits sum.splits)

lemma resultIs_then: "resultIs P n \<Longrightarrow> resultIs P (thenB m n)"
  unfolding thenB_def by (rule resultIs_bind)

lemma resultIs_pure: "P a \<Longrightarrow> resultIs P (returnB a)" "resultIs P (failB e)"
  by (simp_all add: resultIs_def returnB_def failB_def)

lemma resultIs_catch: "resultIs P m \<Longrightarrow> (\<And>loop. again = Some loop \<Longrightarrow> resultIs P loop) \<Longrightarrow> resultIs P (catchConflict again m)"
  unfolding resultIs_def catchConflict_def by (auto split: prod.splits sum.splits option.splits if_splits)

lemma resultIsD: "resultIs P m \<Longrightarrow> m st = (Inr a, st') \<Longrightarrow> P a"
  by (auto simp: resultIs_def)

lemma liftDocument_ok: "liftDocument r st = (Inr a, st') \<Longrightarrow> r = Inr a"
  by (auto simp: liftDocument_def failB_def returnB_def split: sum.splits)

lemma readDocument_ok: "readDocument env path st = (Inr a, st') \<Longrightarrow> \<exists>r r'. tr_read (env_transport env) r path = (Inr a, r')"
  by (auto simp: readDocument_def liftRemote_def split: prod.splits sum.splits)

text \<open>The state was read at the destination, as the text of a merge of the changes.\<close>

definition publishedState :: "changeSort \<Rightarrow> 'r BookEnv \<Rightarrow> LogicalBookChange list \<Rightarrow> LogicalBookStateDocument \<Rightarrow> bool" where
  "publishedState sortBy env changes state \<longleftrightarrow>
     (\<exists>base merged document r r'.
        mergeLogicalBookChangesIntoState sortBy (env_nfkc env) (env_localeCompare env) base changes = Inr merged \<and>
        serializeLogicalBookState (env_nfkc env) (env_localeCompare env) (retractRecovery merged) = Inr (rd_content document) \<and>
        tr_read (env_transport env) r LOGICAL_BOOK_STATE_PATH = (Inr (Some document), r') \<and>
        parseLogicalBookState (env_nfkc env) (env_localeCompare env) (rd_content document) = Inr state)"

lemma publish_result:
  "resultIs (\<lambda>(state, pushed). \<exists>document r r'. rd_content document = content \<and>
      tr_read (env_transport env) r LOGICAL_BOOK_STATE_PATH = (Inr (Some document), r') \<and>
      parseLogicalBookState (env_nfkc env) (env_localeCompare env) content = Inr state) (publishState env current content)"
  unfolding publishState_def
  by (intro resultIs_bind)
    (fastforce dest: readDocument_ok liftDocument_ok intro!: resultIs_pure resultIs_bind split: option.splits prod.splits)

lemma write_result:
  "resultIs (\<lambda>(state, pushed). publishedState sortBy env changes state) (writeStateAttempts sortBy env seed changes paths attempts current)"
proof (induction attempts arbitrary: current)
  case 0
  then show ?case by (simp add: resultIs_pure)
next
  case (Suc attempts)
  have "resultIs (\<lambda>(state, pushed). publishedState sortBy env changes state)
      (catchConflict (if attempts = 0 then None else Some (bindB (readDocument env LOGICAL_BOOK_STATE_PATH) (\<lambda>current.
         writeStateAttempts sortBy env seed changes paths attempts current))) (publishState env current content))"
    if "mergeLogicalBookChangesIntoState sortBy (env_nfkc env) (env_localeCompare env) base changes = Inr merged"
      "serializeLogicalBookState (env_nfkc env) (env_localeCompare env) (retractRecovery merged) = Inr content" for base merged content
  proof (rule resultIs_catch)
    show "resultIs (\<lambda>(state, pushed). publishedState sortBy env changes state) (publishState env current content)"
      using publish_result [of content env current] that unfolding resultIs_def publishedState_def by fast
    show "resultIs (\<lambda>(state, pushed). publishedState sortBy env changes state) loop"
      if "(if attempts = 0 then None else Some (bindB (readDocument env LOGICAL_BOOK_STATE_PATH) (\<lambda>current.
         writeStateAttempts sortBy env seed changes paths attempts current))) = Some loop" for loop
      using that Suc by (auto intro: resultIs_bind split: if_splits)
  qed
  then show ?case unfolding writeStateAttempts.simps Let_def
    by (intro resultIs_bind resultIs_then) (auto dest!: liftDocument_ok)
qed

text \<open>No text of a change is lost when repeated changes are left out.\<close>

abbreviation changeText :: "'r BookEnv \<Rightarrow> LogicalBookChange \<Rightarrow> LogicalChangeError + string" where
  "changeText env \<equiv> serializeLogicalBookChange (env_nfkc env) (env_localeCompare env)"

lemma uniqueChange_result:
  assumes "uniqueChange env unique change st = (Inr unique', st')" and "mapOk unique"
  shows "mapOk unique' \<and> changeText env ` insert change (snd ` set unique) \<subseteq> changeText env ` snd ` set unique'"
proof -
  have u: "unique' = mapSet (chg_changeId change) change unique"
    and same: "\<forall>current \<in> set_option (map_of unique (chg_changeId change)). changeText env current = changeText env change"
    using assms(1) by (auto simp: uniqueChange_def bindB_def returnB_def failB_def liftDocument_def split: option.splits sum.splits if_splits prod.splits)
  have ok: "mapOk unique'" unfolding u using assms(2) by simp
  have get: "map_of unique' k = (if k = chg_changeId change then Some change else map_of unique k)" for k unfolding u by (simp add: mapGet_mapSet)
  have "changeText env x \<in> changeText env ` snd ` set unique'" if "x \<in> insert change (snd ` set unique)" for x
  proof (cases "x = change \<or> map_of unique (chg_changeId change) = Some x")
    case True
    then have "changeText env x = changeText env change" using same by auto
    then show ?thesis using map_of_SomeD [of unique' "chg_changeId change" change] get by force
  next
    case False
    then have "x \<in> snd ` set unique" using that by blast
    then obtain k where "(k, x) \<in> set unique" by auto
    then have "map_of unique k = Some x" using assms(2) by (simp add: map_of_eq_Some_iff)
    then have "map_of unique' k = Some x" using get False by auto
    then show ?thesis using map_of_SomeD by force
  qed
  then show ?thesis using ok by blast
qed

lemma uniqueFold_result:
  assumes "foldB (uniqueChange env) unique changes st = (Inr unique', st')" and "mapOk unique"
  shows "changeText env ` (set changes \<union> snd ` set unique) \<subseteq> changeText env ` snd ` set unique'"
  using assms
proof (induction changes arbitrary: unique st)
  case Nil
  then show ?case by (simp add: returnB_def)
next
  case (Cons change changes)
  obtain unique1 st1 where step: "uniqueChange env unique change st = (Inr unique1, st1)"
    and run: "foldB (uniqueChange env) unique1 changes st1 = (Inr unique', st')"
    using Cons.prems(1) by (auto simp: bindB_def split: prod.splits sum.splits)
  note u = uniqueChange_result [OF step Cons.prems(2)]
  have "changeText env ` (set changes \<union> snd ` set unique1) \<subseteq> changeText env ` snd ` set unique'" using Cons.IH [OF run] u by blast
  then have ih: "changeText env ` set changes \<subseteq> changeText env ` snd ` set unique'" "changeText env ` snd ` set unique1 \<subseteq> changeText env ` snd ` set unique'"
    by (simp_all add: image_Un)
  have "changeText env ` insert change (snd ` set unique) \<subseteq> changeText env ` snd ` set unique'" using u ih(2) by (meson subset_trans)
  then show ?case using ih(1) by (simp add: image_Un)
qed

lemma uniqueChanges_result: "uniqueChanges env changes st = (Inr unique, st') \<Longrightarrow> changeText env ` set changes \<subseteq> changeText env ` set unique"
proof -
  assume "uniqueChanges env changes st = (Inr unique, st')"
  then obtain m where "foldB (uniqueChange env) [] changes st = (Inr m, st')" "unique = mapValues m"
    by (auto simp: uniqueChanges_def bindB_def returnB_def split: prod.splits sum.splits)
  then show ?thesis using uniqueFold_result [of env "[]" changes st m st'] by (simp add: mapValues_def)
qed

text \<open>After the catalog was replaced it holds the books of the state.\<close>

definition catalogOf :: "LibraryDb \<Rightarrow> jsval set" where
  "catalogOf db = {v. \<exists>k. idbGet db LOGICAL_BOOKS_STORE k = Some v}"

lemma replaced_catalog:
  assumes "replaceStateB between (books, preferences, reconciliations) st = (Inr (), st')"
  shows "catalogOf (bk_db st') \<subseteq> logicalBookVal ` set books"
  using assms
  by (auto simp: replaceStateB_def replaceLogicalBookState_def catalogOf_def idbGet_clearAndPut dest!: map_of_SomeD split: prod.splits sum.splits if_splits)

lemma finishRun_database: "bk_db (snd (finishRun env state entries operations st)) = bk_db st"
proof -
  have "callKeeps (\<lambda>st st'. bk_db st' = bk_db st) (acknowledgeB ids)" for ids by (simp add: callKeeps_def acknowledgeB_def)
  then have "callKeeps (\<lambda>st st'. bk_db st' = bk_db st) (finishRun env state entries operations)"
    unfolding finishRun_def by (auto intro!: database.keeps_intros database.keeps_documents database.keeps_deleteBackups)
  then show ?thesis by (simp add: callKeeps_def)
qed

text \<open>The operations a run reads are those of the journal it starts with.\<close>

lemma run_inputs:
  assumes "bothB (listLogicalEntries env) (bothB (pendingB env) (readDocument env path)) st = (Inr (entries, pending, initial), st')"
  shows "set pending = journalOps (bk_journal st)"
proof -
  have "bk_journal (snd (listLogicalEntries env st)) = bk_journal st"
    by (auto simp: listLogicalEntries_def failB_def liftRemote_def split: option.splits prod.splits sum.splits)
  then have "pending = pending_ops (env_localeCompare env) (bk_journal st)"
    using assms by (auto simp: bothB_def pendingB_def split_beta Let_def split: sum.splits)
  then show ?thesis by simp
qed

lemma bindB_ok: "bindB m f st = (Inr b, st') \<Longrightarrow> \<exists>a st1. m st = (Inr a, st1) \<and> f a st1 = (Inr b, st')"
  by (auto simp: bindB_def split: prod.splits sum.splits)

lemma thenB_ok: "thenB m n st = (Inr b, st') \<Longrightarrow> \<exists>a st1. m st = (Inr a, st1) \<and> n st1 = (Inr b, st')"
  unfolding thenB_def by (rule bindB_ok)

text \<open>C7. A synchronization of logical books that succeeds has published every pending change: the text of each valid change of the journal
  is among the texts of the changes that were merged, the destination was read back and held the text of that merge, the result is
  that document, and the library holds no logical book but those of the document.\<close>

theorem logical_sync_publishes:
  assumes "runLogical sortBy between env st = (Inr run, st')"
  shows "\<exists>changes base merged document r r'.
    (\<lambda>x. changeText env (changeOf (op_payload x))) ` {x \<in> journalOps (bk_journal st). isLogicalOperation env x} \<subseteq> changeText env ` set changes \<and>
    mergeLogicalBookChangesIntoState sortBy (env_nfkc env) (env_localeCompare env) base changes = Inr merged \<and>
    serializeLogicalBookState (env_nfkc env) (env_localeCompare env) (retractRecovery merged) = Inr (rd_content document) \<and>
    tr_read (env_transport env) r LOGICAL_BOOK_STATE_PATH = (Inr (Some document), r') \<and>
    parseLogicalBookState (env_nfkc env) (env_localeCompare env) (rd_content document) = Inr (lr_state run) \<and>
    catalogOf (bk_db st') \<subseteq> logicalBookVal ` set (fst (logicalBookStateView (lr_state run)))"
proof -
  obtain entries pending initial st0 documents st1 remoteChanges st2 seed st3 changes st4 state pushed st5 st6 st7 where
    inputs: "bothB (listLogicalEntries env) (bothB (pendingB env) (readDocument env LOGICAL_BOOK_STATE_PATH)) st = (Inr (entries, pending, initial), st0)"
    and unique: "uniqueChanges env (remoteChanges @ map (\<lambda>x. changeOf (op_payload x)) (filter (isLogicalOperation env) pending)) st3 = (Inr changes, st4)"
    and written: "writeMergedState sortBy env initial seed changes (legacyPaths remoteChanges) st4 = (Inr (state, pushed), st5)"
    and replaced: "replaceStateB between (logicalBookStateView state) st5 = (Inr (), st6)"
    and finished: "finishRun env state entries (filter (isLogicalOperation env) pending) st6 = (Inr (), st')"
    and run: "lr_state run = state"
    using assms unfolding runLogical_def Let_def
    by (auto dest!: bindB_ok thenB_ok simp: returnB_def split: prod.splits)
  have pending: "set pending = journalOps (bk_journal st)" by (rule run_inputs [OF inputs])
  have texts: "(\<lambda>x. changeText env (changeOf (op_payload x))) ` {x \<in> journalOps (bk_journal st). isLogicalOperation env x} \<subseteq> changeText env ` set changes"
    using uniqueChanges_result [OF unique] unfolding pending [symmetric] by (auto simp: image_Un image_image)
  have "publishedState sortBy env changes state"
    using resultIsD [OF write_result written [unfolded writeMergedState_def]] by simp
  moreover have "catalogOf (bk_db st') \<subseteq> logicalBookVal ` set (fst (logicalBookStateView state))"
    using replaced_catalog [of between "fst (logicalBookStateView state)" "fst (snd (logicalBookStateView state))" "snd (snd (logicalBookStateView state))" st5 st6]
      replaced finishRun_database [of env state entries "filter (isLogicalOperation env) pending" st6] finished by simp
  ultimately show ?thesis using texts run unfolding publishedState_def by blast
qed

text \<open>A destination with one document.\<close>

definition oneDocument :: "string option LibraryTransport" where
  "oneDocument = \<lparr>tr_list = (\<lambda>r _. (Inr [], r)),
     tr_read = (\<lambda>r path. (Inr (case r of None \<Rightarrow> None | Some content \<Rightarrow>
       if path = LOGICAL_BOOK_STATE_PATH then Some \<lparr>rd_path = path, rd_content = content, rd_revision = ''1''\<rparr> else None), r)),
     tr_write = (\<lambda>r path content _. (Inr \<lparr>rd_path = path, rd_content = content, rd_revision = ''1''\<rparr>, Some content)),
     tr_destinationRevision = None, tr_listEntries = Some (\<lambda>_ r. (Inr [], r)), tr_deleteEntries = None, tr_deleteEntry = None, tr_deleteDocument = None,
     tr_headObject = (\<lambda>_ r. (Inr None, r)), tr_downloadObject = (\<lambda>_ r. (Inl TransportFailure, r)),
     tr_uploadObject = (\<lambda>_ r. (Inl TransportFailure, r)), tr_deleteObject = None\<rparr>"

definition oneEnv :: "string option BookEnv" where
  "oneEnv = \<lparr>env_transport = oneDocument, env_localeCompare = codeUnitCompare, env_nfkc = id, env_sha256 = (\<lambda>_. sampleHash),
     env_fingerprinter = (\<lambda>_. ''sha256:'' @ sampleHash), env_fs = \<lparr>fs_directory = False, fs_written = (\<lambda>_ _. None), fs_readable = (\<lambda>_. False)\<rparr>,
     env_accepts = (\<lambda>_. True), env_now = ''2024-05-05T10:00:00.000Z'', env_aborted = (\<lambda>_. False), env_maxConflictRetries = 3\<rparr>"

definition oneState :: "string option BookState" where
  "oneState = \<lparr>bk_remote = None, bk_db = bk_db emptyBookState, bk_journal = emptyJournal, bk_exclusions = newExclusions (Some None), bk_mutated = False\<rparr>"

lemma empty_state_text:
  obtains content where "serializeLogicalBookState id codeUnitCompare emptyLogicalBookState = Inr content"
    and "parseLogicalBookState id codeUnitCompare content = Inr emptyLogicalBookState"
proof -
  let ?text = "prettyAt 0 (stateVal emptyLogicalBookState) @ [CHR 0x0A]"
  have c: "canonicalizeLogicalBookState codeUnitCompare emptyLogicalBookState = emptyLogicalBookState"
    "isLogicalBookStateDocument id codeUnitCompare (stateVal emptyLogicalBookState)" "stateOf (stateVal emptyLogicalBookState) = emptyLogicalBookState"
    "plainJson (stateVal emptyLogicalBookState)" "length ?text \<le> 200" by code_simp+
  have len: "byteLength ?text \<le> LOGICAL_BOOK_STATE_MAX_BYTES"
    using byteLength_bound [of ?text] c(5) by (simp add: LOGICAL_BOOK_STATE_MAX_BYTES_def del: prettyAt.simps)
  have "parseJson ?text = Some (stateVal emptyLogicalBookState)" by (rule parseJson_pretty [OF c(4)]) (simp add: isJsonSpace_def)
  then have "parseLogicalBookState id codeUnitCompare ?text = Inr emptyLogicalBookState"
    using len c by (simp add: parseLogicalBookState_def del: prettyAt.simps)
  moreover have "serializeLogicalBookState id codeUnitCompare emptyLogicalBookState = Inr ?text"
    using len c by (simp add: serializeLogicalBookState_def Let_def del: prettyAt.simps)
  ultimately show ?thesis using that by blast
qed

lemma first_run: "\<exists>run st'. runLogical (\<lambda>c xs. xs) (\<lambda>d. d) oneEnv oneState = (Inr run, st') \<and> lr_state run = emptyLogicalBookState"
proof -
  obtain content where texts: "serializeLogicalBookState id codeUnitCompare emptyLogicalBookState = Inr content"
    "parseLogicalBookState id codeUnitCompare content = Inr emptyLogicalBookState" by (rule empty_state_text)
  have env: "env_transport oneEnv = oneDocument" "env_localeCompare oneEnv = codeUnitCompare" "env_nfkc oneEnv = id" by (simp_all add: oneEnv_def)
  have "\<exists>r. getLogicalLibrarySnapshot codeUnitCompare (bk_db oneState) = \<lparr>snap_revision = r, snap_logicalBooks = [], snap_preferences = [], snap_reconciliations = []\<rparr>"
    by (simp add: getLogicalLibrarySnapshot_def Let_def oneState_def emptyBookState_def storeRecords_def sortedValid_def)
  then obtain r where snap: "getLogicalLibrarySnapshot codeUnitCompare (bk_db oneState) =
      \<lparr>snap_revision = r, snap_logicalBooks = [], snap_preferences = [], snap_reconciliations = []\<rparr>" by blast
  have merge: "mergeLogicalBookChangesIntoState (\<lambda>c xs. xs) id codeUnitCompare emptyLogicalBookState [] = Inr emptyLogicalBookState" by code_simp
  have seed: "localStateSnapshot oneEnv oneState = (Inr emptyLogicalBookState, oneState)"
    by (simp add: localStateSnapshot_def bindB_def snapshotB_def env snap returnB_def liftDocument_def texts [unfolded emptyLogicalBookState_def] Let_def mapValues_def
        emptyLogicalBookState_def)
  have pend: "pending_ops codeUnitCompare (bk_journal oneState) = []" by (simp add: oneState_def emptyJournal_def pending_ops_def)
  note steps = bindB_def thenB_def bothB_def returnB_def pendingB_def liftRemote_def liftDocument_def Let_def env pend
  have inputs: "bothB (listLogicalEntries oneEnv) (bothB (pendingB oneEnv) (readDocument oneEnv LOGICAL_BOOK_STATE_PATH)) oneState = (Inr ([], [], None), oneState)"
    by (simp add: steps listLogicalEntries_def readDocument_def oneDocument_def) (simp add: oneState_def)
  let ?st = "oneState\<lparr>bk_remote := Some content\<rparr>"
  have retract: "retractRecovery emptyLogicalBookState = emptyLogicalBookState" by code_simp
  have publish: "publishState oneEnv None content oneState = (Inr (emptyLogicalBookState, 1), ?st)"
    by (simp add: publishState_def steps readDocument_def oneDocument_def texts)
  have reconcile: "reconcileActiveVariants oneEnv emptyLogicalBookState [] st = (Inr (), st)" for st
    by (simp add: reconcileActiveVariants_def returnB_def emptyLogicalBookState_def)
  have written: "writeMergedState (\<lambda>c xs. xs) oneEnv None emptyLogicalBookState [] [] oneState = (Inr (emptyLogicalBookState, 1), ?st)"
    by (simp add: writeMergedState_def LOGICAL_STATE_WRITE_ATTEMPTS_def numeral_3_eq_3 steps merge retract texts reconcile catchConflict_def
        publish [unfolded One_nat_def])
  have unique: "uniqueChanges oneEnv [] st = (Inr [], st)" for st by (simp add: uniqueChanges_def steps mapValues_def)
  have "\<exists>st'. replaceStateB (\<lambda>d. d) (logicalBookStateView emptyLogicalBookState) ?st = (Inr (), st')"
    by (simp add: replaceStateB_def replaceLogicalBookState_def logicalBookStateView_def emptyLogicalBookState_def)
  then obtain st1 where replaced: "replaceStateB (\<lambda>d. d) (logicalBookStateView emptyLogicalBookState) ?st = (Inr (), st1)" by blast
  have finished: "finishRun oneEnv emptyLogicalBookState [] [] st1 = (Inr (), st1)"
    by (simp add: finishRun_def steps deleteLegacyLogicalEntries_def acknowledgeB_def acknowledge_def emptyLogicalBookState_def)
  have "runLogical (\<lambda>c xs. xs) (\<lambda>d. d) oneEnv oneState = (Inr \<lparr>lr_state = emptyLogicalBookState, lr_pushed = 1, lr_pulled = 0\<rparr>, st1)"
    unfolding runLogical_def Let_def bindB_def [of "bothB _ _"] inputs
    by (simp add: bindB_def thenB_def returnB_def seed unique written replaced finished legacyPaths_def)
  then show ?thesis by simp
qed

theorem logical_sync_publishes_witness:
  "\<exists>document r r'. tr_read (env_transport oneEnv) r LOGICAL_BOOK_STATE_PATH = (Inr (Some document), r') \<and>
    parseLogicalBookState (env_nfkc oneEnv) (env_localeCompare oneEnv) (rd_content document) = Inr emptyLogicalBookState"
proof -
  obtain run st' where run: "runLogical (\<lambda>c xs. xs) (\<lambda>d. d) oneEnv oneState = (Inr run, st')" "lr_state run = emptyLogicalBookState"
    using first_run by blast
  from logical_sync_publishes [OF run(1)] show ?thesis unfolding run(2) by blast
qed

section \<open>Cleaning up remote copies\<close>

lemma reconcileOrphans_waits:
  assumes "\<And>i previous. map_of (os_observations os) i = Some previous \<Longrightarrow> oc_now clock - ob_since previous < oc_graceMs clock"
    and "0 < oc_graceMs clock"
  shows "\<exists>os'. reconcileOrphans env clock candidates ids deleted os st = (Inr deleted, os', st)"
  using assms
proof (induction ids arbitrary: os)
  case (Cons i ids)
  let ?f = "orphanFingerprint env (filter (\<lambda>backup. backupId backup = i) candidates)"
  have "\<exists>os'. reconcileOrphan env clock candidates i os st = (Inr 0, os', st) \<and>
      (os_observations os' = os_observations os \<or> os_observations os' = mapSet i \<lparr>ob_fingerprint = ?f, ob_since = oc_now clock\<rparr> (os_observations os))"
  proof (cases "map_of (os_observations os) i")
    case None
    then show ?thesis by (simp add: reconcileOrphan_def Let_def)
  next
    case (Some previous)
    then show ?thesis
      using Cons.prems(1) [OF Some] by (cases "ob_fingerprint previous \<noteq> ?f \<or> oc_now clock < ob_since previous") (simp_all add: reconcileOrphan_def Let_def)
  qed
  then obtain os' where step: "reconcileOrphan env clock candidates i os st = (Inr 0, os', st)"
    and obs: "os_observations os' = os_observations os \<or> os_observations os' = mapSet i \<lparr>ob_fingerprint = ?f, ob_since = oc_now clock\<rparr> (os_observations os)"
    by blast
  have "oc_now clock - ob_since previous < oc_graceMs clock" if "map_of (os_observations os') j = Some previous" for j previous
    using obs that Cons.prems by (auto simp: mapGet_mapSet split: if_splits)
  then show ?case using Cons.IH [of os'] Cons.prems(2) step by simp
qed simp

lemma map_of_filter_some: "distinct (map fst m) \<Longrightarrow> map_of (filter P m) k = Some v \<Longrightarrow> map_of m k = Some v"
  by (auto simp: map_of_eq_Some_iff distinct_map_filter dest!: map_of_SomeD)

text \<open>C8. Remote copies are not removed before their time: as long as no publication was observed without an owner for the whole grace period
  at this destination, because nothing was observed, the destination is another one or the time has not passed, a cleanup
  deletes nothing and calls nothing but what lists the copies.\<close>

theorem cleanup_waits:
  assumes "mapOk (os_observations os)" and "0 < oc_graceMs clock"
    and "\<And>i previous. os_scope os = Some scope \<Longrightarrow> map_of (os_observations os) i = Some previous \<Longrightarrow> oc_now clock - ob_since previous < oc_graceMs clock"
  shows "snd (snd (reconcileOrphaned env clock scope os st)) = snd (listOrphaned env st) \<and>
    (fst (reconcileOrphaned env clock scope os st) \<in> Inl ` UNIV \<union> {Inr (0, False), Inr (0, True)})"
proof -
  let ?os1 = "if os_scope os \<noteq> Some scope then \<lparr>os_scope = Some scope, os_observations = []\<rparr> else os"
  obtain r st' where l: "listOrphaned env st = (r, st')" by fastforce
  show ?thesis
  proof (cases r)
    case (Inl e)
    then show ?thesis by (simp add: reconcileOrphaned_def Let_def l)
  next
    case (Inr candidates)
    define ids where "ids = jsUnique (map backupId candidates)"
    define os2 where "os2 = ?os1\<lparr>os_observations := filter (\<lambda>(i, _). i \<in> set ids) (os_observations ?os1)\<rparr>"
    have "oc_now clock - ob_since previous < oc_graceMs clock" if "map_of (os_observations os2) i = Some previous" for i previous
    proof (cases "os_scope os = Some scope")
      case True
      then have "map_of (os_observations os) i = Some previous" using map_of_filter_some [OF assms(1)] that by (simp add: os2_def)
      then show ?thesis using assms(3) True by blast
    qed (use that in \<open>simp add: os2_def\<close>)
    then obtain os3 where "reconcileOrphans env clock candidates ids 0 os2 st' = (Inr 0, os3, st')"
      using reconcileOrphans_waits [of os2 clock env candidates ids 0 st'] assms(2) by blast
    then show ?thesis by (simp add: reconcileOrphaned_def Let_def l Inr ids_def [symmetric] os2_def [symmetric])
  qed
qed

theorem cleanup_waits_witness:
  "let os = \<lparr>os_scope = Some ''default'', os_observations = [(''sha256:'' @ sampleHash, \<lparr>ob_fingerprint = ''[]'', ob_since = 1000\<rparr>)]\<rparr> in
   snd (snd (reconcileOrphaned oneEnv \<lparr>oc_now = 2000, oc_graceMs = 300000\<rparr> ''default'' os oneState)) = snd (listOrphaned oneEnv oneState)"
proof -
  let ?os = "\<lparr>os_scope = Some ''default'', os_observations = [(''sha256:'' @ sampleHash, \<lparr>ob_fingerprint = ''[]'', ob_since = 1000\<rparr>)]\<rparr>"
  show ?thesis unfolding Let_def
    by (rule cleanup_waits [THEN conjunct1]) (auto split: if_splits)
qed

end
