(* ===== verification/Spec2Isabelle.thy ===== *)
theory Spec2Isabelle
  imports Preference_State Logical_Fold Library_Health Preference_Sync Auto_Sync_Safety Sync_Worker_Safety Document_Text Catalog_Refinement
    Mark_Sync_Safety Manifest_Sync Outbox_Journal Book_Sync_Safety Logical_Sync_Safety
begin

text \<open>
  A verification library for Omnia Reader, an offline-first reader for EPUB and PDF publications that
  synchronizes a library between devices through a remote store.

  \<^bold>\<open>The program.\<close> A device keeps its library in object stores: publications, reading progress,
  bookmarks, annotations, preferences and logical books, which group the EPUB and the PDF of one work.
  Local changes are recorded in a journal or an outbox. Synchronization services exchange documents with
  a remote store that knows no transactions: every document is written with the revision that was read
  and a write that lost a race is reported as a conflict. Replicas therefore converge only if the merge
  rules of the documents do, and a guard stands before every document that is read back.

  \<^bold>\<open>Foundations.\<close>
  \<^item> \<open>JS_Prelude\<close>: comparators and their combination, insertion sort as the engine sort, keyed maps in
    insertion order, sequencing of results. Interfaces: \<open>comparator\<close>, \<open>strict_comparator\<close>, \<open>collation\<close>,
    \<open>strict_collation\<close>, \<open>engine_sort\<close>.
  \<^item> \<open>JS_Values\<close>, \<open>JS_Date\<close>: values of unknown type, coercions, JSON text, the guards every file repeats,
    ISO time stamps and that their text order is the order in time.
  \<^item> \<open>Lww\<close>: the last-writer-wins rule as the interface \<open>lww\<close> and the convergence of replicas under it.
  \<^item> \<open>Object_Store\<close>: key-ordered object stores, interface \<open>object_store\<close>.
  \<^item> \<open>JSON_Text\<close>, \<open>JSON_Roundtrip\<close>: a parser for JSON text, with fuel one above the length of the text, and that it reads
    what \<open>JSON.stringify\<close> writes, indented or not.

  \<^bold>\<open>Domain\<close> (\<open>src/libs/reader/domain/src/lib\<close>).
  \<^item> \<open>Publication\<close>: \<open>publication.ts\<close>, \<open>publication-format.ts\<close>, \<open>publication-record-validation.ts\<close>,
    \<open>reader-preferences.ts\<close>.
  \<^item> \<open>Bookmarks\<close>, \<open>Annotations\<close>: \<open>publication-bookmark.ts\<close>, \<open>publication-annotation.ts\<close>; guards and convergence,
    and the tie that bookmarks do not break.
  \<^item> \<open>Preference_State\<close>: \<open>reader-preference-sync-state.ts\<close>; the merge of preference registers is a semilattice
    on valid states and its view is a well-typed preference record.
  \<^item> \<open>Logical_Book\<close>: \<open>logical-book.ts\<close>.

  \<^bold>\<open>Synchronized documents\<close> (\<open>src/libs/sync/core/src/lib\<close>).
  \<^item> \<open>Book_Manifest\<close>: \<open>library-sync-manifest.ts\<close>, \<open>book-sync-manifest.ts\<close>, \<open>progress-paths.ts\<close>; paths stay inside
    their root, manifests round-trip.
  \<^item> \<open>Logical_Change\<close>, \<open>Change_Graph\<close>, \<open>Logical_State\<close>, \<open>Logical_Invariant\<close>, \<open>Logical_Replay\<close>:
    \<open>logical-book-change.ts\<close> and \<open>logical-book-state.ts\<close>; a merge keeps every publication in at most one
    logical book, applying a change twice is applying it once, the canonical form is stable, and the
    concurrent deletion that the guard rejects.
  \<^item> \<open>Document_Text\<close>: the parsers of changes and states; the texts of changes, states and progress documents round-trip.
  \<^item> \<open>Logical_Fold\<close>: \<open>logical-book-merge.ts\<close>; the fold keeps memberships exclusive.

  \<^bold>\<open>Local store and progress.\<close>
  \<^item> \<open>Library_Store\<close>: the validated reads of \<open>src/libs/library/data-access/src/lib/browser-library-repository.ts\<close> with
    their quarantine; no read loses a record, what is saved can be read back. Interface
    \<open>record_repository\<close>.
  \<^item> \<open>Binary_Storage\<close>, \<open>Library_Import\<close>, \<open>Library_Health\<close>: \<open>publication-binary-storage.ts\<close> and the operations of the
    repository on publications: bytes in files or in the database, covers, health checks, import, metadata,
    removal, replacing and restoring the catalog. An imported publication can be opened; what opens has
    the size, the format and the digest of its record; and four ways a publication or a decision is lost.
  \<^item> \<open>Library_Catalog\<close>, \<open>Catalog_Mutations\<close>, \<open>Catalog_Invariant\<close>, \<open>Catalog_Safety\<close>: logical books in the repository;
    every operation keeps a publication in at most one logical book, whatever the others do between the
    reads and the transaction of a mutation, and a deletion leaves nothing of the publication behind.
  \<^item> \<open>Catalog_Refinement\<close>: the abstract catalog is a relation between logical books, formats and publications; sessions of
    the repository refine its runs.
  \<^item> \<open>Operation_Journal\<close>: \<open>src/libs/sync/git/src/lib/indexed-db-operation-journal.ts\<close>.
  \<^item> \<open>Progress\<close>, \<open>Progress_Sync\<close>: \<open>progress-merge.ts\<close>, \<open>progress-sync-service.ts\<close>; a push acknowledges only what
    is stored, a pull never moves a reader back.

  \<^bold>\<open>Services.\<close>
  \<^item> \<open>Mark_Sync\<close>, \<open>Mark_Sync_Safety\<close>: \<open>bookmark-sync-service.ts\<close> and \<open>annotation-sync-service.ts\<close> as one program over the kind
    of mark. The interface \<open>mark_kind\<close> says what a kind provides and is interpreted for both. A push acknowledges only what the
    destination holds, a pull never replaces a mark by an older one.
  \<^item> \<open>Manifest_Sync\<close>: \<open>library-sync-manifest-service.ts\<close>; a root is only written over what was recognized, and a legacy root
    only after its preparation.
  \<^item> \<open>Outbox_Journal\<close>: \<open>logical-book-outbox-journal.ts\<close>; it shows and acknowledges exactly the operations of both sides.
  \<^item> \<open>Sync_Provider\<close>, \<open>Sync_Catalog\<close>: \<open>sync-provider-selection.ts\<close>, \<open>library-sync-transport.ts\<close>, \<open>book-sync-exclusions.ts\<close>,
    \<open>book-sync-catalog.ts\<close>; selections and exclusions survive a restart, up to the limit that the guard sets.
  \<^item> \<open>Book_Sync\<close>, \<open>Book_Sync_Safety\<close>: \<open>book-sync-service.ts\<close> on calls that may fail. A pull adds only verified publications, a
    published one is pulled by another device, and the restoration that is forgotten. The interface \<open>call_relation\<close> carries a preorder
    on states through the calls of a program; it is interpreted for the publications, the exclusions and the journal.
  \<^item> \<open>Book_Backup\<close>, \<open>Logical_Sync\<close>, \<open>Logical_Sync_Safety\<close>: \<open>remote-book-backup-service.ts\<close> and \<open>logical-book-sync-service.ts\<close>. A
    run that fails keeps the pending changes, a run that succeeds has published them, and remote copies are removed only after
    they were observed for the grace period. The state is written in at most three attempts.

  \<^bold>\<open>Preferences and automatic synchronization.\<close>
  \<^item> \<open>Preference_Store\<close>, \<open>Preference_Text\<close>, \<open>Preference_Sync\<close>: the preferences of the repository with their outbox, the
    text of the remote state with its scanner for repeated keys, and \<open>reader-preference-sync-service.ts\<close>. Revisions grow
    and stay in range, the scanner returns on every text that parses, a synchronization loses no change; and the
    revision that is given out twice.
  \<^item> \<open>Auto_Sync\<close>, \<open>Auto_Sync_Safety\<close>: \<open>auto-sync-scheduler.ts\<close> as a state machine over a clock, a connection and a
    selected provider. No request is forgotten, requests lead to synchronizations, rate limits are kept; and the
    requests and limits that are lost.
  \<^item> \<open>Sync_Worker\<close>, \<open>Sync_Worker_Safety\<close>: \<open>library-sync-coordinator.ts\<close> and \<open>change-aware-sync-worker.ts\<close>. A synchronization is
    skipped only on evidence; and the revision without a scope that passes for one.

  \<^bold>\<open>Parameters.\<close> The collation behind \<open>localeCompare\<close> is an argument: the hypothesis \<open>collation\<close> says it is a
  total preorder, \<open>strict_collation\<close> that only equal texts tie; comparison by code unit satisfies both.
  \<open>normalize('NFKC')\<close> is an argument of the path functions. The sort of the engine is an argument where the
  comparator is inconsistent. The transport is an argument on a remote state that may change between two
  calls. Clocks and random identifiers are arguments.

  \<^bold>\<open>Idealizations.\<close> Characters have eight bits. Numbers are exact rationals with the special values.
  Properties of an object keep their order of insertion. A typed record holds the properties the type
  names. Database transactions succeed. Retries of a push are bounded by the configured number, which is
  the argument the loop counts down.

  \<^bold>\<open>Not modelled.\<close> The rendering engines and the user interface drive third-party renderers and the DOM. The
  gateway, the hosted transports and the desktop and mobile shells are I/O. Of the repository,
  the database upgrade; of the services, the move of an older root and the recovery of single publications; backup archives. The
  unique indexes of the logical book store are not modelled: what they refuse is what \<open>exclusiveCatalog\<close>
  excludes, and the operations keep it without them.
\<close>

end
